(* ===== verification/Prelude.thy ===== *)
theory Prelude
  imports Main "HOL-Library.Char_ord" "HOL-Library.List_Lexorder"
    "HOL-Library.Product_Lexorder" "HOL-Library.Sublist"
begin

text \<open>
  Shared vocabulary of the development: the exceptions the services raise, the Python string
  operations they use, on Latin-1 text (code points below 256, with case conversion of the ASCII
  letters only), and the tables the repositories keep.

  \<^item> An operation of a repository is a function from the database to an \<open>outcome\<close>: either the
    raised exception (\<open>Inl\<close>) or the returned value (\<open>Inr\<close>), with the database as the operation
    left it (what was committed before an exception stays committed).
  \<^item> A table is the list of its rows in insertion order. \<open>row_of key t\<close> is the partial function
    from primary keys to rows; the lemmas in the collection \<open>tables\<close> say what an insertion and a
    guarded update do to it, and how they change the number of rows that satisfy a condition.
  \<^item> Instants are integers: microseconds since the epoch, in UTC.
\<close>

named_theorems tables \<open>rewriting of table lookups and counts after inserts, updates and deletes\<close>

section \<open>Exceptions and outcomes\<close>

datatype py_error =
    ValueError string
  | ValidationError string
  | LookupError string
  | RuntimeError string
  | PermissionError string
  | IntegrityError
  | OperationalError
  | StaleDataError
  | InvalidRequestError
  | OSError string
  | OtherError string string

type_synonym 'a result = "py_error + 'a"
type_synonym ('a, 's) outcome = "'a result \<times> 's"

definition bindE :: "'a result \<Rightarrow> ('a \<Rightarrow> 'b result) \<Rightarrow> 'b result" where
  "bindE r f = (case r of Inl e \<Rightarrow> Inl e | Inr a \<Rightarrow> f a)"

lemma bindE_simps [simp]: "bindE (Inl e) f = Inl e" "bindE (Inr a) f = f a"
  by (simp_all add: bindE_def)

lemma bindE_Inr: "bindE r f = Inr b \<longleftrightarrow> (\<exists>a. r = Inr a \<and> f a = Inr b)"
  by (cases r) simp_all

definition is_ok :: "'a result \<Rightarrow> bool" where
  "is_ok r = (case r of Inl _ \<Rightarrow> False | Inr _ \<Rightarrow> True)"

lemma is_ok_simps [simp]: "\<not> is_ok (Inl e)" "is_ok (Inr a)"
  by (simp_all add: is_ok_def)

section \<open>Instants\<close>

type_synonym time = int

definition seconds :: "int \<Rightarrow> time" where
  "seconds n = n * 1000000"

definition days :: "int \<Rightarrow> time" where
  "days n = seconds (n * 86400)"

lemma seconds_pos [simp]: "0 < seconds n \<longleftrightarrow> 0 < n" "0 \<le> seconds n \<longleftrightarrow> 0 \<le> n"
  by (auto simp: seconds_def)

section \<open>Python strings\<close>

definition code_of :: "char \<Rightarrow> nat" where
  "code_of c = of_char c"

definition is_space :: "char \<Rightarrow> bool" where
  "is_space c = (code_of c = 32 \<or> 9 \<le> code_of c \<and> code_of c \<le> 13
     \<or> 28 \<le> code_of c \<and> code_of c \<le> 31 \<or> code_of c = 0x85 \<or> code_of c = 0xA0)"

definition is_lower :: "char \<Rightarrow> bool" where
  "is_lower c = (97 \<le> code_of c \<and> code_of c \<le> 122)"

definition is_upper :: "char \<Rightarrow> bool" where
  "is_upper c = (65 \<le> code_of c \<and> code_of c \<le> 90)"

definition is_digit :: "char \<Rightarrow> bool" where
  "is_digit c = (48 \<le> code_of c \<and> code_of c \<le> 57)"

definition to_lower :: "char \<Rightarrow> char" where
  "to_lower c = (if is_upper c then char_of (code_of c + 32) else c)"

definition to_upper :: "char \<Rightarrow> char" where
  "to_upper c = (if is_lower c then char_of (code_of c - 32) else c)"

definition lower :: "string \<Rightarrow> string" where
  "lower s = map to_lower s"

definition upper :: "string \<Rightarrow> string" where
  "upper s = map to_upper s"

definition strip_by :: "(char \<Rightarrow> bool) \<Rightarrow> string \<Rightarrow> string" where
  "strip_by p s = rev (dropWhile p (rev (dropWhile p s)))"

definition strip :: "string \<Rightarrow> string" where
  "strip s = strip_by is_space s"

definition startswith :: "string \<Rightarrow> string \<Rightarrow> bool" where
  "startswith s p = (take (length p) s = p)"

definition endswith :: "string \<Rightarrow> string \<Rightarrow> bool" where
  "endswith s p = startswith (rev s) (rev p)"

definition replace_char :: "char \<Rightarrow> char \<Rightarrow> string \<Rightarrow> string" where
  "replace_char a b s = map (\<lambda>c. if c = a then b else c) s"

text \<open>\<open>s.replace(old, new)\<close>: leftmost, non-overlapping occurrences of a non-empty \<open>old\<close>.\<close>

function replace_sub :: "string \<Rightarrow> string \<Rightarrow> string \<Rightarrow> string" where
  "replace_sub old new s =
     (if s = [] \<or> old = [] then s
      else if startswith s old then new @ replace_sub old new (drop (length old) s)
      else hd s # replace_sub old new (tl s))"
  by pat_completeness auto
termination
  by (relation "measure (\<lambda>(old, new, s). length s)") (auto simp: length_greater_0_conv)

declare replace_sub.simps [simp del]

fun join_commas :: "string list \<Rightarrow> string" where
  "join_commas [] = []"
| "join_commas [s] = s"
| "join_commas (s # t # ss) = s @ '', '' @ join_commas (t # ss)"

text \<open>\<open>repr\<close> of a text.\<close>

definition hex_digit :: "nat \<Rightarrow> char" where
  "hex_digit n = char_of (if n < 10 then 48 + n else 87 + n)"

definition py_repr :: "string \<Rightarrow> string" where
  "py_repr s =
     (let quote = (if CHR 0x27 \<in> set s \<and> CHR 0x22 \<notin> set s then CHR 0x22 else CHR 0x27)
      in [quote] @ concat (map (\<lambda>c.
           if c = quote \<or> c = CHR 0x5C then [CHR 0x5C, c]
           else if code_of c = 9 then [CHR 0x5C, CHR ''t''] else if code_of c = 10 then [CHR 0x5C, CHR ''n'']
           else if code_of c = 13 then [CHR 0x5C, CHR ''r'']
           else if code_of c < 32 \<or> code_of c = 127
           then [CHR 0x5C, CHR ''x'', hex_digit (code_of c div 16), hex_digit (code_of c mod 16)]
           else [c]) s) @ [quote])"

fun str_of_nat :: "nat \<Rightarrow> string" where
  "str_of_nat n =
     (if n < 10 then [char_of (48 + n)] else str_of_nat (n div 10) @ [char_of (48 + n mod 10)])"

declare str_of_nat.simps [simp del]

definition str_of_int :: "int \<Rightarrow> string" where
  "str_of_int i = (if i < 0 then ''-'' @ str_of_nat (nat (- i)) else str_of_nat (nat i))"

definition all_space :: "string \<Rightarrow> bool" where
  "all_space s = (strip s = [])"

lemma to_upper_idem [simp]: "to_upper (to_upper c) = to_upper c"
  by (auto simp: to_upper_def is_lower_def code_of_def)

lemma upper_idem [simp]: "upper (upper s) = upper s"
  by (simp add: upper_def)

lemma replace_char_idem: "b \<noteq> a \<Longrightarrow> replace_char a b (replace_char a b s) = replace_char a b s"
  by (simp add: replace_char_def)

lemma dropWhile_hd: "dropWhile p s \<noteq> [] \<Longrightarrow> \<not> p (hd (dropWhile p s))"
  using hd_dropWhile by blast

lemma strip_by_fixed:
  assumes "s = [] \<or> (\<not> p (hd s) \<and> \<not> p (last s))"
  shows "strip_by p s = s"
proof (cases s)
  case Nil
  then show ?thesis by (simp add: strip_by_def)
next
  case (Cons c cs)
  with assms have "dropWhile p s = s" by simp
  moreover have "dropWhile p (rev s) = rev s"
    using assms Cons by (cases "rev s") (auto simp: last_rev hd_rev[symmetric])
  ultimately show ?thesis by (simp add: strip_by_def)
qed

lemma strip_by_ends:
  "strip_by p s = [] \<or> (\<not> p (hd (strip_by p s)) \<and> \<not> p (last (strip_by p s)))"
proof (cases "strip_by p s = []")
  case False
  let ?a = "dropWhile p s" and ?b = "dropWhile p (rev (dropWhile p s))"
  from False have b: "?b \<noteq> []" by (simp add: strip_by_def)
  then have a: "?a \<noteq> []" by (metis dropWhile.simps(1) rev.simps(1))
  have last: "\<not> p (last (strip_by p s))"
    using dropWhile_hd [OF b] b by (simp add: strip_by_def last_rev)
  obtain zs where "rev ?a = zs @ ?b"
    using suffix_dropWhile [of p "rev ?a"] unfolding suffix_def by blast
  then have "last ?b = last (rev ?a)"
    using b by (metis last_appendR)
  then have "hd (strip_by p s) = hd ?a"
    using a b by (simp add: strip_by_def hd_rev last_rev)
  with dropWhile_hd [OF a] last show ?thesis by simp
qed simp

lemma strip_by_idem [simp]: "strip_by p (strip_by p s) = strip_by p s"
  by (rule strip_by_fixed) (rule strip_by_ends)

lemma strip_idem [simp]: "strip (strip s) = strip s"
  by (simp add: strip_def)

lemma strip_by_map: "strip_by p (map f s) = map f (strip_by (p \<circ> f) s)"
  by (simp add: strip_by_def dropWhile_map rev_map)

lemma code_of_char_of [simp]: "n < 256 \<Longrightarrow> code_of (char_of n) = n"
  by (simp add: code_of_def)

lemma code_of_less [simp]: "code_of c < 256"
  by (simp add: code_of_def)

lemma code_of_eq_iff: "code_of c = code_of d \<longleftrightarrow> c = d"
  by (simp add: code_of_def of_char_eq_iff)

lemma is_space_to_upper [simp]: "is_space (to_upper c) = is_space c"
  by (auto simp: to_upper_def is_space_def is_lower_def)

lemma strip_upper: "strip (upper s) = upper (strip s)"
  by (simp add: strip_def upper_def strip_by_map comp_def)

lemma strip_replace_char:
  "\<not> is_space a \<Longrightarrow> \<not> is_space b \<Longrightarrow> strip (replace_char a b s) = replace_char a b (strip s)"
proof -
  assume "\<not> is_space a" "\<not> is_space b"
  then have "is_space \<circ> (\<lambda>c. if c = a then b else c) = is_space"
    by (auto simp: fun_eq_iff)
  then show ?thesis by (simp add: strip_def replace_char_def strip_by_map)
qed

lemma set_strip_by: "set (strip_by p s) \<subseteq> set s"
  by (auto simp: strip_by_def dest!: set_dropWhileD)

section \<open>Tables\<close>

type_synonym 'r tbl = "'r list"

definition row_of :: "('r \<Rightarrow> 'k) \<Rightarrow> 'r tbl \<Rightarrow> 'k \<Rightarrow> 'r option" where
  "row_of key t k = find (\<lambda>r. key r = k) t"

definition first_where :: "('r \<Rightarrow> bool) \<Rightarrow> 'r tbl \<Rightarrow> 'r option" where
  "first_where P t = find P t"

definition update_where :: "('r \<Rightarrow> bool) \<Rightarrow> ('r \<Rightarrow> 'r) \<Rightarrow> 'r tbl \<Rightarrow> 'r tbl" where
  "update_where P f t = map (\<lambda>r. if P r then f r else r) t"

definition count_where :: "('r \<Rightarrow> bool) \<Rightarrow> 'r tbl \<Rightarrow> nat" where
  "count_where P t = length (filter P t)"

definition delete_where :: "('r \<Rightarrow> bool) \<Rightarrow> 'r tbl \<Rightarrow> 'r tbl" where
  "delete_where P t = filter (\<lambda>r. \<not> P r) t"

text \<open>
  The commit of an inserted row fails (the caller sees an \<open>IntegrityError\<close>) when a stored row
  conflicts with it on a primary key or a unique constraint.
\<close>

definition insert_row :: "('r \<Rightarrow> 'r \<Rightarrow> bool) \<Rightarrow> 'r \<Rightarrow> 'r tbl \<Rightarrow> 'r tbl option" where
  "insert_row conflict r t = (if list_ex (\<lambda>x. conflict x r) t then None else Some (t @ [r]))"

definition keyed :: "('r \<Rightarrow> 'k) \<Rightarrow> 'r tbl \<Rightarrow> bool" where
  "keyed key t = distinct (map key t)"

lemma find_SomeD: "find P t = Some r \<Longrightarrow> r \<in> set t \<and> P r"
  by (induction t) (auto split: if_splits)

lemma find_NoneD: "find P t = None \<longleftrightarrow> (\<forall>r \<in> set t. \<not> P r)"
  by (induction t) auto

lemma row_of_Nil [simp]: "row_of key [] k = None"
  by (simp add: row_of_def)

lemma row_of_Cons: "row_of key (r # t) k = (if key r = k then Some r else row_of key t k)"
  by (simp add: row_of_def)

lemma row_of_SomeD: "row_of key t k = Some r \<Longrightarrow> r \<in> set t \<and> key r = k"
  by (auto simp: row_of_def find_Some_iff)

lemma row_of_None: "row_of key t k = None \<longleftrightarrow> (\<forall>r \<in> set t. key r \<noteq> k)"
  by (auto simp: row_of_def find_None_iff)

lemma row_of_member: "keyed key t \<Longrightarrow> r \<in> set t \<Longrightarrow> row_of key t (key r) = Some r"
  by (induction t) (auto simp: row_of_Cons keyed_def)

lemma row_of_eq_iff: "keyed key t \<Longrightarrow> row_of key t k = Some r \<longleftrightarrow> r \<in> set t \<and> key r = k"
  by (auto dest: row_of_SomeD row_of_member)

lemma row_of_append [tables]:
  "row_of key (t @ [r]) k =
     (case row_of key t k of Some x \<Rightarrow> Some x | None \<Rightarrow> if key r = k then Some r else None)"
  by (induction t) (auto simp: row_of_Cons)

lemma row_of_update:
  assumes "\<And>r. key (f r) = key r"
  shows "row_of key (update_where P f t) k =
    map_option (\<lambda>r. if P r then f r else r) (row_of key t k)"
  using assms by (induction t) (auto simp: row_of_Cons update_where_def)

lemma row_of_update_key [tables]:
  assumes "\<And>r. key (f r) = key r"
  shows "row_of key (update_where (\<lambda>r. key r = k \<and> P r) f t) k' =
    (if k' = k then map_option (\<lambda>r. if P r then f r else r) (row_of key t k)
     else row_of key t k')"
  using assms
  by (induction t) (auto simp: row_of_Cons update_where_def)

lemma row_of_update_at [tables]:
  assumes "\<And>r. key (f r) = key r"
  shows "row_of key (update_where (\<lambda>r. key r = k) f t) k' =
    (if k' = k then map_option f (row_of key t k) else row_of key t k')"
  using row_of_update_key [of key f k "\<lambda>_. True" t k'] assms by simp

lemma keyed_update [tables]:
  assumes "\<And>r. key (f r) = key r"
  shows "keyed key (update_where P f t) = keyed key t"
proof -
  have "map key (update_where P f t) = map key t"
    using assms by (simp add: update_where_def)
  then show ?thesis by (simp add: keyed_def)
qed

lemma keyed_append [tables]: "keyed key (t @ [r]) \<longleftrightarrow> keyed key t \<and> row_of key t (key r) = None"
  by (auto simp: keyed_def row_of_None intro: rev_image_eqI)

lemma keyed_delete: "keyed key t \<Longrightarrow> keyed key (delete_where P t)"
  by (induction t) (auto simp: keyed_def delete_where_def)

lemma row_of_delete:
  "keyed key t \<Longrightarrow> row_of key (delete_where P t) k =
     (case row_of key t k of None \<Rightarrow> None | Some r \<Rightarrow> if P r then None else Some r)"
  by (induction t)
     (auto simp: row_of_Cons keyed_def delete_where_def row_of_None
           split: option.splits dest!: row_of_SomeD intro: rev_image_eqI)

lemma count_where_append [tables]:
  "count_where P (t @ [r]) = count_where P t + (if P r then 1 else 0)"
  by (simp add: count_where_def)

lemma count_where_key:
  "keyed key t \<Longrightarrow> count_where (\<lambda>r. key r = k \<and> P r) t =
     (case row_of key t k of None \<Rightarrow> 0 | Some r \<Rightarrow> if P r then 1 else 0)"
  by (induction t)
     (auto simp: count_where_def row_of_Cons keyed_def row_of_None filter_empty_conv
           split: option.splits dest!: row_of_SomeD intro: rev_image_eqI)

lemma first_where_key [tables]:
  assumes "keyed key t"
  shows "first_where (\<lambda>r. P r \<and> key r = k) t =
    (case row_of key t k of None \<Rightarrow> None | Some r \<Rightarrow> if P r then Some r else None)"
  using assms
proof (induction t)
  case (Cons a t)
  show ?case
  proof (cases "key a = k")
    case True
    with Cons.prems have "\<forall>r \<in> set t. key r \<noteq> k"
      by (auto simp: keyed_def intro: rev_image_eqI)
    then have "find (\<lambda>r. P r \<and> key r = k) t = None" by (auto simp: find_NoneD)
    with True show ?thesis by (simp add: first_where_def row_of_Cons)
  next
    case False
    with Cons show ?thesis by (simp add: first_where_def row_of_Cons keyed_def)
  qed
qed (simp add: first_where_def)

lemma count_where_update_key:
  assumes "keyed key t"
  shows "int (count_where P (update_where (\<lambda>r. key r = k \<and> Q r) f t)) =
    int (count_where P t) +
    (case row_of key t k of None \<Rightarrow> 0
     | Some r \<Rightarrow> if Q r then of_bool (P (f r)) - of_bool (P r) else 0)"
  using assms
proof (induction t)
  case (Cons a t)
  show ?case
  proof (cases "key a = k")
    case True
    with Cons.prems have "\<forall>r \<in> set t. key r \<noteq> k"
      by (auto simp: keyed_def intro: rev_image_eqI)
    then have "update_where (\<lambda>r. key r = k \<and> Q r) f t = t"
      by (force simp: update_where_def intro: map_idI)
    with True show ?thesis
      by (simp add: update_where_def count_where_def row_of_Cons)
  next
    case False
    with Cons show ?thesis
      by (simp add: update_where_def count_where_def row_of_Cons keyed_def)
  qed
qed (simp add: count_where_def update_where_def)

text \<open>A guarded update that matches its row is the unguarded one; otherwise it does nothing.\<close>

lemma update_where_matches:
  assumes "keyed key t" "row_of key t k = Some r" "P r"
  shows "update_where (\<lambda>r. key r = k \<and> P r) f t = update_where (\<lambda>r. key r = k) f t"
proof -
  have "x = r" if "x \<in> set t" "key x = k" for x
    using row_of_member [OF assms(1) that(1)] assms(2) that(2) by simp
  with assms(3) show ?thesis by (auto simp: update_where_def)
qed

lemma count_where_one:
  "keyed key t \<Longrightarrow> count_where (\<lambda>r. key r = k \<and> P r) t = 1 \<longleftrightarrow>
     (\<exists>r. row_of key t k = Some r \<and> P r)"
  using count_where_key [of key t k P] by (cases "row_of key t k") simp_all

lemma insert_row_Some:
  "insert_row conflict r t = Some t' \<longleftrightarrow> t' = t @ [r] \<and> \<not> (\<exists>x \<in> set t. conflict x r)"
  by (auto simp: insert_row_def list_ex_iff)

lemma insert_row_None: "insert_row conflict r t = None \<longleftrightarrow> (\<exists>x \<in> set t. conflict x r)"
  by (auto simp: insert_row_def list_ex_iff)

lemma insert_row_key:
  "insert_row (\<lambda>x y. key x = key y) r t = Some t' \<longleftrightarrow> t' = t @ [r] \<and> row_of key t (key r) = None"
  by (auto simp: insert_row_Some row_of_None)

lemma insert_row_key_None:
  "insert_row (\<lambda>x y. key x = key y) r t = None \<longleftrightarrow> row_of key t (key r) \<noteq> None"
  by (auto simp: insert_row_None row_of_None)

lemma set_update_where: "set (update_where P f t) = (\<lambda>r. if P r then f r else r) ` set t"
  by (simp add: update_where_def)

lemma set_delete_where [simp]: "set (delete_where P t) = {r \<in> set t. \<not> P r}"
  by (auto simp: delete_where_def)

end
