(* ===== verification/Algorithms.thy ===== *)
theory Algorithms
  imports Prelude
begin

text \<open>
  The vocabulary of findings (the enumerations of \<^verbatim>\<open>domain/models.py\<close>) and the algorithm
  knowledge base (\<^verbatim>\<open>knowledge/algorithms.py\<close>): the profile table, the alias table, the
  normalisation of a family name and the profile lookup built on it. The lemmas show that
  normalisation is idempotent, that it is the identity on every key of the knowledge base and that
  every alias leads to a profile, and bound the weights that the risk engine adds up.
\<close>

section \<open>Enumerations\<close>

datatype asset_type =
  ASource | ARepository | ATlsEndpoint | ACertificate | ASshEndpoint | AContainer | AHost

datatype crypto_asset_type = Algorithm | Protocol | Certificate | RelatedCryptoMaterial

datatype primitive =
    PSignature | PHash | PPke | PKeyAgree | PKem | PBlockCipher | PStreamCipher | PAe | PKdf
  | PMac | POther | PUnknown

datatype severity = Info | Low | Medium | High | Critical

datatype quantum_status = QSafe | QTransition | QVulnerable | QUnknown

fun crypto_asset_type_value :: "crypto_asset_type \<Rightarrow> string" where
  "crypto_asset_type_value Algorithm = ''algorithm''"
| "crypto_asset_type_value Protocol = ''protocol''"
| "crypto_asset_type_value Certificate = ''certificate''"
| "crypto_asset_type_value RelatedCryptoMaterial = ''related-crypto-material''"

fun primitive_value :: "primitive \<Rightarrow> string" where
  "primitive_value PSignature = ''signature''"
| "primitive_value PHash = ''hash''"
| "primitive_value PPke = ''pke''"
| "primitive_value PKeyAgree = ''key-agree''"
| "primitive_value PKem = ''kem''"
| "primitive_value PBlockCipher = ''block-cipher''"
| "primitive_value PStreamCipher = ''stream-cipher''"
| "primitive_value PAe = ''ae''"
| "primitive_value PKdf = ''kdf''"
| "primitive_value PMac = ''mac''"
| "primitive_value POther = ''other''"
| "primitive_value PUnknown = ''unknown''"

fun severity_value :: "severity \<Rightarrow> string" where
  "severity_value Info = ''info''"
| "severity_value Low = ''low''"
| "severity_value Medium = ''medium''"
| "severity_value High = ''high''"
| "severity_value Critical = ''critical''"

fun quantum_status_value :: "quantum_status \<Rightarrow> string" where
  "quantum_status_value QSafe = ''safe''"
| "quantum_status_value QTransition = ''transition''"
| "quantum_status_value QVulnerable = ''vulnerable''"
| "quantum_status_value QUnknown = ''unknown''"

text \<open>Severities are ordered by urgency, as the thresholds of the risk engine produce them.\<close>

fun severity_rank :: "severity \<Rightarrow> nat" where
  "severity_rank Info = 0"
| "severity_rank Low = 1"
| "severity_rank Medium = 2"
| "severity_rank High = 3"
| "severity_rank Critical = 4"

lemma severity_rank_inj: "severity_rank a = severity_rank b \<Longrightarrow> a = b"
  by (cases a; cases b) simp_all

instantiation severity :: linorder
begin

definition less_eq_severity :: "severity \<Rightarrow> severity \<Rightarrow> bool" where
  "less_eq_severity a b = (severity_rank a \<le> severity_rank b)"

definition less_severity :: "severity \<Rightarrow> severity \<Rightarrow> bool" where
  "less_severity a b = (severity_rank a < severity_rank b)"

instance
  by standard (auto simp: less_eq_severity_def less_severity_def intro: severity_rank_inj)

end

section \<open>The knowledge base\<close>

record algorithm_profile =
  ap_family :: string
  ap_primitive :: primitive
  ap_quantum_status :: quantum_status
  ap_deprecated :: bool
  ap_migration_target :: "string option"
  ap_migration_strategy :: "string option"
  ap_security_bits :: "int option"
  ap_weakness_weight :: int

definition profile ::
  "string \<Rightarrow> primitive \<Rightarrow> quantum_status \<Rightarrow> bool \<Rightarrow> string option \<Rightarrow> string option
    \<Rightarrow> int option \<Rightarrow> int \<Rightarrow> algorithm_profile" where
  "profile family primitive quantum_status deprecated target strategy bits weight =
     \<lparr>ap_family = family, ap_primitive = primitive, ap_quantum_status = quantum_status,
      ap_deprecated = deprecated, ap_migration_target = target,
      ap_migration_strategy = strategy, ap_security_bits = bits,
      ap_weakness_weight = weight\<rparr>"

definition PROFILES :: "(string \<times> algorithm_profile) list" where
  "PROFILES = [
  (''MD5'', profile ''MD5'' PHash QVulnerable True
     (Some ''SHA-256'')
     (Some ''Replace immediately'')
     (Some 0) 40),
  (''SHA-1'', profile ''SHA-1'' PHash QVulnerable True
     (Some ''SHA-256'')
     (Some ''Replace collision-sensitive uses'')
     (Some 80) 35),
  (''DES'', profile ''DES'' PBlockCipher QVulnerable True
     (Some ''AES-256-GCM'')
     (Some ''Replace immediately'')
     (Some 56) 40),
  (''3DES'', profile ''3DES'' PBlockCipher QVulnerable True
     (Some ''AES-256-GCM'')
     (Some ''Replace immediately'')
     (Some 112) 38),
  (''RC4'', profile ''RC4'' PStreamCipher QVulnerable True
     (Some ''AES-256-GCM'')
     (Some ''Replace immediately'')
     (Some 0) 40),
  (''RSA'', profile ''RSA'' PPke QVulnerable False
     (Some ''ML-KEM'')
     (Some ''Use hybrid classical + ML-KEM for key establishment; ML-DSA for signatures'')
     (Some 112) 18),
  (''DSA'', profile ''DSA'' PSignature QVulnerable True
     (Some ''ML-DSA'')
     (Some ''Replace signature scheme'')
     (Some 112) 32),
  (''ECDSA'', profile ''ECDSA'' PSignature QVulnerable False
     (Some ''ML-DSA'')
     (Some ''Migrate signatures to ML-DSA; retain hybrid verification during transition'')
     (Some 128) 18),
  (''ED25519'', profile ''ED25519'' PSignature QVulnerable False
     (Some ''ML-DSA'')
     (Some ''Migrate signatures to ML-DSA with a controlled hybrid transition'')
     (Some 128) 18),
  (''ED448'', profile ''ED448'' PSignature QVulnerable False
     (Some ''ML-DSA'')
     (Some ''Migrate signatures to ML-DSA with a controlled hybrid transition'')
     (Some 224) 18),
  (''ECDH'', profile ''ECDH'' PKeyAgree QVulnerable False
     (Some ''ML-KEM'')
     (Some ''Adopt hybrid ECDH + ML-KEM during transition'')
     (Some 128) 18),
  (''DH'', profile ''DH'' PKeyAgree QVulnerable False
     (Some ''ML-KEM'')
     (Some ''Adopt hybrid finite-field DH + ML-KEM during transition'')
     (Some 112) 22),
  (''AES'', profile ''AES'' PBlockCipher QTransition False
     (Some ''AES-256-GCM'')
     (Some ''Prefer 256-bit keys for long-lived post-quantum confidentiality'')
     (Some 128) 4),
  (''CHACHA20'', profile ''ChaCha20'' PStreamCipher QTransition False
     (Some ''ChaCha20-Poly1305'')
     (Some ''Retain with strong key management'')
     (Some 128) 3),
  (''SHA-256'', profile ''SHA-256'' PHash QTransition False
     (Some ''SHA-384'')
     (Some ''Acceptable for most uses; consider wider hashes for long-lived PQ assurance'')
     (Some 128) 2),
  (''SHA-384'', profile ''SHA-384'' PHash QSafe False
     None
     None
     (Some 192) 0),
  (''SHA-512'', profile ''SHA-512'' PHash QSafe False
     None
     None
     (Some 256) 0),
  (''ML-KEM'', profile ''ML-KEM'' PKem QSafe False
     None
     None
     (Some 128) 0),
  (''ML-DSA'', profile ''ML-DSA'' PSignature QSafe False
     None
     None
     (Some 128) 0),
  (''SLH-DSA'', profile ''SLH-DSA'' PSignature QSafe False
     None
     None
     (Some 128) 0)
  ]"

definition ALIASES :: "(string \<times> string) list" where
  "ALIASES = [
  (''SHA1'', ''SHA-1''),
  (''SHA256'', ''SHA-256''),
  (''SHA384'', ''SHA-384''),
  (''SHA512'', ''SHA-512''),
  (''TRIPLEDES'', ''3DES''),
  (''DES3'', ''3DES''),
  (''ARC4'', ''RC4''),
  (''KYBER'', ''ML-KEM''),
  (''CRYSTALS-KYBER'', ''ML-KEM''),
  (''DILITHIUM'', ''ML-DSA''),
  (''CRYSTALS-DILITHIUM'', ''ML-DSA''),
  (''SPHINCS+'', ''SLH-DSA''),
  (''SSH-ED25519'', ''ED25519'')
  ]"

definition normalize_family :: "string \<Rightarrow> string" where
  "normalize_family value =
     (let token = replace_char (CHR ''_'') (CHR ''-'') (upper (strip value))
      in case map_of ALIASES token of
           Some t \<Rightarrow> t
         | None \<Rightarrow>
             if startswith token ''AES-'' then ''AES''
             else if startswith token ''RSA'' then ''RSA''
             else if startswith token ''ECDSA'' then ''ECDSA''
             else if startswith token ''ECDH'' then ''ECDH''
             else if startswith token ''ED25519'' then ''ED25519''
             else if startswith token ''ED448'' then ''ED448''
             else if startswith token ''ML-KEM'' then ''ML-KEM''
             else if startswith token ''ML-DSA'' then ''ML-DSA''
             else if startswith token ''SLH-DSA'' then ''SLH-DSA''
             else if startswith token ''CHACHA20'' then ''CHACHA20''
             else token)"

definition get_profile :: "string \<Rightarrow> algorithm_profile option" where
  "get_profile family = map_of PROFILES (normalize_family family)"

section \<open>Properties of the knowledge base\<close>

lemma profiles_fixed: "list_all (\<lambda>(k, p). normalize_family k = k) PROFILES"
  by code_simp

lemma aliases_normalise: "list_all (\<lambda>(k, p). normalize_family k = p) ALIASES"
  by code_simp

lemma alias_targets_profiled: "list_all (\<lambda>(k, p). p \<in> set (map fst PROFILES)) ALIASES"
  by code_simp

text \<open>The prefix rules of the normalisation as a table.\<close>

definition PREFIXES :: "(string \<times> string) list" where
  "PREFIXES =
     [(''AES-'', ''AES''), (''RSA'', ''RSA''), (''ECDSA'', ''ECDSA''), (''ECDH'', ''ECDH''),
      (''ED25519'', ''ED25519''), (''ED448'', ''ED448''), (''ML-KEM'', ''ML-KEM''),
      (''ML-DSA'', ''ML-DSA''), (''SLH-DSA'', ''SLH-DSA''), (''CHACHA20'', ''CHACHA20'')]"

lemma prefix_targets_profiled: "list_all (\<lambda>(k, p). p \<in> set (map fst PROFILES)) PREFIXES"
  by code_simp

lemma profile_key_fixed: "k \<in> set (map fst PROFILES) \<Longrightarrow> normalize_family k = k"
  using profiles_fixed by (auto simp: list_all_iff)

lemma alias_profile_key: "map_of ALIASES k = Some p \<Longrightarrow> p \<in> set (map fst PROFILES)"
  using alias_targets_profiled by (force simp: list_all_iff dest: map_of_SomeD)

text \<open>The token that the aliases and the prefixes are matched against.\<close>

definition family_token :: "string \<Rightarrow> string" where
  "family_token value = replace_char (CHR ''_'') (CHR ''-'') (upper (strip value))"

lemma to_upper_dash [simp]: "to_upper (CHR ''-'') = CHR ''-''" "to_upper (CHR ''_'') = CHR ''_''"
  by (simp_all add: to_upper_def is_lower_def code_of_def)

lemma upper_replace_dash:
  "upper (replace_char (CHR ''_'') (CHR ''-'') (upper s)) = replace_char (CHR ''_'') (CHR ''-'') (upper s)"
  by (simp add: upper_def replace_char_def)

lemma family_token_idem [simp]: "family_token (family_token v) = family_token v"
proof -
  have "strip (family_token v) = family_token v"
    by (simp add: family_token_def strip_replace_char strip_upper is_space_def code_of_def)
  then show ?thesis
    by (simp add: family_token_def [of "family_token v"])
       (simp add: family_token_def upper_replace_dash replace_char_idem)
qed

lemma normalize_family_token:
  "normalize_family v =
     (case map_of ALIASES (family_token v) of
        Some t \<Rightarrow> t
      | None \<Rightarrow>
          (case find (\<lambda>(p, c). startswith (family_token v) p) PREFIXES of
             Some (p, c) \<Rightarrow> c
           | None \<Rightarrow> family_token v))"
  by (simp add: normalize_family_def Let_def family_token_def [symmetric] PREFIXES_def
      split: option.split)

lemma normalize_family_cases:
  "normalize_family v \<in> set (map fst PROFILES) \<or>
   normalize_family v = family_token v \<and>
     (\<forall>w. family_token w = family_token v \<longrightarrow> normalize_family w = family_token w)"
proof (cases "map_of ALIASES (family_token v)")
  case (Some p)
  with alias_profile_key [OF Some] show ?thesis by (simp add: normalize_family_token)
next
  case None
  show ?thesis
  proof (cases "find (\<lambda>(p, c). startswith (family_token v) p) PREFIXES")
    case None
    with \<open>map_of ALIASES (family_token v) = None\<close> show ?thesis
      by (auto simp: normalize_family_token)
  next
    case (Some pc)
    then have "pc \<in> set PREFIXES" by (blast dest: find_SomeD)
    with prefix_targets_profiled have "snd pc \<in> set (map fst PROFILES)"
      by (cases pc) (auto simp: list_all_iff)
    moreover have "normalize_family v = snd pc"
      using Some None by (simp add: normalize_family_token split: prod.split)
    ultimately show ?thesis by simp
  qed
qed

lemma normalize_family_fixed [simp]:
  "normalize_family (normalize_family v) = normalize_family v"
  using normalize_family_cases [of v] profile_key_fixed family_token_idem [of v] by auto

lemma get_profile_normalize [simp]: "get_profile (normalize_family v) = get_profile v"
  by (simp add: get_profile_def)

lemma get_profile_key: "map_of PROFILES k = Some p \<Longrightarrow> get_profile k = Some p"
  using profile_key_fixed [of k] by (force simp: get_profile_def dest: map_of_SomeD)

text \<open>What the risk engine relies on in a profile of the knowledge base.\<close>

definition profile_ok :: "algorithm_profile \<Rightarrow> bool" where
  "profile_ok p \<longleftrightarrow>
     0 \<le> ap_weakness_weight p \<and> ap_weakness_weight p \<le> 40 \<and>
     (ap_quantum_status p = QVulnerable \<longleftrightarrow> 5 \<le> ap_weakness_weight p) \<and>
     (ap_quantum_status p = QSafe \<longleftrightarrow> ap_weakness_weight p = 0) \<and>
     (ap_quantum_status p = QSafe \<longleftrightarrow> ap_migration_target p = None) \<and>
     (ap_migration_target p = None \<longleftrightarrow> ap_migration_strategy p = None) \<and>
     ap_quantum_status p \<noteq> QUnknown \<and>
     (ap_deprecated p \<longrightarrow> ap_quantum_status p = QVulnerable \<and> 32 \<le> ap_weakness_weight p)"

lemma profiles_ok: "list_all (\<lambda>(k, p). profile_ok p) PROFILES"
  by (simp add: PROFILES_def profile_def profile_ok_def)

lemma get_profile_ok: "get_profile f = Some p \<Longrightarrow> profile_ok p"
  using profiles_ok by (auto simp: get_profile_def list_all_iff dest!: map_of_SomeD)

lemma profile_weight_bounds:
  "get_profile f = Some p \<Longrightarrow> 0 \<le> ap_weakness_weight p \<and> ap_weakness_weight p \<le> 40"
  by (drule get_profile_ok) (simp add: profile_ok_def)

text \<open>
  Normalisation of a family name is idempotent and stable under the profile lookup: a
  normalised name is its own normal form and finds the same knowledge-base profile as the raw
  spelling, so normalising again in the scanners, the policy evaluator and the profile lookup
  never changes the verdict.
\<close>

theorem normalize_family_idem:
  "normalize_family (normalize_family v) = normalize_family v \<and>
   get_profile (normalize_family v) = get_profile v"
  by simp

text \<open>
  The knowledge base is closed: every alias and every prefix rule leads to a family that has
  a profile, each profile is found under its own key, and every profile that a lookup can return
  has a weight between 0 and 40, a migration target exactly when it is not quantum-safe, and is
  classified as quantum-vulnerable whenever it is deprecated.
\<close>

theorem knowledge_base_closed:
  "(\<forall>k p. (k, p) \<in> set ALIASES \<longrightarrow> get_profile k = map_of PROFILES p \<and> map_of PROFILES p \<noteq> None) \<and>
   (\<forall>k p. map_of PROFILES k = Some p \<longrightarrow> get_profile k = Some p) \<and>
   (\<forall>f p. get_profile f = Some p \<longrightarrow> profile_ok p)"
proof (intro conjI allI impI)
  fix k p
  assume m: "(k, p) \<in> set ALIASES"
  with aliases_normalise show "get_profile k = map_of PROFILES p"
    by (auto simp: list_all_iff get_profile_def)
  from m alias_targets_profiled show "map_of PROFILES p \<noteq> None"
    by (auto simp: list_all_iff map_of_eq_None_iff)
qed (auto simp: get_profile_key get_profile_ok)

theorem knowledge_base_closed_witness:
  "get_profile ''KYBER'' = map_of PROFILES ''ML-KEM'' \<and> map_of PROFILES ''ML-KEM'' \<noteq> None"
proof -
  have "(''KYBER'', ''ML-KEM'') \<in> set ALIASES" by (simp add: ALIASES_def)
  with knowledge_base_closed show ?thesis by blast
qed

end
