(* ===== verification/RiskEngine.thy ===== *)
theory RiskEngine
  imports Complex_Main Algorithms
begin

text \<open>
  The risk engine (\<^verbatim>\<open>risk/engine.py\<close>) over the findings of \<^verbatim>\<open>domain/models.py\<close>.
  \<open>assess\<close> is the composition of the rules in the code's order: the defaults with the protocol
  rules, the knowledge-base profile, the RSA-signature override, the parameter-sensitive RSA and
  AES rules, and the contextual score. A detection confidence is the exact rational value of the
  float. The lemmas bound the score, show that the cap at 100 never hides anything, and show that
  the score is monotone in the context and antitone in the key size.
\<close>

section \<open>Observations, contexts and findings\<close>

datatype meta_value = MetaText string | MetaBool bool | MetaTexts "string list" | MetaNone

record evidence =
  ev_source :: string
  ev_locator :: "string option"
  ev_line :: "int option"
  ev_snippet :: "string option"
  ev_metadata :: "(string \<times> meta_value) list"

record scan_context =
  internet_exposed :: bool
  asset_criticality :: int
  data_lifetime_years :: int
  environment :: string

definition default_context :: scan_context where
  "default_context = \<lparr>internet_exposed = False, asset_criticality = 5,
     data_lifetime_years = 1, environment = ''unknown''\<rparr>"

text \<open>The field constraints that every constructed context satisfies.\<close>

definition context_valid :: "scan_context \<Rightarrow> bool" where
  "context_valid c \<longleftrightarrow>
     1 \<le> asset_criticality c \<and> asset_criticality c \<le> 10 \<and>
     0 \<le> data_lifetime_years c \<and> data_lifetime_years c \<le> 50"

record crypto_observation =
  ob_id :: string
  ob_asset_id :: string
  ob_asset_name :: string
  ob_asset_type :: asset_type
  ob_crypto_asset_type :: crypto_asset_type
  ob_algorithm :: string
  ob_family :: string
  ob_primitive :: primitive
  ob_parameter_set :: "string option"
  ob_key_size :: "int option"
  ob_protocol_version :: "string option"
  ob_confidence :: rat
  ob_evidence :: evidence
  ob_discovered_at :: time

datatype disposition = Pass | Review | Fail

record risk_assessment =
  ra_observation_id :: string
  ra_score :: int
  ra_severity :: severity
  ra_quantum_status :: quantum_status
  ra_reasons :: "string list"
  ra_migration_target :: "string option"
  ra_migration_strategy :: "string option"
  ra_security_bits :: "int option"
  ra_policy_id :: "string option"
  ra_policy_version :: "int option"
  ra_policy_name :: "string option"
  ra_policy_status :: "disposition option"
  ra_policy_reasons :: "string list"
  ra_policy_controls :: "string list"
  ra_policy_rules_hash :: "string option"

record finding =
  fi_observation :: crypto_observation
  fi_risk :: risk_assessment

section \<open>Scoring\<close>

definition severity_for :: "int \<Rightarrow> severity" where
  "severity_for score =
     (if score \<ge> 80 then Critical
      else if score \<ge> 60 then High
      else if score \<ge> 35 then Medium
      else if score \<ge> 15 then Low
      else Info)"

text \<open>The local variables of \<open>assess\<close>.\<close>

record scoring =
  weakness :: int
  quantum :: int
  sc_target :: "string option"
  sc_strategy :: "string option"
  sc_bits :: "int option"
  sc_status :: quantum_status
  sc_reasons :: "string list"

definition initial_scoring :: scoring where
  "initial_scoring = \<lparr>weakness = 12, quantum = 10, sc_target = None, sc_strategy = None,
     sc_bits = None, sc_status = QUnknown, sc_reasons = []\<rparr>"

definition add_reason :: "string \<Rightarrow> scoring \<Rightarrow> scoring" where
  "add_reason r s = s\<lparr>sc_reasons := sc_reasons s @ [r]\<rparr>"

definition protocol_rule :: "crypto_observation \<Rightarrow> scoring \<Rightarrow> scoring" where
  "protocol_rule obs s =
     (if ob_crypto_asset_type obs = Protocol then
        let version = replace_sub ''TLSv'' []
              (case ob_protocol_version obs of None \<Rightarrow> [] | Some v \<Rightarrow> v);
            s = s\<lparr>sc_status := QTransition, weakness := 2, quantum := 4\<rparr>
        in if version \<in> set [''1'', ''1.0'', ''1.1''] then
             add_reason (''TLS '' @ version @ '' is a legacy protocol version'')
               (s\<lparr>weakness := 35, sc_target := Some ''TLS 1.3'',
                  sc_strategy := Some ''Disable legacy TLS and require TLS 1.2+; prefer TLS 1.3''\<rparr>)
           else if version = ''1.2'' then
             add_reason ''TLS 1.2 security depends on negotiated cipher suite and key exchange'' s
           else if version = ''1.3'' then
             add_reason ''TLS 1.3 protocol baseline is modern; assess key exchange and certificates separately'' s
           else add_reason ''Protocol version requires review'' s
      else s)"

definition profile_rule :: "algorithm_profile option \<Rightarrow> scoring \<Rightarrow> scoring" where
  "profile_rule prof s =
     (case prof of None \<Rightarrow> s
      | Some p \<Rightarrow>
          let s = s\<lparr>weakness := ap_weakness_weight p, sc_status := ap_quantum_status p,
                sc_target := ap_migration_target p, sc_strategy := ap_migration_strategy p,
                sc_bits := ap_security_bits p\<rparr>;
              s = (if ap_deprecated p
                   then add_reason (ap_family p @ '' is deprecated or unsuitable for new security designs'') s
                   else s)
          in case ap_quantum_status p of
               QVulnerable \<Rightarrow>
                 add_reason (ap_family p @ '' is not resistant to a cryptographically relevant quantum computer'')
                   (s\<lparr>quantum := 25\<rparr>)
             | QTransition \<Rightarrow>
                 add_reason (ap_family p @ '' needs post-quantum parameter and usage review'')
                   (s\<lparr>quantum := 8\<rparr>)
             | QSafe \<Rightarrow>
                 add_reason (ap_family p @ '' is a post-quantum or high-margin primitive in this policy'')
                   (s\<lparr>quantum := 0\<rparr>)
             | QUnknown \<Rightarrow> s)"

definition rsa_signature_rule :: "crypto_observation \<Rightarrow> scoring \<Rightarrow> scoring" where
  "rsa_signature_rule obs s =
     (if ob_family obs = ''RSA'' \<and> ob_primitive obs = PSignature
      then s\<lparr>sc_target := Some ''ML-DSA'',
             sc_strategy := Some ''Migrate RSA signatures to ML-DSA; retain controlled hybrid verification during transition''\<rparr>
      else s)"

text \<open>A key size counts only when it is present and non-zero.\<close>

definition key_size_of :: "crypto_observation \<Rightarrow> int option" where
  "key_size_of obs = (case ob_key_size obs of Some k \<Rightarrow> if k = 0 then None else Some k | None \<Rightarrow> None)"

definition rsa_key_rule :: "crypto_observation \<Rightarrow> scoring \<Rightarrow> scoring" where
  "rsa_key_rule obs s =
     (case key_size_of obs of
        Some k \<Rightarrow>
          if ob_family obs \<noteq> ''RSA'' then s
          else if k < 2048 then
            add_reason (''RSA key size '' @ str_of_int k @ '' is below modern minimums'')
              (s\<lparr>weakness := 40\<rparr>)
          else if k < 3072 then
            add_reason (''RSA-'' @ str_of_int k @ '' has limited classical security margin'')
              (s\<lparr>weakness := max (weakness s) 24\<rparr>)
          else s
      | None \<Rightarrow> s)"

definition aes_key_rule :: "crypto_observation \<Rightarrow> scoring \<Rightarrow> scoring" where
  "aes_key_rule obs s =
     (case key_size_of obs of
        Some k \<Rightarrow>
          if ob_family obs \<noteq> ''AES'' then s
          else if k < 128 then
            add_reason (''AES key size '' @ str_of_int k @ '' is insufficient'') (s\<lparr>weakness := 40\<rparr>)
          else if k = 128 then
            add_reason ''AES-128 has reduced effective security margin under Grover-style search''
              (s\<lparr>quantum := max (quantum s) 10\<rparr>)
          else if k \<ge> 256 then
            add_reason ''AES-256 retains a strong post-quantum security margin''
              (s\<lparr>quantum := min (quantum s) 3\<rparr>)
          else s
      | None \<Rightarrow> s)"

definition algorithm_scoring :: "crypto_observation \<Rightarrow> scoring" where
  "algorithm_scoring obs =
     aes_key_rule obs (rsa_key_rule obs (rsa_signature_rule obs
       (profile_rule (get_profile (ob_family obs)) (protocol_rule obs initial_scoring))))"

definition internet_points :: "scan_context \<Rightarrow> int" where
  "internet_points c = (if internet_exposed c then 15 else 0)"

definition lifetime_points :: "scan_context \<Rightarrow> int" where
  "lifetime_points c = min (data_lifetime_years c) 10"

definition context_reasons :: "crypto_observation \<Rightarrow> scan_context \<Rightarrow> scoring \<Rightarrow> string list" where
  "context_reasons obs c s =
     sc_reasons s
     @ (if internet_points c \<noteq> 0 then [''Asset is marked internet-exposed''] else [])
     @ (if lifetime_points c \<ge> 5 \<and> sc_status s = QVulnerable
        then [''Long confidentiality lifetime increases harvest-now-decrypt-later exposure'']
        else [])
     @ (if ob_confidence obs < 3 / 4
        then [''Detection confidence is below high-confidence threshold; verify before remediation'']
        else [])"

definition total_points :: "crypto_observation \<Rightarrow> scan_context \<Rightarrow> int" where
  "total_points obs c =
     (let s = algorithm_scoring obs
      in weakness s + quantum s + internet_points c + lifetime_points c + asset_criticality c)"

text \<open>
  \<open>RiskEngine.assess\<close>. Building the assessment checks that the score is between 0 and 100.
\<close>

definition assess :: "crypto_observation \<Rightarrow> scan_context option \<Rightarrow> finding result" where
  "assess obs ctx =
     (let c = (case ctx of None \<Rightarrow> default_context | Some c \<Rightarrow> c);
          s = algorithm_scoring obs;
          score = min 100 (weakness s + quantum s + internet_points c + lifetime_points c
                           + asset_criticality c);
          reasons = context_reasons obs c s
      in if 0 \<le> score \<and> score \<le> 100 then
           Inr \<lparr>fi_observation = obs,
                fi_risk = \<lparr>ra_observation_id = ob_id obs, ra_score = score,
                  ra_severity = severity_for score, ra_quantum_status = sc_status s,
                  ra_reasons = (if reasons = [] then [''No policy-specific risk rule matched'']
                                else reasons),
                  ra_migration_target = sc_target s, ra_migration_strategy = sc_strategy s,
                  ra_security_bits = sc_bits s, ra_policy_id = None, ra_policy_version = None,
                  ra_policy_name = None, ra_policy_status = None, ra_policy_reasons = [],
                  ra_policy_controls = [], ra_policy_rules_hash = None\<rparr>\<rparr>
         else Inl (ValidationError ''score''))"

section \<open>Bounds\<close>

definition scoring_ok :: "scoring \<Rightarrow> bool" where
  "scoring_ok s \<longleftrightarrow> 0 \<le> weakness s \<and> weakness s \<le> 40 \<and> 0 \<le> quantum s \<and> quantum s \<le> 25"

lemma add_reason_fields [simp]:
  "weakness (add_reason r s) = weakness s" "quantum (add_reason r s) = quantum s"
  "sc_target (add_reason r s) = sc_target s" "sc_strategy (add_reason r s) = sc_strategy s"
  "sc_bits (add_reason r s) = sc_bits s" "sc_status (add_reason r s) = sc_status s"
  by (simp_all add: add_reason_def)

lemma protocol_rule_ok: "scoring_ok s \<Longrightarrow> scoring_ok (protocol_rule obs s)"
  by (simp add: protocol_rule_def scoring_ok_def Let_def)

lemma profile_rule_ok: "scoring_ok s \<Longrightarrow> scoring_ok (profile_rule (get_profile f) s)"
  by (auto simp: profile_rule_def scoring_ok_def Let_def
      split: option.split quantum_status.split dest: profile_weight_bounds)

lemma rsa_signature_rule_points [simp]:
  "weakness (rsa_signature_rule obs s) = weakness s"
  "quantum (rsa_signature_rule obs s) = quantum s"
  "sc_status (rsa_signature_rule obs s) = sc_status s"
  by (simp_all add: rsa_signature_rule_def)

lemma rsa_key_rule_ok: "scoring_ok s \<Longrightarrow> scoring_ok (rsa_key_rule obs s)"
  by (simp add: rsa_key_rule_def scoring_ok_def max_def split: option.split)

lemma aes_key_rule_ok: "scoring_ok s \<Longrightarrow> scoring_ok (aes_key_rule obs s)"
  by (simp add: aes_key_rule_def scoring_ok_def max_def min_def split: option.split)

lemma algorithm_scoring_ok: "scoring_ok (algorithm_scoring obs)"
proof -
  have "scoring_ok (profile_rule (get_profile (ob_family obs)) (protocol_rule obs initial_scoring))"
    by (intro profile_rule_ok protocol_rule_ok) (simp add: scoring_ok_def initial_scoring_def)
  then have "scoring_ok (rsa_signature_rule obs
      (profile_rule (get_profile (ob_family obs)) (protocol_rule obs initial_scoring)))"
    by (simp add: scoring_ok_def)
  then show ?thesis
    unfolding algorithm_scoring_def by (intro aes_key_rule_ok rsa_key_rule_ok)
qed

lemma context_points_bounds:
  assumes "context_valid c"
  shows "0 \<le> internet_points c" "internet_points c \<le> 15"
    "0 \<le> lifetime_points c" "lifetime_points c \<le> 10"
    "1 \<le> asset_criticality c" "asset_criticality c \<le> 10"
  using assms by (auto simp: context_valid_def internet_points_def lifetime_points_def)

lemma total_points_bounds:
  assumes "context_valid c"
  shows "1 \<le> total_points obs c \<and> total_points obs c \<le> 100"
  using algorithm_scoring_ok [of obs] context_points_bounds [OF assms]
  by (simp add: total_points_def scoring_ok_def Let_def)

text \<open>For a valid context \<open>assess\<close> returns, and the score is the plain sum of the components.\<close>

lemma assess_valid:
  assumes "context_valid c"
  shows "\<exists>f. assess obs (Some c) = Inr f \<and> fi_observation f = obs \<and>
    ra_score (fi_risk f) = total_points obs c \<and>
    ra_severity (fi_risk f) = severity_for (total_points obs c) \<and>
    ra_quantum_status (fi_risk f) = sc_status (algorithm_scoring obs)"
  using total_points_bounds [OF assms, of obs]
  by (simp add: assess_def total_points_def Let_def)

definition score_of :: "finding result \<Rightarrow> int" where
  "score_of r = (case r of Inl _ \<Rightarrow> -1 | Inr f \<Rightarrow> ra_score (fi_risk f))"

lemma score_of_assess:
  "context_valid c \<Longrightarrow> score_of (assess obs (Some c)) = total_points obs c"
  using assess_valid [of c obs] by (auto simp: score_of_def)

lemma severity_for_mono: "a \<le> b \<Longrightarrow> severity_for a \<le> severity_for b"
  by (auto simp: severity_for_def less_eq_severity_def)

section \<open>Properties of the score\<close>

definition base_scoring :: "crypto_observation \<Rightarrow> scoring" where
  "base_scoring obs = rsa_signature_rule obs
     (profile_rule (get_profile (ob_family obs)) (protocol_rule obs initial_scoring))"

lemma base_scoring_key_size [simp]: "base_scoring (obs\<lparr>ob_key_size := k\<rparr>) = base_scoring obs"
  by (simp add: base_scoring_def rsa_signature_rule_def protocol_rule_def)

lemma base_scoring_ok: "scoring_ok (base_scoring obs)"
proof -
  have "scoring_ok (profile_rule (get_profile (ob_family obs)) (protocol_rule obs initial_scoring))"
    by (intro profile_rule_ok protocol_rule_ok) (simp add: scoring_ok_def initial_scoring_def)
  then show ?thesis by (simp add: scoring_ok_def base_scoring_def)
qed

text \<open>The points of the algorithm, as a function of the family and of the key size.\<close>

lemma algorithm_points:
  "weakness (algorithm_scoring obs) + quantum (algorithm_scoring obs) =
     (case key_size_of obs of
        None \<Rightarrow> weakness (base_scoring obs) + quantum (base_scoring obs)
      | Some k \<Rightarrow>
          if ob_family obs = ''RSA'' then
            (if k < 2048 then 40 else if k < 3072 then max (weakness (base_scoring obs)) 24
             else weakness (base_scoring obs)) + quantum (base_scoring obs)
          else if ob_family obs = ''AES'' then
            (if k < 128 then 40 else weakness (base_scoring obs)) +
            (if k < 128 then quantum (base_scoring obs)
             else if k = 128 then max (quantum (base_scoring obs)) 10
             else if k \<ge> 256 then min (quantum (base_scoring obs)) 3
             else quantum (base_scoring obs))
          else weakness (base_scoring obs) + quantum (base_scoring obs))"
  by (simp add: algorithm_scoring_def base_scoring_def [symmetric] aes_key_rule_def rsa_key_rule_def
      split: option.split)

lemma base_scoring_profile:
  assumes "get_profile (ob_family obs) = Some p"
  shows "weakness (base_scoring obs) = ap_weakness_weight p"
    and "ap_quantum_status p = QVulnerable \<Longrightarrow> quantum (base_scoring obs) = 25"
    and "ap_quantum_status p = QTransition \<Longrightarrow> quantum (base_scoring obs) = 8"
    and "ap_quantum_status p = QSafe \<Longrightarrow> quantum (base_scoring obs) = 0"
  using assms
  by (auto simp: base_scoring_def profile_rule_def Let_def split: quantum_status.split)

lemma key_size_of_update [simp]:
  "key_size_of (obs\<lparr>ob_key_size := Some k\<rparr>) = (if k = 0 then None else Some k)"
  by (simp add: key_size_of_def)

lemma rsa_profile: "get_profile ''RSA'' = map_of PROFILES ''RSA''"
  using profile_key_fixed [of "''RSA''"] by (simp add: get_profile_def PROFILES_def)

lemma aes_profile: "get_profile ''AES'' = map_of PROFILES ''AES''"
  using profile_key_fixed [of "''AES''"] by (simp add: get_profile_def PROFILES_def)

lemma rsa_aes_profiles:
  "get_profile ''RSA'' = Some p \<Longrightarrow> ap_quantum_status p = QVulnerable \<and> \<not> ap_deprecated p"
  "get_profile ''AES'' = Some p \<Longrightarrow> ap_quantum_status p = QTransition \<and> \<not> ap_deprecated p"
  by (auto simp: rsa_profile aes_profile PROFILES_def profile_def)

lemma points_at_least_weight:
  assumes "get_profile (ob_family obs) = Some p" "ap_quantum_status p = QVulnerable"
  shows "ap_weakness_weight p + 25 \<le> weakness (algorithm_scoring obs) + quantum (algorithm_scoring obs)"
  using assms rsa_aes_profiles(2) [of p] get_profile_ok [OF assms(1)]
    base_scoring_profile [OF assms(1)]
  by (auto simp: algorithm_points profile_ok_def split: option.split)

lemma points_safe:
  assumes "get_profile (ob_family obs) = Some p" "ap_quantum_status p = QSafe"
  shows "weakness (algorithm_scoring obs) + quantum (algorithm_scoring obs) = 0"
  using assms rsa_aes_profiles [of p] get_profile_ok [OF assms(1)]
    base_scoring_profile [OF assms(1)]
  by (auto simp: algorithm_points profile_ok_def split: option.split)

definition context_le :: "scan_context \<Rightarrow> scan_context \<Rightarrow> bool" where
  "context_le c d \<longleftrightarrow> (internet_exposed c \<longrightarrow> internet_exposed d) \<and>
     asset_criticality c \<le> asset_criticality d \<and> data_lifetime_years c \<le> data_lifetime_years d"

lemma total_points_mono: "context_le c d \<Longrightarrow> total_points obs c \<le> total_points obs d"
  by (auto simp: total_points_def context_le_def Let_def internet_points_def lifetime_points_def)

text \<open>
  C7. For every observation and every valid context the engine returns a finding, never raises,
  and its score is exactly the sum of the five components (weakness, quantum, internet, lifetime,
  criticality): the cap at 100 never hides points. The sum lies between 1 and 100, so the score
  field's validation cannot fail, and the severity is the threshold of that sum.
\<close>

theorem assess_score_is_component_sum:
  assumes "context_valid c"
  shows "\<exists>f. assess obs (Some c) = Inr f \<and> fi_observation f = obs \<and>
    ra_score (fi_risk f) = weakness (algorithm_scoring obs) + quantum (algorithm_scoring obs)
      + internet_points c + lifetime_points c + asset_criticality c \<and>
    1 \<le> ra_score (fi_risk f) \<and> ra_score (fi_risk f) \<le> 100 \<and>
    ra_severity (fi_risk f) = severity_for (ra_score (fi_risk f))"
  using assess_valid [OF assms, of obs] total_points_bounds [OF assms, of obs]
  by (auto simp: total_points_def Let_def)

text \<open>A concrete observation: an RSA-1024 signature key found on a certificate.\<close>

definition sample_evidence :: evidence where
  "sample_evidence = \<lparr>ev_source = ''source-code'', ev_locator = Some ''a.py'', ev_line = Some 3,
     ev_snippet = None, ev_metadata = []\<rparr>"

definition sample_observation :: crypto_observation where
  "sample_observation = \<lparr>ob_id = ''o1'', ob_asset_id = ''a1'', ob_asset_name = ''api'',
     ob_asset_type = ASource, ob_crypto_asset_type = Algorithm, ob_algorithm = ''RSA'',
     ob_family = ''RSA'', ob_primitive = PSignature, ob_parameter_set = None,
     ob_key_size = Some 1024, ob_protocol_version = None, ob_confidence = 9 / 10,
     ob_evidence = sample_evidence, ob_discovered_at = 0\<rparr>"

lemma default_context_valid: "context_valid default_context"
  by (simp add: context_valid_def default_context_def)

theorem assess_score_is_component_sum_witness:
  "\<exists>f. assess sample_observation (Some default_context) = Inr f \<and> ra_score (fi_risk f) = 71"
  using assess_score_is_component_sum [OF default_context_valid, of sample_observation]
  by (auto simp: algorithm_points sample_observation_def key_size_of_def base_scoring_profile
      rsa_profile PROFILES_def profile_def internet_points_def lifetime_points_def default_context_def)

text \<open>
  The score is monotone in the context: exposing the asset to the internet, lengthening the
  data lifetime or raising the criticality never lowers the score nor the severity, and together
  they move it by at most 34 points.
\<close>

theorem assess_monotone_in_context:
  assumes "context_valid c" "context_valid d" "context_le c d"
    and "assess obs (Some c) = Inr f" "assess obs (Some d) = Inr g"
  shows "ra_score (fi_risk f) \<le> ra_score (fi_risk g) \<and>
    ra_severity (fi_risk f) \<le> ra_severity (fi_risk g) \<and>
    ra_score (fi_risk g) - ra_score (fi_risk f) \<le> 34"
  using assess_valid [OF assms(1), of obs] assess_valid [OF assms(2), of obs] assms(4,5)
    total_points_mono [OF assms(3), of obs] context_points_bounds [OF assms(1)]
    context_points_bounds [OF assms(2)]
  by (auto simp: severity_for_mono) (simp add: total_points_def Let_def)

theorem assess_monotone_in_context_witness:
  "\<exists>f g. assess sample_observation (Some default_context) = Inr f \<and>
     assess sample_observation (Some (default_context\<lparr>internet_exposed := True\<rparr>)) = Inr g \<and>
     ra_severity (fi_risk f) \<le> ra_severity (fi_risk g)"
proof -
  let ?d = "default_context\<lparr>internet_exposed := True\<rparr>"
  have c: "context_valid default_context" "context_valid ?d" "context_le default_context ?d"
    by (simp_all add: context_valid_def default_context_def context_le_def)
  obtain f g where "assess sample_observation (Some default_context) = Inr f"
      "assess sample_observation (Some ?d) = Inr g"
    using assess_valid [OF c(1)] assess_valid [OF c(2)] by blast
  with assess_monotone_in_context [OF c this] show ?thesis by blast
qed

text \<open>
  A larger key is never riskier: for the same observation and context, raising the (non-zero)
  key size never raises the score, whatever the family.
\<close>

theorem larger_key_never_scores_higher:
  assumes "context_valid c" "0 < k" "k \<le> k'"
  shows "score_of (assess (obs\<lparr>ob_key_size := Some k'\<rparr>) (Some c))
    \<le> score_of (assess (obs\<lparr>ob_key_size := Some k\<rparr>) (Some c))"
proof -
  have "weakness (algorithm_scoring (obs\<lparr>ob_key_size := Some k'\<rparr>))
      + quantum (algorithm_scoring (obs\<lparr>ob_key_size := Some k'\<rparr>))
    \<le> weakness (algorithm_scoring (obs\<lparr>ob_key_size := Some k\<rparr>))
      + quantum (algorithm_scoring (obs\<lparr>ob_key_size := Some k\<rparr>))"
  proof (cases "ob_family obs = ''AES''")
    case True
    then obtain p where p: "get_profile (ob_family obs) = Some p" "ap_quantum_status p = QTransition"
        "ap_weakness_weight p = 4"
      by (simp add: aes_profile PROFILES_def profile_def)
    from base_scoring_profile [OF p(1)] p(2,3)
    have "quantum (base_scoring obs) = 8" "weakness (base_scoring obs) = 4" by simp_all
    with True assms(2,3) base_scoring_ok [of obs] show ?thesis
      by (simp add: algorithm_points scoring_ok_def)
  next
    case False
    with assms(2,3) base_scoring_ok [of obs] show ?thesis
      by (simp add: algorithm_points scoring_ok_def)
  qed
  with assms(1) show ?thesis
    by (simp add: score_of_assess total_points_def Let_def)
qed

theorem larger_key_never_scores_higher_witness:
  "score_of (assess (sample_observation\<lparr>ob_key_size := Some 4096\<rparr>) (Some default_context))
   \<le> score_of (assess (sample_observation\<lparr>ob_key_size := Some 2048\<rparr>) (Some default_context))"
  using larger_key_never_scores_higher [OF default_context_valid, of 2048 4096 sample_observation]
  by simp

text \<open>
  Migrating pays: in the same context an observation whose family is quantum-vulnerable always
  scores at least 30 points more than one whose family is post-quantum safe, and a deprecated
  family is never reported below medium severity.
\<close>

theorem quantum_vulnerable_outranks_safe:
  assumes "context_valid c"
    and "get_profile (ob_family v) = Some pv" "ap_quantum_status pv = QVulnerable"
    and "get_profile (ob_family s) = Some ps" "ap_quantum_status ps = QSafe"
    and "assess v (Some c) = Inr fv"
  shows "score_of (assess s (Some c)) + 30 \<le> ra_score (fi_risk fv) \<and>
    (if ap_deprecated pv then Medium \<le> ra_severity (fi_risk fv) else Low \<le> ra_severity (fi_risk fv))"
proof -
  let ?pts = "\<lambda>x. weakness (algorithm_scoring x) + quantum (algorithm_scoring x)"
  have v: "ap_weakness_weight pv + 25 \<le> ?pts v"
    by (rule points_at_least_weight) (rule assms)+
  have ok: "profile_ok pv" by (rule get_profile_ok) (rule assms)
  have fv: "ra_score (fi_risk fv) = total_points v c"
      "ra_severity (fi_risk fv) = severity_for (total_points v c)"
    using assess_valid [OF assms(1), of v] assms(6) by auto
  have "score_of (assess s (Some c)) + 30 \<le> ra_score (fi_risk fv)"
    using v ok points_safe [OF assms(4,5)] assms(3)
    by (simp add: fv score_of_assess [OF assms(1)] total_points_def Let_def profile_ok_def)
  moreover have "(if ap_deprecated pv then 35 else 15) \<le> total_points v c"
    using v ok assms(3) context_points_bounds [OF assms(1)]
    by (cases "ap_deprecated pv") (simp_all add: total_points_def Let_def profile_ok_def)
  then have "severity_for (if ap_deprecated pv then 35 else 15) \<le> ra_severity (fi_risk fv)"
    using fv(2) severity_for_mono by metis
  ultimately show ?thesis
    by (auto simp: severity_for_def split: if_splits)
qed

theorem quantum_vulnerable_outranks_safe_witness:
  "\<exists>f. assess sample_observation (Some default_context) = Inr f \<and>
     score_of (assess (sample_observation\<lparr>ob_family := ''ML-DSA''\<rparr>) (Some default_context)) + 30
       \<le> ra_score (fi_risk f)"
proof -
  obtain f where f: "assess sample_observation (Some default_context) = Inr f"
    using assess_valid [OF default_context_valid] by blast
  obtain p where p: "get_profile (ob_family sample_observation) = Some p"
      "ap_quantum_status p = QVulnerable"
    by (simp add: sample_observation_def rsa_profile PROFILES_def profile_def)
  obtain q where q: "get_profile (ob_family (sample_observation\<lparr>ob_family := ''ML-DSA''\<rparr>)) = Some q"
      "ap_quantum_status q = QSafe"
    using get_profile_key [of "''ML-DSA''"] by (simp add: PROFILES_def profile_def)
  from quantum_vulnerable_outranks_safe [OF default_context_valid p q f] f show ?thesis by blast
qed

end
