(* ===== verification/PolicyEvaluator.thy ===== *)
theory PolicyEvaluator
  imports RiskEngine
begin

text \<open>
  The organization-policy overlay (\<^verbatim>\<open>risk/policy.py\<close>) and its data (\<^verbatim>\<open>domain/policy.py\<close>).
  \<open>apply_policy\<close> runs the controls in the code's order over the local variables \<open>status\<close>,
  \<open>reasons\<close> and \<open>controls\<close>. \<open>triggered\<close> is the reference: the list of controls that an
  observation triggers with the disposition each demands. The lemmas show that the evaluator
  computes the maximum of the demanded dispositions, that it leaves the core risk untouched, and
  that tightening a baseline never improves a verdict.
\<close>

section \<open>Policy data\<close>

fun disposition_value :: "disposition \<Rightarrow> string" where
  "disposition_value Pass = ''pass''"
| "disposition_value Review = ''review''"
| "disposition_value Fail = ''fail''"

fun status_order :: "disposition \<Rightarrow> nat" where
  "status_order Pass = 0"
| "status_order Review = 1"
| "status_order Fail = 2"

lemma status_order_inj: "status_order a = status_order b \<Longrightarrow> a = b"
  by (cases a; cases b) simp_all

instantiation disposition :: linorder
begin

definition less_eq_disposition :: "disposition \<Rightarrow> disposition \<Rightarrow> bool" where
  "less_eq_disposition a b = (status_order a \<le> status_order b)"

definition less_disposition :: "disposition \<Rightarrow> disposition \<Rightarrow> bool" where
  "less_disposition a b = (status_order a < status_order b)"

instance
  by standard (auto simp: less_eq_disposition_def less_disposition_def intro: status_order_inj)

end

datatype tls_minimum = TLS12 | TLS13

fun tls_minimum_value :: "tls_minimum \<Rightarrow> string" where
  "tls_minimum_value TLS12 = ''1.2''"
| "tls_minimum_value TLS13 = ''1.3''"

record crypto_policy_rules =
  minimum_rsa_bits :: int
  minimum_aes_bits :: int
  minimum_tls_version :: tls_minimum
  disallowed_families :: "string list"
  quantum_vulnerable_default :: disposition
  internet_exposed_quantum_action :: disposition
  long_lived_data_years :: int
  unknown_family_action :: disposition
  minimum_detection_confidence :: rat

definition default_rules :: crypto_policy_rules where
  "default_rules = \<lparr>minimum_rsa_bits = 2048, minimum_aes_bits = 128, minimum_tls_version = TLS12,
     disallowed_families = [''MD5'', ''SHA-1'', ''DES'', ''3DES'', ''RC4'', ''DSA''],
     quantum_vulnerable_default = Review, internet_exposed_quantum_action = Review,
     long_lived_data_years = 5, unknown_family_action = Review,
     minimum_detection_confidence = 3 / 4\<rparr>"

text \<open>The \<open>disallowed_families\<close> validator: strip, reject empty names, drop case-insensitive repeats.\<close>

fun normalize_disallowed :: "string set \<Rightarrow> string list \<Rightarrow> string list result" where
  "normalize_disallowed seen [] = Inr []"
| "normalize_disallowed seen (v # vs) =
     (let token = strip v; folded = lower token
      in if token = [] then Inl (ValidationError ''disallowed_families cannot contain empty values'')
         else if folded \<in> seen then normalize_disallowed seen vs
         else bindE (normalize_disallowed (insert folded seen) vs) (\<lambda>r. Inr (token # r)))"

text \<open>Constructing the rules checks every field and stores the normalised families.\<close>

definition validate_rules :: "crypto_policy_rules \<Rightarrow> crypto_policy_rules result" where
  "validate_rules r =
     (if \<not> (1024 \<le> minimum_rsa_bits r \<and> minimum_rsa_bits r \<le> 16384)
      then Inl (ValidationError ''minimum_rsa_bits'')
      else if minimum_aes_bits r \<notin> set [128, 192, 256]
      then Inl (ValidationError ''minimum_aes_bits must be 128, 192, or 256'')
      else if quantum_vulnerable_default r = Pass
      then Inl (ValidationError ''quantum_vulnerable_default'')
      else if internet_exposed_quantum_action r = Pass
      then Inl (ValidationError ''internet_exposed_quantum_action'')
      else if \<not> (0 \<le> long_lived_data_years r \<and> long_lived_data_years r \<le> 50)
      then Inl (ValidationError ''long_lived_data_years'')
      else if \<not> (0 \<le> minimum_detection_confidence r \<and> minimum_detection_confidence r \<le> 1)
      then Inl (ValidationError ''minimum_detection_confidence'')
      else bindE (normalize_disallowed {} (disallowed_families r))
             (\<lambda>fs. Inr (r\<lparr>disallowed_families := fs\<rparr>)))"

record crypto_policy_pack =
  pp_id :: string
  pp_workspace_id :: string
  pp_slug :: string
  pp_name :: string
  pp_description :: string
  pp_built_in :: bool
  pp_created_by :: string
  pp_created_at :: time

record crypto_policy_version =
  pv_id :: string
  pv_policy_id :: string
  pv_workspace_id :: string
  pv_version :: int
  pv_rules :: crypto_policy_rules
  pv_rules_hash :: string
  pv_created_by :: string
  pv_created_at :: time

record effective_policy =
  ep_pack :: crypto_policy_pack
  ep_version :: crypto_policy_version
  ep_assigned_by :: string
  ep_assigned_at :: time

definition provenance_ref :: "effective_policy \<Rightarrow> string" where
  "provenance_ref p =
     (let v = ep_version p
      in ''policy:'' @ pv_policy_id v @ ''@'' @ str_of_int (pv_version v) @ '':''
         @ take 16 (pv_rules_hash v))"

section \<open>The evaluator\<close>

definition max_status :: "disposition \<Rightarrow> disposition \<Rightarrow> disposition" where
  "max_status current candidate =
     (if status_order candidate > status_order current then candidate else current)"

lemma max_status_max [simp]: "max_status a b = max a b"
  by (auto simp: max_status_def max_def less_eq_disposition_def intro: status_order_inj)

definition tls_rank :: "string option \<Rightarrow> int option" where
  "tls_rank value =
     (case value of
        None \<Rightarrow> None
      | Some v \<Rightarrow>
          let normalized = replace_sub ''TLS '' [] (replace_sub ''TLSV'' [] (upper (strip v)))
          in if normalized \<in> set [''1'', ''1.0''] then Some 10
             else if normalized = ''1.1'' then Some 11
             else if normalized = ''1.2'' then Some 12
             else if normalized = ''1.3'' then Some 13
             else None)"

text \<open>\<open>f'{x:.2f}'\<close> for \<open>x\<close> between 0 and 1: two decimals, ties to even.\<close>

definition format_2f :: "rat \<Rightarrow> string" where
  "format_2f x =
     (let q = x * 100; lo = \<lfloor>q\<rfloor>; r = q - of_int lo;
          n = (if r < 1 / 2 then lo else if r > 1 / 2 then lo + 1
               else if even lo then lo else lo + 1)
      in str_of_int (n div 100) @ ''.'' @ str_of_int (n mod 100 div 10) @ str_of_int (n mod 10))"

record evaluation =
  ev_status :: disposition
  ev_reasons :: "string list"
  ev_controls :: "string list"

definition hit :: "disposition \<Rightarrow> string \<Rightarrow> string \<Rightarrow> evaluation \<Rightarrow> evaluation" where
  "hit status control reason e =
     e\<lparr>ev_status := status, ev_controls := ev_controls e @ [control],
       ev_reasons := ev_reasons e @ [reason]\<rparr>"

definition disallowed_control :: "crypto_policy_rules \<Rightarrow> string \<Rightarrow> evaluation \<Rightarrow> evaluation" where
  "disallowed_control rules family e =
     (if family \<in> set (map normalize_family (disallowed_families rules))
      then hit Fail ''disallowed-family'' (family @ '' is disallowed by this organization baseline'') e
      else e)"

definition rsa_control ::
  "crypto_policy_rules \<Rightarrow> crypto_observation \<Rightarrow> string \<Rightarrow> evaluation \<Rightarrow> evaluation" where
  "rsa_control rules obs family e =
     (if family = ''RSA'' then
        case ob_key_size obs of
          None \<Rightarrow> hit (max_status (ev_status e) Review) ''minimum-rsa-bits''
                    ''RSA key size is unknown; minimum-key-size compliance is unproven'' e
        | Some k \<Rightarrow>
            if k < minimum_rsa_bits rules
            then hit Fail ''minimum-rsa-bits''
                   (''RSA-'' @ str_of_int k @ '' is below the policy minimum of ''
                    @ str_of_int (minimum_rsa_bits rules) @ '' bits'') e
            else e
      else e)"

definition aes_control ::
  "crypto_policy_rules \<Rightarrow> crypto_observation \<Rightarrow> string \<Rightarrow> evaluation \<Rightarrow> evaluation" where
  "aes_control rules obs family e =
     (if family = ''AES'' then
        case ob_key_size obs of
          None \<Rightarrow> hit (max_status (ev_status e) Review) ''minimum-aes-bits''
                    ''AES key size is unknown; minimum-key-size compliance is unproven'' e
        | Some k \<Rightarrow>
            if k < minimum_aes_bits rules
            then hit Fail ''minimum-aes-bits''
                   (''AES-'' @ str_of_int k @ '' is below the policy minimum of ''
                    @ str_of_int (minimum_aes_bits rules) @ '' bits'') e
            else e
      else e)"

definition tls_control :: "crypto_policy_rules \<Rightarrow> crypto_observation \<Rightarrow> evaluation \<Rightarrow> evaluation" where
  "tls_control rules obs e =
     (if ob_crypto_asset_type obs = Protocol then
        let minimum = tls_minimum_value (minimum_tls_version rules)
        in case tls_rank (ob_protocol_version obs) of
             None \<Rightarrow> hit (max_status (ev_status e) Review) ''minimum-tls-version''
                       ''TLS protocol version is unknown; baseline compliance is unproven'' e
           | Some observed \<Rightarrow>
               (case tls_rank (Some minimum) of
                  None \<Rightarrow> e
                | Some required \<Rightarrow>
                    if observed < required
                    then hit Fail ''minimum-tls-version''
                           (''TLS '' @ (case ob_protocol_version obs of None \<Rightarrow> ''None'' | Some v \<Rightarrow> v)
                            @ '' is below the policy minimum of TLS '' @ minimum) e
                    else e)
      else e)"

definition internet_quantum_control ::
  "crypto_policy_rules \<Rightarrow> scan_context \<Rightarrow> evaluation \<Rightarrow> evaluation" where
  "internet_quantum_control rules c e =
     (if internet_exposed c
      then hit (max_status (ev_status e) (internet_exposed_quantum_action rules))
             ''internet-quantum-exposure''
             (''Internet-exposed quantum-vulnerable cryptography requires ''
              @ disposition_value (internet_exposed_quantum_action rules)
              @ '' under this baseline'') e
      else e)"

definition hndl_control ::
  "crypto_policy_rules \<Rightarrow> scan_context \<Rightarrow> evaluation \<Rightarrow> evaluation" where
  "hndl_control rules c e =
     (if data_lifetime_years c \<ge> long_lived_data_years rules
      then hit Fail ''harvest-now-decrypt-later''
             (''Data lifetime of '' @ str_of_int (data_lifetime_years c)
              @ '' years meets the policy HNDL threshold of ''
              @ str_of_int (long_lived_data_years rules) @ '' years'') e
      else e)"

definition quantum_control ::
  "crypto_policy_rules \<Rightarrow> scan_context \<Rightarrow> quantum_status \<Rightarrow> evaluation \<Rightarrow> evaluation" where
  "quantum_control rules c qs e =
     (if qs = QVulnerable then
        hndl_control rules c (internet_quantum_control rules c
          (hit (max_status (ev_status e) (quantum_vulnerable_default rules))
             ''quantum-vulnerable''
             (''Quantum-vulnerable cryptography requires ''
              @ disposition_value (quantum_vulnerable_default rules)
              @ '' under this baseline'') e))
      else e)"

definition unknown_family_control ::
  "crypto_policy_rules \<Rightarrow> crypto_observation \<Rightarrow> string \<Rightarrow> evaluation \<Rightarrow> evaluation" where
  "unknown_family_control rules obs family e =
     (if ob_crypto_asset_type obs = Algorithm \<and> get_profile family = None
      then hit (max_status (ev_status e) (unknown_family_action rules)) ''unknown-family''
             (family @ '' is not in the CryptoHawk algorithm knowledge base and requires ''
              @ disposition_value (unknown_family_action rules) @ '' under this baseline'') e
      else e)"

definition confidence_control ::
  "crypto_policy_rules \<Rightarrow> crypto_observation \<Rightarrow> evaluation \<Rightarrow> evaluation" where
  "confidence_control rules obs e =
     (if ob_confidence obs < minimum_detection_confidence rules
      then hit (max_status (ev_status e) Review) ''detection-confidence''
             (''Detection confidence '' @ format_2f (ob_confidence obs)
              @ '' is below the policy minimum of ''
              @ format_2f (minimum_detection_confidence rules)) e
      else e)"

definition evaluate :: "finding \<Rightarrow> scan_context \<Rightarrow> crypto_policy_rules \<Rightarrow> evaluation" where
  "evaluate f c rules =
     (let obs = fi_observation f; family = normalize_family (ob_family obs);
          e = confidence_control rules obs (unknown_family_control rules obs family
                (quantum_control rules c (ra_quantum_status (fi_risk f))
                  (tls_control rules obs (aes_control rules obs family
                    (rsa_control rules obs family (disallowed_control rules family
                      \<lparr>ev_status = Pass, ev_reasons = [], ev_controls = []\<rparr>))))))
      in if ev_reasons e = []
         then e\<lparr>ev_reasons := [''Observed cryptography satisfies the selected organization baseline'']\<rparr>
         else e)"

text \<open>\<open>CryptoPolicyEvaluator.apply\<close>.\<close>

definition apply_policy :: "finding \<Rightarrow> scan_context \<Rightarrow> effective_policy \<Rightarrow> finding" where
  "apply_policy f c policy =
     (let e = evaluate f c (pv_rules (ep_version policy))
      in f\<lparr>fi_risk := (fi_risk f)
           \<lparr>ra_policy_id := Some (pp_id (ep_pack policy)),
            ra_policy_version := Some (pv_version (ep_version policy)),
            ra_policy_name := Some (pp_name (ep_pack policy)),
            ra_policy_status := Some (ev_status e),
            ra_policy_reasons := ev_reasons e,
            ra_policy_controls := sort (remdups (ev_controls e)),
            ra_policy_rules_hash := Some (pv_rules_hash (ep_version policy))\<rparr>\<rparr>)"

section \<open>The reference: which controls an observation triggers\<close>

definition triggered ::
  "finding \<Rightarrow> scan_context \<Rightarrow> crypto_policy_rules \<Rightarrow> (string \<times> disposition) list" where
  "triggered f c r =
     (let obs = fi_observation f; family = normalize_family (ob_family obs);
          below = (\<lambda>limit. case ob_key_size obs of None \<Rightarrow> [Review]
                           | Some k \<Rightarrow> if k < limit then [Fail] else []);
          qv = (ra_quantum_status (fi_risk f) = QVulnerable)
      in (if family \<in> normalize_family ` set (disallowed_families r)
          then [(''disallowed-family'', Fail)] else [])
       @ (if family = ''RSA'' then map (Pair ''minimum-rsa-bits'') (below (minimum_rsa_bits r)) else [])
       @ (if family = ''AES'' then map (Pair ''minimum-aes-bits'') (below (minimum_aes_bits r)) else [])
       @ (if ob_crypto_asset_type obs = Protocol
          then (case tls_rank (ob_protocol_version obs) of
                  None \<Rightarrow> [(''minimum-tls-version'', Review)]
                | Some v \<Rightarrow> if v < (case minimum_tls_version r of TLS12 \<Rightarrow> 12 | TLS13 \<Rightarrow> 13)
                            then [(''minimum-tls-version'', Fail)] else [])
          else [])
       @ (if qv then [(''quantum-vulnerable'', quantum_vulnerable_default r)] else [])
       @ (if qv \<and> internet_exposed c
          then [(''internet-quantum-exposure'', internet_exposed_quantum_action r)] else [])
       @ (if qv \<and> long_lived_data_years r \<le> data_lifetime_years c
          then [(''harvest-now-decrypt-later'', Fail)] else [])
       @ (if ob_crypto_asset_type obs = Algorithm \<and> get_profile (ob_family obs) = None
          then [(''unknown-family'', unknown_family_action r)] else [])
       @ (if ob_confidence obs < minimum_detection_confidence r
          then [(''detection-confidence'', Review)] else []))"

definition demanded :: "(string \<times> disposition) list \<Rightarrow> disposition" where
  "demanded ts = fold max (map snd ts) Pass"

section \<open>Each control contributes its triggered entries\<close>

definition contributes ::
  "(string \<times> disposition) list \<Rightarrow> evaluation \<Rightarrow> evaluation \<Rightarrow> bool" where
  "contributes ts e e' \<longleftrightarrow>
     ev_status e' = fold max (map snd ts) (ev_status e) \<and>
     ev_controls e' = ev_controls e @ map fst ts \<and>
     length (ev_reasons e') = length (ev_reasons e) + length ts"

lemma disposition_bounds [simp]: "Pass \<le> d" "d \<le> Fail" "max Fail d = Fail" "max d Fail = Fail"
    "max Pass d = d" "max d Pass = d"
  by (cases d; simp add: less_eq_disposition_def max_def)+

lemma contributes_Nil [simp]: "contributes [] e e' \<longleftrightarrow> ev_status e' = ev_status e \<and>
    ev_controls e' = ev_controls e \<and> length (ev_reasons e') = length (ev_reasons e)"
  by (auto simp: contributes_def)

lemma contributes_hit [simp]:
  "contributes [(c', d)] e (hit d' c r e) \<longleftrightarrow> c' = c \<and> d' = max d (ev_status e)"
  by (auto simp: contributes_def hit_def)

lemma contributes_trans:
  "contributes ts e e' \<Longrightarrow> contributes us e' e'' \<Longrightarrow> contributes (ts @ us) e e''"
  by (simp add: contributes_def)

lemma disallowed_contributes:
  "contributes (if family \<in> normalize_family ` set (disallowed_families r)
     then [(''disallowed-family'', Fail)] else []) e (disallowed_control r family e)"
  by (simp add: disallowed_control_def)

lemma rsa_contributes:
  "contributes (if family = ''RSA'' then map (Pair ''minimum-rsa-bits'')
       (case ob_key_size obs of None \<Rightarrow> [Review]
        | Some k \<Rightarrow> if k < minimum_rsa_bits r then [Fail] else []) else [])
     e (rsa_control r obs family e)"
  by (simp add: rsa_control_def max.commute split: option.split)

lemma aes_contributes:
  "contributes (if family = ''AES'' then map (Pair ''minimum-aes-bits'')
       (case ob_key_size obs of None \<Rightarrow> [Review]
        | Some k \<Rightarrow> if k < minimum_aes_bits r then [Fail] else []) else [])
     e (aes_control r obs family e)"
  by (simp add: aes_control_def max.commute split: option.split)

lemma tls_rank_minimum:
  "tls_rank (Some (tls_minimum_value m)) = Some (case m of TLS12 \<Rightarrow> 12 | TLS13 \<Rightarrow> 13)"
proof -
  have "tls_rank (Some ''1.2'') = Some 12" "tls_rank (Some ''1.3'') = Some 13" by code_simp+
  then show ?thesis by (cases m) simp_all
qed

lemma tls_contributes:
  "contributes (if ob_crypto_asset_type obs = Protocol
      then (case tls_rank (ob_protocol_version obs) of
              None \<Rightarrow> [(''minimum-tls-version'', Review)]
            | Some v \<Rightarrow> if v < (case minimum_tls_version r of TLS12 \<Rightarrow> 12 | TLS13 \<Rightarrow> 13)
                        then [(''minimum-tls-version'', Fail)] else [])
      else []) e (tls_control r obs e)"
  by (simp add: tls_control_def tls_rank_minimum Let_def max.commute split: option.split)

lemma quantum_contributes:
  "contributes
     ((if qs = QVulnerable then [(''quantum-vulnerable'', quantum_vulnerable_default r)] else [])
      @ (if qs = QVulnerable \<and> internet_exposed c
         then [(''internet-quantum-exposure'', internet_exposed_quantum_action r)] else [])
      @ (if qs = QVulnerable \<and> long_lived_data_years r \<le> data_lifetime_years c
         then [(''harvest-now-decrypt-later'', Fail)] else []))
     e (quantum_control r c qs e)"
  by (simp add: quantum_control_def internet_quantum_control_def hndl_control_def
      contributes_def hit_def max.commute)

lemma unknown_contributes:
  "contributes (if ob_crypto_asset_type obs = Algorithm \<and> get_profile family = None
      then [(''unknown-family'', unknown_family_action r)] else [])
     e (unknown_family_control r obs (normalize_family family) e)"
  by (simp add: unknown_family_control_def max.commute)

lemma confidence_contributes:
  "contributes (if ob_confidence obs < minimum_detection_confidence r
      then [(''detection-confidence'', Review)] else []) e (confidence_control r obs e)"
  by (simp add: confidence_control_def max.commute)

text \<open>The evaluation before the fallback reason.\<close>

definition evaluation_of :: "finding \<Rightarrow> scan_context \<Rightarrow> crypto_policy_rules \<Rightarrow> evaluation" where
  "evaluation_of f c rules =
     (let obs = fi_observation f; family = normalize_family (ob_family obs)
      in confidence_control rules obs (unknown_family_control rules obs family
           (quantum_control rules c (ra_quantum_status (fi_risk f))
             (tls_control rules obs (aes_control rules obs family
               (rsa_control rules obs family (disallowed_control rules family
                 \<lparr>ev_status = Pass, ev_reasons = [], ev_controls = []\<rparr>)))))))"

lemma evaluation_contributes:
  "contributes (triggered f c r) \<lparr>ev_status = Pass, ev_reasons = [], ev_controls = []\<rparr>
     (evaluation_of f c r)"
proof -
  show ?thesis
    unfolding triggered_def evaluation_of_def Let_def
    by (rule contributes_trans [OF disallowed_contributes contributes_trans [OF rsa_contributes
      contributes_trans [OF aes_contributes contributes_trans [OF tls_contributes
      contributes_trans [OF quantum_contributes contributes_trans [OF unknown_contributes
      confidence_contributes]]]]], unfolded append_assoc])
qed

lemma evaluate_status: "ev_status (evaluate f c r) = demanded (triggered f c r)"
  and evaluate_controls: "ev_controls (evaluate f c r) = map fst (triggered f c r)"
  and evaluate_reasons: "length (ev_reasons (evaluate f c r)) = max 1 (length (triggered f c r))"
proof -
  have e: "evaluate f c r = (let e = evaluation_of f c r in if ev_reasons e = []
     then e\<lparr>ev_reasons := [''Observed cryptography satisfies the selected organization baseline'']\<rparr>
     else e)"
    by (simp add: evaluate_def evaluation_of_def Let_def)
  note c = evaluation_contributes [of f c r, unfolded contributes_def, simplified]
  from c show "ev_status (evaluate f c r) = demanded (triggered f c r)"
    by (simp add: e demanded_def Let_def)
  from c show "ev_controls (evaluate f c r) = map fst (triggered f c r)"
    by (simp add: e Let_def)
  from c have "length (ev_reasons (evaluation_of f c r)) = length (triggered f c r)" by simp
  then show "length (ev_reasons (evaluate f c r)) = max 1 (length (triggered f c r))"
    by (cases "triggered f c r") (auto simp: e Let_def)
qed

section \<open>The verdict is the maximum of the demands\<close>

lemma fold_max_le: "fold max ds (d0 :: disposition) \<le> d \<longleftrightarrow> d0 \<le> d \<and> (\<forall>x \<in> set ds. x \<le> d)"
  by (induction ds arbitrary: d0) auto

lemma demanded_le: "demanded ts \<le> d \<longleftrightarrow> (\<forall>x \<in> set ts. snd x \<le> d)"
  by (auto simp: demanded_def fold_max_le)

lemma demanded_Nil [simp]: "demanded [] = Pass"
  by (simp add: demanded_def)

lemma demanded_single [simp]: "demanded [(c, d)] = d"
  by (simp add: demanded_def)

lemma demanded_append: "demanded (ts @ us) = max (demanded ts) (demanded us)"
proof (rule antisym)
  show "demanded (ts @ us) \<le> max (demanded ts) (demanded us)"
    using demanded_le [of ts "demanded ts"] demanded_le [of us "demanded us"]
    by (fastforce simp: demanded_le le_max_iff_disj)
  show "max (demanded ts) (demanded us) \<le> demanded (ts @ us)"
    using demanded_le [of "ts @ us" "demanded (ts @ us)"] by (simp add: demanded_le)
qed

lemma le_Review [simp]: "d \<le> Review \<longleftrightarrow> d \<noteq> Fail"
  by (cases d) (simp_all add: less_eq_disposition_def)

lemma le_Fail [simp]: "d \<le> Fail"
  by (cases d) (simp_all add: less_eq_disposition_def)

lemma demanded_Fail: "demanded ts = Fail \<longleftrightarrow> (\<exists>c. (c, Fail) \<in> set ts)"
proof -
  have "demanded ts \<noteq> Fail \<longleftrightarrow> (\<forall>x \<in> set ts. snd x \<noteq> Fail)"
    using demanded_le [of ts Review] by simp
  then show ?thesis by force
qed

section \<open>The overlay interface\<close>

text \<open>The assessment without the policy verdict.\<close>

definition core_risk :: "risk_assessment \<Rightarrow> risk_assessment" where
  "core_risk r = r\<lparr>ra_policy_id := None, ra_policy_version := None, ra_policy_name := None,
     ra_policy_status := None, ra_policy_reasons := [], ra_policy_controls := [],
     ra_policy_rules_hash := None\<rparr>"

lemma core_risk_fields:
  assumes "core_risk r = core_risk r'"
  shows "ra_score r = ra_score r'" "ra_severity r = ra_severity r'"
    "ra_quantum_status r = ra_quantum_status r'" "ra_reasons r = ra_reasons r'"
    "ra_migration_target r = ra_migration_target r'"
    "ra_observation_id r = ra_observation_id r'"
proof -
  have "ra_score (core_risk r) = ra_score (core_risk r')"
    "ra_severity (core_risk r) = ra_severity (core_risk r')"
    "ra_quantum_status (core_risk r) = ra_quantum_status (core_risk r')"
    "ra_reasons (core_risk r) = ra_reasons (core_risk r')"
    "ra_migration_target (core_risk r) = ra_migration_target (core_risk r')"
    "ra_observation_id (core_risk r) = ra_observation_id (core_risk r')"
    using assms by simp_all
  then show "ra_score r = ra_score r'" "ra_severity r = ra_severity r'"
    "ra_quantum_status r = ra_quantum_status r'" "ra_reasons r = ra_reasons r'"
    "ra_migration_target r = ra_migration_target r'"
    "ra_observation_id r = ra_observation_id r'"
    by (simp_all add: core_risk_def)
qed

text \<open>
  What the scan executor relies on in a policy evaluator: the observation and the core risk pass
  through, and the new verdict depends on nothing an earlier overlay wrote.
\<close>

locale risk_overlay =
  fixes overlay :: "finding \<Rightarrow> scan_context \<Rightarrow> 'p \<Rightarrow> finding"
  assumes overlay_observation: "fi_observation (overlay f c p) = fi_observation f"
    and overlay_core: "core_risk (fi_risk (overlay f c p)) = core_risk (fi_risk f)"
    and overlay_last: "overlay (overlay f c p) d q = overlay f d q"
begin

lemma overlay_score: "ra_score (fi_risk (overlay f c p)) = ra_score (fi_risk f)"
  by (rule core_risk_fields) (rule overlay_core)

lemma overlay_severity: "ra_severity (fi_risk (overlay f c p)) = ra_severity (fi_risk f)"
  by (rule core_risk_fields) (rule overlay_core)

lemma overlay_batch:
  "map (\<lambda>f. (fi_observation f, core_risk (fi_risk f))) (map (\<lambda>f. overlay f c p) fs)
   = map (\<lambda>f. (fi_observation f, core_risk (fi_risk f))) fs"
  by (simp add: overlay_observation overlay_core)

lemma overlay_history:
  "fold (\<lambda>(c, p) f. overlay f c p) (hist @ [(d, q)]) f = overlay f d q"
proof (induction hist arbitrary: f)
  case (Cons a hist)
  then show ?case by (cases a) (simp add: overlay_last)
qed simp

end

lemma evaluate_depends:
  "fi_observation f = fi_observation g \<Longrightarrow>
   ra_quantum_status (fi_risk f) = ra_quantum_status (fi_risk g) \<Longrightarrow>
   evaluate f c r = evaluate g c r"
  by (simp add: evaluate_def)

interpretation evaluator: risk_overlay apply_policy
proof unfold_locales
  fix f c p d q
  show "fi_observation (apply_policy f c p) = fi_observation f"
    by (simp add: apply_policy_def Let_def)
  show "core_risk (fi_risk (apply_policy f c p)) = core_risk (fi_risk f)"
    by (simp add: apply_policy_def core_risk_def Let_def)
  have "evaluate (apply_policy f c p) d r = evaluate f d r" for r
    by (rule evaluate_depends) (simp_all add: apply_policy_def Let_def)
  then show "apply_policy (apply_policy f c p) d q = apply_policy f d q"
    by (simp add: apply_policy_def Let_def)
qed

section \<open>Tightening a baseline\<close>

definition stricter :: "crypto_policy_rules \<Rightarrow> crypto_policy_rules \<Rightarrow> bool" where
  "stricter r' r \<longleftrightarrow>
     minimum_rsa_bits r \<le> minimum_rsa_bits r' \<and> minimum_aes_bits r \<le> minimum_aes_bits r' \<and>
     (minimum_tls_version r = TLS13 \<longrightarrow> minimum_tls_version r' = TLS13) \<and>
     normalize_family ` set (disallowed_families r) \<subseteq> normalize_family ` set (disallowed_families r') \<and>
     quantum_vulnerable_default r \<le> quantum_vulnerable_default r' \<and>
     internet_exposed_quantum_action r \<le> internet_exposed_quantum_action r' \<and>
     long_lived_data_years r' \<le> long_lived_data_years r \<and>
     unknown_family_action r \<le> unknown_family_action r' \<and>
     minimum_detection_confidence r \<le> minimum_detection_confidence r'"

lemma triggered_mono:
  assumes "stricter r' r"
  shows "demanded (triggered f c r) \<le> demanded (triggered f c r')"
  unfolding triggered_def Let_def demanded_append
proof (intro max.mono)
  let ?o = "fi_observation f"
  show "demanded (if normalize_family (ob_family ?o) \<in> normalize_family ` set (disallowed_families r)
        then [(''disallowed-family'', Fail)] else [])
    \<le> demanded (if normalize_family (ob_family ?o) \<in> normalize_family ` set (disallowed_families r')
        then [(''disallowed-family'', Fail)] else [])"
    using assms unfolding stricter_def by auto
qed (use assms in \<open>auto simp: stricter_def split: option.split tls_minimum.split\<close>)

text \<open>A policy version as the store returns it, for concrete instances.\<close>

definition policy_with :: "crypto_policy_rules \<Rightarrow> effective_policy" where
  "policy_with r =
     \<lparr>ep_pack = \<lparr>pp_id = ''p'', pp_workspace_id = ''w'', pp_slug = ''baseline'', pp_name = ''Baseline'',
        pp_description = '''', pp_built_in = False, pp_created_by = ''u'', pp_created_at = 0\<rparr>,
      ep_version = \<lparr>pv_id = ''v'', pv_policy_id = ''p'', pv_workspace_id = ''w'', pv_version = 1,
        pv_rules = r, pv_rules_hash = ''h'', pv_created_by = ''u'', pv_created_at = 0\<rparr>,
      ep_assigned_by = ''u'', ep_assigned_at = 0\<rparr>"

section \<open>Properties\<close>

text \<open>
  C6. The policy verdict of a finding is exactly the most severe disposition that any triggered
  control demands (pass when none triggers), the controls it lists are the triggered ones, sorted
  and without repeats, and it states one reason per triggered control, or the single fallback
  reason when none triggers. The imperative evaluator overwrites its status variable in nine
  places; none of them ever lowers it.
\<close>

theorem policy_verdict_is_maximum_demand:
  "let ts = triggered f c (pv_rules (ep_version p)); r = fi_risk (apply_policy f c p)
   in ra_policy_status r = Some (demanded ts) \<and>
      ra_policy_controls r = sort (remdups (map fst ts)) \<and>
      length (ra_policy_reasons r) = max 1 (length ts)"
  by (simp add: apply_policy_def Let_def evaluate_status evaluate_controls evaluate_reasons)

text \<open>
  Re-evaluating findings under any history of policies changes neither the observation nor
  the core risk, and the stored verdict is the one the last policy alone would give: no verdict,
  reason or control of an earlier policy survives.
\<close>

theorem policy_history_is_last_policy:
  "let g = fold (\<lambda>(c, p) f. apply_policy f c p) (hist @ [(d, q)]) f
   in g = apply_policy f d q \<and> fi_observation g = fi_observation f \<and>
      core_risk (fi_risk g) = core_risk (fi_risk f) \<and>
      ra_score (fi_risk g) = ra_score (fi_risk f)"
  unfolding Let_def evaluator.overlay_history
  by (simp add: evaluator.overlay_observation evaluator.overlay_core evaluator.overlay_score)

text \<open>
  Tightening a baseline never improves a verdict: when every rule of one version is at least
  as strict as in another (larger minimum key sizes, a higher minimum TLS version, more disallowed
  families, stronger actions, a lower lifetime threshold, a higher confidence floor), the status
  of every finding in every context is at least as severe.
\<close>

theorem stricter_baseline_never_improves:
  assumes "stricter (pv_rules (ep_version p')) (pv_rules (ep_version p))"
  shows "\<exists>s s'. ra_policy_status (fi_risk (apply_policy f c p)) = Some s \<and>
    ra_policy_status (fi_risk (apply_policy f c p')) = Some s' \<and> s \<le> s'"
  using triggered_mono [OF assms]
  by (simp add: apply_policy_def Let_def evaluate_status)

definition sample_risk_finding :: finding where
  "sample_risk_finding = \<lparr>fi_observation = sample_observation, fi_risk = \<lparr>ra_observation_id = ''o1'',
     ra_score = 60, ra_severity = High, ra_quantum_status = QVulnerable, ra_reasons = [],
     ra_migration_target = None, ra_migration_strategy = None, ra_security_bits = None,
     ra_policy_id = None, ra_policy_version = None, ra_policy_name = None, ra_policy_status = None,
     ra_policy_reasons = [], ra_policy_controls = [], ra_policy_rules_hash = None\<rparr>\<rparr>"

theorem stricter_baseline_never_improves_witness:
  "\<exists>s s'. ra_policy_status (fi_risk (apply_policy sample_risk_finding default_context
        (policy_with default_rules))) = Some s \<and>
    ra_policy_status (fi_risk (apply_policy sample_risk_finding default_context
      (policy_with (default_rules\<lparr>minimum_rsa_bits := 3072, minimum_tls_version := TLS13\<rparr>)))) = Some s'
    \<and> s \<le> s'"
  by (rule stricter_baseline_never_improves)
     (simp add: stricter_def policy_with_def default_rules_def)

end
