(* ===== verification/Lifecycle.thy ===== *)
theory Lifecycle
  imports Prelude
begin

text \<open>
  Interfaces for the status columns of the program. A \<open>lifecycle\<close> is a table of allowed
  transitions together with the statuses that end it; a \<open>ranked_lifecycle\<close> also has a rank that
  every transition raises, so that a row changes its status a bounded number of times. The
  repositories provide the tables (\<^verbatim>\<open>_ALLOWED_TRANSITIONS\<close>), the clients rely on the lemmas.

  A \<open>step_system\<close> packages an invariant with the operations that keep it; its clients get the
  invariant in every reachable state.
\<close>

locale lifecycle =
  fixes allowed :: "'s \<Rightarrow> 's list"
    and terminal :: "'s \<Rightarrow> bool"
  assumes terminal_final: "terminal s \<Longrightarrow> allowed s = []"
begin

definition moves :: "'s \<Rightarrow> 's \<Rightarrow> bool" where
  "moves s t = (t \<in> set (allowed s))"

text \<open>A row whose status goes through the list of statuses \<open>ts\<close>, starting from \<open>s\<close>.\<close>

fun trace :: "'s \<Rightarrow> 's list \<Rightarrow> bool" where
  "trace s [] = True"
| "trace s (t # ts) = ((t = s \<or> moves s t) \<and> trace t ts)"

lemma terminal_no_move: "terminal s \<Longrightarrow> \<not> moves s t"
  by (simp add: moves_def terminal_final)

lemma terminal_stays: "moves\<^sup>*\<^sup>* s t \<Longrightarrow> terminal s \<Longrightarrow> t = s"
  by (induction rule: rtranclp_induct) (auto dest: terminal_no_move)

lemma trace_terminal: "trace s ts \<Longrightarrow> terminal s \<Longrightarrow> \<forall>t \<in> set ts. t = s"
  by (induction s ts rule: trace.induct) (auto dest: terminal_no_move)

lemma trace_reaches: "trace s ts \<Longrightarrow> t \<in> set ts \<Longrightarrow> moves\<^sup>*\<^sup>* s t"
  by (induction s ts rule: trace.induct) (auto intro: converse_rtranclp_into_rtranclp)

end

locale ranked_lifecycle = lifecycle allowed terminal
  for allowed :: "'s \<Rightarrow> 's list" and terminal :: "'s \<Rightarrow> bool" +
  fixes rank :: "'s \<Rightarrow> nat" and top :: nat
  assumes rank_moves: "t \<in> set (allowed s) \<Longrightarrow> rank s < rank t"
    and rank_top: "rank s \<le> top"
begin

fun changes :: "'s \<Rightarrow> 's list \<Rightarrow> nat" where
  "changes s [] = 0"
| "changes s (t # ts) = (if t = s then 0 else 1) + changes t ts"

lemma changes_rank: "trace s ts \<Longrightarrow> changes s ts + rank s \<le> top"
proof (induction s ts rule: trace.induct)
  case (1 s)
  then show ?case by (simp add: rank_top)
next
  case (2 s t ts)
  then show ?case
    using rank_moves [of t s] by (auto simp: moves_def)
qed

lemma never_back: "moves\<^sup>*\<^sup>* s t \<Longrightarrow> moves\<^sup>*\<^sup>* t s \<Longrightarrow> s = t"
proof -
  have le: "rank a \<le> rank b" if "moves\<^sup>*\<^sup>* a b" for a b
    using that by (induction rule: rtranclp_induct) (auto simp: moves_def dest: rank_moves)
  assume st: "moves\<^sup>*\<^sup>* s t" and ts: "moves\<^sup>*\<^sup>* t s"
  show "s = t"
  proof (rule ccontr)
    assume "s \<noteq> t"
    with st obtain u where "moves s u" "moves\<^sup>*\<^sup>* u t"
      by (metis converse_rtranclpE)
    with le ts show False
      by (meson leD moves_def order_trans rank_moves)
  qed
qed

end

locale step_system =
  fixes step :: "'d \<Rightarrow> 'd \<Rightarrow> bool" and inv :: "'d \<Rightarrow> bool"
  assumes step_inv: "step d d' \<Longrightarrow> inv d \<Longrightarrow> inv d'"
begin

lemma steps_inv: "step\<^sup>*\<^sup>* d d' \<Longrightarrow> inv d \<Longrightarrow> inv d'"
  by (induction rule: rtranclp_induct) (auto intro: step_inv)

text \<open>A relation between an earlier and a later state that every step from a good state
  extends holds along every run.\<close>

lemma steps_relate:
  assumes "\<And>a. R a a" and "\<And>a b c. inv b \<Longrightarrow> R a b \<Longrightarrow> step b c \<Longrightarrow> R a c"
  shows "step\<^sup>*\<^sup>* d d' \<Longrightarrow> inv d \<Longrightarrow> R d d'"
proof (induction rule: rtranclp_induct)
  case base
  show ?case by (rule assms(1))
next
  case (step b c)
  from steps_inv [OF step.hyps(1) step.prems] show ?case
    by (rule assms(2)) (use step in auto)
qed

end

end
