(* ===== verification/Inventory.thy ===== *)
theory Inventory
  imports RiskEngine Lifecycle
begin

text \<open>
  Workspaces, managed assets and scan jobs: \<^verbatim>\<open>domain/inventory.py\<close> and \<^verbatim>\<open>storage/inventory.py\<close>.
  A row record serves both as the database row and as the domain object; enumerated columns hold
  the enumeration member (\<open>*_value\<close> is the stored text), and reading a row back re-validates it as
  the constructors of the domain classes do. An operation of the repository takes

  \<^item> \<open>env\<close>: what other processes commit between two of its transactions (or between a SELECT and
    the following commit), any function on the database,
  \<^item> the fresh identifier and the clock readings it uses,

  and returns its outcome and the database it leaves. The lemmas show that a generated slug always
  passes the workspace pattern, that a scan job follows its life cycle with the timestamps its
  status promises, and that creating a job under a given id is idempotent.
\<close>

section \<open>Domain objects\<close>

datatype managed_asset_kind = KSource | KRepository | KTlsEndpoint | KCertificateEndpoint
  | KSshEndpoint | KHost | KContainer | KKubernetes | KCloudResource

fun managed_asset_kind_value :: "managed_asset_kind \<Rightarrow> string" where
  "managed_asset_kind_value KSource = ''source''"
| "managed_asset_kind_value KRepository = ''repository''"
| "managed_asset_kind_value KTlsEndpoint = ''tls-endpoint''"
| "managed_asset_kind_value KCertificateEndpoint = ''certificate-endpoint''"
| "managed_asset_kind_value KSshEndpoint = ''ssh-endpoint''"
| "managed_asset_kind_value KHost = ''host''"
| "managed_asset_kind_value KContainer = ''container''"
| "managed_asset_kind_value KKubernetes = ''kubernetes''"
| "managed_asset_kind_value KCloudResource = ''cloud-resource''"

datatype scan_kind = ScSource | ScRepository | ScTls | ScCertificate | ScSsh | ScContainer

fun scan_kind_value :: "scan_kind \<Rightarrow> string" where
  "scan_kind_value ScSource = ''source''"
| "scan_kind_value ScRepository = ''repository''"
| "scan_kind_value ScTls = ''tls''"
| "scan_kind_value ScCertificate = ''certificate''"
| "scan_kind_value ScSsh = ''ssh''"
| "scan_kind_value ScContainer = ''container''"

datatype scan_status = Queued | Running | Succeeded | Failed | Canceled

fun scan_status_value :: "scan_status \<Rightarrow> string" where
  "scan_status_value Queued = ''queued''"
| "scan_status_value Running = ''running''"
| "scan_status_value Succeeded = ''succeeded''"
| "scan_status_value Failed = ''failed''"
| "scan_status_value Canceled = ''canceled''"

record workspace =
  ws_id :: string
  ws_name :: string
  ws_slug :: string
  ws_created_at :: time

record managed_asset =
  ma_id :: string
  ma_workspace_id :: string
  ma_name :: string
  ma_kind :: managed_asset_kind
  ma_locator :: string
  ma_context :: scan_context
  ma_tags :: "(string \<times> string) list"
  ma_enabled :: bool
  ma_created_at :: time
  ma_updated_at :: time

record scan_job =
  sj_id :: string
  sj_workspace_id :: string
  sj_asset_id :: string
  sj_kind :: scan_kind
  sj_status :: scan_status
  sj_requested_at :: time
  sj_started_at :: "time option"
  sj_finished_at :: "time option"
  sj_findings_count :: int
  sj_error_message :: "string option"

record inv_db =
  workspaces :: "workspace tbl"
  managed_assets :: "managed_asset tbl"
  scan_jobs :: "scan_job tbl"

section \<open>Validation\<close>

definition is_lower_or_digit :: "char \<Rightarrow> bool" where
  "is_lower_or_digit c = (is_lower c \<or> is_digit c)"

text \<open>The pattern \<^verbatim>\<open>^[a-z0-9][a-z0-9-]*$\<close>.\<close>

definition slug_pattern :: "string \<Rightarrow> bool" where
  "slug_pattern s =
     (s \<noteq> [] \<and> is_lower_or_digit (hd s) \<and> list_all (\<lambda>c. is_lower_or_digit c \<or> c = CHR ''-'') (tl s))"

definition length_between :: "nat \<Rightarrow> nat \<Rightarrow> 'a list \<Rightarrow> bool" where
  "length_between lo hi s = (lo \<le> length s \<and> length s \<le> hi)"

definition validate_workspace :: "workspace \<Rightarrow> workspace result" where
  "validate_workspace w =
     (if \<not> length_between 1 200 (ws_name w) then Inl (ValidationError ''name'')
      else if \<not> (length_between 2 80 (ws_slug w) \<and> slug_pattern (ws_slug w))
      then Inl (ValidationError ''slug'')
      else Inr w)"

definition validate_asset :: "managed_asset \<Rightarrow> managed_asset result" where
  "validate_asset a =
     (if \<not> length_between 1 200 (ma_name a) then Inl (ValidationError ''name'')
      else if \<not> length_between 1 1000 (ma_locator a) then Inl (ValidationError ''locator'')
      else if \<not> context_valid (ma_context a) then Inl (ValidationError ''context'')
      else Inr a)"

definition validate_job :: "scan_job \<Rightarrow> scan_job result" where
  "validate_job j =
     (if sj_findings_count j < 0 then Inl (ValidationError ''findings_count'') else Inr j)"

section \<open>Rows\<close>

text \<open>Tags are stored as JSON with sorted keys, so a stored asset carries them in key order.\<close>

definition asset_record :: "managed_asset \<Rightarrow> managed_asset" where
  "asset_record a = a\<lparr>ma_tags := sort_key fst (ma_tags a)\<rparr>"

definition asset_from_record :: "managed_asset \<Rightarrow> managed_asset result" where
  "asset_from_record = validate_asset"

definition workspace_from_record :: "workspace \<Rightarrow> workspace result" where
  "workspace_from_record = validate_workspace"

definition job_from_record :: "scan_job \<Rightarrow> scan_job result" where
  "job_from_record = validate_job"

fun map_rows :: "('r \<Rightarrow> 'a result) \<Rightarrow> 'r list \<Rightarrow> 'a list result" where
  "map_rows f [] = Inr []"
| "map_rows f (r # rs) = bindE (f r) (\<lambda>a. bindE (map_rows f rs) (\<lambda>as. Inr (a # as)))"

definition optional_row :: "('r \<Rightarrow> 'a result) \<Rightarrow> 'r option \<Rightarrow> 'a option result" where
  "optional_row f r = (case r of None \<Rightarrow> Inr None | Some x \<Rightarrow> bindE (f x) (\<lambda>a. Inr (Some a)))"

section \<open>Workspaces\<close>

text \<open>\<^verbatim>\<open>re.sub(r"[^a-z0-9]+", "-", s)\<close>: every maximal run of other characters becomes one dash.\<close>

fun dash_runs :: "bool \<Rightarrow> string \<Rightarrow> string" where
  "dash_runs in_run [] = []"
| "dash_runs in_run (c # cs) =
     (if is_lower_or_digit c then c # dash_runs False cs
      else if in_run then dash_runs True cs
      else CHR ''-'' # dash_runs True cs)"

definition slugify :: "string \<Rightarrow> string" where
  "slugify value =
     (let slug = strip_by (\<lambda>c. c = CHR ''-'') (dash_runs False (lower value));
          slug = (if length slug < 2
                  then ''ws-'' @ (if slug = [] then ''workspace'' else slug) else slug)
      in take 80 slug)"

definition workspace_conflict :: "workspace \<Rightarrow> workspace \<Rightarrow> bool" where
  "workspace_conflict x w = (ws_id x = ws_id w \<or> ws_slug x = ws_slug w)"

definition create_workspace ::
  "('x inv_db_scheme \<Rightarrow> 'x inv_db_scheme) \<Rightarrow> string \<Rightarrow> time \<Rightarrow> string \<Rightarrow> string option \<Rightarrow>
   'x inv_db_scheme \<Rightarrow> (workspace, 'x inv_db_scheme) outcome" where
  "create_workspace env ident now name slug db =
     (let chosen = (case slug of None \<Rightarrow> slugify name | Some s \<Rightarrow> if s = [] then slugify name else s);
          taken = Inl (ValueError (''workspace slug already exists: '' @ chosen))
      in case validate_workspace \<lparr>ws_id = ident, ws_name = name, ws_slug = chosen, ws_created_at = now\<rparr> of
           Inl e \<Rightarrow> (Inl e, db)
         | Inr w \<Rightarrow>
             if first_where (\<lambda>r. ws_slug r = ws_slug w) (workspaces db) \<noteq> None then (taken, db)
             else let db' = env db
                  in case insert_row workspace_conflict w (workspaces db') of
                       None \<Rightarrow> (taken, db')
                     | Some t \<Rightarrow> (Inr w, db'\<lparr>workspaces := t\<rparr>))"

definition list_workspaces :: "'x inv_db_scheme \<Rightarrow> workspace list result" where
  "list_workspaces db = map_rows workspace_from_record (sort_key ws_name (workspaces db))"

definition get_workspace :: "string \<Rightarrow> 'x inv_db_scheme \<Rightarrow> workspace option result" where
  "get_workspace w db = optional_row workspace_from_record (row_of ws_id (workspaces db) w)"

section \<open>Managed assets\<close>

definition find_asset ::
  "string \<Rightarrow> managed_asset_kind \<Rightarrow> string \<Rightarrow> 'x inv_db_scheme \<Rightarrow> managed_asset option result" where
  "find_asset w kind locator db =
     optional_row asset_from_record
       (first_where (\<lambda>r. ma_workspace_id r = w \<and> ma_kind r = kind \<and> ma_locator r = locator)
          (managed_assets db))"

definition get_asset :: "string \<Rightarrow> string \<Rightarrow> 'x inv_db_scheme \<Rightarrow> managed_asset option result" where
  "get_asset w a db =
     optional_row asset_from_record
       (first_where (\<lambda>r. ma_workspace_id r = w \<and> ma_id r = a) (managed_assets db))"

definition list_assets :: "string \<Rightarrow> 'x inv_db_scheme \<Rightarrow> managed_asset list result" where
  "list_assets w db =
     map_rows asset_from_record
       (sort_key ma_name (filter (\<lambda>r. ma_workspace_id r = w) (managed_assets db)))"

definition asset_conflict :: "managed_asset \<Rightarrow> managed_asset \<Rightarrow> bool" where
  "asset_conflict x a =
     (ma_id x = ma_id a \<or>
      ma_workspace_id x = ma_workspace_id a \<and> ma_kind x = ma_kind a \<and> ma_locator x = ma_locator a)"

definition create_asset ::
  "('x inv_db_scheme \<Rightarrow> 'x inv_db_scheme) \<Rightarrow> string \<Rightarrow> time \<Rightarrow> string \<Rightarrow> string \<Rightarrow> managed_asset_kind \<Rightarrow>
   string \<Rightarrow> scan_context \<Rightarrow> (string \<times> string) list \<Rightarrow> 'x inv_db_scheme \<Rightarrow>
   (managed_asset, 'x inv_db_scheme) outcome" where
  "create_asset env ident now w name kind locator context tags db =
     (let duplicate = Inl (ValueError ''asset already exists in workspace'')
      in case get_workspace w db of
           Inl e \<Rightarrow> (Inl e, db)
         | Inr None \<Rightarrow> (Inl (LookupError ''workspace not found''), db)
         | Inr (Some _) \<Rightarrow>
             (case find_asset w kind locator db of
                Inl e \<Rightarrow> (Inl e, db)
              | Inr (Some _) \<Rightarrow> (duplicate, db)
              | Inr None \<Rightarrow>
                  (case validate_asset \<lparr>ma_id = ident, ma_workspace_id = w, ma_name = name,
                           ma_kind = kind, ma_locator = locator, ma_context = context,
                           ma_tags = tags, ma_enabled = True, ma_created_at = now,
                           ma_updated_at = now\<rparr> of
                     Inl e \<Rightarrow> (Inl e, db)
                   | Inr asset \<Rightarrow>
                       let db' = env db
                       in case insert_row asset_conflict (asset_record asset) (managed_assets db') of
                            None \<Rightarrow> (duplicate, db')
                          | Some t \<Rightarrow> (Inr asset, db'\<lparr>managed_assets := t\<rparr>))))"

section \<open>Scan jobs\<close>

fun allowed_transitions :: "scan_status \<Rightarrow> scan_status list" where
  "allowed_transitions Queued = [Running, Canceled]"
| "allowed_transitions Running = [Succeeded, Failed, Canceled]"
| "allowed_transitions Succeeded = []"
| "allowed_transitions Failed = []"
| "allowed_transitions Canceled = []"

definition new_job :: "string \<Rightarrow> time \<Rightarrow> string \<Rightarrow> string \<Rightarrow> scan_kind \<Rightarrow> scan_job" where
  "new_job ident now w a kind =
     \<lparr>sj_id = ident, sj_workspace_id = w, sj_asset_id = a, sj_kind = kind, sj_status = Queued,
      sj_requested_at = now, sj_started_at = None, sj_finished_at = None, sj_findings_count = 0,
      sj_error_message = None\<rparr>"

text \<open>The check on a job that is already stored under the id.\<close>

definition bound_job :: "string \<Rightarrow> string \<Rightarrow> scan_kind \<Rightarrow> scan_job \<Rightarrow> scan_job result" where
  "bound_job w a kind existing =
     bindE (job_from_record existing) (\<lambda>loaded.
       if sj_workspace_id loaded \<noteq> w \<or> sj_asset_id loaded \<noteq> a \<or> sj_kind loaded \<noteq> kind
       then Inl (ValueError ''scan job id is already bound to different work'')
       else Inr loaded)"

definition create_scan_job ::
  "('x inv_db_scheme \<Rightarrow> 'x inv_db_scheme) \<Rightarrow> string \<Rightarrow> time \<Rightarrow> string \<Rightarrow> string \<Rightarrow> scan_kind \<Rightarrow>
   string option \<Rightarrow> 'x inv_db_scheme \<Rightarrow> (scan_job, 'x inv_db_scheme) outcome" where
  "create_scan_job env ident now w a kind job_id db =
     (case get_asset w a db of
        Inl e \<Rightarrow> (Inl e, db)
      | Inr None \<Rightarrow> (Inl (LookupError ''asset not found in workspace''), db)
      | Inr (Some _) \<Rightarrow>
          let job = new_job (case job_id of None \<Rightarrow> ident | Some j \<Rightarrow> j) now w a kind
          in case row_of sj_id (scan_jobs db) (sj_id job) of
               Some existing \<Rightarrow> (bound_job w a kind existing, db)
             | None \<Rightarrow>
                 let db' = env db
                 in case insert_row (\<lambda>x y. sj_id x = sj_id y) job (scan_jobs db') of
                      Some t \<Rightarrow> (Inr job, db'\<lparr>scan_jobs := t\<rparr>)
                    | None \<Rightarrow>
                        (case row_of sj_id (scan_jobs db') (sj_id job) of
                           None \<Rightarrow> (Inl IntegrityError, db')
                         | Some existing \<Rightarrow> (bound_job w a kind existing, db')))"

definition get_scan_job :: "string \<Rightarrow> string \<Rightarrow> 'x inv_db_scheme \<Rightarrow> scan_job option result" where
  "get_scan_job w j db =
     optional_row job_from_record
       (first_where (\<lambda>r. sj_workspace_id r = w \<and> sj_id r = j) (scan_jobs db))"

definition list_scan_jobs :: "string \<Rightarrow> nat \<Rightarrow> 'x inv_db_scheme \<Rightarrow> scan_job list result" where
  "list_scan_jobs w limit db =
     map_rows job_from_record
       (take limit (sort_key (\<lambda>r. - sj_requested_at r)
          (filter (\<lambda>r. sj_workspace_id r = w) (scan_jobs db))))"

text \<open>The columns a transition writes.\<close>

definition transition_values ::
  "time \<Rightarrow> scan_status \<Rightarrow> int option \<Rightarrow> string option \<Rightarrow> scan_job \<Rightarrow> scan_job" where
  "transition_values now target findings_count error_message r =
     r\<lparr>sj_status := target,
       sj_started_at := (if target = Running then Some now else sj_started_at r),
       sj_finished_at := (if target \<in> set [Succeeded, Failed, Canceled] then Some now
                          else sj_finished_at r),
       sj_findings_count := (case findings_count of None \<Rightarrow> sj_findings_count r | Some n \<Rightarrow> n),
       sj_error_message := (case error_message of None \<Rightarrow> sj_error_message r
                            | Some m \<Rightarrow> Some (take 4000 m))\<rparr>"

text \<open>
  One guarded UPDATE, committed, and then a read in a second transaction; \<open>env\<close> runs between them.
\<close>

definition transition_scan_job ::
  "('x inv_db_scheme \<Rightarrow> 'x inv_db_scheme) \<Rightarrow> time \<Rightarrow> string \<Rightarrow> string \<Rightarrow> scan_status \<Rightarrow> scan_status \<Rightarrow>
   int option \<Rightarrow> string option \<Rightarrow> 'x inv_db_scheme \<Rightarrow> (scan_job, 'x inv_db_scheme) outcome" where
  "transition_scan_job env now w j expected target findings_count error_message db =
     (if target \<notin> set (allowed_transitions expected)
      then (Inl (ValueError (''invalid scan transition: '' @ scan_status_value expected @ '' -> ''
              @ scan_status_value target)), db)
      else let guard = (\<lambda>r. sj_id r = j \<and> sj_workspace_id r = w \<and> sj_status r = expected)
           in if count_where guard (scan_jobs db) \<noteq> 1
              then (Inl (RuntimeError ''scan job state changed or job is outside workspace''), db)
              else let db' = env (db\<lparr>scan_jobs := update_where guard
                        (transition_values now target findings_count error_message) (scan_jobs db)\<rparr>)
                   in case get_scan_job w j db' of
                        Inl e \<Rightarrow> (Inl e, db')
                      | Inr None \<Rightarrow> (Inl (RuntimeError ''scan job disappeared after transition''), db')
                      | Inr (Some job) \<Rightarrow> (Inr job, db'))"

section \<open>Slugs\<close>

lemma dash_runs_chars: "c \<in> set (dash_runs r s) \<Longrightarrow> is_lower_or_digit c \<or> c = CHR ''-''"
  by (induction r s rule: dash_runs.induct) (auto split: if_splits)

lemma is_lower_or_digit_dash [simp]: "\<not> is_lower_or_digit (CHR ''-'')"
  by (simp add: is_lower_or_digit_def is_lower_def is_digit_def code_of_def)

lemma slug_pattern_iff:
  "slug_pattern s \<longleftrightarrow> s \<noteq> [] \<and> hd s \<noteq> CHR ''-'' \<and> (\<forall>c \<in> set s. is_lower_or_digit c \<or> c = CHR ''-'')"
  by (cases s) (auto simp: slug_pattern_def list_all_iff)

lemma slug_pattern_take: "slug_pattern s \<Longrightarrow> 0 < n \<Longrightarrow> slug_pattern (take n s)"
  by (auto simp: slug_pattern_iff dest: in_set_takeD)

lemma slugify_ok: "length_between 2 80 (slugify v) \<and> slug_pattern (slugify v)"
proof -
  let ?s = "strip_by (\<lambda>c. c = CHR ''-'') (dash_runs False (lower v))"
  have chars: "\<forall>c \<in> set ?s. is_lower_or_digit c \<or> c = CHR ''-''"
    using set_strip_by dash_runs_chars by blast
  have s: "?s = [] \<or> slug_pattern ?s"
    using chars strip_by_ends [of "\<lambda>c. c = CHR ''-''" "dash_runs False (lower v)"]
    unfolding slug_pattern_iff by blast
  define t where "t = (if length ?s < 2
    then ''ws-'' @ (if ?s = [] then ''workspace'' else ?s) else ?s)"
  have "slug_pattern t \<and> 2 \<le> length t"
  proof (cases "length ?s < 2")
    case True
    have "\<forall>c \<in> set ''ws-workspace''. is_lower_or_digit c \<or> c = CHR ''-''"
      by (simp add: is_lower_or_digit_def is_lower_def code_of_def)
    with True chars show ?thesis
      by (auto simp: t_def slug_pattern_iff)
  next
    case False
    with s show ?thesis by (auto simp: t_def)
  qed
  moreover have "slugify v = take 80 t"
    by (simp add: slugify_def t_def Let_def)
  ultimately show ?thesis
    by (simp add: length_between_def slug_pattern_take)
qed

section \<open>The life cycle of a scan job\<close>

fun terminal_status :: "scan_status \<Rightarrow> bool" where
  "terminal_status s = (s \<in> {Succeeded, Failed, Canceled})"

fun status_rank :: "scan_status \<Rightarrow> nat" where
  "status_rank Queued = 0"
| "status_rank Running = 1"
| "status_rank s = 2"

interpretation scan: ranked_lifecycle allowed_transitions terminal_status status_rank 2
proof unfold_locales
  show "terminal_status s \<Longrightarrow> allowed_transitions s = []" for s by auto
  show "t \<in> set (allowed_transitions s) \<Longrightarrow> status_rank s < status_rank t" for s t
    by (cases s) auto
  show "status_rank s \<le> 2" for s by (cases s) simp_all
qed

text \<open>What the status of a job promises about its timestamps and its count.\<close>

definition job_ok :: "scan_job \<Rightarrow> bool" where
  "job_ok j =
     ((sj_status j = Queued \<longrightarrow> sj_started_at j = None) \<and>
      (sj_status j \<in> {Running, Succeeded, Failed} \<longrightarrow> sj_started_at j \<noteq> None) \<and>
      (sj_finished_at j \<noteq> None \<longleftrightarrow> terminal_status (sj_status j)) \<and>
      0 \<le> sj_findings_count j)"

definition jobs_ok :: "'x inv_db_scheme \<Rightarrow> bool" where
  "jobs_ok db = (keyed sj_id (scan_jobs db) \<and> (\<forall>j \<in> set (scan_jobs db). job_ok j))"

lemma jobs_ok_scheme [simp]: "jobs_ok (db\<lparr>scan_jobs := t\<rparr>) \<longleftrightarrow>
    keyed sj_id t \<and> (\<forall>j \<in> set t. job_ok j)"
  by (simp add: jobs_ok_def)

lemma new_job_ok [simp]: "job_ok (new_job i now w a k)"
  by (simp add: job_ok_def new_job_def)

lemma new_job_fields [simp]: "sj_id (new_job i now w a k) = i"
    "sj_workspace_id (new_job i now w a k) = w" "sj_asset_id (new_job i now w a k) = a"
    "sj_kind (new_job i now w a k) = k" "sj_status (new_job i now w a k) = Queued"
  by (simp_all add: new_job_def)

lemma transition_values_fields [simp]:
  "sj_id (transition_values now t c m r) = sj_id r"
  "sj_workspace_id (transition_values now t c m r) = sj_workspace_id r"
  "sj_asset_id (transition_values now t c m r) = sj_asset_id r"
  "sj_kind (transition_values now t c m r) = sj_kind r"
  "sj_status (transition_values now t c m r) = t"
  by (simp_all add: transition_values_def)

lemma transition_values_ok:
  assumes "job_ok r" "t \<in> set (allowed_transitions (sj_status r))" "\<forall>n. c = Some n \<longrightarrow> 0 \<le> n"
  shows "job_ok (transition_values now t c m r)"
  using assms
  by (cases "sj_status r") (auto simp: job_ok_def transition_values_def split: option.split)

text \<open>
  The job table seen from outside: what one committed transaction of the repository does to it.
\<close>

inductive job_step :: "scan_job tbl \<Rightarrow> scan_job tbl \<Rightarrow> bool" where
  insert_job: "row_of sj_id t i = None \<Longrightarrow> job_step t (t @ [new_job i now w a k])"
| move_job: "target \<in> set (allowed_transitions expected) \<Longrightarrow> (\<forall>n. c = Some n \<longrightarrow> 0 \<le> n) \<Longrightarrow>
    job_step t (update_where (\<lambda>r. sj_id r = j \<and> sj_workspace_id r = w \<and> sj_status r = expected)
      (transition_values now target c m) t)"

definition job_table_ok :: "scan_job tbl \<Rightarrow> bool" where
  "job_table_ok t = (keyed sj_id t \<and> (\<forall>j \<in> set t. job_ok j))"

lemma jobs_ok_table: "jobs_ok db \<longleftrightarrow> job_table_ok (scan_jobs db)"
  by (simp add: jobs_ok_def job_table_ok_def)

interpretation jobs: step_system job_step job_table_ok
proof unfold_locales
  fix t t'
  assume "job_step t t'" and ok: "job_table_ok t"
  then show "job_table_ok t'"
  proof (cases rule: job_step.cases)
    case insert_job
    with ok show ?thesis by (simp add: job_table_ok_def tables)
  next
    case move_job
    with ok show ?thesis
      by (auto simp: job_table_ok_def keyed_update set_update_where intro: transition_values_ok)
  qed
qed

text \<open>How the row of a job may differ between two moments of a run.\<close>

definition job_later :: "scan_job \<Rightarrow> scan_job \<Rightarrow> bool" where
  "job_later r r' =
     (sj_id r' = sj_id r \<and> sj_workspace_id r' = sj_workspace_id r \<and>
      sj_asset_id r' = sj_asset_id r \<and> sj_kind r' = sj_kind r \<and>
      scan.moves\<^sup>*\<^sup>* (sj_status r) (sj_status r') \<and>
      (terminal_status (sj_status r) \<longrightarrow> r' = r))"

lemma job_later_refl [simp]: "job_later r r"
  by (simp add: job_later_def)

lemma job_later_trans: "job_later a b \<Longrightarrow> job_later b c \<Longrightarrow> job_later a c"
  unfolding job_later_def by (auto simp del: terminal_status.simps)

lemma job_later_move:
  "target \<in> set (allowed_transitions (sj_status r)) \<Longrightarrow> job_later r (transition_values now target c m r)"
  by (auto simp: job_later_def scan.moves_def)

definition jobs_later :: "scan_job tbl \<Rightarrow> scan_job tbl \<Rightarrow> bool" where
  "jobs_later t t' =
     (\<forall>j r. row_of sj_id t j = Some r \<longrightarrow> (\<exists>r'. row_of sj_id t' j = Some r' \<and> job_later r r'))"

lemma job_step_later:
  assumes "job_step t t'"
  shows "jobs_later t t'"
  using assms
proof (cases rule: job_step.cases)
  case insert_job
  then show ?thesis by (auto simp: jobs_later_def row_of_append)
next
  case move_job
  then show ?thesis
    by (auto simp: jobs_later_def row_of_update intro: job_later_move)
qed

lemma job_steps_later: "job_step\<^sup>*\<^sup>* t t' \<Longrightarrow> jobs_later t t'"
proof (induction rule: rtranclp_induct)
  case base
  show ?case by (simp add: jobs_later_def)
next
  case (step b c)
  from step.IH job_step_later [OF step.hyps(2)] show ?case
    unfolding jobs_later_def by (meson job_later_trans)
qed

text \<open>Both operations run as such transactions when what interferes does.\<close>

abbreviation job_rely :: "('x inv_db_scheme \<Rightarrow> 'x inv_db_scheme) \<Rightarrow> bool" where
  "job_rely env \<equiv> (\<forall>d. job_step\<^sup>*\<^sup>* (scan_jobs d) (scan_jobs (env d)))"

lemma create_scan_job_steps:
  assumes "job_rely env"
  shows "job_step\<^sup>*\<^sup>* (scan_jobs db) (scan_jobs (snd (create_scan_job env i now w a k jid db)))"
proof -
  have env: "job_step\<^sup>*\<^sup>* (scan_jobs db) (scan_jobs (env db))" using assms by blast
  have "job_step (scan_jobs (env db)) t"
    if "insert_row (\<lambda>x y. sj_id x = sj_id y) (new_job i' now w a k) (scan_jobs (env db)) = Some t" for t i'
    using that by (auto simp: insert_row_Some row_of_None intro!: job_step.intros(1))
  with env show ?thesis
    by (auto simp: create_scan_job_def Let_def bound_job_def
        split: sum.split option.split intro: rtranclp.rtrancl_into_rtrancl)
qed

lemma transition_scan_job_steps:
  assumes "job_rely env" "\<forall>n. c = Some n \<longrightarrow> 0 \<le> n"
  shows "job_step\<^sup>*\<^sup>* (scan_jobs db) (scan_jobs (snd (transition_scan_job env now w j e t c m db)))"
proof (cases "t \<in> set (allowed_transitions e)")
  case True
  let ?t = "update_where (\<lambda>r. sj_id r = j \<and> sj_workspace_id r = w \<and> sj_status r = e)
    (transition_values now t c m) (scan_jobs db)"
  have "job_step (scan_jobs db) ?t"
    by (rule job_step.intros(2)) (rule True, rule assms)
  moreover have "job_step\<^sup>*\<^sup>* ?t (scan_jobs (env (db\<lparr>scan_jobs := ?t\<rparr>)))"
    using assms(1) [rule_format, of "db\<lparr>scan_jobs := ?t\<rparr>"] by simp
  ultimately have "job_step\<^sup>*\<^sup>* (scan_jobs db) (scan_jobs (env (db\<lparr>scan_jobs := ?t\<rparr>)))"
    by (rule converse_rtranclp_into_rtranclp)
  with True show ?thesis
    by (auto simp: transition_scan_job_def Let_def split: sum.split option.split)
qed (simp add: transition_scan_job_def)

lemma job_from_record_Inr [simp]: "job_from_record r = Inr j \<longleftrightarrow> j = r \<and> 0 \<le> sj_findings_count r"
  by (auto simp: job_from_record_def validate_job_def)

lemma bound_job_Inr:
  "bound_job w a k r = Inr j \<longleftrightarrow> j = r \<and> 0 \<le> sj_findings_count r \<and>
     sj_workspace_id r = w \<and> sj_asset_id r = a \<and> sj_kind r = k"
  by (auto simp: bound_job_def bindE_Inr)

lemma bound_job_other:
  "0 \<le> sj_findings_count r \<Longrightarrow> bound_job w a k r =
    (if (sj_workspace_id r, sj_asset_id r, sj_kind r) = (w, a, k) then Inr r
     else Inl (ValueError ''scan job id is already bound to different work''))"
  by (auto simp: bound_job_def job_from_record_def validate_job_def)

lemma create_scan_job_stored:
  assumes "create_scan_job env i now w a k jid db = (Inr job, db')"
  shows "row_of sj_id (scan_jobs db') (sj_id job) = Some job" "sj_workspace_id job = w"
    "sj_asset_id job = a" "sj_kind job = k" "jid = Some j \<Longrightarrow> sj_id job = j"
proof -
  have "row_of sj_id (scan_jobs db') (sj_id job) = Some job \<and> sj_workspace_id job = w \<and>
      sj_asset_id job = a \<and> sj_kind job = k \<and> (\<forall>j. jid = Some j \<longrightarrow> sj_id job = j)"
    using assms
    by (auto simp: create_scan_job_def Let_def bound_job_Inr insert_row_key row_of_append
        dest: row_of_SomeD
        split: sum.splits option.splits)
  then show "row_of sj_id (scan_jobs db') (sj_id job) = Some job" "sj_workspace_id job = w"
    "sj_asset_id job = a" "sj_kind job = k" "jid = Some j \<Longrightarrow> sj_id job = j" by auto
qed

text \<open>When a transition succeeds, the row had the expected status and now has moved on.\<close>

lemma transition_scan_job_env:
  assumes "t \<in> set (allowed_transitions e)"
    and "count_where (\<lambda>r. sj_id r = j \<and> sj_workspace_id r = w \<and> sj_status r = e) (scan_jobs db) = 1"
  shows "snd (transition_scan_job env now w j e t c m db) =
    env (db\<lparr>scan_jobs := update_where (\<lambda>r. sj_id r = j \<and> sj_workspace_id r = w \<and> sj_status r = e)
      (transition_values now t c m) (scan_jobs db)\<rparr>)"
  unfolding transition_scan_job_def Let_def using assms
  by (simp split: sum.split option.split)

lemma transition_scan_job_moved:
  assumes ok: "jobs_ok db" and env: "job_rely env"
    and call: "transition_scan_job env now w j e t c m db = (Inr job, db')"
  shows "\<exists>r r'. row_of sj_id (scan_jobs db) j = Some r \<and> sj_status r = e \<and> sj_workspace_id r = w \<and>
    t \<in> set (allowed_transitions e) \<and> row_of sj_id (scan_jobs db') j = Some r' \<and>
    job_later (transition_values now t c m r) r'"
proof -
  let ?g = "\<lambda>r. sj_id r = j \<and> sj_workspace_id r = w \<and> sj_status r = e"
  let ?t = "update_where ?g (transition_values now t c m) (scan_jobs db)"
  have keyed: "keyed sj_id (scan_jobs db)" using ok by (simp add: jobs_ok_def)
  have t: "t \<in> set (allowed_transitions e)"
    by (rule ccontr) (use call in \<open>simp add: transition_scan_job_def\<close>)
  have one: "count_where ?g (scan_jobs db) = 1"
    by (rule ccontr) (use call t in \<open>simp add: transition_scan_job_def Let_def\<close>)
  have db': "db' = env (db\<lparr>scan_jobs := ?t\<rparr>)"
    using transition_scan_job_env [OF t one, of env now c m] by (simp only: call snd_conv)
  have "(case row_of sj_id (scan_jobs db) j of None \<Rightarrow> 0
      | Some r \<Rightarrow> if sj_workspace_id r = w \<and> sj_status r = e then 1 else 0) = (1::nat)"
    using one count_where_key [OF keyed, of j "\<lambda>r. sj_workspace_id r = w \<and> sj_status r = e"] by metis
  then obtain r where
      r: "row_of sj_id (scan_jobs db) j = Some r" "sj_workspace_id r = w" "sj_status r = e"
    by (auto split: option.splits if_splits)
  have "row_of sj_id ?t j = Some (transition_values now t c m r)"
    using r row_of_SomeD [OF r(1)] by (simp add: row_of_update)
  moreover have "jobs_later ?t (scan_jobs db')"
    using env [rule_format, of "db\<lparr>scan_jobs := ?t\<rparr>"] by (simp add: db' job_steps_later)
  ultimately show ?thesis
    using r t unfolding jobs_later_def by blast
qed

lemma transition_scan_job_lost:
  assumes ok: "jobs_ok db" and r: "row_of sj_id (scan_jobs db) j = Some r" "sj_status r \<noteq> e"
    and t: "t \<in> set (allowed_transitions e)"
  shows "transition_scan_job env now w j e t c m db =
    (Inl (RuntimeError ''scan job state changed or job is outside workspace''), db)"
proof -
  have "keyed sj_id (scan_jobs db)" using ok by (simp add: jobs_ok_def)
  from count_where_key [OF this, of j "\<lambda>r. sj_workspace_id r = w \<and> sj_status r = e"] r
  have "count_where (\<lambda>r. sj_id r = j \<and> sj_workspace_id r = w \<and> sj_status r = e) (scan_jobs db) = 0"
    by simp
  with t show ?thesis by (simp add: transition_scan_job_def)
qed

text \<open>Calls of the repository, each under its own interference.\<close>

inductive job_call :: "'x inv_db_scheme \<Rightarrow> 'x inv_db_scheme \<Rightarrow> bool" where
  "job_rely env \<Longrightarrow> job_call db (snd (create_scan_job env i now w a k jid db))"
| "job_rely env \<Longrightarrow> (\<forall>n. c = Some n \<longrightarrow> 0 \<le> n) \<Longrightarrow>
    job_call db (snd (transition_scan_job env now w j e t c m db))"

lemma job_calls_steps: "job_call\<^sup>*\<^sup>* db db' \<Longrightarrow> job_step\<^sup>*\<^sup>* (scan_jobs db) (scan_jobs db')"
proof (induction rule: rtranclp_induct)
  case (step b c)
  from step.hyps(2) have "job_step\<^sup>*\<^sup>* (scan_jobs b) (scan_jobs c)"
    by cases (auto intro!: create_scan_job_steps transition_scan_job_steps)
  with step.IH show ?case by (rule rtranclp_trans)
qed simp

section \<open>Instances\<close>

definition sample_inventory :: inv_db where
  "sample_inventory =
     \<lparr>workspaces = [\<lparr>ws_id = ''w'', ws_name = ''Acme'', ws_slug = ''acme'', ws_created_at = 0\<rparr>],
      managed_assets = [\<lparr>ma_id = ''a'', ma_workspace_id = ''w'', ma_name = ''Site'',
        ma_kind = KTlsEndpoint, ma_locator = ''tls://acme.example'', ma_context = default_context,
        ma_tags = [], ma_enabled = True, ma_created_at = 0, ma_updated_at = 0\<rparr>],
      scan_jobs = []\<rparr>"

definition sample_created :: inv_db where
  "sample_created = snd (create_scan_job id ''f'' 5 ''w'' ''a'' ScTls (Some ''j'') sample_inventory)"

definition sample_running :: inv_db where
  "sample_running = snd (transition_scan_job id 6 ''w'' ''j'' Queued Running None None sample_created)"

lemma sample_job_created:
  "create_scan_job id ''f'' 5 ''w'' ''a'' ScTls (Some ''j'') sample_inventory
   = (Inr (new_job ''j'' 5 ''w'' ''a'' ScTls), sample_created)"
  "scan_jobs sample_created = [new_job ''j'' 5 ''w'' ''a'' ScTls]"
  "managed_assets sample_created = managed_assets sample_inventory"
  by (simp_all add: sample_created_def create_scan_job_def sample_inventory_def get_asset_def
      first_where_def optional_row_def asset_from_record_def validate_asset_def length_between_def
      default_context_valid insert_row_def Let_def)

lemma sample_inventory_ok: "jobs_ok sample_inventory" "jobs_ok sample_created"
  by (simp_all add: jobs_ok_def sample_job_created(2) keyed_def)
    (simp_all add: sample_inventory_def)

section \<open>Properties\<close>

text \<open>
  The slug derived from a workspace name always passes the workspace validation (2 to 80
  characters, lower-case letters, digits and dashes, not starting with a dash), whatever the name
  is made of; so creating a workspace under a valid name and no explicit slug fails only when that
  slug or the identifier is taken, before or during the transaction.
\<close>

theorem derived_slug_always_valid:
  assumes "length_between 1 200 name"
  shows "slug_pattern (slugify name) \<and> length_between 2 80 (slugify name) \<and>
    (case create_workspace env i now name None db of
       (Inl e, db') \<Rightarrow> e = ValueError (''workspace slug already exists: '' @ slugify name) \<and>
         (\<exists>x \<in> set (workspaces db) \<union> set (workspaces (env db)). ws_id x = i \<or> ws_slug x = slugify name)
     | (Inr w, db') \<Rightarrow> ws_slug w = slugify name \<and> workspaces db' = workspaces (env db) @ [w])"
proof -
  note ok = slugify_ok [of name]
  have "validate_workspace \<lparr>ws_id = i, ws_name = name, ws_slug = slugify name, ws_created_at = now\<rparr>
    = Inr \<lparr>ws_id = i, ws_name = name, ws_slug = slugify name, ws_created_at = now\<rparr>"
    using assms ok by (simp add: validate_workspace_def)
  with ok show ?thesis
    by (auto simp: create_workspace_def Let_def first_where_def find_Some_iff insert_row_Some
        insert_row_None workspace_conflict_def split: option.split dest: find_SomeD)
qed

theorem derived_slug_always_valid_witness:
  "slug_pattern (slugify ''Acme & Sons, Ltd.'') \<and>
   (case create_workspace id ''w2'' 0 ''Acme & Sons, Ltd.'' None sample_inventory of
      (Inl e, db') \<Rightarrow> False | (Inr w, db') \<Rightarrow> ws_slug w = slugify ''Acme & Sons, Ltd.'')"
proof -
  have "slugify ''Acme & Sons, Ltd.'' = ''acme-sons-ltd''" by code_simp
  then show ?thesis
    using derived_slug_always_valid [where name = "''Acme & Sons, Ltd.''" and env = id
        and i = "''w2''" and now = 0 and db = sample_inventory]
    by (auto simp: length_between_def sample_inventory_def split: prod.splits sum.splits)
qed

text \<open>
  C16. However calls of \<open>create_scan_job\<close> and \<open>transition_scan_job\<close> by any number of processes
  interleave, a stored scan job keeps its workspace, asset and kind, moves only along the
  transition table, is immutable once it has succeeded, failed or been canceled, and always has
  the timestamps its status promises (no start before it runs, an end exactly when it is final).
  The queue moves its own jobs by statements of its own; see the theory ScanQueue.
\<close>

theorem scan_jobs_follow_life_cycle:
  assumes "jobs_ok db" and "job_call\<^sup>*\<^sup>* db db'" and "row_of sj_id (scan_jobs db) j = Some r"
  shows "jobs_ok db' \<and> (\<exists>r'. row_of sj_id (scan_jobs db') j = Some r' \<and>
    sj_workspace_id r' = sj_workspace_id r \<and> sj_asset_id r' = sj_asset_id r \<and>
    sj_kind r' = sj_kind r \<and> scan.moves\<^sup>*\<^sup>* (sj_status r) (sj_status r') \<and>
    (terminal_status (sj_status r) \<longrightarrow> r' = r))"
proof -
  note steps = job_calls_steps [OF assms(2)]
  have "jobs_ok db'"
    using jobs.steps_inv [OF steps] assms(1) by (simp add: jobs_ok_table)
  moreover have "jobs_later (scan_jobs db) (scan_jobs db')"
    by (rule job_steps_later) (rule steps)
  ultimately show ?thesis
    using assms(3) unfolding jobs_later_def job_later_def by blast
qed

theorem scan_jobs_follow_life_cycle_witness:
  "\<exists>r'. row_of sj_id (scan_jobs sample_running) ''j'' = Some r' \<and> sj_asset_id r' = ''a'' \<and>
     scan.moves\<^sup>*\<^sup>* Queued (sj_status r')"
proof -
  have "job_call\<^sup>*\<^sup>* sample_created sample_running"
    unfolding sample_running_def by (rule r_into_rtranclp, rule job_call.intros(2)) simp_all
  moreover have "row_of sj_id (scan_jobs sample_created) ''j'' = Some (new_job ''j'' 5 ''w'' ''a'' ScTls)"
    by (simp add: sample_job_created(2) row_of_Cons)
  ultimately show ?thesis
    using scan_jobs_follow_life_cycle [OF sample_inventory_ok(2)] by fastforce
qed

text \<open>
  A scan-job transition is a compare-and-set: after one caller moved a job out of a status,
  every later attempt of any caller to move it out of the same status is refused and changes
  nothing, whatever happened to the job in between. So a job starts at most once and is finished
  by exactly one of the callers that race to finish it.
\<close>

theorem scan_transition_happens_once:
  assumes "jobs_ok db" and "job_rely env" and "\<forall>n. c = Some n \<longrightarrow> 0 \<le> n"
    and "transition_scan_job env now w j e t c m db = (Inr job, db1)"
    and "job_call\<^sup>*\<^sup>* db1 db2" and "t' \<in> set (allowed_transitions e)"
  shows "transition_scan_job env' now' w' j e t' c' m' db2 =
    (Inl (RuntimeError ''scan job state changed or job is outside workspace''), db2)"
proof -
  from transition_scan_job_moved [OF assms(1,2,4)] obtain r1 where
    t: "t \<in> set (allowed_transitions e)" and r1: "row_of sj_id (scan_jobs db1) j = Some r1"
      "scan.moves\<^sup>*\<^sup>* t (sj_status r1)"
    by (auto simp: job_later_def)
  have "job_step\<^sup>*\<^sup>* (scan_jobs db) (scan_jobs db1)"
    using transition_scan_job_steps [OF assms(2,3), of db now w j e t m] by (simp add: assms(4))
  then have steps: "job_step\<^sup>*\<^sup>* (scan_jobs db) (scan_jobs db2)"
    using job_calls_steps [OF assms(5)] by (rule rtranclp_trans)
  have ok: "jobs_ok db2"
    using jobs.steps_inv [OF steps] assms(1) by (simp add: jobs_ok_table)
  obtain r2 where r2: "row_of sj_id (scan_jobs db2) j = Some r2"
      "scan.moves\<^sup>*\<^sup>* (sj_status r1) (sj_status r2)"
    using job_steps_later [OF job_calls_steps [OF assms(5)]] r1(1)
    unfolding jobs_later_def job_later_def by blast
  have "sj_status r2 \<noteq> e"
  proof
    assume "sj_status r2 = e"
    with r1(2) r2(2) have "scan.moves\<^sup>*\<^sup>* t e" by auto
    moreover have "scan.moves\<^sup>*\<^sup>* e t" using t by (simp add: scan.moves_def r_into_rtranclp)
    ultimately show False using scan.never_back scan.rank_moves [OF t] by fastforce
  qed
  then show ?thesis by (rule transition_scan_job_lost [OF ok r2(1) _ assms(6)])
qed

theorem scan_transition_happens_once_witness:
  "transition_scan_job id 9 ''w'' ''j'' Queued Canceled None None sample_running =
   (Inl (RuntimeError ''scan job state changed or job is outside workspace''), sample_running)"
proof -
  have "\<exists>job. transition_scan_job id 6 ''w'' ''j'' Queued Running None None sample_created
    = (Inr job, sample_running)"
    unfolding sample_running_def
    by (simp add: transition_scan_job_def sample_job_created(2) Let_def count_where_def
        update_where_def get_scan_job_def first_where_def optional_row_def job_from_record_def
        validate_job_def transition_values_def new_job_def)
  then show ?thesis
    using scan_transition_happens_once [OF sample_inventory_ok(2), of id None] by auto
qed

text \<open>
  Creating a scan job under a given id is idempotent and binds the id: once a call returned,
  repeating it at any later time, by any process, returns the same job (as it is by then) and
  writes nothing, and using the id for another asset or kind of the workspace is refused.
\<close>

theorem create_scan_job_idempotent:
  assumes "jobs_ok db" and "job_rely env"
    and "create_scan_job env i now w a k (Some j) db = (Inr job, db1)"
    and "job_call\<^sup>*\<^sup>* db1 db2"
    and "get_asset w' a' db2 = Inr (Some asset)"
  shows "\<exists>job'. job_later job job' \<and> sj_id job' = j \<and>
    create_scan_job env' i' now' w' a' k' (Some j) db2 =
      (if (w', a', k') = (w, a, k) then (Inr job', db2)
       else (Inl (ValueError ''scan job id is already bound to different work''), db2))"
proof -
  note stored = create_scan_job_stored [OF assms(3)]
  have j: "sj_id job = j" by (rule stored(5)) simp
  note steps = job_calls_steps [OF assms(4)]
  obtain job' where job': "row_of sj_id (scan_jobs db2) j = Some job'" "job_later job job'"
    using job_steps_later [OF steps] stored(1) unfolding jobs_later_def j by blast
  have "job_step\<^sup>*\<^sup>* (scan_jobs db) (scan_jobs db1)"
    using create_scan_job_steps [OF assms(2), of db i now w a k "Some j"] by (simp add: assms(3))
  then have "jobs_ok db2"
    using jobs.steps_inv [OF rtranclp_trans [OF _ steps]] assms(1) by (simp add: jobs_ok_table)
  with job' have "0 \<le> sj_findings_count job'"
    by (auto simp: jobs_ok_def job_ok_def dest!: row_of_SomeD)
  moreover have "sj_id job' = j" using row_of_SomeD [OF job'(1)] by simp
  moreover have "(sj_workspace_id job', sj_asset_id job', sj_kind job') = (w, a, k)"
    using job'(2) stored by (simp add: job_later_def)
  ultimately show ?thesis
    using job' assms(5)
    by (intro exI [of _ job']) (auto simp: create_scan_job_def bound_job_other)
qed

theorem create_scan_job_idempotent_witness:
  "fst (create_scan_job id ''g'' 8 ''w'' ''a'' ScSsh (Some ''j'') sample_created)
   = Inl (ValueError ''scan job id is already bound to different work'')"
proof -
  have rely: "job_rely (id :: inv_db \<Rightarrow> inv_db)" by simp
  obtain asset where asset: "get_asset ''w'' ''a'' sample_created = Inr (Some asset)"
    by (simp add: get_asset_def sample_job_created(3) sample_inventory_def first_where_def
        optional_row_def asset_from_record_def validate_asset_def length_between_def
        default_context_valid)
  then show ?thesis
    using create_scan_job_idempotent [OF sample_inventory_ok(1) rely sample_job_created(1)
        rtranclp.rtrancl_refl asset, where env' = id and i' = "''g''" and now' = 8 and k' = ScSsh]
    by auto
qed

end
