(* ===== verification/Quotas.thy ===== *)
theory Quotas
  imports Inventory
begin

text \<open>
  Rate limits and running-scan capacity: \<^verbatim>\<open>domain/quotas.py\<close> and \<^verbatim>\<open>storage/quotas.py\<close>.
  \<open>consume\<close> spreads over several transactions; \<open>env n\<close> is what other processes commit at its
  \<open>n\<close>-th interruption point. The properties show that undisturbed consumption admits exactly the
  limit per window, and where a race admits more. The capacity counters are offered to the scan queue through the
  interface \<open>slot_ledger\<close>.
\<close>

section \<open>State\<close>

record rate_bucket =
  rb_scope_key :: string
  rb_action :: string
  rb_window_start :: int
  rb_count :: int
  rb_updated_at :: time

record workspace_runtime =
  wr_workspace_id :: string
  wr_active_scans :: int
  wr_updated_at :: time

record quota_db = inv_db +
  rate_buckets :: "rate_bucket tbl"
  runtimes :: "workspace_runtime tbl"

record rate_limit_decision =
  rl_allowed :: bool
  rl_limit :: int
  rl_remaining :: int
  rl_reset_at :: time
  rl_retry_after_seconds :: int

record scan_capacity =
  sc_workspace_id :: string
  sc_active_scans :: int
  sc_limit :: int
  sc_available :: int

section \<open>Rate limits\<close>

definition bucket_key :: "rate_bucket \<Rightarrow> string \<times> string \<times> int" where
  "bucket_key r = (rb_scope_key r, rb_action r, rb_window_start r)"

definition bucket_count :: "string \<times> string \<times> int \<Rightarrow> 'x quota_db_scheme \<Rightarrow> int" where
  "bucket_count k db = (case row_of bucket_key (rate_buckets db) k of None \<Rightarrow> 0 | Some r \<Rightarrow> rb_count r)"

text \<open>The guarded increment: whether it matched a row, and the table after it.\<close>

definition increment ::
  "string \<times> string \<times> int \<Rightarrow> int \<Rightarrow> time \<Rightarrow> 'x quota_db_scheme \<Rightarrow> bool \<times> 'x quota_db_scheme" where
  "increment k limit now db =
     (let guard = (\<lambda>r. bucket_key r = k \<and> rb_count r < limit)
      in (count_where guard (rate_buckets db) = 1,
          db\<lparr>rate_buckets := update_where guard
               (\<lambda>r. r\<lparr>rb_count := rb_count r + 1, rb_updated_at := now\<rparr>) (rate_buckets db)\<rparr>))"

definition increment_or_create ::
  "(nat \<Rightarrow> 'x quota_db_scheme \<Rightarrow> 'x quota_db_scheme) \<Rightarrow> string \<times> string \<times> int \<Rightarrow> int \<Rightarrow> time \<Rightarrow>
   'x quota_db_scheme \<Rightarrow> int \<times> 'x quota_db_scheme" where
  "increment_or_create env k limit now db =
     (case increment k limit now db of
        (True, db1) \<Rightarrow> (let db2 = env 0 db1 in (bucket_count k db2, db2))
      | (False, _) \<Rightarrow>
          let db1 = env 1 db
          in case row_of bucket_key (rate_buckets db1) k of
               Some existing \<Rightarrow> (rb_count existing + 1, db1)
             | None \<Rightarrow>
                 let db2 = env 2 db1;
                     row = \<lparr>rb_scope_key = fst k, rb_action = fst (snd k),
                            rb_window_start = snd (snd k), rb_count = 1, rb_updated_at = now\<rparr>
                 in case insert_row (\<lambda>x y. bucket_key x = bucket_key y) row (rate_buckets db2) of
                      Some t \<Rightarrow> (1, db2\<lparr>rate_buckets := t\<rparr>)
                    | None \<Rightarrow>
                        (case increment k limit now (env 3 db2) of
                           (True, db3) \<Rightarrow> (let db4 = env 4 db3 in (bucket_count k db4, db4))
                         | (False, db3) \<Rightarrow> (limit + 1, db3)))"

text \<open>\<open>int(t.timestamp())\<close> truncates towards zero; \<open>ceil_seconds\<close> is \<open>math.ceil\<close> of a duration.\<close>

definition epoch_of :: "time \<Rightarrow> int" where
  "epoch_of t = (if 0 \<le> t then t div 1000000 else - (- t div 1000000))"

definition ceil_seconds :: "time \<Rightarrow> int" where
  "ceil_seconds d = - (- d div 1000000)"

definition window_start_of :: "time \<Rightarrow> int \<Rightarrow> int" where
  "window_start_of now w = epoch_of now - epoch_of now mod w"

definition consume ::
  "(nat \<Rightarrow> 'x quota_db_scheme \<Rightarrow> 'x quota_db_scheme) \<Rightarrow> string \<Rightarrow> string \<Rightarrow> int \<Rightarrow> int \<Rightarrow> time \<Rightarrow>
   'x quota_db_scheme \<Rightarrow> (rate_limit_decision, 'x quota_db_scheme) outcome" where
  "consume env scope_key action limit window_seconds now db =
     (if scope_key = [] \<or> 300 < length scope_key
      then (Inl (ValueError ''scope_key must contain 1-300 characters''), db)
      else if action = [] \<or> 100 < length action
      then (Inl (ValueError ''action must contain 1-100 characters''), db)
      else if limit < 1 then (Inl (ValueError ''limit must be positive''), db)
      else if window_seconds < 1 then (Inl (ValueError ''window_seconds must be positive''), db)
      else
        let window_start = window_start_of now window_seconds;
            reset_at = seconds (window_start + window_seconds);
            retry_after = max 0 (ceil_seconds (reset_at - now));
            (count, db') = increment_or_create env (scope_key, action, window_start) limit now db;
            allowed = (count \<le> limit)
        in (Inr \<lparr>rl_allowed = allowed, rl_limit = limit,
                 rl_remaining = max 0 (limit - min count limit), rl_reset_at = reset_at,
                 rl_retry_after_seconds = (if allowed then 0 else retry_after)\<rparr>, db'))"

definition prune_rate_limits :: "time \<Rightarrow> 'x quota_db_scheme \<Rightarrow> int \<times> 'x quota_db_scheme" where
  "prune_rate_limits before db =
     (let old = (\<lambda>r. rb_window_start r < epoch_of before)
      in (int (count_where old (rate_buckets db)),
          db\<lparr>rate_buckets := delete_where old (rate_buckets db)\<rparr>))"

section \<open>Running-scan capacity\<close>

definition active_scans :: "'x quota_db_scheme \<Rightarrow> string \<Rightarrow> int" where
  "active_scans db w = (case row_of wr_workspace_id (runtimes db) w of None \<Rightarrow> 0 | Some r \<Rightarrow> wr_active_scans r)"

definition known_workspace :: "'x quota_db_scheme \<Rightarrow> string \<Rightarrow> bool" where
  "known_workspace db w = (row_of ws_id (workspaces db) w \<noteq> None)"

text \<open>Losing the race to create the row is ignored: the row is there either way.\<close>

definition ensure_workspace_runtime ::
  "('x quota_db_scheme \<Rightarrow> 'x quota_db_scheme) \<Rightarrow> string \<Rightarrow> time \<Rightarrow> 'x quota_db_scheme \<Rightarrow>
   (unit, 'x quota_db_scheme) outcome" where
  "ensure_workspace_runtime env w now db =
     (if row_of ws_id (workspaces db) w = None then (Inl (LookupError ''workspace not found''), db)
      else if row_of wr_workspace_id (runtimes db) w \<noteq> None then (Inr (), db)
      else let db' = env db
           in case insert_row (\<lambda>x y. wr_workspace_id x = wr_workspace_id y)
                \<lparr>wr_workspace_id = w, wr_active_scans = 0, wr_updated_at = now\<rparr> (runtimes db') of
                None \<Rightarrow> (Inr (), db')
              | Some t \<Rightarrow> (Inr (), db'\<lparr>runtimes := t\<rparr>))"

definition add_active :: "int \<Rightarrow> time \<Rightarrow> workspace_runtime \<Rightarrow> workspace_runtime" where
  "add_active n now r = r\<lparr>wr_active_scans := wr_active_scans r + n, wr_updated_at := now\<rparr>"

text \<open>The guarded statements of the two operations, each its own transaction.\<close>

definition take_slot :: "string \<Rightarrow> int \<Rightarrow> time \<Rightarrow> 'x quota_db_scheme \<Rightarrow> bool \<times> 'x quota_db_scheme" where
  "take_slot w limit now db =
     (let guard = (\<lambda>r. wr_workspace_id r = w \<and> wr_active_scans r < limit)
      in (count_where guard (runtimes db) = 1,
          db\<lparr>runtimes := update_where guard (add_active 1 now) (runtimes db)\<rparr>))"

definition drop_slot :: "string \<Rightarrow> time \<Rightarrow> 'x quota_db_scheme \<Rightarrow> 'x quota_db_scheme" where
  "drop_slot w now db =
     db\<lparr>runtimes := update_where (\<lambda>r. wr_workspace_id r = w \<and> 0 < wr_active_scans r)
          (add_active (-1) now) (runtimes db)\<rparr>"

definition acquire_scan_slot ::
  "(nat \<Rightarrow> 'x quota_db_scheme \<Rightarrow> 'x quota_db_scheme) \<Rightarrow> string \<Rightarrow> int \<Rightarrow> time \<Rightarrow> 'x quota_db_scheme \<Rightarrow>
   (bool, 'x quota_db_scheme) outcome" where
  "acquire_scan_slot env w limit now db =
     (if limit < 1 then (Inl (ValueError ''scan concurrency limit must be positive''), db)
      else case ensure_workspace_runtime (env 0) w now db of
             (Inl e, db1) \<Rightarrow> (Inl e, db1)
           | (Inr _, db1) \<Rightarrow>
               let (taken, db2) = take_slot w limit now (env 1 db1) in (Inr taken, db2))"

definition require_scan_slot ::
  "(nat \<Rightarrow> 'x quota_db_scheme \<Rightarrow> 'x quota_db_scheme) \<Rightarrow> string \<Rightarrow> int \<Rightarrow> time \<Rightarrow> 'x quota_db_scheme \<Rightarrow>
   (unit, 'x quota_db_scheme) outcome" where
  "require_scan_slot env w limit now db =
     (case acquire_scan_slot env w limit now db of
        (Inl e, db') \<Rightarrow> (Inl e, db')
      | (Inr True, db') \<Rightarrow> (Inr (), db')
      | (Inr False, db') \<Rightarrow> (Inl (RuntimeError ''workspace scan concurrency limit exceeded''), db'))"

definition release_scan_slot ::
  "(nat \<Rightarrow> 'x quota_db_scheme \<Rightarrow> 'x quota_db_scheme) \<Rightarrow> string \<Rightarrow> time \<Rightarrow> 'x quota_db_scheme \<Rightarrow>
   (unit, 'x quota_db_scheme) outcome" where
  "release_scan_slot env w now db =
     (case ensure_workspace_runtime (env 0) w now db of
        (Inl e, db1) \<Rightarrow> (Inl e, db1)
      | (Inr _, db1) \<Rightarrow> (Inr (), drop_slot w now (env 1 db1)))"

definition scan_capacity ::
  "(nat \<Rightarrow> 'x quota_db_scheme \<Rightarrow> 'x quota_db_scheme) \<Rightarrow> string \<Rightarrow> int \<Rightarrow> time \<Rightarrow> 'x quota_db_scheme \<Rightarrow>
   (scan_capacity, 'x quota_db_scheme) outcome" where
  "scan_capacity env w limit now db =
     (if limit < 1 then (Inl (ValueError ''scan concurrency limit must be positive''), db)
      else case ensure_workspace_runtime (env 0) w now db of
             (Inl e, db1) \<Rightarrow> (Inl e, db1)
           | (Inr _, db1) \<Rightarrow>
               let db2 = env 1 db1; active = active_scans db2 w
               in if active < 0 then (Inl (ValidationError ''active_scans''), db2)
                  else (Inr \<lparr>sc_workspace_id = w, sc_active_scans = active, sc_limit = limit,
                             sc_available = max 0 (limit - active)\<rparr>, db2))"

text \<open>One workspace of \<open>reconcile_scan_slots\<close>, with the number of changed rows.\<close>

definition running_jobs :: "'x inv_db_scheme \<Rightarrow> string \<Rightarrow> int" where
  "running_jobs db w =
     int (count_where (\<lambda>j. sj_workspace_id j = w \<and> sj_status j = Running) (scan_jobs db))"

definition reconcile_workspace ::
  "time \<Rightarrow> string \<Rightarrow> int \<times> 'x quota_db_scheme \<Rightarrow> int \<times> 'x quota_db_scheme" where
  "reconcile_workspace now w acc =
     (let (changed, db) = acc; target = running_jobs db w
      in case row_of wr_workspace_id (runtimes db) w of
           None \<Rightarrow> (changed + 1, db\<lparr>runtimes := runtimes db @
                      [\<lparr>wr_workspace_id = w, wr_active_scans = target, wr_updated_at = now\<rparr>]\<rparr>)
         | Some r \<Rightarrow>
             if wr_active_scans r \<noteq> target
             then (changed + 1, db\<lparr>runtimes := update_where (\<lambda>r. wr_workspace_id r = w)
                     (\<lambda>r. r\<lparr>wr_active_scans := target, wr_updated_at := now\<rparr>) (runtimes db)\<rparr>)
             else (changed, db))"

definition reconcile_scan_slots :: "time \<Rightarrow> 'x quota_db_scheme \<Rightarrow> int \<times> 'x quota_db_scheme" where
  "reconcile_scan_slots now db = fold (reconcile_workspace now) (map ws_id (workspaces db)) (0, db)"

section \<open>The capacity ledger\<close>

text \<open>
  What a client of the capacity counters relies on, statement by statement: a slot is taken only
  below the limit and counted once, and giving one back lowers the counter by one.
\<close>

locale slot_ledger =
  fixes active :: "'d \<Rightarrow> string \<Rightarrow> int"
    and good :: "'d \<Rightarrow> bool"
    and take_op :: "string \<Rightarrow> int \<Rightarrow> time \<Rightarrow> 'd \<Rightarrow> bool \<times> 'd"
    and drop_op :: "string \<Rightarrow> time \<Rightarrow> 'd \<Rightarrow> 'd"
  assumes take_good: "good d \<Longrightarrow> good (snd (take_op w limit now d))"
    and take_below: "good d \<Longrightarrow> fst (take_op w limit now d) \<Longrightarrow> active d w < limit"
    and take_active: "good d \<Longrightarrow> active (snd (take_op w limit now d)) v =
      active d v + (if v = w \<and> fst (take_op w limit now d) then 1 else 0)"
    and drop_good: "good d \<Longrightarrow> good (drop_op w now d)"
    and drop_active: "good d \<Longrightarrow> active (drop_op w now d) v =
      active d v - (if v = w \<and> 0 < active d w then 1 else 0)"
begin

text \<open>Holders: how many slots the clients hold in each workspace.\<close>

inductive ledger_step :: "int \<Rightarrow> 'd \<times> (string \<Rightarrow> nat) \<Rightarrow> 'd \<times> (string \<Rightarrow> nat) \<Rightarrow> bool" for limit where
  ledger_take: "fst (take_op w limit now d) \<Longrightarrow>
    ledger_step limit (d, h) (snd (take_op w limit now d), h(w := h w + 1))"
| ledger_refuse: "\<not> fst (take_op w limit now d) \<Longrightarrow>
    ledger_step limit (d, h) (snd (take_op w limit now d), h)"
| ledger_drop: "0 < h w \<Longrightarrow> ledger_step limit (d, h) (drop_op w now d, h(w := h w - 1))"

definition ledger_ok :: "int \<Rightarrow> 'd \<times> (string \<Rightarrow> nat) \<Rightarrow> bool" where
  "ledger_ok limit = (\<lambda>(d, h). good d \<and> (\<forall>w. active d w = int (h w) \<and> int (h w) \<le> limit))"

lemma ledger_step_ok: "ledger_step limit s s' \<Longrightarrow> ledger_ok limit s \<Longrightarrow> ledger_ok limit s'"
proof (induction rule: ledger_step.induct)
  case (ledger_take w now d h)
  then have d: "good d" "active d v = int (h v)" "int (h v) \<le> limit" for v
    by (auto simp: ledger_ok_def)
  with take_below [OF d(1) ledger_take.hyps] ledger_take.hyps show ?case
    by (simp add: ledger_ok_def take_good take_active)
next
  case (ledger_refuse w now d h)
  then show ?case by (simp add: ledger_ok_def take_good take_active)
next
  case (ledger_drop h w d now)
  then have "good d" "active d v = int (h v)" "int (h v) \<le> limit" for v
    by (auto simp: ledger_ok_def)
  moreover from this(3) [of w] have "int (h w - 1) \<le> limit" by linarith
  ultimately show ?case
    using ledger_drop.hyps by (simp add: ledger_ok_def drop_good drop_active of_nat_diff)
qed

lemma take_drop:
  assumes "good d" "fst (take_op w limit now d)" "0 \<le> active d w"
  shows "active (drop_op w now' (snd (take_op w limit now d))) v = active d v"
  using assms by (simp add: take_good take_active drop_active)

end

definition runtimes_ok :: "'x quota_db_scheme \<Rightarrow> bool" where
  "runtimes_ok db = keyed wr_workspace_id (runtimes db)"

lemma add_active_fields [simp]: "wr_workspace_id (add_active n now r) = wr_workspace_id r"
    "wr_active_scans (add_active n now r) = wr_active_scans r + n"
  by (simp_all add: add_active_def)

lemma active_scans_scheme [simp]:
  "active_scans (db\<lparr>runtimes := t\<rparr>) w =
     (case row_of wr_workspace_id t w of None \<Rightarrow> 0 | Some r \<Rightarrow> wr_active_scans r)"
  by (simp add: active_scans_def)

interpretation slots: slot_ledger active_scans runtimes_ok take_slot drop_slot
proof unfold_locales
  fix d :: "'x quota_db_scheme" and w v limit now
  assume ok: "runtimes_ok d"
  then have keyed: "keyed wr_workspace_id (runtimes d)" by (simp add: runtimes_ok_def)
  show "runtimes_ok (snd (take_slot w limit now d))" "runtimes_ok (drop_slot w now d)"
    using keyed by (simp_all add: runtimes_ok_def take_slot_def drop_slot_def Let_def keyed_update)
  have taken: "fst (take_slot w limit now d) \<longleftrightarrow>
      row_of wr_workspace_id (runtimes d) w \<noteq> None \<and> active_scans d w < limit"
    using count_where_key [OF keyed, of w "\<lambda>r. wr_active_scans r < limit"]
    by (simp add: take_slot_def Let_def active_scans_def split: option.split)
  show "fst (take_slot w limit now d) \<Longrightarrow> active_scans d w < limit"
    using taken by simp
  show "active_scans (snd (take_slot w limit now d)) v =
      active_scans d v + (if v = w \<and> fst (take_slot w limit now d) then 1 else 0)"
    unfolding taken
    by (auto simp: take_slot_def Let_def active_scans_def row_of_update_key split: option.split)
  show "active_scans (drop_slot w now d) v =
      active_scans d v - (if v = w \<and> 0 < active_scans d w then 1 else 0)"
    by (auto simp: drop_slot_def active_scans_def row_of_update_key split: option.split)
qed

section \<open>Undisturbed rate limiting\<close>

definition buckets_ok :: "'x quota_db_scheme \<Rightarrow> bool" where
  "buckets_ok db = (keyed bucket_key (rate_buckets db) \<and> (\<forall>r \<in> set (rate_buckets db). 1 \<le> rb_count r))"

abbreviation alone :: "nat \<Rightarrow> 'd \<Rightarrow> 'd" where
  "alone \<equiv> \<lambda>_. id"

lemma bucket_count_scheme:
  "bucket_count k (db\<lparr>rate_buckets := t\<rparr>) =
     (case row_of bucket_key t k of None \<Rightarrow> 0 | Some r \<Rightarrow> rb_count r)"
  by (simp add: bucket_count_def)

lemma bucket_count_nonneg: "buckets_ok db \<Longrightarrow> 0 \<le> bucket_count k db"
  by (fastforce simp: bucket_count_def buckets_ok_def split: option.split dest!: row_of_SomeD)

lemma increment_fst:
  assumes "buckets_ok db"
  shows "fst (increment k limit now db) \<longleftrightarrow>
    row_of bucket_key (rate_buckets db) k \<noteq> None \<and> bucket_count k db < limit"
proof -
  have "keyed bucket_key (rate_buckets db)" using assms by (simp add: buckets_ok_def)
  note eq = count_where_key [OF this, of k "\<lambda>r. rb_count r < limit"]
  show ?thesis
    unfolding increment_def Let_def fst_conv eq bucket_count_def
    by (cases "row_of bucket_key (rate_buckets db) k") simp_all
qed

lemma increment_snd:
  assumes "buckets_ok db"
  shows "buckets_ok (snd (increment k limit now db))"
    "bucket_count v (snd (increment k limit now db)) =
       bucket_count v db + (if v = k \<and> fst (increment k limit now db) then 1 else 0)"
proof -
  have key: "bucket_key (r\<lparr>rb_count := n, rb_updated_at := m\<rparr>) = bucket_key r" for r n m
    by (simp add: bucket_key_def)
  show "buckets_ok (snd (increment k limit now db))"
    using assms by (auto simp: buckets_ok_def increment_def Let_def keyed_update key set_update_where)
  show "bucket_count v (snd (increment k limit now db)) =
       bucket_count v db + (if v = k \<and> fst (increment k limit now db) then 1 else 0)"
    unfolding increment_fst [OF assms]
    by (auto simp: increment_def Let_def bucket_count_def row_of_update_key key split: option.split)
qed

text \<open>One undisturbed call: the returned count and the counters afterwards.\<close>

lemma increment_or_create_alone:
  assumes ok: "buckets_ok db" and limit: "1 \<le> limit"
  shows "fst (increment_or_create alone k limit now db) = bucket_count k db + 1"
    "buckets_ok (snd (increment_or_create alone k limit now db))"
    "bucket_count v (snd (increment_or_create alone k limit now db)) =
       bucket_count v db + (if v = k \<and> bucket_count k db < limit then 1 else 0)"
proof -
  let ?r = "increment_or_create alone k limit now db"
  have *: "fst ?r = bucket_count k db + 1 \<and> buckets_ok (snd ?r) \<and>
    (\<forall>v. bucket_count v (snd ?r) = bucket_count v db + (if v = k \<and> bucket_count k db < limit then 1 else 0))"
  proof (cases "row_of bucket_key (rate_buckets db) k")
    case None
    then have zero: "bucket_count k db = 0" by (simp add: bucket_count_def)
    have "\<not> fst (increment k limit now db)" using None by (simp add: increment_fst [OF ok])
    then obtain d where inc: "increment k limit now db = (False, d)"
      by (cases "increment k limit now db") simp
    define row where "row = \<lparr>rb_scope_key = fst k, rb_action = fst (snd k),
      rb_window_start = snd (snd k), rb_count = 1, rb_updated_at = now\<rparr>"
    have key: "bucket_key row = k" by (simp add: row_def bucket_key_def)
    have "insert_row (\<lambda>x y. bucket_key x = bucket_key y) row (rate_buckets db) = Some (rate_buckets db @ [row])"
      using None by (simp add: insert_row_key key)
    with None have r: "?r = (1, db\<lparr>rate_buckets := rate_buckets db @ [row]\<rparr>)"
      by (simp add: increment_or_create_def inc row_def [symmetric] Let_def)
    show ?thesis
      using ok None zero limit key
      by (auto simp: r buckets_ok_def keyed_append bucket_count_def row_of_append row_def
          split: option.split)
  next
    case (Some row)
    then have count: "bucket_count k db = rb_count row" by (simp add: bucket_count_def)
    show ?thesis
    proof (cases "bucket_count k db < limit")
      case True
      with Some have t: "fst (increment k limit now db)" by (simp add: increment_fst [OF ok])
      then have r: "?r = (bucket_count k (snd (increment k limit now db)), snd (increment k limit now db))"
        by (cases "increment k limit now db") (simp add: increment_or_create_def Let_def)
      show ?thesis
        using t True by (simp add: r increment_snd [OF ok])
    next
      case False
      with Some have "\<not> fst (increment k limit now db)" by (simp add: increment_fst [OF ok])
      then have r: "?r = (rb_count row + 1, db)"
        using Some by (cases "increment k limit now db") (simp add: increment_or_create_def Let_def)
      show ?thesis using False ok by (simp add: r count)
    qed
  qed
  show "fst ?r = bucket_count k db + 1" "buckets_ok (snd ?r)"
    "bucket_count v (snd ?r) = bucket_count v db + (if v = k \<and> bucket_count k db < limit then 1 else 0)"
    using * by blast+
qed

primrec consume_run ::
  "string \<Rightarrow> string \<Rightarrow> int \<Rightarrow> int \<Rightarrow> time list \<Rightarrow> 'x quota_db_scheme \<Rightarrow>
   rate_limit_decision list \<times> 'x quota_db_scheme" where
  "consume_run scope action limit window [] db = ([], db)"
| "consume_run scope action limit window (t # ts) db =
     (case consume alone scope action limit window t db of
        (Inl e, db') \<Rightarrow> ([], db')
      | (Inr d, db') \<Rightarrow>
          (let (ds, db'') = consume_run scope action limit window ts db' in (d # ds, db'')))"

lemma consume_alone:
  assumes "buckets_ok db" "length_between 1 300 scope" "length_between 1 100 action"
    "1 \<le> limit" "1 \<le> window" "window_start_of t window = s"
  shows "\<exists>d db'. consume alone scope action limit window t db = (Inr d, db') \<and> buckets_ok db' \<and>
    rl_allowed d = (bucket_count (scope, action, s) db < limit) \<and>
    rl_remaining d = max 0 (limit - (bucket_count (scope, action, s) db + 1)) \<and>
    bucket_count (scope, action, s) db' = (if bucket_count (scope, action, s) db < limit
      then bucket_count (scope, action, s) db + 1 else bucket_count (scope, action, s) db)"
proof -
  obtain n db' where r: "increment_or_create alone (scope, action, s) limit t db = (n, db')"
    by (cases "increment_or_create alone (scope, action, s) limit t db")
  note one = increment_or_create_alone [where k = "(scope, action, s)" and now = t, OF assms(1,4),
    unfolded r, simplified]
  have "scope \<noteq> []" "length scope \<le> 300" "action \<noteq> []" "length action \<le> 100"
    using assms(2,3) by (auto simp: length_between_def)
  with assms(4,5) show ?thesis
    by (auto simp: consume_def Let_def assms(6) r one min_def max_def)
qed

text \<open>What a race admits beyond the limit: one call runs inside another, which then only reads.\<close>

definition empty_quota_db :: quota_db where
  "empty_quota_db = \<lparr>workspaces = [], managed_assets = [], scan_jobs = [], rate_buckets = [], runtimes = []\<rparr>"

definition intruding :: "nat \<Rightarrow> quota_db \<Rightarrow> quota_db" where
  "intruding n d = (if n = 1 then snd (consume alone ''api'' ''scan'' 2 60 0 d) else d)"

lemma seconds_mono [simp]: "seconds a \<le> seconds b \<longleftrightarrow> a \<le> b" "seconds a < seconds b \<longleftrightarrow> a < b"
  by (auto simp: seconds_def)

lemma seconds_div: "seconds (t div 1000000) \<le> t" "t < seconds (t div 1000000 + 1)"
proof -
  have "t div 1000000 * 1000000 = t - t mod 1000000" by (simp add: minus_mod_eq_div_mult)
  moreover have "0 \<le> t mod 1000000" "t mod 1000000 < 1000000" by simp_all
  ultimately show "seconds (t div 1000000) \<le> t" "t < seconds (t div 1000000 + 1)"
    unfolding seconds_def distrib_right by linarith+
qed

lemma window_start_le:
  assumes "1 \<le> w" "0 \<le> t"
  shows "seconds (window_start_of t w) \<le> t \<and> t < seconds (window_start_of t w + w)"
proof -
  have "t div 1000000 mod w < w" using assms(1) by simp
  moreover have "0 \<le> t div 1000000 mod w" using assms(1) by simp
  moreover have "window_start_of t w = t div 1000000 - t div 1000000 mod w"
    using assms by (simp add: window_start_of_def epoch_of_def)
  ultimately have "window_start_of t w \<le> t div 1000000" "t div 1000000 + 1 \<le> window_start_of t w + w"
    by linarith+
  then have "seconds (window_start_of t w) \<le> seconds (t div 1000000)"
      "seconds (t div 1000000 + 1) \<le> seconds (window_start_of t w + w)" by simp_all
  with seconds_div [of t] show ?thesis by linarith
qed

lemma ceil_seconds_bounds:
  assumes "0 < d" "d \<le> seconds n"
  shows "1 \<le> ceil_seconds d \<and> ceil_seconds d \<le> n \<and> d \<le> seconds (ceil_seconds d)"
proof -
  have "- d div 1000000 < 0" using assms(1) by (simp add: div_neg_pos_less0)
  moreover have "- n \<le> - d div 1000000"
    using zdiv_mono1 [of "- n * 1000000" "- d" 1000000] assms(2) by (simp add: seconds_def)
  moreover have "d \<le> seconds (- (- d div 1000000))"
    using seconds_div(1) [of "- d"] by (simp add: seconds_def)
  ultimately show ?thesis by (simp add: ceil_seconds_def)
qed

lemma window_start_mono_next:
  assumes "1 \<le> w" "0 \<le> t" "seconds (window_start_of t w + w) \<le> t'"
  shows "window_start_of t w < window_start_of t' w"
proof -
  have "0 \<le> t'" using assms window_start_le [OF assms(1,2)] by linarith
  from window_start_le [OF assms(1) this] assms(3)
  have "seconds (window_start_of t w + w) < seconds (window_start_of t' w + w)" by linarith
  then show ?thesis by simp
qed

section \<open>Properties of the rate limiter\<close>

text \<open>
  Undisturbed, the rate limiter admits exactly its limit per window: of any sequence of
  requests that fall in one window, the \<open>i\<close>-th is admitted exactly when the requests counted before it
  stay below the limit, and the reported remaining budget goes down by one with each admission.
\<close>

theorem rate_limit_exact:
  assumes "buckets_ok db" "length_between 1 300 scope" "length_between 1 100 action"
    "1 \<le> limit" "1 \<le> window" "\<forall>t \<in> set ts. window_start_of t window = s"
  shows "let c = bucket_count (scope, action, s) db;
             ds = fst (consume_run scope action limit window ts db)
         in map (\<lambda>d. (rl_allowed d, rl_remaining d)) ds =
            map (\<lambda>i. (c + int i < limit, max 0 (limit - (c + int i + 1)))) [0..<length ts]"
  using assms(1,6)
proof (induction ts arbitrary: db)
  case (Cons t ts)
  let ?c = "bucket_count (scope, action, s)"
  obtain d db' where d: "consume alone scope action limit window t db = (Inr d, db')"
      "buckets_ok db'" "rl_allowed d = (?c db < limit)" "rl_remaining d = max 0 (limit - (?c db + 1))"
      "?c db' = (if ?c db < limit then ?c db + 1 else ?c db)"
    using consume_alone [OF Cons.prems(1) assms(2-5), of t s] Cons.prems(2) by auto
  have IH: "map (\<lambda>d. (rl_allowed d, rl_remaining d)) (fst (consume_run scope action limit window ts db')) =
      map (\<lambda>i. (?c db' + int i < limit, max 0 (limit - (?c db' + int i + 1)))) [0..<length ts]"
    using Cons.IH [OF d(2)] Cons.prems(2) by (simp add: Let_def)
  have "[0..<length (t # ts)] = 0 # map Suc [0..<length ts]"
    by (simp add: upt_conv_Cons map_Suc_upt del: upt_Suc)
  then show ?case
    using IH d by (auto simp: Let_def split: prod.split)
qed simp

theorem rate_limit_exact_witness:
  "map rl_allowed (fst (consume_run ''api'' ''scan'' 2 60 [0, 1, 2] empty_quota_db)) = [True, True, False]"
proof -
  have "map (\<lambda>d. (rl_allowed d, rl_remaining d))
      (fst (consume_run ''api'' ''scan'' 2 60 [0, 1, 2] empty_quota_db)) =
    map (\<lambda>i. (0 + int i < 2, max 0 (2 - (0 + int i + 1)))) [0..<length [0::int, 1, 2]]"
    using rate_limit_exact [of empty_quota_db "''api''" "''scan''" 2 60 "[0, 1, 2]" 0]
    by (simp add: empty_quota_db_def buckets_ok_def keyed_def length_between_def window_start_of_def
        epoch_of_def bucket_count_def)
  from arg_cong [OF this, of "map fst"] show ?thesis
    by (simp add: comp_def upt_rec)
qed

text \<open>
  A refused caller that waits for the reported number of seconds (at most one window, at least
  one second) and tries again is in a later window, so its next request is counted in another bucket.
\<close>

theorem retry_after_reaches_next_window:
  assumes "consume env scope action limit window now db = (Inr d, db')"
    and "\<not> rl_allowed d" and "0 \<le> now"
  shows "1 \<le> rl_retry_after_seconds d \<and> rl_retry_after_seconds d \<le> window \<and>
    window_start_of now window < window_start_of (now + seconds (rl_retry_after_seconds d)) window"
proof -
  let ?reset = "seconds (window_start_of now window + window)"
  have w: "1 \<le> window" and r: "rl_retry_after_seconds d = max 0 (ceil_seconds (?reset - now))"
    using assms(1,2) by (auto simp: consume_def Let_def split: if_splits prod.splits)
  note le = window_start_le [OF w assms(3)]
  have "0 < ?reset - now" "?reset - now \<le> seconds window"
    using le by (simp_all add: seconds_def)
  note b = ceil_seconds_bounds [OF this]
  then show ?thesis
    using window_start_mono_next [OF w assms(3)] by (simp add: r)
qed

lemmas consume_simps = consume_def increment_or_create_def increment_def Let_def empty_quota_db_def
  window_start_of_def epoch_of_def ceil_seconds_def seconds_def insert_row_def bucket_key_def
  bucket_count_def count_where_def update_where_def row_of_Cons

definition refused_decision :: "rate_limit_decision" where
  "refused_decision = \<lparr>rl_allowed = False, rl_limit = 1, rl_remaining = 0, rl_reset_at = seconds 60,
     rl_retry_after_seconds = 57\<rparr>"

theorem retry_after_reaches_next_window_witness:
  "\<exists>d. fst (consume alone ''api'' ''scan'' 1 60 3500000
      (snd (consume alone ''api'' ''scan'' 1 60 0 empty_quota_db))) = Inr d \<and>
     1 \<le> rl_retry_after_seconds d \<and> rl_retry_after_seconds d \<le> 60"
proof -
  have eq: "fst (consume alone ''api'' ''scan'' 1 60 3500000
      (snd (consume alone ''api'' ''scan'' 1 60 0 empty_quota_db))) = Inr refused_decision"
    by (simp add: consume_simps refused_decision_def)
  then obtain db' where r: "consume alone ''api'' ''scan'' 1 60 3500000
      (snd (consume alone ''api'' ''scan'' 1 60 0 empty_quota_db)) = (Inr refused_decision, db')"
    by (metis prod.collapse)
  have "\<not> rl_allowed refused_decision" by (simp add: refused_decision_def)
  from retry_after_reaches_next_window [OF r this]
  have "1 \<le> rl_retry_after_seconds refused_decision \<and> rl_retry_after_seconds refused_decision \<le> 60"
    by simp
  with eq show ?thesis by blast
qed

text \<open>
  Under concurrency the limiter can admit more than its limit: when one request's guarded
  update finds no bucket and a complete second request creates the bucket before the first one
  reads it, the first is admitted without being counted. With a limit of 2, three requests of one
  window are admitted while the bucket counts two.
\<close>

theorem rate_limit_race_over_admits:
  "let (r1, db1) = consume intruding ''api'' ''scan'' 2 60 0 empty_quota_db;
       (r2, db2) = consume alone ''api'' ''scan'' 2 60 0 db1
   in fst (consume alone ''api'' ''scan'' 2 60 0 empty_quota_db) =
        Inr \<lparr>rl_allowed = True, rl_limit = 2, rl_remaining = 1, rl_reset_at = seconds 60,
             rl_retry_after_seconds = 0\<rparr> \<and>
      map_sum id rl_allowed r1 = Inr True \<and> map_sum id rl_allowed r2 = Inr True \<and>
      bucket_count (''api'', ''scan'', 0) db1 = 1 \<and> bucket_count (''api'', ''scan'', 0) db2 = 2"
  by (simp add: consume_simps intruding_def)

section \<open>Reconciliation\<close>

lemma reconcile_workspace_eq:
  assumes "runtimes_ok db" "reconcile_workspace now w (n, db) = (n', db')"
  shows "runtimes_ok db'" "scan_jobs db' = scan_jobs db" "workspaces db' = workspaces db"
    "row_of wr_workspace_id (runtimes db') w \<noteq> None" "active_scans db' w = running_jobs db w"
    "v \<noteq> w \<Longrightarrow> row_of wr_workspace_id (runtimes db') v = row_of wr_workspace_id (runtimes db) v"
    "n' = n + (if row_of wr_workspace_id (runtimes db) w \<noteq> None \<and> active_scans db w = running_jobs db w
               then 0 else 1)"
proof -
  let ?target = "running_jobs db w"
  let ?set = "\<lambda>r. r\<lparr>wr_active_scans := ?target, wr_updated_at := now\<rparr>"
  have keyed: "keyed wr_workspace_id (runtimes db)" using assms(1) by (simp add: runtimes_ok_def)
  have *: "runtimes_ok db' \<and> scan_jobs db' = scan_jobs db \<and> workspaces db' = workspaces db \<and>
    row_of wr_workspace_id (runtimes db') w \<noteq> None \<and> active_scans db' w = ?target \<and>
    (\<forall>v. v \<noteq> w \<longrightarrow> row_of wr_workspace_id (runtimes db') v = row_of wr_workspace_id (runtimes db) v) \<and>
    n' = n + (if row_of wr_workspace_id (runtimes db) w \<noteq> None \<and> active_scans db w = ?target
               then 0 else 1)"
  proof (cases "row_of wr_workspace_id (runtimes db) w")
    case None
    with assms(2) keyed show ?thesis
      by (auto simp: reconcile_workspace_def Let_def runtimes_ok_def keyed_append row_of_append
          split: option.split)
  next
    case (Some r)
    with assms(2) keyed show ?thesis
      by (auto simp: reconcile_workspace_def Let_def runtimes_ok_def keyed_update row_of_update_at
          active_scans_def)
  qed
  then show "runtimes_ok db'" "scan_jobs db' = scan_jobs db" "workspaces db' = workspaces db"
    "row_of wr_workspace_id (runtimes db') w \<noteq> None" "active_scans db' w = ?target"
    "v \<noteq> w \<Longrightarrow> row_of wr_workspace_id (runtimes db') v = row_of wr_workspace_id (runtimes db) v"
    "n' = n + (if row_of wr_workspace_id (runtimes db) w \<noteq> None \<and> active_scans db w = ?target
               then 0 else 1)" by simp_all
qed

lemma reconcile_fold:
  assumes "runtimes_ok db" "distinct ws" "fold (reconcile_workspace now) ws (n, db) = (n', db')"
  shows "runtimes_ok db' \<and> scan_jobs db' = scan_jobs db \<and> workspaces db' = workspaces db \<and>
    (\<forall>w \<in> set ws. row_of wr_workspace_id (runtimes db') w \<noteq> None \<and> active_scans db' w = running_jobs db w) \<and>
    (\<forall>v. v \<notin> set ws \<longrightarrow> row_of wr_workspace_id (runtimes db') v = row_of wr_workspace_id (runtimes db) v)"
  using assms
proof (induction ws arbitrary: n db)
  case (Cons w ws)
  obtain n1 db1 where one: "reconcile_workspace now w (n, db) = (n1, db1)"
    by (cases "reconcile_workspace now w (n, db)")
  note e = reconcile_workspace_eq [OF Cons.prems(1) one]
  from Cons.IH [OF e(1)] Cons.prems(2,3) one
  have IH: "runtimes_ok db' \<and> scan_jobs db' = scan_jobs db1 \<and> workspaces db' = workspaces db1 \<and>
    (\<forall>w \<in> set ws. row_of wr_workspace_id (runtimes db') w \<noteq> None \<and> active_scans db' w = running_jobs db1 w) \<and>
    (\<forall>v. v \<notin> set ws \<longrightarrow> row_of wr_workspace_id (runtimes db') v = row_of wr_workspace_id (runtimes db1) v)"
    by simp
  moreover have "running_jobs db1 v = running_jobs db v" for v by (simp add: running_jobs_def e)
  ultimately show ?case
    using e Cons.prems(2) by (auto simp: active_scans_def)
qed simp

lemma reconcile_none:
  assumes "\<forall>w \<in> set ws. row_of wr_workspace_id (runtimes db) w \<noteq> None \<and> active_scans db w = running_jobs db w"
  shows "fold (reconcile_workspace now) ws (n, db) = (n, db)"
  using assms
proof (induction ws)
  case (Cons w ws)
  then have "reconcile_workspace now w (n, db) = (n, db)"
    by (auto simp: reconcile_workspace_def Let_def active_scans_def)
  with Cons show ?case by simp
qed simp

text \<open>
  Reconciliation repairs the capacity counters: afterwards the counter of every workspace is
  the number of its running scan jobs, a repeated reconciliation changes nothing, and no scan job
  is touched.
\<close>

theorem reconcile_restores_capacity:
  assumes "runtimes_ok db" "keyed ws_id (workspaces db)"
    and "reconcile_scan_slots now db = (n, db')"
  shows "(\<forall>w. known_workspace db w \<longrightarrow> active_scans db' w = running_jobs db' w) \<and>
    scan_jobs db' = scan_jobs db \<and> reconcile_scan_slots later db' = (0, db')"
proof -
  have "distinct (map ws_id (workspaces db))" using assms(2) by (simp add: keyed_def)
  from reconcile_fold [OF assms(1) this] assms(3)
  have r: "scan_jobs db' = scan_jobs db" "workspaces db' = workspaces db"
      "\<forall>w \<in> set (map ws_id (workspaces db)). row_of wr_workspace_id (runtimes db') w \<noteq> None \<and>
        active_scans db' w = running_jobs db w"
    by (auto simp: reconcile_scan_slots_def)
  have running: "running_jobs db' w = running_jobs db w" for w by (simp add: running_jobs_def r)
  have "reconcile_scan_slots later db' = (0, db')"
    unfolding reconcile_scan_slots_def r(2) by (rule reconcile_none) (use r running in auto)
  with r running show ?thesis
    by (fastforce simp: known_workspace_def dest: row_of_SomeD)
qed

definition leaked_quota_db :: quota_db where
  "leaked_quota_db = empty_quota_db
     \<lparr>workspaces := [\<lparr>ws_id = ''w'', ws_name = ''Acme'', ws_slug = ''acme'', ws_created_at = 0\<rparr>],
      runtimes := [\<lparr>wr_workspace_id = ''w'', wr_active_scans = 3, wr_updated_at = 0\<rparr>]\<rparr>"

theorem reconcile_restores_capacity_witness:
  "active_scans (snd (reconcile_scan_slots 5 leaked_quota_db)) ''w'' = 0"
proof -
  have "runtimes_ok leaked_quota_db" "keyed ws_id (workspaces leaked_quota_db)"
      "known_workspace leaked_quota_db ''w''"
    by (simp_all add: leaked_quota_db_def runtimes_ok_def keyed_def known_workspace_def row_of_Cons)
  moreover obtain n db' where r: "reconcile_scan_slots 5 leaked_quota_db = (n, db')"
    by (cases "reconcile_scan_slots 5 leaked_quota_db")
  ultimately have "active_scans db' ''w'' = running_jobs db' ''w''"
      "scan_jobs db' = scan_jobs leaked_quota_db"
    using reconcile_restores_capacity [of leaked_quota_db 5 n db' 0] by blast+
  then have "active_scans db' ''w'' = 0"
    by (simp add: running_jobs_def count_where_def leaked_quota_db_def empty_quota_db_def)
  then show ?thesis by (simp only: r snd_conv)
qed

end
