(* ===== verification/ScanQueue.thy ===== *)
theory ScanQueue
  imports Quotas
begin

text \<open>
  The durable scan queue: \<^verbatim>\<open>domain/queue.py\<close> and \<^verbatim>\<open>storage/queue.py\<close>. Transactions made of guarded
  UPDATE statements (\<open>claim_tx\<close>, \<open>finish_tx\<close>, \<open>retry_tx\<close>) are atomic steps: their guards are
  re-evaluated under the row locks they keep until the commit. \<open>request_cancel\<close> and
  \<open>recover_expired_leases\<close> read first and then flush the changed attributes; what commits in
  between is their parameter \<open>mid\<close>. \<open>env n\<close> is again what others commit between transactions, and
  \<open>quota\<close> says whether the repository was given a quota repository.
\<close>

section \<open>State\<close>

record queue_row =
  q_job_id :: string
  q_attempts :: int
  q_max_attempts :: int
  q_lease_owner :: "string option"
  q_lease_expires_at :: "time option"
  q_last_heartbeat_at :: "time option"
  q_next_attempt_at :: time
  q_cancel_requested :: bool

record queue_db = quota_db +
  scan_queue :: "queue_row tbl"

record scan_lease =
  sl_job :: scan_job
  sl_worker_id :: string
  sl_attempt :: int
  sl_max_attempts :: int
  sl_lease_expires_at :: time

definition validate_lease :: "scan_lease \<Rightarrow> scan_lease result" where
  "validate_lease l =
     (if \<not> length_between 1 200 (sl_worker_id l) then Inl (ValidationError ''worker_id'')
      else if sl_attempt l < 1 then Inl (ValidationError ''attempt'')
      else if \<not> (1 \<le> sl_max_attempts l \<and> sl_max_attempts l \<le> 20)
      then Inl (ValidationError ''max_attempts'')
      else Inr l)"

definition state_from_record :: "queue_row \<Rightarrow> queue_row result" where
  "state_from_record r =
     (if q_attempts r < 0 then Inl (ValidationError ''attempts'')
      else if \<not> (1 \<le> q_max_attempts r \<and> q_max_attempts r \<le> 20)
      then Inl (ValidationError ''max_attempts'')
      else Inr r)"

definition get_state :: "string \<Rightarrow> 'x queue_db_scheme \<Rightarrow> queue_row option result" where
  "get_state j db = optional_row state_from_record (row_of q_job_id (scan_queue db) j)"

definition get_job :: "string \<Rightarrow> 'x queue_db_scheme \<Rightarrow> scan_job option result" where
  "get_job j db = optional_row job_from_record (row_of sj_id (scan_jobs db) j)"

section \<open>Enqueueing\<close>

definition new_queue_row :: "string \<Rightarrow> int \<Rightarrow> time \<Rightarrow> queue_row" where
  "new_queue_row j max_attempts now =
     \<lparr>q_job_id = j, q_attempts = 0, q_max_attempts = max_attempts, q_lease_owner = None,
      q_lease_expires_at = None, q_last_heartbeat_at = None, q_next_attempt_at = now,
      q_cancel_requested = False\<rparr>"

definition enqueue ::
  "(nat \<Rightarrow> 'x queue_db_scheme \<Rightarrow> 'x queue_db_scheme) \<Rightarrow> string \<Rightarrow> time \<Rightarrow> string \<Rightarrow> string \<Rightarrow> scan_kind \<Rightarrow>
   int \<Rightarrow> time \<Rightarrow> string option \<Rightarrow> 'x queue_db_scheme \<Rightarrow> (scan_job, 'x queue_db_scheme) outcome" where
  "enqueue env ident clock w a kind max_attempts now job_id db =
     (if \<not> (1 \<le> max_attempts \<and> max_attempts \<le> 20)
      then (Inl (ValueError ''max_attempts must be between 1 and 20''), db)
      else case create_scan_job (env 0) ident clock w a kind job_id db of
             (Inl e, db1) \<Rightarrow> (Inl e, db1)
           | (Inr job, db1) \<Rightarrow>
               let db2 = env 1 db1;
                   present = (\<lambda>existing. if q_max_attempts existing \<noteq> max_attempts
                     then Inl (ValueError ''queued scan job already exists with different retry policy'')
                     else Inr job)
               in case row_of q_job_id (scan_queue db2) (sj_id job) of
                    Some existing \<Rightarrow> (present existing, db2)
                  | None \<Rightarrow>
                      let db3 = env 2 db2
                      in case insert_row (\<lambda>x y. q_job_id x = q_job_id y)
                           (new_queue_row (sj_id job) max_attempts now) (scan_queue db3) of
                           Some t \<Rightarrow> (Inr job, db3\<lparr>scan_queue := t\<rparr>)
                         | None \<Rightarrow>
                             (case row_of q_job_id (scan_queue db3) (sj_id job) of
                                None \<Rightarrow> (Inl IntegrityError, db3)
                              | Some existing \<Rightarrow> (present existing, db3)))"

section \<open>Claiming\<close>

definition claimable :: "time \<Rightarrow> queue_row \<Rightarrow> bool" where
  "claimable now r =
     (q_lease_owner r = None \<and> \<not> q_cancel_requested r \<and> q_next_attempt_at r \<le> now \<and>
      q_attempts r < q_max_attempts r)"

definition eligible :: "time \<Rightarrow> 'x queue_db_scheme \<Rightarrow> (queue_row \<times> scan_job) list" where
  "eligible now db =
     [(q, j). q \<leftarrow> scan_queue db, j \<leftarrow> scan_jobs db,
        sj_id j = q_job_id q \<and> sj_status j = Queued \<and> claimable now q]"

definition age_key :: "queue_row \<times> scan_job \<Rightarrow> time \<times> string" where
  "age_key = (\<lambda>(q, j). (sj_requested_at j, q_job_id q))"

text \<open>\<open>row_number() OVER (PARTITION BY workspace ORDER BY requested_at, job_id) = 1\<close>.\<close>

definition workspace_first :: "(queue_row \<times> scan_job) list \<Rightarrow> queue_row \<times> scan_job \<Rightarrow> bool" where
  "workspace_first rows e =
     list_all (\<lambda>e'. sj_workspace_id (snd e') = sj_workspace_id (snd e) \<longrightarrow> age_key e \<le> age_key e') rows"

definition candidates :: "time \<Rightarrow> 'x queue_db_scheme \<Rightarrow> (string \<times> string) list" where
  "candidates now db =
     map (\<lambda>(q, j). (q_job_id q, sj_workspace_id j))
       (take 20 (sort_key age_key (filter (workspace_first (eligible now db)) (eligible now db))))"

definition lease_row :: "string \<Rightarrow> time \<Rightarrow> time \<Rightarrow> queue_row \<Rightarrow> queue_row" where
  "lease_row worker expires now r =
     r\<lparr>q_lease_owner := Some worker, q_lease_expires_at := Some expires,
       q_last_heartbeat_at := Some now, q_attempts := q_attempts r + 1\<rparr>"

definition start_job :: "time \<Rightarrow> scan_job \<Rightarrow> scan_job" where
  "start_job now r = r\<lparr>sj_status := Running, sj_started_at := Some now\<rparr>"

text \<open>The claim transaction: both guarded updates match one row, or it is rolled back.\<close>

definition claim_tx ::
  "string \<Rightarrow> time \<Rightarrow> time \<Rightarrow> string \<Rightarrow> 'x queue_db_scheme \<Rightarrow> bool \<times> 'x queue_db_scheme" where
  "claim_tx worker expires now j db =
     (let gq = (\<lambda>r. q_job_id r = j \<and> claimable now r);
          gj = (\<lambda>r. sj_id r = j \<and> sj_status r = Queued)
      in if count_where gq (scan_queue db) \<noteq> 1 \<or> count_where gj (scan_jobs db) \<noteq> 1
         then (False, db)
         else (True, db\<lparr>scan_queue := update_where gq (lease_row worker expires now) (scan_queue db),
                        scan_jobs := update_where gj (start_job now) (scan_jobs db)\<rparr>))"

definition release_capacity ::
  "bool \<Rightarrow> (nat \<Rightarrow> 'x queue_db_scheme \<Rightarrow> 'x queue_db_scheme) \<Rightarrow> string \<Rightarrow> time \<Rightarrow> 'x queue_db_scheme \<Rightarrow>
   (unit, 'x queue_db_scheme) outcome" where
  "release_capacity quota env w now db = (if quota then release_scan_slot env w now db else (Inr (), db))"

definition lease_from_job_id ::
  "('x queue_db_scheme \<Rightarrow> 'x queue_db_scheme) \<Rightarrow> string \<Rightarrow> string \<Rightarrow> 'x queue_db_scheme \<Rightarrow>
   (scan_lease, 'x queue_db_scheme) outcome" where
  "lease_from_job_id env j worker db =
     (let db' = env db
      in (bindE (get_job j db) (\<lambda>job. bindE (get_state j db') (\<lambda>state.
            case (job, state) of
              (Some job, Some state) \<Rightarrow>
                if q_lease_owner state \<noteq> Some worker
                then Inl (RuntimeError ''unable to load claimed scan lease'')
                else (case q_lease_expires_at state of
                        None \<Rightarrow> Inl (RuntimeError ''claimed scan has no lease expiration'')
                      | Some expires \<Rightarrow> validate_lease
                          \<lparr>sl_job = job, sl_worker_id = worker, sl_attempt = q_attempts state,
                           sl_max_attempts = q_max_attempts state, sl_lease_expires_at = expires\<rparr>)
            | _ \<Rightarrow> Inl (RuntimeError ''unable to load claimed scan lease''))), db'))"

text \<open>
  The loop over the candidates. \<open>env i n\<close> is the interference at point \<open>n\<close> of the \<open>i\<close>-th candidate;
  \<open>fault i\<close> is an exception raised by the database inside the claim transaction of the \<open>i\<close>-th candidate, which
  is rolled back; the slot is given back before it is re-raised. When giving back the slot of a lost
  candidate raises, the handler tries once more.
\<close>

fun claim_candidates ::
  "(nat \<Rightarrow> nat \<Rightarrow> 'x queue_db_scheme \<Rightarrow> 'x queue_db_scheme) \<Rightarrow> (nat \<Rightarrow> py_error option) \<Rightarrow> bool \<Rightarrow>
   string \<Rightarrow> time \<Rightarrow> int \<Rightarrow> time \<Rightarrow> nat \<Rightarrow> (string \<times> string) list \<Rightarrow> 'x queue_db_scheme \<Rightarrow>
   (scan_lease option, 'x queue_db_scheme) outcome" where
  "claim_candidates env fault quota worker expires limit now i [] db = (Inr None, db)"
| "claim_candidates env fault quota worker expires limit now i ((j, w) # cs) db =
     (case (if quota then acquire_scan_slot (env i) w limit now db else (Inr True, db)) of
        (Inl e, db1) \<Rightarrow> (Inl e, db1)
      | (Inr False, db1) \<Rightarrow> claim_candidates env fault quota worker expires limit now (i + 1) cs db1
      | (Inr True, db1) \<Rightarrow>
          let db2 = env i 2 db1; give_back = release_capacity quota (\<lambda>n. env i (3 + n)) w now
          in case fault i of
               Some e \<Rightarrow> (case give_back db2 of
                            (Inl e', db3) \<Rightarrow> (Inl e', db3)
                          | (Inr _, db3) \<Rightarrow> (Inl e, db3))
             | None \<Rightarrow>
                 (case claim_tx worker expires now j db2 of
                    (False, _) \<Rightarrow>
                      (case give_back db2 of
                         (Inl e', db3) \<Rightarrow>
                           (case release_capacity quota (\<lambda>n. env i (5 + n)) w now db3 of
                              (Inl e'', db4) \<Rightarrow> (Inl e'', db4)
                            | (Inr _, db4) \<Rightarrow> (Inl e', db4))
                       | (Inr _, db3) \<Rightarrow>
                           claim_candidates env fault quota worker expires limit now (i + 1) cs db3)
                  | (True, db3) \<Rightarrow>
                      (case lease_from_job_id (env i 4) j worker (env i 3 db3) of
                         (Inl e', db4) \<Rightarrow> (Inl e', db4)
                       | (Inr lease, db4) \<Rightarrow> (Inr (Some lease), db4))))"

definition claim_next ::
  "(nat \<Rightarrow> nat \<Rightarrow> 'x queue_db_scheme \<Rightarrow> 'x queue_db_scheme) \<Rightarrow> (nat \<Rightarrow> py_error option) \<Rightarrow> bool \<Rightarrow>
   string \<Rightarrow> int \<Rightarrow> int option \<Rightarrow> time \<Rightarrow> 'x queue_db_scheme \<Rightarrow>
   (scan_lease option, 'x queue_db_scheme) outcome" where
  "claim_next env fault quota worker lease_seconds concurrency_limit now db =
     (if strip worker = [] then (Inl (ValueError ''worker_id is required''), db)
      else if \<not> (5 \<le> lease_seconds \<and> lease_seconds \<le> 3600)
      then (Inl (ValueError ''lease_seconds must be between 5 and 3600''), db)
      else if quota \<and> concurrency_limit = None
      then (Inl (ValueError ''concurrency_limit is required for quota-aware queue claims''), db)
      else if (case concurrency_limit of None \<Rightarrow> False | Some n \<Rightarrow> n < 1)
      then (Inl (ValueError ''concurrency_limit must be positive''), db)
      else claim_candidates env fault quota worker (now + seconds lease_seconds)
             (case concurrency_limit of None \<Rightarrow> 1 | Some n \<Rightarrow> n) now 0 (candidates now db) db)"

section \<open>Holding and finishing a lease\<close>

definition heartbeat ::
  "(nat \<Rightarrow> 'x queue_db_scheme \<Rightarrow> 'x queue_db_scheme) \<Rightarrow> string \<Rightarrow> string \<Rightarrow> int \<Rightarrow> time \<Rightarrow>
   'x queue_db_scheme \<Rightarrow> (scan_lease, 'x queue_db_scheme) outcome" where
  "heartbeat env j worker lease_seconds now db =
     (if \<not> (5 \<le> lease_seconds \<and> lease_seconds \<le> 3600)
      then (Inl (ValueError ''lease_seconds must be between 5 and 3600''), db)
      else let guard = (\<lambda>r. q_job_id r = j \<and> q_lease_owner r = Some worker \<and> \<not> q_cancel_requested r)
           in if count_where guard (scan_queue db) \<noteq> 1
              then (Inl (RuntimeError ''scan lease is not owned by worker or cancellation was requested''), db)
              else lease_from_job_id (env 1) j worker (env 0 (db\<lparr>scan_queue := update_where guard
                     (\<lambda>r. r\<lparr>q_lease_expires_at := Some (now + seconds lease_seconds),
                            q_last_heartbeat_at := Some now\<rparr>) (scan_queue db)\<rparr>)))"

definition clear_lease :: "queue_row \<Rightarrow> queue_row" where
  "clear_lease r = r\<lparr>q_lease_owner := None, q_lease_expires_at := None, q_last_heartbeat_at := None\<rparr>"

definition finish_job :: "scan_status \<Rightarrow> time \<Rightarrow> int \<Rightarrow> string option \<Rightarrow> scan_job \<Rightarrow> scan_job" where
  "finish_job status now n message r =
     r\<lparr>sj_status := status, sj_finished_at := Some now, sj_findings_count := n,
       sj_error_message := (case message of None \<Rightarrow> None
         | Some m \<Rightarrow> if m = [] then None else Some (take 4000 m))\<rparr>"

text \<open>Moves a running job that the worker holds and clears the lease, or nothing.\<close>

definition leave_tx ::
  "(scan_job \<Rightarrow> scan_job) \<Rightarrow> (queue_row \<Rightarrow> queue_row) \<Rightarrow> string \<Rightarrow> string \<Rightarrow> 'x queue_db_scheme \<Rightarrow>
   bool \<times> 'x queue_db_scheme" where
  "leave_tx move release j worker db =
     (let gj = (\<lambda>r. sj_id r = j \<and> sj_status r = Running);
          gq = (\<lambda>r. q_job_id r = j \<and> q_lease_owner r = Some worker)
      in if count_where gj (scan_jobs db) \<noteq> 1 \<or> count_where gq (scan_queue db) \<noteq> 1
         then (False, db)
         else (True, db\<lparr>scan_jobs := update_where gj move (scan_jobs db),
                        scan_queue := update_where gq release (scan_queue db)\<rparr>))"

definition finish_tx ::
  "scan_status \<Rightarrow> time \<Rightarrow> int \<Rightarrow> string option \<Rightarrow> string \<Rightarrow> string \<Rightarrow> 'x queue_db_scheme \<Rightarrow>
   bool \<times> 'x queue_db_scheme" where
  "finish_tx status now n message = leave_tx (finish_job status now n message) clear_lease"

definition retry_tx ::
  "time \<Rightarrow> string \<Rightarrow> string \<Rightarrow> 'x queue_db_scheme \<Rightarrow> bool \<times> 'x queue_db_scheme" where
  "retry_tx next = leave_tx (\<lambda>r. r\<lparr>sj_status := Queued\<rparr>) (\<lambda>r. clear_lease r\<lparr>q_next_attempt_at := next\<rparr>)"

text \<open>Loading the job after the transaction and the release.\<close>

definition reload_job ::
  "string \<Rightarrow> string \<Rightarrow> (unit, 'x queue_db_scheme) outcome \<Rightarrow> ('x queue_db_scheme \<Rightarrow> 'x queue_db_scheme) \<Rightarrow>
   (scan_job, 'x queue_db_scheme) outcome" where
  "reload_job j gone released env =
     (case released of
        (Inl e, db) \<Rightarrow> (Inl e, db)
      | (Inr _, db) \<Rightarrow>
          let db' = env db
          in (bindE (get_job j db') (\<lambda>job. case job of
                None \<Rightarrow> Inl (RuntimeError gone) | Some job \<Rightarrow> Inr job), db'))"

definition finish ::
  "bool \<Rightarrow> (nat \<Rightarrow> 'x queue_db_scheme \<Rightarrow> 'x queue_db_scheme) \<Rightarrow> string \<Rightarrow> string \<Rightarrow> scan_status \<Rightarrow> int \<Rightarrow>
   string option \<Rightarrow> time \<Rightarrow> 'x queue_db_scheme \<Rightarrow> (scan_job, 'x queue_db_scheme) outcome" where
  "finish quota env j worker status n message now db =
     (if status \<notin> set [Succeeded, Failed, Canceled]
      then (Inl (ValueError ''finish status must be terminal''), db)
      else case row_of sj_id (scan_jobs db) j of
             None \<Rightarrow> (Inl (LookupError ''scan job not found''), db)
           | Some job \<Rightarrow>
               (case finish_tx status now n message j worker db of
                  (False, _) \<Rightarrow> (Inl (RuntimeError ''scan job or lease ownership changed before completion''), db)
                | (True, db1) \<Rightarrow>
                    reload_job j ''scan job disappeared after completion''
                      (release_capacity quota (\<lambda>n. env (1 + n)) (sj_workspace_id job) now (env 0 db1))
                      (env 3)))"

definition complete_scan ::
  "bool \<Rightarrow> (nat \<Rightarrow> 'x queue_db_scheme \<Rightarrow> 'x queue_db_scheme) \<Rightarrow> string \<Rightarrow> string \<Rightarrow> int \<Rightarrow> time \<Rightarrow>
   'x queue_db_scheme \<Rightarrow> (scan_job, 'x queue_db_scheme) outcome" where
  "complete_scan quota env j worker n now = finish quota env j worker Succeeded n None now"

definition acknowledge_cancel ::
  "bool \<Rightarrow> (nat \<Rightarrow> 'x queue_db_scheme \<Rightarrow> 'x queue_db_scheme) \<Rightarrow> string \<Rightarrow> string \<Rightarrow> time \<Rightarrow>
   'x queue_db_scheme \<Rightarrow> (scan_job, 'x queue_db_scheme) outcome" where
  "acknowledge_cancel quota env j worker now = finish quota env j worker Canceled 0 None now"

definition fail_scan ::
  "bool \<Rightarrow> (nat \<Rightarrow> 'x queue_db_scheme \<Rightarrow> 'x queue_db_scheme) \<Rightarrow> string \<Rightarrow> string \<Rightarrow> string \<Rightarrow> bool \<Rightarrow> int \<Rightarrow>
   time \<Rightarrow> 'x queue_db_scheme \<Rightarrow> (scan_job, 'x queue_db_scheme) outcome" where
  "fail_scan quota env j worker message retryable backoff now db =
     (if backoff < 0 then (Inl (ValueError ''backoff_seconds cannot be negative''), db)
      else case get_state j db of
             Inl e \<Rightarrow> (Inl e, db)
           | Inr None \<Rightarrow> (Inl (RuntimeError ''scan lease is not owned by worker''), db)
           | Inr (Some state) \<Rightarrow>
               if q_lease_owner state \<noteq> Some worker
               then (Inl (RuntimeError ''scan lease is not owned by worker''), db)
               else let db0 = env 0 db
                    in if retryable \<and> q_attempts state < q_max_attempts state
                       then (case row_of sj_id (scan_jobs db0) j of
                               None \<Rightarrow> (Inl (LookupError ''scan job not found''), db0)
                             | Some job \<Rightarrow>
                                 (case retry_tx (now + seconds backoff) j worker db0 of
                                    (False, _) \<Rightarrow>
                                      (Inl (RuntimeError ''scan job state changed while scheduling retry''), db0)
                                  | (True, db1) \<Rightarrow>
                                      reload_job j ''scan job disappeared after retry scheduling''
                                        (release_capacity quota (\<lambda>n. env (2 + n)) (sj_workspace_id job)
                                           now (env 1 db1))
                                        (env 4)))
                       else finish quota (\<lambda>n. env (1 + n)) j worker Failed 0 (Some message) now db0)"

section \<open>Cancellation\<close>

text \<open>
  An attribute of a loaded row that is assigned a new value is written at the flush; assigning
  the loaded value writes nothing, so the column keeps its current value.
\<close>

definition flush :: "'a \<Rightarrow> 'a \<Rightarrow> 'a \<Rightarrow> 'a" where
  "flush loaded assigned current = (if loaded = assigned then current else assigned)"

lemma flush_same [simp]: "flush a b a = b"
  by (simp add: flush_def)

definition cancel_queue_row :: "scan_job \<Rightarrow> queue_row \<Rightarrow> queue_row \<Rightarrow> queue_row" where
  "cancel_queue_row job q r =
     (let r' = r\<lparr>q_cancel_requested := flush (q_cancel_requested q) True (q_cancel_requested r)\<rparr>
      in if sj_status job = Queued
         then r'\<lparr>q_lease_owner := flush (q_lease_owner q) None (q_lease_owner r),
                 q_lease_expires_at := flush (q_lease_expires_at q) None (q_lease_expires_at r)\<rparr>
         else r')"

definition cancel_job_row :: "time \<Rightarrow> scan_job \<Rightarrow> scan_job \<Rightarrow> scan_job" where
  "cancel_job_row now job r =
     (if sj_status job = Queued
      then r\<lparr>sj_status := flush (sj_status job) Canceled (sj_status r),
             sj_finished_at := flush (sj_finished_at job) (Some now) (sj_finished_at r)\<rparr>
      else r)"

definition request_cancel ::
  "('x queue_db_scheme \<Rightarrow> 'x queue_db_scheme) \<Rightarrow> ('x queue_db_scheme \<Rightarrow> 'x queue_db_scheme) \<Rightarrow>
   string \<Rightarrow> time \<Rightarrow> 'x queue_db_scheme \<Rightarrow> (scan_job, 'x queue_db_scheme) outcome" where
  "request_cancel mid env j now db =
     (case (row_of sj_id (scan_jobs db) j, row_of q_job_id (scan_queue db) j) of
        (Some job, Some q) \<Rightarrow>
          if sj_status job \<in> set [Succeeded, Failed, Canceled] then (job_from_record job, db)
          else let db1 = mid db;
                   db2 = db1\<lparr>scan_queue := update_where (\<lambda>r. q_job_id r = j) (cancel_queue_row job q) (scan_queue db1),
                             scan_jobs := update_where (\<lambda>r. sj_id r = j) (cancel_job_row now job) (scan_jobs db1)\<rparr>
               in reload_job j ''scan job disappeared after cancellation'' (Inr (), db2) env
      | _ \<Rightarrow> (Inl (LookupError ''queued scan job not found''), db))"

definition should_cancel :: "string \<Rightarrow> string \<Rightarrow> 'x queue_db_scheme \<Rightarrow> bool result" where
  "should_cancel j worker db =
     (case first_where (\<lambda>r. q_lease_owner r = Some worker \<and> q_job_id r = j) (scan_queue db) of
        None \<Rightarrow> Inl (RuntimeError ''scan lease is not owned by worker'')
      | Some r \<Rightarrow> Inr (q_cancel_requested r))"

section \<open>Recovery of expired leases\<close>

definition expired :: "time \<Rightarrow> 'x queue_db_scheme \<Rightarrow> (queue_row \<times> scan_job) list" where
  "expired now db =
     [(q, j). q \<leftarrow> scan_queue db, j \<leftarrow> scan_jobs db,
        sj_id j = q_job_id q \<and> sj_status j = Running \<and>
        (case q_lease_expires_at q of None \<Rightarrow> False | Some t \<Rightarrow> t \<le> now)]"

definition requeues :: "queue_row \<Rightarrow> bool" where
  "requeues q = (\<not> q_cancel_requested q \<and> q_attempts q < q_max_attempts q)"

definition recover_queue_row :: "time \<Rightarrow> queue_row \<Rightarrow> queue_row \<Rightarrow> queue_row" where
  "recover_queue_row now q r =
     r\<lparr>q_lease_owner := flush (q_lease_owner q) None (q_lease_owner r),
       q_lease_expires_at := flush (q_lease_expires_at q) None (q_lease_expires_at r),
       q_last_heartbeat_at := flush (q_last_heartbeat_at q) None (q_last_heartbeat_at r),
       q_next_attempt_at := (if requeues q then flush (q_next_attempt_at q) now (q_next_attempt_at r)
                             else q_next_attempt_at r)\<rparr>"

definition recover_job_row :: "time \<Rightarrow> queue_row \<Rightarrow> scan_job \<Rightarrow> scan_job \<Rightarrow> scan_job" where
  "recover_job_row now q job r =
     (if q_cancel_requested q
      then r\<lparr>sj_status := flush (sj_status job) Canceled (sj_status r),
             sj_finished_at := flush (sj_finished_at job) (Some now) (sj_finished_at r)\<rparr>
      else if q_max_attempts q \<le> q_attempts q
      then r\<lparr>sj_status := flush (sj_status job) Failed (sj_status r),
             sj_finished_at := flush (sj_finished_at job) (Some now) (sj_finished_at r),
             sj_error_message := flush (sj_error_message job)
               (Some ''worker lease expired after final attempt'') (sj_error_message r)\<rparr>
      else r\<lparr>sj_status := flush (sj_status job) Queued (sj_status r)\<rparr>)"

definition recover_row ::
  "time \<Rightarrow> queue_row \<times> scan_job \<Rightarrow> 'x queue_db_scheme \<Rightarrow> 'x queue_db_scheme" where
  "recover_row now e db =
     (let (q, j) = e
      in db\<lparr>scan_queue := update_where (\<lambda>r. q_job_id r = q_job_id q) (recover_queue_row now q) (scan_queue db),
            scan_jobs := update_where (\<lambda>r. sj_id r = sj_id j) (recover_job_row now q j) (scan_jobs db)\<rparr>)"

text \<open>Giving back the slots, one after the other; an exception stops it.\<close>

fun release_all ::
  "bool \<Rightarrow> (nat \<Rightarrow> nat \<Rightarrow> 'x queue_db_scheme \<Rightarrow> 'x queue_db_scheme) \<Rightarrow> time \<Rightarrow> nat \<Rightarrow> string list \<Rightarrow>
   'x queue_db_scheme \<Rightarrow> (unit, 'x queue_db_scheme) outcome" where
  "release_all quota env now i [] db = (Inr (), db)"
| "release_all quota env now i (w # ws) db =
     (case release_capacity quota (env i) w now (env i 2 db) of
        (Inl e, db1) \<Rightarrow> (Inl e, db1)
      | (Inr _, db1) \<Rightarrow> release_all quota env now (i + 1) ws db1)"

definition recover_expired_leases ::
  "bool \<Rightarrow> ('x queue_db_scheme \<Rightarrow> 'x queue_db_scheme) \<Rightarrow>
   (nat \<Rightarrow> nat \<Rightarrow> 'x queue_db_scheme \<Rightarrow> 'x queue_db_scheme) \<Rightarrow> time \<Rightarrow> 'x queue_db_scheme \<Rightarrow>
   (int \<times> int, 'x queue_db_scheme) outcome" where
  "recover_expired_leases quota mid env now db =
     (let rows = expired now db;
          db1 = fold (recover_row now) rows (mid db);
          requeued = int (count_where (\<lambda>(q, j). requeues q) rows);
          failed = int (count_where (\<lambda>(q, j). \<not> requeues q) rows)
      in case release_all quota env now 0 (map (\<lambda>(q, j). sj_workspace_id j) rows) db1 of
           (Inl e, db2) \<Rightarrow> (Inl e, db2)
         | (Inr _, db2) \<Rightarrow> (Inr (requeued, failed), db2))"

end
