(* ===== verification/QueueInvariant.thy ===== *)
theory QueueInvariant
  imports ScanQueue
begin

text \<open>
  The invariant of the scan queue and the system of its transactions. A state of the system is the
  database together with the slots \<open>p w\<close> that some process holds in workspace \<open>w\<close> without a running
  job (between taking a slot and starting the job, or between leaving the job and giving the slot
  back). Every transaction, in any interleaving of any number of processes, keeps the two tables
  consistent and the capacity counter equal to running jobs plus held slots.
\<close>

section \<open>The invariant\<close>

definition row_ok :: "queue_row \<Rightarrow> scan_job \<Rightarrow> bool" where
  "row_ok q j =
     ((q_lease_owner q \<noteq> None \<longleftrightarrow> sj_status j = Running) \<and>
      (q_lease_expires_at q \<noteq> None \<longleftrightarrow> q_lease_owner q \<noteq> None) \<and>
      0 \<le> q_attempts q \<and> q_attempts q \<le> q_max_attempts q \<and>
      1 \<le> q_max_attempts q \<and> q_max_attempts q \<le> 20 \<and>
      (q_lease_owner q \<noteq> None \<longrightarrow> 1 \<le> q_attempts q))"

definition queue_ok :: "'x queue_db_scheme \<Rightarrow> bool" where
  "queue_ok db =
     (keyed sj_id (scan_jobs db) \<and> keyed q_job_id (scan_queue db) \<and>
      runtimes_ok db \<and>
      (\<forall>a \<in> set (managed_assets db). known_workspace db (ma_workspace_id a)) \<and>
      (\<forall>j \<in> set (scan_jobs db). known_workspace db (sj_workspace_id j) \<and> 0 \<le> sj_findings_count j \<and>
         (sj_status j = Running \<longrightarrow> row_of q_job_id (scan_queue db) (sj_id j) \<noteq> None)) \<and>
      (\<forall>q \<in> set (scan_queue db). \<exists>j. row_of sj_id (scan_jobs db) (q_job_id q) = Some j \<and> row_ok q j))"

definition slots_ok :: "'x queue_db_scheme \<Rightarrow> (string \<Rightarrow> nat) \<Rightarrow> bool" where
  "slots_ok db p =
     (\<forall>w. active_scans db w = running_jobs db w + int (p w) \<and> (0 < p w \<longrightarrow> known_workspace db w))"

lemma queue_ok_keyed:
  "queue_ok db \<Longrightarrow> keyed sj_id (scan_jobs db)" "queue_ok db \<Longrightarrow> keyed q_job_id (scan_queue db)"
  "queue_ok db \<Longrightarrow> runtimes_ok db"
  by (simp_all add: queue_ok_def)

lemma queue_ok_row:
  assumes "queue_ok db" "row_of q_job_id (scan_queue db) j = Some q"
  obtains job where "row_of sj_id (scan_jobs db) j = Some job" "row_ok q job" "q_job_id q = j"
  using assms row_of_SomeD [OF assms(2)] by (auto simp: queue_ok_def)

lemma queue_ok_job:
  assumes "queue_ok db" "row_of sj_id (scan_jobs db) j = Some job"
  shows "known_workspace db (sj_workspace_id job)" "0 \<le> sj_findings_count job" "sj_id job = j"
  using assms row_of_SomeD [OF assms(2)] by (auto simp: queue_ok_def)

section \<open>Transactions on one job\<close>

text \<open>Every transaction that moves a job rewrites its row in both tables.\<close>

definition pair_update ::
  "string \<Rightarrow> (scan_job \<Rightarrow> scan_job) \<Rightarrow> (queue_row \<Rightarrow> queue_row) \<Rightarrow> 'x queue_db_scheme \<Rightarrow> 'x queue_db_scheme" where
  "pair_update j f g db =
     db\<lparr>scan_jobs := update_where (\<lambda>r. sj_id r = j) f (scan_jobs db),
        scan_queue := update_where (\<lambda>r. q_job_id r = j) g (scan_queue db)\<rparr>"

definition job_move :: "(scan_job \<Rightarrow> scan_job) \<Rightarrow> bool" where
  "job_move f = (\<forall>r. sj_id (f r) = sj_id r \<and> sj_workspace_id (f r) = sj_workspace_id r)"

definition queue_move :: "(queue_row \<Rightarrow> queue_row) \<Rightarrow> bool" where
  "queue_move g = (\<forall>r. q_job_id (g r) = q_job_id r)"

lemma job_moves [simp]:
  "job_move (start_job now)" "job_move (finish_job s now n m)" "job_move (\<lambda>r. r\<lparr>sj_status := s\<rparr>)"
  "job_move (cancel_job_row now job)" "job_move (recover_job_row now q job)"
  by (simp_all add: job_move_def start_job_def finish_job_def cancel_job_row_def recover_job_row_def)

lemma finish_job_fields [simp]: "sj_status (finish_job s now n m r) = s"
    "sj_findings_count (finish_job s now n m r) = n"
  by (simp_all add: finish_job_def)

lemma queue_moves [simp]:
  "queue_move (lease_row worker expires now)" "queue_move clear_lease"
  "queue_move (\<lambda>r. clear_lease r\<lparr>q_next_attempt_at := t\<rparr>)" "queue_move (cancel_queue_row job q)"
  "queue_move (recover_queue_row now q)"
  by (simp_all add: queue_move_def lease_row_def clear_lease_def cancel_queue_row_def
      recover_queue_row_def Let_def)

lemma pair_update_rows:
  assumes "job_move f" "queue_move g"
  shows "row_of sj_id (scan_jobs (pair_update j f g db)) k =
      (if k = j then map_option f (row_of sj_id (scan_jobs db) j) else row_of sj_id (scan_jobs db) k)"
    "row_of q_job_id (scan_queue (pair_update j f g db)) k =
      (if k = j then map_option g (row_of q_job_id (scan_queue db) j) else row_of q_job_id (scan_queue db) k)"
    "workspaces (pair_update j f g db) = workspaces db" "runtimes (pair_update j f g db) = runtimes db"
    "managed_assets (pair_update j f g db) = managed_assets db"
    "active_scans (pair_update j f g db) w = active_scans db w"
    "known_workspace (pair_update j f g db) w = known_workspace db w"
  using assms
  by (simp_all add: pair_update_def job_move_def queue_move_def row_of_update_at known_workspace_def
      active_scans_def)

lemma pair_update_ok:
  assumes ok: "queue_ok db" and f: "job_move f" and g: "queue_move g"
    and job: "row_of sj_id (scan_jobs db) j = Some job" "0 \<le> sj_findings_count (f job)"
    and q: "row_of q_job_id (scan_queue db) j = Some q" "row_ok (g q) (f job)"
  shows "queue_ok (pair_update j f g db)"
proof -
  note rows = pair_update_rows [OF f g]
  have kj: "keyed sj_id (scan_jobs db)" and kq: "keyed q_job_id (scan_queue db)"
    using ok by (simp_all add: queue_ok_def)
  have keyed: "keyed sj_id (scan_jobs (pair_update j f g db))"
      "keyed q_job_id (scan_queue (pair_update j f g db))"
    using f g kj kq by (simp_all add: pair_update_def keyed_update job_move_def queue_move_def)
  have "known_workspace db (sj_workspace_id r) \<and> 0 \<le> sj_findings_count r \<and>
      (sj_status r = Running \<longrightarrow> row_of q_job_id (scan_queue (pair_update j f g db)) (sj_id r) \<noteq> None)"
    if "r \<in> set (scan_jobs (pair_update j f g db))" for r
  proof (cases "sj_id r = j")
    case True
    then have "r = f job"
      using row_of_member [OF keyed(1) that] job(1) by (simp add: rows)
    moreover have "row_of q_job_id (scan_queue (pair_update j f g db)) j \<noteq> None"
      by (simp add: q(1) rows(2))
    ultimately show ?thesis
      using job(2) queue_ok_job(1) [OF ok job(1)] f True by (simp add: job_move_def)
  next
    case False
    then have "row_of sj_id (scan_jobs db) (sj_id r) = Some r"
      using row_of_member [OF keyed(1) that] by (simp add: rows)
    then have "r \<in> set (scan_jobs db)" by (rule row_of_SomeD [THEN conjunct1])
    then have "known_workspace db (sj_workspace_id r) \<and> 0 \<le> sj_findings_count r \<and>
        (sj_status r = Running \<longrightarrow> row_of q_job_id (scan_queue db) (sj_id r) \<noteq> None)"
      using ok unfolding queue_ok_def by blast
    with False show ?thesis by (simp add: rows(2))
  qed
  moreover have "\<exists>r. row_of sj_id (scan_jobs (pair_update j f g db)) (q_job_id x) = Some r \<and> row_ok x r"
    if "x \<in> set (scan_queue (pair_update j f g db))" for x
  proof (cases "q_job_id x = j")
    case True
    then have "x = g q"
      using row_of_member [OF keyed(2) that] q(1) by (simp add: rows)
    with True job q(2) show ?thesis by (simp add: rows)
  next
    case False
    then have "row_of q_job_id (scan_queue db) (q_job_id x) = Some x"
      using row_of_member [OF keyed(2) that] by (simp add: rows)
    then show ?thesis
      using queue_ok_row [OF ok] False by (metis rows(1))
  qed
  ultimately show ?thesis
    using keyed ok by (simp add: queue_ok_def rows runtimes_ok_def)
qed

lemma pair_update_running:
  assumes ok: "queue_ok db" and f: "job_move f" and job: "row_of sj_id (scan_jobs db) j = Some job"
  shows "running_jobs (pair_update j f g db) w = running_jobs db w +
    (if w = sj_workspace_id job
     then of_bool (sj_status (f job) = Running) - of_bool (sj_status job = Running) else 0)"
proof -
  have kj: "keyed sj_id (scan_jobs db)" using ok by (simp add: queue_ok_def)
  have "int (count_where (\<lambda>r. sj_workspace_id r = w \<and> sj_status r = Running)
      (update_where (\<lambda>r. sj_id r = j \<and> True) f (scan_jobs db))) =
    running_jobs db w + (of_bool (sj_workspace_id (f job) = w \<and> sj_status (f job) = Running)
      - of_bool (sj_workspace_id job = w \<and> sj_status job = Running))"
    unfolding count_where_update_key [OF kj] running_jobs_def using job by simp
  then show ?thesis
    using f by (auto simp: running_jobs_def pair_update_def job_move_def)
qed

section \<open>The transactions as moves\<close>

lemma claim_tx_True:
  assumes ok: "queue_ok db" and tx: "claim_tx worker expires now j db = (True, db')"
  obtains job q where "row_of sj_id (scan_jobs db) j = Some job" "sj_status job = Queued"
    "row_of q_job_id (scan_queue db) j = Some q" "claimable now q"
    "db' = pair_update j (start_job now) (lease_row worker expires now) db"
proof -
  note keyed = queue_ok_keyed [OF ok]
  let ?gq = "\<lambda>r. q_job_id r = j \<and> claimable now r" and ?gj = "\<lambda>r. sj_id r = j \<and> sj_status r = Queued"
  have "count_where ?gq (scan_queue db) = 1" "count_where ?gj (scan_jobs db) = 1"
    using tx by (auto simp: claim_tx_def Let_def split: if_splits)
  then obtain q job where
    q: "row_of q_job_id (scan_queue db) j = Some q" "claimable now q" and
    job: "row_of sj_id (scan_jobs db) j = Some job" "sj_status job = Queued"
    using count_where_one [OF keyed(1), of j "\<lambda>r. sj_status r = Queued"]
      count_where_one [OF keyed(2), of j "claimable now"] by auto
  have "db' = db\<lparr>scan_queue := update_where ?gq (lease_row worker expires now) (scan_queue db),
      scan_jobs := update_where ?gj (start_job now) (scan_jobs db)\<rparr>"
    using tx by (auto simp: claim_tx_def Let_def split: if_splits)
  also have "\<dots> = pair_update j (start_job now) (lease_row worker expires now) db"
    using update_where_matches [OF keyed(1) job(1), of "\<lambda>r. sj_status r = Queued"] job(2)
      update_where_matches [OF keyed(2) q(1), of "claimable now"] q(2)
    by (simp add: pair_update_def)
  finally show ?thesis using that job q by blast
qed

lemma leave_tx_True:
  assumes ok: "queue_ok db" and tx: "leave_tx f g j worker db = (True, db')"
  obtains job q where "row_of sj_id (scan_jobs db) j = Some job" "sj_status job = Running"
    "row_of q_job_id (scan_queue db) j = Some q" "q_lease_owner q = Some worker"
    "db' = pair_update j f g db"
proof -
  note keyed = queue_ok_keyed [OF ok]
  let ?gq = "\<lambda>r. q_job_id r = j \<and> q_lease_owner r = Some worker"
  let ?gj = "\<lambda>r. sj_id r = j \<and> sj_status r = Running"
  have "count_where ?gq (scan_queue db) = 1" "count_where ?gj (scan_jobs db) = 1"
    using tx by (auto simp: leave_tx_def Let_def split: if_splits)
  then obtain q job where
    q: "row_of q_job_id (scan_queue db) j = Some q" "q_lease_owner q = Some worker" and
    job: "row_of sj_id (scan_jobs db) j = Some job" "sj_status job = Running"
    using count_where_one [OF keyed(1), of j "\<lambda>r. sj_status r = Running"]
      count_where_one [OF keyed(2), of j "\<lambda>r. q_lease_owner r = Some worker"] by auto
  have "db' = db\<lparr>scan_jobs := update_where ?gj f (scan_jobs db),
      scan_queue := update_where ?gq g (scan_queue db)\<rparr>"
    using tx by (auto simp: leave_tx_def Let_def split: if_splits)
  also have "\<dots> = pair_update j f g db"
    using update_where_matches [OF keyed(1) job(1), of "\<lambda>r. sj_status r = Running"] job(2)
      update_where_matches [OF keyed(2) q(1), of "\<lambda>r. q_lease_owner r = Some worker"] q(2)
    by (simp add: pair_update_def)
  finally show ?thesis using that job q by blast
qed

text \<open>What each move makes of the two rows.\<close>

lemma moved_rows_ok:
  assumes "row_ok q job"
  shows "sj_status job = Queued \<Longrightarrow> claimable now q \<Longrightarrow>
      row_ok (lease_row worker expires now q) (start_job now job)"
    "sj_status job = Running \<Longrightarrow> s \<noteq> Running \<Longrightarrow> row_ok (clear_lease q) (finish_job s now n m job)"
    "sj_status job = Running \<Longrightarrow>
      row_ok (clear_lease q\<lparr>q_next_attempt_at := t\<rparr>) (job\<lparr>sj_status := Queued\<rparr>)"
    "sj_status read \<in> {Queued, Running} \<Longrightarrow> (sj_status read = Queued \<longrightarrow> sj_status job = Queued) \<Longrightarrow>
      row_ok (cancel_queue_row read x q) (cancel_job_row now read job)"
    "sj_status job = Running \<Longrightarrow> sj_status read = Running \<Longrightarrow> q_lease_owner x \<noteq> None \<Longrightarrow> q_lease_expires_at x \<noteq> None \<Longrightarrow>
      row_ok (recover_queue_row now x q) (recover_job_row now x read job)"
  using assms
  by (auto simp: row_ok_def claimable_def lease_row_def start_job_def clear_lease_def finish_job_def
      cancel_queue_row_def cancel_job_row_def recover_queue_row_def recover_job_row_def flush_def Let_def)

section \<open>The system of transactions\<close>

text \<open>
  One committed transaction of the queue and of the capacity counters, when every caller uses the
  concurrency limit \<open>limit\<close>. \<open>canceled\<close> and \<open>recovered\<close> are the flush of rows \<open>job\<close> and \<open>q\<close> that were read
  earlier; what was committed since then is any run that left the status of the job as the flush
  needs it: a job read as queued is still queued, an expired one is still running. (A flush that meets another
  status is the race of \<open>QueueProperties\<close> and is not a step of this system.) \<open>others\<close> stands for the transactions
  of the rest of the program, which leave jobs, queue and counters alone.
\<close>

inductive queue_step ::
  "int \<Rightarrow> 'x queue_db_scheme \<times> (string \<Rightarrow> nat) \<Rightarrow> 'x queue_db_scheme \<times> (string \<Rightarrow> nat) \<Rightarrow> bool"
  for limit where
  ensure: "ensure_workspace_runtime id w now db = (Inr (), db') \<Longrightarrow> queue_step limit (db, p) (db', p)"
| taken: "take_slot w limit now db = (True, db') \<Longrightarrow> known_workspace db w \<Longrightarrow>
    queue_step limit (db, p) (db', p(w := p w + 1))"
| refused: "take_slot w limit now db = (False, db') \<Longrightarrow> queue_step limit (db, p) (db', p)"
| dropped: "0 < p w \<Longrightarrow> queue_step limit (db, p) (drop_slot w now db, p(w := p w - 1))"
| created: "row_of sj_id (scan_jobs db) i = None \<Longrightarrow> known_workspace db w \<Longrightarrow>
    queue_step limit (db, p) (db\<lparr>scan_jobs := scan_jobs db @ [new_job i now w a k]\<rparr>, p)"
| enqueued: "row_of q_job_id (scan_queue db) j = None \<Longrightarrow> row_of sj_id (scan_jobs db) j \<noteq> None \<Longrightarrow>
    1 \<le> m \<Longrightarrow> m \<le> 20 \<Longrightarrow>
    queue_step limit (db, p) (db\<lparr>scan_queue := scan_queue db @ [new_queue_row j m now]\<rparr>, p)"
| claimed: "claim_tx worker expires now j db = (True, db') \<Longrightarrow>
    row_of sj_id (scan_jobs db) j = Some job \<Longrightarrow> 0 < p (sj_workspace_id job) \<Longrightarrow>
    queue_step limit (db, p) (db', p(sj_workspace_id job := p (sj_workspace_id job) - 1))"
| beat: "row_of q_job_id (scan_queue db) j = Some q \<Longrightarrow> q_lease_owner q \<noteq> None \<Longrightarrow>
    queue_step limit (db, p) (pair_update j id
      (\<lambda>r. r\<lparr>q_lease_expires_at := Some expires, q_last_heartbeat_at := Some now\<rparr>) db, p)"
| finished: "finish_tx s now n m j worker db = (True, db') \<Longrightarrow> terminal_status s \<Longrightarrow> 0 \<le> n \<Longrightarrow>
    row_of sj_id (scan_jobs db) j = Some job \<Longrightarrow>
    queue_step limit (db, p) (db', p(sj_workspace_id job := p (sj_workspace_id job) + 1))"
| retried: "retry_tx next j worker db = (True, db') \<Longrightarrow> row_of sj_id (scan_jobs db) j = Some job \<Longrightarrow>
    queue_step limit (db, p) (db', p(sj_workspace_id job := p (sj_workspace_id job) + 1))"
| canceled: "row_of sj_id (scan_jobs db) j = Some r \<Longrightarrow> row_of q_job_id (scan_queue db) j = Some x \<Longrightarrow>
    sj_status job \<in> {Queued, Running} \<Longrightarrow> (sj_status job = Queued \<longrightarrow> sj_status r = Queued) \<Longrightarrow>
    queue_step limit (db, p) (pair_update j (cancel_job_row now job) (cancel_queue_row job q) db, p)"
| recovered: "row_of sj_id (scan_jobs db) j = Some r \<Longrightarrow> row_of q_job_id (scan_queue db) j = Some x \<Longrightarrow>
    sj_status r = Running \<Longrightarrow> sj_id job = j \<Longrightarrow> q_job_id q = j \<Longrightarrow> sj_status job = Running \<Longrightarrow>
    q_lease_owner q \<noteq> None \<Longrightarrow> q_lease_expires_at q \<noteq> None \<Longrightarrow>
    queue_step limit (db, p) (recover_row now (q, job) db,
      p(sj_workspace_id r := p (sj_workspace_id r) + 1))"
| others: "scan_jobs db' = scan_jobs db \<Longrightarrow> scan_queue db' = scan_queue db \<Longrightarrow> runtimes db' = runtimes db \<Longrightarrow>
    (\<forall>w. known_workspace db w \<longrightarrow> known_workspace db' w) \<Longrightarrow>
    (\<forall>a \<in> set (managed_assets db'). known_workspace db' (ma_workspace_id a)) \<Longrightarrow>
    queue_step limit (db, p) (db', p)"

definition queue_inv :: "int \<Rightarrow> 'x queue_db_scheme \<times> (string \<Rightarrow> nat) \<Rightarrow> bool" where
  "queue_inv limit = (\<lambda>(db, p). queue_ok db \<and> slots_ok db p \<and> (\<forall>w. active_scans db w \<le> limit))"

lemma queue_invI:
  "queue_ok db \<Longrightarrow> slots_ok db p \<Longrightarrow> (\<And>w. active_scans db w \<le> limit) \<Longrightarrow> queue_inv limit (db, p)"
  by (simp add: queue_inv_def)

lemma queue_invD:
  assumes "queue_inv limit (db, p)"
  shows "queue_ok db" "slots_ok db p" "active_scans db w \<le> limit"
    "active_scans db w = running_jobs db w + int (p w)" "0 < p w \<Longrightarrow> known_workspace db w"
  using assms unfolding queue_inv_def slots_ok_def prod.case by blast+

lemma running_nonneg [simp]: "0 \<le> running_jobs db w"
  by (simp add: running_jobs_def)

text \<open>Only the counters change.\<close>

lemma slot_tables:
  "scan_jobs (snd (take_slot w limit now db)) = scan_jobs db"
  "scan_queue (snd (take_slot w limit now db)) = scan_queue db"
  "workspaces (snd (take_slot w limit now db)) = workspaces db"
  "managed_assets (snd (take_slot w limit now db)) = managed_assets db"
  "scan_jobs (drop_slot w now db) = scan_jobs db"
  "scan_queue (drop_slot w now db) = scan_queue db"
  "workspaces (drop_slot w now db) = workspaces db"
  "managed_assets (drop_slot w now db) = managed_assets db"
  by (simp_all add: take_slot_def drop_slot_def Let_def)

lemma queue_ok_counters:
  assumes "queue_ok db" "runtimes_ok db'" "scan_jobs db' = scan_jobs db" "scan_queue db' = scan_queue db"
    "workspaces db' = workspaces db" "managed_assets db' = managed_assets db"
  shows "queue_ok db'" "running_jobs db' w = running_jobs db w"
    "known_workspace db' w = known_workspace db w"
  using assms by (simp_all add: queue_ok_def known_workspace_def running_jobs_def)

lemma ensure_effect:
  assumes "ensure_workspace_runtime id w now db = (Inr (), db')" "runtimes_ok db"
  shows "runtimes_ok db'" "active_scans db' v = active_scans db v" "scan_jobs db' = scan_jobs db"
    "scan_queue db' = scan_queue db" "workspaces db' = workspaces db"
    "managed_assets db' = managed_assets db" "known_workspace db w"
proof -
  let ?new = "\<lparr>wr_workspace_id = w, wr_active_scans = 0, wr_updated_at = now\<rparr>"
  obtain x where known: "row_of ws_id (workspaces db) w = Some x"
    using assms(1) by (auto simp: ensure_workspace_runtime_def split: if_splits)
  have *: "runtimes_ok db' \<and> active_scans db' v = active_scans db v \<and> scan_jobs db' = scan_jobs db \<and>
      scan_queue db' = scan_queue db \<and> workspaces db' = workspaces db \<and>
      managed_assets db' = managed_assets db"
  proof (cases "row_of wr_workspace_id (runtimes db) w")
    case None
    then have "insert_row (\<lambda>x y. wr_workspace_id x = wr_workspace_id y) ?new (runtimes db)
        = Some (runtimes db @ [?new])"
      by (simp add: insert_row_key)
    with None known assms(1) have "db' = db\<lparr>runtimes := runtimes db @ [?new]\<rparr>"
      unfolding ensure_workspace_runtime_def by (simp add: Let_def)
    with None assms(2) show ?thesis
      by (simp add: runtimes_ok_def keyed_append row_of_append active_scans_def split: option.split)
  next
    case (Some r)
    with known assms show ?thesis by (simp add: ensure_workspace_runtime_def)
  qed
  then show "runtimes_ok db'" "active_scans db' v = active_scans db v" "scan_jobs db' = scan_jobs db"
    "scan_queue db' = scan_queue db" "workspaces db' = workspaces db"
    "managed_assets db' = managed_assets db" by simp_all
  show "known_workspace db w" using known by (simp add: known_workspace_def)
qed

text \<open>A move of one job, with the slot it takes from or adds to the held ones.\<close>

lemma move_inv:
  assumes inv: "queue_inv limit (db, p)" and f: "job_move f" and g: "queue_move g"
    and job: "row_of sj_id (scan_jobs db) j = Some job" "0 \<le> sj_findings_count (f job)"
    and q: "row_of q_job_id (scan_queue db) j = Some q" "row_ok (g q) (f job)"
    and p': "int (p' (sj_workspace_id job)) = int (p (sj_workspace_id job))
        - (of_bool (sj_status (f job) = Running) - of_bool (sj_status job = Running))"
      "\<And>w. w \<noteq> sj_workspace_id job \<Longrightarrow> p' w = p w"
  shows "queue_inv limit (pair_update j f g db, p')"
proof (rule queue_invI)
  note D = queue_invD [OF inv] and rows = pair_update_rows [OF f g, of j]
  show "queue_ok (pair_update j f g db)" by (rule pair_update_ok [OF D(1) f g job q])
  show "active_scans (pair_update j f g db) w \<le> limit" for w
    by (simp add: rows D(3))
  have "active_scans (pair_update j f g db) w = running_jobs (pair_update j f g db) w + int (p' w) \<and>
      (0 < p' w \<longrightarrow> known_workspace (pair_update j f g db) w)" for w
  proof (cases "w = sj_workspace_id job")
    case True
    then show ?thesis
      using D(4) [of w] p'(1) queue_ok_job(1) [OF D(1) job(1)]
      by (simp add: rows pair_update_running [OF D(1) f job(1)])
  next
    case False
    then show ?thesis
      using D(4,5) [of w] p'(2) by (simp add: rows pair_update_running [OF D(1) f job(1)])
  qed
  then show "slots_ok (pair_update j f g db) p'" by (simp add: slots_ok_def)
qed

section \<open>Every transaction keeps the invariant\<close>

lemma counters_inv:
  assumes inv: "queue_inv limit (db, p)" and "runtimes_ok db'" "scan_jobs db' = scan_jobs db"
    "scan_queue db' = scan_queue db" "workspaces db' = workspaces db"
    "managed_assets db' = managed_assets db"
    and act: "\<And>v. active_scans db' v = active_scans db v + (int (p' v) - int (p v))"
    and lim: "\<And>v. p v < p' v \<Longrightarrow> active_scans db' v \<le> limit \<and> known_workspace db v"
  shows "queue_inv limit (db', p')"
proof (rule queue_invI)
  note D = queue_invD [OF inv]
  note same = queue_ok_counters [OF D(1) assms(2-6)]
  show "queue_ok db'" by (rule same)
  show "active_scans db' w \<le> limit" for w
    using act [of w] lim [of w] D(3) [of w] by (cases "p w < p' w") simp_all
  have "0 < p' w \<longrightarrow> known_workspace db w" for w
    using lim [of w] D(5) [of w] by (cases "p w < p' w") auto
  then show "slots_ok db' p'"
    unfolding slots_ok_def using D(4) act by (simp add: same)
qed

lemma appended_job_inv:
  assumes inv: "queue_inv limit (db, p)" and "row_of sj_id (scan_jobs db) i = None"
    and "known_workspace db w"
  shows "queue_inv limit (db\<lparr>scan_jobs := scan_jobs db @ [new_job i now w a k]\<rparr>, p)"
proof (rule queue_invI)
  note D = queue_invD [OF inv]
  let ?db = "db\<lparr>scan_jobs := scan_jobs db @ [new_job i now w a k]\<rparr>"
  have known: "known_workspace ?db v = known_workspace db v" for v by (simp add: known_workspace_def)
  have "\<exists>j. row_of sj_id (scan_jobs ?db) (q_job_id q) = Some j \<and> row_ok q j"
    if "q \<in> set (scan_queue db)" for q
    using D(1) that by (fastforce simp: queue_ok_def row_of_append)
  with D(1) assms(2,3) known show "queue_ok ?db"
    by (auto simp: queue_ok_def keyed_append runtimes_ok_def new_job_def)
  have "running_jobs ?db v = running_jobs db v" for v
    by (simp add: running_jobs_def count_where_append)
  with D(2) known show "slots_ok ?db p" by (simp add: slots_ok_def active_scans_def)
  show "active_scans ?db v \<le> limit" for v using D(3) [of v] by (simp add: active_scans_def)
qed

lemma appended_row_inv:
  assumes inv: "queue_inv limit (db, p)" and none: "row_of q_job_id (scan_queue db) j = None"
    and job: "row_of sj_id (scan_jobs db) j \<noteq> None" and m: "1 \<le> m" "m \<le> 20"
  shows "queue_inv limit (db\<lparr>scan_queue := scan_queue db @ [new_queue_row j m now]\<rparr>, p)"
proof (rule queue_invI)
  note D = queue_invD [OF inv]
  let ?db = "db\<lparr>scan_queue := scan_queue db @ [new_queue_row j m now]\<rparr>"
  have known: "known_workspace ?db v = known_workspace db v" for v by (simp add: known_workspace_def)
  from job obtain r where r: "row_of sj_id (scan_jobs db) j = Some r" by blast
  have "sj_status r \<noteq> Running"
    using D(1) none row_of_SomeD [OF r] by (auto simp: queue_ok_def)
  with r m have "\<exists>x. row_of sj_id (scan_jobs db) j = Some x \<and> row_ok (new_queue_row j m now) x"
    by (simp add: row_ok_def new_queue_row_def)
  moreover have "row_of q_job_id (scan_queue ?db) k \<noteq> None" if "row_of q_job_id (scan_queue db) k \<noteq> None" for k
    using that by (auto simp: row_of_append)
  moreover have "q_job_id (new_queue_row j m now) = j" by (simp add: new_queue_row_def)
  ultimately show "queue_ok ?db"
    using D(1) none known by (simp add: queue_ok_def keyed_append runtimes_ok_def)
  show "slots_ok ?db p"
    using D(2) known by (simp add: slots_ok_def active_scans_def running_jobs_def)
  show "active_scans ?db v \<le> limit" for v using D(3) [of v] by (simp add: active_scans_def)
qed

lemma leave_inv:
  assumes inv: "queue_inv limit (db, p)" and f: "job_move f" and g: "queue_move g"
    and tx: "leave_tx f g j worker db = (True, db')" and job: "row_of sj_id (scan_jobs db) j = Some job"
    and ok: "\<And>q. row_ok q job \<Longrightarrow> sj_status job = Running \<Longrightarrow> row_ok (g q) (f job)"
    and new: "sj_status (f job) \<noteq> Running" "0 \<le> sj_findings_count (f job)"
  shows "queue_inv limit (db', p(sj_workspace_id job := p (sj_workspace_id job) + 1))"
proof -
  note D = queue_invD [OF inv]
  from leave_tx_True [OF D(1) tx] obtain q where
    q: "row_of q_job_id (scan_queue db) j = Some q" and run: "sj_status job = Running"
    and db': "db' = pair_update j f g db"
    using job by (metis option.inject)
  obtain r where "row_of sj_id (scan_jobs db) j = Some r" "row_ok q r"
    by (rule queue_ok_row [OF D(1) q])
  then have "row_ok (g q) (f job)" using ok run job by simp
  then show ?thesis
    unfolding db' by (rule move_inv [OF inv f g job new(2) q]) (simp_all add: new run)
qed

lemma recover_row_pair:
  assumes "q_job_id q = j" "sj_id job = j"
  shows "recover_row now (q, job) db = pair_update j (recover_job_row now q job) (recover_queue_row now q) db"
  using assms by (simp add: recover_row_def pair_update_def)

lemma claim_inv:
  assumes inv: "queue_inv limit (db, p)" and tx: "claim_tx worker expires now j db = (True, db')"
    and job: "row_of sj_id (scan_jobs db) j = Some job" and p: "0 < p (sj_workspace_id job)"
  shows "queue_inv limit (db', p(sj_workspace_id job := p (sj_workspace_id job) - 1))"
proof -
  note D = queue_invD [OF inv]
  from claim_tx_True [OF D(1) tx] obtain q where
    queued: "sj_status job = Queued" and q: "row_of q_job_id (scan_queue db) j = Some q" "claimable now q"
    and db': "db' = pair_update j (start_job now) (lease_row worker expires now) db"
    using job by (metis option.inject)
  obtain r where "row_of sj_id (scan_jobs db) j = Some r" "row_ok q r"
    by (rule queue_ok_row [OF D(1) q(1)])
  then have "row_ok (lease_row worker expires now q) (start_job now job)"
    using moved_rows_ok(1) queued q(2) job by simp
  moreover have "0 \<le> sj_findings_count (start_job now job)" "sj_status (start_job now job) = Running"
    using queue_ok_job(2) [OF D(1) job] by (simp_all add: start_job_def)
  ultimately show ?thesis
    unfolding db' using p queued
    by (intro move_inv [OF inv _ _ job _ q(1)]) (simp_all add: of_nat_diff)
qed

lemma beat_inv:
  assumes inv: "queue_inv limit (db, p)" and q: "row_of q_job_id (scan_queue db) j = Some q"
    "q_lease_owner q \<noteq> None"
  shows "queue_inv limit (pair_update j id
    (\<lambda>r. r\<lparr>q_lease_expires_at := Some expires, q_last_heartbeat_at := Some now\<rparr>) db, p)"
proof -
  note D = queue_invD [OF inv]
  obtain r where r: "row_of sj_id (scan_jobs db) j = Some r" "row_ok q r"
    by (rule queue_ok_row [OF D(1) q(1)])
  show ?thesis
    by (rule move_inv [OF inv _ _ r(1) _ q(1)])
      (use r q queue_ok_job(2) [OF D(1) r(1)] in \<open>simp_all add: job_move_def queue_move_def row_ok_def\<close>)
qed

lemma cancel_inv:
  assumes inv: "queue_inv limit (db, p)" and r: "row_of sj_id (scan_jobs db) j = Some r"
    and x: "row_of q_job_id (scan_queue db) j = Some x"
    and job: "sj_status job \<in> {Queued, Running}" "sj_status job = Queued \<longrightarrow> sj_status r = Queued"
  shows "queue_inv limit (pair_update j (cancel_job_row now job) (cancel_queue_row job q) db, p)"
proof -
  note D = queue_invD [OF inv]
  have "row_ok x r"
    using queue_ok_row [OF D(1) x] r by (metis option.inject)
  from moved_rows_ok(4) [OF this job] show ?thesis
    by (intro move_inv [OF inv _ _ r _ x])
      (use job queue_ok_job(2) [OF D(1) r] in \<open>auto simp: cancel_job_row_def flush_def\<close>)
qed

lemma recover_inv:
  assumes inv: "queue_inv limit (db, p)" and r: "row_of sj_id (scan_jobs db) j = Some r" "sj_status r = Running"
    and x: "row_of q_job_id (scan_queue db) j = Some x" and ids: "sj_id job = j" "q_job_id q = j"
    and read: "sj_status job = Running" "q_lease_owner q \<noteq> None" "q_lease_expires_at q \<noteq> None"
  shows "queue_inv limit (recover_row now (q, job) db, p(sj_workspace_id r := p (sj_workspace_id r) + 1))"
proof -
  note D = queue_invD [OF inv]
  have "row_ok x r"
    using queue_ok_row [OF D(1) x] r(1) by (metis option.inject)
  from moved_rows_ok(5) [OF this r(2) read] show ?thesis
    unfolding recover_row_pair [OF ids(2,1)]
    by (intro move_inv [OF inv _ _ r(1) _ x])
      (use r read queue_ok_job(2) [OF D(1) r(1)] in \<open>auto simp: recover_job_row_def flush_def\<close>)
qed

lemma others_inv:
  assumes inv: "queue_inv limit (db, p)" and same: "scan_jobs db' = scan_jobs db"
    "scan_queue db' = scan_queue db" "runtimes db' = runtimes db"
    and known: "\<forall>w. known_workspace db w \<longrightarrow> known_workspace db' w"
    and assets: "\<forall>a \<in> set (managed_assets db'). known_workspace db' (ma_workspace_id a)"
  shows "queue_inv limit (db', p)"
proof (rule queue_invI)
  note D = queue_invD [OF inv]
  show "queue_ok db'"
    using D(1) same known assets by (simp add: queue_ok_def runtimes_ok_def)
  show "slots_ok db' p"
    using D(2) same known by (simp add: slots_ok_def active_scans_def running_jobs_def)
  show "active_scans db' v \<le> limit" for v
    using D(3) [of v] same by (simp add: active_scans_def)
qed

interpretation queue: step_system "queue_step limit" "queue_inv limit"
proof unfold_locales
  fix s s' :: "'x queue_db_scheme \<times> (string \<Rightarrow> nat)"
  assume "queue_step limit s s'" "queue_inv limit s"
  then show "queue_inv limit s'"
  proof (induction rule: queue_step.induct)
    case (ensure w now db db' p)
    note D = queue_invD [OF ensure.prems]
    note e = ensure_effect [OF ensure.hyps queue_ok_keyed(3) [OF D(1)]]
    show ?case by (rule counters_inv [OF ensure.prems]) (simp_all add: e)
  next
    case (taken w now db db' p)
    note D = queue_invD [OF taken.prems] and ok = queue_ok_keyed(3) [OF D(1)]
    have db': "db' = snd (take_slot w limit now db)" "fst (take_slot w limit now db)"
      using taken.hyps(1) by simp_all
    show ?case
      using slots.take_below [OF ok db'(2)] taken.hyps(2) D(3)
      by (intro counters_inv [OF taken.prems])
        (auto simp: db' slots.take_good [OF ok] slot_tables slots.take_active [OF ok] split: if_splits)
  next
    case (refused w now db db' p)
    note D = queue_invD [OF refused.prems] and ok = queue_ok_keyed(3) [OF D(1)]
    have db': "db' = snd (take_slot w limit now db)" "\<not> fst (take_slot w limit now db)"
      using refused.hyps by simp_all
    show ?case
      by (rule counters_inv [OF refused.prems])
        (simp_all add: db' slots.take_good [OF ok] slot_tables slots.take_active [OF ok])
  next
    case (dropped p w db now)
    note D = queue_invD [OF dropped.prems] and ok = queue_ok_keyed(3) [OF D(1)]
    have "0 < active_scans db w" using D(4) [of w] dropped.hyps running_nonneg [of db w] by linarith
    with dropped.hyps show ?case
      by (intro counters_inv [OF dropped.prems])
        (auto simp: slots.drop_good [OF ok] slot_tables slots.drop_active [OF ok] of_nat_diff split: if_splits)
  next
    case (finished s now n m j worker db db' job p)
    then show ?case
      unfolding finish_tx_def
      by (intro leave_inv [where f = "finish_job s now n m" and g = clear_lease])
        (auto intro: moved_rows_ok(2))
  next
    case (retried t j worker db db' job p)
    then have "0 \<le> sj_findings_count job" using queue_ok_job(2) queue_invD(1) by blast
    with retried show ?case
      unfolding retry_tx_def
      by (intro leave_inv [where f = "\<lambda>r. r\<lparr>sj_status := Queued\<rparr>"
          and g = "\<lambda>r. clear_lease r\<lparr>q_next_attempt_at := t\<rparr>"])
        (auto intro: moved_rows_ok(3))
  next
    case claimed
    show ?case by (rule claim_inv [OF claimed.prems claimed.hyps])
  next
    case recovered
    show ?case by (rule recover_inv) (use recovered in auto)
  qed (auto intro: appended_job_inv appended_row_inv beat_inv cancel_inv others_inv)
qed

end
