(* ===== verification/QueueRefinement.thy ===== *)
theory QueueRefinement
  imports QueueInvariant
begin

text \<open>
  The operations of the scan queue as runs of its transactions. An operation that starts in a good
  state, under interference that itself consists of transactions, performs only transactions of
  the system and ends holding no slot; so it is again admissible interference for the others. On the
  way: what any run preserves of a job and of its queue row.
\<close>

section \<open>What every run preserves\<close>

definition job_persists :: "scan_job \<Rightarrow> scan_job \<Rightarrow> bool" where
  "job_persists r r' =
     (sj_id r' = sj_id r \<and> sj_workspace_id r' = sj_workspace_id r \<and> sj_asset_id r' = sj_asset_id r \<and>
      sj_kind r' = sj_kind r \<and> sj_requested_at r' = sj_requested_at r \<and>
      (terminal_status (sj_status r) \<longrightarrow> r' = r))"

definition row_persists :: "queue_row \<Rightarrow> queue_row \<Rightarrow> bool" where
  "row_persists q q' =
     (q_job_id q' = q_job_id q \<and> q_max_attempts q' = q_max_attempts q \<and>
      q_attempts q \<le> q_attempts q' \<and> (q_cancel_requested q \<longrightarrow> q_cancel_requested q'))"

definition queue_later :: "'x queue_db_scheme \<Rightarrow> 'x queue_db_scheme \<Rightarrow> bool" where
  "queue_later db db' =
     ((\<forall>w. known_workspace db w \<longrightarrow> known_workspace db' w) \<and>
      (\<forall>j r. row_of sj_id (scan_jobs db) j = Some r \<longrightarrow>
         (\<exists>r'. row_of sj_id (scan_jobs db') j = Some r' \<and> job_persists r r')) \<and>
      (\<forall>j q. row_of q_job_id (scan_queue db) j = Some q \<longrightarrow>
         (\<exists>q'. row_of q_job_id (scan_queue db') j = Some q' \<and> row_persists q q')))"

lemma job_persists_refl [simp]: "job_persists r r"
  by (simp add: job_persists_def)

lemma row_persists_refl [simp]: "row_persists q q"
  by (simp add: row_persists_def)

lemma queue_later_refl [simp]: "queue_later db db"
  by (simp add: queue_later_def)

lemma queue_later_trans:
  assumes "queue_later a b" "queue_later b c"
  shows "queue_later a c"
proof -
  have jp: "job_persists x z" if "job_persists x y" "job_persists y z" for x y z
    using that unfolding job_persists_def by (auto simp del: terminal_status.simps)
  have rp: "row_persists x z" if "row_persists x y" "row_persists y z" for x y z
    using that unfolding row_persists_def by auto
  from assms show ?thesis
    unfolding queue_later_def by (meson jp rp)
qed

lemma queue_later_same:
  assumes "scan_jobs db' = scan_jobs db" "scan_queue db' = scan_queue db"
    "\<And>w. known_workspace db w \<Longrightarrow> known_workspace db' w"
  shows "queue_later db db'"
  using assms by (simp add: queue_later_def)

lemma queue_later_pair:
  assumes "job_move f" "queue_move g"
    and "\<And>r. row_of sj_id (scan_jobs db) j = Some r \<Longrightarrow> job_persists r (f r)"
    and "\<And>q. row_of q_job_id (scan_queue db) j = Some q \<Longrightarrow> row_persists q (g q)"
  shows "queue_later db (pair_update j f g db)"
  using assms(3,4) by (simp add: queue_later_def pair_update_rows [OF assms(1,2)])

lemma moves_persist:
  "sj_status r = Queued \<Longrightarrow> job_persists r (start_job now r)"
  "sj_status r = Running \<Longrightarrow> job_persists r (finish_job s now n m r)"
  "sj_status r = Running \<Longrightarrow> job_persists r (r\<lparr>sj_status := Queued\<rparr>)"
  "sj_status job = Queued \<longrightarrow> sj_status r = Queued \<Longrightarrow> job_persists r (cancel_job_row now job r)"
  "sj_status r = Running \<Longrightarrow> job_persists r (recover_job_row now q job r)"
  "row_persists q (lease_row worker expires now q)" "row_persists q (clear_lease q)"
  "row_persists q (clear_lease q\<lparr>q_next_attempt_at := t\<rparr>)"
  "row_persists q (cancel_queue_row job x q)" "row_persists q (recover_queue_row now x q)"
  "row_persists q (q\<lparr>q_lease_expires_at := e, q_last_heartbeat_at := h\<rparr>)"
  by (auto simp: job_persists_def row_persists_def start_job_def finish_job_def cancel_job_row_def
      recover_job_row_def lease_row_def clear_lease_def cancel_queue_row_def recover_queue_row_def
      Let_def flush_def)

lemma leave_tx_later:
  assumes "queue_ok db" "leave_tx f g j worker db = (True, db')" "job_move f" "queue_move g"
    and "\<And>r. sj_status r = Running \<Longrightarrow> job_persists r (f r)" "\<And>q. row_persists q (g q)"
  shows "queue_later db db'"
  using leave_tx_True [OF assms(1,2)]
  by (metis assms(3-6) option.inject queue_later_pair)

lemma queue_step_later:
  assumes "queue_step limit s s'" "queue_inv limit s"
  shows "queue_later (fst s) (fst s')"
  using assms
proof (induction rule: queue_step.induct)
  case (ensure w now db db' p)
  from ensure_effect [OF ensure.hyps queue_ok_keyed(3) [OF queue_invD(1) [OF ensure.prems]]]
  show ?case by (auto intro!: queue_later_same simp: known_workspace_def)
next
  case (taken w now db db' p)
  then have "db' = snd (take_slot w limit now db)" by simp
  then show ?case by (auto intro!: queue_later_same simp: known_workspace_def slot_tables)
next
  case (refused w now db db' p)
  then have "db' = snd (take_slot w limit now db)" by simp
  then show ?case by (auto intro!: queue_later_same simp: known_workspace_def slot_tables)
next
  case (dropped p w db now)
  show ?case by (auto intro!: queue_later_same simp: known_workspace_def slot_tables)
next
  case (created db i w p now a k)
  show ?case by (auto simp: queue_later_def known_workspace_def row_of_append)
next
  case (enqueued db j m p now)
  show ?case by (auto simp: queue_later_def known_workspace_def row_of_append)
next
  case (claimed worker expires now j db db' job p)
  note D = queue_invD [OF claimed.prems]
  from claim_tx_True [OF D(1) claimed.hyps(1)] show ?case
    by (metis fst_conv job_moves(1) moves_persist(1,6) option.inject queue_later_pair queue_moves(1))
next
  case (beat db j q p expires now)
  show ?case by (auto intro!: queue_later_pair moves_persist simp: job_move_def queue_move_def)
next
  case (finished s now n m j worker db db' job p)
  then show ?case
    unfolding finish_tx_def fst_conv
    by (intro leave_tx_later [OF queue_invD(1) [OF finished.prems]]) (auto intro: moves_persist)
next
  case (retried t j worker db db' job p)
  then show ?case
    unfolding retry_tx_def fst_conv
    by (intro leave_tx_later [OF queue_invD(1) [OF retried.prems]]) (auto intro: moves_persist)
next
  case (canceled db j r x job p now q)
  then show ?case by (auto intro!: queue_later_pair intro: moves_persist)
next
  case (recovered db j r x job q p now)
  from recovered.hyps show ?case
    unfolding fst_conv recover_row_pair [OF recovered.hyps(5,4)]
    by (auto intro!: queue_later_pair intro: moves_persist)
next
  case (others db' db p)
  then show ?case by (auto intro: queue_later_same)
qed

lemma queue_steps_later: "(queue_step limit)\<^sup>*\<^sup>* s s' \<Longrightarrow> queue_inv limit s \<Longrightarrow> queue_later (fst s) (fst s')"
  by (rule queue.steps_relate [where R = "\<lambda>s s'. queue_later (fst s) (fst s')"])
     (auto intro: queue_later_trans queue_step_later)

section \<open>Interference\<close>

abbreviation runs ::
  "int \<Rightarrow> 'x queue_db_scheme \<times> (string \<Rightarrow> nat) \<Rightarrow> 'x queue_db_scheme \<times> (string \<Rightarrow> nat) \<Rightarrow> bool" where
  "runs limit \<equiv> (queue_step limit)\<^sup>*\<^sup>*"

text \<open>The others run transactions and hold as many slots after the interruption as before it.\<close>

definition queue_rely :: "int \<Rightarrow> ('x queue_db_scheme \<Rightarrow> 'x queue_db_scheme) \<Rightarrow> bool" where
  "queue_rely limit env = (\<forall>d p. queue_inv limit (d, p) \<longrightarrow> runs limit (d, p) (env d, p))"

lemma queue_rely_id [simp]: "queue_rely limit id" "queue_rely limit (\<lambda>d. d)"
  by (simp_all add: queue_rely_def)

text \<open>A run from a good state, and the way runs are put together.\<close>

definition good_run ::
  "int \<Rightarrow> 'x queue_db_scheme \<times> (string \<Rightarrow> nat) \<Rightarrow> 'x queue_db_scheme \<times> (string \<Rightarrow> nat) \<Rightarrow> bool" where
  "good_run limit s s' = (queue_inv limit s \<and> runs limit s s')"

lemma good_run_end: "good_run limit s s' \<Longrightarrow> queue_inv limit s'"
  by (auto simp: good_run_def intro: queue.steps_inv)

lemma good_run_refl: "queue_inv limit s \<Longrightarrow> good_run limit s s"
  by (simp add: good_run_def)

lemma good_run_trans: "good_run limit s s' \<Longrightarrow> runs limit s' s'' \<Longrightarrow> good_run limit s s''"
  by (auto simp: good_run_def)

lemma good_run_step: "good_run limit s s' \<Longrightarrow> queue_step limit s' s'' \<Longrightarrow> good_run limit s s''"
  by (auto simp: good_run_def)

lemma good_run_env: "good_run limit s (d, p) \<Longrightarrow> queue_rely limit env \<Longrightarrow> good_run limit s (env d, p)"
  using good_run_end good_run_trans unfolding queue_rely_def by blast

lemma good_run_later: "good_run limit s s' \<Longrightarrow> queue_later (fst s) (fst s')"
  unfolding good_run_def by (blast intro: queue_steps_later)

lemma good_run_known:
  "good_run limit (d, p) (d', p') \<Longrightarrow> known_workspace d w \<Longrightarrow> known_workspace d' w"
  using good_run_later by (fastforce simp: queue_later_def)

section \<open>Capacity\<close>

text \<open>Outcomes of a piece of an operation that starts in \<open>s\<close>.\<close>

lemma ensure_run:
  assumes run: "good_run limit s (db, p)" and env: "queue_rely limit env"
    and res: "ensure_workspace_runtime env w now db = (r, db')"
  shows "good_run limit s (db', p)" "r = Inr () \<Longrightarrow> known_workspace db' w"
    "known_workspace db w \<Longrightarrow> r = Inr ()"
proof -
  note run' = good_run_env [OF run env]
  have known: "known_workspace db w \<Longrightarrow> known_workspace (env db) w"
    using good_run_known [OF good_run_env [OF good_run_refl [OF good_run_end [OF run]] env]] .
  have *: "good_run limit s (db', p) \<and> (r = Inr () \<longrightarrow> known_workspace db' w) \<and>
      (known_workspace db w \<longrightarrow> r = Inr ())"
  proof (cases "known_workspace db w \<and> row_of wr_workspace_id (runtimes db) w = None")
    case False
    then show ?thesis
      using res run by (auto simp: ensure_workspace_runtime_def known_workspace_def split: if_splits)
  next
    case True
    then obtain x where x: "row_of ws_id (workspaces db) w = Some x"
      by (auto simp: known_workspace_def)
    obtain y where y: "row_of ws_id (workspaces (env db)) w = Some y"
      using known True by (auto simp: known_workspace_def)
    let ?new = "\<lparr>wr_workspace_id = w, wr_active_scans = 0, wr_updated_at = now\<rparr>"
    have "insert_row (\<lambda>x y. wr_workspace_id x = wr_workspace_id y) ?new (runtimes (env db)) = None \<longleftrightarrow>
        row_of wr_workspace_id (runtimes (env db)) w \<noteq> None"
      by (simp add: insert_row_key_None)
    then have eq: "ensure_workspace_runtime id w now (env db) = (r, db')" and r: "r = Inr ()"
      using res True x y
      by (auto simp: ensure_workspace_runtime_def Let_def split: option.splits)
    have "queue_step limit (env db, p) (db', p)"
      by (rule queue_step.ensure) (use eq r in simp)
    from good_run_step [OF run' this] r show ?thesis
      using ensure_effect(7,5) [OF eq [unfolded r]] queue_ok_keyed(3) [OF queue_invD(1) [OF good_run_end [OF run']]]
      by (simp add: known_workspace_def)
  qed
  then show "good_run limit s (db', p)" "r = Inr () \<Longrightarrow> known_workspace db' w"
    "known_workspace db w \<Longrightarrow> r = Inr ()" by blast+
qed

lemma acquire_run:
  assumes run: "good_run limit s (db, p)" and env: "\<And>n. queue_rely limit (env n)"
    and res: "acquire_scan_slot env w limit now db = (r, db')"
  shows "good_run limit s (db', if r = Inr True then p(w := p w + 1) else p)"
proof (cases "limit < 1")
  case True
  with res run show ?thesis by (auto simp: acquire_scan_slot_def)
next
  case False
  obtain u db1 where e: "ensure_workspace_runtime (env 0) w now db = (u, db1)"
    by (cases "ensure_workspace_runtime (env 0) w now db")
  note e' = ensure_run [OF run env [of 0] e]
  note run1 = good_run_env [OF e'(1) env [of 1]]
  show ?thesis
  proof (cases u)
    case (Inl x)
    with e res False e'(1) show ?thesis by (auto simp: acquire_scan_slot_def)
  next
    case (Inr x)
    have known: "known_workspace (env 1 db1) w"
      using good_run_known [OF good_run_env [OF good_run_refl [OF good_run_end [OF e'(1)]] env [of 1]]]
        e'(2) Inr by simp
    obtain b db2 where t: "take_slot w limit now (env 1 db1) = (b, db2)"
      by (cases "take_slot w limit now (env 1 db1)")
    with e res False Inr have "r = Inr b" "db' = db2" by (auto simp: acquire_scan_slot_def)
    then show ?thesis
      using good_run_step [OF run1 queue_step.taken [OF _ known]]
        good_run_step [OF run1 queue_step.refused] t
      by (cases b) auto
  qed
qed

lemma release_run:
  assumes run: "good_run limit s (db, p)" and env: "\<And>n. queue_rely limit (env n)" and p: "0 < p w"
    and res: "release_scan_slot env w now db = (r, db')"
  shows "good_run limit s (db', p(w := p w - 1))" "r = Inr ()"
proof -
  have known: "known_workspace db w" using queue_invD(5) [OF good_run_end [OF run] p] .
  obtain u db1 where e: "ensure_workspace_runtime (env 0) w now db = (u, db1)"
    by (cases "ensure_workspace_runtime (env 0) w now db")
  note e' = ensure_run [OF run env [of 0] e]
  have u: "u = Inr ()" using e'(3) known by simp
  with e res have "r = Inr ()" "db' = drop_slot w now (env 1 db1)"
    by (auto simp: release_scan_slot_def)
  with good_run_step [OF good_run_env [OF e'(1) env [of 1]] queue_step.dropped [of p w]] p
  show "good_run limit s (db', p(w := p w - 1))" "r = Inr ()" by simp_all
qed

section \<open>Claiming\<close>

text \<open>The candidates name existing jobs with their workspace, also later.\<close>

definition names_jobs :: "(string \<times> string) list \<Rightarrow> 'x queue_db_scheme \<Rightarrow> bool" where
  "names_jobs cs db =
     (\<forall>(j, w) \<in> set cs. \<exists>r. row_of sj_id (scan_jobs db) j = Some r \<and> sj_workspace_id r = w)"

lemma names_jobs_later: "names_jobs cs db \<Longrightarrow> queue_later db db' \<Longrightarrow> names_jobs cs db'"
  unfolding names_jobs_def queue_later_def job_persists_def by (fastforce split: prod.splits)

lemma names_jobs_run: "names_jobs cs d \<Longrightarrow> good_run limit (d, p) (d', p') \<Longrightarrow> names_jobs cs d'"
  by (rule names_jobs_later, assumption) (use good_run_later in fastforce)

lemma eligible_iff:
  "(q, j) \<in> set (eligible now db) \<longleftrightarrow>
     q \<in> set (scan_queue db) \<and> j \<in> set (scan_jobs db) \<and> sj_id j = q_job_id q \<and>
     sj_status j = Queued \<and> claimable now q"
  by (auto simp: eligible_def)

lemma set_candidates:
  "(j, w) \<in> set (candidates now db) \<Longrightarrow>
     \<exists>q r. (q, r) \<in> set (eligible now db) \<and> j = q_job_id q \<and> w = sj_workspace_id r"
  by (auto simp: candidates_def dest!: in_set_takeD) blast

lemma candidates_name_jobs:
  assumes "queue_ok db"
  shows "names_jobs (candidates now db) db"
proof -
  have "row_of sj_id (scan_jobs db) (q_job_id q) = Some r" if "(q, r) \<in> set (eligible now db)" for q r
    using row_of_member [OF queue_ok_keyed(1) [OF assms], of r] that by (simp add: eligible_iff)
  then show ?thesis
    unfolding names_jobs_def using set_candidates by blast
qed

lemma claim_candidates_run:
  assumes "good_run limit s (db, p)" and env: "\<And>i n. queue_rely limit (env i n)" and "names_jobs cs db"
  shows "good_run limit s (snd (claim_candidates env fault True worker expires limit now i cs db), p)"
  using assms(1,3)
proof (induction cs arbitrary: i db)
  case Nil
  then show ?case by simp
next
  case (Cons c cs)
  obtain j w where c: "c = (j, w)" by (cases c)
  obtain r db1 where acq: "acquire_scan_slot (env i) w limit now db = (r, db1)"
    by (cases "acquire_scan_slot (env i) w limit now db")
  note run1 = acquire_run [OF Cons.prems(1) env acq]
  note start = good_run_refl [OF good_run_end [OF Cons.prems(1)]]
  have names1: "names_jobs (c # cs) db1"
    using names_jobs_run [OF Cons.prems(2) acquire_run [OF start env acq]] .
  then have names1': "names_jobs cs db1" by (simp add: names_jobs_def)
  consider (err) e where "r = Inl e" | (no) "r = Inr False" | (yes) "r = Inr True" by (cases r) auto
  then show ?case
  proof cases
    case err
    with acq run1 show ?thesis by (simp add: c)
  next
    case no
    with acq run1 Cons.IH [OF _ names1'] show ?thesis by (simp add: c)
  next
    case yes
    let ?p = "p(w := p w + 1)" and ?db2 = "env i 2 db1"
    have run2: "good_run limit s (?db2, ?p)"
      using good_run_env [OF run1 env] yes by simp
    have names2: "names_jobs (c # cs) ?db2"
      using names_jobs_run [OF names1 good_run_env [OF good_run_refl [OF good_run_end [OF run1]] env]] .
    then have names2': "names_jobs cs ?db2" by (simp add: names_jobs_def)
    obtain u db3 where rel: "release_scan_slot (\<lambda>n. env i (3 + n)) w now ?db2 = (u, db3)"
      by (cases "release_scan_slot (\<lambda>n. env i (3 + n)) w now ?db2")
    have rel': "good_run limit s (db3, p)" "u = Inr ()"
      using release_run [OF run2 env _ rel] by simp_all
    have names3: "names_jobs cs db3"
      using names_jobs_run [OF names2' release_run(1) [OF good_run_refl [OF good_run_end [OF run2]] env _ rel]]
      by simp
    show ?thesis
    proof (cases "fault i")
      case (Some e)
      with yes acq rel rel' show ?thesis by (simp add: c release_capacity_def Let_def)
    next
      case None
      obtain b db4 where tx: "claim_tx worker expires now j ?db2 = (b, db4)"
        by (cases "claim_tx worker expires now j ?db2")
      show ?thesis
      proof (cases b)
        case False
        with None yes acq rel rel' tx Cons.IH [OF rel'(1) names3] show ?thesis
          by (simp add: c release_capacity_def Let_def)
      next
        case True
        obtain job where job: "row_of sj_id (scan_jobs ?db2) j = Some job" "sj_workspace_id job = w"
          using names2 by (auto simp: names_jobs_def c)
        have "queue_step limit (?db2, ?p) (db4, ?p(w := ?p w - 1))"
          using queue_step.claimed [of worker expires now j ?db2 db4 job ?p limit] tx True job by simp
        from good_run_step [OF run2 this] have run4: "good_run limit s (db4, p)" by simp
        have "good_run limit s (env i 4 (env i 3 db4), p)"
          by (rule good_run_env [OF good_run_env [OF run4 env] env])
        with None yes acq tx True show ?thesis
          by (simp add: c lease_from_job_id_def Let_def split: sum.split)
      qed
    qed
  qed
qed

lemma claim_next_run:
  assumes inv: "queue_inv limit (db, p)" and env: "\<And>i n. queue_rely limit (env i n)"
  shows "good_run limit (db, p) (snd (claim_next env fault True worker secs (Some limit) now db), p)"
  using claim_candidates_run [OF good_run_refl [OF inv] env candidates_name_jobs [OF queue_invD(1) [OF inv]]]
    good_run_refl [OF inv]
  by (simp add: claim_next_def)

section \<open>Holding and finishing a lease\<close>

lemma heartbeat_run:
  assumes inv: "queue_inv limit (db, p)" and env: "\<And>n. queue_rely limit (env n)"
  shows "good_run limit (db, p) (snd (heartbeat env j worker secs now db), p)"
proof -
  note start = good_run_refl [OF inv] and D = queue_invD [OF inv]
  let ?guard = "\<lambda>r. q_job_id r = j \<and> q_lease_owner r = Some worker \<and> \<not> q_cancel_requested r"
  let ?f = "\<lambda>r. r\<lparr>q_lease_expires_at := Some (now + seconds secs), q_last_heartbeat_at := Some now\<rparr>"
  show ?thesis
  proof (cases "5 \<le> secs \<and> secs \<le> 3600 \<and> count_where ?guard (scan_queue db) = 1")
    case False
    with start show ?thesis by (auto simp: heartbeat_def Let_def)
  next
    case True
    then obtain q where q: "row_of q_job_id (scan_queue db) j = Some q" "q_lease_owner q = Some worker"
        "\<not> q_cancel_requested q"
      using count_where_one [OF queue_ok_keyed(2) [OF D(1)], of j
          "\<lambda>r. q_lease_owner r = Some worker \<and> \<not> q_cancel_requested r"] by auto
    have "update_where ?guard ?f (scan_queue db) = update_where (\<lambda>r. q_job_id r = j) ?f (scan_queue db)"
      by (rule update_where_matches [OF queue_ok_keyed(2) [OF D(1)] q(1)]) (simp add: q)
    moreover have "update_where (\<lambda>r. sj_id r = j) id (scan_jobs db) = scan_jobs db"
      by (simp add: update_where_def map_idI)
    ultimately have "db\<lparr>scan_queue := update_where ?guard ?f (scan_queue db)\<rparr> = pair_update j id ?f db"
      by (simp add: pair_update_def)
    moreover have "queue_step limit (db, p) (pair_update j id ?f db, p)"
      by (rule queue_step.beat [OF q(1)]) (simp add: q)
    ultimately have "good_run limit (db, p) (db\<lparr>scan_queue := update_where ?guard ?f (scan_queue db)\<rparr>, p)"
      using good_run_step [OF start] by simp
    from good_run_env [OF good_run_env [OF this env] env, of 1 0] True show ?thesis
      by (simp add: heartbeat_def Let_def lease_from_job_id_def)
  qed
qed

text \<open>The transaction that leaves a job, the release and the reload.\<close>

lemma left_run:
  assumes run: "good_run limit s (db1, p(w := p w + 1))" and env: "\<And>n. queue_rely limit (env n)"
  shows "good_run limit s (snd (reload_job j gone
    (release_capacity True (\<lambda>n. env (k + n)) w now (env 0 db1)) (env m)), p)"
proof -
  note run0 = good_run_env [OF run env [of 0]]
  obtain u db2 where rel: "release_scan_slot (\<lambda>n. env (k + n)) w now (env 0 db1) = (u, db2)"
    by (cases "release_scan_slot (\<lambda>n. env (k + n)) w now (env 0 db1)")
  note rel' = release_run [OF run0 env _ rel]
  have "good_run limit s (env m db2, p)"
    using good_run_env [OF rel'(1) env] by simp
  with rel' rel show ?thesis
    by (simp add: reload_job_def release_capacity_def Let_def)
qed

lemma finish_run:
  assumes run: "good_run limit s (db, p)" and env: "\<And>n. queue_rely limit (env n)" and n: "0 \<le> n"
  shows "good_run limit s (snd (finish True env j worker status n m now db), p)"
proof (cases "status \<in> set [Succeeded, Failed, Canceled] \<and> row_of sj_id (scan_jobs db) j \<noteq> None")
  case False
  with run show ?thesis by (auto simp: finish_def split: option.split)
next
  case True
  then obtain job where job: "row_of sj_id (scan_jobs db) j = Some job" by blast
  obtain b db1 where tx: "finish_tx status now n m j worker db = (b, db1)"
    by (cases "finish_tx status now n m j worker db")
  show ?thesis
  proof (cases b)
    case False
    with True job tx run show ?thesis by (simp add: finish_def)
  next
    case b: True
    have "queue_step limit (db, p) (db1, p(sj_workspace_id job := p (sj_workspace_id job) + 1))"
      by (rule queue_step.finished [OF _ _ n job]) (use tx b True in auto)
    from left_run [OF good_run_step [OF run this] env, where k = 1 and m = 3] True job tx b show ?thesis
      by (simp add: finish_def)
  qed
qed

lemma fail_scan_run:
  assumes inv: "queue_inv limit (db, p)" and env: "\<And>n. queue_rely limit (env n)"
  shows "good_run limit (db, p) (snd (fail_scan True env j worker m retryable backoff now db), p)"
proof -
  note start = good_run_refl [OF inv]
  note run0 = good_run_env [OF start env [of 0]]
  show ?thesis
  proof (cases "\<exists>state. 0 \<le> backoff \<and> get_state j db = Inr (Some state) \<and> q_lease_owner state = Some worker")
    case False
    with start show ?thesis by (auto simp: fail_scan_def split: sum.split option.split)
  next
    case True
    then obtain state where st: "0 \<le> backoff" "get_state j db = Inr (Some state)"
        "q_lease_owner state = Some worker" by blast
    show ?thesis
    proof (cases "retryable \<and> q_attempts state < q_max_attempts state")
      case False
      with st finish_run [OF run0, of "\<lambda>n. env (1 + n)" 0] env show ?thesis
        by (auto simp: fail_scan_def Let_def)
    next
      case retry: True
      obtain b db1 where tx: "retry_tx (now + seconds backoff) j worker (env 0 db) = (b, db1)"
        by (cases "retry_tx (now + seconds backoff) j worker (env 0 db)")
      show ?thesis
      proof (cases "b \<and> row_of sj_id (scan_jobs (env 0 db)) j \<noteq> None")
        case False
        with st retry tx run0 show ?thesis by (auto simp: fail_scan_def Let_def split: option.split)
      next
        case b: True
        then obtain job where job: "row_of sj_id (scan_jobs (env 0 db)) j = Some job" by blast
        have "queue_step limit (env 0 db, p)
            (db1, p(sj_workspace_id job := p (sj_workspace_id job) + 1))"
          by (rule queue_step.retried [OF _ job]) (use tx b in auto)
        from left_run [OF good_run_step [OF run0 this], of "\<lambda>n. env (1 + n)", where k = 1 and m = 3]
          env st retry tx b job show ?thesis
          by (simp add: fail_scan_def Let_def)
      qed
    qed
  qed
qed

section \<open>Cancellation, recovery and enqueueing\<close>

text \<open>
  Cancellation and recovery read rows, and write them after others committed (\<open>mid\<close>). They are runs of
  the queue unless a job changes its status in between: a queued job that is started or canceled before the
  cancellation is written, a running one that is finished or requeued before the recovery is.
\<close>

definition in_status :: "scan_status \<Rightarrow> 'x queue_db_scheme \<Rightarrow> string \<Rightarrow> bool" where
  "in_status st db j \<longleftrightarrow> (\<exists>r. row_of sj_id (scan_jobs db) j = Some r \<and> sj_status r = st)"

definition steady :: "scan_status \<Rightarrow> string set \<Rightarrow> 'x queue_db_scheme \<Rightarrow> 'x queue_db_scheme \<Rightarrow> bool" where
  "steady st J d d' \<longleftrightarrow> (\<forall>j \<in> J. in_status st d j \<longrightarrow> in_status st d' j)"

lemma steady_refl [simp]: "steady st J d d"
  by (simp add: steady_def)

lemma request_cancel_run:
  assumes inv: "queue_inv limit (db, p)" and mid: "queue_rely limit mid" "steady Queued {j} db (mid db)"
    and env: "queue_rely limit env"
  shows "good_run limit (db, p) (snd (request_cancel mid env j now db), p)"
proof -
  note start = good_run_refl [OF inv] and run = good_run_env [OF good_run_refl [OF inv] mid(1)]
  show ?thesis
  proof (cases "\<exists>job q. row_of sj_id (scan_jobs db) j = Some job \<and>
      row_of q_job_id (scan_queue db) j = Some q \<and> sj_status job \<in> {Queued, Running}")
    case True
    then obtain job q where rows: "row_of sj_id (scan_jobs db) j = Some job"
        "row_of q_job_id (scan_queue db) j = Some q" "sj_status job \<in> {Queued, Running}" by blast
    have "queue_later db (mid db)" using good_run_later [OF run] by simp
    then obtain r x where now: "row_of sj_id (scan_jobs (mid db)) j = Some r" "row_of q_job_id (scan_queue (mid db)) j = Some x"
      using rows unfolding queue_later_def by blast
    have "sj_status job = Queued \<longrightarrow> sj_status r = Queued"
      using mid(2) rows(1) now(1) by (auto simp: steady_def in_status_def)
    from good_run_step [OF run queue_step.canceled [OF now rows(3) this]]
    have "good_run limit (db, p) (pair_update j (cancel_job_row now job) (cancel_queue_row job q) (mid db), p)" .
    moreover have "pair_update j (cancel_job_row now job) (cancel_queue_row job q) (mid db) =
        (mid db)\<lparr>scan_queue := update_where (\<lambda>r. q_job_id r = j) (cancel_queue_row job q) (scan_queue (mid db)),
           scan_jobs := update_where (\<lambda>r. sj_id r = j) (cancel_job_row now job) (scan_jobs (mid db))\<rparr>"
      by (simp add: pair_update_def)
    moreover have "sj_status job \<notin> set [Succeeded, Failed, Canceled]" using rows(3) by auto
    ultimately show ?thesis
      using good_run_env [OF _ env] rows(1,2) by (simp add: request_cancel_def reload_job_def Let_def)
  next
    case False
    have "sj_status job \<in> set [Succeeded, Failed, Canceled]"
      if "row_of sj_id (scan_jobs db) j = Some job" "row_of q_job_id (scan_queue db) j = Some q" for job q
      using False that by (cases "sj_status job") auto
    then have "snd (request_cancel mid env j now db) = db"
      by (simp add: request_cancel_def split: option.split)
    with start show ?thesis by simp
  qed
qed

text \<open>A join on the primary key of the second table finds at most one partner.\<close>

lemma join_row:
  assumes "keyed key t"
  shows "concat (map (\<lambda>r. if key r = k \<and> P r then [f r] else []) t) =
    (case row_of key t k of None \<Rightarrow> [] | Some r \<Rightarrow> if P r then [f r] else [])"
  using assms
proof (induction t)
  case (Cons a t)
  show ?case
  proof (cases "key a = k")
    case True
    with Cons.prems have "row_of key t k = None"
      by (auto simp: keyed_def row_of_None intro: rev_image_eqI)
    with Cons True show ?thesis by (simp add: row_of_Cons keyed_def)
  next
    case False
    with Cons show ?thesis by (simp add: row_of_Cons keyed_def)
  qed
qed simp

definition lease_over :: "time \<Rightarrow> queue_row \<Rightarrow> bool" where
  "lease_over now q = (case q_lease_expires_at q of None \<Rightarrow> False | Some t \<Rightarrow> t \<le> now)"

lemma expired_join:
  assumes "keyed sj_id (scan_jobs db)"
  shows "expired now db = concat (map (\<lambda>q. case row_of sj_id (scan_jobs db) (q_job_id q) of None \<Rightarrow> []
      | Some j \<Rightarrow> if sj_status j = Running \<and> lease_over now q then [(q, j)] else []) (scan_queue db))"
  unfolding expired_def lease_over_def [symmetric]
  by (simp add: join_row [OF assms, where P = "\<lambda>j. sj_status j = Running \<and> lease_over now q" for q])

lemma set_expired:
  assumes "queue_ok db" "(q, j) \<in> set (expired now db)"
  shows "row_of sj_id (scan_jobs db) (q_job_id q) = Some j"
    "row_of q_job_id (scan_queue db) (q_job_id q) = Some q" "sj_status j = Running" "lease_over now q"
  using assms(2) row_of_member [OF queue_ok_keyed(2) [OF assms(1)]]
  by (auto simp: expired_join [OF queue_ok_keyed(1) [OF assms(1)]] split: option.splits if_splits)

lemma distinct_expired:
  assumes "queue_ok db"
  shows "distinct (map (\<lambda>(q, j). q_job_id q) (expired now db))"
proof -
  have "distinct (map (\<lambda>(q, j). q_job_id q) (concat (map (\<lambda>q. case row_of sj_id t (q_job_id q) of None \<Rightarrow> []
      | Some j \<Rightarrow> if sj_status j = Running \<and> lease_over now q then [(q, j)] else []) qs)))"
    if "distinct (map q_job_id qs)" for t :: "scan_job tbl" and qs
    using that
    by (induction qs) (auto split: option.splits if_splits simp: rev_image_eqI)
  with queue_ok_keyed [OF assms] show ?thesis by (simp add: expired_join keyed_def)
qed

definition held :: "(string \<Rightarrow> nat) \<Rightarrow> string list \<Rightarrow> string \<Rightarrow> nat" where
  "held p ws = (\<lambda>w. p w + count_list ws w)"

lemma held_simps [simp]: "held p [] = p" "held p (w # ws) = held (p(w := p w + 1)) ws"
  by (auto simp: held_def fun_eq_iff)

lemma recover_rows_run:
  assumes "good_run limit s (db, p)"
    and "\<forall>(q, j) \<in> set rows. sj_id j = q_job_id q \<and> sj_status j = Running \<and> q_lease_owner q \<noteq> None \<and> q_lease_expires_at q \<noteq> None \<and>
      (\<exists>r. row_of sj_id (scan_jobs db) (q_job_id q) = Some r \<and> sj_status r = Running \<and> sj_workspace_id r = sj_workspace_id j) \<and>
      row_of q_job_id (scan_queue db) (q_job_id q) \<noteq> None"
    and "distinct (map (\<lambda>(q, j). q_job_id q) rows)"
  shows "good_run limit s (fold (recover_row now) rows db, held p (map (\<lambda>(q, j). sj_workspace_id j) rows))"
  using assms
proof (induction rows arbitrary: db p)
  case (Cons e rows)
  obtain q j where e: "e = (q, j)" by (cases e)
  obtain r x where rows: "row_of sj_id (scan_jobs db) (q_job_id q) = Some r" "sj_workspace_id r = sj_workspace_id j"
      "row_of q_job_id (scan_queue db) (q_job_id q) = Some x" "sj_status r = Running"
    and read: "sj_id j = q_job_id q" "sj_status j = Running" "q_lease_owner q \<noteq> None" "q_lease_expires_at q \<noteq> None"
    using Cons.prems(2) by (auto simp: e)
  let ?db = "recover_row now (q, j) db"
  have run: "good_run limit s (?db, p(sj_workspace_id j := p (sj_workspace_id j) + 1))"
    using good_run_step [OF Cons.prems(1) queue_step.recovered [OF rows(1,3,4) read(1) refl read(2-4)]] by (simp add: rows(2))
  have "\<forall>(q', j') \<in> set rows. sj_id j' = q_job_id q' \<and> sj_status j' = Running \<and> q_lease_owner q' \<noteq> None \<and> q_lease_expires_at q' \<noteq> None \<and>
      (\<exists>r. row_of sj_id (scan_jobs ?db) (q_job_id q') = Some r \<and> sj_status r = Running \<and> sj_workspace_id r = sj_workspace_id j') \<and>
      row_of q_job_id (scan_queue ?db) (q_job_id q') \<noteq> None"
  proof (intro ballI, clarify)
    fix q' j' assume m: "(q', j') \<in> set rows"
    have "q_job_id q' \<noteq> q_job_id q"
      using Cons.prems(3) m by (force simp: e)
    then show "sj_id j' = q_job_id q' \<and> sj_status j' = Running \<and> q_lease_owner q' \<noteq> None \<and> q_lease_expires_at q' \<noteq> None \<and>
      (\<exists>r. row_of sj_id (scan_jobs ?db) (q_job_id q') = Some r \<and> sj_status r = Running \<and> sj_workspace_id r = sj_workspace_id j') \<and>
      row_of q_job_id (scan_queue ?db) (q_job_id q') \<noteq> None"
      using Cons.prems(2) m by (auto simp: e recover_row_pair [OF refl read(1)] pair_update_rows)
  qed
  from Cons.IH [OF run this] Cons.prems(3) show ?case by (simp add: e fun_upd_def)
qed simp

lemma release_all_run:
  assumes "good_run limit s (db, held p ws)" and env: "\<And>i n. queue_rely limit (env i n)"
  shows "good_run limit s (snd (release_all True env now i ws db), p) \<and>
    fst (release_all True env now i ws db) = Inr ()"
  using assms(1)
proof (induction ws arbitrary: i db)
  case (Cons w ws)
  have held: "held p (w # ws) w > 0" "(held p (w # ws))(w := held p (w # ws) w - 1) = held p ws"
    by (auto simp: held_def fun_eq_iff)
  obtain u db1 where rel: "release_scan_slot (env i) w now (env i 2 db) = (u, db1)"
    by (cases "release_scan_slot (env i) w now (env i 2 db)")
  from release_run [OF good_run_env [OF Cons.prems env] env held(1) rel]
  have "good_run limit s (db1, held p ws)" "u = Inr ()" by (simp_all only: held(2))
  with Cons.IH [of db1] rel show ?case by (simp add: release_capacity_def)
qed simp

abbreviation expired_ids :: "time \<Rightarrow> 'x queue_db_scheme \<Rightarrow> string set" where
  "expired_ids now db \<equiv> q_job_id ` fst ` set (expired now db)"

lemma recovered_run:
  assumes inv: "queue_inv limit (db, p)" and mid: "queue_rely limit mid" "steady Running (expired_ids now db) db (mid db)"
  shows "good_run limit (db, p) (fold (recover_row now) (expired now db) (mid db),
      held p (map (\<lambda>(q, j). sj_workspace_id j) (expired now db)))"
proof -
  note D = queue_invD [OF inv] and run = good_run_env [OF good_run_refl [OF inv] mid(1)]
  let ?rows = "expired now db"
  have later: "queue_later db (mid db)" using good_run_later [OF run] by simp
  have "sj_id j = q_job_id q \<and> sj_status j = Running \<and> q_lease_owner q \<noteq> None \<and> q_lease_expires_at q \<noteq> None \<and>
      (\<exists>r. row_of sj_id (scan_jobs (mid db)) (q_job_id q) = Some r \<and> sj_status r = Running \<and> sj_workspace_id r = sj_workspace_id j) \<and>
      row_of q_job_id (scan_queue (mid db)) (q_job_id q) \<noteq> None"
    if m: "(q, j) \<in> set ?rows" for q j
  proof -
    note e = set_expired [OF D(1) m]
    have ok: "row_ok q j" using queue_ok_row [OF D(1) e(2)] e(1) by (metis option.inject)
    have "in_status Running (mid db) (q_job_id q)"
      using mid(2) e(1,3) m unfolding steady_def in_status_def by (metis fst_conv image_eqI)
    moreover obtain r where "row_of sj_id (scan_jobs (mid db)) (q_job_id q) = Some r" "job_persists j r"
      using later e(1) unfolding queue_later_def by blast
    moreover have "row_of q_job_id (scan_queue (mid db)) (q_job_id q) \<noteq> None"
      using later e(2) unfolding queue_later_def by blast
    moreover have "q_lease_expires_at q \<noteq> None" using e(4) by (auto simp: lease_over_def split: option.splits)
    ultimately show ?thesis
      using ok e(3) row_of_SomeD [OF e(1)] by (auto simp: row_ok_def in_status_def job_persists_def)
  qed
  then show ?thesis by (intro recover_rows_run [OF run _ distinct_expired [OF D(1)]]) blast
qed

lemma recover_expired_leases_run:
  assumes inv: "queue_inv limit (db, p)" and mid: "queue_rely limit mid" "steady Running (expired_ids now db) db (mid db)"
    and env: "\<And>i n. queue_rely limit (env i n)"
  shows "good_run limit (db, p) (snd (recover_expired_leases True mid env now db), p)"
proof -
  from release_all_run [OF recovered_run [OF inv mid] env, THEN conjunct1] show ?thesis
    by (simp add: recover_expired_leases_def Let_def case_prod_unfold split: sum.split prod.split)
qed

lemma get_asset_known:
  assumes "queue_ok db" "get_asset w a db = Inr (Some x)"
  shows "known_workspace db w"
proof -
  have "first_where (\<lambda>r. ma_workspace_id r = w \<and> ma_id r = a) (managed_assets db) \<noteq> None"
    using assms(2) by (auto simp: get_asset_def optional_row_def split: option.splits)
  then obtain r where "r \<in> set (managed_assets db)" "ma_workspace_id r = w"
    by (auto simp: first_where_def find_NoneD)
  with assms(1) show ?thesis by (auto simp: queue_ok_def)
qed

lemma create_scan_job_run:
  assumes run: "good_run limit s (db, p)" and env: "queue_rely limit env"
  shows "good_run limit s (snd (create_scan_job env i now w a k jid db), p)"
proof -
  let ?job = "new_job (case jid of None \<Rightarrow> i | Some j \<Rightarrow> j) now w a k"
  note inv = good_run_end [OF run] and run' = good_run_env [OF run env]
  show ?thesis
  proof (cases "\<exists>x. get_asset w a db = Inr (Some x) \<and> row_of sj_id (scan_jobs db) (sj_id ?job) = None")
    case False
    with run show ?thesis
      by (auto simp: create_scan_job_def Let_def split: sum.split option.split)
  next
    case True
    then obtain x where x: "get_asset w a db = Inr (Some x)" by blast
    have known: "known_workspace (env db) w"
      using good_run_known [OF good_run_env [OF good_run_refl [OF inv] env]]
        get_asset_known [OF queue_invD(1) [OF inv] x] .
    have "good_run limit s ((env db)\<lparr>scan_jobs := scan_jobs (env db) @ [?job]\<rparr>, p)"
      if "row_of sj_id (scan_jobs (env db)) (sj_id ?job) = None"
      using good_run_step [OF run' queue_step.created [OF _ known]] that by (simp add: new_job_def)
    with True x run' show ?thesis
      by (auto simp: create_scan_job_def Let_def insert_row_key split: option.split)
  qed
qed

lemma enqueue_run:
  assumes inv: "queue_inv limit (db, p)" and env: "\<And>n. queue_rely limit (env n)"
  shows "good_run limit (db, p) (snd (enqueue env i clock w a k m now jid db), p)"
proof -
  note start = good_run_refl [OF inv]
  obtain r db1 where cr: "create_scan_job (env 0) i clock w a k jid db = (r, db1)"
    by (cases "create_scan_job (env 0) i clock w a k jid db")
  have run1: "good_run limit (db, p) (db1, p)"
    using create_scan_job_run [OF start env, of 0 i clock w a k jid] cr by simp
  note run2 = good_run_env [OF run1 env [of 1]]
  note run3 = good_run_env [OF run2 env [of 2]]
  show ?thesis
  proof (cases "\<exists>job. 1 \<le> m \<and> m \<le> 20 \<and> r = Inr job")
    case False
    with start run1 cr show ?thesis by (auto simp: enqueue_def split: sum.splits)
  next
    case True
    then obtain job where job: "1 \<le> m" "m \<le> 20" "r = Inr job" by blast
    have "row_of sj_id (scan_jobs db1) (sj_id job) \<noteq> None"
      using create_scan_job_stored(1) cr job(3) by (metis option.distinct(1))
    moreover have "queue_later db1 (env 2 (env 1 db1))"
      using good_run_later [OF good_run_env [OF good_run_env [OF good_run_refl [OF good_run_end [OF run1]]
            env [of 1]] env [of 2]]] by simp
    ultimately have stored: "row_of sj_id (scan_jobs (env 2 (env 1 db1))) (sj_id job) \<noteq> None"
      unfolding queue_later_def by blast
    show ?thesis
    proof (cases "row_of q_job_id (scan_queue (env 1 db1)) (sj_id job)")
      case (Some x)
      with job cr run2 show ?thesis by (simp add: enqueue_def Let_def)
    next
      case None
      let ?db = "env 2 (env 1 db1)" and ?new = "new_queue_row (sj_id job) m now"
      have id: "q_job_id ?new = sj_id job" by (simp add: new_queue_row_def)
      show ?thesis
      proof (cases "row_of q_job_id (scan_queue ?db) (sj_id job)")
        case free: None
        have "insert_row (\<lambda>x y. q_job_id x = q_job_id y) ?new (scan_queue ?db) = Some (scan_queue ?db @ [?new])"
          using free by (simp add: insert_row_key id)
        moreover have "good_run limit (db, p) (?db\<lparr>scan_queue := scan_queue ?db @ [?new]\<rparr>, p)"
          by (rule good_run_step [OF run3 queue_step.enqueued [OF free stored job(1,2)]])
        ultimately show ?thesis using None job cr by (simp add: enqueue_def Let_def)
      next
        case (Some y)
        then have "insert_row (\<lambda>x y. q_job_id x = q_job_id y) ?new (scan_queue ?db) = None"
          by (simp add: insert_row_key_None id)
        with Some None job cr run3 show ?thesis by (simp add: enqueue_def Let_def)
      qed
    qed
  qed
qed

section \<open>The operations of the repository\<close>

text \<open>
  One call of a queue operation, under interference by transactions of other processes: at every point, also
  between the reads and the writes of cancellation and recovery, where the jobs read must keep the
  status (\<open>steady\<close>).
\<close>

inductive queue_call :: "int \<Rightarrow> 'x queue_db_scheme \<Rightarrow> 'x queue_db_scheme \<Rightarrow> bool" for limit where
  "(\<And>n. queue_rely limit (env n)) \<Longrightarrow> queue_call limit db (snd (enqueue env i clock w a k m now jid db))"
| "(\<And>i n. queue_rely limit (cenv i n)) \<Longrightarrow>
    queue_call limit db (snd (claim_next cenv fault True worker secs (Some limit) now db))"
| "(\<And>n. queue_rely limit (env n)) \<Longrightarrow> queue_call limit db (snd (heartbeat env j worker secs now db))"
| "(\<And>n. queue_rely limit (env n)) \<Longrightarrow> 0 \<le> c \<Longrightarrow>
    queue_call limit db (snd (complete_scan True env j worker c now db))"
| "(\<And>n. queue_rely limit (env n)) \<Longrightarrow>
    queue_call limit db (snd (fail_scan True env j worker msg retryable backoff now db))"
| "(\<And>n. queue_rely limit (env n)) \<Longrightarrow>
    queue_call limit db (snd (acknowledge_cancel True env j worker now db))"
| "queue_rely limit mid \<Longrightarrow> steady Queued {j} db (mid db) \<Longrightarrow> queue_rely limit rest \<Longrightarrow>
    queue_call limit db (snd (request_cancel mid rest j now db))"
| "queue_rely limit mid \<Longrightarrow> steady Running (expired_ids now db) db (mid db) \<Longrightarrow> (\<And>i n. queue_rely limit (cenv i n)) \<Longrightarrow>
    queue_call limit db (snd (recover_expired_leases True mid cenv now db))"
| "queue_rely limit rest \<Longrightarrow> queue_call limit db (rest db)"

lemma queue_call_run:
  assumes "queue_call limit db db'" "queue_inv limit (db, p)"
  shows "good_run limit (db, p) (db', p)"
  using assms
proof (induction rule: queue_call.induct)
  case (4 env c db j worker now)
  then show ?case
    unfolding complete_scan_def by (intro finish_run [OF good_run_refl]) auto
next
  case (6 env db j worker now)
  then show ?case
    unfolding acknowledge_cancel_def by (intro finish_run [OF good_run_refl]) auto
next
  case (9 rest db)
  then show ?case using good_run_env [OF good_run_refl] by blast
qed (auto intro: enqueue_run claim_next_run heartbeat_run fail_scan_run request_cancel_run
    recover_expired_leases_run)

lemma queue_calls_run:
  assumes "(queue_call limit)\<^sup>*\<^sup>* db db'" "queue_inv limit (db, p)"
  shows "good_run limit (db, p) (db', p)"
  using assms(1)
proof (induction rule: rtranclp_induct)
  case base
  show ?case by (rule good_run_refl) (rule assms(2))
next
  case (step b c)
  from queue_call_run [OF step.hyps(2) good_run_end [OF step.IH]] step.IH show ?case
    by (auto simp: good_run_def)
qed

end
