(* ===== verification/QueueProperties.thy ===== *)
theory QueueProperties
  imports QueueRefinement
begin

text \<open>
  What the scan queue promises: tenant concurrency limits, no leaked slot and final results in every
  interleaving that leaves the jobs of a pending cancellation or recovery in their status; fencing of
  lost leases, fair claiming and complete recovery of expired leases; and what the two read-then-write
  operations do in the interleavings left out.
\<close>

section \<open>Instances\<close>

definition sample_queue :: queue_db where
  "sample_queue =
     \<lparr>workspaces = workspaces sample_inventory, managed_assets = managed_assets sample_inventory,
      scan_jobs = [new_job ''j'' 5 ''w'' ''a'' ScTls], rate_buckets = [], runtimes = [],
      scan_queue = [new_queue_row ''j'' 3 5]\<rparr>"

lemma sample_queue_tables:
  "workspaces sample_queue = workspaces sample_inventory"
  "managed_assets sample_queue = managed_assets sample_inventory"
  "scan_jobs sample_queue = [new_job ''j'' 5 ''w'' ''a'' ScTls]"
  "rate_buckets sample_queue = []" "runtimes sample_queue = []"
  "scan_queue sample_queue = [new_queue_row ''j'' 3 5]"
  by (simp_all add: sample_queue_def)

lemma sample_queue_inv: "queue_inv 1 (sample_queue, \<lambda>_. 0)"
  by (simp add: queue_inv_def queue_ok_def slots_ok_def sample_queue_tables runtimes_ok_def keyed_def
      known_workspace_def active_scans_def running_jobs_def count_where_def sample_inventory_def
      row_of_Cons row_ok_def new_queue_row_def new_job_def)

definition sample_leased :: queue_db where
  "sample_leased = snd (claim_next (\<lambda>_. alone) (\<lambda>_. None) True ''worker'' 60 (Some 1) 10 sample_queue)"

definition leased_job :: scan_job where
  "leased_job = start_job 10 (new_job ''j'' 5 ''w'' ''a'' ScTls)"

definition leased_row :: queue_row where
  "leased_row = lease_row ''worker'' (10 + seconds 60) 10 (new_queue_row ''j'' 3 5)"

lemmas queue_eval = claim_next_def heartbeat_def fail_scan_def complete_scan_def finish_def
  acknowledge_cancel_def request_cancel_def recover_expired_leases_def candidates_def eligible_def
  workspace_first_def age_key_def claimable_def claim_tx_def finish_tx_def retry_tx_def leave_tx_def
  reload_job_def lease_from_job_id_def get_job_def get_state_def optional_row_def job_from_record_def
  validate_job_def state_from_record_def validate_lease_def length_between_def release_capacity_def
  acquire_scan_slot_def release_scan_slot_def ensure_workspace_runtime_def take_slot_def drop_slot_def
  insert_row_def count_where_def update_where_def row_of_Cons Let_def

lemma sample_claimed:
  "claim_next (\<lambda>_. alone) (\<lambda>_. None) True ''worker'' 60 (Some 1) 10 sample_queue =
    (Inr (Some \<lparr>sl_job = leased_job, sl_worker_id = ''worker'', sl_attempt = 1, sl_max_attempts = 3,
            sl_lease_expires_at = 10 + seconds 60\<rparr>),
     sample_queue\<lparr>scan_jobs := [leased_job], scan_queue := [leased_row],
       runtimes := [\<lparr>wr_workspace_id = ''w'', wr_active_scans = 1, wr_updated_at = 10\<rparr>]\<rparr>)"
proof -
  have "strip ''worker'' \<noteq> []"
    by (simp add: strip_def strip_by_def is_space_def code_of_def)
  then show ?thesis
    by (simp add: queue_eval sample_queue_tables sample_inventory_def new_job_def new_queue_row_def
        leased_job_def leased_row_def start_job_def lease_row_def add_active_def numeral_2_eq_2)
qed

lemma sample_leased_tables:
  "scan_jobs sample_leased = [leased_job]" "scan_queue sample_leased = [leased_row]"
  "runtimes sample_leased = [\<lparr>wr_workspace_id = ''w'', wr_active_scans = 1, wr_updated_at = 10\<rparr>]"
  "workspaces sample_leased = workspaces sample_inventory"
  by (simp_all add: sample_leased_def sample_claimed sample_queue_tables)

lemma sample_leased_call: "queue_call 1 sample_queue sample_leased"
  unfolding sample_leased_def by (rule queue_call.intros(2)) simp

lemma sample_leased_calls: "(queue_call 1)\<^sup>*\<^sup>* sample_queue sample_leased"
  by (rule r_into_rtranclp) (rule sample_leased_call)

lemma sample_leased_inv: "queue_inv 1 (sample_leased, \<lambda>_. 0)"
  by (rule good_run_end [OF queue_call_run [OF sample_leased_call sample_queue_inv]])

section \<open>Capacity and consistency\<close>

text \<open>
  C1. In every run of the transactions of any number of workers, schedulers and API processes that use
  one concurrency limit, a workspace never has more running scans than the limit; its counter always
  equals its running scans plus the slots held in flight; and a queued job is leased exactly while it
  runs, with between 1 and \<open>max_attempts\<close> attempts used. The transactions may interleave in any order, with
  one exception, which the code does not exclude: a cancellation or a recovery writes what it read only
  when the job it read as queued is still queued, or as running still running. (C14 and C15 show what
  happens otherwise: the counter is off and the limit can be exceeded.)
\<close>

theorem scan_concurrency_never_exceeded:
  assumes "queue_inv limit (db, \<lambda>_. 0)" and "(queue_step limit)\<^sup>*\<^sup>* (db, \<lambda>_. 0) (db', p)"
  shows "running_jobs db' w \<le> limit \<and> active_scans db' w = running_jobs db' w + int (p w) \<and>
    (row_of q_job_id (scan_queue db') j = Some q \<longrightarrow>
      (\<exists>r. row_of sj_id (scan_jobs db') j = Some r \<and>
        (q_lease_owner q \<noteq> None \<longleftrightarrow> sj_status r = Running) \<and>
        (sj_status r = Running \<longrightarrow> q_lease_expires_at q \<noteq> None \<and> 1 \<le> q_attempts q) \<and>
        q_attempts q \<le> q_max_attempts q))"
proof -
  have inv: "queue_inv limit (db', p)" by (rule queue.steps_inv [OF assms(2,1)])
  note D = queue_invD [OF inv]
  have "\<exists>r. row_of sj_id (scan_jobs db') j = Some r \<and>
        (q_lease_owner q \<noteq> None \<longleftrightarrow> sj_status r = Running) \<and>
        (sj_status r = Running \<longrightarrow> q_lease_expires_at q \<noteq> None \<and> 1 \<le> q_attempts q) \<and>
        q_attempts q \<le> q_max_attempts q"
    if "row_of q_job_id (scan_queue db') j = Some q"
    using queue_ok_row [OF D(1) that] by (metis row_ok_def)
  moreover have "running_jobs db' w \<le> limit"
    using D(3,4) [of w] by linarith
  ultimately show ?thesis using D(4) by blast
qed

theorem scan_concurrency_never_exceeded_witness:
  "running_jobs sample_leased ''w'' \<le> 1 \<and> active_scans sample_leased ''w'' = running_jobs sample_leased ''w''"
  using scan_concurrency_never_exceeded [OF sample_queue_inv, of sample_leased "\<lambda>_. 0" "''w''"]
    queue_call_run [OF sample_leased_call sample_queue_inv]
  by (simp add: good_run_def)

text \<open>
  C3. The queue operations implement the transaction system without leaking capacity: a call of
  any operation, on every branch and under interference by such runs at each of its points, performs
  only transactions of the system and ends with every slot given back or backed by a running scan, so
  that after any sequence of calls each counter is exactly the number of running scans. Between the
  reads and the writes of cancellation and recovery the others may do anything but change the
  status of the jobs read (\<open>steady\<close>): there the code has the races of C14 and C15. The calls return or raise
  where the code does; a database that fails in the middle of a call is the subject of C10 and C11.
\<close>

theorem queue_operations_leak_no_slots:
  assumes "queue_inv limit (db, \<lambda>_. 0)" and "(queue_call limit)\<^sup>*\<^sup>* db db'"
  shows "(queue_step limit)\<^sup>*\<^sup>* (db, \<lambda>_. 0) (db', \<lambda>_. 0) \<and> queue_inv limit (db', \<lambda>_. 0) \<and>
    active_scans db' w = running_jobs db' w"
proof -
  have run: "good_run limit (db, \<lambda>_. 0) (db', \<lambda>_. 0)" by (rule queue_calls_run [OF assms(2,1)])
  from queue_invD(4) [OF good_run_end [OF run], of w] good_run_end [OF run] run show ?thesis
    by (simp add: good_run_def)
qed

theorem queue_operations_leak_no_slots_witness:
  "active_scans sample_leased ''w'' = running_jobs sample_leased ''w''"
  using queue_operations_leak_no_slots [OF sample_queue_inv sample_leased_calls]
  by blast

text \<open>
  C4. Results are final and attempts are bounded, as long as no job changes its status between the
  read and the write of a cancellation or a recovery (\<open>steady\<close>; C14 shows that a scan finished there is
  requeued): over any sequence of such queue calls, under interference by others, a job that succeeded,
  failed or was canceled keeps its row unchanged, every other job keeps its identity, workspace, asset
  and kind, the attempt count of a job never goes down and never exceeds its unchanged maximum (at most
  20), and a cancellation request is never withdrawn.
\<close>

theorem finished_scans_are_final:
  assumes "queue_inv limit (db, \<lambda>_. 0)" and "(queue_call limit)\<^sup>*\<^sup>* db db'"
    and "row_of sj_id (scan_jobs db) j = Some r" and "row_of q_job_id (scan_queue db) j = Some q"
  shows "\<exists>r' q'. row_of sj_id (scan_jobs db') j = Some r' \<and> row_of q_job_id (scan_queue db') j = Some q' \<and>
    (sj_workspace_id r', sj_asset_id r', sj_kind r') = (sj_workspace_id r, sj_asset_id r, sj_kind r) \<and>
    (terminal_status (sj_status r) \<longrightarrow> r' = r) \<and>
    q_attempts q \<le> q_attempts q' \<and> q_attempts q' \<le> q_max_attempts q \<and> q_max_attempts q \<le> 20 \<and>
    (q_cancel_requested q \<longrightarrow> q_cancel_requested q')"
proof -
  have run: "good_run limit (db, \<lambda>_. 0) (db', \<lambda>_. 0)" by (rule queue_calls_run [OF assms(2,1)])
  have later: "queue_later db db'" using good_run_later [OF run] by simp
  obtain r' where r': "row_of sj_id (scan_jobs db') j = Some r'" "job_persists r r'"
    using later assms(3) unfolding queue_later_def by blast
  obtain q' where q': "row_of q_job_id (scan_queue db') j = Some q'" "row_persists q q'"
    using later assms(4) unfolding queue_later_def by blast
  from queue_ok_row [OF queue_invD(1) [OF good_run_end [OF run]] q'(1)]
  have "q_attempts q' \<le> q_max_attempts q'" "q_max_attempts q' \<le> 20"
    by (auto simp: row_ok_def)
  with r' q' show ?thesis
    unfolding job_persists_def row_persists_def by auto
qed

theorem finished_scans_are_final_witness:
  "\<exists>r' q'. row_of sj_id (scan_jobs sample_leased) ''j'' = Some r' \<and>
     row_of q_job_id (scan_queue sample_leased) ''j'' = Some q' \<and> sj_asset_id r' = ''a'' \<and>
     q_attempts q' \<le> 3"
proof -
  have rows: "row_of sj_id (scan_jobs sample_queue) ''j'' = Some (new_job ''j'' 5 ''w'' ''a'' ScTls)"
      "row_of q_job_id (scan_queue sample_queue) ''j'' = Some (new_queue_row ''j'' 3 5)"
    by (simp_all add: sample_queue_tables row_of_Cons new_queue_row_def)
  have "q_max_attempts (new_queue_row ''j'' 3 5) = 3" by (simp add: new_queue_row_def)
  with finished_scans_are_final [OF sample_queue_inv sample_leased_calls rows]
  show ?thesis by auto
qed

section \<open>Lost leases\<close>

text \<open>
  C5. A worker that does not hold the lease of a job (any more) is fenced off: completing, failing,
  acknowledging a cancellation and heartbeating all raise, and leave the database as it is, under any
  interference.
\<close>

theorem lost_lease_is_fenced:
  assumes "queue_ok db" and "row_of q_job_id (scan_queue db) j = Some q" and "q_lease_owner q \<noteq> Some worker"
  shows "(\<exists>e. complete_scan quota env j worker n now db = (Inl e, db)) \<and>
    (\<exists>e. fail_scan quota env j worker m retryable backoff now db = (Inl e, db)) \<and>
    (\<exists>e. acknowledge_cancel quota env j worker now db = (Inl e, db)) \<and>
    (\<exists>e. heartbeat env j worker secs now db = (Inl e, db)) \<and>
    (\<exists>e. should_cancel j worker db = Inl e)"
proof -
  note keyed = queue_ok_keyed(2) [OF assms(1)]
  have no: "count_where (\<lambda>r. q_job_id r = j \<and> q_lease_owner r = Some worker) (scan_queue db) \<noteq> 1"
    using count_where_one [OF keyed, of j "\<lambda>r. q_lease_owner r = Some worker"] assms(2,3) by simp
  have no': "count_where (\<lambda>r. q_job_id r = j \<and> q_lease_owner r = Some worker \<and> \<not> q_cancel_requested r)
      (scan_queue db) \<noteq> 1"
    using count_where_one [OF keyed, of j "\<lambda>r. q_lease_owner r = Some worker \<and> \<not> q_cancel_requested r"]
      assms(2,3) by simp
  have fin: "\<exists>e. finish quota env j worker s n m now db = (Inl e, db)" for s n m
    using no by (simp add: finish_def finish_tx_def leave_tx_def split: option.split)
  have "get_state j db = Inr (Some x) \<Longrightarrow> x = q" for x
    using assms(2) by (auto simp: get_state_def optional_row_def bindE_Inr state_from_record_def split: if_splits)
  then have "\<exists>e. fail_scan quota env j worker m retryable backoff now db = (Inl e, db)"
    using assms(3) by (auto simp: fail_scan_def split: sum.split option.split)
  moreover have "\<exists>e. heartbeat env j worker secs now db = (Inl e, db)"
    using no' by (simp add: heartbeat_def)
  moreover have "\<exists>e. should_cancel j worker db = Inl e"
    using first_where_key [OF keyed, of "\<lambda>r. q_lease_owner r = Some worker" j] assms(2,3)
    by (simp add: should_cancel_def)
  ultimately show ?thesis
    using fin unfolding complete_scan_def acknowledge_cancel_def by blast
qed

theorem lost_lease_is_fenced_witness:
  "\<exists>e. complete_scan True alone ''j'' ''other'' 4 20 sample_leased = (Inl e, sample_leased)"
proof -
  have "row_of q_job_id (scan_queue sample_leased) ''j'' = Some leased_row"
      "q_lease_owner leased_row \<noteq> Some ''other''"
    by (simp_all add: sample_leased_tables row_of_Cons leased_row_def lease_row_def new_queue_row_def)
  from lost_lease_is_fenced [OF queue_invD(1) [OF sample_leased_inv] this] show ?thesis by blast
qed

section \<open>Cancellation\<close>

text \<open>A job whose cancellation was requested and that is not running.\<close>

definition parked :: "string \<Rightarrow> 'x queue_db_scheme \<Rightarrow> bool" where
  "parked j db =
     (\<exists>r q. row_of sj_id (scan_jobs db) j = Some r \<and> row_of q_job_id (scan_queue db) j = Some q \<and>
        q_cancel_requested q \<and> sj_status r \<in> {Queued, Canceled})"

lemma parked_pair:
  assumes "parked j db" "job_move f" "queue_move g"
    and "\<And>r q. row_of sj_id (scan_jobs db) j = Some r \<Longrightarrow> row_of q_job_id (scan_queue db) j = Some q \<Longrightarrow>
      k = j \<Longrightarrow> q_cancel_requested q \<Longrightarrow> sj_status r \<in> {Queued, Canceled} \<Longrightarrow>
      q_cancel_requested (g q) \<and> sj_status (f r) \<in> {Queued, Canceled}"
  shows "parked j (pair_update k f g db)"
proof -
  obtain r q where rq: "row_of sj_id (scan_jobs db) j = Some r" "row_of q_job_id (scan_queue db) j = Some q"
      "q_cancel_requested q" "sj_status r \<in> {Queued, Canceled}"
    using assms(1) unfolding parked_def by blast
  show ?thesis
  proof (cases "k = j")
    case True
    with assms(4) [OF rq(1,2) True rq(3,4)] rq show ?thesis
      by (simp add: parked_def pair_update_rows [OF assms(2,3)])
  next
    case False
    with rq show ?thesis by (simp add: parked_def pair_update_rows [OF assms(2,3)])
  qed
qed

lemma parked_same:
  "parked j db \<Longrightarrow> scan_jobs db' = scan_jobs db \<Longrightarrow> scan_queue db' = scan_queue db \<Longrightarrow> parked j db'"
  by (simp add: parked_def)

lemma parked_leave:
  assumes "queue_ok db" "leave_tx f g k worker db = (True, db')" "parked j db" "job_move f" "queue_move g"
  shows "parked j db'"
proof -
  obtain r q where rq: "row_of sj_id (scan_jobs db) k = Some r" "sj_status r = Running"
      "db' = pair_update k f g db"
    using leave_tx_True [OF assms(1,2)] by metis
  then show ?thesis
    using assms(3) by (auto intro!: parked_pair [OF _ assms(4,5)])
qed

lemma queue_step_parked:
  assumes "queue_step limit s s'" "queue_inv limit s" "parked j (fst s)"
  shows "parked j (fst s')"
  using assms
proof (induction rule: queue_step.induct)
  case (ensure w now db db' p)
  note e = ensure_effect [OF ensure.hyps queue_ok_keyed(3) [OF queue_invD(1) [OF ensure.prems(1)]]]
  from ensure.prems(2) show ?case by (auto intro: parked_same simp: e)
next
  case (taken w now db db' p)
  then have "db' = snd (take_slot w limit now db)" by simp
  with taken.prems(2) show ?case by (auto intro: parked_same simp: slot_tables)
next
  case (refused w now db db' p)
  then have "db' = snd (take_slot w limit now db)" by simp
  with refused.prems(2) show ?case by (auto intro: parked_same simp: slot_tables)
next
  case (dropped p w db now)
  from dropped.prems(2) show ?case by (auto intro: parked_same simp: slot_tables)
next
  case (created db i w p now a k)
  from created.prems(2) show ?case by (auto simp: parked_def row_of_append)
next
  case (enqueued db k m p now)
  from enqueued.prems(2) show ?case by (auto simp: parked_def row_of_append)
next
  case (claimed worker expires now k db db' job p)
  obtain q where q: "row_of q_job_id (scan_queue db) k = Some q" "claimable now q"
      "db' = pair_update k (start_job now) (lease_row worker expires now) db"
    using claim_tx_True [OF queue_invD(1) [OF claimed.prems(1)] claimed.hyps(1)] by metis
  then show ?case
    using claimed.prems(2) by (auto simp: claimable_def intro!: parked_pair)
next
  case (beat db k q p expires now)
  then show ?case by (auto intro!: parked_pair simp: job_move_def queue_move_def)
next
  case (finished st now n m k worker db db' job p)
  from finished.prems(2) show ?case
    using parked_leave [OF queue_invD(1) [OF finished.prems(1)] finished.hyps(1) [unfolded finish_tx_def]] by simp
next
  case (retried t k worker db db' job p)
  from retried.prems(2) show ?case
    using parked_leave [OF queue_invD(1) [OF retried.prems(1)] retried.hyps(1) [unfolded retry_tx_def]] by simp
next
  case (canceled db k r x job p now q)
  from canceled.prems(2) show ?case
    unfolding fst_conv
    by (rule parked_pair)
      (use canceled.hyps in \<open>auto simp: cancel_queue_row_def cancel_job_row_def flush_def Let_def\<close>)
next
  case (recovered db k r x job q p now)
  from recovered.prems(2) show ?case
    unfolding fst_conv recover_row_pair [OF recovered.hyps(5,4)]
    by (rule parked_pair) (use recovered.hyps in simp_all)
next
  case (others db' db p)
  then show ?case by (auto intro: parked_same)
qed

lemma calls_parked:
  assumes "(queue_call limit)\<^sup>*\<^sup>* db db'" "queue_inv limit (db, \<lambda>_. 0)" "parked j db"
  shows "parked j db'"
proof -
  have "parked j (fst s) \<longrightarrow> parked j (fst s')"
    if "(queue_step limit)\<^sup>*\<^sup>* s s'" "queue_inv limit s" for s s' :: "'a queue_db_scheme \<times> (string \<Rightarrow> nat)"
    by (rule queue.steps_relate [where R = "\<lambda>s s'. parked j (fst s) \<longrightarrow> parked j (fst s')", OF _ _ that])
      (auto intro: queue_step_parked)
  with queue_calls_run [OF assms(1,2)] assms(3) show ?thesis
    unfolding good_run_def by fastforce
qed

text \<open>
  A cancellation request on a waiting scan is never overridden: from the moment the request
  returned, no sequence of queue calls (claims, recoveries, repeated enqueueing included) ever starts the job,
  and it never succeeds or fails.
\<close>

theorem canceled_before_start_never_runs:
  assumes inv: "queue_inv limit (db, \<lambda>_. 0)" and env: "queue_rely limit env"
    and rows: "row_of sj_id (scan_jobs db) j = Some r" "row_of q_job_id (scan_queue db) j = Some q"
    and queued: "sj_status r = Queued"
    and call: "request_cancel id env j now db = (res, db1)" and later: "(queue_call limit)\<^sup>*\<^sup>* db1 db2"
  shows "\<exists>r'. row_of sj_id (scan_jobs db2) j = Some r' \<and> sj_status r' \<in> {Queued, Canceled}"
proof -
  let ?db = "pair_update j (cancel_job_row now r) (cancel_queue_row r q) db"
  have "db\<lparr>scan_queue := update_where (\<lambda>r. q_job_id r = j) (cancel_queue_row r q) (scan_queue db),
           scan_jobs := update_where (\<lambda>s. sj_id s = j) (cancel_job_row now r) (scan_jobs db)\<rparr> = ?db"
    by (simp add: pair_update_def)
  with call rows queued have db1: "db1 = env ?db"
    by (auto simp: request_cancel_def reload_job_def Let_def)
  have "queue_step limit (db, \<lambda>_. 0) (?db, \<lambda>_. 0)"
    by (rule queue_step.canceled [OF rows]) (simp_all add: queued)
  then have run: "good_run limit (db, \<lambda>_. 0) (?db, \<lambda>_. 0)"
    by (rule good_run_step [OF good_run_refl [OF inv]])
  have "parked j ?db"
    using rows queued
    by (simp add: parked_def pair_update_rows cancel_queue_row_def cancel_job_row_def flush_def Let_def)
  moreover have "(queue_call limit)\<^sup>*\<^sup>* ?db db2"
    unfolding db1 [symmetric]
    by (rule converse_rtranclp_into_rtranclp [OF queue_call.intros(9) [OF env, of ?db, folded db1] later])
  ultimately have "parked j db2"
    using calls_parked good_run_end [OF run] by blast
  then show ?thesis by (auto simp: parked_def)
qed

theorem canceled_before_start_never_runs_witness:
  "\<exists>r'. row_of sj_id (scan_jobs (snd (request_cancel id id ''j'' 7 sample_queue))) ''j'' = Some r' \<and>
     sj_status r' \<in> {Queued, Canceled}"
proof -
  have rows: "row_of sj_id (scan_jobs sample_queue) ''j'' = Some (new_job ''j'' 5 ''w'' ''a'' ScTls)"
      "row_of q_job_id (scan_queue sample_queue) ''j'' = Some (new_queue_row ''j'' 3 5)"
    by (simp_all add: sample_queue_tables row_of_Cons new_queue_row_def)
  show ?thesis
    by (rule canceled_before_start_never_runs [OF sample_queue_inv queue_rely_id(1) rows new_job_fields(5)
          prod.collapse [symmetric] rtranclp.rtrancl_refl])
qed

lemma release_alone_tables:
  assumes "release_scan_slot alone w now db = (r, db')"
  shows "scan_jobs db' = scan_jobs db" "scan_queue db' = scan_queue db"
  using assms
  by (auto simp: release_scan_slot_def ensure_workspace_runtime_def Let_def drop_slot_def
      split: if_splits option.splits)

lemma retry_tx_applies:
  assumes ok: "queue_ok db" and q: "row_of q_job_id (scan_queue db) j = Some q" "q_lease_owner q = Some worker"
    and job: "row_of sj_id (scan_jobs db) j = Some job" "sj_status job = Running"
  shows "retry_tx next j worker db = (True, pair_update j (\<lambda>r. r\<lparr>sj_status := Queued\<rparr>)
    (\<lambda>r. clear_lease r\<lparr>q_next_attempt_at := next\<rparr>) db)"
  using count_where_one [OF queue_ok_keyed(1) [OF ok], of j "\<lambda>r. sj_status r = Running"]
    count_where_one [OF queue_ok_keyed(2) [OF ok], of j "\<lambda>r. q_lease_owner r = Some worker"]
    update_where_matches [OF queue_ok_keyed(1) [OF ok] job(1), of "\<lambda>r. sj_status r = Running"]
    update_where_matches [OF queue_ok_keyed(2) [OF ok] q(1), of "\<lambda>r. q_lease_owner r = Some worker"] q job
  by (simp add: retry_tx_def leave_tx_def pair_update_def Let_def)

text \<open>
  C13. A retry strands a scan whose cancellation was requested: when the worker that runs it reports
  a retryable failure with attempts left, the job goes back to the queue with the request still
  set and is returned as queued, but from then on every claim of it fails and no sequence of queue
  calls ever runs it again: it waits until somebody asks for the cancellation a second time.
\<close>

theorem retry_strands_canceled_scan:
  assumes inv: "queue_inv limit (db, \<lambda>_. 0)"
    and q: "row_of q_job_id (scan_queue db) j = Some q" "q_lease_owner q = Some worker"
      "q_cancel_requested q" "q_attempts q < q_max_attempts q" and backoff: "0 \<le> backoff"
    and call: "fail_scan True alone j worker m True backoff now db = (res, db1)"
  shows "\<exists>job. res = Inr job \<and> sj_status job = Queued \<and> row_of sj_id (scan_jobs db1) j = Some job \<and>
    (\<forall>db2. (queue_call limit)\<^sup>*\<^sup>* db1 db2 \<longrightarrow>
       (\<exists>r. row_of sj_id (scan_jobs db2) j = Some r \<and> sj_status r \<in> {Queued, Canceled}) \<and>
       (\<forall>w' e t. claim_tx w' e t j db2 = (False, db2)))"
proof -
  note D = queue_invD [OF inv]
  obtain r where r: "row_of sj_id (scan_jobs db) j = Some r" "row_ok q r"
    by (rule queue_ok_row [OF D(1) q(1)])
  then have running: "sj_status r = Running" using q(2) by (simp add: row_ok_def)
  let ?db = "pair_update j (\<lambda>r. r\<lparr>sj_status := Queued\<rparr>)
    (\<lambda>r. clear_lease r\<lparr>q_next_attempt_at := now + seconds backoff\<rparr>) db"
  note tx = retry_tx_applies [OF D(1) q(1,2) r(1) running, of "now + seconds backoff"]
  have state: "get_state j db = Inr (Some q)"
    using q(1) r(2) by (simp add: get_state_def optional_row_def state_from_record_def row_ok_def)
  have step: "queue_step limit (db, \<lambda>_. 0) (?db, (\<lambda>_. 0)(sj_workspace_id r := 0 + 1))"
    using queue_step.retried [OF tx r(1)] .
  have run: "good_run limit (db, \<lambda>_. 0) (?db, (\<lambda>_. 0)(sj_workspace_id r := 1))"
    using good_run_step [OF good_run_refl [OF inv] step] by simp
  obtain u db' where rel: "release_scan_slot alone (sj_workspace_id r) now ?db = (u, db')"
    by (cases "release_scan_slot alone (sj_workspace_id r) now ?db")
  have u: "u = Inr ()" and run': "good_run limit (db, \<lambda>_. 0) (db', \<lambda>_. 0)"
    using release_run [OF run _ _ rel] by (auto simp: fun_upd_idem)
  have row: "row_of sj_id (scan_jobs db') j = Some (r\<lparr>sj_status := Queued\<rparr>)"
    using release_alone_tables [OF rel] r(1) by (simp add: pair_update_rows)
  have res: "res = Inr (r\<lparr>sj_status := Queued\<rparr>)" "db1 = db'"
    using call q backoff state tx r(1) rel u row queue_ok_job(2) [OF D(1) r(1)]
    by (auto simp: fail_scan_def Let_def release_capacity_def reload_job_def get_job_def
        optional_row_def job_from_record_def validate_job_def)
  have "row_of q_job_id (scan_queue db') j = Some (clear_lease q\<lparr>q_next_attempt_at := now + seconds backoff\<rparr>)"
    using release_alone_tables [OF rel] q(1) by (simp add: pair_update_rows)
  with row q(3) have "parked j db'" by (simp add: parked_def clear_lease_def)
  then have parked: "parked j db2" if "(queue_call limit)\<^sup>*\<^sup>* db1 db2" for db2
    using calls_parked [OF that] good_run_end [OF run'] by (simp add: res)
  have keyed: "keyed q_job_id (scan_queue db2)" if "(queue_call limit)\<^sup>*\<^sup>* db1 db2" for db2
    using queue_ok_keyed(2) queue_invD(1) [OF good_run_end [OF queue_calls_run [OF that [unfolded res(2)]
        good_run_end [OF run']]]] by blast
  have "claim_tx w' e t j db2 = (False, db2)" if "(queue_call limit)\<^sup>*\<^sup>* db1 db2" for db2 w' e t
    using parked [OF that] count_where_one [OF keyed [OF that], of j "claimable t"]
    by (auto simp: parked_def claim_tx_def claimable_def Let_def)
  moreover have "\<exists>r. row_of sj_id (scan_jobs db2) j = Some r \<and> sj_status r \<in> {Queued, Canceled}"
    if "(queue_call limit)\<^sup>*\<^sup>* db1 db2" for db2
    using parked [OF that] unfolding parked_def by blast
  ultimately show ?thesis
    using res row by (intro exI [of _ "r\<lparr>sj_status := Queued\<rparr>"]) simp
qed

definition sample_cancel_running :: queue_db where
  "sample_cancel_running = snd (request_cancel id id ''j'' 12 sample_leased)"

lemma sample_cancel_running_inv: "queue_inv 1 (sample_cancel_running, \<lambda>_. 0)"
  unfolding sample_cancel_running_def
  by (rule good_run_end [OF request_cancel_run [OF sample_leased_inv]]) simp_all

theorem retry_strands_canceled_scan_witness:
  "\<exists>job. fst (fail_scan True alone ''j'' ''worker'' ''timeout'' True 5 20 sample_cancel_running) = Inr job \<and>
     sj_status job = Queued"
proof -
  have q: "row_of q_job_id (scan_queue sample_cancel_running) ''j'' =
      Some (leased_row\<lparr>q_cancel_requested := True\<rparr>)"
    by (simp add: sample_cancel_running_def request_cancel_def reload_job_def sample_leased_tables
        row_of_Cons update_where_def leased_row_def lease_row_def new_queue_row_def leased_job_def
        start_job_def new_job_def cancel_queue_row_def flush_def Let_def)
  have l: "q_lease_owner (leased_row\<lparr>q_cancel_requested := True\<rparr>) = Some ''worker''"
      "q_attempts (leased_row\<lparr>q_cancel_requested := True\<rparr>) < q_max_attempts (leased_row\<lparr>q_cancel_requested := True\<rparr>)"
    by (simp_all add: leased_row_def lease_row_def new_queue_row_def)
  obtain res db1 where call: "fail_scan True alone ''j'' ''worker'' ''timeout'' True 5 20 sample_cancel_running
      = (res, db1)" by (metis prod.collapse)
  have c: "q_cancel_requested (leased_row\<lparr>q_cancel_requested := True\<rparr>)" "(0::int) \<le> 5" by simp_all
  from retry_strands_canceled_scan [OF sample_cancel_running_inv q l(1) c(1) l(2) c(2) call] call
  show ?thesis by auto
qed

section \<open>Recovery\<close>

lemma release_all_alone_tables:
  "scan_jobs (snd (release_all quota (\<lambda>_. alone) now i ws db)) = scan_jobs db \<and>
   scan_queue (snd (release_all quota (\<lambda>_. alone) now i ws db)) = scan_queue db"
proof (induction ws arbitrary: i db)
  case (Cons w ws)
  obtain u db1 where rel: "release_capacity quota alone w now db = (u, db1)"
    by (cases "release_capacity quota alone w now db")
  then have "scan_jobs db1 = scan_jobs db \<and> scan_queue db1 = scan_queue db"
    using release_alone_tables [of w now db u db1] by (auto simp: release_capacity_def split: if_splits)
  with Cons.IH [of _ db1] rel show ?case by (cases u) (simp_all add: id_def)
qed simp

lemma recover_rows:
  assumes "\<forall>(q, j) \<in> set rows. sj_id j = q_job_id q" "distinct (map (\<lambda>(q, j). q_job_id q) rows)"
  shows "row_of sj_id (scan_jobs (fold (recover_row now) rows db)) k =
      (case find (\<lambda>(q, j). q_job_id q = k) rows of None \<Rightarrow> row_of sj_id (scan_jobs db) k
       | Some (q, j) \<Rightarrow> map_option (recover_job_row now q j) (row_of sj_id (scan_jobs db) k)) \<and>
    row_of q_job_id (scan_queue (fold (recover_row now) rows db)) k =
      (case find (\<lambda>(q, j). q_job_id q = k) rows of None \<Rightarrow> row_of q_job_id (scan_queue db) k
       | Some (q, j) \<Rightarrow> map_option (recover_queue_row now q) (row_of q_job_id (scan_queue db) k))"
  using assms
proof (induction rows arbitrary: db)
  case (Cons e rows)
  obtain q j where e: "e = (q, j)" by (cases e)
  have id: "sj_id j = q_job_id q" using Cons.prems(1) by (simp add: e)
  have "find (\<lambda>(q', j). q_job_id q' = q_job_id q) rows = None"
    using Cons.prems(2) by (force simp: e find_NoneD)
  moreover have "row_of sj_id (scan_jobs (recover_row now (q, j) db)) k =
      (if k = q_job_id q then map_option (recover_job_row now q j) (row_of sj_id (scan_jobs db) k)
       else row_of sj_id (scan_jobs db) k)"
    "row_of q_job_id (scan_queue (recover_row now (q, j) db)) k =
      (if k = q_job_id q then map_option (recover_queue_row now q) (row_of q_job_id (scan_queue db) k)
       else row_of q_job_id (scan_queue db) k)"
    by (simp_all add: recover_row_pair [OF refl id] pair_update_rows)
  moreover note Cons.IH [of "recover_row now (q, j) db"]
  ultimately show ?case
    using Cons.prems
    by (cases "k = q_job_id q"; cases "find (\<lambda>(q, j). q_job_id q = k) rows") (auto simp: e)
qed simp

text \<open>Where recovery sends a job.\<close>

definition recovery_target :: "queue_row \<Rightarrow> scan_status" where
  "recovery_target q =
     (if q_cancel_requested q then Canceled else if q_max_attempts q \<le> q_attempts q then Failed else Queued)"

lemma recovered_fields:
  assumes "sj_status j = Running"
  shows "sj_status (recover_job_row now q j j) = recovery_target q"
    "q_lease_owner (recover_queue_row now q q) = None" "q_lease_expires_at (recover_queue_row now q q) = None"
    "recovery_target q = Queued \<Longrightarrow> claimable now (recover_queue_row now q q)"
  using assms
  by (auto simp: recovery_target_def recover_job_row_def recover_queue_row_def claimable_def requeues_def
      flush_def split: if_splits)

text \<open>
  C8. Recovery is complete: afterwards no running scan has a lease that had expired, and every scan
  whose lease had expired went where it belongs: canceled when its cancellation was requested, failed when its
  attempts are used up, and otherwise back in the queue, claimable at once. The two reported
  numbers add up to the number of expired leases.
\<close>

theorem recovery_is_complete:
  assumes inv: "queue_inv limit (db, \<lambda>_. 0)"
    and call: "recover_expired_leases True id (\<lambda>_. alone) now db = (res, db')"
  shows "(\<exists>a b. res = Inr (a, b) \<and> a + b = int (length (expired now db))) \<and>
    (\<forall>j r q. row_of sj_id (scan_jobs db') j = Some r \<and> row_of q_job_id (scan_queue db') j = Some q \<and>
       sj_status r = Running \<longrightarrow> \<not> lease_over now q) \<and>
    (\<forall>(q, r) \<in> set (expired now db). \<exists>r' q'.
       row_of sj_id (scan_jobs db') (q_job_id q) = Some r' \<and>
       row_of q_job_id (scan_queue db') (q_job_id q) = Some q' \<and>
       sj_status r' = recovery_target q \<and> (sj_status r' = Queued \<longrightarrow> claimable now q'))"
proof -
  note D = queue_invD [OF inv]
  let ?rows = "expired now db" and ?db = "fold (recover_row now) (expired now db) db"
  have ids: "\<forall>(q, j) \<in> set ?rows. sj_id j = q_job_id q"
    using set_expired(1) [OF D(1)] row_of_SomeD by fastforce
  note rows = recover_rows [OF ids distinct_expired [OF D(1)]]
  have "good_run limit (db, \<lambda>_. 0) (?db, held (\<lambda>_. 0) (map (\<lambda>(q, j). sj_workspace_id j) ?rows))"
    using recovered_run [OF inv queue_rely_id(1), of now] by simp
  then have released: "fst (release_all True (\<lambda>_. alone) now 0 (map (\<lambda>(q, j). sj_workspace_id j) ?rows) ?db) = Inr ()"
    using release_all_run [of limit _ ?db "\<lambda>_. 0" _ "\<lambda>_. alone" now 0] by auto
  obtain db2 where rel: "release_all True (\<lambda>_. alone) now 0 (map (\<lambda>(q, j). sj_workspace_id j) ?rows) ?db
      = (Inr (), db2)"
    using released by (metis prod.collapse)
  have tables: "scan_jobs db' = scan_jobs ?db" "scan_queue db' = scan_queue ?db"
    and res: "res = Inr (int (count_where (\<lambda>(q, j). requeues q) ?rows), int (count_where (\<lambda>(q, j). \<not> requeues q) ?rows))"
    using call rel release_all_alone_tables [of True now 0 "map (\<lambda>(q, j). sj_workspace_id j) ?rows" ?db]
    by (auto simp: recover_expired_leases_def Let_def)
  have "count_where (\<lambda>(q, j). requeues q) xs + count_where (\<lambda>(q, j). \<not> requeues q) xs = length xs"
    for xs :: "(queue_row \<times> scan_job) list"
    by (induction xs) (auto simp: count_where_def)
  from this [of ?rows] res have "\<exists>a b. res = Inr (a, b) \<and> a + b = int (length ?rows)"
    by (simp flip: of_nat_add)
  moreover have "\<exists>r' q'. row_of sj_id (scan_jobs db') (q_job_id q) = Some r' \<and>
       row_of q_job_id (scan_queue db') (q_job_id q) = Some q' \<and>
       sj_status r' = recovery_target q \<and> (sj_status r' = Queued \<longrightarrow> claimable now q')"
    if m: "(q, r) \<in> set ?rows" for q r
  proof -
    note e = set_expired [OF D(1) m]
    obtain q1 r1 where f: "find (\<lambda>(x, j). q_job_id x = q_job_id q) ?rows = Some (q1, r1)"
      using m by (cases "find (\<lambda>(x, j). q_job_id x = q_job_id q) ?rows") (auto simp: find_NoneD)
    have m1: "(q1, r1) \<in> set ?rows" "q_job_id q1 = q_job_id q" using find_SomeD [OF f] by auto
    have "q1 = q" "r1 = r"
      using set_expired(1,2) [OF D(1) m1(1)] e(1,2) unfolding m1(2) by simp_all
    then show ?thesis
      using rows [of now db "q_job_id q"] f e recovered_fields [OF e(3), where now = now and q = q] by (simp add: tables)
  qed
  moreover have "\<not> lease_over now q'"
    if r': "row_of sj_id (scan_jobs db') j = Some r'" "row_of q_job_id (scan_queue db') j = Some q'"
      "sj_status r' = Running" for j r' q'
  proof (cases "find (\<lambda>(x, y). q_job_id x = j) ?rows")
    case None
    then have old: "row_of sj_id (scan_jobs db) j = Some r'" "row_of q_job_id (scan_queue db) j = Some q'"
      using rows [of now db j] r' by (simp_all add: tables)
    show ?thesis
    proof
      assume "lease_over now q'"
      with old r'(3) have "(q', r') \<in> set ?rows"
        using row_of_SomeD [OF old(2)] row_of_SomeD [OF old(1)]
        by (auto simp: expired_def lease_over_def)
      with None row_of_SomeD [OF old(2)] show False by (auto simp: find_NoneD)
    qed
  next
    case (Some e)
    obtain q r where e: "e = (q, r)" by (cases e)
    have m: "(q, r) \<in> set ?rows" "q_job_id q = j" using find_SomeD [OF Some] by (auto simp: e)
    note x = set_expired [OF D(1) m(1)]
    have "r' = recover_job_row now q r r" "q' = recover_queue_row now q q"
      using rows [of now db j] r' x m(2) Some by (auto simp: e tables)
    with recovered_fields [OF x(3), where now = now and q = q] show ?thesis by (simp add: lease_over_def)
  qed
  ultimately show ?thesis by blast
qed

theorem recovery_is_complete_witness:
  "\<exists>a b. fst (recover_expired_leases True id (\<lambda>_. alone) (10 + seconds 60) sample_leased) = Inr (a, b) \<and>
     a + b = int (length (expired (10 + seconds 60) sample_leased))"
proof -
  obtain res db' where call: "recover_expired_leases True id (\<lambda>_. alone) (10 + seconds 60) sample_leased = (res, db')"
    by (metis prod.collapse)
  from recovery_is_complete [OF sample_leased_inv call] call show ?thesis by auto
qed

section \<open>Races of the read-then-write operations\<close>

lemma claim_tx_applies:
  assumes ok: "queue_ok db" and q: "row_of q_job_id (scan_queue db) j = Some q" "claimable now q"
    and job: "row_of sj_id (scan_jobs db) j = Some job" "sj_status job = Queued"
  shows "claim_tx worker expires now j db =
    (True, pair_update j (start_job now) (lease_row worker expires now) db)"
  using count_where_one [OF queue_ok_keyed(1) [OF ok], of j "\<lambda>r. sj_status r = Queued"]
    count_where_one [OF queue_ok_keyed(2) [OF ok], of j "claimable now"]
    update_where_matches [OF queue_ok_keyed(1) [OF ok] job(1), of "\<lambda>r. sj_status r = Queued"]
    update_where_matches [OF queue_ok_keyed(2) [OF ok] q(1), of "claimable now"] q job
  by (simp add: claim_tx_def pair_update_def Let_def)


definition racing_completion :: "queue_db \<Rightarrow> queue_db" where
  "racing_completion d = snd (complete_scan True alone ''j'' ''worker'' 2 (seconds 65) d)"

lemmas sample_rows = leased_job_def leased_row_def start_job_def lease_row_def new_job_def
  new_queue_row_def clear_lease_def finish_job_def cancel_queue_row_def cancel_job_row_def
  recover_queue_row_def recover_job_row_def requeues_def flush_def add_active_def

lemma sample_leased_eq:
  "sample_leased = sample_queue\<lparr>scan_jobs := [leased_job], scan_queue := [leased_row],
     runtimes := [\<lparr>wr_workspace_id = ''w'', wr_active_scans = 1, wr_updated_at = 10\<rparr>]\<rparr>"
  by (simp add: sample_leased_def sample_claimed)


lemma racing_completion_sample:
  "racing_completion sample_leased =
     sample_queue\<lparr>scan_jobs := [finish_job Succeeded (seconds 65) 2 None leased_job],
       scan_queue := [clear_lease leased_row],
       runtimes := [\<lparr>wr_workspace_id = ''w'', wr_active_scans = 0, wr_updated_at = seconds 65\<rparr>]\<rparr>"
  by (simp add: racing_completion_def sample_leased_eq queue_eval sample_queue_tables sample_inventory_def
      sample_rows)


lemma ensure_alone:
  assumes "known_workspace db w"
  obtains db' where "ensure_workspace_runtime id w now db = (Inr (), db')" "row_of wr_workspace_id (runtimes db') w \<noteq> None"
proof (cases "row_of wr_workspace_id (runtimes db) w")
  case None
  let ?new = "\<lparr>wr_workspace_id = w, wr_active_scans = 0, wr_updated_at = now\<rparr>"
  have "insert_row (\<lambda>x y. wr_workspace_id x = wr_workspace_id y) ?new (runtimes db) = Some (runtimes db @ [?new])"
    using None by (simp add: insert_row_key)
  then show ?thesis
    using None assms that [of "db\<lparr>runtimes := runtimes db @ [?new]\<rparr>"]
    by (simp add: ensure_workspace_runtime_def known_workspace_def row_of_append)
next
  case (Some r)
  then show ?thesis using assms that [of db] by (simp add: ensure_workspace_runtime_def known_workspace_def)
qed

lemma release_alone:
  assumes "queue_ok db" "known_workspace db w"
  obtains db' where "release_scan_slot alone w now db = (Inr (), db')" "queue_ok db'" "scan_jobs db' = scan_jobs db"
    "scan_queue db' = scan_queue db" "\<And>v. running_jobs db' v = running_jobs db v" "\<And>v. known_workspace db' v = known_workspace db v"
    "active_scans db' w = active_scans db w - (if 0 < active_scans db w then 1 else 0)"
proof -
  obtain d where d: "ensure_workspace_runtime id w now db = (Inr (), d)" using ensure_alone [OF assms(2)] by metis
  note e = ensure_effect [OF d queue_ok_keyed(3) [OF assms(1)]]
  have ok: "runtimes_ok (drop_slot w now d)" using slots.drop_good [OF e(1)] .
  note same = queue_ok_counters [OF assms(1) ok]
  show ?thesis
    by (rule that [of "drop_slot w now d"])
      (use d same slots.drop_active [OF e(1)] in \<open>simp_all add: release_scan_slot_def slot_tables e\<close>)
qed

lemma acquire_free:
  assumes "queue_ok db" "known_workspace db w" "active_scans db w < limit" "1 \<le> limit"
  obtains db' where "acquire_scan_slot alone w limit now db = (Inr True, db')" "queue_ok db'" "scan_jobs db' = scan_jobs db"
    "scan_queue db' = scan_queue db" "\<And>v. running_jobs db' v = running_jobs db v"
proof -
  obtain d where d: "ensure_workspace_runtime id w now db = (Inr (), d)" "row_of wr_workspace_id (runtimes d) w \<noteq> None"
    by (rule ensure_alone [OF assms(2)])
  note e = ensure_effect [OF d(1) queue_ok_keyed(3) [OF assms(1)]]
  have taken: "fst (take_slot w limit now d)"
    using d(2) e(2) [of w] assms(3) count_where_one [OF e(1) [unfolded runtimes_ok_def], of w "\<lambda>r. wr_active_scans r < limit"]
    by (auto simp: take_slot_def active_scans_def split: option.splits)
  have "runtimes_ok (snd (take_slot w limit now d))" using slots.take_good [OF e(1)] .
  note same = queue_ok_counters [OF assms(1) this]
  show ?thesis
    by (rule that [of "snd (take_slot w limit now d)"])
      (use d taken same assms(4) in \<open>simp_all add: acquire_scan_slot_def slot_tables e split_def\<close>)
qed

text \<open>
  C14. Recovery can undo a finished scan, and with it the concurrency limit. When the only expired
  scan that recovery read succeeds before recovery writes (its worker completes it late), recovery still
  moves it back to the queue, claimable again, and gives back a slot that the completion had given
  back already: the counter of its workspace is then one below the number of running scans, and if
  the workspace ran as many scans as it may, the next claim takes a slot and runs one too many.
\<close>

theorem recovery_race_requeues_finished_scan:
  assumes inv: "queue_inv limit (db, \<lambda>_. 0)" and mid: "queue_rely limit mid"
    and read: "expired now db = [(q, r)]" "requeues q"
    and job: "row_of sj_id (scan_jobs (mid db)) (sj_id r) = Some r'" "sj_status r' = Succeeded"
    and row: "row_of q_job_id (scan_queue (mid db)) (sj_id r) = Some q'" "q_attempts q' < q_max_attempts q'"
      "\<not> q_cancel_requested q'" "q_next_attempt_at q' \<le> now"
    and call: "recover_expired_leases True mid (\<lambda>_. alone) now db = (res, db')"
  shows "res = Inr (1, 0) \<and> row_of sj_id (scan_jobs db') (sj_id r) = Some (r'\<lparr>sj_status := Queued\<rparr>) \<and>
    (\<exists>x. row_of q_job_id (scan_queue db') (sj_id r) = Some x \<and> claimable now x) \<and>
    running_jobs db' (sj_workspace_id r) = running_jobs (mid db) (sj_workspace_id r) \<and>
    (0 < running_jobs db' (sj_workspace_id r) \<longrightarrow> active_scans db' (sj_workspace_id r) = running_jobs db' (sj_workspace_id r) - 1) \<and>
    (0 < limit \<longrightarrow> running_jobs db' (sj_workspace_id r) = limit \<longrightarrow>
      (\<exists>db2 db3. acquire_scan_slot alone (sj_workspace_id r) limit now db' = (Inr True, db2) \<and>
        claim_tx worker expires now (sj_id r) db2 = (True, db3) \<and> running_jobs db3 (sj_workspace_id r) = limit + 1))"
proof -
  let ?w = "sj_workspace_id r" and ?db = "pair_update (sj_id r) (recover_job_row now q r) (recover_queue_row now q) (mid db)"
  note D = queue_invD [OF inv] and run = good_run_env [OF good_run_refl [OF inv] mid]
  note M = queue_invD [OF good_run_end [OF run]]
  have ids: "q_job_id q = sj_id r" and old: "row_of sj_id (scan_jobs db) (sj_id r) = Some r" "sj_status r = Running"
    "lease_over now q" "row_of q_job_id (scan_queue db) (sj_id r) = Some q"
    using set_expired [OF D(1), of q r now] row_of_SomeD by (fastforce simp: read(1))+
  have "row_ok q r" using queue_ok_row [OF D(1) old(4)] old(1) by (metis option.inject)
  then have lease: "q_lease_owner q \<noteq> None" "q_lease_expires_at q \<noteq> None" using old(2) by (simp_all add: row_ok_def)
  have w: "sj_workspace_id r' = ?w"
    using good_run_later [OF run] old(1) job(1) unfolding queue_later_def job_persists_def by fastforce
  have ok': "row_ok q' r'" using queue_ok_row [OF M(1) row(1)] job(1) by (metis option.inject)
  have moved: "recover_job_row now q r r' = r'\<lparr>sj_status := Queued\<rparr>"
    using read(2) old(2) by (simp add: recover_job_row_def requeues_def flush_def)
  have free: "row_ok (recover_queue_row now q q') (r'\<lparr>sj_status := Queued\<rparr>)" "claimable now (recover_queue_row now q q')"
    using ok' lease read(2) row(2-4) job(2) by (auto simp: row_ok_def claimable_def recover_queue_row_def flush_def)
  have ok: "queue_ok ?db"
    by (rule pair_update_ok [OF M(1) _ _ job(1) _ row(1)])
      (use free(1) queue_ok_job(2) [OF M(1) job(1)] in \<open>simp_all add: moved\<close>)
  have same: "running_jobs ?db v = running_jobs (mid db) v" "active_scans ?db v = running_jobs (mid db) v" for v
    using M(4) [of v] job(2) by (simp_all add: pair_update_running [OF M(1) _ job(1)] pair_update_rows moved)
  have known: "known_workspace ?db ?w"
    using queue_ok_job(1) [OF M(1) job(1)] by (simp add: pair_update_rows w)
  obtain d where d: "release_scan_slot alone ?w now ?db = (Inr (), d)" "queue_ok d" "scan_jobs d = scan_jobs ?db"
    "scan_queue d = scan_queue ?db" "\<And>v. running_jobs d v = running_jobs ?db v" "\<And>v. known_workspace d v = known_workspace ?db v"
    "active_scans d ?w = active_scans ?db ?w - (if 0 < active_scans ?db ?w then 1 else 0)"
    using release_alone [OF ok known] by metis
  have res: "res = Inr (1, 0)" "db' = d"
    using call read d(1) by (simp_all add: recover_expired_leases_def recover_row_pair [OF ids refl] count_where_def release_capacity_def id_def Let_def)
  have rows: "row_of sj_id (scan_jobs d) (sj_id r) = Some (r'\<lparr>sj_status := Queued\<rparr>)"
      "row_of q_job_id (scan_queue d) (sj_id r) = Some (recover_queue_row now q q')"
    using job(1) row(1) by (simp_all add: d pair_update_rows moved)
  have "\<exists>db2 db3. acquire_scan_slot alone ?w limit now d = (Inr True, db2) \<and>
        claim_tx worker expires now (sj_id r) db2 = (True, db3) \<and> running_jobs db3 ?w = limit + 1"
    if full: "0 < limit" "running_jobs d ?w = limit"
  proof -
    have below: "active_scans d ?w < limit" "1 \<le> limit" using full by (simp_all add: d same)
    obtain d2 where d2: "acquire_scan_slot alone ?w limit now d = (Inr True, d2)" "queue_ok d2" "scan_jobs d2 = scan_jobs d"
      "scan_queue d2 = scan_queue d" "\<And>v. running_jobs d2 v = running_jobs d v"
      using acquire_free [OF d(2) _ below] known d(6) by metis
    have r2: "row_of sj_id (scan_jobs d2) (sj_id r) = Some (r'\<lparr>sj_status := Queued\<rparr>)"
      "row_of q_job_id (scan_queue d2) (sj_id r) = Some (recover_queue_row now q q')" using rows by (simp_all add: d2)
    have "running_jobs (pair_update (sj_id r) (start_job now) (lease_row worker expires now) d2) ?w = limit + 1"
      using full(2) by (simp add: pair_update_running [OF d2(2) _ r2(1)] w d2(5) start_job_def)
    then show ?thesis using d2(1) claim_tx_applies [OF d2(2) r2(2) free(2) r2(1)] by simp
  qed
  then show ?thesis using rows free(2) by (simp add: res d(5,7) same)
qed

lemma racing_completion_rely: "queue_rely 1 racing_completion"
  unfolding queue_rely_def racing_completion_def complete_scan_def
proof (intro allI impI)
  fix d :: queue_db and p assume "queue_inv 1 (d, p)"
  then have "good_run 1 (d, p) (snd (finish True alone ''j'' ''worker'' Succeeded 2 None (seconds 65) d), p)"
    by (intro finish_run good_run_refl) simp_all
  then show "runs 1 (d, p) (snd (finish True alone ''j'' ''worker'' Succeeded 2 None (seconds 65) d), p)"
    by (simp add: good_run_def)
qed

theorem recovery_race_requeues_finished_scan_witness:
  "map sj_status (scan_jobs (racing_completion sample_leased)) = [Succeeded] \<and>
   row_of sj_id (scan_jobs (snd (recover_expired_leases True racing_completion (\<lambda>_. alone) (seconds 70) sample_leased))) ''j'' =
     Some (finish_job Succeeded (seconds 65) 2 None leased_job\<lparr>sj_status := Queued\<rparr>)"
proof -
  obtain res db' where call: "recover_expired_leases True racing_completion (\<lambda>_. alone) (seconds 70) sample_leased = (res, db')"
    by (metis prod.collapse)
  have read: "expired (seconds 70) sample_leased = [(leased_row, leased_job)]" "requeues leased_row" "sj_id leased_job = ''j''"
    by (simp_all add: expired_def sample_leased_tables sample_rows seconds_def)
  have rows: "row_of sj_id (scan_jobs (racing_completion sample_leased)) (sj_id leased_job) = Some (finish_job Succeeded (seconds 65) 2 None leased_job)"
    "row_of q_job_id (scan_queue (racing_completion sample_leased)) (sj_id leased_job) = Some (clear_lease leased_row)"
    by (simp_all add: racing_completion_sample row_of_Cons sample_rows)
  have "q_attempts (clear_lease leased_row) < q_max_attempts (clear_lease leased_row)" "\<not> q_cancel_requested (clear_lease leased_row)"
    "q_next_attempt_at (clear_lease leased_row) \<le> seconds 70" "sj_status (finish_job Succeeded (seconds 65) 2 None leased_job) = Succeeded"
    by (simp_all add: sample_rows seconds_def)
  from recovery_race_requeues_finished_scan [OF sample_leased_inv racing_completion_rely read(1,2) rows(1) this(4) rows(2) this(1-3) call]
  show ?thesis by (simp add: call read(3) racing_completion_sample)
qed

section \<open>Fair claiming\<close>

lemma acquire_alone:
  assumes inv: "queue_inv limit (db, p)" and known: "known_workspace db w" and limit: "1 \<le> limit"
    and res: "acquire_scan_slot alone w limit now db = (r, db')"
  shows "r = Inr (active_scans db w < limit)" "scan_jobs db' = scan_jobs db" "scan_queue db' = scan_queue db"
    "active_scans db' v = active_scans db v + (if v = w \<and> active_scans db w < limit then 1 else 0)"
proof -
  note ok = queue_ok_keyed(3) [OF queue_invD(1) [OF inv]]
  obtain u db1 where e: "ensure_workspace_runtime id w now db = (u, db1)"
    by (cases "ensure_workspace_runtime id w now db")
  have u: "u = Inr ()"
    using ensure_run(3) [OF good_run_refl [OF inv] queue_rely_id(1) e known] .
  note eff = ensure_effect [OF e [unfolded u] ok]
  have row: "row_of wr_workspace_id (runtimes db1) w \<noteq> None"
    using e known u
    by (auto simp: ensure_workspace_runtime_def known_workspace_def Let_def insert_row_key insert_row_key_None
        row_of_append split: if_splits option.splits)
  obtain b db2 where t: "take_slot w limit now db1 = (b, db2)" by (cases "take_slot w limit now db1")
  have "b \<longleftrightarrow> active_scans db1 w < limit"
    using t row count_where_one [of wr_workspace_id "runtimes db1" w "\<lambda>r. wr_active_scans r < limit"] eff(1)
    by (auto simp: take_slot_def Let_def active_scans_def runtimes_ok_def)
  moreover have "r = Inr b" "db' = db2"
    using res e u t limit by (simp_all add: acquire_scan_slot_def)
  ultimately show "r = Inr (active_scans db w < limit)" "scan_jobs db' = scan_jobs db"
    "scan_queue db' = scan_queue db"
    "active_scans db' v = active_scans db v + (if v = w \<and> active_scans db w < limit then 1 else 0)"
    using slots.take_active [OF eff(1), where v = v and w = w and limit = limit and now = now]
      slot_tables(1,2) [where w = w and limit = limit and now = now and db = db1]
    by (simp_all add: t eff)
qed

definition waits :: "time \<Rightarrow> 'x queue_db_scheme \<Rightarrow> string \<Rightarrow> string \<Rightarrow> bool" where
  "waits now db j w =
     (\<exists>r q. row_of sj_id (scan_jobs db) j = Some r \<and> row_of q_job_id (scan_queue db) j = Some q \<and>
        sj_status r = Queued \<and> sj_workspace_id r = w \<and> claimable now q)"

text \<open>The outcome of a claim when \<open>chosen\<close> is the candidate it should serve.\<close>

definition serves ::
  "(string \<times> string) option \<Rightarrow> string \<Rightarrow> time \<Rightarrow> scan_lease option result \<Rightarrow> bool" where
  "serves chosen worker expires res =
     (case chosen of
        None \<Rightarrow> res = Inr None
      | Some (j, w) \<Rightarrow> \<exists>lease. res = Inr (Some lease) \<and> sj_id (sl_job lease) = j \<and>
          sj_workspace_id (sl_job lease) = w \<and> sl_worker_id lease = worker \<and>
          sl_lease_expires_at lease = expires)"

text \<open>The queue row of \<open>k\<close> afterwards.\<close>

definition leased_to ::
  "(string \<times> string) option \<Rightarrow> string \<Rightarrow> time \<Rightarrow> time \<Rightarrow> string \<Rightarrow> queue_row option \<Rightarrow> queue_row option" where
  "leased_to chosen worker expires now k row =
     (case chosen of
        None \<Rightarrow> row
      | Some (j, w) \<Rightarrow> if k = j then map_option (lease_row worker expires now) row else row)"

lemma claim_candidates_alone:
  assumes "queue_inv limit (db, \<lambda>_. 0)" and "1 \<le> limit" and worker: "length_between 1 200 worker"
    and "\<forall>(j, w) \<in> set cs. waits now db j w"
  shows "serves (find (\<lambda>(j, w). active_scans db w < limit) cs) worker expires
    (fst (claim_candidates (\<lambda>_. alone) (\<lambda>_. None) True worker expires limit now i cs db)) \<and>
    (\<forall>k. row_of q_job_id (scan_queue (snd (claim_candidates (\<lambda>_. alone) (\<lambda>_. None) True worker expires limit now i cs db))) k =
      leased_to (find (\<lambda>(j, w). active_scans db w < limit) cs) worker expires now k (row_of q_job_id (scan_queue db) k))"
  using assms(1,4)
proof (induction cs arbitrary: db i)
  case (Cons c cs)
  obtain j w where c: "c = (j, w)" by (cases c)
  note inv = Cons.prems(1) and D = queue_invD [OF Cons.prems(1)]
  obtain r q where rq: "row_of sj_id (scan_jobs db) j = Some r" "row_of q_job_id (scan_queue db) j = Some q"
      "sj_status r = Queued" "sj_workspace_id r = w" "claimable now q"
    using Cons.prems(2) by (auto simp: c waits_def)
  have known: "known_workspace db w" using queue_ok_job(1) [OF D(1) rq(1)] rq(4) by simp
  obtain b db1 where acq: "acquire_scan_slot alone w limit now db = (b, db1)"
    by (cases "acquire_scan_slot alone w limit now db")
  note a = acquire_alone [OF inv known assms(2) acq]
  have run: "good_run limit (db, \<lambda>_. 0) (db1, if b = Inr True then (\<lambda>_. 0)(w := 0 + 1) else (\<lambda>_. 0))"
    using acquire_run [OF good_run_refl [OF inv] _ acq] by simp
  show ?case
  proof (cases "active_scans db w < limit")
    case True
    have ok1: "queue_ok db1" using queue_invD(1) [OF good_run_end [OF run]] .
    let ?db = "pair_update j (start_job now) (lease_row worker expires now) db1"
    have rows1: "row_of sj_id (scan_jobs db1) j = Some r" "row_of q_job_id (scan_queue db1) j = Some q"
      using a rq by simp_all
    note tx = claim_tx_applies [OF ok1 rows1(2) rq(5) rows1(1) rq(3), of worker expires]
    have rows2: "row_of sj_id (scan_jobs ?db) j = Some (start_job now r)"
        "row_of q_job_id (scan_queue ?db) j = Some (lease_row worker expires now q)"
      using rows1 by (simp_all add: pair_update_rows)
    have "row_ok q r" using queue_ok_row [OF D(1) rq(2)] rq(1) by (metis option.inject)
    then have q: "0 \<le> q_attempts q" "q_attempts q < q_max_attempts q" "q_max_attempts q \<le> 20"
      using rq(5) by (simp_all add: row_ok_def claimable_def)
    let ?lease = "\<lparr>sl_job = start_job now r, sl_worker_id = worker, sl_attempt = q_attempts q + 1,
      sl_max_attempts = q_max_attempts q, sl_lease_expires_at = expires\<rparr>"
    have "lease_from_job_id id j worker ?db = (Inr ?lease, ?db)"
      using rows2 q worker queue_ok_job(2) [OF D(1) rq(1)]
      by (simp add: lease_from_job_id_def get_job_def get_state_def optional_row_def job_from_record_def
          validate_job_def state_from_record_def validate_lease_def Let_def lease_row_def start_job_def)
    then have eq: "claim_candidates (\<lambda>_. alone) (\<lambda>_. None) True worker expires limit now i (c # cs) db
        = (Inr (Some ?lease), ?db)"
      using a(1) acq True tx by (simp add: c Let_def id_def)
    have "sj_id r = j" using row_of_SomeD [OF rq(1)] by simp
    then show ?thesis
      unfolding eq using True rq(4) a(3) by (auto simp: c start_job_def serves_def leased_to_def pair_update_rows)
  next
    case False
    have inv1: "queue_inv limit (db1, \<lambda>_. 0)" using good_run_end [OF run] a(1) False by simp
    have "\<forall>(j, w) \<in> set cs. waits now db1 j w"
      using Cons.prems(2) a(2,3) by (simp add: waits_def)
    note IH = Cons.IH [OF inv1 this, of "i + 1"]
    have "active_scans db1 v = active_scans db v" for v using a(4) [of v] False by simp
    moreover have "claim_candidates (\<lambda>_. alone) (\<lambda>_. None) True worker expires limit now i (c # cs) db =
        claim_candidates (\<lambda>_. alone) (\<lambda>_. None) True worker expires limit now (i + 1) cs db1"
      using False a(1) acq by (simp add: c id_def)
    ultimately show ?thesis using IH False a(3) by (simp only: c find.simps prod.case if_False simp_thms)
  qed
qed (simp add: serves_def leased_to_def)

lemma waits_eligible:
  assumes "queue_ok db"
  shows "waits now db j w \<longleftrightarrow>
    (\<exists>q r. (q, r) \<in> set (eligible now db) \<and> q_job_id q = j \<and> sj_workspace_id r = w)"
proof
  assume "waits now db j w"
  then obtain r q where rq: "row_of sj_id (scan_jobs db) j = Some r" "row_of q_job_id (scan_queue db) j = Some q"
      "sj_status r = Queued" "sj_workspace_id r = w" "claimable now q"
    by (auto simp: waits_def)
  then show "\<exists>q r. (q, r) \<in> set (eligible now db) \<and> q_job_id q = j \<and> sj_workspace_id r = w"
    using row_of_SomeD [OF rq(1)] row_of_SomeD [OF rq(2)]
    by (intro exI [of _ q] exI [of _ r]) (simp add: eligible_iff)
next
  assume "\<exists>q r. (q, r) \<in> set (eligible now db) \<and> q_job_id q = j \<and> sj_workspace_id r = w"
  then obtain q r where e: "(q, r) \<in> set (eligible now db)" "q_job_id q = j" "sj_workspace_id r = w" by blast
  then have m: "q \<in> set (scan_queue db)" "r \<in> set (scan_jobs db)" "sj_id r = j" "sj_status r = Queued"
      "claimable now q"
    by (auto simp: eligible_iff)
  show "waits now db j w"
    using row_of_member [OF queue_ok_keyed(1) [OF assms] m(2)] row_of_member [OF queue_ok_keyed(2) [OF assms] m(1)]
      m e by (simp add: waits_def)
qed

lemma eligible_unique:
  assumes "queue_ok db" "(q, r) \<in> set (eligible now db)" "(q', r') \<in> set (eligible now db)"
    "q_job_id q = q_job_id q'"
  shows "(q, r) = (q', r')"
proof -
  have "row_of sj_id (scan_jobs db) (q_job_id x) = Some y \<and> row_of q_job_id (scan_queue db) (q_job_id x) = Some x"
    if "(x, y) \<in> set (eligible now db)" for x y
  proof -
    have e: "y \<in> set (scan_jobs db)" "x \<in> set (scan_queue db)" "sj_id y = q_job_id x"
      using that by (auto simp: eligible_iff)
    show ?thesis
      using row_of_member [OF queue_ok_keyed(1) [OF assms(1)] e(1), unfolded e(3)]
        row_of_member [OF queue_ok_keyed(2) [OF assms(1)] e(2)] by blast
  qed
  note both = this [OF assms(2)] this [OF assms(3), folded assms(4)]
  from both have "Some r = Some r'" "Some q = Some q'" by metis+
  then show ?thesis by simp
qed

lemma distinct_eligible:
  assumes "queue_ok db"
  shows "distinct (eligible now db)"
proof -
  have inner: "eligible now db = concat (map (\<lambda>q. case row_of sj_id (scan_jobs db) (q_job_id q) of None \<Rightarrow> []
      | Some j \<Rightarrow> if sj_status j = Queued \<and> claimable now q then [(q, j)] else []) (scan_queue db))"
    unfolding eligible_def
    by (simp add: join_row [OF queue_ok_keyed(1) [OF assms],
          where P = "\<lambda>j. sj_status j = Queued \<and> claimable now q" for q])
  have "distinct (scan_queue db)"
    using queue_ok_keyed(2) [OF assms] by (simp add: keyed_def distinct_map)
  moreover have "distinct (concat (map (\<lambda>q. case row_of sj_id t (q_job_id q) of None \<Rightarrow> []
      | Some j \<Rightarrow> if sj_status j = Queued \<and> claimable now q then [(q, j)] else []) qs))"
    if "distinct qs" for qs and t :: "scan_job tbl"
    using that by (induction qs) (auto split: option.splits if_splits)
  ultimately show ?thesis unfolding inner by blast
qed

abbreviation entry_workspace :: "queue_row \<times> scan_job \<Rightarrow> string" where
  "entry_workspace e \<equiv> sj_workspace_id (snd e)"

definition firsts :: "time \<Rightarrow> 'x queue_db_scheme \<Rightarrow> (queue_row \<times> scan_job) list" where
  "firsts now db = filter (workspace_first (eligible now db)) (eligible now db)"

lemma firsts_unique:
  assumes "queue_ok db" "e \<in> set (firsts now db)" "e' \<in> set (firsts now db)"
    "entry_workspace e = entry_workspace e'"
  shows "e = e'"
proof -
  have "age_key e \<le> age_key e'" "age_key e' \<le> age_key e"
    using assms(2-4) by (auto simp: firsts_def workspace_first_def list_all_iff)
  then have "age_key e = age_key e'" by simp
  then show ?thesis
    using eligible_unique [OF assms(1), of "fst e" "snd e" now "fst e'" "snd e'"] assms(2,3)
    by (simp add: firsts_def age_key_def case_prod_unfold)
qed

lemma firsts_cover: "entry_workspace ` set (firsts now db) = entry_workspace ` set (eligible now db)"
proof
  show "entry_workspace ` set (firsts now db) \<subseteq> entry_workspace ` set (eligible now db)"
    by (auto simp: firsts_def)
  show "entry_workspace ` set (eligible now db) \<subseteq> entry_workspace ` set (firsts now db)"
  proof
    fix w assume "w \<in> entry_workspace ` set (eligible now db)"
    define S where "S = {e \<in> set (eligible now db). entry_workspace e = w}"
    have S: "finite (age_key ` S)" "age_key ` S \<noteq> {}"
      using \<open>w \<in> _\<close> unfolding S_def by (simp, blast)
    obtain m where m: "m \<in> S" "age_key m = Min (age_key ` S)"
      using Min_in [OF S] by auto
    have "age_key m \<le> age_key e" if "e \<in> S" for e
      using Min_le [OF S(1)] that m(2) by simp
    with m(1) have "m \<in> set (firsts now db)"
      by (auto simp: S_def firsts_def workspace_first_def list_all_iff)
    with m(1) show "w \<in> entry_workspace ` set (firsts now db)" by (auto simp: S_def)
  qed
qed

lemma length_firsts:
  assumes "queue_ok db"
  shows "length (firsts now db) = card {w. \<exists>j. waits now db j w}"
proof -
  have "inj_on entry_workspace (set (firsts now db))"
    by (rule inj_onI) (rule firsts_unique [OF assms])
  moreover have "distinct (firsts now db)"
    using distinct_eligible [OF assms] by (simp add: firsts_def)
  ultimately have "length (firsts now db) = card (entry_workspace ` set (firsts now db))"
    by (simp add: card_image distinct_card)
  also have "entry_workspace ` set (firsts now db) = {w. \<exists>j. waits now db j w}"
    unfolding firsts_cover waits_eligible [OF assms] by (auto simp: image_iff) (force+)
  finally show ?thesis .
qed

lemma set_candidates_first:
  assumes "queue_ok db" "(j, w) \<in> set (candidates now db)"
  shows "waits now db j w"
    "waits now db j' w \<Longrightarrow> row_of sj_id (scan_jobs db) j = Some r \<Longrightarrow>
       row_of sj_id (scan_jobs db) j' = Some r' \<Longrightarrow> (sj_requested_at r, j) \<le> (sj_requested_at r', j')"
proof -
  obtain q x where e: "(q, x) \<in> set (firsts now db)" "q_job_id q = j" "sj_workspace_id x = w"
    using assms(2) by (auto simp: candidates_def firsts_def dest!: in_set_takeD)
  then have el: "(q, x) \<in> set (eligible now db)" by (simp add: firsts_def)
  then show w: "waits now db j w"
    using e(2,3) waits_eligible [OF assms(1)] by blast
  have row: "row_of sj_id (scan_jobs db) (q_job_id a) = Some b" if "(a, b) \<in> set (eligible now db)" for a b
    using that row_of_member [OF queue_ok_keyed(1) [OF assms(1)], of b] by (simp add: eligible_iff)
  assume "waits now db j' w" and r: "row_of sj_id (scan_jobs db) j = Some r"
    and r': "row_of sj_id (scan_jobs db) j' = Some r'"
  then obtain q' x' where e': "(q', x') \<in> set (eligible now db)" "q_job_id q' = j'" "sj_workspace_id x' = w"
    using waits_eligible [OF assms(1)] by blast
  have "age_key (q, x) \<le> age_key (q', x')"
    using e(1,3) e'(1,3) by (auto simp: firsts_def workspace_first_def list_all_iff)
  then show "(sj_requested_at r, j) \<le> (sj_requested_at r', j')"
    using row [OF el] row [OF e'(1)] r r' e(2) e'(2) by (simp add: age_key_def)
qed

lemma candidates_cover:
  assumes "queue_ok db" "card {w. \<exists>j. waits now db j w} \<le> 20" "waits now db j w"
  shows "\<exists>j'. (j', w) \<in> set (candidates now db)"
proof -
  have "length (firsts now db) \<le> 20" using assms(2) by (simp add: length_firsts [OF assms(1)])
  then have "set (take 20 (sort_key age_key (firsts now db))) = set (firsts now db)" by simp
  moreover have "w \<in> entry_workspace ` set (firsts now db)"
    using assms(3) unfolding firsts_cover waits_eligible [OF assms(1)] by force
  ultimately show ?thesis by (fastforce simp: candidates_def firsts_def [symmetric])
qed

text \<open>
  C9. Claims are fair between tenants: a claim goes through the oldest waiting scan of each
  workspace, oldest first, and serves the first one whose workspace has capacity, returning its lease;
  it returns nothing only when no such candidate exists. As long as at most 20 workspaces have
  waiting scans, a workspace with capacity and a waiting scan is always among the candidates, so
  however deep the backlog of saturated tenants is, the claim succeeds.
\<close>

theorem claims_are_fair:
  assumes inv: "queue_inv limit (db, \<lambda>_. 0)" and "1 \<le> limit" and "strip worker \<noteq> []"
    and "length worker \<le> 200" and "5 \<le> secs" and "secs \<le> 3600"
  shows "serves (find (\<lambda>(j, w). active_scans db w < limit) (candidates now db)) worker (now + seconds secs)
      (fst (claim_next (\<lambda>_. alone) (\<lambda>_. None) True worker secs (Some limit) now db)) \<and>
    (\<forall>(j, w) \<in> set (candidates now db). waits now db j w \<and>
      (\<forall>j' r r'. waits now db j' w \<longrightarrow> row_of sj_id (scan_jobs db) j = Some r \<longrightarrow>
         row_of sj_id (scan_jobs db) j' = Some r' \<longrightarrow> (sj_requested_at r, j) \<le> (sj_requested_at r', j'))) \<and>
    (card {w. \<exists>j. waits now db j w} \<le> 20 \<longrightarrow> waits now db k v \<longrightarrow> active_scans db v < limit \<longrightarrow>
      (\<exists>lease. fst (claim_next (\<lambda>_. alone) (\<lambda>_. None) True worker secs (Some limit) now db)
          = Inr (Some lease) \<and> active_scans db (sj_workspace_id (sl_job lease)) < limit))"
proof -
  note ok = queue_invD(1) [OF inv]
  let ?claim = "fst (claim_next (\<lambda>_. alone) (\<lambda>_. None) True worker secs (Some limit) now db)"
  let ?chosen = "find (\<lambda>(j, w). active_scans db w < limit) (candidates now db)"
  have len: "length_between 1 200 worker"
    using assms(3,4) by (cases worker) (auto simp: length_between_def strip_def strip_by_def)
  have waits: "\<forall>(j, w) \<in> set (candidates now db). waits now db j w"
    using set_candidates_first(1) [OF ok] by blast
  have claim: "serves ?chosen worker (now + seconds secs) ?claim"
    using claim_candidates_alone [OF inv assms(2) len waits, of "now + seconds secs" 0, THEN conjunct1] assms
    by (simp add: claim_next_def)
  moreover have "\<exists>lease. ?claim = Inr (Some lease) \<and> active_scans db (sj_workspace_id (sl_job lease)) < limit"
    if few: "card {w. \<exists>j. waits now db j w} \<le> 20" and v: "waits now db k v" "active_scans db v < limit"
  proof -
    obtain j' where "(j', v) \<in> set (candidates now db)" using candidates_cover [OF ok few v(1)] by blast
    then obtain j w where c: "?chosen = Some (j, w)"
      using v(2) by (cases ?chosen) (auto simp: find_NoneD)
    then have "active_scans db w < limit" using find_SomeD [OF c] by simp
    with claim c show ?thesis by (auto simp: serves_def)
  qed
  ultimately show ?thesis using waits set_candidates_first(2) [OF ok] by blast
qed

theorem claims_are_fair_witness:
  "\<exists>lease. fst (claim_next (\<lambda>_. alone) (\<lambda>_. None) True ''worker'' 60 (Some 1) 10 sample_queue) = Inr (Some lease)
     \<and> active_scans sample_queue (sj_workspace_id (sl_job lease)) < 1"
proof -
  have w: "waits 10 sample_queue ''j'' ''w''"
    by (simp add: waits_def sample_queue_tables row_of_Cons new_queue_row_def claimable_def)
  have "waits 10 sample_queue j v \<Longrightarrow> v = ''w''" for j v
    by (auto simp: waits_def sample_queue_tables row_of_Cons split: if_splits)
  with w have "{v. \<exists>j. waits 10 sample_queue j v} = {''w''}" by blast
  then have card: "card {v. \<exists>j. waits 10 sample_queue j v} \<le> 20" by simp
  have act: "active_scans sample_queue ''w'' < 1" by (simp add: active_scans_def sample_queue_tables)
  have strip: "strip ''worker'' \<noteq> []" by (simp add: strip_def strip_by_def is_space_def code_of_def)
  have "\<exists>lease. fst (claim_next (\<lambda>_. alone) (\<lambda>_. None) True ''worker'' 60 (Some 1) 10 sample_queue)
      = Inr (Some lease) \<and> active_scans sample_queue (sj_workspace_id (sl_job lease)) < 1"
    using claims_are_fair [OF sample_queue_inv _ strip, of 60 10 "''j''" "''w''"] card act w by simp
  then show ?thesis .
qed

end
