(* ===== verification/Findings.thy ===== *)
theory Findings
  imports ScanQueue
begin

text \<open>
  The findings store (\<^verbatim>\<open>storage/database.py\<close>). A finding row carries the indexed columns and the
  payload; the payload is the JSON text of the finding, which reads back as the finding itself, so
  the row holds the finding. \<open>Session.merge\<close> replaces the row with the same primary key or adds
  one. The lemmas say what a batch leaves in the two tables; the property is tenant isolation.
\<close>

section \<open>State\<close>

record finding_row =
  fr_id :: string
  fr_asset_id :: string
  fr_asset_name :: string
  fr_family :: string
  fr_algorithm :: string
  fr_primitive :: primitive
  fr_key_size :: "int option"
  fr_risk_score :: int
  fr_severity :: severity
  fr_quantum_status :: quantum_status
  fr_migration_target :: "string option"
  fr_payload :: finding
  fr_discovered_at :: time

record finding_scope =
  fs_finding_id :: string
  fs_workspace_id :: string
  fs_managed_asset_id :: string
  fs_scan_job_id :: string

record findings_db = queue_db +
  findings :: "finding_row tbl"
  finding_scopes :: "finding_scope tbl"

record dashboard_summary =
  ds_total_findings :: int
  ds_critical :: int
  ds_high :: int
  ds_medium :: int
  ds_low :: int
  ds_quantum_vulnerable :: int
  ds_pqc_ready :: int

section \<open>Operations\<close>

definition merge_row :: "('r \<Rightarrow> 'k) \<Rightarrow> 'r \<Rightarrow> 'r tbl \<Rightarrow> 'r tbl" where
  "merge_row key r t =
     (if row_of key t (key r) = None then t @ [r] else update_where (\<lambda>x. key x = key r) (\<lambda>_. r) t)"

definition finding_record :: "finding \<Rightarrow> finding_row" where
  "finding_record f =
     (let obs = fi_observation f; risk = fi_risk f
      in \<lparr>fr_id = ob_id obs, fr_asset_id = ob_asset_id obs, fr_asset_name = ob_asset_name obs,
          fr_family = ob_family obs, fr_algorithm = ob_algorithm obs, fr_primitive = ob_primitive obs,
          fr_key_size = ob_key_size obs, fr_risk_score = ra_score risk,
          fr_severity = ra_severity risk, fr_quantum_status = ra_quantum_status risk,
          fr_migration_target = ra_migration_target risk, fr_payload = f,
          fr_discovered_at = ob_discovered_at obs\<rparr>)"

definition upsert_one ::
  "(string \<times> string \<times> string) option \<Rightarrow> finding \<Rightarrow> 'x findings_db_scheme \<Rightarrow> 'x findings_db_scheme" where
  "upsert_one scope f db =
     (let db' = db\<lparr>findings := merge_row fr_id (finding_record f) (findings db)\<rparr>
      in case scope of
           None \<Rightarrow> db'
         | Some (w, a, j) \<Rightarrow> db'\<lparr>finding_scopes := merge_row fs_finding_id
             \<lparr>fs_finding_id = ob_id (fi_observation f), fs_workspace_id = w, fs_managed_asset_id = a,
              fs_scan_job_id = j\<rparr> (finding_scopes db')\<rparr>)"

definition upsert_many ::
  "finding list \<Rightarrow> string option \<Rightarrow> string option \<Rightarrow> string option \<Rightarrow> 'x findings_db_scheme \<Rightarrow>
   (int, 'x findings_db_scheme) outcome" where
  "upsert_many fs w a j db =
     (if (w \<noteq> None \<or> a \<noteq> None \<or> j \<noteq> None) \<and> \<not> (w \<noteq> None \<and> a \<noteq> None \<and> j \<noteq> None)
      then (Inl (ValueError ''workspace_id, managed_asset_id, and scan_job_id are required together''), db)
      else let scope = (case (w, a, j) of (Some w, Some a, Some j) \<Rightarrow> Some (w, a, j) | _ \<Rightarrow> None)
           in (Inr (int (length fs)), fold (upsert_one scope) fs db))"

definition in_workspace :: "'x findings_db_scheme \<Rightarrow> string option \<Rightarrow> finding_row \<Rightarrow> bool" where
  "in_workspace db w r =
     (case w of None \<Rightarrow> True
      | Some w \<Rightarrow> list_ex (\<lambda>s. fs_workspace_id s = w \<and> fs_finding_id s = fr_id r) (finding_scopes db))"

definition list_findings :: "nat \<Rightarrow> string option \<Rightarrow> 'x findings_db_scheme \<Rightarrow> finding list" where
  "list_findings limit w db =
     map fr_payload
       (take limit (sort_key (\<lambda>r. - fr_risk_score r) (filter (in_workspace db w) (findings db))))"

definition clear_findings :: "'x findings_db_scheme \<Rightarrow> 'x findings_db_scheme" where
  "clear_findings db = db\<lparr>finding_scopes := [], findings := []\<rparr>"

definition findings_summary :: "string option \<Rightarrow> 'x findings_db_scheme \<Rightarrow> dashboard_summary" where
  "findings_summary w db =
     (let count = (\<lambda>P. int (count_where (\<lambda>r. in_workspace db w r \<and> P r) (findings db)))
      in \<lparr>ds_total_findings = count (\<lambda>_. True),
          ds_critical = count (\<lambda>r. fr_severity r = Critical),
          ds_high = count (\<lambda>r. fr_severity r = High),
          ds_medium = count (\<lambda>r. fr_severity r = Medium),
          ds_low = count (\<lambda>r. fr_severity r = Low),
          ds_quantum_vulnerable = count (\<lambda>r. fr_quantum_status r = QVulnerable),
          ds_pqc_ready = count (\<lambda>r. fr_quantum_status r = QSafe)\<rparr>)"

section \<open>Merging\<close>

lemma row_of_merge: "row_of key (merge_row key r t) k = (if k = key r then Some r else row_of key t k)"
proof (cases "row_of key t (key r)")
  case None
  then show ?thesis by (auto simp: merge_row_def row_of_append split: option.split)
next
  case (Some x)
  have "row_of key (update_where (\<lambda>x. key x = key r) (\<lambda>_. r) t) k =
      (if k = key r then map_option (\<lambda>_. r) (row_of key t k) else row_of key t k)"
    by (induction t) (auto simp: row_of_Cons update_where_def)
  with Some show ?thesis by (simp add: merge_row_def)
qed

lemma keyed_merge: "keyed key t \<Longrightarrow> keyed key (merge_row key r t)"
proof (cases "row_of key t (key r)")
  case (Some x)
  have "map key (update_where (\<lambda>x. key x = key r) (\<lambda>_. r) t) = map key t"
    by (auto simp: update_where_def)
  with Some show "keyed key t \<Longrightarrow> keyed key (merge_row key r t)" by (simp add: merge_row_def keyed_def)
qed (simp add: merge_row_def keyed_append)

definition findings_ok :: "'x findings_db_scheme \<Rightarrow> bool" where
  "findings_ok db =
     (keyed fr_id (findings db) \<and> keyed fs_finding_id (finding_scopes db) \<and>
      (\<forall>r \<in> set (findings db). r = finding_record (fr_payload r)))"

lemma in_workspace_row:
  assumes "keyed fs_finding_id (finding_scopes db)"
  shows "in_workspace db (Some w) r \<longleftrightarrow>
    (\<exists>s. row_of fs_finding_id (finding_scopes db) (fr_id r) = Some s \<and> fs_workspace_id s = w)"
proof
  assume "in_workspace db (Some w) r"
  then obtain s where "s \<in> set (finding_scopes db)" "fs_workspace_id s = w" "fs_finding_id s = fr_id r"
    by (auto simp: in_workspace_def list_ex_iff)
  then show "\<exists>s. row_of fs_finding_id (finding_scopes db) (fr_id r) = Some s \<and> fs_workspace_id s = w"
    using row_of_member [OF assms] by metis
next
  assume "\<exists>s. row_of fs_finding_id (finding_scopes db) (fr_id r) = Some s \<and> fs_workspace_id s = w"
  then show "in_workspace db (Some w) r"
    by (auto simp: in_workspace_def list_ex_iff dest: row_of_SomeD)
qed

text \<open>After a batch every table holds the last row written under each id.\<close>

lemma upsert_one_tables:
  "findings (upsert_one scope f db) = merge_row fr_id (finding_record f) (findings db)"
  "finding_scopes (upsert_one (Some (w, a, j)) f db) = merge_row fs_finding_id
     \<lparr>fs_finding_id = ob_id (fi_observation f), fs_workspace_id = w, fs_managed_asset_id = a,
      fs_scan_job_id = j\<rparr> (finding_scopes db)"
  by (simp_all add: upsert_one_def Let_def split: option.split)

lemma finding_record_fields [simp]: "fr_id (finding_record f) = ob_id (fi_observation f)"
    "fr_payload (finding_record f) = f"
  by (simp_all add: finding_record_def Let_def)

abbreviation batch_find :: "finding list \<Rightarrow> string \<Rightarrow> finding option" where
  "batch_find fs k \<equiv> find (\<lambda>f. ob_id (fi_observation f) = k) (rev fs)"

lemma batch_rows:
  "row_of fr_id (findings (fold (upsert_one (Some (w, a, j))) fs db)) k =
     (case batch_find fs k of None \<Rightarrow> row_of fr_id (findings db) k | Some f \<Rightarrow> Some (finding_record f))"
  "row_of fs_finding_id (finding_scopes (fold (upsert_one (Some (w, a, j))) fs db)) k =
     (case batch_find fs k of None \<Rightarrow> row_of fs_finding_id (finding_scopes db) k
      | Some f \<Rightarrow> Some \<lparr>fs_finding_id = k, fs_workspace_id = w, fs_managed_asset_id = a, fs_scan_job_id = j\<rparr>)"
proof (induction fs rule: rev_induct)
  case (snoc f fs)
  { case 1 then show ?case using snoc by (simp add: upsert_one_tables row_of_merge) }
  { case 2 then show ?case using snoc by (auto simp: upsert_one_tables row_of_merge) }
qed simp_all

lemma set_merge: "x \<in> set (merge_row key r t) \<Longrightarrow> x = r \<or> x \<in> set t"
  by (auto simp: merge_row_def set_update_where split: if_splits)

lemma upsert_one_ok:
  assumes "findings_ok db"
  shows "findings_ok (upsert_one scope f db)"
proof -
  have "keyed fs_finding_id (finding_scopes (upsert_one scope f db))"
    using assms by (auto simp: upsert_one_def Let_def findings_ok_def keyed_merge split: option.split)
  with assms show ?thesis
    by (auto simp: findings_ok_def upsert_one_tables keyed_merge dest!: set_merge)
qed

lemma batch_ok: "findings_ok db \<Longrightarrow> findings_ok (fold (upsert_one scope) fs db)"
  by (induction fs arbitrary: db) (auto intro: upsert_one_ok)

lemma set_list_findings:
  assumes "findings_ok db" "length (findings db) \<le> n"
  shows "f \<in> set (list_findings n (Some w) db) \<longleftrightarrow>
    row_of fr_id (findings db) (ob_id (fi_observation f)) = Some (finding_record f) \<and>
    (\<exists>s. row_of fs_finding_id (finding_scopes db) (ob_id (fi_observation f)) = Some s \<and> fs_workspace_id s = w)"
proof -
  have kf: "keyed fr_id (findings db)" and ks: "keyed fs_finding_id (finding_scopes db)"
    and rec: "\<And>r. r \<in> set (findings db) \<Longrightarrow> r = finding_record (fr_payload r)"
    using assms(1) by (auto simp: findings_ok_def)
  have "length (filter (in_workspace db (Some w)) (findings db)) \<le> n"
    using assms(2) length_filter_le [of "in_workspace db (Some w)" "findings db"] by linarith
  then have "set (list_findings n (Some w) db) = fr_payload ` {r \<in> set (findings db). in_workspace db (Some w) r}"
    by (simp add: list_findings_def)
  also have "f \<in> \<dots> \<longleftrightarrow> finding_record f \<in> set (findings db) \<and> in_workspace db (Some w) (finding_record f)"
  proof
    assume "f \<in> fr_payload ` {r \<in> set (findings db). in_workspace db (Some w) r}"
    then obtain r where r: "f = fr_payload r" "r \<in> set (findings db)" "in_workspace db (Some w) r" by blast
    then have "finding_record f = r" using rec by simp
    with r show "finding_record f \<in> set (findings db) \<and> in_workspace db (Some w) (finding_record f)" by simp
  qed (rule image_eqI [of _ _ "finding_record f"], simp_all)
  also have "finding_record f \<in> set (findings db) \<longleftrightarrow>
      row_of fr_id (findings db) (ob_id (fi_observation f)) = Some (finding_record f)"
    by (simp add: row_of_eq_iff [OF kf])
  finally show ?thesis using in_workspace_row [OF ks, of w "finding_record f"] by simp
qed

section \<open>Properties\<close>

text \<open>
  Findings stay in their tenant: storing the findings of a scan for one workspace makes every
  stored finding visible there, under whatever id it carries, and changes nothing of what any other
  workspace sees, provided the ids are not in use in that other workspace.
\<close>

theorem findings_stay_in_their_workspace:
  assumes "findings_ok db" and "upsert_many fs (Some w) (Some a) (Some j) db = (res, db')"
    and "length (findings db) \<le> n" and "length (findings db') \<le> n"
  shows "res = Inr (int (length fs)) \<and>
    (\<forall>f \<in> set fs. \<exists>g \<in> set fs. ob_id (fi_observation g) = ob_id (fi_observation f) \<and>
       g \<in> set (list_findings n (Some w) db')) \<and>
    (v \<noteq> w \<longrightarrow> (\<forall>f \<in> set fs. \<forall>s. row_of fs_finding_id (finding_scopes db) (ob_id (fi_observation f)) = Some s
         \<longrightarrow> fs_workspace_id s \<noteq> v) \<longrightarrow>
       set (list_findings n (Some v) db') = set (list_findings n (Some v) db))"
proof (intro conjI impI ballI)
  have db': "db' = fold (upsert_one (Some (w, a, j))) fs db" and res: "res = Inr (int (length fs))"
    using assms(2) by (auto simp: upsert_many_def)
  show "res = Inr (int (length fs))" by (rule res)
  note rows = batch_rows [of w a j fs db, folded db']
  have ok': "findings_ok db'" unfolding db' by (rule batch_ok) (rule assms(1))
  show "\<exists>g \<in> set fs. ob_id (fi_observation g) = ob_id (fi_observation f) \<and>
       g \<in> set (list_findings n (Some w) db')" if f: "f \<in> set fs" for f
  proof -
    obtain g where g: "batch_find fs (ob_id (fi_observation f)) = Some g"
      using f by (cases "batch_find fs (ob_id (fi_observation f))") (auto simp: find_NoneD)
    then have "g \<in> set fs" "ob_id (fi_observation g) = ob_id (fi_observation f)"
      using find_SomeD [OF g] by auto
    with g rows show ?thesis
      by (intro bexI [of _ g]) (simp_all add: set_list_findings [OF ok' assms(4)])
  qed
  assume v: "v \<noteq> w" and free: "\<forall>f \<in> set fs. \<forall>s.
    row_of fs_finding_id (finding_scopes db) (ob_id (fi_observation f)) = Some s \<longrightarrow> fs_workspace_id s \<noteq> v"
  show "set (list_findings n (Some v) db') = set (list_findings n (Some v) db)"
  proof (rule set_eqI)
    fix f
    show "f \<in> set (list_findings n (Some v) db') \<longleftrightarrow> f \<in> set (list_findings n (Some v) db)"
    proof (cases "batch_find fs (ob_id (fi_observation f))")
      case None
      then show ?thesis
        using rows by (simp add: set_list_findings [OF ok' assms(4)] set_list_findings [OF assms(1,3)])
    next
      case (Some g)
      then have "g \<in> set fs" "ob_id (fi_observation g) = ob_id (fi_observation f)"
        using find_SomeD [OF Some] by auto
      with Some free v rows show ?thesis
        by (auto simp: set_list_findings [OF ok' assms(4)] set_list_findings [OF assms(1,3)])
    qed
  qed
qed

definition empty_findings_db :: findings_db where
  "empty_findings_db = \<lparr>workspaces = [], managed_assets = [], scan_jobs = [], rate_buckets = [], runtimes = [],
     scan_queue = [], findings = [], finding_scopes = []\<rparr>"

definition sample_finding :: finding where
  "sample_finding = \<lparr>fi_observation = sample_observation, fi_risk = \<lparr>ra_observation_id = ob_id sample_observation,
     ra_score = 60, ra_severity = High, ra_quantum_status = QVulnerable, ra_reasons = [],
     ra_migration_target = None, ra_migration_strategy = None, ra_security_bits = None,
     ra_policy_id = None, ra_policy_version = None, ra_policy_name = None, ra_policy_status = None,
     ra_policy_reasons = [], ra_policy_controls = [], ra_policy_rules_hash = None\<rparr>\<rparr>"

theorem findings_stay_in_their_workspace_witness:
  "sample_finding \<in> set (list_findings 5 (Some ''w'')
     (snd (upsert_many [sample_finding] (Some ''w'') (Some ''a'') (Some ''j'') empty_findings_db)))"
proof -
  obtain res db' where call: "upsert_many [sample_finding] (Some ''w'') (Some ''a'') (Some ''j'') empty_findings_db
      = (res, db')" by (metis prod.collapse)
  have ok: "findings_ok empty_findings_db" by (simp add: findings_ok_def empty_findings_db_def keyed_def)
  have "length (findings empty_findings_db) \<le> 5" "length (findings db') \<le> 5"
    using call by (auto simp: empty_findings_db_def upsert_many_def upsert_one_tables merge_row_def)
  from findings_stay_in_their_workspace [OF ok call this, of "''v''"] call show ?thesis by simp
qed

end
