(* ===== verification/Continuous.thy ===== *)
theory Continuous
  imports Findings
begin

text \<open>
  Continuous scanning: \<^verbatim>\<open>domain/continuous.py\<close> and \<^verbatim>\<open>storage/continuous.py\<close>. Recurring schedules, the
  preparation of a scan's findings, and the drift that a recorded scan reports against the states
  of the asset's observations. SHA-256, the JSON text of the two digested payloads and the ISO
  format of an instant are the parameters in \<open>hashing\<close>; the fresh ids of drift events come from
  \<open>uuid\<close>. The loop that moves a schedule past the present need not end for a non-positive interval, so it
  is a partial function.
\<close>

section \<open>State\<close>

datatype scan_origin = Api | Schedule

datatype drift_event_type = Introduced | Changed | Resolved | RiskIncreased | RiskDecreased

record scan_schedule =
  sd_id :: string
  sd_workspace_id :: string
  sd_asset_id :: string
  sd_interval_seconds :: int
  sd_max_attempts :: int
  sd_enabled :: bool
  sd_next_run_at :: time
  sd_last_run_at :: "time option"
  sd_created_by :: string
  sd_created_at :: time
  sd_updated_at :: time

record scheduled_execution =
  se_job_id :: string
  se_schedule_id :: string
  se_workspace_id :: string
  se_asset_id :: string
  se_scheduled_for :: time
  se_enqueued_at :: time

record scan_snapshot =
  ss_job_id :: string
  ss_workspace_id :: string
  ss_asset_id :: string
  ss_origin :: scan_origin
  ss_schedule_id :: "string option"
  ss_scheduled_for :: "time option"
  ss_completed_at :: time
  ss_finding_count :: int
  ss_scanner_version :: string
  ss_policy_version :: string
  ss_fingerprint_set_hash :: string

record observation_state =
  os_id :: string
  os_workspace_id :: string
  os_asset_id :: string
  os_fingerprint :: string
  os_active :: bool
  os_first_seen :: time
  os_last_seen :: time
  os_first_job_id :: string
  os_last_job_id :: string
  os_occurrence_count :: int
  os_risk_score :: int
  os_severity :: severity
  os_quantum_status :: quantum_status
  os_evidence_hash :: string
  os_finding_payload :: finding
  os_updated_at :: time

record observation_occurrence =
  oc_id :: string
  oc_job_id :: string
  oc_workspace_id :: string
  oc_asset_id :: string
  oc_fingerprint :: string
  oc_finding_id :: string
  oc_observed_at :: time
  oc_risk_score :: int
  oc_severity :: severity
  oc_quantum_status :: quantum_status
  oc_evidence_hash :: string
  oc_finding_payload :: finding
  oc_scanner_version :: string
  oc_policy_version :: string

record drift_event =
  de_id :: string
  de_workspace_id :: string
  de_asset_id :: string
  de_scan_job_id :: string
  de_fingerprint :: string
  de_event_type :: drift_event_type
  de_previous_risk_score :: "int option"
  de_new_risk_score :: "int option"
  de_previous_severity :: "severity option"
  de_new_severity :: "severity option"
  de_occurred_at :: time
  de_details :: "string \<times> primitive \<times> string option \<times> int option \<times> quantum_status"

record continuous_db = findings_db +
  scan_schedules :: "scan_schedule tbl"
  scheduled_executions :: "scheduled_execution tbl"
  scan_snapshots :: "scan_snapshot tbl"
  observation_states :: "observation_state tbl"
  occurrences :: "observation_occurrence tbl"
  drift_events :: "drift_event tbl"

section \<open>Schedules\<close>

definition schedule_conflict :: "scan_schedule \<Rightarrow> scan_schedule \<Rightarrow> bool" where
  "schedule_conflict x s =
     (sd_id x = sd_id s \<or>
      sd_workspace_id x = sd_workspace_id s \<and> sd_asset_id x = sd_asset_id s)"

definition create_schedule ::
  "('x continuous_db_scheme \<Rightarrow> 'x continuous_db_scheme) \<Rightarrow> string \<Rightarrow> string \<Rightarrow> string \<Rightarrow> int \<Rightarrow> int \<Rightarrow>
   time option \<Rightarrow> string \<Rightarrow> time \<Rightarrow> 'x continuous_db_scheme \<Rightarrow>
   (scan_schedule, 'x continuous_db_scheme) outcome" where
  "create_schedule env ident w a interval max_attempts first_run_at created_by now db =
     (if \<not> (60 \<le> interval \<and> interval \<le> 2592000)
      then (Inl (ValueError ''schedule interval must be between 60 seconds and 30 days''), db)
      else if \<not> (1 \<le> max_attempts \<and> max_attempts \<le> 20)
      then (Inl (ValueError ''max_attempts must be between 1 and 20''), db)
      else if strip created_by = [] then (Inl (ValueError ''created_by is required''), db)
      else case get_asset w a db of
             Inl e \<Rightarrow> (Inl e, db)
           | Inr None \<Rightarrow> (Inl (LookupError ''asset not found in workspace''), db)
           | Inr (Some _) \<Rightarrow>
               let s = \<lparr>sd_id = ident, sd_workspace_id = w, sd_asset_id = a,
                       sd_interval_seconds = interval, sd_max_attempts = max_attempts,
                       sd_enabled = True,
                       sd_next_run_at = (case first_run_at of None \<Rightarrow> now | Some t \<Rightarrow> t),
                       sd_last_run_at = None, sd_created_by = created_by, sd_created_at = now,
                       sd_updated_at = now\<rparr>;
                   db' = env db
               in case insert_row schedule_conflict s (scan_schedules db') of
                    None \<Rightarrow> (Inl (ValueError ''asset already has a scan schedule''), db')
                  | Some t \<Rightarrow> (Inr s, db'\<lparr>scan_schedules := t\<rparr>))"

text \<open>Reading a row back constructs the domain object, which checks its bounds.\<close>

definition schedule_from_record :: "scan_schedule \<Rightarrow> scan_schedule result" where
  "schedule_from_record s =
     (if \<not> (60 \<le> sd_interval_seconds s \<and> sd_interval_seconds s \<le> 2592000)
      then Inl (ValidationError ''interval_seconds'')
      else if \<not> (1 \<le> sd_max_attempts s \<and> sd_max_attempts s \<le> 20)
      then Inl (ValidationError ''max_attempts'')
      else Inr s)"

definition due_order :: "scan_schedule \<Rightarrow> time \<times> string" where
  "due_order s = (sd_next_run_at s, sd_id s)"

definition list_schedules :: "string \<Rightarrow> 'x continuous_db_scheme \<Rightarrow> scan_schedule list result" where
  "list_schedules w db =
     map_rows schedule_from_record
       (sort_key due_order (filter (\<lambda>s. sd_workspace_id s = w) (scan_schedules db)))"

definition get_schedule :: "string \<Rightarrow> string \<Rightarrow> 'x continuous_db_scheme \<Rightarrow> scan_schedule option result" where
  "get_schedule w s db =
     optional_row schedule_from_record
       (first_where (\<lambda>r. sd_workspace_id r = w \<and> sd_id r = s) (scan_schedules db))"

definition set_schedule_enabled ::
  "('x continuous_db_scheme \<Rightarrow> 'x continuous_db_scheme) \<Rightarrow> string \<Rightarrow> string \<Rightarrow> bool \<Rightarrow> time option \<Rightarrow> time \<Rightarrow>
   'x continuous_db_scheme \<Rightarrow> (scan_schedule, 'x continuous_db_scheme) outcome" where
  "set_schedule_enabled env w s enabled resume_at now db =
     (let guard = (\<lambda>r. sd_id r = s \<and> sd_workspace_id r = w);
          set_values = (\<lambda>r. r\<lparr>sd_enabled := enabled, sd_updated_at := now,
            sd_next_run_at := (case resume_at of Some t \<Rightarrow> if enabled then t else sd_next_run_at r
                               | None \<Rightarrow> sd_next_run_at r)\<rparr>)
      in if count_where guard (scan_schedules db) \<noteq> 1
         then (Inl (LookupError ''scan schedule not found in workspace''), db)
         else let db' = env (db\<lparr>scan_schedules := update_where guard set_values (scan_schedules db)\<rparr>)
              in case get_schedule w s db' of
                   Inl e \<Rightarrow> (Inl e, db')
                 | Inr None \<Rightarrow> (Inl (RuntimeError ''scan schedule disappeared after update''), db')
                 | Inr (Some x) \<Rightarrow> (Inr x, db'))"

definition delete_schedule ::
  "string \<Rightarrow> string \<Rightarrow> 'x continuous_db_scheme \<Rightarrow> (unit, 'x continuous_db_scheme) outcome" where
  "delete_schedule w s db =
     (case first_where (\<lambda>r. sd_workspace_id r = w \<and> sd_id r = s) (scan_schedules db) of
        None \<Rightarrow> (Inl (LookupError ''scan schedule not found in workspace''), db)
      | Some _ \<Rightarrow> (Inr (), db\<lparr>scan_schedules := delete_where (\<lambda>r. sd_id r = s) (scan_schedules db),
                          scheduled_executions := delete_where (\<lambda>e. se_schedule_id e = s) (scheduled_executions db)\<rparr>))"

definition list_due_schedules ::
  "time \<Rightarrow> int \<Rightarrow> 'x continuous_db_scheme \<Rightarrow> scan_schedule list result" where
  "list_due_schedules now limit db =
     (if \<not> (1 \<le> limit \<and> limit \<le> 1000)
      then Inl (ValueError ''schedule batch limit must be between 1 and 1000'')
      else map_rows schedule_from_record
             (take (nat limit) (sort_key due_order
               (filter (\<lambda>s. sd_enabled s \<and> sd_next_run_at s \<le> now) (scan_schedules db)))))"

text \<open>\<open>while next_run <= current: next_run += interval\<close>.\<close>

partial_function (option) advance_loop :: "time \<Rightarrow> time \<Rightarrow> time \<Rightarrow> time option" where
  "advance_loop interval current next =
     (if next \<le> current then advance_loop interval current (next + interval) else Some next)"

text \<open>The result \<open>None\<close> is the call that does not return.\<close>

definition advance_schedule ::
  "scan_schedule \<Rightarrow> time \<Rightarrow> time \<Rightarrow> 'x continuous_db_scheme \<Rightarrow> (bool \<times> 'x continuous_db_scheme) option" where
  "advance_schedule s scheduled_for now db =
     (case advance_loop (seconds (sd_interval_seconds s)) now
             (scheduled_for + seconds (sd_interval_seconds s)) of
        None \<Rightarrow> None
      | Some next_run \<Rightarrow>
          let guard = (\<lambda>r. sd_id r = sd_id s \<and> sd_workspace_id r = sd_workspace_id s \<and>
                sd_enabled r \<and> sd_next_run_at r = scheduled_for)
          in Some (if count_where guard (scan_schedules db) \<noteq> 1 then (False, db)
                   else (True, db\<lparr>scan_schedules := update_where guard
                     (\<lambda>r. r\<lparr>sd_last_run_at := Some scheduled_for, sd_next_run_at := next_run,
                            sd_updated_at := now\<rparr>) (scan_schedules db)\<rparr>)))"

definition execution_conflict :: "scheduled_execution \<Rightarrow> scheduled_execution \<Rightarrow> bool" where
  "execution_conflict x e =
     (se_job_id x = se_job_id e \<or>
      se_schedule_id x = se_schedule_id e \<and> se_scheduled_for x = se_scheduled_for e)"

definition find_execution ::
  "string \<Rightarrow> time \<Rightarrow> 'x continuous_db_scheme \<Rightarrow> scheduled_execution option" where
  "find_execution s t db =
     first_where (\<lambda>e. se_schedule_id e = s \<and> se_scheduled_for e = t) (scheduled_executions db)"

definition record_scheduled_execution ::
  "('x continuous_db_scheme \<Rightarrow> 'x continuous_db_scheme) \<Rightarrow> scan_schedule \<Rightarrow> string \<Rightarrow> time \<Rightarrow> time \<Rightarrow>
   'x continuous_db_scheme \<Rightarrow> (unit, 'x continuous_db_scheme) outcome" where
  "record_scheduled_execution env s job_id scheduled_for now db =
     (case find_execution (sd_id s) scheduled_for db of
        Some existing \<Rightarrow>
          (if se_job_id existing \<noteq> job_id
           then Inl (RuntimeError ''scheduled occurrence is bound to another scan job'') else Inr (), db)
      | None \<Rightarrow>
          let db' = env db;
              e = \<lparr>se_job_id = job_id, se_schedule_id = sd_id s, se_workspace_id = sd_workspace_id s,
                   se_asset_id = sd_asset_id s, se_scheduled_for = scheduled_for, se_enqueued_at = now\<rparr>
          in case insert_row execution_conflict e (scheduled_executions db') of
               Some t \<Rightarrow> (Inr (), db'\<lparr>scheduled_executions := t\<rparr>)
             | None \<Rightarrow>
                 (case find_execution (sd_id s) scheduled_for db' of
                    None \<Rightarrow> (Inl IntegrityError, db')
                  | Some existing \<Rightarrow>
                      (if se_job_id existing \<noteq> job_id then Inl IntegrityError else Inr (), db')))"

section \<open>Fingerprints\<close>

record fingerprint_key =
  fk_asset_id :: string
  fk_crypto_asset_type :: crypto_asset_type
  fk_algorithm :: string
  fk_family :: string
  fk_primitive :: primitive
  fk_parameter_set :: "string option"
  fk_key_size :: "int option"
  fk_protocol_version :: "string option"
  fk_source :: string
  fk_locator :: "string option"
  fk_line :: "int option"

record evidence_key =
  ek_evidence :: evidence
  ek_parameter_set :: "string option"
  ek_key_size :: "int option"
  ek_protocol_version :: "string option"
  ek_confidence :: rat

text \<open>\<open>hashlib.sha256(s.encode()).hexdigest()\<close>, \<open>json.dumps\<close> of the two payloads, \<open>isoformat\<close>.\<close>

record hashing =
  sha256 :: "string \<Rightarrow> string"
  dumps_fingerprint :: "fingerprint_key \<Rightarrow> string"
  dumps_evidence :: "evidence_key \<Rightarrow> string"
  isoformat :: "time \<Rightarrow> string"

definition fingerprint_key :: "finding \<Rightarrow> fingerprint_key" where
  "fingerprint_key f =
     (let obs = fi_observation f
      in \<lparr>fk_asset_id = ob_asset_id obs, fk_crypto_asset_type = ob_crypto_asset_type obs,
          fk_algorithm = lower (strip (ob_algorithm obs)), fk_family = lower (strip (ob_family obs)),
          fk_primitive = ob_primitive obs, fk_parameter_set = ob_parameter_set obs,
          fk_key_size = ob_key_size obs, fk_protocol_version = ob_protocol_version obs,
          fk_source = lower (strip (ev_source (ob_evidence obs))),
          fk_locator = ev_locator (ob_evidence obs), fk_line = ev_line (ob_evidence obs)\<rparr>)"

definition observation_fingerprint :: "hashing \<Rightarrow> finding \<Rightarrow> string" where
  "observation_fingerprint h f = sha256 h (dumps_fingerprint h (fingerprint_key f))"

definition evidence_hash :: "hashing \<Rightarrow> finding \<Rightarrow> string" where
  "evidence_hash h f =
     (let obs = fi_observation f
      in sha256 h (dumps_evidence h
           \<lparr>ek_evidence = ob_evidence obs, ek_parameter_set = ob_parameter_set obs,
            ek_key_size = ob_key_size obs, ek_protocol_version = ob_protocol_version obs,
            ek_confidence = ob_confidence obs\<rparr>))"

definition scheduled_job_id :: "hashing \<Rightarrow> string \<Rightarrow> time \<Rightarrow> string" where
  "scheduled_job_id h s t = sha256 h (''schedule:'' @ s @ ''|at:'' @ isoformat h t)"

section \<open>Preparing findings\<close>

text \<open>The dictionary \<open>selected\<close>, in insertion order.\<close>

definition select_finding :: "hashing \<Rightarrow> finding \<Rightarrow> (string \<times> finding) list \<Rightarrow> (string \<times> finding) list" where
  "select_finding h f selected =
     (let k = observation_fingerprint h f
      in case map_of selected k of
           None \<Rightarrow> selected @ [(k, f)]
         | Some current \<Rightarrow>
             if ra_score (fi_risk f) > ra_score (fi_risk current)
             then map (\<lambda>(k', g). (k', if k' = k then f else g)) selected else selected)"

definition relabel :: "string \<Rightarrow> finding \<Rightarrow> finding" where
  "relabel i f =
     f\<lparr>fi_observation := (fi_observation f)\<lparr>ob_id := i\<rparr>,
       fi_risk := (fi_risk f)\<lparr>ra_observation_id := i\<rparr>\<rparr>"

definition prepare_findings :: "hashing \<Rightarrow> string \<Rightarrow> finding list \<Rightarrow> finding list" where
  "prepare_findings h job_id fs =
     map (\<lambda>(k, f). relabel (sha256 h (''scan:'' @ job_id @ ''|observation:'' @ k)) f)
       (sort_key fst (fold (select_finding h) fs []))"

section \<open>Recording a scan\<close>

definition new_event ::
  "string \<Rightarrow> string \<Rightarrow> string \<Rightarrow> string \<Rightarrow> string \<Rightarrow> drift_event_type \<Rightarrow> finding \<Rightarrow> time \<Rightarrow> int option \<Rightarrow>
   severity option \<Rightarrow> bool \<Rightarrow> drift_event" where
  "new_event ident w a job k type f now previous_score previous_severity resolved =
     (let obs = fi_observation f; risk = fi_risk f
      in \<lparr>de_id = ident, de_workspace_id = w, de_asset_id = a, de_scan_job_id = job, de_fingerprint = k,
          de_event_type = type, de_previous_risk_score = previous_score,
          de_new_risk_score = (if resolved then None else Some (ra_score risk)),
          de_previous_severity = previous_severity,
          de_new_severity = (if resolved then None else Some (ra_severity risk)),
          de_occurred_at = now,
          de_details = (ob_algorithm obs, ob_primitive obs, ev_locator (ob_evidence obs),
                        ev_line (ob_evidence obs), ra_quantum_status risk)\<rparr>)"

definition new_state ::
  "hashing \<Rightarrow> string \<Rightarrow> string \<Rightarrow> string \<Rightarrow> time \<Rightarrow> string \<Rightarrow> finding \<Rightarrow> observation_state" where
  "new_state h w a job now k f =
     \<lparr>os_id = sha256 h (w @ ''|'' @ a @ ''|'' @ k), os_workspace_id = w, os_asset_id = a,
      os_fingerprint = k, os_active = True, os_first_seen = now, os_last_seen = now,
      os_first_job_id = job, os_last_job_id = job, os_occurrence_count = 1,
      os_risk_score = ra_score (fi_risk f), os_severity = ra_severity (fi_risk f),
      os_quantum_status = ra_quantum_status (fi_risk f), os_evidence_hash = evidence_hash h f,
      os_finding_payload = f, os_updated_at = now\<rparr>"

definition seen_again :: "hashing \<Rightarrow> string \<Rightarrow> time \<Rightarrow> finding \<Rightarrow> observation_state \<Rightarrow> observation_state" where
  "seen_again h job now f s =
     s\<lparr>os_active := True, os_last_seen := now, os_last_job_id := job,
       os_occurrence_count := os_occurrence_count s + 1, os_risk_score := ra_score (fi_risk f),
       os_severity := ra_severity (fi_risk f), os_quantum_status := ra_quantum_status (fi_risk f),
       os_evidence_hash := evidence_hash h f, os_finding_payload := f, os_updated_at := now\<rparr>"

definition gone :: "string \<Rightarrow> time \<Rightarrow> observation_state \<Rightarrow> observation_state" where
  "gone job now s = s\<lparr>os_active := False, os_last_job_id := job, os_updated_at := now\<rparr>"

text \<open>The kinds of events a finding raises against the stored state of its fingerprint, in order.\<close>

definition changed_since :: "hashing \<Rightarrow> finding \<Rightarrow> observation_state \<Rightarrow> bool" where
  "changed_since h f s =
     (os_evidence_hash s \<noteq> evidence_hash h f \<or> os_severity s \<noteq> ra_severity (fi_risk f) \<or>
      os_quantum_status s \<noteq> ra_quantum_status (fi_risk f))"

definition state_events :: "hashing \<Rightarrow> bool \<Rightarrow> finding \<Rightarrow> observation_state \<Rightarrow> drift_event_type list" where
  "state_events h baseline f s =
     (if baseline \<and> \<not> os_active s then [Introduced] else [])
     @ (if baseline \<and> os_active s \<and> changed_since h f s then [Changed] else [])
     @ (if baseline \<and> os_active s \<and> ra_score (fi_risk f) > os_risk_score s then [RiskIncreased]
        else if baseline \<and> os_active s \<and> ra_score (fi_risk f) < os_risk_score s then [RiskDecreased]
        else [])"

definition state_of ::
  "string \<Rightarrow> string \<Rightarrow> string \<Rightarrow> observation_state tbl \<Rightarrow> observation_state option" where
  "state_of w a k t =
     first_where (\<lambda>s. os_workspace_id s = w \<and> os_asset_id s = a \<and> os_fingerprint s = k) t"

text \<open>Events as (fingerprint, kind, finding, previous score, previous severity, resolved).\<close>

type_synonym raw_event =
  "string \<times> drift_event_type \<times> finding \<times> int option \<times> severity option \<times> bool"

definition observe ::
  "hashing \<Rightarrow> string \<Rightarrow> string \<Rightarrow> string \<Rightarrow> time \<Rightarrow> bool \<Rightarrow> finding \<Rightarrow>
   observation_state tbl \<times> raw_event list \<Rightarrow> observation_state tbl \<times> raw_event list" where
  "observe h w a job now baseline f acc =
     (let (states, events) = acc; k = observation_fingerprint h f
      in case state_of w a k states of
           None \<Rightarrow> (states @ [new_state h w a job now k f],
                    events @ (if baseline then [(k, Introduced, f, None, None, False)] else []))
         | Some s \<Rightarrow>
             (update_where (\<lambda>x. os_workspace_id x = w \<and> os_asset_id x = a \<and> os_fingerprint x = k)
                (seen_again h job now f) states,
              events @ map (\<lambda>ty. (k, ty, f, Some (os_risk_score s), Some (os_severity s), False))
                         (state_events h baseline f s)))"

definition resolve ::
  "string \<Rightarrow> string \<Rightarrow> string \<Rightarrow> time \<Rightarrow> bool \<Rightarrow> string \<Rightarrow>
   observation_state tbl \<times> raw_event list \<Rightarrow> observation_state tbl \<times> raw_event list" where
  "resolve w a job now baseline k acc =
     (let (states, events) = acc
      in case state_of w a k states of
           None \<Rightarrow> (states, events)
         | Some s \<Rightarrow>
             (update_where (\<lambda>x. os_workspace_id x = w \<and> os_asset_id x = a \<and> os_fingerprint x = k)
                (gone job now) states,
              events @ (if baseline
                then [(k, Resolved, os_finding_payload s, Some (os_risk_score s), Some (os_severity s), True)]
                else [])))"

definition new_occurrence ::
  "hashing \<Rightarrow> string \<Rightarrow> string \<Rightarrow> string \<Rightarrow> time \<Rightarrow> string \<Rightarrow> string \<Rightarrow> finding \<Rightarrow> observation_occurrence" where
  "new_occurrence h w a job now scanner_version policy_version f =
     (let k = observation_fingerprint h f; risk = fi_risk f
      in \<lparr>oc_id = sha256 h (job @ ''|'' @ k), oc_job_id = job, oc_workspace_id = w, oc_asset_id = a,
          oc_fingerprint = k, oc_finding_id = ob_id (fi_observation f), oc_observed_at = now,
          oc_risk_score = ra_score risk, oc_severity = ra_severity risk,
          oc_quantum_status = ra_quantum_status risk, oc_evidence_hash = evidence_hash h f,
          oc_finding_payload = f, oc_scanner_version = scanner_version,
          oc_policy_version = policy_version\<rparr>)"

fun join_bars :: "string list \<Rightarrow> string" where
  "join_bars [] = []"
| "join_bars [s] = s"
| "join_bars (s # t # ss) = s @ ''|'' @ join_bars (t # ss)"

text \<open>The constraints the commit checks on the tables it writes.\<close>

definition recording_commits :: "'x continuous_db_scheme \<Rightarrow> bool" where
  "recording_commits db =
     (distinct (map os_id (observation_states db)) \<and>
      distinct (map (\<lambda>s. (os_workspace_id s, os_asset_id s, os_fingerprint s)) (observation_states db)) \<and>
      distinct (map oc_id (occurrences db)) \<and>
      distinct (map (\<lambda>x. (oc_job_id x, oc_fingerprint x)) (occurrences db)) \<and>
      distinct (map de_id (drift_events db)) \<and>
      distinct (map ss_job_id (scan_snapshots db)))"

definition active_fingerprints :: "string \<Rightarrow> string \<Rightarrow> observation_state tbl \<Rightarrow> string list" where
  "active_fingerprints w a t =
     map os_fingerprint (filter (\<lambda>s. os_workspace_id s = w \<and> os_asset_id s = a \<and> os_active s) t)"

definition drift_of ::
  "hashing \<Rightarrow> string \<Rightarrow> string \<Rightarrow> string \<Rightarrow> time \<Rightarrow> bool \<Rightarrow> finding list \<Rightarrow> observation_state tbl \<Rightarrow>
   observation_state tbl \<times> raw_event list" where
  "drift_of h w a job now baseline prepared states =
     (let current = map (observation_fingerprint h) prepared;
          disappeared = sort (remdups (filter (\<lambda>k. k \<notin> set current) (active_fingerprints w a states)))
      in fold (resolve w a job now baseline) disappeared
           (fold (observe h w a job now baseline) prepared (states, [])))"

definition event_of ::
  "(nat \<Rightarrow> string) \<Rightarrow> string \<Rightarrow> string \<Rightarrow> string \<Rightarrow> time \<Rightarrow> nat \<times> raw_event \<Rightarrow> drift_event" where
  "event_of uuid w a job now = (\<lambda>(i, k, type, f, score, severity, resolved).
     new_event (uuid i) w a job k type f now score severity resolved)"

text \<open>
  One transaction; a constraint violated at the commit rolls everything back. Scan jobs that were
  recorded before return the stored events.
\<close>

definition record_successful_scan ::
  "hashing \<Rightarrow> (nat \<Rightarrow> string) \<Rightarrow> string \<Rightarrow> string \<Rightarrow> string \<Rightarrow> finding list \<Rightarrow> time \<Rightarrow> string \<Rightarrow> string \<Rightarrow>
   'x continuous_db_scheme \<Rightarrow> (drift_event list, 'x continuous_db_scheme) outcome" where
  "record_successful_scan h uuid w a job fs now scanner_version policy_version db =
     (let prepared = prepare_findings h job fs
      in if row_of ss_job_id (scan_snapshots db) job \<noteq> None
         then (Inr (sort_key (\<lambda>e. (de_occurred_at e, de_id e))
                 (filter (\<lambda>e. de_scan_job_id e = job) (drift_events db))), db)
         else
           let baseline = (count_where (\<lambda>s. ss_workspace_id s = w \<and> ss_asset_id s = a) (scan_snapshots db) > 0);
               (states, raw) = drift_of h w a job now baseline prepared (observation_states db);
               events = map (event_of uuid w a job now) (enumerate 0 raw);
               scheduled = row_of se_job_id (scheduled_executions db) job;
               snapshot = \<lparr>ss_job_id = job, ss_workspace_id = w, ss_asset_id = a,
                 ss_origin = (if scheduled \<noteq> None then Schedule else Api),
                 ss_schedule_id = map_option se_schedule_id scheduled,
                 ss_scheduled_for = map_option se_scheduled_for scheduled, ss_completed_at = now,
                 ss_finding_count = int (length prepared), ss_scanner_version = scanner_version,
                 ss_policy_version = policy_version,
                 ss_fingerprint_set_hash =
                   sha256 h (join_bars (sort (map (observation_fingerprint h) prepared)))\<rparr>;
               db' = db\<lparr>observation_states := states,
                 occurrences := occurrences db @
                   map (new_occurrence h w a job now scanner_version policy_version) prepared,
                 drift_events := drift_events db @ events,
                 scan_snapshots := scan_snapshots db @ [snapshot]\<rparr>
           in if recording_commits db' then (Inr events, db') else (Inl IntegrityError, db))"

section \<open>Queries\<close>

definition list_scan_history ::
  "string \<Rightarrow> string option \<Rightarrow> nat \<Rightarrow> 'x continuous_db_scheme \<Rightarrow> scan_snapshot list" where
  "list_scan_history w a limit db =
     take limit (sort_key (\<lambda>s. - ss_completed_at s)
       (filter (\<lambda>s. ss_workspace_id s = w \<and> (a = None \<or> a = Some (ss_asset_id s))) (scan_snapshots db)))"

definition list_drift_events ::
  "string \<Rightarrow> string option \<Rightarrow> nat \<Rightarrow> 'x continuous_db_scheme \<Rightarrow> drift_event list" where
  "list_drift_events w a limit db =
     take limit (sort_key (\<lambda>e. - de_occurred_at e)
       (filter (\<lambda>e. de_workspace_id e = w \<and> (a = None \<or> a = Some (de_asset_id e))) (drift_events db)))"

definition list_observation_states ::
  "string \<Rightarrow> string \<Rightarrow> bool \<Rightarrow> 'x continuous_db_scheme \<Rightarrow> observation_state list" where
  "list_observation_states w a active_only db =
     sort_key os_fingerprint
       (filter (\<lambda>s. os_workspace_id s = w \<and> os_asset_id s = a \<and> (active_only \<longrightarrow> os_active s))
          (observation_states db))"

end
