(* ===== verification/Drift.thy ===== *)
theory Drift
  imports Continuous "HOL-Library.Multiset"
begin

text \<open>
  Properties of continuous scanning: preparing findings removes duplicates without losing risk,
  the drift of a recorded scan is exactly the difference to the active observations, recording is
  idempotent, and schedules advance to the next grid point in the future, once.
\<close>

section \<open>Prepared findings\<close>

abbreviation score_of_finding :: "finding \<Rightarrow> int" where
  "score_of_finding f \<equiv> ra_score (fi_risk f)"

definition selection_ok :: "hashing \<Rightarrow> finding list \<Rightarrow> (string \<times> finding) list \<Rightarrow> bool" where
  "selection_ok h fs sel =
     (distinct (map fst sel) \<and>
      (\<forall>(k, f) \<in> set sel. f \<in> set fs \<and> observation_fingerprint h f = k \<and>
         (\<forall>g \<in> set fs. observation_fingerprint h g = k \<longrightarrow> score_of_finding g \<le> score_of_finding f)) \<and>
      (\<forall>g \<in> set fs. observation_fingerprint h g \<in> fst ` set sel))"

lemma select_finding_ok:
  assumes ok: "selection_ok h fs sel"
  shows "selection_ok h (fs @ [f]) (select_finding h f sel)"
proof (cases "map_of sel (observation_fingerprint h f)")
  case None
  then have new: "observation_fingerprint h f \<notin> fst ` set sel" by (simp add: map_of_eq_None_iff)
  then have "\<forall>g \<in> set fs. observation_fingerprint h g \<noteq> observation_fingerprint h f"
    using ok unfolding selection_ok_def by metis
  with None new ok show ?thesis
    by (auto simp: selection_ok_def select_finding_def Let_def)
next
  case (Some c)
  let ?k = "observation_fingerprint h f"
  let ?put = "\<lambda>(k', g). (k', if k' = ?k then f else g)"
  have c: "(?k, c) \<in> set sel" using Some by (rule map_of_SomeD)
  have c_max: "\<forall>g \<in> set fs. observation_fingerprint h g = ?k \<longrightarrow> score_of_finding g \<le> score_of_finding c"
    using ok c by (auto simp: selection_ok_def)
  have same: "x = c" if "(?k, x) \<in> set sel" for x
    using that Some ok by (auto simp: selection_ok_def dest: map_of_is_SomeI)
  show ?thesis
  proof (cases "score_of_finding f > score_of_finding c")
    case True
    have fst: "map fst (map ?put sel) = map fst sel" by (auto simp: case_prod_unfold)
    have "g \<in> set (fs @ [f]) \<and> observation_fingerprint h g = k \<and>
        (\<forall>x \<in> set (fs @ [f]). observation_fingerprint h x = k \<longrightarrow> score_of_finding x \<le> score_of_finding g)"
      if m: "(k, g) \<in> set (map ?put sel)" for k g
    proof (cases "k = ?k")
      case k: True
      with m have "g = f" by (auto split: if_splits)
      with k c_max True show ?thesis by fastforce
    next
      case k: False
      with m have "(k, g) \<in> set sel" by (auto split: if_splits)
      with ok k show ?thesis unfolding selection_ok_def by auto
    qed
    then have "\<forall>(k, g) \<in> set (map ?put sel). g \<in> set (fs @ [f]) \<and> observation_fingerprint h g = k \<and>
        (\<forall>x \<in> set (fs @ [f]). observation_fingerprint h x = k \<longrightarrow> score_of_finding x \<le> score_of_finding g)"
      by blast
    moreover have keys: "fst ` set (map ?put sel) = fst ` set sel"
      by (metis fst list.set_map)
    moreover have "?k \<in> fst ` set sel" using c by (force intro: rev_image_eqI)
    then have "\<forall>g \<in> set (fs @ [f]). observation_fingerprint h g \<in> fst ` set (map ?put sel)"
      unfolding keys using ok by (auto simp: selection_ok_def)
    moreover have "distinct (map fst (map ?put sel))"
      unfolding fst using ok by (simp add: selection_ok_def)
    ultimately have "selection_ok h (fs @ [f]) (map ?put sel)"
      unfolding selection_ok_def by blast
    with True Some show ?thesis by (simp add: select_finding_def Let_def)
  next
    case False
    have "?k \<in> fst ` set sel" using c by (force intro: rev_image_eqI)
    moreover have "score_of_finding f \<le> score_of_finding x" if "(?k, x) \<in> set sel" for x
      using same [OF that] False by simp
    ultimately have "selection_ok h (fs @ [f]) sel"
      using ok unfolding selection_ok_def by (simp, blast)
    with False Some show ?thesis by (simp add: select_finding_def Let_def)
  qed
qed

lemma selected_ok: "selection_ok h fs (fold (select_finding h) fs [])"
proof (induction fs rule: rev_induct)
  case Nil
  show ?case by (simp add: selection_ok_def)
next
  case (snoc f fs)
  then show ?case by (simp add: select_finding_ok)
qed

lemma fingerprint_relabel [simp]: "observation_fingerprint h (relabel i f) = observation_fingerprint h f"
  by (simp add: observation_fingerprint_def fingerprint_key_def relabel_def Let_def)

lemma relabel_simps [simp]: "relabel i (relabel j f) = relabel i f"
    "score_of_finding (relabel i f) = score_of_finding f"
  by (simp_all add: relabel_def)

definition job_finding_id :: "hashing \<Rightarrow> string \<Rightarrow> finding \<Rightarrow> string" where
  "job_finding_id h job f = sha256 h (''scan:'' @ job @ ''|observation:'' @ observation_fingerprint h f)"

lemma prepare_relabel:
  "prepare_findings h job fs =
     map (\<lambda>(k, f). relabel (job_finding_id h job f) f) (sort_key fst (fold (select_finding h) fs []))"
proof -
  have "(k, f) \<in> set (fold (select_finding h) fs []) \<Longrightarrow> observation_fingerprint h f = k" for k f
    using selected_ok [of h fs] by (auto simp: selection_ok_def)
  then show ?thesis
    by (auto simp: prepare_findings_def job_finding_id_def)
qed

lemma prepare_fingerprints:
  "map (observation_fingerprint h) (prepare_findings h job fs) =
     sort (map fst (fold (select_finding h) fs []))"
proof -
  have "(k, f) \<in> set (fold (select_finding h) fs []) \<Longrightarrow> observation_fingerprint h f = k" for k f
    using selected_ok [of h fs] by (auto simp: selection_ok_def)
  then have "map (observation_fingerprint h) (prepare_findings h job fs) =
      map fst (sort_key fst (fold (select_finding h) fs []))"
    by (auto simp: prepare_findings_def)
  also have "\<dots> = sort (map fst (fold (select_finding h) fs []))"
    by (rule properties_for_sort [symmetric]) simp_all
  finally show ?thesis .
qed

lemma select_distinct:
  "distinct (map (observation_fingerprint h) fs) \<Longrightarrow>
     fold (select_finding h) fs [] = map (\<lambda>f. (observation_fingerprint h f, f)) fs"
proof (induction fs rule: rev_induct)
  case (snoc f fs)
  then have "observation_fingerprint h f \<notin> fst ` set (map (\<lambda>f. (observation_fingerprint h f, f)) fs)"
    by auto
  then have "map_of (map (\<lambda>f. (observation_fingerprint h f, f)) fs) (observation_fingerprint h f) = None"
    by (simp add: map_of_eq_None_iff)
  with snoc show ?case by (simp add: select_finding_def Let_def)
qed simp

lemma prepare_prepared:
  assumes "distinct (map (observation_fingerprint h) ps)" "sorted (map (observation_fingerprint h) ps)"
  shows "prepare_findings h job ps = map (\<lambda>f. relabel (job_finding_id h job f) f) ps"
proof -
  have "sort_key fst (map (\<lambda>f. (observation_fingerprint h f, f)) ps) =
      map (\<lambda>f. (observation_fingerprint h f, f)) ps"
    using assms(2) by (intro sort_key_id_if_sorted) (simp add: comp_def)
  then show ?thesis by (simp add: prepare_relabel select_distinct [OF assms(1)])
qed

lemma prepare_distinct: "distinct (map (observation_fingerprint h) (prepare_findings h job fs))"
  using selected_ok [of h fs] by (simp add: prepare_fingerprints selection_ok_def)

lemma prepare_sorted: "sorted (map (observation_fingerprint h) (prepare_findings h job fs))"
  by (simp add: prepare_fingerprints)

lemma prepare_same_fingerprints:
  "observation_fingerprint h ` set (prepare_findings h job fs) = observation_fingerprint h ` set fs"
proof -
  have "observation_fingerprint h ` set (prepare_findings h job fs) =
      fst ` set (fold (select_finding h) fs [])"
    by (metis prepare_fingerprints list.set_map set_sort)
  also have "\<dots> = observation_fingerprint h ` set fs"
    using selected_ok [of h fs] unfolding selection_ok_def
    by (auto intro: rev_image_eqI)
  finally show ?thesis .
qed

lemma prepare_member:
  assumes "f \<in> set (prepare_findings h job fs)"
  obtains g where "g \<in> set fs" "f = relabel (job_finding_id h job g) g"
    "\<forall>x \<in> set fs. observation_fingerprint h x = observation_fingerprint h g \<longrightarrow>
       score_of_finding x \<le> score_of_finding g"
proof -
  from assms obtain k g where m: "(k, g) \<in> set (fold (select_finding h) fs [])"
    and f: "f = relabel (job_finding_id h job g) g"
    by (auto simp: prepare_relabel)
  from m selected_ok [of h fs] have "g \<in> set fs" "observation_fingerprint h g = k"
    "\<forall>x \<in> set fs. observation_fingerprint h x = k \<longrightarrow> score_of_finding x \<le> score_of_finding g"
    by (auto simp: selection_ok_def)
  with f that show thesis by blast
qed

lemma prepare_worst:
  assumes "f \<in> set (prepare_findings h job fs)"
  shows "\<exists>g \<in> set fs. observation_fingerprint h g = observation_fingerprint h f \<and>
      score_of_finding g = score_of_finding f"
    and "\<forall>g \<in> set fs. observation_fingerprint h g = observation_fingerprint h f \<longrightarrow>
      score_of_finding g \<le> score_of_finding f"
  using assms by (rule prepare_member; auto)+

lemma prepare_fingerprint_iff:
  "k \<in> observation_fingerprint h ` set fs \<longleftrightarrow>
     (\<exists>f \<in> set (prepare_findings h job fs). observation_fingerprint h f = k)"
  unfolding prepare_same_fingerprints [of h job fs, symmetric] by auto

text \<open>Comparing a score with the prepared finding is comparing it with the worst of the scan's.\<close>

lemma prepare_above:
  "(\<exists>f \<in> set (prepare_findings h job fs). observation_fingerprint h f = k \<and> s < score_of_finding f) \<longleftrightarrow>
     (\<exists>g \<in> set fs. observation_fingerprint h g = k \<and> s < score_of_finding g)" (is "?l \<longleftrightarrow> ?r")
proof
  assume ?l
  then show ?r using prepare_worst(1) by metis
next
  assume ?r
  then obtain g where g: "g \<in> set fs" "observation_fingerprint h g = k" "s < score_of_finding g" by blast
  then obtain f where f: "f \<in> set (prepare_findings h job fs)" "observation_fingerprint h f = k"
    using prepare_fingerprint_iff [of k h fs job] by blast
  with prepare_worst(2) [OF f(1)] g have "score_of_finding g \<le> score_of_finding f" by auto
  with f g show ?l by force
qed

lemma prepare_below:
  "(\<exists>f \<in> set (prepare_findings h job fs). observation_fingerprint h f = k \<and> score_of_finding f < s) \<longleftrightarrow>
     k \<in> observation_fingerprint h ` set fs \<and>
     (\<forall>g \<in> set fs. observation_fingerprint h g = k \<longrightarrow> score_of_finding g < s)" (is "?l \<longleftrightarrow> ?r")
proof
  assume ?l
  then obtain f where f: "f \<in> set (prepare_findings h job fs)" "observation_fingerprint h f = k"
    "score_of_finding f < s" by blast
  have "k \<in> observation_fingerprint h ` set fs"
    using f prepare_fingerprint_iff [of k h fs job] by blast
  with prepare_worst(2) [OF f(1)] f(2,3) show ?r by force
next
  assume r: ?r
  then obtain f where f: "f \<in> set (prepare_findings h job fs)" "observation_fingerprint h f = k"
    using prepare_fingerprint_iff [of k h fs job] by blast
  with prepare_worst(1) [OF f(1)] r have "score_of_finding f < s" by metis
  with f show ?l by blast
qed

lemma job_finding_id_relabel [simp]: "job_finding_id h job (relabel i f) = job_finding_id h job f"
  by (simp add: job_finding_id_def)

lemma prepare_idem: "prepare_findings h job (prepare_findings h job fs) = prepare_findings h job fs"
proof -
  have "relabel (job_finding_id h job f) f = f" if f: "f \<in> set (prepare_findings h job fs)" for f
    using f by (rule prepare_member) simp
  then show ?thesis
    by (simp add: prepare_prepared prepare_distinct prepare_sorted map_idI)
qed

text \<open>
  Preparing the findings of a scan for storage leaves one finding per observation fingerprint,
  in the order of the fingerprints, and loses no fingerprint. The finding that stays is one of the
  scan's own, relabelled with the id that the job and the fingerprint determine, and no other
  finding with that fingerprint has a larger risk score. Preparing prepared findings for the same
  job changes nothing.
\<close>

theorem prepare_keeps_worst_finding:
  "let ps = prepare_findings h job fs in
     distinct (map (observation_fingerprint h) ps) \<and> sorted (map (observation_fingerprint h) ps) \<and>
     observation_fingerprint h ` set ps = observation_fingerprint h ` set fs \<and>
     (\<forall>f \<in> set ps.
        f \<in> (\<lambda>g. relabel (job_finding_id h job g) g) ` set fs \<and>
        (\<forall>g \<in> set fs. observation_fingerprint h g = observation_fingerprint h f \<longrightarrow>
           ra_score (fi_risk g) \<le> ra_score (fi_risk f))) \<and>
     prepare_findings h job ps = ps"
proof -
  have "f \<in> (\<lambda>g. relabel (job_finding_id h job g) g) ` set fs \<and>
      (\<forall>g \<in> set fs. observation_fingerprint h g = observation_fingerprint h f \<longrightarrow>
         ra_score (fi_risk g) \<le> ra_score (fi_risk f))"
    if f: "f \<in> set (prepare_findings h job fs)" for f
    using f by (rule prepare_member) auto
  then show ?thesis
    by (simp add: Let_def prepare_distinct prepare_sorted prepare_same_fingerprints prepare_idem)
qed

definition plain_hashing :: hashing where
  "plain_hashing = \<lparr>sha256 = (\<lambda>s. s), dumps_fingerprint = (\<lambda>k. fk_asset_id k @ fk_family k),
     dumps_evidence = (\<lambda>e. ev_source (ek_evidence e)), isoformat = str_of_int\<rparr>"

definition worse_finding :: finding where
  "worse_finding = sample_finding\<lparr>fi_risk := (fi_risk sample_finding)\<lparr>ra_score := 75\<rparr>\<rparr>"

lemma worse_fingerprint [simp]:
  "observation_fingerprint h worse_finding = observation_fingerprint h sample_finding"
  by (simp add: worse_finding_def observation_fingerprint_def fingerprint_key_def Let_def)

theorem prepare_keeps_worst_finding_witness:
  "let ps = prepare_findings plain_hashing ''j'' [sample_finding, worse_finding]
   in length ps = 1 \<and> ra_score (fi_risk (hd ps)) = 75"
proof -
  let ?fs = "[sample_finding, worse_finding]"
  let ?ps = "prepare_findings plain_hashing ''j'' ?fs"
  let ?fp = "observation_fingerprint plain_hashing"
  note T = prepare_keeps_worst_finding [where h = plain_hashing and job = "''j''" and fs = ?fs, unfolded Let_def]
  from T have d: "distinct (map ?fp ?ps)" and im: "?fp ` set ?ps = ?fp ` set ?fs" by blast+
  from im have im: "set (map ?fp ?ps) = {?fp sample_finding}" by simp
  have "length ?ps = card (set (map ?fp ?ps))"
    using distinct_card [OF d] by simp
  then have len: "length ?ps = 1" by (simp only: im card.insert finite.emptyI empty_iff card.empty) simp
  then have mem: "hd ?ps \<in> set ?ps" by (intro hd_in_set) auto
  then have fp: "?fp (hd ?ps) = ?fp worse_finding" using im by auto
  from T mem have sub: "hd ?ps \<in> (\<lambda>g. relabel (job_finding_id plain_hashing ''j'' g) g) ` set ?fs"
    and max: "\<forall>g \<in> set ?fs. ?fp g = ?fp (hd ?ps) \<longrightarrow> ra_score (fi_risk g) \<le> ra_score (fi_risk (hd ?ps))"
    by blast+
  from max fp have "ra_score (fi_risk worse_finding) \<le> ra_score (fi_risk (hd ?ps))" by simp
  with sub len show ?thesis
    by (auto simp: Let_def worse_finding_def sample_finding_def relabel_def)
qed

section \<open>The drift of a recorded scan\<close>

definition state_key :: "observation_state \<Rightarrow> string \<times> string \<times> string" where
  "state_key s = (os_workspace_id s, os_asset_id s, os_fingerprint s)"

lemma state_of_row: "state_of w a k t = row_of state_key t (w, a, k)"
  by (simp add: state_of_def first_where_def row_of_def state_key_def)

lemma state_key_simps [simp]:
    "state_key (new_state h w a job now k f) = (w, a, k)"
    "state_key (seen_again h job now f s) = state_key s"
    "state_key (gone job now s) = state_key s"
  by (simp_all add: state_key_def new_state_def seen_again_def gone_def)

lemma update_state [simp]:
  "update_where (\<lambda>x. os_workspace_id x = w \<and> os_asset_id x = a \<and> os_fingerprint x = k) g t =
     update_where (\<lambda>x. state_key x = (w, a, k)) g t"
  by (simp add: state_key_def)

text \<open>What a finding makes of the stored state of its fingerprint, and the events it raises.\<close>

definition observed ::
  "hashing \<Rightarrow> string \<Rightarrow> string \<Rightarrow> string \<Rightarrow> time \<Rightarrow> finding \<Rightarrow> observation_state option \<Rightarrow> observation_state" where
  "observed h w a job now f old =
     (case old of None \<Rightarrow> new_state h w a job now (observation_fingerprint h f) f
      | Some s \<Rightarrow> seen_again h job now f s)"

definition observed_events :: "hashing \<Rightarrow> bool \<Rightarrow> finding \<Rightarrow> observation_state option \<Rightarrow> raw_event list" where
  "observed_events h baseline f old =
     (case old of None \<Rightarrow> if baseline then [(observation_fingerprint h f, Introduced, f, None, None, False)] else []
      | Some s \<Rightarrow> map (\<lambda>ty. (observation_fingerprint h f, ty, f, Some (os_risk_score s), Some (os_severity s), False))
          (state_events h baseline f s))"

definition resolved_events :: "bool \<Rightarrow> string \<Rightarrow> observation_state option \<Rightarrow> raw_event list" where
  "resolved_events baseline k old =
     (case old of None \<Rightarrow> []
      | Some s \<Rightarrow> if baseline
          then [(k, Resolved, os_finding_payload s, Some (os_risk_score s), Some (os_severity s), True)] else [])"

lemma observe_row:
  "row_of state_key (fst (observe h w a job now b f acc)) x =
     (if x = (w, a, observation_fingerprint h f)
      then Some (observed h w a job now f (row_of state_key (fst acc) x))
      else row_of state_key (fst acc) x)"
proof (cases "row_of state_key (fst acc) (w, a, observation_fingerprint h f)")
  case None
  then show ?thesis
    by (auto simp: observe_def Let_def case_prod_unfold state_of_row observed_def row_of_append
        split: option.splits)
next
  case (Some s)
  then show ?thesis
    by (auto simp: observe_def Let_def case_prod_unfold state_of_row observed_def row_of_update_at
        split: option.splits)
qed

lemma observe_events:
  "snd (observe h w a job now b f acc) =
     snd acc @ observed_events h b f (row_of state_key (fst acc) (w, a, observation_fingerprint h f))"
  by (simp add: observe_def Let_def case_prod_unfold state_of_row observed_events_def
      split: option.split)

lemma resolve_row:
  "row_of state_key (fst (resolve w a job now b k acc)) x =
     (if x = (w, a, k) then map_option (gone job now) (row_of state_key (fst acc) x)
      else row_of state_key (fst acc) x)"
  by (cases "row_of state_key (fst acc) (w, a, k)")
     (auto simp: resolve_def Let_def case_prod_unfold state_of_row row_of_update_at)

lemma resolve_events:
  "snd (resolve w a job now b k acc) =
     snd acc @ resolved_events b k (row_of state_key (fst acc) (w, a, k))"
  by (simp add: resolve_def Let_def case_prod_unfold state_of_row resolved_events_def
      split: option.split)

lemma observe_all:
  assumes "distinct (map (observation_fingerprint h) ps)"
  shows "row_of state_key (fst (fold (observe h w a job now b) ps (t, es))) x =
      (case find (\<lambda>f. (w, a, observation_fingerprint h f) = x) ps of
         Some f \<Rightarrow> Some (observed h w a job now f (row_of state_key t x))
       | None \<Rightarrow> row_of state_key t x)" (is "?row ps")
    and "snd (fold (observe h w a job now b) ps (t, es)) =
      es @ concat (map (\<lambda>f. observed_events h b f (row_of state_key t (w, a, observation_fingerprint h f))) ps)"
      (is "?events ps")
proof -
  have "\<forall>x. (row_of state_key (fst (fold (observe h w a job now b) ps (t, es))) x =
      (case find (\<lambda>f. (w, a, observation_fingerprint h f) = x) ps of
         Some f \<Rightarrow> Some (observed h w a job now f (row_of state_key t x))
       | None \<Rightarrow> row_of state_key t x)) \<and> ?events ps"
    using assms
  proof (induction ps arbitrary: t es)
    case (Cons f fs)
    let ?fp = "observation_fingerprint h"
    obtain t' es' where o: "observe h w a job now b f (t, es) = (t', es')" by (metis prod.collapse)
    have row: "row_of state_key t' x = (if x = (w, a, ?fp f)
        then Some (observed h w a job now f (row_of state_key t x)) else row_of state_key t x)" for x
      using observe_row [of h w a job now b f "(t, es)" x] o by simp
    have ev: "es' = es @ observed_events h b f (row_of state_key t (w, a, ?fp f))"
      using observe_events [of h w a job now b f "(t, es)"] o by simp
    have new: "?fp g \<noteq> ?fp f" if "g \<in> set fs" for g
      using Cons.prems that by (auto intro: rev_image_eqI)
    have IH: "\<forall>x. (row_of state_key (fst (fold (observe h w a job now b) fs (t', es'))) x =
        (case find (\<lambda>f. (w, a, ?fp f) = x) fs of
           Some f \<Rightarrow> Some (observed h w a job now f (row_of state_key t' x))
         | None \<Rightarrow> row_of state_key t' x)) \<and>
        snd (fold (observe h w a job now b) fs (t', es')) =
        es' @ concat (map (\<lambda>f. observed_events h b f (row_of state_key t' (w, a, ?fp f))) fs)"
      using Cons.IH Cons.prems by simp
    have same: "map (\<lambda>g. observed_events h b g (row_of state_key t' (w, a, ?fp g))) fs =
        map (\<lambda>g. observed_events h b g (row_of state_key t (w, a, ?fp g))) fs"
      using new by (auto simp: row)
    have ev_all: "snd (fold (observe h w a job now b) (f # fs) (t, es)) =
        es @ concat (map (\<lambda>f. observed_events h b f (row_of state_key t (w, a, ?fp f))) (f # fs))"
      using conjunct2 [OF spec [OF IH]] unfolding same by (simp add: o ev)
    have "row_of state_key (fst (fold (observe h w a job now b) (f # fs) (t, es))) x =
        (case find (\<lambda>f. (w, a, ?fp f) = x) (f # fs) of
           Some f \<Rightarrow> Some (observed h w a job now f (row_of state_key t x))
         | None \<Rightarrow> row_of state_key t x)" for x
    proof (cases "(w, a, ?fp f) = x")
      case True
      with new have "find (\<lambda>f. (w, a, ?fp f) = x) fs = None" by (auto simp: find_NoneD)
      with conjunct1 [OF spec [OF IH, of x]]
      have "row_of state_key (fst (fold (observe h w a job now b) fs (t', es'))) x = row_of state_key t' x"
        by simp
      with True show ?thesis by (auto simp: o row)
    next
      case False
      then have row': "row_of state_key t' x = row_of state_key t x" using row by auto
      have "find (\<lambda>f. (w, a, ?fp f) = x) (f # fs) = find (\<lambda>f. (w, a, ?fp f) = x) fs"
        using False by simp
      moreover have "fold (observe h w a job now b) (f # fs) (t, es) = fold (observe h w a job now b) fs (t', es')"
        using o by simp
      ultimately show ?thesis using conjunct1 [OF spec [OF IH, of x]] row' by presburger
    qed
    with ev_all show ?case by blast
  qed simp
  then show "?row ps" "?events ps" by blast+
qed

lemma resolve_all:
  assumes "distinct ks"
  shows "row_of state_key (fst (fold (resolve w a job now b) ks (t, es))) x =
      (if x \<in> (\<lambda>k. (w, a, k)) ` set ks then map_option (gone job now) (row_of state_key t x)
       else row_of state_key t x)"
    and "snd (fold (resolve w a job now b) ks (t, es)) =
      es @ concat (map (\<lambda>k. resolved_events b k (row_of state_key t (w, a, k))) ks)"
proof -
  have "(\<forall>x. row_of state_key (fst (fold (resolve w a job now b) ks (t, es))) x =
      (if x \<in> (\<lambda>k. (w, a, k)) ` set ks then map_option (gone job now) (row_of state_key t x)
       else row_of state_key t x)) \<and>
    snd (fold (resolve w a job now b) ks (t, es)) =
      es @ concat (map (\<lambda>k. resolved_events b k (row_of state_key t (w, a, k))) ks)"
    using assms
  proof (induction ks arbitrary: t es)
    case (Cons k ks)
    obtain t' es' where o: "resolve w a job now b k (t, es) = (t', es')" by (metis prod.collapse)
    have row: "row_of state_key t' x = (if x = (w, a, k)
        then map_option (gone job now) (row_of state_key t x) else row_of state_key t x)" for x
      using resolve_row [of w a job now b k "(t, es)" x] o by simp
    have ev: "es' = es @ resolved_events b k (row_of state_key t (w, a, k))"
      using resolve_events [of w a job now b k "(t, es)"] o by simp
    have same: "map (\<lambda>k. resolved_events b k (row_of state_key t' (w, a, k))) ks =
        map (\<lambda>k. resolved_events b k (row_of state_key t (w, a, k))) ks"
      using Cons.prems by (auto simp: row)
    note IH = Cons.IH [of t' es', OF distinct.simps(2) [THEN iffD1, OF Cons.prems, THEN conjunct2]]
    have "snd (fold (resolve w a job now b) (k # ks) (t, es)) =
        es @ concat (map (\<lambda>k. resolved_events b k (row_of state_key t (w, a, k))) (k # ks))"
      using conjunct2 [OF IH] unfolding same by (simp add: o ev)
    moreover have "row_of state_key (fst (fold (resolve w a job now b) (k # ks) (t, es))) x =
        (if x \<in> (\<lambda>k. (w, a, k)) ` set (k # ks) then map_option (gone job now) (row_of state_key t x)
         else row_of state_key t x)" for x
      using conjunct1 [OF IH, rule_format, of x] Cons.prems by (auto simp: o row)
    ultimately show ?case by blast
  qed simp
  then show "row_of state_key (fst (fold (resolve w a job now b) ks (t, es))) x =
      (if x \<in> (\<lambda>k. (w, a, k)) ` set ks then map_option (gone job now) (row_of state_key t x)
       else row_of state_key t x)"
    and "snd (fold (resolve w a job now b) ks (t, es)) =
      es @ concat (map (\<lambda>k. resolved_events b k (row_of state_key t (w, a, k))) ks)"
    by blast+
qed

definition active_in :: "string \<Rightarrow> string \<Rightarrow> string \<Rightarrow> observation_state tbl \<Rightarrow> bool" where
  "active_in w a k t = (case state_of w a k t of None \<Rightarrow> False | Some s \<Rightarrow> os_active s)"

lemma active_fingerprints_in:
  assumes "keyed state_key t"
  shows "k \<in> set (active_fingerprints w a t) \<longleftrightarrow> active_in w a k t"
proof -
  have "k \<in> set (active_fingerprints w a t) \<longleftrightarrow> (\<exists>s \<in> set t. state_key s = (w, a, k) \<and> os_active s)"
    by (auto simp: active_fingerprints_def state_key_def)
  also have "\<dots> \<longleftrightarrow> (\<exists>s. row_of state_key t (w, a, k) = Some s \<and> os_active s)"
    by (auto simp: row_of_eq_iff [OF assms])
  finally show ?thesis by (auto simp: active_in_def state_of_row split: option.splits)
qed

definition disappeared :: "hashing \<Rightarrow> string \<Rightarrow> string \<Rightarrow> finding list \<Rightarrow> observation_state tbl \<Rightarrow> string list" where
  "disappeared h w a ps t =
     sort (remdups (filter (\<lambda>k. k \<notin> set (map (observation_fingerprint h) ps)) (active_fingerprints w a t)))"

lemma disappeared_iff:
  "keyed state_key t \<Longrightarrow>
     k \<in> set (disappeared h w a ps t) \<longleftrightarrow> active_in w a k t \<and> k \<notin> observation_fingerprint h ` set ps"
  by (auto simp: disappeared_def active_fingerprints_in)

lemma drift_rows:
  assumes d: "distinct (map (observation_fingerprint h) ps)"
  shows "row_of state_key (fst (drift_of h w a job now b ps t)) (w', a', k) =
    (if (w', a') \<noteq> (w, a) then row_of state_key t (w', a', k)
     else case find (\<lambda>f. observation_fingerprint h f = k) ps of
            Some f \<Rightarrow> Some (observed h w a job now f (row_of state_key t (w, a, k)))
          | None \<Rightarrow> if k \<in> set (disappeared h w a ps t)
                    then map_option (gone job now) (row_of state_key t (w, a, k))
                    else row_of state_key t (w, a, k))"
proof -
  let ?o = "fold (observe h w a job now b) ps (t, [])"
  have o: "?o = (fst ?o, snd ?o)" by simp
  have dis: "distinct (disappeared h w a ps t)" by (simp add: disappeared_def)
  have "row_of state_key (fst (drift_of h w a job now b ps t)) (w', a', k) =
      (if (w', a', k) \<in> (\<lambda>k. (w, a, k)) ` set (disappeared h w a ps t)
       then map_option (gone job now) (row_of state_key (fst ?o) (w', a', k))
       else row_of state_key (fst ?o) (w', a', k))"
    using resolve_all(1) [OF dis, of w a job now b "fst ?o" "snd ?o"]
    by (simp add: drift_of_def Let_def disappeared_def)
  moreover have "find (\<lambda>f. (w, a, observation_fingerprint h f) = (w', a', k)) ps =
      (if (w', a') = (w, a) then find (\<lambda>f. observation_fingerprint h f = k) ps else None)"
    by (auto simp: find_NoneD)
  moreover have "find (\<lambda>f. observation_fingerprint h f = k) ps = None"
    if "k \<in> set (disappeared h w a ps t)"
    using that by (auto simp: find_NoneD disappeared_def)
  ultimately show ?thesis
    unfolding observe_all(1) [OF d] by (auto split: option.splits)
qed

lemma drift_raw:
  assumes d: "distinct (map (observation_fingerprint h) ps)"
  shows "snd (drift_of h w a job now b ps t) =
    concat (map (\<lambda>f. observed_events h b f (row_of state_key t (w, a, observation_fingerprint h f))) ps) @
    concat (map (\<lambda>k. resolved_events b k (row_of state_key t (w, a, k))) (disappeared h w a ps t))"
proof -
  let ?o = "fold (observe h w a job now b) ps (t, [])"
  have dis: "distinct (disappeared h w a ps t)" by (simp add: disappeared_def)
  have same: "row_of state_key (fst ?o) (w, a, k) = row_of state_key t (w, a, k)"
    if k: "k \<in> set (disappeared h w a ps t)" for k
  proof -
    from k have "find (\<lambda>f. (w, a, observation_fingerprint h f) = (w, a, k)) ps = None"
      by (auto simp: find_NoneD disappeared_def)
    then show ?thesis unfolding observe_all(1) [OF d] by simp
  qed
  have "snd (drift_of h w a job now b ps t) =
      snd ?o @ concat (map (\<lambda>k. resolved_events b k (row_of state_key (fst ?o) (w, a, k))) (disappeared h w a ps t))"
    using resolve_all(2) [OF dis, of w a job now b "fst ?o" "snd ?o"]
    by (simp add: drift_of_def Let_def disappeared_def)
  also have "map (\<lambda>k. resolved_events b k (row_of state_key (fst ?o) (w, a, k))) (disappeared h w a ps t) =
      map (\<lambda>k. resolved_events b k (row_of state_key t (w, a, k))) (disappeared h w a ps t)"
    using same by simp
  finally show ?thesis by (simp add: observe_all(2) [OF d])
qed

text \<open>Reading the raised kinds off the raw events.\<close>

lemma observed_kinds:
  "(\<exists>r \<in> set (observed_events h b f old). fst r = k \<and> fst (snd r) = ty) \<longleftrightarrow>
     observation_fingerprint h f = k \<and> b \<and>
     (case old of None \<Rightarrow> ty = Introduced | Some s \<Rightarrow> ty \<in> set (state_events h True f s))"
  by (cases old; cases b) (auto simp: observed_events_def state_events_def)

lemma resolved_kinds:
  "(\<exists>r \<in> set (resolved_events b k' old). fst r = k \<and> fst (snd r) = ty) \<longleftrightarrow>
     k' = k \<and> b \<and> ty = Resolved \<and> old \<noteq> None"
  by (cases old; cases b) (auto simp: resolved_events_def)

lemma drift_kinds:
  assumes "keyed state_key t" "distinct (map (observation_fingerprint h) ps)"
  shows "(\<exists>r \<in> set (snd (drift_of h w a job now b ps t)). fst r = k \<and> fst (snd r) = ty) \<longleftrightarrow>
    b \<and> ((\<exists>f \<in> set ps. observation_fingerprint h f = k \<and>
            (case state_of w a k t of None \<Rightarrow> ty = Introduced | Some s \<Rightarrow> ty \<in> set (state_events h True f s))) \<or>
         ty = Resolved \<and> active_in w a k t \<and> k \<notin> observation_fingerprint h ` set ps)"
proof -
  have bex_concat: "(\<exists>r \<in> set (concat (map g xs)). Q r) \<longleftrightarrow> (\<exists>x \<in> set xs. \<exists>r \<in> set (g x). Q r)"
    for g :: "'y \<Rightarrow> raw_event list" and xs Q by auto
  have "(\<exists>r \<in> set (snd (drift_of h w a job now b ps t)). fst r = k \<and> fst (snd r) = ty) \<longleftrightarrow>
      (\<exists>f \<in> set ps. observation_fingerprint h f = k \<and> b \<and>
         (case row_of state_key t (w, a, observation_fingerprint h f) of None \<Rightarrow> ty = Introduced
          | Some s \<Rightarrow> ty \<in> set (state_events h True f s))) \<or>
      (\<exists>k' \<in> set (disappeared h w a ps t). k' = k \<and> b \<and> ty = Resolved \<and> row_of state_key t (w, a, k') \<noteq> None)"
    unfolding drift_raw [OF assms(2)] set_append bex_Un bex_concat observed_kinds resolved_kinds ..
  also have "\<dots> \<longleftrightarrow> b \<and> ((\<exists>f \<in> set ps. observation_fingerprint h f = k \<and>
            (case state_of w a k t of None \<Rightarrow> ty = Introduced | Some s \<Rightarrow> ty \<in> set (state_events h True f s))) \<or>
         ty = Resolved \<and> active_in w a k t \<and> k \<notin> observation_fingerprint h ` set ps)"
    using disappeared_iff [OF assms(1)]
    by (auto simp: state_of_row active_in_def split: option.splits)
  finally show ?thesis .
qed

lemma state_event_kinds:
    "Introduced \<in> set (state_events h True f s) \<longleftrightarrow> \<not> os_active s"
    "Resolved \<notin> set (state_events h True f s)"
    "RiskIncreased \<in> set (state_events h True f s) \<longleftrightarrow> os_active s \<and> os_risk_score s < score_of_finding f"
    "RiskDecreased \<in> set (state_events h True f s) \<longleftrightarrow> os_active s \<and> score_of_finding f < os_risk_score s"
  by (auto simp: state_events_def)

definition scanned_before :: "string \<Rightarrow> string \<Rightarrow> 'x continuous_db_scheme \<Rightarrow> bool" where
  "scanned_before w a db = (\<exists>s \<in> set (scan_snapshots db). ss_workspace_id s = w \<and> ss_asset_id s = a)"

lemma record_new:
  assumes "row_of ss_job_id (scan_snapshots db) job = None"
    and "record_successful_scan h uuid w a job fs now sv pv db = (Inr events, db')"
  obtains snapshot where
    "observation_states db' = fst (drift_of h w a job now (scanned_before w a db)
       (prepare_findings h job fs) (observation_states db))"
    "events = map (event_of uuid w a job now) (enumerate 0 (snd (drift_of h w a job now (scanned_before w a db)
       (prepare_findings h job fs) (observation_states db))))"
    "drift_events db' = drift_events db @ events"
    "scan_snapshots db' = scan_snapshots db @ [snapshot]" "ss_job_id snapshot = job"
    "ss_workspace_id snapshot = w" "ss_asset_id snapshot = a"
    "recording_commits db'"
proof -
  have b: "(0 < count_where (\<lambda>s. ss_workspace_id s = w \<and> ss_asset_id s = a) (scan_snapshots db)) =
      scanned_before w a db"
    by (auto simp: count_where_def scanned_before_def filter_empty_conv)
  show thesis
    using assms(2)
    by (auto simp: record_successful_scan_def assms(1) Let_def b case_prod_unfold split: if_splits
        intro!: that)
qed

lemma recorded_occurrences:
  assumes "row_of ss_job_id (scan_snapshots db) job = None" "\<forall>x \<in> set (occurrences db). oc_job_id x \<noteq> job"
    and "record_successful_scan h uuid w a job fs now sv pv db = (Inr events, db')"
  shows "oc_fingerprint ` set (filter (\<lambda>x. oc_job_id x = job) (occurrences db')) = observation_fingerprint h ` set fs"
proof -
  have "occurrences db' = occurrences db @ map (new_occurrence h w a job now sv pv) (prepare_findings h job fs)"
    using assms(3) by (auto simp: record_successful_scan_def assms(1) Let_def case_prod_unfold split: if_splits)
  then have "filter (\<lambda>x. oc_job_id x = job) (occurrences db') =
      map (new_occurrence h w a job now sv pv) (prepare_findings h job fs)"
    using assms(2) by (auto simp: filter_empty_conv filter_id_conv new_occurrence_def Let_def)
  then have "oc_fingerprint ` set (filter (\<lambda>x. oc_job_id x = job) (occurrences db')) =
      observation_fingerprint h ` set (prepare_findings h job fs)"
    by (auto simp: new_occurrence_def Let_def image_image)
  then show ?thesis by (simp add: prepare_same_fingerprints)
qed

text \<open>The event of kind \<open>ty\<close> for the fingerprint \<open>k\<close> is among the returned ones.\<close>

definition raised :: "drift_event_type \<Rightarrow> string \<Rightarrow> drift_event list \<Rightarrow> bool" where
  "raised ty k events = list_ex (\<lambda>e. de_event_type e = ty \<and> de_fingerprint e = k) events"

lemma event_of_simps [simp]:
    "de_event_type (event_of uuid w a job now x) = fst (snd (snd x))"
    "de_fingerprint (event_of uuid w a job now x) = fst (snd x)"
    "de_scan_job_id (event_of uuid w a job now x) = job"
    "de_id (event_of uuid w a job now x) = uuid (fst x)"
  by (simp_all add: event_of_def new_event_def Let_def case_prod_unfold)

lemma raised_raw:
  "raised ty k (map (event_of uuid w a job now) (enumerate n raw)) \<longleftrightarrow>
     (\<exists>r \<in> set raw. fst r = k \<and> fst (snd r) = ty)"
proof -
  have "raised ty k (map (event_of uuid w a job now) (enumerate n raw)) \<longleftrightarrow>
      (\<exists>x \<in> set (enumerate n raw). fst (snd x) = k \<and> fst (snd (snd x)) = ty)"
    unfolding raised_def list_ex_iff set_map bex_simps event_of_simps by blast
  also have "\<dots> \<longleftrightarrow> (\<exists>r \<in> set (map snd (enumerate n raw)). fst r = k \<and> fst (snd r) = ty)"
    unfolding set_map bex_simps by blast
  finally show ?thesis by simp
qed

text \<open>
  C2. When a scan of an asset is recorded for the first time, the drift it returns is exactly the
  difference between the observations that were active and those the scan reports. From the second
  scan on, an observation is \<open>Introduced\<close> iff it is reported and was not active, \<open>Resolved\<close> iff it
  was active and is no longer reported, and \<open>RiskIncreased\<close> iff it was active and some reported
  finding of it has a larger risk score than the stored one (\<open>RiskDecreased\<close> iff all have a
  smaller one). The first scan raises nothing. Afterwards the active observations of the asset are
  exactly the reported ones, and no observation of any other asset or workspace has changed.
\<close>

theorem recorded_drift_is_the_difference:
  assumes "keyed state_key (observation_states db)"
    and "row_of ss_job_id (scan_snapshots db) job = None"
    and "record_successful_scan h uuid w a job fs now sv pv db = (Inr events, db')"
  shows "let old = (\<lambda>k. state_of w a k (observation_states db));
      was = (\<lambda>k. active_in w a k (observation_states db));
      reported = (\<lambda>k. k \<in> observation_fingerprint h ` set fs);
      scores = (\<lambda>k. (\<lambda>f. ra_score (fi_risk f)) ` {f \<in> set fs. observation_fingerprint h f = k})
    in
      (\<forall>k. raised Introduced k events \<longleftrightarrow> scanned_before w a db \<and> reported k \<and> \<not> was k) \<and>
      (\<forall>k. raised Resolved k events \<longleftrightarrow> scanned_before w a db \<and> was k \<and> \<not> reported k) \<and>
      (\<forall>k. raised RiskIncreased k events \<longleftrightarrow> scanned_before w a db \<and> was k \<and>
         (\<exists>x \<in> scores k. os_risk_score (the (old k)) < x)) \<and>
      (\<forall>k. raised RiskDecreased k events \<longleftrightarrow> scanned_before w a db \<and> was k \<and> reported k \<and>
         (\<forall>x \<in> scores k. x < os_risk_score (the (old k)))) \<and>
      (\<not> scanned_before w a db \<longrightarrow> events = []) \<and>
      (\<forall>k. active_in w a k (observation_states db') \<longleftrightarrow> reported k) \<and>
      (\<forall>w' a' k. (w', a') \<noteq> (w, a) \<longrightarrow>
         state_of w' a' k (observation_states db') = state_of w' a' k (observation_states db))"
proof -
  let ?b = "scanned_before w a db" and ?fp = "observation_fingerprint h"
  define ps where "ps = prepare_findings h job fs"
  note d = prepare_distinct [of h job fs, folded ps_def]
  have img: "k \<in> ?fp ` set fs \<longleftrightarrow> (\<exists>f \<in> set ps. ?fp f = k)" for k
    unfolding ps_def by (rule prepare_fingerprint_iff)
  have ev: "events = map (event_of uuid w a job now) (enumerate 0 (snd (drift_of h w a job now ?b ps (observation_states db))))"
    and st: "observation_states db' = fst (drift_of h w a job now ?b ps (observation_states db))"
    by (rule record_new [OF assms(2,3)]; simp add: ps_def)+
  have kinds: "raised ty k events \<longleftrightarrow>
      ?b \<and> ((\<exists>f \<in> set ps. ?fp f = k \<and> (case state_of w a k (observation_states db) of None \<Rightarrow> ty = Introduced
              | Some s \<Rightarrow> ty \<in> set (state_events h True f s))) \<or>
           ty = Resolved \<and> active_in w a k (observation_states db) \<and> \<not> (\<exists>f \<in> set ps. ?fp f = k))" for ty k
    unfolding ev raised_raw drift_kinds [OF assms(1) d] by auto
  have I: "raised Introduced k events \<longleftrightarrow> ?b \<and> k \<in> ?fp ` set fs \<and> \<not> active_in w a k (observation_states db)"
    and R: "raised Resolved k events \<longleftrightarrow> ?b \<and> active_in w a k (observation_states db) \<and> k \<notin> ?fp ` set fs" for k
    unfolding kinds img by (auto simp: active_in_def state_event_kinds split: option.splits)
  have up: "raised RiskIncreased k events \<longleftrightarrow> ?b \<and> active_in w a k (observation_states db) \<and>
      (\<exists>f \<in> set ps. ?fp f = k \<and> os_risk_score (the (state_of w a k (observation_states db))) < score_of_finding f)"
    and down: "raised RiskDecreased k events \<longleftrightarrow> ?b \<and> active_in w a k (observation_states db) \<and>
      (\<exists>f \<in> set ps. ?fp f = k \<and> score_of_finding f < os_risk_score (the (state_of w a k (observation_states db))))" for k
    unfolding kinds by (auto simp: active_in_def state_event_kinds split: option.splits)
  have none: "events = []" if "\<not> ?b"
  proof -
    have "snd (drift_of h w a job now ?b ps (observation_states db)) = []"
      unfolding drift_raw [OF d] using that
      by (auto simp: observed_events_def resolved_events_def state_events_def split: option.splits)
    then show ?thesis by (simp add: ev)
  qed
  have act: "active_in w a k (observation_states db') \<longleftrightarrow> k \<in> ?fp ` set fs" for k
  proof (cases "find (\<lambda>f. ?fp f = k) ps")
    case None
    then have "k \<notin> ?fp ` set fs" unfolding img by (auto simp: find_NoneD)
    moreover have "k \<in> set (disappeared h w a ps (observation_states db)) \<longleftrightarrow> active_in w a k (observation_states db)"
      unfolding disappeared_iff [OF assms(1)] using None by (auto simp: find_NoneD)
    ultimately show ?thesis using None unfolding st
      by (auto simp: active_in_def state_of_row drift_rows [OF d] gone_def split: option.splits)
  next
    case (Some f)
    then have "k \<in> ?fp ` set fs" unfolding img by (auto dest: find_SomeD)
    with Some show ?thesis unfolding st
      by (auto simp: active_in_def state_of_row drift_rows [OF d] observed_def new_state_def seen_again_def
          split: option.splits)
  qed
  have other: "state_of w' a' k (observation_states db') = state_of w' a' k (observation_states db)"
    if "(w', a') \<noteq> (w, a)" for w' a' k
    using that unfolding st state_of_row drift_rows [OF d] by auto
  show ?thesis
    unfolding Let_def
    using I R up [unfolded ps_def prepare_above] down [unfolded ps_def prepare_below] none act other by (intro conjI) auto
qed

definition other_finding :: finding where
  "other_finding = sample_finding\<lparr>fi_observation := (fi_observation sample_finding)\<lparr>ob_family := ''DES''\<rparr>\<rparr>"

definition sample_snapshot :: scan_snapshot where
  "sample_snapshot = \<lparr>ss_job_id = ''j0'', ss_workspace_id = ''w'', ss_asset_id = ''a'', ss_origin = Api,
     ss_schedule_id = None, ss_scheduled_for = None, ss_completed_at = 5, ss_finding_count = 1,
     ss_scanner_version = ''1'', ss_policy_version = ''1'', ss_fingerprint_set_hash = ''x''\<rparr>"

definition empty_continuous_db :: continuous_db where
  "empty_continuous_db = findings_db.extend empty_findings_db (continuous_db.fields [] [] [] [] [] [])"

definition scanned_db :: continuous_db where
  "scanned_db = empty_continuous_db\<lparr>scan_snapshots := [sample_snapshot],
     observation_states := [new_state plain_hashing ''w'' ''a'' ''j0'' 5
        (observation_fingerprint plain_hashing sample_finding) sample_finding]\<rparr>"

lemma empty_continuous_simps [simp]:
    "scan_schedules empty_continuous_db = []" "scheduled_executions empty_continuous_db = []"
    "scan_snapshots empty_continuous_db = []" "observation_states empty_continuous_db = []"
    "occurrences empty_continuous_db = []" "drift_events empty_continuous_db = []"
  by (simp_all add: empty_continuous_db_def findings_db.defs continuous_db.defs)

lemma sample_fingerprints [simp]:
    "observation_fingerprint plain_hashing sample_finding = ''a1rsa''"
    "observation_fingerprint plain_hashing other_finding = ''a1des''"
  by code_simp+

definition sample_recording :: "(drift_event list, continuous_db) outcome" where
  "sample_recording = record_successful_scan plain_hashing (\<lambda>i. replicate i CHR ''e'') ''w'' ''a'' ''j1''
     [other_finding] 9 ''1'' ''1'' scanned_db"

lemma sample_recording_ok: "is_ok (fst sample_recording)"
  by code_simp

lemma sample_recording_eq:
  "record_successful_scan plain_hashing (\<lambda>i. replicate i CHR ''e'') ''w'' ''a'' ''j1''
     [other_finding] 9 ''1'' ''1'' scanned_db = (Inr (projr (fst sample_recording)), snd sample_recording)"
  unfolding sample_recording_def [symmetric] using sample_recording_ok
  by (cases "fst sample_recording") (auto simp: prod_eq_iff)

lemma scanned_db_facts: "keyed state_key (observation_states scanned_db)"
    "row_of ss_job_id (scan_snapshots scanned_db) ''j1'' = None"
    "scanned_before ''w'' ''a'' scanned_db" "active_in ''w'' ''a'' ''a1rsa'' (observation_states scanned_db)"
  by (simp_all add: scanned_db_def keyed_def row_of_Cons sample_snapshot_def scanned_before_def active_in_def
      state_of_row state_key_def new_state_def)

theorem recorded_drift_is_the_difference_witness:
  "raised Resolved ''a1rsa'' (projr (fst sample_recording)) \<and>
   \<not> raised Introduced ''a1rsa'' (projr (fst sample_recording)) \<and>
   \<not> active_in ''w'' ''a'' ''a1rsa'' (observation_states (snd sample_recording))"
  using recorded_drift_is_the_difference [OF scanned_db_facts(1,2) sample_recording_eq] scanned_db_facts(3,4)
  by (auto simp: Let_def)

section \<open>Recording is idempotent\<close>

definition events_refer :: "'x continuous_db_scheme \<Rightarrow> bool" where
  "events_refer db = list_all (\<lambda>e. row_of ss_job_id (scan_snapshots db) (de_scan_job_id e) \<noteq> None) (drift_events db)"

lemma record_again:
  assumes "row_of ss_job_id (scan_snapshots db) job \<noteq> None"
  shows "record_successful_scan h uuid w a job fs now sv pv db =
    (Inr (sort_key (\<lambda>e. (de_occurred_at e, de_id e)) (filter (\<lambda>e. de_scan_job_id e = job) (drift_events db))), db)"
  using assms by (simp add: record_successful_scan_def Let_def)

lemma record_events:
  assumes "events_refer db" "record_successful_scan h uuid w a job fs now sv pv db = (Inr events, db')"
  shows "mset (filter (\<lambda>e. de_scan_job_id e = job) (drift_events db')) = mset events"
    and "events_refer db'" and "row_of ss_job_id (scan_snapshots db') job \<noteq> None"
proof -
  have "mset (filter (\<lambda>e. de_scan_job_id e = job) (drift_events db')) = mset events \<and> events_refer db' \<and>
      row_of ss_job_id (scan_snapshots db') job \<noteq> None"
  proof (cases "row_of ss_job_id (scan_snapshots db) job")
    case None
    from None assms(2) show ?thesis
    proof (rule record_new)
      fix snap
      assume e: "events = map (event_of uuid w a job now) (enumerate 0 (snd (drift_of h w a job now (scanned_before w a db)
           (prepare_findings h job fs) (observation_states db))))"
        and d: "drift_events db' = drift_events db @ events"
        and s: "scan_snapshots db' = scan_snapshots db @ [snap]" "ss_job_id snap = job"
      have "\<forall>x \<in> set (drift_events db). de_scan_job_id x \<noteq> job"
        using assms(1) None by (auto simp: events_refer_def list_all_iff)
      then have old: "filter (\<lambda>x. de_scan_job_id x = job) (drift_events db) = []" by (simp add: filter_empty_conv)
      have new: "\<forall>x \<in> set events. de_scan_job_id x = job" by (auto simp: e)
      then have "filter (\<lambda>x. de_scan_job_id x = job) events = events" by (simp add: filter_id_conv)
      with old d new s assms(1) show ?thesis
        by (auto simp: events_refer_def list_all_iff row_of_append split: option.splits)
    qed
  next
    case (Some x)
    with record_again [of db job h uuid w a fs now sv pv] assms show ?thesis by auto
  qed
  then show "mset (filter (\<lambda>e. de_scan_job_id e = job) (drift_events db')) = mset events"
    "events_refer db'" "row_of ss_job_id (scan_snapshots db') job \<noteq> None" by blast+
qed

text \<open>
  Recording a scan is idempotent per job: once a job has been recorded, recording it again,
  whatever findings, asset, clock or versions the repeated call carries, returns the drift events
  the first call returned (sorted by time and id) and changes nothing in the database. A worker
  that crashes after the commit and runs its completion again therefore reports no drift twice.
\<close>

theorem recording_is_idempotent:
  assumes "events_refer db"
    and "record_successful_scan h uuid w a job fs now sv pv db = (Inr events, db')"
  shows "\<exists>again. record_successful_scan h2 uuid2 w2 a2 job fs2 now2 sv2 pv2 db' = (Inr again, db') \<and>
      mset again = mset events \<and> sorted (map (\<lambda>e. (de_occurred_at e, de_id e)) again)"
  using record_events(1,3) [OF assms] by (simp add: record_again)

theorem recording_is_idempotent_witness:
  "snd (record_successful_scan plain_hashing (\<lambda>_. []) ''v'' ''b'' ''j1'' [] 77 ''2'' ''2'' (snd sample_recording))
     = snd sample_recording"
proof -
  have "events_refer scanned_db" by (simp add: events_refer_def scanned_db_def)
  from recording_is_idempotent [OF this sample_recording_eq, of plain_hashing "\<lambda>_. []" "''v''" "''b''" "[]" 77
      "''2''" "''2''"]
  show ?thesis by auto
qed

section \<open>Advancing a schedule\<close>

lemma advance_loop_result:
  assumes "0 < interval"
  shows "\<exists>k. advance_loop interval current start = Some (start + int k * interval) \<and>
    current < start + int k * interval \<and> (k = 0 \<or> start + (int k - 1) * interval \<le> current)"
proof (induction "nat (current + 1 - start)" arbitrary: start rule: less_induct)
  case less
  show ?case
  proof (cases "start \<le> current")
    case True
    then have "nat (current + 1 - (start + interval)) < nat (current + 1 - start)" using assms by simp
    from less [OF this] obtain k where k:
      "advance_loop interval current (start + interval) = Some (start + interval + int k * interval)"
      "current < start + interval + int k * interval"
      "k = 0 \<or> start + interval + (int k - 1) * interval \<le> current" by blast
    have "advance_loop interval current start = Some (start + int (Suc k) * interval)"
      using k(1) True by (subst advance_loop.simps) (simp add: algebra_simps)
    moreover have "current < start + int (Suc k) * interval" using k(2) by (simp add: algebra_simps)
    moreover have "start + (int (Suc k) - 1) * interval \<le> current"
      using k(3) True by (cases "k = 0") (simp_all add: algebra_simps)
    ultimately show ?thesis by blast
  next
    case False
    then have "advance_loop interval current start = Some start" by (subst advance_loop.simps) simp
    with False show ?thesis by (intro exI [of _ 0]) simp
  qed
qed

definition advanced :: "time \<Rightarrow> time \<Rightarrow> time \<Rightarrow> scan_schedule \<Rightarrow> scan_schedule" where
  "advanced t now n r = r\<lparr>sd_last_run_at := Some t, sd_next_run_at := n, sd_updated_at := now\<rparr>"

lemma advance_row:
  assumes "keyed sd_id (scan_schedules db)" "row_of sd_id (scan_schedules db) (sd_id s) = Some r"
    and "advance_loop (seconds (sd_interval_seconds s)) now (t + seconds (sd_interval_seconds s)) = Some n"
  shows "advance_schedule s t now db =
    (if sd_workspace_id r = sd_workspace_id s \<and> sd_enabled r \<and> sd_next_run_at r = t
     then Some (True, db\<lparr>scan_schedules := update_where (\<lambda>r. sd_id r = sd_id s) (advanced t now n) (scan_schedules db)\<rparr>)
     else Some (False, db))"
proof -
  let ?P = "\<lambda>r. sd_workspace_id r = sd_workspace_id s \<and> sd_enabled r \<and> sd_next_run_at r = t"
  have "count_where (\<lambda>r. sd_id r = sd_id s \<and> ?P r) (scan_schedules db) = 1 \<longleftrightarrow> ?P r"
    using count_where_one [OF assms(1), of "sd_id s" ?P] assms(2) by simp
  moreover have "update_where (\<lambda>r. sd_id r = sd_id s \<and> ?P r) f (scan_schedules db) =
      update_where (\<lambda>r. sd_id r = sd_id s) f (scan_schedules db)" if "?P r" for f
    using that by (intro update_where_matches [OF assms(1,2)])
  ultimately show ?thesis
    by (simp add: advance_schedule_def assms(3) Let_def advanced_def [abs_def])
qed

text \<open>
  C12. Advancing a schedule whose interval is valid returns. It succeeds iff the schedule is still
  enabled and due at the instant the caller saw, so of several schedulers that saw the same due
  instant one succeeds: every later call for this instant changes nothing. On success the next run
  is the first point of the schedule's grid that lies after both the present and the instant that
  was run, so a scheduler that was down for long skips the missed runs instead of firing them all.
  No other schedule changes.
\<close>

theorem schedule_advances_once:
  assumes "keyed sd_id (scan_schedules db)"
    and "row_of sd_id (scan_schedules db) (sd_id s) = Some r"
    and "60 \<le> sd_interval_seconds s"
  shows "\<exists>ok db'. advance_schedule s t now db = Some (ok, db') \<and>
    (ok \<longleftrightarrow> sd_workspace_id r = sd_workspace_id s \<and> sd_enabled r \<and> sd_next_run_at r = t) \<and>
    (ok \<longrightarrow> (\<exists>n k. row_of sd_id (scan_schedules db') (sd_id s) = Some (advanced t now n r) \<and>
        n = t + int k * seconds (sd_interval_seconds s) \<and> 0 < k \<and> now < n \<and>
        n \<le> max now t + seconds (sd_interval_seconds s))) \<and>
    (\<not> ok \<longrightarrow> db' = db) \<and>
    (\<forall>i. i \<noteq> sd_id s \<longrightarrow> row_of sd_id (scan_schedules db') i = row_of sd_id (scan_schedules db) i) \<and>
    (\<forall>later. advance_schedule s t later db' = Some (False, db'))"
proof -
  let ?i = "seconds (sd_interval_seconds s)"
  let ?P = "sd_workspace_id r = sd_workspace_id s \<and> sd_enabled r \<and> sd_next_run_at r = t"
  have pos: "0 < ?i" using assms(3) by simp
  obtain k where k: "advance_loop ?i now (t + ?i) = Some (t + ?i + int k * ?i)"
    "now < t + ?i + int k * ?i" "k = 0 \<or> t + ?i + (int k - 1) * ?i \<le> now"
    using advance_loop_result [OF pos] by blast
  define n where "n = t + int (Suc k) * ?i"
  have n: "advance_loop ?i now (t + ?i) = Some n" "now < n" "n \<le> max now t + ?i" "t < n"
    using k pos by (auto simp: n_def algebra_simps add_pos_nonneg)
  note row = advance_row [OF assms(1,2) n(1)]
  have again: "\<exists>m. advance_loop ?i later (t + ?i) = Some m" for later
    using advance_loop_result [OF pos] by blast
  show ?thesis
  proof (cases ?P)
    case True
    let ?db = "db\<lparr>scan_schedules := update_where (\<lambda>r. sd_id r = sd_id s) (advanced t now n) (scan_schedules db)\<rparr>"
    have keep: "sd_id (advanced t now n x) = sd_id x" for x by (simp add: advanced_def)
    have keyed': "keyed sd_id (scan_schedules ?db)" using assms(1) keep by (simp add: keyed_update)
    have row': "row_of sd_id (scan_schedules ?db) (sd_id s) = Some (advanced t now n r)"
      using assms(2) keep by (simp add: row_of_update_at)
    have "advance_schedule s t later ?db = Some (False, ?db)" for later
    proof -
      obtain m where m: "advance_loop ?i later (t + ?i) = Some m" using again by blast
      show ?thesis using advance_row [OF keyed' row' m] n(4) by (simp add: advanced_def)
    qed
    moreover have "\<exists>m j. row_of sd_id (scan_schedules ?db) (sd_id s) = Some (advanced t now m r) \<and>
        m = t + int j * ?i \<and> 0 < j \<and> now < m \<and> m \<le> max now t + ?i"
      using row' n by (intro exI [of _ n] exI [of _ "Suc k"]) (simp add: n_def)
    ultimately show ?thesis
      using True row keep by (intro exI [of _ True] exI [of _ ?db]) (simp add: row_of_update_at)
  next
    case False
    have "advance_schedule s t later db = Some (False, db)" for later
    proof -
      obtain m where m: "advance_loop ?i later (t + ?i) = Some m" using again by blast
      show ?thesis using advance_row [OF assms(1,2) m] False by auto
    qed
    with False row show ?thesis by (intro exI [of _ False] exI [of _ db]) auto
  qed
qed

definition sample_schedule :: scan_schedule where
  "sample_schedule = \<lparr>sd_id = ''s'', sd_workspace_id = ''w'', sd_asset_id = ''a'', sd_interval_seconds = 60,
     sd_max_attempts = 3, sd_enabled = True, sd_next_run_at = 0, sd_last_run_at = None,
     sd_created_by = ''u'', sd_created_at = 0, sd_updated_at = 0\<rparr>"

theorem schedule_advances_once_witness:
  "\<exists>db'. advance_schedule sample_schedule 0 (seconds 200) (empty_continuous_db\<lparr>scan_schedules := [sample_schedule]\<rparr>)
       = Some (True, db') \<and> advance_schedule sample_schedule 0 (seconds 201) db' = Some (False, db')"
proof -
  let ?db = "empty_continuous_db\<lparr>scan_schedules := [sample_schedule]\<rparr>"
  have "keyed sd_id (scan_schedules ?db)" "row_of sd_id (scan_schedules ?db) (sd_id sample_schedule) = Some sample_schedule"
    "60 \<le> sd_interval_seconds sample_schedule"
    by (simp_all add: keyed_def row_of_Cons sample_schedule_def)
  from schedule_advances_once [OF this, of 0 "seconds 200"] show ?thesis
    by (auto simp: sample_schedule_def)
qed

end
