(* ===== verification/Remediation.thy ===== *)
theory Remediation
  imports Drift
begin

text \<open>
  Migration work: \<^verbatim>\<open>domain/remediation.py\<close> and \<^verbatim>\<open>storage/remediation.py\<close>. An item is created from a
  finding with continuous provenance, moves along \<open>allowed_remediation\<close> by explicit updates, and
  becomes \<open>Verified\<close> only by a rescan without its observation. An update reads the row and writes
  back, at the commit, the columns whose value changed; what other processes commit in between is
  the parameter \<open>env\<close>.
\<close>

section \<open>State\<close>

datatype remediation_status = Open | Planned | InProgress | Blocked | ReadyForVerification
  | Verified | AcceptedRisk

fun remediation_status_value :: "remediation_status \<Rightarrow> string" where
  "remediation_status_value Open = ''open''"
| "remediation_status_value Planned = ''planned''"
| "remediation_status_value InProgress = ''in-progress''"
| "remediation_status_value Blocked = ''blocked''"
| "remediation_status_value ReadyForVerification = ''ready-for-verification''"
| "remediation_status_value Verified = ''verified''"
| "remediation_status_value AcceptedRisk = ''accepted-risk''"

datatype remediation_priority = PrCritical | PrHigh | PrMedium | PrLow

fun remediation_priority_value :: "remediation_priority \<Rightarrow> string" where
  "remediation_priority_value PrCritical = ''critical''"
| "remediation_priority_value PrHigh = ''high''"
| "remediation_priority_value PrMedium = ''medium''"
| "remediation_priority_value PrLow = ''low''"

text \<open>Dates as (year, month, day), ordered lexicographically.\<close>

type_synonym date = "int \<times> int \<times> int"

text \<open>The JSON object stored as verification evidence; its last three keys are present together.\<close>

record verification_evidence =
  ve_outcome :: string
  ve_verification_job_id :: string
  ve_verification_completed_at :: time
  ve_source_scan_job_id :: string
  ve_observation_fingerprint :: string
  ve_occurrence :: "(int \<times> severity \<times> string) option"

record migration_item =
  mi_id :: string
  mi_workspace_id :: string
  mi_asset_id :: string
  mi_observation_fingerprint :: string
  mi_source_finding_id :: string
  mi_source_scan_job_id :: string
  mi_title :: string
  mi_owner :: "string option"
  mi_status :: remediation_status
  mi_priority :: remediation_priority
  mi_target_algorithm :: "string option"
  mi_due_date :: "date option"
  mi_notes :: "string option"
  mi_acceptance_reason :: "string option"
  mi_verification_job_id :: "string option"
  mi_verified_at :: "time option"
  mi_verification_evidence :: "verification_evidence option"
  mi_source_finding :: finding
  mi_created_by :: string
  mi_created_at :: time
  mi_updated_at :: time

record remediation_verification =
  rv_item :: migration_item
  rv_verified :: bool
  rv_outcome :: string

record migration_db = continuous_db +
  migration_items :: "migration_item tbl"

fun allowed_remediation :: "remediation_status \<Rightarrow> remediation_status list" where
  "allowed_remediation Open = [Planned, InProgress, AcceptedRisk]"
| "allowed_remediation Planned = [InProgress, Blocked, AcceptedRisk]"
| "allowed_remediation InProgress = [Blocked, ReadyForVerification, AcceptedRisk]"
| "allowed_remediation Blocked = [InProgress, AcceptedRisk]"
| "allowed_remediation ReadyForVerification = [InProgress, Blocked]"
| "allowed_remediation Verified = [Open]"
| "allowed_remediation AcceptedRisk = [Open, Planned]"

fun priority_from_severity :: "severity \<Rightarrow> remediation_priority" where
  "priority_from_severity Critical = PrCritical"
| "priority_from_severity High = PrHigh"
| "priority_from_severity Medium = PrMedium"
| "priority_from_severity _ = PrLow"

section \<open>Creating and reading items\<close>

text \<open>Reading a row back constructs the domain object, which checks the length of the fingerprint.\<close>

definition item_of :: "migration_item \<Rightarrow> migration_item result" where
  "item_of r =
     (if length (mi_observation_fingerprint r) \<noteq> 64
      then Inl (ValidationError ''observation_fingerprint'') else Inr r)"

definition truthy :: "string option \<Rightarrow> bool" where
  "truthy s = (case s of None \<Rightarrow> False | Some s \<Rightarrow> s \<noteq> [])"

text \<open>\<open>s.strip() if s and s.strip() else None\<close>.\<close>

definition stripped_or_none :: "string option \<Rightarrow> string option" where
  "stripped_or_none s = (case s of None \<Rightarrow> None | Some s \<Rightarrow> if strip s = [] then None else Some (strip s))"

definition item_conflict :: "migration_item \<Rightarrow> migration_item \<Rightarrow> bool" where
  "item_conflict x i =
     (mi_id x = mi_id i \<or>
      mi_workspace_id x = mi_workspace_id i \<and> mi_asset_id x = mi_asset_id i \<and>
      mi_observation_fingerprint x = mi_observation_fingerprint i)"

text \<open>The finding and its scope in the workspace, as the join finds them.\<close>

definition scoped_finding ::
  "string \<Rightarrow> string \<Rightarrow> 'x findings_db_scheme \<Rightarrow> (finding_row \<times> finding_scope) option" where
  "scoped_finding w f db =
     (case (row_of fr_id (findings db) f,
            first_where (\<lambda>s. fs_finding_id s = f \<and> fs_workspace_id s = w) (finding_scopes db)) of
        (Some r, Some s) \<Rightarrow> Some (r, s) | _ \<Rightarrow> None)"

definition latest_occurrence ::
  "string \<Rightarrow> string \<Rightarrow> string \<Rightarrow> 'x continuous_db_scheme \<Rightarrow> observation_occurrence option" where
  "latest_occurrence w a f db =
     first_where (\<lambda>_. True) (sort_key (\<lambda>x. - oc_observed_at x)
       (filter (\<lambda>x. oc_workspace_id x = w \<and> oc_asset_id x = a \<and> oc_finding_id x = f) (occurrences db)))"

definition new_item ::
  "string \<Rightarrow> string \<Rightarrow> string \<Rightarrow> string \<Rightarrow> string option \<Rightarrow> remediation_priority option \<Rightarrow> string option \<Rightarrow>
   date option \<Rightarrow> string option \<Rightarrow> time \<Rightarrow> finding \<Rightarrow> finding_scope \<Rightarrow> observation_occurrence \<Rightarrow> migration_item" where
  "new_item ident w finding_id created_by owner priority target_algorithm due_date notes now f scope occ =
     (let target = (if truthy target_algorithm then target_algorithm else ra_migration_target (fi_risk f))
      in \<lparr>mi_id = ident, mi_workspace_id = w, mi_asset_id = fs_managed_asset_id scope,
          mi_observation_fingerprint = oc_fingerprint occ, mi_source_finding_id = finding_id,
          mi_source_scan_job_id = oc_job_id occ,
          mi_title = take 300 (''Migrate '' @ ob_algorithm (fi_observation f) @ '' on '' @
            ob_asset_name (fi_observation f)),
          mi_owner = map_option (take 200) (stripped_or_none owner), mi_status = Open,
          mi_priority = (case priority of Some p \<Rightarrow> p
                         | None \<Rightarrow> priority_from_severity (ra_severity (fi_risk f))),
          mi_target_algorithm = (if truthy target then map_option (take 200) target else None),
          mi_due_date = due_date, mi_notes = stripped_or_none notes, mi_acceptance_reason = None,
          mi_verification_job_id = None, mi_verified_at = None, mi_verification_evidence = None,
          mi_source_finding = f, mi_created_by = take 200 (strip created_by), mi_created_at = now,
          mi_updated_at = now\<rparr>)"

definition create_from_finding ::
  "('x migration_db_scheme \<Rightarrow> 'x migration_db_scheme) \<Rightarrow> string \<Rightarrow> string \<Rightarrow> string \<Rightarrow> string \<Rightarrow> string option \<Rightarrow>
   remediation_priority option \<Rightarrow> string option \<Rightarrow> date option \<Rightarrow> string option \<Rightarrow> time \<Rightarrow>
   'x migration_db_scheme \<Rightarrow> (migration_item, 'x migration_db_scheme) outcome" where
  "create_from_finding env ident w finding_id created_by owner priority target_algorithm due_date notes now db =
     (if strip created_by = [] then (Inl (ValueError ''created_by is required''), db)
      else case scoped_finding w finding_id db of
             None \<Rightarrow> (Inl (LookupError ''finding not found in workspace''), db)
           | Some (r, scope) \<Rightarrow>
               (case latest_occurrence w (fs_managed_asset_id scope) finding_id db of
                  None \<Rightarrow> (Inl (ValueError (''finding has no continuous provenance; rescan the managed asset '' @
                            ''before creating migration work'')), db)
                | Some occ \<Rightarrow>
                    let item = new_item ident w finding_id created_by owner priority target_algorithm due_date
                          notes now (fr_payload r) scope occ;
                        db' = env db
                    in case insert_row item_conflict item (migration_items db') of
                         None \<Rightarrow> (Inl (ValueError ''migration work already exists for this cryptographic exposure''), db')
                       | Some t \<Rightarrow> (item_of item, db'\<lparr>migration_items := t\<rparr>)))"

definition find_item :: "string \<Rightarrow> string \<Rightarrow> 'x migration_db_scheme \<Rightarrow> migration_item option" where
  "find_item w i db = first_where (\<lambda>r. mi_workspace_id r = w \<and> mi_id r = i) (migration_items db)"

definition get_item :: "string \<Rightarrow> string \<Rightarrow> 'x migration_db_scheme \<Rightarrow> migration_item option result" where
  "get_item w i db = optional_row item_of (find_item w i db)"

definition item_order :: "migration_item \<Rightarrow> bool \<times> date \<times> time" where
  "item_order r =
     (case mi_due_date r of None \<Rightarrow> (True, (0, 0, 0), - mi_created_at r)
      | Some d \<Rightarrow> (False, d, - mi_created_at r))"

definition list_items ::
  "string \<Rightarrow> remediation_status option \<Rightarrow> string option \<Rightarrow> int \<Rightarrow> 'x migration_db_scheme \<Rightarrow>
   migration_item list result" where
  "list_items w status owner limit db =
     (if \<not> (1 \<le> limit \<and> limit \<le> 1000) then Inl (ValueError ''limit must be between 1 and 1000'')
      else map_rows item_of (take (nat limit) (sort_key item_order (filter
             (\<lambda>r. mi_workspace_id r = w \<and> (status = None \<or> status = Some (mi_status r)) \<and>
                  (truthy owner \<longrightarrow> mi_owner r = owner)) (migration_items db)))))"

section \<open>Updating an item\<close>

text \<open>The values of the dictionary \<open>changes\<close>; an enum member is its text.\<close>

datatype py_value = PNone | PText string | PInt int | PDate date

definition digits :: "nat \<Rightarrow> int \<Rightarrow> string" where
  "digits n i = (let s = str_of_int i in replicate (n - length s) CHR ''0'' @ s)"

fun py_str :: "py_value \<Rightarrow> string" where
  "py_str PNone = ''None''"
| "py_str (PText s) = s"
| "py_str (PInt i) = str_of_int i"
| "py_str (PDate (y, m, d)) = digits 4 y @ ''-'' @ digits 2 m @ ''-'' @ digits 2 d"

fun py_true :: "py_value \<Rightarrow> bool" where
  "py_true PNone = False"
| "py_true (PText s) = (s \<noteq> [])"
| "py_true (PInt i) = (i \<noteq> 0)"
| "py_true (PDate d) = True"

definition quoted :: "string \<Rightarrow> string" where
  "quoted s = [CHR 0x27] @ s @ [CHR 0x27]"

definition parse_status :: "string \<Rightarrow> remediation_status result" where
  "parse_status s =
     (case find (\<lambda>x. remediation_status_value x = s)
             [Open, Planned, InProgress, Blocked, ReadyForVerification, Verified, AcceptedRisk] of
        Some x \<Rightarrow> Inr x
      | None \<Rightarrow> Inl (ValueError (quoted s @ '' is not a valid RemediationStatus'')))"

definition parse_priority :: "string \<Rightarrow> remediation_priority result" where
  "parse_priority s =
     (case find (\<lambda>x. remediation_priority_value x = s) [PrCritical, PrHigh, PrMedium, PrLow] of
        Some x \<Rightarrow> Inr x
      | None \<Rightarrow> Inl (ValueError (quoted s @ '' is not a valid RemediationPriority'')))"

type_synonym changes = "(string \<times> py_value) list"

definition updatable :: "string list" where
  "updatable = [''owner'', ''status'', ''priority'', ''target_algorithm'', ''due_date'', ''notes'',
     ''acceptance_reason'']"

definition valid_reason :: "py_value option \<Rightarrow> string result" where
  "valid_reason v =
     (case v of
        Some (PText s) \<Rightarrow>
          if length (strip s) < 5 then Inl (ValueError ''accepted risk requires an acceptance reason'')
          else Inr (strip s)
      | _ \<Rightarrow> Inl (ValueError ''accepted risk requires an acceptance reason''))"

definition move_status :: "changes \<Rightarrow> migration_item \<Rightarrow> remediation_status \<Rightarrow> migration_item result" where
  "move_status changes r target =
     (if target = Verified
      then Inl (ValueError ''verified status can only be reached through rescan verification'')
      else if target \<noteq> mi_status r \<and> target \<notin> set (allowed_remediation (mi_status r))
      then Inl (ValueError (''invalid remediation transition: '' @
             remediation_status_value (mi_status r) @ '' -> '' @ remediation_status_value target))
      else if target = AcceptedRisk
      then bindE (valid_reason (case map_of changes ''acceptance_reason'' of
                    Some x \<Rightarrow> Some x | None \<Rightarrow> map_option PText (mi_acceptance_reason r)))
             (\<lambda>reason. Inr (r\<lparr>mi_status := target, mi_acceptance_reason := Some reason, mi_verified_at := None\<rparr>))
      else Inr (r\<lparr>mi_status := target, mi_acceptance_reason := None, mi_verified_at := None\<rparr>))"

definition change_status :: "changes \<Rightarrow> migration_item \<Rightarrow> migration_item result" where
  "change_status changes r =
     (case map_of changes ''status'' of
        None \<Rightarrow> Inr r
      | Some PNone \<Rightarrow> Inr r
      | Some v \<Rightarrow> bindE (parse_status (py_str v)) (move_status changes r))"

definition change_text :: "nat option \<Rightarrow> py_value \<Rightarrow> string option" where
  "change_text limit v =
     (if py_true v then Some (case limit of None \<Rightarrow> strip (py_str v) | Some n \<Rightarrow> take n (strip (py_str v))) else None)"

definition change_fields :: "changes \<Rightarrow> migration_item \<Rightarrow> migration_item result" where
  "change_fields changes r =
     (let r = (case map_of changes ''owner'' of None \<Rightarrow> r | Some v \<Rightarrow> r\<lparr>mi_owner := change_text (Some 200) v\<rparr>)
      in bindE (case map_of changes ''priority'' of
                  None \<Rightarrow> Inr r
                | Some PNone \<Rightarrow> Inr r
                | Some v \<Rightarrow> bindE (parse_priority (py_str v)) (\<lambda>p. Inr (r\<lparr>mi_priority := p\<rparr>)))
           (\<lambda>r. let r = (case map_of changes ''target_algorithm'' of None \<Rightarrow> r
                   | Some v \<Rightarrow> r\<lparr>mi_target_algorithm := change_text (Some 200) v\<rparr>)
            in bindE (case map_of changes ''due_date'' of
                        None \<Rightarrow> Inr r
                      | Some PNone \<Rightarrow> Inr (r\<lparr>mi_due_date := None\<rparr>)
                      | Some (PDate d) \<Rightarrow> Inr (r\<lparr>mi_due_date := Some d\<rparr>)
                      | Some _ \<Rightarrow> Inl (ValueError ''due_date must be a date''))
                 (\<lambda>r. Inr (case map_of changes ''notes'' of None \<Rightarrow> r
                            | Some v \<Rightarrow> r\<lparr>mi_notes := change_text None v\<rparr>))))"

definition change_reason :: "changes \<Rightarrow> migration_item \<Rightarrow> migration_item result" where
  "change_reason changes r =
     (case map_of changes ''acceptance_reason'' of
        None \<Rightarrow> Inr r
      | Some v \<Rightarrow>
          if mi_status r = AcceptedRisk
          then bindE (valid_reason (Some v)) (\<lambda>reason. Inr (r\<lparr>mi_acceptance_reason := Some reason\<rparr>))
          else Inr r)"

definition apply_changes :: "changes \<Rightarrow> time \<Rightarrow> migration_item \<Rightarrow> migration_item result" where
  "apply_changes changes now r =
     bindE (change_status changes r) (\<lambda>r. bindE (change_fields changes r) (\<lambda>r.
       bindE (change_reason changes r) (\<lambda>r. Inr (r\<lparr>mi_updated_at := now\<rparr>))))"

text \<open>The commit writes the columns whose value is not the one that was read.\<close>

definition flush_item :: "migration_item \<Rightarrow> migration_item \<Rightarrow> migration_item \<Rightarrow> migration_item" where
  "flush_item old new r =
     r\<lparr>mi_owner := flush (mi_owner old) (mi_owner new) (mi_owner r), mi_status := flush (mi_status old) (mi_status new) (mi_status r),
       mi_priority := flush (mi_priority old) (mi_priority new) (mi_priority r),
       mi_target_algorithm := flush (mi_target_algorithm old) (mi_target_algorithm new) (mi_target_algorithm r),
       mi_due_date := flush (mi_due_date old) (mi_due_date new) (mi_due_date r), mi_notes := flush (mi_notes old) (mi_notes new) (mi_notes r),
       mi_acceptance_reason := flush (mi_acceptance_reason old) (mi_acceptance_reason new) (mi_acceptance_reason r),
       mi_verification_job_id := flush (mi_verification_job_id old) (mi_verification_job_id new) (mi_verification_job_id r),
       mi_verified_at := flush (mi_verified_at old) (mi_verified_at new) (mi_verified_at r),
       mi_verification_evidence := flush (mi_verification_evidence old) (mi_verification_evidence new) (mi_verification_evidence r),
       mi_updated_at := flush (mi_updated_at old) (mi_updated_at new) (mi_updated_at r)\<rparr>"

definition commit_item ::
  "('x migration_db_scheme \<Rightarrow> 'x migration_db_scheme) \<Rightarrow> migration_item \<Rightarrow> migration_item \<Rightarrow>
   'x migration_db_scheme \<Rightarrow> (migration_item, 'x migration_db_scheme) outcome" where
  "commit_item env old new db =
     (let db' = env db;
          t = update_where (\<lambda>r. mi_id r = mi_id old) (flush_item old new) (migration_items db')
      in case row_of mi_id t (mi_id old) of
           None \<Rightarrow> (Inl StaleDataError, db')
         | Some r \<Rightarrow> (item_of r, db'\<lparr>migration_items := t\<rparr>))"

definition update_item ::
  "('x migration_db_scheme \<Rightarrow> 'x migration_db_scheme) \<Rightarrow> string \<Rightarrow> string \<Rightarrow> changes \<Rightarrow> time \<Rightarrow>
   'x migration_db_scheme \<Rightarrow> (migration_item, 'x migration_db_scheme) outcome" where
  "update_item env w i changes now db =
     (let unknown = filter (\<lambda>k. k \<notin> set updatable) (map fst changes)
      in if unknown \<noteq> []
         then (Inl (ValueError (''unsupported remediation fields: '' @ join_commas (sort (remdups unknown)))), db)
         else case find_item w i db of
                None \<Rightarrow> (Inl (LookupError ''migration item not found in workspace''), db)
              | Some r \<Rightarrow>
                  (case apply_changes changes now r of
                     Inl e \<Rightarrow> (Inl e, db)
                   | Inr r' \<Rightarrow> commit_item env r r' db))"

section \<open>Verifying an item\<close>

definition latest_snapshot :: "string \<Rightarrow> string \<Rightarrow> 'x continuous_db_scheme \<Rightarrow> scan_snapshot option" where
  "latest_snapshot w a db =
     first_where (\<lambda>_. True) (rev (sort_key (\<lambda>s. (ss_completed_at s, ss_job_id s))
       (filter (\<lambda>s. ss_workspace_id s = w \<and> ss_asset_id s = a) (scan_snapshots db))))"

definition verification_job :: "string \<Rightarrow> string \<Rightarrow> string \<Rightarrow> 'x inv_db_scheme \<Rightarrow> scan_job option" where
  "verification_job w a job db =
     first_where (\<lambda>j. sj_id j = job \<and> sj_workspace_id j = w \<and> sj_asset_id j = a \<and> sj_status j = Succeeded)
       (scan_jobs db)"

text \<open>The checks before the occurrence is read, in order; the result is the snapshot.\<close>

definition verification_snapshot :: "string \<Rightarrow> migration_item \<Rightarrow> string \<Rightarrow> 'x migration_db_scheme \<Rightarrow> scan_snapshot result" where
  "verification_snapshot w r job db =
     (if mi_status r \<noteq> ReadyForVerification
      then Inl (ValueError ''migration item must be ready-for-verification'')
      else if verification_job w (mi_asset_id r) job db = None
      then Inl (ValueError ''verification requires a successful scan of the same managed asset'')
      else case row_of ss_job_id (scan_snapshots db) job of
             None \<Rightarrow> Inl (ValueError ''verification scan has no retained evidence snapshot'')
           | Some snapshot \<Rightarrow>
               if map_option ss_job_id (latest_snapshot w (mi_asset_id r) db) \<noteq> Some job
               then Inl (ValueError ''verification must use the latest successful evidence snapshot'')
               else case row_of ss_job_id (scan_snapshots db) (mi_source_scan_job_id r) of
                      None \<Rightarrow> Inr snapshot
                    | Some source \<Rightarrow>
                        if ss_completed_at snapshot \<le> ss_completed_at source
                        then Inl (ValueError ''verification scan must be newer than the source finding'')
                        else Inr snapshot)"

definition verified_item ::
  "string \<Rightarrow> time \<Rightarrow> scan_snapshot \<Rightarrow> observation_occurrence option \<Rightarrow> migration_item \<Rightarrow> migration_item" where
  "verified_item job now snapshot occurrence r =
     r\<lparr>mi_verification_job_id := Some job,
       mi_verification_evidence := Some
         \<lparr>ve_outcome = (if occurrence = None then ''resolved'' else ''still-present''),
          ve_verification_job_id = job, ve_verification_completed_at = ss_completed_at snapshot,
          ve_source_scan_job_id = mi_source_scan_job_id r,
          ve_observation_fingerprint = mi_observation_fingerprint r,
          ve_occurrence = map_option (\<lambda>x. (oc_risk_score x, oc_severity x, oc_evidence_hash x)) occurrence\<rparr>,
       mi_updated_at := now,
       mi_status := (if occurrence = None then Verified else InProgress),
       mi_verified_at := (if occurrence = None then Some now else None)\<rparr>"

definition verify_item ::
  "('x migration_db_scheme \<Rightarrow> 'x migration_db_scheme) \<Rightarrow> string \<Rightarrow> string \<Rightarrow> string \<Rightarrow> time \<Rightarrow>
   'x migration_db_scheme \<Rightarrow> (remediation_verification, 'x migration_db_scheme) outcome" where
  "verify_item env w i job now db =
     (case find_item w i db of
        None \<Rightarrow> (Inl (LookupError ''migration item not found in workspace''), db)
      | Some r \<Rightarrow>
          (case verification_snapshot w r job db of
             Inl e \<Rightarrow> (Inl e, db)
           | Inr snapshot \<Rightarrow>
               let occurrence = first_where (\<lambda>x. oc_job_id x = job \<and>
                     oc_fingerprint x = mi_observation_fingerprint r) (occurrences db);
                   (res, db') = commit_item env r (verified_item job now snapshot occurrence r) db
               in (bindE res (\<lambda>item. Inr \<lparr>rv_item = item, rv_verified = (occurrence = None),
                     rv_outcome = (if occurrence = None then ''resolved'' else ''still-present'')\<rparr>), db')))"

section \<open>The life of an item\<close>

text \<open>The timestamps, the reason and the evidence that go with a status.\<close>

definition reason_ok :: "remediation_status \<Rightarrow> string option \<Rightarrow> bool" where
  "reason_ok status reason =
     (case reason of None \<Rightarrow> status \<noteq> AcceptedRisk
      | Some s \<Rightarrow> status = AcceptedRisk \<and> 5 \<le> length s \<and> strip s = s)"

definition evidence_ok :: "string option \<Rightarrow> verification_evidence option \<Rightarrow> bool" where
  "evidence_ok job ev =
     (case ev of None \<Rightarrow> False
      | Some v \<Rightarrow> ve_outcome v = ''resolved'' \<and> ve_occurrence v = None \<and> job = Some (ve_verification_job_id v))"

definition item_ok :: "migration_item \<Rightarrow> bool" where
  "item_ok r =
     ((mi_verified_at r \<noteq> None \<longleftrightarrow> mi_status r = Verified) \<and>
      reason_ok (mi_status r) (mi_acceptance_reason r) \<and>
      (mi_status r = Verified \<longrightarrow> evidence_ok (mi_verification_job_id r) (mi_verification_evidence r)))"

definition exposure :: "migration_item \<Rightarrow> string \<times> string \<times> string" where
  "exposure r = (mi_workspace_id r, mi_asset_id r, mi_observation_fingerprint r)"

text \<open>The columns that no update writes, and those that only the status decides.\<close>

definition fixed_of :: "migration_item \<Rightarrow> migration_item" where
  "fixed_of r = r\<lparr>mi_owner := None, mi_status := Open, mi_priority := PrLow, mi_target_algorithm := None,
     mi_due_date := None, mi_notes := None, mi_acceptance_reason := None, mi_verification_job_id := None,
     mi_verified_at := None, mi_verification_evidence := None, mi_updated_at := 0\<rparr>"

definition life_of ::
  "migration_item \<Rightarrow> remediation_status \<times> time option \<times> string option \<times> verification_evidence option" where
  "life_of r = (mi_status r, mi_verified_at r, mi_verification_job_id r, mi_verification_evidence r)"

lemma bindE_InrE:
  assumes "bindE r f = Inr b"
  obtains a where "r = Inr a" "f a = Inr b"
  using assms by (auto simp: bindE_Inr)

lemma valid_reason_Inr: "valid_reason v = Inr s \<Longrightarrow> 5 \<le> length s \<and> strip s = s"
  by (auto simp: valid_reason_def split: option.splits py_value.splits if_splits)

lemma item_ok_cong:
  "life_of r' = life_of r \<Longrightarrow> mi_acceptance_reason r' = mi_acceptance_reason r \<Longrightarrow> item_ok r' = item_ok r"
  unfolding item_ok_def life_of_def prod.inject by (elim conjE) (simp only:)

definition keeps_life :: "migration_item \<Rightarrow> migration_item \<Rightarrow> bool" where
  "keeps_life r r' =
     (fixed_of r' = fixed_of r \<and> life_of r' = life_of r \<and> mi_acceptance_reason r' = mi_acceptance_reason r)"

lemma keeps_life_refl [simp]: "keeps_life r r"
  by (simp add: keeps_life_def)

lemma keeps_life_trans: "keeps_life r s \<Longrightarrow> keeps_life s t \<Longrightarrow> keeps_life r t"
  by (simp add: keeps_life_def)

lemma keeps_life_fields [simp]:
    "keeps_life r (r\<lparr>mi_owner := a\<rparr>)" "keeps_life r (r\<lparr>mi_priority := b\<rparr>)"
    "keeps_life r (r\<lparr>mi_target_algorithm := c\<rparr>)" "keeps_life r (r\<lparr>mi_due_date := d\<rparr>)"
    "keeps_life r (r\<lparr>mi_notes := n\<rparr>)" "keeps_life r (r\<lparr>mi_updated_at := t\<rparr>)"
  by (simp_all add: keeps_life_def fixed_of_def life_of_def)

lemma change_fields_keeps:
  assumes "change_fields changes r = Inr r'"
  shows "keeps_life r r'"
proof -
  define r1 where "r1 = (case map_of changes ''owner'' of None \<Rightarrow> r | Some v \<Rightarrow> r\<lparr>mi_owner := change_text (Some 200) v\<rparr>)"
  from assms obtain r2 where r2: "(case map_of changes ''priority'' of None \<Rightarrow> Inr r1 | Some PNone \<Rightarrow> Inr r1
      | Some v \<Rightarrow> bindE (parse_priority (py_str v)) (\<lambda>p. Inr (r1\<lparr>mi_priority := p\<rparr>))) = Inr r2"
    and rest: "(let r = (case map_of changes ''target_algorithm'' of None \<Rightarrow> r2
                   | Some v \<Rightarrow> r2\<lparr>mi_target_algorithm := change_text (Some 200) v\<rparr>)
            in bindE (case map_of changes ''due_date'' of
                        None \<Rightarrow> Inr r
                      | Some PNone \<Rightarrow> Inr (r\<lparr>mi_due_date := None\<rparr>)
                      | Some (PDate d) \<Rightarrow> Inr (r\<lparr>mi_due_date := Some d\<rparr>)
                      | Some _ \<Rightarrow> Inl (ValueError ''due_date must be a date''))
                 (\<lambda>r. Inr (case map_of changes ''notes'' of None \<Rightarrow> r
                            | Some v \<Rightarrow> r\<lparr>mi_notes := change_text None v\<rparr>))) = Inr r'"
    unfolding change_fields_def Let_def r1_def by (rule bindE_InrE)
  define r3 where "r3 = (case map_of changes ''target_algorithm'' of None \<Rightarrow> r2
                   | Some v \<Rightarrow> r2\<lparr>mi_target_algorithm := change_text (Some 200) v\<rparr>)"
  from rest obtain r4 where r4: "(case map_of changes ''due_date'' of
                        None \<Rightarrow> Inr r3
                      | Some PNone \<Rightarrow> Inr (r3\<lparr>mi_due_date := None\<rparr>)
                      | Some (PDate d) \<Rightarrow> Inr (r3\<lparr>mi_due_date := Some d\<rparr>)
                      | Some _ \<Rightarrow> Inl (ValueError ''due_date must be a date'')) = Inr r4"
    and r': "r' = (case map_of changes ''notes'' of None \<Rightarrow> r4 | Some v \<Rightarrow> r4\<lparr>mi_notes := change_text None v\<rparr>)"
    unfolding Let_def r3_def [symmetric] by (elim bindE_InrE) simp
  have "keeps_life r r1" by (simp add: r1_def split: option.split)
  moreover have "keeps_life r1 r2"
    using r2 by (auto elim!: bindE_InrE split: option.splits py_value.splits)
  moreover have "keeps_life r2 r3" by (simp add: r3_def split: option.split)
  moreover have "keeps_life r3 r4" using r4 by (auto split: option.splits py_value.splits)
  moreover have "keeps_life r4 r'" by (simp add: r' split: option.split)
  ultimately show ?thesis by (meson keeps_life_trans)
qed

lemma change_reason_keeps:
  assumes "change_reason changes r = Inr r'"
  shows "fixed_of r' = fixed_of r \<and> life_of r' = life_of r \<and> (item_ok r \<longrightarrow> item_ok r')"
proof (cases "map_of changes ''acceptance_reason''")
  case None
  with assms show ?thesis by (simp add: change_reason_def)
next
  case (Some v)
  show ?thesis
  proof (cases "mi_status r = AcceptedRisk")
    case True
    with Some assms obtain s where s: "valid_reason (Some v) = Inr s" "r' = r\<lparr>mi_acceptance_reason := Some s\<rparr>"
      by (auto simp: change_reason_def elim: bindE_InrE)
    from True valid_reason_Inr [OF s(1)] show ?thesis
      by (simp add: s(2) fixed_of_def life_of_def item_ok_def reason_ok_def)
  next
    case False
    with Some assms show ?thesis by (simp add: change_reason_def)
  qed
qed

text \<open>A status update either does nothing or moves along the table.\<close>

lemma change_status_cases:
  assumes "change_status changes r = Inr r'"
  obtains "r' = r"
  | target reason where "target \<noteq> Verified" "target = mi_status r \<or> target \<in> set (allowed_remediation (mi_status r))"
      "reason_ok target reason"
      "r' = r\<lparr>mi_status := target, mi_acceptance_reason := reason, mi_verified_at := None\<rparr>"
proof -
  have "r' = r \<or> (\<exists>target. move_status changes r target = Inr r')"
    using assms unfolding change_status_def
    by (auto elim: bindE_InrE split: option.splits py_value.splits)
  then show thesis
  proof
    assume "\<exists>target. move_status changes r target = Inr r'"
    then obtain target where t: "move_status changes r target = Inr r'" ..
    then have ok: "target \<noteq> Verified" "target = mi_status r \<or> target \<in> set (allowed_remediation (mi_status r))"
      by (auto simp: move_status_def split: if_splits)
    show thesis
    proof (cases "target = AcceptedRisk")
      case True
      then have "move_status changes r target =
          bindE (valid_reason (case map_of changes ''acceptance_reason'' of
            Some x \<Rightarrow> Some x | None \<Rightarrow> map_option PText (mi_acceptance_reason r)))
          (\<lambda>reason. Inr (r\<lparr>mi_status := target, mi_acceptance_reason := Some reason, mi_verified_at := None\<rparr>))"
        using ok by (auto simp: move_status_def)
      from trans [OF this [symmetric] t] obtain s where s: "valid_reason (case map_of changes ''acceptance_reason'' of
            Some x \<Rightarrow> Some x | None \<Rightarrow> map_option PText (mi_acceptance_reason r)) = Inr s"
        "Inr (r\<lparr>mi_status := target, mi_acceptance_reason := Some s, mi_verified_at := None\<rparr>) = Inr r'"
        by (rule bindE_InrE) blast
      with ok True valid_reason_Inr [OF s(1)] show thesis
        by (intro that(2) [of target "Some s"]) (auto simp: reason_ok_def)
    next
      case False
      with t ok show thesis
        by (intro that(2) [of target None]) (auto simp: move_status_def reason_ok_def split: if_splits)
    qed
  qed (rule that(1))
qed

lemma apply_changes_ok:
  assumes "apply_changes changes now r = Inr r'"
  shows "fixed_of r' = fixed_of r" "item_ok r \<Longrightarrow> item_ok r'"
    "mi_status r' = mi_status r \<or> mi_status r' \<in> set (allowed_remediation (mi_status r)) \<and> mi_status r' \<noteq> Verified"
proof -
  from assms obtain r1 r2 r3 where r: "change_status changes r = Inr r1" "change_fields changes r1 = Inr r2"
    "change_reason changes r2 = Inr r3" "r' = r3\<lparr>mi_updated_at := now\<rparr>"
    unfolding apply_changes_def by (elim bindE_InrE) simp
  have 1: "fixed_of r1 = fixed_of r \<and> (item_ok r \<longrightarrow> item_ok r1) \<and>
      (mi_status r1 = mi_status r \<or> mi_status r1 \<in> set (allowed_remediation (mi_status r)) \<and> mi_status r1 \<noteq> Verified)"
    using r(1) by (rule change_status_cases) (auto simp: fixed_of_def item_ok_def)
  have 2: "fixed_of r2 = fixed_of r1 \<and> (item_ok r1 \<longrightarrow> item_ok r2) \<and> mi_status r2 = mi_status r1"
    using change_fields_keeps [OF r(2)] item_ok_cong [of r2 r1] by (simp add: keeps_life_def life_of_def)
  have 3: "fixed_of r3 = fixed_of r2 \<and> (item_ok r2 \<longrightarrow> item_ok r3) \<and> mi_status r3 = mi_status r2"
    using change_reason_keeps [OF r(3)] by (auto simp: life_of_def)
  have 4: "fixed_of r' = fixed_of r3 \<and> (item_ok r3 \<longrightarrow> item_ok r') \<and> mi_status r' = mi_status r3"
    by (simp add: r(4) fixed_of_def item_ok_def)
  show "fixed_of r' = fixed_of r" "item_ok r \<Longrightarrow> item_ok r'"
    "mi_status r' = mi_status r \<or> mi_status r' \<in> set (allowed_remediation (mi_status r)) \<and> mi_status r' \<noteq> Verified"
    using 1 2 3 4 by auto
qed

section \<open>Steps of the item table\<close>

lemma flush_item_self: "fixed_of new = fixed_of old \<Longrightarrow> flush_item old new old = new"
  by (cases old, cases new) (simp add: flush_item_def fixed_of_def)

lemma fixed_fields:
  assumes "fixed_of r' = fixed_of r"
  shows "mi_id r' = mi_id r" "exposure r' = exposure r" "mi_source_scan_job_id r' = mi_source_scan_job_id r"
proof -
  from assms have "mi_id (fixed_of r') = mi_id (fixed_of r)" "exposure (fixed_of r') = exposure (fixed_of r)"
    "mi_source_scan_job_id (fixed_of r') = mi_source_scan_job_id (fixed_of r)" by simp_all
  then show "mi_id r' = mi_id r" "exposure r' = exposure r" "mi_source_scan_job_id r' = mi_source_scan_job_id r"
    by (simp_all add: fixed_of_def exposure_def)
qed

lemma flush_item_keys [simp]: "mi_id (flush_item old new r) = mi_id r" "exposure (flush_item old new r) = exposure r"
  by (simp_all add: flush_item_def exposure_def)

lemma commit_alone:
  assumes "keyed mi_id (migration_items db)" "row_of mi_id (migration_items db) (mi_id old) = Some old"
    and "fixed_of new = fixed_of old"
  shows "commit_item id old new db =
    (item_of new, db\<lparr>migration_items := update_where (\<lambda>r. mi_id r = mi_id old) (\<lambda>_. new) (migration_items db)\<rparr>)"
proof -
  have "flush_item old new r = new" if "r \<in> set (migration_items db)" "mi_id r = mi_id old" for r
    using row_of_member [OF assms(1) that(1)] that(2) assms(2) flush_item_self [OF assms(3)] by simp
  then have t: "update_where (\<lambda>r. mi_id r = mi_id old) (flush_item old new) (migration_items db) =
      update_where (\<lambda>r. mi_id r = mi_id old) (\<lambda>_. new) (migration_items db)"
    by (auto simp: update_where_def)
  have "row_of mi_id (update_where (\<lambda>r. mi_id r = mi_id old) (flush_item old new) (migration_items db)) (mi_id old) = Some new"
    using assms(2) flush_item_self [OF assms(3)] by (simp add: row_of_update_at)
  then show ?thesis by (simp add: commit_item_def t)
qed

lemma find_item_Some:
  assumes "find_item w i db = Some r" "keyed mi_id (migration_items db)"
  shows "row_of mi_id (migration_items db) i = Some r" "mi_id r = i" "mi_workspace_id r = w"
  using assms first_where_key [OF assms(2), of "\<lambda>r. mi_workspace_id r = w" i]
  by (auto simp: find_item_def dest: row_of_SomeD split: option.splits if_splits)

text \<open>
  A scan that clears an item: it succeeded on the item's asset, its snapshot is the latest of the
  asset and newer than the one of the source finding, and it did not see the item's observation.
\<close>

definition clean_rescan :: "'x migration_db_scheme \<Rightarrow> migration_item \<Rightarrow> string \<Rightarrow> bool" where
  "clean_rescan db r job =
     ((\<exists>j \<in> set (scan_jobs db). sj_id j = job \<and> sj_workspace_id j = mi_workspace_id r \<and>
         sj_asset_id j = mi_asset_id r \<and> sj_status j = Succeeded) \<and>
      (\<exists>s \<in> set (scan_snapshots db). ss_job_id s = job \<and> ss_workspace_id s = mi_workspace_id r \<and>
         ss_asset_id s = mi_asset_id r \<and>
         (\<forall>s' \<in> set (scan_snapshots db). ss_workspace_id s' = mi_workspace_id r \<and> ss_asset_id s' = mi_asset_id r \<longrightarrow>
            ss_completed_at s' \<le> ss_completed_at s) \<and>
         (\<forall>s' \<in> set (scan_snapshots db). ss_job_id s' = mi_source_scan_job_id r \<longrightarrow>
            ss_completed_at s' < ss_completed_at s)) \<and>
      \<not> (\<exists>x \<in> set (occurrences db). oc_job_id x = job \<and> oc_fingerprint x = mi_observation_fingerprint r))"

lemma latest_snapshot_last:
  assumes "latest_snapshot w a db = Some s"
  shows "s \<in> set (scan_snapshots db) \<and> ss_workspace_id s = w \<and> ss_asset_id s = a \<and>
    (\<forall>s' \<in> set (scan_snapshots db). ss_workspace_id s' = w \<and> ss_asset_id s' = a \<longrightarrow>
       ss_completed_at s' \<le> ss_completed_at s)"
proof -
  let ?k = "\<lambda>s. (ss_completed_at s, ss_job_id s)"
  let ?fs = "filter (\<lambda>s. ss_workspace_id s = w \<and> ss_asset_id s = a) (scan_snapshots db)"
  let ?xs = "sort_key ?k ?fs"
  obtain ys where xs: "?xs = ys @ [s]"
    using assms by (cases "rev ?xs") (auto simp: latest_snapshot_def first_where_def)
  have "sorted (map ?k (ys @ [s]))" unfolding xs [symmetric] by simp
  then have le: "\<forall>x \<in> set ys. ?k x \<le> ?k s" by (auto simp: sorted_append)
  have set: "set ?fs = insert s (set ys)" using arg_cong [OF xs, of set] by simp
  have "ss_completed_at x \<le> ss_completed_at s" if "x \<in> set ?fs" for x
    using that le unfolding set by (auto simp: less_eq_prod_def)
  moreover have "s \<in> set ?fs" unfolding set by simp
  ultimately show ?thesis by auto
qed

lemma verification_clean:
  assumes "verification_snapshot (mi_workspace_id r) r job db = Inr snapshot" "keyed ss_job_id (scan_snapshots db)"
    and "first_where (\<lambda>x. oc_job_id x = job \<and> oc_fingerprint x = mi_observation_fingerprint r) (occurrences db) = None"
  shows "clean_rescan db r job" "mi_status r = ReadyForVerification"
proof -
  let ?w = "mi_workspace_id r" and ?a = "mi_asset_id r"
  from assms(1) show "mi_status r = ReadyForVerification"
    by (simp add: verification_snapshot_def split: if_splits)
  from assms(1) have snap: "row_of ss_job_id (scan_snapshots db) job = Some snapshot"
    and job: "verification_job ?w ?a job db \<noteq> None"
    and latest: "map_option ss_job_id (latest_snapshot ?w ?a db) = Some job"
    and newer: "\<And>s. row_of ss_job_id (scan_snapshots db) (mi_source_scan_job_id r) = Some s \<Longrightarrow>
      ss_completed_at s < ss_completed_at snapshot"
    by (auto simp: verification_snapshot_def split: if_splits option.splits)
  from latest obtain s where s: "latest_snapshot ?w ?a db = Some s" "ss_job_id s = job" by auto
  note last = latest_snapshot_last [OF s(1)]
  with row_of_member [OF assms(2), of s] s(2) snap have "s = snapshot" by simp
  moreover have "ss_completed_at s' < ss_completed_at snapshot"
    if "s' \<in> set (scan_snapshots db)" "ss_job_id s' = mi_source_scan_job_id r" for s'
    using row_of_member [OF assms(2) that(1)] that(2) newer by simp
  moreover from job have "\<exists>j \<in> set (scan_jobs db). sj_id j = job \<and> sj_workspace_id j = ?w \<and>
      sj_asset_id j = ?a \<and> sj_status j = Succeeded"
    by (auto simp: verification_job_def first_where_def find_NoneD)
  moreover have "\<not> (\<exists>x \<in> set (occurrences db). oc_job_id x = job \<and> oc_fingerprint x = mi_observation_fingerprint r)"
    using assms(3) by (simp add: first_where_def find_NoneD)
  ultimately show "clean_rescan db r job"
    using last s(2) unfolding clean_rescan_def by blast
qed

lemma verified_item_ok:
  "fixed_of (verified_item job now snapshot occ r) = fixed_of r"
  "mi_status r = ReadyForVerification \<Longrightarrow> item_ok r \<Longrightarrow> item_ok (verified_item job now snapshot occ r)"
  by (auto simp: verified_item_def fixed_of_def item_ok_def reason_ok_def evidence_ok_def split: option.splits)

definition items_ok :: "'x migration_db_scheme \<Rightarrow> bool" where
  "items_ok db =
     (keyed mi_id (migration_items db) \<and> keyed exposure (migration_items db) \<and>
      list_all item_ok (migration_items db) \<and> keyed ss_job_id (scan_snapshots db))"

text \<open>Calls of the repository, one at a time, and whatever else leaves the items alone.\<close>

inductive migration_call :: "'x migration_db_scheme \<Rightarrow> 'x migration_db_scheme \<Rightarrow> bool" where
  create: "migration_call db (snd (create_from_finding id ident w f author owner priority target due memo now db))"
| update: "migration_call db (snd (update_item id w i changes now db))"
| verify: "migration_call db (snd (verify_item id w i job now db))"
| other: "migration_items db' = migration_items db \<Longrightarrow> keyed ss_job_id (scan_snapshots db') \<Longrightarrow> migration_call db db'"

text \<open>What a call does to the table: nothing, a new item, or one row replaced.\<close>

definition replaces :: "migration_item \<Rightarrow> migration_item \<Rightarrow> 'x migration_db_scheme \<Rightarrow> 'x migration_db_scheme \<Rightarrow> bool" where
  "replaces r r' db db' =
     (row_of mi_id (migration_items db) (mi_id r) = Some r \<and> fixed_of r' = fixed_of r \<and>
      db' = db\<lparr>migration_items := update_where (\<lambda>x. mi_id x = mi_id r) (\<lambda>_. r') (migration_items db)\<rparr>)"

lemma update_effect:
  assumes "keyed mi_id (migration_items db)"
  shows "snd (update_item id w i changes now db) = db \<or>
    (\<exists>r r'. replaces r r' db (snd (update_item id w i changes now db)) \<and> (item_ok r \<longrightarrow> item_ok r') \<and>
       (mi_status r' = mi_status r \<or> mi_status r' \<in> set (allowed_remediation (mi_status r)) \<and> mi_status r' \<noteq> Verified))"
proof (cases "find_item w i db")
  case (Some r)
  note r = find_item_Some [OF Some assms]
  show ?thesis
  proof (cases "apply_changes changes now r")
    case (Inr r')
    note ok = apply_changes_ok [OF Inr]
    have "commit_item id r r' db =
      (item_of r', db\<lparr>migration_items := update_where (\<lambda>x. mi_id x = mi_id r) (\<lambda>_. r') (migration_items db)\<rparr>)"
      using r by (intro commit_alone [OF assms _ ok(1)]) simp
    then have "snd (update_item id w i changes now db) = db \<or> replaces r r' db (snd (update_item id w i changes now db))"
      using Some Inr r ok(1) by (simp add: update_item_def replaces_def Let_def)
    with ok show ?thesis by blast
  qed (simp add: update_item_def Some Let_def)
qed (simp add: update_item_def Let_def)

lemma verify_effect:
  assumes "keyed mi_id (migration_items db)" "keyed ss_job_id (scan_snapshots db)"
  shows "snd (verify_item id w i job now db) = db \<or>
    (\<exists>r r'. replaces r r' db (snd (verify_item id w i job now db)) \<and> (item_ok r \<longrightarrow> item_ok r') \<and>
       mi_status r = ReadyForVerification \<and> mi_verification_job_id r' = Some job \<and>
       (mi_status r' = InProgress \<or> mi_status r' = Verified \<and> clean_rescan db r job))"
proof (cases "find_item w i db")
  case (Some r)
  note r = find_item_Some [OF Some assms(1)]
  let ?occ = "first_where (\<lambda>x. oc_job_id x = job \<and> oc_fingerprint x = mi_observation_fingerprint r) (occurrences db)"
  show ?thesis
  proof (cases "verification_snapshot w r job db")
    case (Inr snapshot)
    let ?r' = "verified_item job now snapshot ?occ r"
    have ready: "mi_status r = ReadyForVerification"
      using Inr by (simp add: verification_snapshot_def split: if_splits)
    have "commit_item id r ?r' db =
      (item_of ?r', db\<lparr>migration_items := update_where (\<lambda>x. mi_id x = mi_id r) (\<lambda>_. ?r') (migration_items db)\<rparr>)"
      using r by (intro commit_alone [OF assms(1) _ verified_item_ok(1)]) simp
    then have rep: "replaces r ?r' db (snd (verify_item id w i job now db))"
      using Some Inr r verified_item_ok(1) by (simp add: verify_item_def replaces_def Let_def)
    have "clean_rescan db r job" if "?occ = None"
      using verification_clean [OF Inr [folded r(3)] assms(2) that] by simp
    then have "mi_status ?r' = InProgress \<or> mi_status ?r' = Verified \<and> clean_rescan db r job"
      by (simp add: verified_item_def)
    moreover have "mi_verification_job_id ?r' = Some job" by (simp add: verified_item_def)
    ultimately show ?thesis using rep ready verified_item_ok(2) [OF ready] by blast
  qed (simp add: verify_item_def Some)
qed (simp add: verify_item_def)

lemma create_effect:
  "snd (create_from_finding id ident w f author owner priority target due memo now db) = db \<or>
   (\<exists>r. snd (create_from_finding id ident w f author owner priority target due memo now db) =
          db\<lparr>migration_items := migration_items db @ [r]\<rparr> \<and>
        (\<forall>x \<in> set (migration_items db). \<not> item_conflict x r) \<and> item_ok r \<and> mi_status r = Open)"
proof (cases "scoped_finding w f db")
  case (Some fs)
  obtain fr scope where fs: "fs = (fr, scope)" by (cases fs)
  show ?thesis
  proof (cases "latest_occurrence w (fs_managed_asset_id scope) f db")
    case occ: (Some occ)
    let ?r = "new_item ident w f author owner priority target due memo now (fr_payload fr) scope occ"
    have "item_ok ?r \<and> mi_status ?r = Open"
      by (simp add: new_item_def Let_def item_ok_def reason_ok_def)
    moreover have "create_from_finding id ident w f author owner priority target due memo now db =
        (if strip author = [] then (Inl (ValueError ''created_by is required''), db)
         else case insert_row item_conflict ?r (migration_items db) of
           None \<Rightarrow> (Inl (ValueError ''migration work already exists for this cryptographic exposure''), db)
         | Some t \<Rightarrow> (item_of ?r, db\<lparr>migration_items := t\<rparr>))"
      by (simp add: create_from_finding_def Some fs occ Let_def)
    ultimately show ?thesis
    proof (cases "insert_row item_conflict ?r (migration_items db)")
      case (Some t)
      moreover from Some have "t = migration_items db @ [?r]" "\<forall>x \<in> set (migration_items db). \<not> item_conflict x ?r"
        by (simp_all add: insert_row_Some)
      ultimately show ?thesis
        using \<open>item_ok ?r \<and> mi_status ?r = Open\<close>
          \<open>create_from_finding id ident w f author owner priority target due memo now db = _\<close> by auto
    qed auto
  qed (simp add: create_from_finding_def Some fs)
qed (simp add: create_from_finding_def)

lemma keyed_new_item:
  assumes "keyed mi_id t" "keyed exposure t" "\<forall>x \<in> set t. \<not> item_conflict x r"
  shows "keyed mi_id (t @ [r])" "keyed exposure (t @ [r])"
  using assms by (auto simp: keyed_append row_of_None item_conflict_def exposure_def)

lemma replaces_ok:
  assumes "replaces r r' db db'" "items_ok db" "item_ok r \<longrightarrow> item_ok r'"
  shows "items_ok db'"
proof -
  let ?P = "\<lambda>x. mi_id x = mi_id r"
  from assms(1) have r: "row_of mi_id (migration_items db) (mi_id r) = Some r" and f: "fixed_of r' = fixed_of r"
    and db': "db' = db\<lparr>migration_items := update_where ?P (\<lambda>_. r') (migration_items db)\<rparr>"
    by (simp_all add: replaces_def)
  have only: "x = r" if "x \<in> set (migration_items db)" "mi_id x = mi_id r" for x
    using row_of_member [of mi_id _ x] that r assms(2) by (auto simp: items_ok_def)
  have keep: "map k (update_where ?P (\<lambda>_. r') (migration_items db)) = map k (migration_items db)"
    if "k r' = k r" for k :: "migration_item \<Rightarrow> 'k"
    using only that by (auto simp: update_where_def)
  have "item_ok r" using row_of_SomeD [OF r] assms(2) by (auto simp: items_ok_def list_all_iff)
  with assms(2,3) keep [of mi_id] keep [of exposure] fixed_fields [OF f] show ?thesis
    by (auto simp: items_ok_def db' keyed_def list_all_iff set_update_where)
qed

lemma migration_call_ok:
  assumes "migration_call db db'" "items_ok db"
  shows "items_ok db'"
  using assms(1)
proof cases
  case (create ident w f author owner priority target due memo now)
  have t: "keyed mi_id (migration_items db)" "keyed exposure (migration_items db)"
    using assms(2) by (simp_all add: items_ok_def)
  from create_effect [of ident w f author owner priority target due memo now db] show ?thesis
  proof
    assume "\<exists>r. snd (create_from_finding id ident w f author owner priority target due memo now db) =
          db\<lparr>migration_items := migration_items db @ [r]\<rparr> \<and>
        (\<forall>x \<in> set (migration_items db). \<not> item_conflict x r) \<and> item_ok r \<and> mi_status r = Open"
    then obtain r where r: "db' = db\<lparr>migration_items := migration_items db @ [r]\<rparr>"
      "\<forall>x \<in> set (migration_items db). \<not> item_conflict x r" "item_ok r"
      using create by auto
    with keyed_new_item [OF t r(2)] assms(2) show ?thesis by (simp add: items_ok_def)
  qed (simp add: create assms(2))
next
  case (update w i changes now)
  have "keyed mi_id (migration_items db)" using assms(2) by (simp add: items_ok_def)
  from update_effect [OF this, of w i changes now, folded update] show ?thesis
    using replaces_ok assms(2) by blast
next
  case (verify w i job now)
  have "keyed mi_id (migration_items db)" "keyed ss_job_id (scan_snapshots db)"
    using assms(2) by (simp_all add: items_ok_def)
  from verify_effect [OF this, of w i job now, folded verify] show ?thesis
    using replaces_ok assms(2) by blast
next
  case other
  with assms(2) show ?thesis by (simp add: items_ok_def)
qed

interpretation items: step_system migration_call items_ok
  by unfold_locales (rule migration_call_ok)

lemma row_of_replaced:
  assumes "key q = k"
  shows "row_of key (update_where (\<lambda>x. key x = k) (\<lambda>_. q) t) i =
    (if i = k then map_option (\<lambda>_. q) (row_of key t k) else row_of key t i)"
  using assms by (induction t) (auto simp: row_of_Cons update_where_def)

text \<open>How a call moves one item: not at all, along the table, or to \<open>Verified\<close> by a clean rescan.\<close>

lemma call_moves_item:
  assumes "migration_call db db'" "items_ok db" "row_of mi_id (migration_items db) i = Some r"
  obtains r' where "row_of mi_id (migration_items db') i = Some r'" "fixed_of r' = fixed_of r"
    "mi_status r' = mi_status r \<or> mi_status r' \<in> set (allowed_remediation (mi_status r)) \<and> mi_status r' \<noteq> Verified \<or>
     mi_status r = ReadyForVerification \<and> mi_status r' = Verified \<and>
       (\<exists>job. clean_rescan db r job \<and> mi_verification_job_id r' = Some job)"
proof -
  let ?moved = "\<lambda>r r'. mi_status r' = mi_status r \<or>
     mi_status r' \<in> set (allowed_remediation (mi_status r)) \<and> mi_status r' \<noteq> Verified \<or>
     mi_status r = ReadyForVerification \<and> mi_status r' = Verified \<and>
       (\<exists>job. clean_rescan db r job \<and> mi_verification_job_id r' = Some job)"
  note found = that
  have keys: "keyed mi_id (migration_items db)" "keyed ss_job_id (scan_snapshots db)"
    using assms(2) by (simp_all add: items_ok_def)
  have one: thesis if f: "\<exists>q q'. replaces q q' db db' \<and> ?moved q q'"
  proof -
    from f obtain q q' where q: "replaces q q' db db'" "?moved q q'" by blast
    then have f: "fixed_of q' = fixed_of q" by (simp add: replaces_def)
    from q(1) have row: "row_of mi_id (migration_items db) (mi_id q) = Some q"
      "migration_items db' = update_where (\<lambda>x. mi_id x = mi_id q) (\<lambda>_. q') (migration_items db)"
      by (simp_all add: replaces_def)
    have new: "row_of mi_id (migration_items db') i = Some (if i = mi_id q then q' else r)"
      using row_of_replaced [where key = mi_id, OF fixed_fields(1) [OF f], of "migration_items db" i] row assms(3) by simp
    show thesis
    proof (cases "i = mi_id q")
      case True
      with row(1) assms(3) have "q = r" by simp
      with new True q(2) f show thesis by (intro found [of q']) auto
    next
      case False
      with new show thesis by (intro found [of r]) auto
    qed
  qed
  have same: thesis if "row_of mi_id (migration_items db') i = Some r"
    using that by (intro found [of r]) auto
  from assms(1) show thesis
  proof cases
    case (create ident w f author owner priority target due memo now)
    from create_effect [of ident w f author owner priority target due memo now db, folded create] show thesis
      using assms(3) by (elim disjE exE) (auto intro!: same simp: row_of_append)
  next
    case (update w j changes now)
    from update_effect [OF keys(1), of w j changes now, folded update] show thesis
      using assms(3) same one by auto
  next
    case (verify w j job now)
    from verify_effect [OF keys, of w j job now, folded verify] show thesis
    proof
      assume "\<exists>r r'. replaces r r' db db' \<and> (item_ok r \<longrightarrow> item_ok r') \<and> mi_status r = ReadyForVerification \<and>
          mi_verification_job_id r' = Some job \<and>
          (mi_status r' = InProgress \<or> mi_status r' = Verified \<and> clean_rescan db r job)"
      then show thesis by (intro one) force
    qed (use assms(3) same in simp)
  next
    case other
    with assms(3) same show thesis by simp
  qed
qed

lemma items_persist:
  assumes "migration_call\<^sup>*\<^sup>* db db'" "items_ok db" "row_of mi_id (migration_items db) i = Some r"
  shows "\<exists>r'. row_of mi_id (migration_items db') i = Some r' \<and> fixed_of r' = fixed_of r"
  using assms(1)
proof (induction rule: rtranclp_induct)
  case (step c d)
  then obtain q where q: "row_of mi_id (migration_items c) i = Some q" "fixed_of q = fixed_of r" by blast
  have "items_ok c" by (rule items.steps_inv [OF step.hyps(1) assms(2)])
  with step.hyps(2) obtain q' where "row_of mi_id (migration_items d) i = Some q'" "fixed_of q' = fixed_of q"
    using q(1) by (rule call_moves_item)
  with q(2) show ?case by auto
qed (use assms(3) in blast)

section \<open>Properties\<close>

lemma item_ok_facts:
  assumes "item_ok r"
  shows "(mi_verified_at r \<noteq> None \<longleftrightarrow> mi_status r = Verified) \<and>
    (mi_acceptance_reason r \<noteq> None \<longleftrightarrow> mi_status r = AcceptedRisk) \<and>
    (\<forall>s. mi_acceptance_reason r = Some s \<longrightarrow> 5 \<le> length s \<and> strip s = s) \<and>
    (mi_status r = Verified \<longrightarrow>
       (\<exists>v. mi_verification_evidence r = Some v \<and> ve_outcome v = ''resolved'' \<and> ve_occurrence v = None \<and>
          mi_verification_job_id r = Some (ve_verification_job_id v)))"
  using assms
  by (cases "mi_acceptance_reason r"; cases "mi_verification_evidence r")
     (simp_all add: item_ok_def reason_ok_def evidence_ok_def)

definition ready_item :: migration_item where
  "ready_item = \<lparr>mi_id = ''m'', mi_workspace_id = ''w'', mi_asset_id = ''a'',
     mi_observation_fingerprint = replicate 64 CHR ''f'', mi_source_finding_id = ''f'',
     mi_source_scan_job_id = ''j0'', mi_title = ''Migrate RSA'', mi_owner = None, mi_status = ReadyForVerification,
     mi_priority = PrHigh, mi_target_algorithm = None, mi_due_date = None, mi_notes = None,
     mi_acceptance_reason = None, mi_verification_job_id = None, mi_verified_at = None,
     mi_verification_evidence = None, mi_source_finding = sample_finding, mi_created_by = ''u'',
     mi_created_at = 0, mi_updated_at = 0\<rparr>"

definition rescan_job :: scan_job where
  "rescan_job = \<lparr>sj_id = ''j1'', sj_workspace_id = ''w'', sj_asset_id = ''a'', sj_kind = ScTls,
     sj_status = Succeeded, sj_requested_at = 6, sj_started_at = Some 7, sj_finished_at = Some 9,
     sj_findings_count = 0, sj_error_message = None\<rparr>"

definition rescanned_db :: migration_db where
  "rescanned_db = (continuous_db.extend empty_continuous_db (migration_db.fields [ready_item]))
     \<lparr>scan_jobs := [rescan_job],
      scan_snapshots := [sample_snapshot, sample_snapshot\<lparr>ss_job_id := ''j1'', ss_completed_at := 9\<rparr>]\<rparr>"

lemma rescanned_db_simps [simp]: "migration_items rescanned_db = [ready_item]"
    "scan_snapshots rescanned_db = [sample_snapshot, sample_snapshot\<lparr>ss_job_id := ''j1'', ss_completed_at := 9\<rparr>]"
    "scan_jobs rescanned_db = [rescan_job]" "occurrences rescanned_db = []"
  by (simp_all add: rescanned_db_def empty_continuous_db_def empty_findings_db_def continuous_db.defs
      findings_db.defs migration_db.defs)

lemma rescanned_db_ok: "items_ok rescanned_db"
  by (simp add: items_ok_def keyed_def ready_item_def item_ok_def reason_ok_def sample_snapshot_def)

definition verified_db :: migration_db where
  "verified_db = snd (verify_item id ''w'' ''m'' ''j1'' 20 rescanned_db)"

lemma verified_db_call: "migration_call\<^sup>*\<^sup>* rescanned_db verified_db"
  unfolding verified_db_def by (rule r_into_rtranclp) (rule migration_call.verify)

lemma verified_db_items: "map mi_status (migration_items verified_db) = [Verified]"
  by code_simp

text \<open>
  C18. However items are created, updated and verified, one call at a time, the table stays
  consistent: there is one item per exposure (workspace, asset, fingerprint) and per id, the
  verification time is set exactly for verified items, an accepted risk carries a stripped reason
  of at least five characters and no other item carries one, and a verified item points to the
  scan whose stored evidence says that the observation was resolved.
\<close>

theorem migration_items_stay_consistent:
  assumes "migration_call\<^sup>*\<^sup>* db db'" "items_ok db"
  shows "keyed mi_id (migration_items db') \<and> keyed exposure (migration_items db') \<and>
    (\<forall>r \<in> set (migration_items db').
       (mi_verified_at r \<noteq> None \<longleftrightarrow> mi_status r = Verified) \<and>
       (mi_acceptance_reason r \<noteq> None \<longleftrightarrow> mi_status r = AcceptedRisk) \<and>
       (\<forall>s. mi_acceptance_reason r = Some s \<longrightarrow> 5 \<le> length s \<and> strip s = s) \<and>
       (mi_status r = Verified \<longrightarrow>
          (\<exists>v. mi_verification_evidence r = Some v \<and> ve_outcome v = ''resolved'' \<and> ve_occurrence v = None \<and>
             mi_verification_job_id r = Some (ve_verification_job_id v))))"
  using items.steps_inv [OF assms] item_ok_facts unfolding items_ok_def list_all_iff by blast

theorem migration_items_stay_consistent_witness:
  "map mi_status (migration_items verified_db) = [Verified] \<and>
   list_all (\<lambda>r. mi_verified_at r \<noteq> None) (migration_items verified_db)"
proof -
  note ok = migration_items_stay_consistent [OF verified_db_call rescanned_db_ok]
  have "mi_status r = Verified" if "r \<in> set (migration_items verified_db)" for r
    using verified_db_items that by (cases "migration_items verified_db") auto
  with ok verified_db_items show ?thesis by (auto simp: list_all_iff)
qed

text \<open>
  C17. An item becomes verified only through a clean rescan. If an item that was not verified is
  verified later, then at some point in between it was ready for verification and a call of
  \<open>verify\<close> moved it on the strength of a scan that succeeded on the item's asset, whose snapshot is
  the latest of the asset and newer than the one of the source finding, and that did not see the
  item's observation. No update, whatever its fields, and no other operation does that.
\<close>

theorem verified_needs_clean_rescan:
  assumes "migration_call\<^sup>*\<^sup>* db db'" "items_ok db"
    and "row_of mi_id (migration_items db) i = Some r" "mi_status r \<noteq> Verified"
    and "row_of mi_id (migration_items db') i = Some r'" "mi_status r' = Verified"
  shows "\<exists>a b q q' job. migration_call\<^sup>*\<^sup>* db a \<and> migration_call a b \<and> migration_call\<^sup>*\<^sup>* b db' \<and>
    row_of mi_id (migration_items a) i = Some q \<and> mi_status q = ReadyForVerification \<and>
    exposure q = exposure r \<and> mi_source_scan_job_id q = mi_source_scan_job_id r \<and> clean_rescan a q job \<and>
    row_of mi_id (migration_items b) i = Some q' \<and> mi_verification_job_id q' = Some job"
  using assms(1,5,6)
proof (induction arbitrary: r' rule: rtranclp_induct)
  case base
  then show ?case using assms(3,4) by simp
next
  case (step c d)
  have ok: "items_ok c" by (rule items.steps_inv [OF step.hyps(1) assms(2)])
  obtain q where q: "row_of mi_id (migration_items c) i = Some q" "fixed_of q = fixed_of r"
    using items_persist [OF step.hyps(1) assms(2,3)] by blast
  from step.hyps(2) ok q(1) obtain q' where q': "row_of mi_id (migration_items d) i = Some q'"
    "mi_status q' = mi_status q \<or> mi_status q' \<in> set (allowed_remediation (mi_status q)) \<and> mi_status q' \<noteq> Verified \<or>
     mi_status q = ReadyForVerification \<and> mi_status q' = Verified \<and>
       (\<exists>job. clean_rescan c q job \<and> mi_verification_job_id q' = Some job)"
    by (rule call_moves_item)
  have v: "mi_status q' = Verified" using q'(1) step.prems by simp
  show ?case
  proof (cases "mi_status q = Verified")
    case True
    from step.IH [OF q(1) True] step.hyps(2) show ?thesis
      by (meson rtranclp.rtrancl_into_rtrancl)
  next
    case False
    with q'(2) v obtain job where "clean_rescan c q job" "mi_verification_job_id q' = Some job"
      "mi_status q = ReadyForVerification" by auto
    with step.hyps q q'(1) fixed_fields [OF q(2)] show ?thesis by blast
  qed
qed

theorem verified_needs_clean_rescan_witness:
  "\<exists>a q job. row_of mi_id (migration_items (a :: migration_db)) ''m'' = Some q \<and>
     mi_status q = ReadyForVerification \<and> exposure q = exposure ready_item \<and> clean_rescan a q job"
proof -
  obtain r' where r': "migration_items verified_db = [r']" "mi_status r' = Verified"
    using verified_db_items by (cases "migration_items verified_db") auto
  obtain q where q: "row_of mi_id (migration_items verified_db) ''m'' = Some q"
    using items_persist [OF verified_db_call rescanned_db_ok, of "''m''" ready_item]
    by (auto simp: row_of_Cons ready_item_def)
  with r' have "mi_status q = Verified" by (auto simp: row_of_Cons split: if_splits)
  with verified_needs_clean_rescan [OF verified_db_call rescanned_db_ok, of "''m''" ready_item q] q
  show ?thesis by (auto simp: row_of_Cons ready_item_def)
qed

text \<open>
  The verdict of a verification is right about the scan it names: for a job recorded by the
  continuous-scanning store, whatever happened since to the rest of the database, the item is
  verified iff the fingerprint of its observation is not among those of the findings that the scan
  reported.
\<close>

theorem verification_matches_recorded_scan:
  assumes "row_of ss_job_id (scan_snapshots db) job = None"
    and "\<forall>x \<in> set (occurrences db). oc_job_id x \<noteq> job"
    and "record_successful_scan h uuid w a job fs now sv pv db = (Inr events, db1)"
    and "filter (\<lambda>x. oc_job_id x = job) (occurrences db2) = filter (\<lambda>x. oc_job_id x = job) (occurrences db1)"
    and "items_ok db2" "verify_item id v i job later db2 = (Inr res, db3)"
  shows "rv_verified res \<longleftrightarrow> mi_observation_fingerprint (rv_item res) \<notin> observation_fingerprint h ` set fs"
proof -
  have keys: "keyed mi_id (migration_items db2)" using assms(5) by (simp add: items_ok_def)
  from assms(6) obtain r where r: "find_item v i db2 = Some r" by (cases "find_item v i db2") (auto simp: verify_item_def)
  note row = find_item_Some [OF r keys]
  from assms(6) obtain snapshot where s: "verification_snapshot v r job db2 = Inr snapshot"
    by (cases "verification_snapshot v r job db2") (auto simp: verify_item_def r)
  define occ where "occ = first_where (\<lambda>x. oc_job_id x = job \<and> oc_fingerprint x = mi_observation_fingerprint r) (occurrences db2)"
  have c: "commit_item id r (verified_item job later snapshot occ r) db2 =
      (item_of (verified_item job later snapshot occ r), db2\<lparr>migration_items :=
         update_where (\<lambda>x. mi_id x = mi_id r) (\<lambda>_. verified_item job later snapshot occ r) (migration_items db2)\<rparr>)"
    using row by (intro commit_alone [OF keys _ verified_item_ok(1)]) simp
  have "rv_verified res = (occ = None)" "rv_item res = verified_item job later snapshot occ r"
    using assms(6) by (auto simp: verify_item_def r s occ_def [symmetric] c item_of_def Let_def split: if_splits)
  moreover from this(2) have "mi_observation_fingerprint (rv_item res) = mi_observation_fingerprint r"
    by (simp add: verified_item_def)
  moreover have "occ = None \<longleftrightarrow> mi_observation_fingerprint r \<notin>
      oc_fingerprint ` set (filter (\<lambda>x. oc_job_id x = job) (occurrences db2))"
    by (auto simp: occ_def first_where_def find_NoneD image_iff)
  moreover have "oc_fingerprint ` set (filter (\<lambda>x. oc_job_id x = job) (occurrences db2)) = observation_fingerprint h ` set fs"
    unfolding assms(4) by (rule recorded_occurrences [OF assms(1,2,3)])
  ultimately show ?thesis by simp
qed

definition padded_hashing :: hashing where
  "padded_hashing = plain_hashing\<lparr>sha256 := (\<lambda>s. take 64 (s @ replicate 64 CHR ''0''))\<rparr>"

definition clean_recording :: "(drift_event list, continuous_db) outcome" where
  "clean_recording = record_successful_scan padded_hashing (\<lambda>i. replicate i CHR ''e'') ''w'' ''a'' ''j1''
     [other_finding] 9 ''1'' ''1'' empty_continuous_db"

definition cleaned_db :: migration_db where
  "cleaned_db = (continuous_db.extend (snd clean_recording)
     (migration_db.fields [ready_item\<lparr>mi_observation_fingerprint := observation_fingerprint padded_hashing sample_finding\<rparr>]))
     \<lparr>scan_jobs := [rescan_job]\<rparr>"

lemma clean_recording_runs: "is_ok (fst clean_recording)" "occurrences cleaned_db = occurrences (snd clean_recording)"
    "list_all item_ok (migration_items cleaned_db) \<and> map ss_job_id (scan_snapshots cleaned_db) = [''j1'']"
    "is_ok (fst (verify_item id ''w'' ''m'' ''j1'' 20 cleaned_db))"
    "mi_observation_fingerprint (rv_item (projr (fst (verify_item id ''w'' ''m'' ''j1'' 20 cleaned_db)))) \<noteq>
       observation_fingerprint padded_hashing other_finding"
  by code_simp+

lemma is_ok_projr: "is_ok (fst p) \<Longrightarrow> p = (Inr (projr (fst p)), snd p)"
  by (cases "fst p") (auto simp: prod_eq_iff)

theorem verification_matches_recorded_scan_witness:
  "rv_verified (projr (fst (verify_item id ''w'' ''m'' ''j1'' 20 cleaned_db)))"
proof -
  have ok: "items_ok cleaned_db"
    using clean_recording_runs(3)
    by (simp add: items_ok_def keyed_def cleaned_db_def continuous_db.defs migration_db.defs)
  have fresh: "row_of ss_job_id (scan_snapshots empty_continuous_db) ''j1'' = None"
    "\<forall>x \<in> set (occurrences empty_continuous_db). oc_job_id x \<noteq> ''j1''" by simp_all
  have "rv_verified (projr (fst (verify_item id ''w'' ''m'' ''j1'' 20 cleaned_db))) \<longleftrightarrow>
      mi_observation_fingerprint (rv_item (projr (fst (verify_item id ''w'' ''m'' ''j1'' 20 cleaned_db)))) \<notin>
      observation_fingerprint padded_hashing ` set [other_finding]"
    by (rule verification_matches_recorded_scan [OF fresh is_ok_projr [OF clean_recording_runs(1), unfolded clean_recording_def]
          _ ok is_ok_projr [OF clean_recording_runs(4)]])
       (simp add: clean_recording_runs(2) clean_recording_def)
  with clean_recording_runs(5) show ?thesis by simp
qed

text \<open>
  An instance of a race: updates are not guarded against a concurrent verification. While the update
  that moves a ready item back to work is between its read and its commit, a verification commits; the
  update then writes the status but not the verification time, whose value did not change from what it
  read. The item ends in progress with a verification time and an evidence that says resolved, which
  the invariant of calls that run one at a time excludes.
\<close>

lemma update_verify_race_breaks_item:
  "let (res, db) = update_item (\<lambda>db. snd (verify_item id ''w'' ''m'' ''j1'' 20 db)) ''w'' ''m''
         [(''status'', PText ''in-progress'')] 21 rescanned_db
   in is_ok res \<and> map mi_status (migration_items db) = [InProgress] \<and>
      map mi_verified_at (migration_items db) = [Some 20] \<and>
      map (map_option ve_outcome \<circ> mi_verification_evidence) (migration_items db) = [Some ''resolved'']"
  by code_simp

end
