(* ===== verification/Passwords.thy ===== *)
theory Passwords
  imports Prelude
begin

text \<open>
  Password hashes (\<^verbatim>\<open>security/passwords.py\<close>). The encoded form is a text of six fields; the salt and
  the digest are URL-safe Base64. The scrypt function and the random salt are parameters, the
  standard library's Base64, \<open>str.split\<close> and \<open>int\<close> on ASCII text are modelled. Bytes are natural
  numbers below 256. The property is the round trip of hashing and verifying.
\<close>

type_synonym bytes = "nat list"
type_synonym scrypt = "string \<Rightarrow> bytes \<Rightarrow> int \<Rightarrow> int \<Rightarrow> int \<Rightarrow> nat \<Rightarrow> bytes result"

section \<open>URL-safe Base64\<close>

definition b64_alphabet :: string where
  "b64_alphabet = ''ABCDEFGHIJKLMNOPQRSTUVWXYZabcdefghijklmnopqrstuvwxyz0123456789-_''"

definition b64_char :: "nat \<Rightarrow> char" where
  "b64_char n = b64_alphabet ! (n mod 64)"

fun urlsafe_b64encode :: "bytes \<Rightarrow> string" where
  "urlsafe_b64encode [] = []"
| "urlsafe_b64encode [a] = [b64_char (a div 4), b64_char (a mod 4 * 16), CHR ''='', CHR ''='']"
| "urlsafe_b64encode [a, b] =
     [b64_char (a div 4), b64_char (a mod 4 * 16 + b div 16), b64_char (b mod 16 * 4), CHR ''='']"
| "urlsafe_b64encode (a # b # c # cs) =
     b64_char (a div 4) # b64_char (a mod 4 * 16 + b div 16) # b64_char (b mod 16 * 4 + c div 64) #
     b64_char (c mod 64) # urlsafe_b64encode cs"

text \<open>The decoder accepts both alphabets: \<open>-\<close> and \<open>_\<close> are translated to \<open>+\<close> and \<open>/\<close> first.\<close>

definition b64_value :: "char \<Rightarrow> nat option" where
  "b64_value c =
     (if is_upper c then Some (code_of c - 65) else if is_lower c then Some (code_of c - 71)
      else if is_digit c then Some (code_of c + 4)
      else if c = CHR ''+'' \<or> c = CHR ''-'' then Some 62
      else if c = CHR ''/'' \<or> c = CHR ''_'' then Some 63 else None)"

text \<open>
  The decoding loop: the position in the quad, the bits left over, the pads seen since the last
  data character, the bytes so far. Other characters are skipped; a pad that completes the quad
  ends the input.
\<close>

fun b64_loop :: "nat \<Rightarrow> nat \<Rightarrow> nat \<Rightarrow> bytes \<Rightarrow> string \<Rightarrow> bytes result" where
  "b64_loop quad left pads out [] =
     (if quad = 0 then Inr out else Inl (ValueError ''Incorrect padding''))"
| "b64_loop quad left pads out (c # cs) =
     (if c = CHR ''='' then
        (if quad \<ge> 2 \<and> quad + (pads + 1) \<ge> 4 then Inr out
         else b64_loop quad left (if quad \<ge> 2 then pads + 1 else pads) out cs)
      else case b64_value c of
             None \<Rightarrow> b64_loop quad left pads out cs
           | Some v \<Rightarrow>
               (if quad = 0 then b64_loop 1 v 0 out cs
                else if quad = 1 then b64_loop 2 (v mod 16) 0 (out @ [left * 4 + v div 16]) cs
                else if quad = 2 then b64_loop 3 (v mod 4) 0 (out @ [left * 16 + v div 4]) cs
                else b64_loop 0 0 0 (out @ [left * 64 + v]) cs))"

definition urlsafe_b64decode :: "string \<Rightarrow> bytes result" where
  "urlsafe_b64decode s =
     (if list_ex (\<lambda>c. code_of c \<ge> 128) s then Inl (ValueError ''ascii'') else b64_loop 0 0 0 [] s)"

section \<open>Splitting and integers\<close>

text \<open>\<open>s.split(sep, maxsplit)\<close> for a separator of one character.\<close>

fun split_max :: "char \<Rightarrow> nat \<Rightarrow> string \<Rightarrow> string \<Rightarrow> string list" where
  "split_max sep n acc [] = [acc]"
| "split_max sep n acc (c # cs) =
     (if c = sep \<and> n > 0 then acc # split_max sep (n - 1) [] cs else split_max sep n (acc @ [c]) cs)"

text \<open>\<open>int(s)\<close>: surrounding space, a sign, digits with single underscores between them.\<close>

fun int_digits :: "bool \<Rightarrow> int \<Rightarrow> string \<Rightarrow> int option" where
  "int_digits after acc [] = (if after then Some acc else None)"
| "int_digits after acc (c # cs) =
     (if is_digit c then int_digits True (acc * 10 + int (code_of c - 48)) cs
      else if c = CHR ''_'' \<and> after then int_digits False acc cs else None)"

definition int_of_str :: "string \<Rightarrow> int option" where
  "int_of_str s =
     (case strip s of
        [] \<Rightarrow> None
      | c # cs \<Rightarrow>
          if c = CHR ''-'' then map_option uminus (int_digits False 0 cs)
          else if c = CHR ''+'' then int_digits False 0 cs
          else int_digits False 0 (c # cs))"

section \<open>Hashing and verifying\<close>

definition hash_password :: "scrypt \<Rightarrow> bytes \<Rightarrow> string \<Rightarrow> string result" where
  "hash_password scrypt salt password =
     (if length password < 12 then Inl (ValueError ''password must contain at least 12 characters'')
      else bindE (scrypt password salt 16384 8 1 32) (\<lambda>digest.
        Inr (''scrypt$'' @ str_of_int 16384 @ ''$'' @ str_of_int 8 @ ''$'' @ str_of_int 1 @ ''$'' @
             urlsafe_b64encode salt @ ''$'' @ urlsafe_b64encode digest)))"

text \<open>A \<open>ValueError\<close> anywhere in the attempt is a refusal; any other exception is raised.\<close>

definition verify_password :: "scrypt \<Rightarrow> string \<Rightarrow> string \<Rightarrow> bool result" where
  "verify_password scrypt password encoded =
     (case split_max (CHR ''$'') 5 [] encoded of
        [scheme, n, r, p, salt, digest] \<Rightarrow>
          if scheme \<noteq> ''scrypt'' then Inr False
          else (case (urlsafe_b64decode salt, urlsafe_b64decode digest, int_of_str n, int_of_str r, int_of_str p) of
                  (Inr salt, Inr expected, Some n, Some r, Some p) \<Rightarrow>
                    (case scrypt password salt n r p (length expected) of
                       Inr candidate \<Rightarrow> Inr (candidate = expected)
                     | Inl (ValueError _) \<Rightarrow> Inr False
                     | Inl e \<Rightarrow> Inl e)
                | _ \<Rightarrow> Inr False)
      | _ \<Rightarrow> Inr False)"

section \<open>The codec round trip\<close>

lemma b64_char_ok [simp]: "b64_value (b64_char n) = Some (n mod 64)" "b64_char n \<noteq> CHR ''=''"
    "b64_char n \<noteq> CHR ''$''" "code_of (b64_char n) < 128"
proof -
  have "list_all (\<lambda>n. b64_value (b64_char n) = Some n \<and> b64_char n \<noteq> CHR ''='' \<and>
      b64_char n \<noteq> CHR ''$'' \<and> code_of (b64_char n) < 128) [0..<64]"
    by (simp add: upt_rec_numeral upt_conv_Cons b64_char_def b64_alphabet_def b64_value_def is_upper_def
        is_lower_def is_digit_def code_of_def)
  then have "\<forall>n < 64. b64_value (b64_char n) = Some n \<and> b64_char n \<noteq> CHR ''='' \<and>
      b64_char n \<noteq> CHR ''$'' \<and> code_of (b64_char n) < 128"
    by (simp add: list_all_iff)
  moreover have "b64_char n = b64_char (n mod 64)" "n mod 64 < 64" by (simp_all add: b64_char_def)
  ultimately show "b64_value (b64_char n) = Some (n mod 64)" "b64_char n \<noteq> CHR ''=''"
    "b64_char n \<noteq> CHR ''$''" "code_of (b64_char n) < 128" by auto
qed

definition is_bytes :: "bytes \<Rightarrow> bool" where
  "is_bytes bs = list_all (\<lambda>b. b < 256) bs"

lemma b64_loop_data:
  "v < 64 \<Longrightarrow> b64_loop quad left pads out (b64_char v # cs) =
     (if quad = 0 then b64_loop 1 v 0 out cs
      else if quad = 1 then b64_loop 2 (v mod 16) 0 (out @ [left * 4 + v div 16]) cs
      else if quad = 2 then b64_loop 3 (v mod 4) 0 (out @ [left * 16 + v div 4]) cs
      else b64_loop 0 0 0 (out @ [left * 64 + v]) cs)"
  by simp

lemma b64_loop_encode: "is_bytes bs \<Longrightarrow> b64_loop 0 0 0 out (urlsafe_b64encode bs) = Inr (out @ bs)"
proof (induction bs arbitrary: out rule: urlsafe_b64encode.induct)
  case (4 a b c cs)
  have lt: "a < 256" "b < 256" "c < 256" "is_bytes cs" using "4.prems" by (simp_all add: is_bytes_def)
  define v1 v2 v3 v4 where "v1 = a div 4" "v2 = a mod 4 * 16 + b div 16" "v3 = b mod 16 * 4 + c div 64" "v4 = c mod 64"
  note v = v1_v2_v3_v4_def
  have "v1 < 64" "v2 < 64" "v3 < 64" "v4 < 64" "v1 * 4 + v2 div 16 = a"
    "v2 mod 16 * 16 + v3 div 4 = b" "v3 mod 4 * 64 + v4 = c"
    using lt by (simp_all add: v)
  then show ?case
    unfolding urlsafe_b64encode.simps v [symmetric] by (simp add: b64_loop_data "4.IH" [OF lt(4)])
next
  case (2 a)
  then have "a div 4 < 64" "a mod 4 * 16 < 64" by (simp_all add: is_bytes_def)
  then show ?case unfolding urlsafe_b64encode.simps by (simp add: b64_loop_data)
next
  case (3 a b)
  then have lt: "a < 256" "b < 256" by (simp_all add: is_bytes_def)
  define v1 v2 v3 where "v1 = a div 4" "v2 = a mod 4 * 16 + b div 16" "v3 = b mod 16 * 4"
  note v = v1_v2_v3_def
  have "v1 < 64" "v2 < 64" "v3 < 64" "v1 * 4 + v2 div 16 = a" "v2 mod 16 * 16 + v3 div 4 = b"
    using lt by (simp_all add: v)
  then show ?case unfolding urlsafe_b64encode.simps v [symmetric] by (simp add: b64_loop_data)
qed simp

lemma b64_chars: "c \<in> set (urlsafe_b64encode bs) \<Longrightarrow> c \<noteq> CHR ''$'' \<and> code_of c < 128"
  by (induction bs rule: urlsafe_b64encode.induct) (auto simp: code_of_def [of "CHR ''=''"])

lemma b64_round_trip: "is_bytes bs \<Longrightarrow> urlsafe_b64decode (urlsafe_b64encode bs) = Inr bs"
  using b64_chars [of _ bs] b64_loop_encode [of bs "[]"]
  by (fastforce simp: urlsafe_b64decode_def list_ex_iff)

lemma split_max_sep:
  "sep \<notin> set xs \<Longrightarrow> split_max sep (Suc n) acc (xs @ sep # ys) = (acc @ xs) # split_max sep n [] ys"
  by (induction xs arbitrary: acc) auto

lemma split_max_last: "sep \<notin> set xs \<Longrightarrow> split_max sep n acc xs = [acc @ xs]"
  by (induction xs arbitrary: acc) auto

lemma parameter_texts: "str_of_int 16384 = ''16384''" "str_of_int 8 = ''8''" "str_of_int 1 = ''1''"
    "int_of_str ''16384'' = Some 16384" "int_of_str ''8'' = Some 8" "int_of_str ''1'' = Some 1"
  subgoal by (simp add: str_of_int_def str_of_nat.simps [of 16384] str_of_nat.simps [of 1638]
        str_of_nat.simps [of 163] str_of_nat.simps [of 16] str_of_nat.simps [of "Suc 0"] char_of_def bit_0)
  subgoal by (simp add: str_of_int_def str_of_nat.simps [of 8] char_of_def bit_0)
  subgoal by (simp add: str_of_int_def str_of_nat.simps [of "Suc 0"] char_of_def bit_0)
  by (simp_all add: int_of_str_def strip_def strip_by_def is_space_def is_digit_def code_of_def)

lemma encoded_fields:
  assumes "is_bytes salt" "is_bytes digest"
  shows "split_max (CHR ''$'') 5 [] (''scrypt$'' @ ''16384'' @ ''$'' @ ''8'' @ ''$'' @ ''1'' @ ''$'' @
      urlsafe_b64encode salt @ ''$'' @ urlsafe_b64encode digest) =
    [''scrypt'', ''16384'', ''8'', ''1'', urlsafe_b64encode salt, urlsafe_b64encode digest]"
proof -
  have sep: "CHR ''$'' \<notin> set (urlsafe_b64encode bs)" for bs
    using b64_chars [of "CHR ''$''" bs] by blast
  have five: "(5::nat) = Suc (Suc (Suc (Suc (Suc 0))))" by simp
  show ?thesis
    using split_max_sep [OF sep [of salt], of 0 "[]" "urlsafe_b64encode digest"]
      split_max_last [OF sep [of digest], of 0 "[]"]
    by (simp add: five)
qed

lemma urlsafe_b64encode_length: "length (urlsafe_b64encode bs) = (length bs + 2) div 3 * 4"
proof (induction bs rule: urlsafe_b64encode.induct)
  case (4 a b c cs)
  have "(length (a # b # c # cs) + 2) div 3 = (length cs + 2) div 3 + 1" by simp
  with 4 show ?case by simp
qed simp_all

lemma hashed_password:
  assumes "scrypt pw salt 16384 8 1 32 = Inr digest" "length digest = 32" "is_bytes digest"
    and "length salt = 16" "is_bytes salt" "12 \<le> length pw"
  obtains encoded where "hash_password scrypt salt pw = Inr encoded" "length encoded = 86"
    "\<And>q d. scrypt q salt 16384 8 1 32 = Inr d \<Longrightarrow> verify_password scrypt q encoded = Inr (d = digest)"
proof
  let ?encoded = "''scrypt$'' @ ''16384'' @ ''$'' @ ''8'' @ ''$'' @ ''1'' @ ''$'' @
    urlsafe_b64encode salt @ ''$'' @ urlsafe_b64encode digest"
  show "hash_password scrypt salt pw = Inr ?encoded"
    using assms(1,6) by (simp add: hash_password_def parameter_texts)
  show "length ?encoded = 86"
    using assms(2,4) by (simp add: urlsafe_b64encode_length)
  show "verify_password scrypt q ?encoded = Inr (d = digest)" if "scrypt q salt 16384 8 1 32 = Inr d" for q d
    using that assms(2)
    unfolding verify_password_def encoded_fields [OF assms(5,3)]
    by (simp add: b64_round_trip [OF assms(3)] b64_round_trip [OF assms(5)] parameter_texts)
qed

text \<open>
  C20. Hashing and verifying agree. For any salt of sixteen bytes, a password of at least twelve
  characters hashes to a text that fits the database column, and verifying a password against that
  text recomputes scrypt with the salt and the costs that were used: it accepts exactly the
  passwords whose digest is the stored one, so the password itself is accepted; shorter passwords
  are refused with an error.
\<close>

theorem password_round_trip:
  assumes "scrypt pw salt 16384 8 1 32 = Inr digest" "length digest = 32" "is_bytes digest"
    and "length salt = 16" "is_bytes salt"
  shows "if length pw < 12 then hash_password scrypt salt pw = Inl (ValueError ''password must contain at least 12 characters'')
    else \<exists>encoded. hash_password scrypt salt pw = Inr encoded \<and> length encoded = 86 \<and> length encoded \<le> 512 \<and>
      verify_password scrypt pw encoded = Inr True \<and>
      (\<forall>q d. scrypt q salt 16384 8 1 32 = Inr d \<longrightarrow> verify_password scrypt q encoded = Inr (d = digest))"
proof (cases "length pw < 12")
  case False
  then have "12 \<le> length pw" by simp
  from hashed_password [where scrypt = scrypt, OF assms this] obtain encoded where
    "hash_password scrypt salt pw = Inr encoded" "length encoded = 86"
    "\<And>q d. scrypt q salt 16384 8 1 32 = Inr d \<Longrightarrow> verify_password scrypt q encoded = Inr (d = digest)" by blast
  with False assms(1) show ?thesis by simp
qed (simp add: hash_password_def)

text \<open>A stand-in for scrypt with results of the requested length, for evaluation.\<close>

definition toy_scrypt :: scrypt where
  "toy_scrypt password salt n r p len = Inr (take len (map (\<lambda>c. code_of c) password @ salt @ replicate len 0))"

theorem password_round_trip_witness:
  "\<exists>encoded. hash_password toy_scrypt (replicate 16 7) ''correct horse'' = Inr encoded \<and>
     verify_password toy_scrypt ''correct horse'' encoded = Inr True \<and>
     verify_password toy_scrypt ''correct house'' encoded = Inr False"
proof -
  let ?s = "replicate 16 (7::nat)" and ?d = "map code_of ''correct horse'' @ replicate 16 7 @ replicate 3 0"
  have d: "toy_scrypt ''correct horse'' ?s 16384 8 1 32 = Inr ?d"
    by (simp add: toy_scrypt_def numeral_eq_Suc)
  have "length ?d = 32" "is_bytes ?d" "length ?s = 16" "is_bytes ?s"
    by (simp_all add: is_bytes_def list_all_iff code_of_def)
  from password_round_trip [where scrypt = toy_scrypt, OF d this]
  obtain encoded where e: "hash_password toy_scrypt ?s ''correct horse'' = Inr encoded"
    "verify_password toy_scrypt ''correct horse'' encoded = Inr True"
    "\<forall>q d. toy_scrypt q ?s 16384 8 1 32 = Inr d \<longrightarrow> verify_password toy_scrypt q encoded = Inr (d = ?d)"
    by auto
  have "toy_scrypt ''correct house'' ?s 16384 8 1 32 = Inr (map code_of ''correct house'' @ replicate 16 7 @ replicate 3 0)"
    by (simp add: toy_scrypt_def numeral_eq_Suc)
  with e(3) have "verify_password toy_scrypt ''correct house'' encoded =
      Inr (map code_of ''correct house'' @ replicate 16 7 @ replicate 3 0 = ?d)" by blast
  moreover have "map code_of ''correct house'' @ replicate 16 7 @ replicate 3 0 \<noteq> ?d"
    by (simp add: code_of_def)
  ultimately show ?thesis using e(1,2) by auto
qed

end
