(* ===== verification/Auth.thy ===== *)
theory Auth
  imports Remediation Passwords
begin

text \<open>
  Users, memberships, sessions and API keys: \<^verbatim>\<open>domain/auth.py\<close> and \<^verbatim>\<open>storage/auth.py\<close>. Tokens, ids,
  salts and the clock are arguments, scrypt and SHA-256 parameters; \<open>env\<close> is what other processes
  commit between the reads and the commit of a transaction. The properties are in \<open>AccessControl\<close>.
\<close>

section \<open>State\<close>

datatype workspace_role = Viewer | Analyst | Admin | Owner

fun workspace_role_value :: "workspace_role \<Rightarrow> string" where
  "workspace_role_value Viewer = ''viewer''"
| "workspace_role_value Analyst = ''analyst''"
| "workspace_role_value Admin = ''admin''"
| "workspace_role_value Owner = ''owner''"

fun role_rank :: "workspace_role \<Rightarrow> nat" where
  "role_rank Viewer = 10"
| "role_rank Analyst = 20"
| "role_rank Admin = 30"
| "role_rank Owner = 40"

datatype principal_kind = SessionKind | ApiKeyKind

record principal =
  pr_kind :: principal_kind
  pr_subject_id :: string
  pr_user_id :: "string option"
  pr_api_key_id :: "string option"
  pr_api_key_workspace_id :: "string option"
  pr_api_key_role :: "workspace_role option"

record user_row =
  us_id :: string
  us_email :: string
  us_display_name :: string
  us_password_hash :: string
  us_active :: bool
  us_created_at :: time

record membership =
  mb_workspace_id :: string
  mb_user_id :: string
  mb_role :: workspace_role
  mb_created_at :: time

record session_row =
  sn_id :: string
  sn_user_id :: string
  sn_token_hash :: string
  sn_created_at :: time
  sn_expires_at :: time
  sn_last_used_at :: "time option"
  sn_revoked_at :: "time option"

record api_key_row =
  ak_id :: string
  ak_workspace_id :: string
  ak_name :: string
  ak_prefix :: string
  ak_token_hash :: string
  ak_role :: workspace_role
  ak_created_by_user_id :: "string option"
  ak_created_at :: time
  ak_expires_at :: "time option"
  ak_last_used_at :: "time option"
  ak_revoked_at :: "time option"

record auth_db = migration_db +
  users :: "user_row tbl"
  memberships :: "membership tbl"
  sessions :: "session_row tbl"
  api_keys :: "api_key_row tbl"

record issued_token =
  it_token :: string
  it_expires_at :: time
  it_user :: "user_row option"
  it_workspace :: "workspace option"

record issued_api_key =
  ik_token :: string
  ik_metadata :: api_key_row

section \<open>Validation\<close>

text \<open>The pattern \<^verbatim>\<open>[^@\s]+@[^@\s]+\.[^@\s]+\<close> on the whole string.\<close>

definition email_pattern :: "string \<Rightarrow> bool" where
  "email_pattern s =
     (let local = takeWhile (\<lambda>c. c \<noteq> CHR ''@'') s; domain = drop (length local + 1) s
      in local \<noteq> [] \<and> CHR ''@'' \<in> set s \<and> CHR ''@'' \<notin> set domain \<and> \<not> list_ex is_space s \<and>
         CHR ''.'' \<in> set (butlast (tl domain)))"

definition normalize_email :: "string \<Rightarrow> string result" where
  "normalize_email email =
     (let value = lower (strip email)
      in if email_pattern value then Inr value else Inl (ValueError ''invalid email address''))"

definition validate_user :: "user_row \<Rightarrow> user_row result" where
  "validate_user u =
     (if \<not> length_between 3 320 (us_email u) then Inl (ValidationError ''email'')
      else if \<not> length_between 1 200 (us_display_name u) then Inl (ValidationError ''display_name'')
      else Inr u)"

definition user_from_record :: "user_row \<Rightarrow> user_row result" where
  "user_from_record = validate_user"

definition api_key_from_record :: "api_key_row \<Rightarrow> api_key_row result" where
  "api_key_from_record k =
     (if \<not> length_between 1 200 (ak_name k) then Inl (ValidationError ''name'') else Inr k)"

definition user_conflict :: "user_row \<Rightarrow> user_row \<Rightarrow> bool" where
  "user_conflict x u = (us_id x = us_id u \<or> us_email x = us_email u)"

definition membership_conflict :: "membership \<Rightarrow> membership \<Rightarrow> bool" where
  "membership_conflict x m =
     (mb_workspace_id x = mb_workspace_id m \<and> mb_user_id x = mb_user_id m)"

definition session_conflict :: "session_row \<Rightarrow> session_row \<Rightarrow> bool" where
  "session_conflict x s = (sn_id x = sn_id s \<or> sn_token_hash x = sn_token_hash s)"

definition api_key_conflict :: "api_key_row \<Rightarrow> api_key_row \<Rightarrow> bool" where
  "api_key_conflict x k = (ak_id x = ak_id k \<or> ak_token_hash x = ak_token_hash k)"

text \<open>A workspace with a member row for its owner, inserted in one transaction; \<open>None\<close> is a violated constraint.\<close>

definition insert_owned ::
  "workspace \<Rightarrow> user_row option \<Rightarrow> string \<Rightarrow> time \<Rightarrow> 'x auth_db_scheme \<Rightarrow> 'x auth_db_scheme option" where
  "insert_owned w new_user owner created db =
     (case (insert_row workspace_conflict w (workspaces db),
            (case new_user of None \<Rightarrow> Some (users db) | Some u \<Rightarrow> insert_row user_conflict u (users db)),
            insert_row membership_conflict
              \<lparr>mb_workspace_id = ws_id w, mb_user_id = owner, mb_role = Owner, mb_created_at = created\<rparr>
              (memberships db)) of
        (Some ws, Some us, Some ms) \<Rightarrow> Some (db\<lparr>workspaces := ws, users := us, memberships := ms\<rparr>)
      | _ \<Rightarrow> None)"

section \<open>Sessions\<close>

definition has_users :: "'x auth_db_scheme \<Rightarrow> bool" where
  "has_users db = (length (users db) \<noteq> 0)"

definition create_session ::
  "(string \<Rightarrow> string) \<Rightarrow> string \<Rightarrow> string \<Rightarrow> string \<Rightarrow> int \<Rightarrow> time \<Rightarrow> 'x auth_db_scheme \<Rightarrow>
   (issued_token, 'x auth_db_scheme) outcome" where
  "create_session sha session_id secret user_id session_hours now db =
     (if \<not> (1 \<le> session_hours \<and> session_hours \<le> 720)
      then (Inl (ValueError ''session_hours must be between 1 and 720''), db)
      else
        let token = ''chs_'' @ secret; expires = now + seconds (session_hours * 3600)
        in case row_of us_id (users db) user_id of
             None \<Rightarrow> (Inl (LookupError ''active user not found''), db)
           | Some u \<Rightarrow>
               if \<not> us_active u then (Inl (LookupError ''active user not found''), db)
               else case insert_row session_conflict
                      \<lparr>sn_id = session_id, sn_user_id = user_id, sn_token_hash = sha token,
                       sn_created_at = now, sn_expires_at = expires, sn_last_used_at = None,
                       sn_revoked_at = None\<rparr> (sessions db) of
                      None \<Rightarrow> (Inl IntegrityError, db)
                    | Some t \<Rightarrow> (Inr \<lparr>it_token = token, it_expires_at = expires, it_user = None, it_workspace = None\<rparr>,
                                db\<lparr>sessions := t\<rparr>))"

text \<open>The random values a call draws: ids, the salt, the session id and the secret of its token.\<close>

record fresh =
  fv_workspace_id :: string
  fv_user_id :: string
  fv_salt :: bytes
  fv_session_id :: string
  fv_secret :: string

definition bootstrap ::
  "scrypt \<Rightarrow> (string \<Rightarrow> string) \<Rightarrow> ('x auth_db_scheme \<Rightarrow> 'x auth_db_scheme) \<Rightarrow> fresh \<Rightarrow> string \<Rightarrow> string \<Rightarrow>
   string \<Rightarrow> string \<Rightarrow> string option \<Rightarrow> int \<Rightarrow> time \<Rightarrow> 'x auth_db_scheme \<Rightarrow>
   (issued_token, 'x auth_db_scheme) outcome" where
  "bootstrap scrypt sha env fresh email display_name password workspace_name workspace_slug session_hours now db =
     (case bindE (normalize_email email) (\<lambda>email.
             bindE (validate_workspace \<lparr>ws_id = fv_workspace_id fresh, ws_name = workspace_name,
                      ws_slug = (if truthy workspace_slug then the workspace_slug else slugify workspace_name),
                      ws_created_at = now\<rparr>) (\<lambda>w.
             bindE (validate_user \<lparr>us_id = fv_user_id fresh, us_email = email, us_display_name = display_name,
                      us_password_hash = [], us_active = True, us_created_at = now\<rparr>) (\<lambda>u.
             bindE (hash_password scrypt (fv_salt fresh) password) (\<lambda>digest.
               Inr (w, u\<lparr>us_password_hash := digest\<rparr>))))) of
        Inl e \<Rightarrow> (Inl e, db)
      | Inr (w, u) \<Rightarrow>
          if has_users db then (Inl (RuntimeError ''bootstrap is disabled after the first user is created''), db)
          else let db' = env db
               in case insert_owned w (Some u) (us_id u) (us_created_at u) db' of
                    None \<Rightarrow> (Inl (ValueError ''bootstrap identity or workspace already exists''), db')
                  | Some db'' \<Rightarrow>
                      let (res, db3) = create_session sha (fv_session_id fresh) (fv_secret fresh) (us_id u)
                            session_hours now db''
                      in (bindE res (\<lambda>issued. Inr (issued\<lparr>it_user := Some u, it_workspace := Some w\<rparr>)), db3))"

definition login ::
  "scrypt \<Rightarrow> (string \<Rightarrow> string) \<Rightarrow> string \<Rightarrow> string \<Rightarrow> string \<Rightarrow> string \<Rightarrow> int \<Rightarrow> time \<Rightarrow> 'x auth_db_scheme \<Rightarrow>
   (issued_token, 'x auth_db_scheme) outcome" where
  "login scrypt sha session_id secret email password session_hours now db =
     (case bindE (normalize_email email) (\<lambda>email.
             case first_where (\<lambda>u. us_email u = email) (users db) of
               None \<Rightarrow> Inl (PermissionError ''invalid email or password'')
             | Some u \<Rightarrow>
                 if \<not> us_active u then Inl (PermissionError ''invalid email or password'')
                 else bindE (verify_password scrypt password (us_password_hash u)) (\<lambda>valid.
                        if valid then user_from_record u
                        else Inl (PermissionError ''invalid email or password''))) of
        Inl e \<Rightarrow> (Inl e, db)
      | Inr u \<Rightarrow>
          let (res, db') = create_session sha session_id secret (us_id u) session_hours now db
          in (bindE res (\<lambda>issued. Inr (issued\<lparr>it_user := Some u\<rparr>)), db'))"

definition revoke_session :: "principal \<Rightarrow> time \<Rightarrow> 'x auth_db_scheme \<Rightarrow> 'x auth_db_scheme" where
  "revoke_session p now db =
     (if pr_kind p \<noteq> SessionKind then db
      else db\<lparr>sessions := update_where (\<lambda>s. sn_id s = pr_subject_id p \<and> sn_revoked_at s = None)
                (\<lambda>s. s\<lparr>sn_revoked_at := Some now\<rparr>) (sessions db)\<rparr>)"

section \<open>Authentication and authorization\<close>

definition authenticate ::
  "(string \<Rightarrow> string) \<Rightarrow> string \<Rightarrow> time \<Rightarrow> 'x auth_db_scheme \<Rightarrow> (principal, 'x auth_db_scheme) outcome" where
  "authenticate sha token now db =
     (let digest = sha token
      in if startswith token ''chs_'' then
           (case row_of sn_token_hash (sessions db) digest of
              None \<Rightarrow> (Inl (PermissionError ''invalid or expired session''), db)
            | Some r \<Rightarrow>
                if sn_revoked_at r \<noteq> None \<or> sn_expires_at r \<le> now
                then (Inl (PermissionError ''invalid or expired session''), db)
                else case row_of us_id (users db) (sn_user_id r) of
                       None \<Rightarrow> (Inl (PermissionError ''user is inactive''), db)
                     | Some u \<Rightarrow>
                         if \<not> us_active u then (Inl (PermissionError ''user is inactive''), db)
                         else (Inr \<lparr>pr_kind = SessionKind, pr_subject_id = sn_id r, pr_user_id = Some (sn_user_id r),
                                   pr_api_key_id = None, pr_api_key_workspace_id = None, pr_api_key_role = None\<rparr>,
                               db\<lparr>sessions := update_where (\<lambda>x. sn_id x = sn_id r)
                                  (\<lambda>x. x\<lparr>sn_last_used_at := Some now\<rparr>) (sessions db)\<rparr>))
         else if startswith token ''chk_'' then
           (case row_of ak_token_hash (api_keys db) digest of
              None \<Rightarrow> (Inl (PermissionError ''invalid API key''), db)
            | Some r \<Rightarrow>
                if ak_revoked_at r \<noteq> None then (Inl (PermissionError ''invalid API key''), db)
                else if (case ak_expires_at r of None \<Rightarrow> False | Some t \<Rightarrow> t \<le> now)
                then (Inl (PermissionError ''expired API key''), db)
                else (Inr \<lparr>pr_kind = ApiKeyKind, pr_subject_id = ak_id r, pr_user_id = None,
                          pr_api_key_id = Some (ak_id r), pr_api_key_workspace_id = Some (ak_workspace_id r),
                          pr_api_key_role = Some (ak_role r)\<rparr>,
                      db\<lparr>api_keys := update_where (\<lambda>x. ak_id x = ak_id r)
                         (\<lambda>x. x\<lparr>ak_last_used_at := Some now\<rparr>) (api_keys db)\<rparr>))
         else (Inl (PermissionError ''unsupported authentication token''), db))"

definition principal_role :: "principal \<Rightarrow> string \<Rightarrow> 'x auth_db_scheme \<Rightarrow> workspace_role result" where
  "principal_role p w db =
     (if pr_kind p = ApiKeyKind then
        (case pr_api_key_role p of
           None \<Rightarrow> Inl (PermissionError ''API key is not valid for this workspace'')
         | Some role \<Rightarrow>
             if pr_api_key_workspace_id p \<noteq> Some w
             then Inl (PermissionError ''API key is not valid for this workspace'') else Inr role)
      else case pr_user_id p of
             None \<Rightarrow> Inl (PermissionError ''session has no user identity'')
           | Some u \<Rightarrow>
               (case first_where (\<lambda>m. mb_workspace_id m = w \<and> mb_user_id m = u) (memberships db) of
                  None \<Rightarrow> Inl (PermissionError ''user is not a member of this workspace'')
                | Some m \<Rightarrow> Inr (mb_role m)))"

definition authorize_workspace ::
  "principal \<Rightarrow> string \<Rightarrow> workspace_role \<Rightarrow> 'x auth_db_scheme \<Rightarrow> workspace_role result" where
  "authorize_workspace p w minimum db =
     bindE (principal_role p w db) (\<lambda>role.
       if role_rank role < role_rank minimum
       then Inl (PermissionError (workspace_role_value minimum @ '' role or higher is required''))
       else Inr role)"

section \<open>Workspaces and members\<close>

definition auth_list_workspaces :: "principal \<Rightarrow> 'x auth_db_scheme \<Rightarrow> workspace list result" where
  "auth_list_workspaces p db =
     (if pr_kind p = ApiKeyKind then
        (case pr_api_key_workspace_id p of
           None \<Rightarrow> Inr []
         | Some w \<Rightarrow> map_rows workspace_from_record (filter (\<lambda>r. ws_id r = w) (workspaces db)))
      else case pr_user_id p of
             None \<Rightarrow> Inr []
           | Some u \<Rightarrow> map_rows workspace_from_record (sort_key ws_name
               [r. r \<leftarrow> workspaces db, m \<leftarrow> memberships db, mb_workspace_id m = ws_id r \<and> mb_user_id m = u]))"

definition get_user :: "string \<Rightarrow> 'x auth_db_scheme \<Rightarrow> user_row option result" where
  "get_user u db = optional_row user_from_record (row_of us_id (users db) u)"

definition auth_create_workspace ::
  "('x auth_db_scheme \<Rightarrow> 'x auth_db_scheme) \<Rightarrow> string \<Rightarrow> principal \<Rightarrow> string \<Rightarrow> string option \<Rightarrow> time \<Rightarrow>
   'x auth_db_scheme \<Rightarrow> (workspace, 'x auth_db_scheme) outcome" where
  "auth_create_workspace env ident p name slug now db =
     (if pr_kind p \<noteq> SessionKind \<or> pr_user_id p = None
      then (Inl (PermissionError ''a user session is required to create a workspace''), db)
      else case validate_workspace \<lparr>ws_id = ident, ws_name = name,
                  ws_slug = (if truthy slug then the slug else slugify name), ws_created_at = now\<rparr> of
             Inl e \<Rightarrow> (Inl e, db)
           | Inr w \<Rightarrow>
               (case row_of us_id (users db) (the (pr_user_id p)) of
                  None \<Rightarrow> (Inl (PermissionError ''active user session is required''), db)
                | Some u \<Rightarrow>
                    if \<not> us_active u then (Inl (PermissionError ''active user session is required''), db)
                    else let db' = env db
                         in case insert_owned w None (the (pr_user_id p)) (ws_created_at w) db' of
                              None \<Rightarrow> (Inl (ValueError ''workspace already exists''), db')
                            | Some db'' \<Rightarrow> (Inr w, db'')))"

definition provision_member ::
  "scrypt \<Rightarrow> ('x auth_db_scheme \<Rightarrow> 'x auth_db_scheme) \<Rightarrow> fresh \<Rightarrow> principal \<Rightarrow> string \<Rightarrow> string \<Rightarrow> string \<Rightarrow>
   workspace_role \<Rightarrow> string \<Rightarrow> time \<Rightarrow> 'x auth_db_scheme \<Rightarrow>
   (user_row \<times> membership, 'x auth_db_scheme) outcome" where
  "provision_member scrypt env fresh p w email display_name role password now db =
     (case bindE (authorize_workspace p w Admin db) (\<lambda>caller_role.
             if role_rank role > role_rank caller_role
             then Inl (PermissionError ''cannot assign a role higher than the caller'')
             else bindE (normalize_email email) (\<lambda>email.
                  bindE (hash_password scrypt (fv_salt fresh) password) (\<lambda>digest.
                  bindE (validate_user \<lparr>us_id = fv_user_id fresh, us_email = email, us_display_name = display_name,
                           us_password_hash = [], us_active = True, us_created_at = now\<rparr>) (\<lambda>u.
                    Inr (u\<lparr>us_password_hash := digest\<rparr>))))) of
        Inl e \<Rightarrow> (Inl e, db)
      | Inr new_user \<Rightarrow>
          (case (case first_where (\<lambda>u. us_email u = us_email new_user) (users db) of
                   None \<Rightarrow> Inr (None, new_user)
                 | Some u \<Rightarrow> bindE (user_from_record u) (\<lambda>u. Inr (Some u, u))) of
             Inl e \<Rightarrow> (Inl e, db)
           | Inr (existing, u) \<Rightarrow>
               let m = \<lparr>mb_workspace_id = w, mb_user_id = us_id u, mb_role = role, mb_created_at = now\<rparr>;
                   db' = env db;
                   us = (if existing = None then insert_row user_conflict u (users db') else Some (users db'))
               in case (us, insert_row membership_conflict m (memberships db')) of
                    (Some us, Some ms) \<Rightarrow> (Inr (u, m), db'\<lparr>users := us, memberships := ms\<rparr>)
                  | _ \<Rightarrow> (Inl (ValueError ''membership already exists''), db')))"

definition list_members ::
  "principal \<Rightarrow> string \<Rightarrow> 'x auth_db_scheme \<Rightarrow> (user_row \<times> membership) list result" where
  "list_members p w db =
     bindE (authorize_workspace p w Viewer db) (\<lambda>_.
       map_rows (\<lambda>(u, m). bindE (user_from_record u) (\<lambda>u. Inr (u, m)))
         (sort_key (\<lambda>(u, m). us_email u)
            [(u, m). u \<leftarrow> users db, m \<leftarrow> memberships db, mb_user_id m = us_id u \<and> mb_workspace_id m = w]))"

section \<open>API keys\<close>

definition create_api_key ::
  "(string \<Rightarrow> string) \<Rightarrow> string \<Rightarrow> string \<Rightarrow> principal \<Rightarrow> string \<Rightarrow> string \<Rightarrow> workspace_role \<Rightarrow> int option \<Rightarrow>
   time \<Rightarrow> 'x auth_db_scheme \<Rightarrow> (issued_api_key, 'x auth_db_scheme) outcome" where
  "create_api_key sha ident secret p w name role expires_days now db =
     (case bindE (authorize_workspace p w Admin db) (\<lambda>caller_role.
             if role_rank role > role_rank caller_role
             then Inl (PermissionError ''cannot create an API key with a higher role than the caller'')
             else if role = Owner then Inl (ValueError ''API keys cannot be workspace owners'')
             else if (case expires_days of None \<Rightarrow> False | Some d \<Rightarrow> \<not> (1 \<le> d \<and> d \<le> 3650))
             then Inl (ValueError ''expires_days must be between 1 and 3650'')
             else let token = ''chk_'' @ secret
                  in bindE (api_key_from_record
                       \<lparr>ak_id = ident, ak_workspace_id = w, ak_name = name, ak_prefix = take 16 token,
                        ak_token_hash = sha token, ak_role = role, ak_created_by_user_id = pr_user_id p,
                        ak_created_at = now, ak_expires_at = map_option (\<lambda>d. now + days d) expires_days,
                        ak_last_used_at = None, ak_revoked_at = None\<rparr>) (\<lambda>k. Inr (token, k))) of
        Inl e \<Rightarrow> (Inl e, db)
      | Inr (token, k) \<Rightarrow>
          (case insert_row api_key_conflict k (api_keys db) of
             None \<Rightarrow> (Inl IntegrityError, db)
           | Some t \<Rightarrow> (Inr \<lparr>ik_token = token, ik_metadata = k\<rparr>, db\<lparr>api_keys := t\<rparr>)))"

definition list_api_keys :: "principal \<Rightarrow> string \<Rightarrow> 'x auth_db_scheme \<Rightarrow> api_key_row list result" where
  "list_api_keys p w db =
     bindE (authorize_workspace p w Admin db) (\<lambda>_.
       map_rows api_key_from_record
         (sort_key (\<lambda>k. - ak_created_at k) (filter (\<lambda>k. ak_workspace_id k = w) (api_keys db))))"

definition revoke_api_key ::
  "principal \<Rightarrow> string \<Rightarrow> string \<Rightarrow> time \<Rightarrow> 'x auth_db_scheme \<Rightarrow> (unit, 'x auth_db_scheme) outcome" where
  "revoke_api_key p w key_id now db =
     (case authorize_workspace p w Admin db of
        Inl e \<Rightarrow> (Inl e, db)
      | Inr _ \<Rightarrow>
          (case first_where (\<lambda>k. ak_id k = key_id \<and> ak_workspace_id k = w) (api_keys db) of
             None \<Rightarrow> (Inl (LookupError ''API key not found in workspace''), db)
           | Some k \<Rightarrow>
               (Inr (), if ak_revoked_at k = None
                        then db\<lparr>api_keys := update_where (\<lambda>x. ak_id x = ak_id k)
                               (\<lambda>x. x\<lparr>ak_revoked_at := Some now\<rparr>) (api_keys db)\<rparr>
                        else db)))"

end
