(* ===== verification/PolicyStore.thy ===== *)
theory PolicyStore
  imports PolicyEvaluator Auth
begin

text \<open>
  Policy packs, their versions and the assignment of a version to a workspace:
  \<^verbatim>\<open>storage/policy.py\<close>. SHA-256 and the JSON text of rules are parameters, new ids and the clock
  are arguments. \<open>env n\<close> is what other processes commit at the \<open>n\<close>-th point of an operation where
  they can: before a commit, and between two transactions. The properties are in \<open>PolicyHistory\<close>.
\<close>

section \<open>State\<close>

record policy_assignment =
  pa_workspace_id :: string
  pa_policy_version_id :: string
  pa_assigned_by :: string
  pa_assigned_at :: time

record policy_db = auth_db +
  policy_packs :: "crypto_policy_pack tbl"
  policy_versions :: "crypto_policy_version tbl"
  policy_assignments :: "policy_assignment tbl"

record pack_with_versions =
  pw_pack :: crypto_policy_pack
  pw_versions :: "crypto_policy_version list"
  pw_active_version :: "int option"

definition pack_conflict :: "crypto_policy_pack \<Rightarrow> crypto_policy_pack \<Rightarrow> bool" where
  "pack_conflict x p =
     (pp_id x = pp_id p \<or> pp_workspace_id x = pp_workspace_id p \<and> pp_slug x = pp_slug p)"

definition version_conflict :: "crypto_policy_version \<Rightarrow> crypto_policy_version \<Rightarrow> bool" where
  "version_conflict x v =
     (pv_id x = pv_id v \<or> pv_policy_id x = pv_policy_id v \<and> pv_version x = pv_version v)"

definition assignment_conflict :: "policy_assignment \<Rightarrow> policy_assignment \<Rightarrow> bool" where
  "assignment_conflict x a = (pa_workspace_id x = pa_workspace_id a)"

fun insert_rows :: "('r \<Rightarrow> 'r \<Rightarrow> bool) \<Rightarrow> 'r list \<Rightarrow> 'r tbl \<Rightarrow> 'r tbl option" where
  "insert_rows conflict [] t = Some t"
| "insert_rows conflict (r # rs) t =
     (case insert_row conflict r t of None \<Rightarrow> None | Some t' \<Rightarrow> insert_rows conflict rs t')"

section \<open>Hashes and the built-in packs\<close>

record policy_hashing =
  pl_sha256 :: "string \<Rightarrow> string"
  pl_rules_payload :: "crypto_policy_rules \<Rightarrow> string"

definition rules_hash :: "policy_hashing \<Rightarrow> crypto_policy_rules \<Rightarrow> string" where
  "rules_hash h rules = pl_sha256 h (pl_rules_payload h rules)"

definition stable_id :: "policy_hashing \<Rightarrow> string \<Rightarrow> string \<Rightarrow> string" where
  "stable_id h w value = take 32 (pl_sha256 h (w @ ''|'' @ value))"

definition strict_modern_rules :: crypto_policy_rules where
  "strict_modern_rules = default_rules\<lparr>minimum_rsa_bits := 3072, minimum_aes_bits := 256,
     minimum_tls_version := TLS13, quantum_vulnerable_default := Fail,
     internet_exposed_quantum_action := Fail, long_lived_data_years := 3,
     unknown_family_action := Fail, minimum_detection_confidence := 17 / 20\<rparr>"

definition long_lived_rules :: crypto_policy_rules where
  "long_lived_rules = default_rules\<lparr>minimum_rsa_bits := 3072, minimum_aes_bits := 256,
     minimum_tls_version := TLS12, quantum_vulnerable_default := Review,
     internet_exposed_quantum_action := Fail, long_lived_data_years := 3,
     unknown_family_action := Review, minimum_detection_confidence := 4 / 5\<rparr>"

definition builtin_packs :: "(string \<times> string \<times> string \<times> crypto_policy_rules) list" where
  "builtin_packs =
     [(''cryptohawk-recommended'', ''CryptoHawk Recommended'',
       ''Balanced modern cryptography and post-quantum transition baseline.'', default_rules),
      (''strict-modern'', ''Strict Modern'',
       ''High-assurance baseline for new systems and aggressively modernized estates.'',
       strict_modern_rules),
      (''long-lived-confidentiality'', ''Long-Lived Confidentiality'',
       ''HNDL-focused baseline for data that must remain confidential through the PQ transition.'',
       long_lived_rules)]"

definition builtin_policy_id :: "policy_hashing \<Rightarrow> string \<Rightarrow> string \<Rightarrow> string" where
  "builtin_policy_id h w slug = stable_id h w (''builtin-policy:'' @ slug)"

definition builtin_version_id :: "policy_hashing \<Rightarrow> string \<Rightarrow> string \<Rightarrow> string" where
  "builtin_version_id h w slug = stable_id h w (''builtin-policy:'' @ slug @ '':v1'')"

definition builtin_pack ::
  "policy_hashing \<Rightarrow> string \<Rightarrow> time \<Rightarrow> string \<times> string \<times> string \<times> crypto_policy_rules \<Rightarrow> crypto_policy_pack" where
  "builtin_pack h w now = (\<lambda>(slug, name, description, rules).
     \<lparr>pp_id = builtin_policy_id h w slug, pp_workspace_id = w, pp_slug = slug, pp_name = name,
      pp_description = description, pp_built_in = True, pp_created_by = ''system:builtin-policy'',
      pp_created_at = now\<rparr>)"

definition builtin_version ::
  "policy_hashing \<Rightarrow> string \<Rightarrow> time \<Rightarrow> string \<times> string \<times> string \<times> crypto_policy_rules \<Rightarrow> crypto_policy_version" where
  "builtin_version h w now = (\<lambda>(slug, name, description, rules).
     \<lparr>pv_id = builtin_version_id h w slug, pv_policy_id = builtin_policy_id h w slug,
      pv_workspace_id = w, pv_version = 1, pv_rules = rules, pv_rules_hash = rules_hash h rules,
      pv_created_by = ''system:builtin-policy'', pv_created_at = now\<rparr>)"

text \<open>The loop over the built-in packs: the rows added so far are visible to the later lookups.\<close>

definition add_builtin ::
  "policy_hashing \<Rightarrow> string \<Rightarrow> time \<Rightarrow> 'x policy_db_scheme \<Rightarrow> string \<times> string \<times> string \<times> crypto_policy_rules \<Rightarrow>
   crypto_policy_pack list \<times> crypto_policy_version list \<Rightarrow> crypto_policy_pack list \<times> crypto_policy_version list" where
  "add_builtin h w now db b = (\<lambda>(ps, vs).
     let p = builtin_pack h w now b; v = builtin_version h w now b
     in (if row_of pp_id (policy_packs db @ ps) (pp_id p) = None then ps @ [p] else ps,
         if row_of pv_id (policy_versions db @ vs) (pv_id v) = None then vs @ [v] else vs))"

definition default_assignment :: "policy_hashing \<Rightarrow> string \<Rightarrow> time \<Rightarrow> policy_assignment" where
  "default_assignment h w now =
     \<lparr>pa_workspace_id = w, pa_policy_version_id = builtin_version_id h w ''cryptohawk-recommended'',
      pa_assigned_by = ''system:default-policy'', pa_assigned_at = now\<rparr>"

text \<open>After a violated constraint the transaction is rolled back and the rows of the winner are checked.\<close>

definition builtins_complete :: "string \<Rightarrow> 'x policy_db_scheme \<Rightarrow> bool" where
  "builtins_complete w db =
     (set (map pp_slug (filter (\<lambda>p. pp_workspace_id p = w \<and> pp_built_in p) (policy_packs db))) =
        set (map fst builtin_packs) \<and>
      row_of pa_workspace_id (policy_assignments db) w \<noteq> None)"

definition ensure_builtins ::
  "policy_hashing \<Rightarrow> ('x policy_db_scheme \<Rightarrow> 'x policy_db_scheme) \<Rightarrow> string \<Rightarrow> time \<Rightarrow> 'x policy_db_scheme \<Rightarrow>
   (unit, 'x policy_db_scheme) outcome" where
  "ensure_builtins h env w now db =
     (if row_of ws_id (workspaces db) w = None then (Inl (LookupError ''workspace not found''), db)
      else
        let (ps, vs) = fold (add_builtin h w now db) builtin_packs ([], []);
            new = (if row_of pa_workspace_id (policy_assignments db) w = None
                   then [default_assignment h w now] else []);
            db' = env db
        in case (insert_rows pack_conflict ps (policy_packs db'),
                 insert_rows version_conflict vs (policy_versions db'),
                 insert_rows assignment_conflict new (policy_assignments db')) of
             (Some ps, Some vs, Some as) \<Rightarrow>
               (Inr (), db'\<lparr>policy_packs := ps, policy_versions := vs, policy_assignments := as\<rparr>)
           | _ \<Rightarrow> if builtins_complete w db' then (Inr (), db') else (Inl IntegrityError, db'))"

section \<open>Reading policies\<close>

definition version_from_record :: "crypto_policy_version \<Rightarrow> crypto_policy_version result" where
  "version_from_record v =
     bindE (validate_rules (pv_rules v)) (\<lambda>rules.
       if pv_version v < 1 then Inl (ValidationError ''version'')
       else if length (pv_rules_hash v) \<noteq> 64 then Inl (ValidationError ''rules_hash'')
       else Inr (v\<lparr>pv_rules := rules\<rparr>))"

definition versions_of :: "string \<Rightarrow> 'x policy_db_scheme \<Rightarrow> crypto_policy_version list" where
  "versions_of pid db =
     sort_key (\<lambda>v. - pv_version v) (filter (\<lambda>v. pv_policy_id v = pid) (policy_versions db))"

definition active_version :: "string option \<Rightarrow> crypto_policy_version list \<Rightarrow> int option" where
  "active_version active vs = map_option pv_version (first_where (\<lambda>v. Some (pv_id v) = active) vs)"

definition with_versions :: "string \<Rightarrow> 'x policy_db_scheme \<Rightarrow> crypto_policy_pack \<Rightarrow> pack_with_versions result" where
  "with_versions w db pack =
     (let active = map_option pa_policy_version_id (row_of pa_workspace_id (policy_assignments db) w);
          versions = versions_of (pp_id pack) db
      in bindE (map_rows version_from_record versions) (\<lambda>vs.
           Inr \<lparr>pw_pack = pack, pw_versions = vs, pw_active_version = active_version active versions\<rparr>))"

definition find_pack :: "string \<Rightarrow> string \<Rightarrow> 'x policy_db_scheme \<Rightarrow> crypto_policy_pack option" where
  "find_pack w pid db = first_where (\<lambda>p. pp_id p = pid \<and> pp_workspace_id p = w) (policy_packs db)"

definition get_pack ::
  "policy_hashing \<Rightarrow> ('x policy_db_scheme \<Rightarrow> 'x policy_db_scheme) \<Rightarrow> time \<Rightarrow> string \<Rightarrow> string \<Rightarrow>
   'x policy_db_scheme \<Rightarrow> (pack_with_versions option, 'x policy_db_scheme) outcome" where
  "get_pack h env clock w pid db =
     (case ensure_builtins h env w clock db of
        (Inl e, db') \<Rightarrow> (Inl e, db')
      | (Inr _, db') \<Rightarrow> (optional_row (with_versions w db') (find_pack w pid db'), db'))"

definition list_packs ::
  "policy_hashing \<Rightarrow> ('x policy_db_scheme \<Rightarrow> 'x policy_db_scheme) \<Rightarrow> time \<Rightarrow> string \<Rightarrow>
   'x policy_db_scheme \<Rightarrow> (pack_with_versions list, 'x policy_db_scheme) outcome" where
  "list_packs h env clock w db =
     (case ensure_builtins h env w clock db of
        (Inl e, db') \<Rightarrow> (Inl e, db')
      | (Inr _, db') \<Rightarrow>
          (map_rows (with_versions w db')
             (sort_key (\<lambda>p. (\<not> pp_built_in p, pp_name p))
                (filter (\<lambda>p. pp_workspace_id p = w) (policy_packs db'))), db'))"

definition read_effective :: "string \<Rightarrow> 'x policy_db_scheme \<Rightarrow> effective_policy result" where
  "read_effective w db =
     (case row_of pa_workspace_id (policy_assignments db) w of
        None \<Rightarrow> Inl (RuntimeError ''workspace has no effective cryptographic policy'')
      | Some a \<Rightarrow>
          (case row_of pv_id (policy_versions db) (pa_policy_version_id a) of
             None \<Rightarrow> Inl (RuntimeError ''workspace policy assignment points to a missing version'')
           | Some v \<Rightarrow>
               (case row_of pp_id (policy_packs db) (pv_policy_id v) of
                  None \<Rightarrow> Inl (RuntimeError ''workspace policy assignment crosses tenant boundary'')
                | Some p \<Rightarrow>
                    if pp_workspace_id p \<noteq> w
                    then Inl (RuntimeError ''workspace policy assignment crosses tenant boundary'')
                    else bindE (version_from_record v) (\<lambda>v.
                      Inr \<lparr>ep_pack = p, ep_version = v, ep_assigned_by = pa_assigned_by a,
                           ep_assigned_at = pa_assigned_at a\<rparr>))))"

definition effective_policy_of ::
  "policy_hashing \<Rightarrow> ('x policy_db_scheme \<Rightarrow> 'x policy_db_scheme) \<Rightarrow> time \<Rightarrow> string \<Rightarrow>
   'x policy_db_scheme \<Rightarrow> (effective_policy, 'x policy_db_scheme) outcome" where
  "effective_policy_of h env clock w db =
     (case ensure_builtins h env w clock db of
        (Inl e, db') \<Rightarrow> (Inl e, db')
      | (Inr _, db') \<Rightarrow> (read_effective w db', db'))"

section \<open>Creating and activating policies\<close>

text \<open>
  The assignment as the session writes it: a new row, or the changed columns of the one it loaded.
\<close>

definition set_assignment ::
  "string \<Rightarrow> string \<Rightarrow> string \<Rightarrow> time \<Rightarrow> policy_assignment option \<Rightarrow> policy_assignment tbl \<Rightarrow>
   policy_assignment tbl option" where
  "set_assignment w version_id by now loaded t =
     (case loaded of
        None \<Rightarrow> insert_row assignment_conflict
          \<lparr>pa_workspace_id = w, pa_policy_version_id = version_id, pa_assigned_by = take 200 (strip by),
           pa_assigned_at = now\<rparr> t
      | Some a \<Rightarrow> Some (update_where (\<lambda>r. pa_workspace_id r = w)
          (\<lambda>r. r\<lparr>pa_policy_version_id := flush (pa_policy_version_id a) version_id (pa_policy_version_id r),
                 pa_assigned_by := flush (pa_assigned_by a) (take 200 (strip by)) (pa_assigned_by r),
                 pa_assigned_at := flush (pa_assigned_at a) now (pa_assigned_at r)\<rparr>) t))"

text \<open>The commit of new rows and, if \<open>activate\<close>, of the assignment.\<close>

definition commit_policy ::
  "crypto_policy_pack list \<Rightarrow> crypto_policy_version \<Rightarrow> bool \<Rightarrow> string \<Rightarrow> time \<Rightarrow> policy_assignment option \<Rightarrow>
   'x policy_db_scheme \<Rightarrow> 'x policy_db_scheme option" where
  "commit_policy packs v activate by now loaded db =
     (case (insert_rows pack_conflict packs (policy_packs db),
            insert_row version_conflict v (policy_versions db),
            (if activate then set_assignment (pv_workspace_id v) (pv_id v) by now loaded (policy_assignments db)
             else Some (policy_assignments db))) of
        (Some ps, Some vs, Some as) \<Rightarrow>
          Some (db\<lparr>policy_packs := ps, policy_versions := vs, policy_assignments := as\<rparr>)
      | _ \<Rightarrow> None)"

definition policy_slug_ok :: "string \<Rightarrow> bool" where
  "policy_slug_ok s = (length_between 2 80 s \<and> slug_pattern s)"

text \<open>
  With \<open>activate\<close> the new rows are flushed when the assignment is read, before the \<open>try\<close> block
  around the commit, so their conflict is raised as it is.
\<close>

definition create_pack ::
  "policy_hashing \<Rightarrow> (nat \<Rightarrow> 'x policy_db_scheme \<Rightarrow> 'x policy_db_scheme) \<Rightarrow> time \<Rightarrow> string \<Rightarrow> string \<Rightarrow> string \<Rightarrow>
   string \<Rightarrow> string \<Rightarrow> string \<Rightarrow> crypto_policy_rules \<Rightarrow> string \<Rightarrow> bool \<Rightarrow> time \<Rightarrow> 'x policy_db_scheme \<Rightarrow>
   (pack_with_versions, 'x policy_db_scheme) outcome" where
  "create_pack h env clock policy_id version_id w slug name description rules created_by activate now db =
     (let normalized = lower (strip slug)
      in if \<not> policy_slug_ok normalized
         then (Inl (ValueError ''policy slug must contain lowercase letters, digits, and hyphens''), db)
         else if strip name = [] then (Inl (ValueError ''policy name is required''), db)
         else if strip created_by = [] then (Inl (ValueError ''created_by is required''), db)
         else case ensure_builtins h (env 0) w now db of
           (Inl e, db1) \<Rightarrow> (Inl e, db1)
         | (Inr _, db1) \<Rightarrow>
             let pack = \<lparr>pp_id = policy_id, pp_workspace_id = w, pp_slug = normalized,
                          pp_name = take 200 (strip name), pp_description = strip description,
                          pp_built_in = False, pp_created_by = take 200 (strip created_by), pp_created_at = now\<rparr>;
                 version = \<lparr>pv_id = version_id, pv_policy_id = policy_id, pv_workspace_id = w, pv_version = 1,
                             pv_rules = rules, pv_rules_hash = rules_hash h rules,
                             pv_created_by = take 200 (strip created_by), pv_created_at = now\<rparr>;
                 db2 = env 1 db1;
                 loaded = row_of pa_workspace_id (policy_assignments db2) w;
                 db3 = (if activate then env 2 db2 else db2)
             in if activate \<and> commit_policy [pack] version False created_by now None db2 = None
                then (Inl IntegrityError, db2)
                else case commit_policy [pack] version activate created_by now loaded db3 of
                  None \<Rightarrow> (Inl (ValueError ''policy slug already exists in workspace''), db3)
                | Some db4 \<Rightarrow>
                    (case get_pack h (env 3) clock w policy_id db4 of
                       (Inl e, db5) \<Rightarrow> (Inl e, db5)
                     | (Inr None, db5) \<Rightarrow> (Inl (RuntimeError ''policy pack disappeared after creation''), db5)
                     | (Inr (Some p), db5) \<Rightarrow> (Inr p, db5)))"

definition create_version ::
  "policy_hashing \<Rightarrow> (nat \<Rightarrow> 'x policy_db_scheme \<Rightarrow> 'x policy_db_scheme) \<Rightarrow> string \<Rightarrow> string \<Rightarrow> string \<Rightarrow>
   crypto_policy_rules \<Rightarrow> string \<Rightarrow> bool \<Rightarrow> time \<Rightarrow> 'x policy_db_scheme \<Rightarrow>
   (crypto_policy_version, 'x policy_db_scheme) outcome" where
  "create_version h env version_id w policy_id rules created_by activate now db =
     (if strip created_by = [] then (Inl (ValueError ''created_by is required''), db)
      else case find_pack w policy_id db of
        None \<Rightarrow> (Inl (LookupError ''policy pack not found in workspace''), db)
      | Some pack \<Rightarrow>
          if pp_built_in pack then (Inl (ValueError ''built-in policy packs are immutable''), db)
          else
            let latest = first_where (\<lambda>_. True) (versions_of policy_id db);
                number = (case latest of None \<Rightarrow> 0 | Some v \<Rightarrow> pv_version v) + 1;
                digest = rules_hash h rules
            in if (case latest of None \<Rightarrow> False | Some v \<Rightarrow> pv_rules_hash v = digest)
               then (Inl (ValueError ''new policy version must change at least one rule''), db)
               else
                 let version = \<lparr>pv_id = version_id, pv_policy_id = policy_id, pv_workspace_id = w,
                                 pv_version = number, pv_rules = rules, pv_rules_hash = digest,
                                 pv_created_by = take 200 (strip created_by), pv_created_at = now\<rparr>;
                     db1 = env 0 db;
                     loaded = row_of pa_workspace_id (policy_assignments db1) w;
                     db2 = (if activate then env 1 db1 else db1);
                     conflict = Inl (ValueError ''policy version changed concurrently; reload the policy and retry'')
                 in if commit_policy [] version False created_by now None db1 = None then (conflict, db1)
                    else case commit_policy [] version activate created_by now loaded db2 of
                      None \<Rightarrow> (conflict, db2)
                    | Some db3 \<Rightarrow> (version_from_record version, db3))"

definition activate_policy ::
  "policy_hashing \<Rightarrow> (nat \<Rightarrow> 'x policy_db_scheme \<Rightarrow> 'x policy_db_scheme) \<Rightarrow> time \<Rightarrow> string \<Rightarrow> string \<Rightarrow> int \<Rightarrow>
   string \<Rightarrow> time \<Rightarrow> 'x policy_db_scheme \<Rightarrow> (effective_policy, 'x policy_db_scheme) outcome" where
  "activate_policy h env clock w policy_id version assigned_by now db =
     (if strip assigned_by = [] then (Inl (ValueError ''assigned_by is required''), db)
      else case ensure_builtins h (env 0) w now db of
        (Inl e, db1) \<Rightarrow> (Inl e, db1)
      | (Inr _, db1) \<Rightarrow>
          (case first_where (\<lambda>v. pv_workspace_id v = w \<and> pv_policy_id v = policy_id \<and> pv_version v = version)
                  (policy_versions db1) of
             None \<Rightarrow> (Inl (LookupError ''policy version not found in workspace''), db1)
           | Some v \<Rightarrow>
               let loaded = row_of pa_workspace_id (policy_assignments db1) w; db2 = env 1 db1
               in case set_assignment w (pv_id v) assigned_by now loaded (policy_assignments db2) of
                    None \<Rightarrow> (Inl IntegrityError, db2)
                  | Some as \<Rightarrow> effective_policy_of h (env 2) clock w (db2\<lparr>policy_assignments := as\<rparr>)))"

end
