(* ===== verification/PolicyHistory.thy ===== *)
theory PolicyHistory
  imports PolicyStore Lifecycle
begin

text \<open>
  Properties of the policy store. \<open>store_step\<close> is the system of committed transactions on its three
  tables; every operation of \<open>PolicyStore\<close> runs as such transactions, whatever transactions of
  other processes run in between (\<open>rely\<close>), so the invariant \<open>store_ok\<close> and the growth of the
  history hold in every interleaving.
\<close>

section \<open>The store and its transactions\<close>

record policy_store =
  st_packs :: "crypto_policy_pack tbl"
  st_versions :: "crypto_policy_version tbl"
  st_assignments :: "policy_assignment tbl"

definition store_of :: "'x policy_db_scheme \<Rightarrow> policy_store" where
  "store_of db = \<lparr>st_packs = policy_packs db, st_versions = policy_versions db, st_assignments = policy_assignments db\<rparr>"

lemma store_of_simps [simp]: "st_packs (store_of db) = policy_packs db"
    "st_versions (store_of db) = policy_versions db" "st_assignments (store_of db) = policy_assignments db"
  by (simp_all add: store_of_def)

text \<open>Two ids of built-in rows of the workspaces \<open>W\<close> never collide, and digests have 64 characters.\<close>

definition builtin_values :: "string set" where
  "builtin_values = (\<lambda>b. ''builtin-policy:'' @ fst b) ` set builtin_packs \<union>
     (\<lambda>b. ''builtin-policy:'' @ fst b @ '':v1'') ` set builtin_packs"

definition ids_ok :: "policy_hashing \<Rightarrow> string set \<Rightarrow> bool" where
  "ids_ok h W = (inj_on (\<lambda>(w, v). stable_id h w v) (W \<times> builtin_values) \<and> (\<forall>s. length (pl_sha256 h s) = 64))"

definition version_ok :: "policy_hashing \<Rightarrow> crypto_policy_version \<Rightarrow> bool" where
  "version_ok h v = (1 \<le> pv_version v \<and> validate_rules (pv_rules v) = Inr (pv_rules v) \<and>
     pv_rules_hash v = rules_hash h (pv_rules v))"

text \<open>The built-in packs of a workspace are there, in version 1, and the workspace has an assignment.\<close>

definition has_builtin :: "policy_hashing \<Rightarrow> string \<Rightarrow> policy_store \<Rightarrow> string \<times> string \<times> string \<times> crypto_policy_rules \<Rightarrow> bool" where
  "has_builtin h w s b =
     ((\<exists>p \<in> set (st_packs s). pp_id p = builtin_policy_id h w (fst b) \<and> pp_workspace_id p = w \<and> pp_slug p = fst b \<and> pp_built_in p) \<and>
      (\<exists>v \<in> set (st_versions s). pv_id v = builtin_version_id h w (fst b) \<and> pv_workspace_id v = w \<and>
         pv_policy_id v = builtin_policy_id h w (fst b) \<and> pv_version v = 1 \<and> pv_rules v = snd (snd (snd b))))"

definition seeded :: "policy_hashing \<Rightarrow> string \<Rightarrow> policy_store \<Rightarrow> bool" where
  "seeded h w s = ((\<forall>b \<in> set builtin_packs. has_builtin h w s b) \<and> (\<exists>a \<in> set (st_assignments s). pa_workspace_id a = w))"

definition builtin_pack_row :: "policy_hashing \<Rightarrow> crypto_policy_pack \<Rightarrow> bool" where
  "builtin_pack_row h p = (\<exists>b \<in> set builtin_packs. pp_id p = builtin_policy_id h (pp_workspace_id p) (fst b) \<and> pp_slug p = fst b)"

definition builtin_version_row :: "policy_hashing \<Rightarrow> crypto_policy_version \<Rightarrow> bool" where
  "builtin_version_row h v = (\<exists>b \<in> set builtin_packs. pv_id v = builtin_version_id h (pv_workspace_id v) (fst b) \<and>
     pv_policy_id v = builtin_policy_id h (pv_workspace_id v) (fst b) \<and> pv_version v = 1)"

definition store_keyed :: "policy_store \<Rightarrow> bool" where
  "store_keyed s =
     (keyed pp_id (st_packs s) \<and> keyed (\<lambda>p. (pp_workspace_id p, pp_slug p)) (st_packs s) \<and>
      keyed pv_id (st_versions s) \<and> keyed (\<lambda>v. (pv_policy_id v, pv_version v)) (st_versions s) \<and>
      keyed pa_workspace_id (st_assignments s))"

definition packs_ok :: "policy_hashing \<Rightarrow> string set \<Rightarrow> policy_store \<Rightarrow> bool" where
  "packs_ok h W s =
     (\<forall>p \<in> set (st_packs s). pp_workspace_id p \<in> W \<and> seeded h (pp_workspace_id p) s \<and>
        (if pp_built_in p then builtin_pack_row h p else length (pp_id p) = 36) \<and>
        (\<exists>v \<in> set (st_versions s). pv_policy_id v = pp_id p \<and> pv_version v = 1))"

definition versions_ok :: "policy_hashing \<Rightarrow> policy_store \<Rightarrow> bool" where
  "versions_ok h s =
     (\<forall>v \<in> set (st_versions s). version_ok h v \<and>
        (\<exists>p \<in> set (st_packs s). pp_id p = pv_policy_id v \<and> pp_workspace_id p = pv_workspace_id v) \<and>
        (builtin_version_row h v \<or> length (pv_id v) = 36 \<and> length (pv_policy_id v) = 36) \<and>
        (1 < pv_version v \<longrightarrow> (\<exists>u \<in> set (st_versions s). pv_policy_id u = pv_policy_id v \<and>
           pv_version v = pv_version u + 1 \<and> pv_rules_hash u \<noteq> pv_rules_hash v)))"

definition assignments_ok :: "policy_store \<Rightarrow> bool" where
  "assignments_ok s =
     (\<forall>a \<in> set (st_assignments s). \<exists>v \<in> set (st_versions s). pv_id v = pa_policy_version_id a \<and>
        pv_workspace_id v = pa_workspace_id a)"

definition store_ok :: "policy_hashing \<Rightarrow> string set \<Rightarrow> policy_store \<Rightarrow> bool" where
  "store_ok h W s = (store_keyed s \<and> packs_ok h W s \<and> versions_ok h s \<and> assignments_ok s)"

text \<open>An assignment table after an activation of a version of \<open>w\<close>, or as it was.\<close>

definition reassigned :: "string \<Rightarrow> string \<Rightarrow> policy_assignment tbl \<Rightarrow> policy_assignment tbl \<Rightarrow> bool" where
  "reassigned w vid t t' = (t' = t \<or> (\<exists>by now loaded. set_assignment w vid by now loaded t = Some t'))"

inductive store_step :: "policy_hashing \<Rightarrow> string set \<Rightarrow> policy_store \<Rightarrow> policy_store \<Rightarrow> bool"
  for h :: policy_hashing and W :: "string set" where
  seed: "store_step h W s (s\<lparr>st_packs := ps, st_versions := vs, st_assignments := as\<rparr>)"
    if "w \<in> W" "insert_rows pack_conflict (map (builtin_pack h w now) builtin_packs) (st_packs s) = Some ps"
      "insert_rows version_conflict (map (builtin_version h w now) builtin_packs) (st_versions s) = Some vs"
      "insert_rows assignment_conflict [default_assignment h w now] (st_assignments s) = Some as"
| new_pack: "store_step h W s (s\<lparr>st_packs := ps, st_versions := vs, st_assignments := as\<rparr>)"
    if "seeded h (pp_workspace_id p) s" "\<not> pp_built_in p" "length (pp_id p) = 36"
      "insert_row pack_conflict p (st_packs s) = Some ps"
      "length (pv_id v) = 36" "pv_policy_id v = pp_id p" "pv_workspace_id v = pp_workspace_id p" "pv_version v = 1"
      "version_ok h v" "insert_row version_conflict v (st_versions s) = Some vs"
      "reassigned (pv_workspace_id v) (pv_id v) (st_assignments s) as"
| new_version: "store_step h W s (s\<lparr>st_versions := vs, st_assignments := as\<rparr>)"
    if "p \<in> set (st_packs s)" "\<not> pp_built_in p" "length (pv_id v) = 36" "pv_policy_id v = pp_id p"
      "pv_workspace_id v = pp_workspace_id p" "version_ok h v"
      "u \<in> set (st_versions s)" "pv_policy_id u = pp_id p" "pv_version v = pv_version u + 1" "pv_rules_hash u \<noteq> pv_rules_hash v"
      "insert_row version_conflict v (st_versions s) = Some vs"
      "reassigned (pv_workspace_id v) (pv_id v) (st_assignments s) as"
| activation: "store_step h W s (s\<lparr>st_assignments := as\<rparr>)"
    if "v \<in> set (st_versions s)" "reassigned (pv_workspace_id v) (pv_id v) (st_assignments s) as"

section \<open>The invariant\<close>

lemma insert_rows_Some:
  "insert_rows conflict rs t = Some t' \<Longrightarrow> t' = t @ rs \<and> (\<forall>r \<in> set rs. \<forall>x \<in> set t. \<not> conflict x r)"
proof (induction rs arbitrary: t)
  case (Cons r rs)
  then obtain t1 where t1: "insert_row conflict r t = Some t1" "insert_rows conflict rs t1 = Some t'"
    by (auto split: option.splits)
  from Cons.IH [OF t1(2)] t1(1) show ?case by (auto simp: insert_row_Some)
qed simp

lemma reassigned_rows:
  assumes "reassigned w vid t t'" "keyed pa_workspace_id t"
  shows "keyed pa_workspace_id t' \<and> (\<forall>a \<in> set t. \<exists>a' \<in> set t'. pa_workspace_id a' = pa_workspace_id a) \<and>
    (\<forall>a \<in> set t'. (\<exists>o' \<in> set t. pa_workspace_id o' = pa_workspace_id a \<and> pa_policy_version_id o' = pa_policy_version_id a) \<or>
       pa_workspace_id a = w \<and> pa_policy_version_id a = vid)"
proof (cases "t' = t")
  case False
  then obtain by' now loaded where set: "set_assignment w vid by' now loaded t = Some t'"
    using assms(1) by (auto simp: reassigned_def)
  show ?thesis
  proof (cases loaded)
    case None
    with set assms(2) show ?thesis
      by (auto simp: set_assignment_def insert_row_Some keyed_append row_of_None assignment_conflict_def)
  next
    case (Some a)
    define f where "f = (\<lambda>r :: policy_assignment. r\<lparr>pa_policy_version_id := flush (pa_policy_version_id a) vid (pa_policy_version_id r),
           pa_assigned_by := flush (pa_assigned_by a) (take 200 (strip by')) (pa_assigned_by r),
           pa_assigned_at := flush (pa_assigned_at a) now (pa_assigned_at r)\<rparr>)"
    have t': "t' = update_where (\<lambda>r. pa_workspace_id r = w) f t"
      using set Some by (simp add: set_assignment_def f_def)
    have f: "pa_workspace_id (f r) = pa_workspace_id r" "pa_policy_version_id (f r) \<in> {vid, pa_policy_version_id r}" for r
      by (simp_all add: f_def flush_def)
    have "keyed pa_workspace_id t'" using assms(2) f(1) by (simp add: t' keyed_update)
    moreover have "\<exists>a' \<in> set t'. pa_workspace_id a' = pa_workspace_id o'" if "o' \<in> set t" for o'
      using that f(1) [of o'] by (intro bexI [of _ "if pa_workspace_id o' = w then f o' else o'"]) (auto simp: t' set_update_where)
    moreover have "(\<exists>o' \<in> set t. pa_workspace_id o' = pa_workspace_id a' \<and> pa_policy_version_id o' = pa_policy_version_id a') \<or>
        pa_workspace_id a' = w \<and> pa_policy_version_id a' = vid" if a': "a' \<in> set t'" for a'
    proof -
      obtain r where r: "r \<in> set t" "a' = (if pa_workspace_id r = w then f r else r)"
        using a' by (auto simp: t' set_update_where)
      with f [of r] show ?thesis by (cases "pa_workspace_id r = w") auto
    qed
    ultimately show ?thesis by blast
  qed
qed (use assms(2) in auto)

lemma insert_rows_keyed:
  "insert_rows conflict rs t = Some t' \<Longrightarrow> keyed key t \<Longrightarrow> (\<And>x n. key x = key n \<Longrightarrow> conflict x n) \<Longrightarrow> keyed key t'"
proof (induction rs arbitrary: t)
  case (Cons r rs)
  then obtain t1 where t1: "insert_row conflict r t = Some t1" "insert_rows conflict rs t1 = Some t'"
    by (auto split: option.splits)
  have "keyed key t1"
    using t1(1) Cons.prems(2,3) by (auto simp: insert_row_Some keyed_append row_of_None)
  with t1(2) Cons show ?case by blast
qed simp

lemma insert_rows_single: "insert_rows conflict [r] t = insert_row conflict r t"
  by (simp split: option.split)

lemma insert_row_keyed:
  "insert_row conflict r t = Some t' \<Longrightarrow> keyed key t \<Longrightarrow> (\<And>x n. key x = key n \<Longrightarrow> conflict x n) \<Longrightarrow> keyed key t'"
  using insert_rows_keyed [of conflict "[r]" t t' key] by simp

text \<open>The history only grows.\<close>

definition store_grows :: "policy_store \<Rightarrow> policy_store \<Rightarrow> bool" where
  "store_grows s s' =
     (prefix (st_packs s) (st_packs s') \<and> prefix (st_versions s) (st_versions s') \<and>
      pa_workspace_id ` set (st_assignments s) \<subseteq> pa_workspace_id ` set (st_assignments s'))"

lemma store_grows_refl [simp]: "store_grows s s"
  by (simp add: store_grows_def)

lemma store_grows_trans: "store_grows a b \<Longrightarrow> store_grows b c \<Longrightarrow> store_grows a c"
  by (auto simp: store_grows_def intro: prefix_order.trans)

lemma prefix_set: "prefix xs ys \<Longrightarrow> x \<in> set xs \<Longrightarrow> x \<in> set ys"
  by (auto simp: prefix_def)

lemma store_grows_rows:
  "store_grows s s' \<Longrightarrow> p \<in> set (st_packs s) \<Longrightarrow> p \<in> set (st_packs s')"
  "store_grows s s' \<Longrightarrow> v \<in> set (st_versions s) \<Longrightarrow> v \<in> set (st_versions s')"
  by (auto simp: store_grows_def intro: prefix_set)

lemma seeded_grows:
  assumes "seeded h w s" "store_grows s s'"
  shows "seeded h w s'"
proof -
  have "\<exists>a \<in> set (st_assignments s'). pa_workspace_id a = w"
    using assms unfolding seeded_def store_grows_def by (metis (no_types, lifting) image_iff subset_iff)
  moreover have "has_builtin h w s' b" if "b \<in> set builtin_packs" for b
  proof -
    have "has_builtin h w s b" using assms(1) that by (simp add: seeded_def)
    then show ?thesis unfolding has_builtin_def using store_grows_rows [OF assms(2)] by blast
  qed
  ultimately show ?thesis by (simp add: seeded_def)
qed

lemma store_step_grows:
  assumes "store_step h W s s'" "keyed pa_workspace_id (st_assignments s)"
  shows "store_grows s s'"
  using assms(1)
proof cases
  case (seed w now ps vs as)
  then show ?thesis
    using insert_rows_Some [OF seed(3)] insert_rows_Some [OF seed(4)] insert_rows_Some [OF seed(5)]
    by (auto simp: store_grows_def)
next
  case (new_pack p ps v vs as)
  with reassigned_rows [OF new_pack(12) assms(2)] show ?thesis
    by (auto simp: store_grows_def insert_row_Some image_iff) metis
next
  case (new_version p v u vs as)
  with reassigned_rows [OF new_version(13) assms(2)] show ?thesis
    by (auto simp: store_grows_def insert_row_Some image_iff) metis
next
  case (activation v as)
  with reassigned_rows [OF activation(3) assms(2)] show ?thesis
    by (auto simp: store_grows_def image_iff) metis
qed

lemma builtin_rules_valid: "\<forall>b \<in> set builtin_packs. validate_rules (snd (snd (snd b))) = Inr (snd (snd (snd b)))"
proof -
  have "list_all (\<lambda>b. validate_rules (snd (snd (snd b))) = Inr (snd (snd (snd b)))) builtin_packs"
    by code_simp
  then show ?thesis by (simp add: list_all_iff)
qed

lemma builtin_fields:
  "pp_id (builtin_pack h w now b) = builtin_policy_id h w (fst b)" "pp_workspace_id (builtin_pack h w now b) = w"
  "pp_slug (builtin_pack h w now b) = fst b" "pp_built_in (builtin_pack h w now b)"
  "pv_id (builtin_version h w now b) = builtin_version_id h w (fst b)"
  "pv_policy_id (builtin_version h w now b) = builtin_policy_id h w (fst b)"
  "pv_workspace_id (builtin_version h w now b) = w" "pv_version (builtin_version h w now b) = 1"
  "pv_rules (builtin_version h w now b) = snd (snd (snd b))"
  "pv_rules_hash (builtin_version h w now b) = rules_hash h (snd (snd (snd b)))"
  by (simp_all add: builtin_pack_def builtin_version_def case_prod_unfold)

lemma recommended_builtin: "\<exists>b \<in> set builtin_packs. fst b = ''cryptohawk-recommended''"
  by (simp add: builtin_packs_def)

lemma seeded_by_rows:
  assumes "st_packs s = ps @ map (builtin_pack h w now) builtin_packs"
    and "st_versions s = vs @ map (builtin_version h w now) builtin_packs"
    and "st_assignments s = as @ [default_assignment h w now]"
  shows "seeded h w s"
  unfolding seeded_def has_builtin_def
proof (intro conjI ballI)
  fix b assume b: "b \<in> set builtin_packs"
  show "\<exists>p \<in> set (st_packs s). pp_id p = builtin_policy_id h w (fst b) \<and> pp_workspace_id p = w \<and> pp_slug p = fst b \<and> pp_built_in p"
    using b by (intro bexI [of _ "builtin_pack h w now b"]) (simp_all add: builtin_fields assms)
  show "\<exists>v \<in> set (st_versions s). pv_id v = builtin_version_id h w (fst b) \<and> pv_workspace_id v = w \<and>
         pv_policy_id v = builtin_policy_id h w (fst b) \<and> pv_version v = 1 \<and> pv_rules v = snd (snd (snd b))"
    using b by (intro bexI [of _ "builtin_version h w now b"]) (simp_all add: builtin_fields assms)
qed (simp add: assms default_assignment_def)

lemma store_step_keyed:
  assumes "store_step h W s s'" "store_keyed s"
  shows "store_keyed s'"
proof -
  note keys = assms(2) [unfolded store_keyed_def]
  from assms(1) show ?thesis
  proof cases
    case (seed w now ps vs as)
    note rows = insert_rows_keyed [OF seed(3)] insert_rows_keyed [OF seed(4)] insert_rows_keyed [OF seed(5)]
    show ?thesis unfolding seed(1) store_keyed_def using keys
      by (auto intro!: rows simp: pack_conflict_def version_conflict_def assignment_conflict_def)
  next
    case (new_pack p ps v vs as)
    note rows = insert_row_keyed [OF new_pack(5)] insert_row_keyed [OF new_pack(11)]
    show ?thesis unfolding new_pack(1) store_keyed_def using keys reassigned_rows [OF new_pack(12)]
      by (auto intro!: rows simp: pack_conflict_def version_conflict_def)
  next
    case (new_version p v u vs as)
    note rows = insert_row_keyed [OF new_version(12)]
    show ?thesis unfolding new_version(1) store_keyed_def using keys reassigned_rows [OF new_version(13)]
      by (auto intro!: rows simp: version_conflict_def)
  next
    case (activation v as)
    show ?thesis unfolding activation(1) store_keyed_def using keys reassigned_rows [OF activation(3)] by auto
  qed
qed

text \<open>Rows that are already there stay in order when the store grows.\<close>

lemma pack_row_kept:
  assumes "store_grows s s'" "packs_ok h W s" "p \<in> set (st_packs s)"
  shows "pp_workspace_id p \<in> W \<and> seeded h (pp_workspace_id p) s' \<and>
    (if pp_built_in p then builtin_pack_row h p else length (pp_id p) = 36) \<and>
    (\<exists>v \<in> set (st_versions s'). pv_policy_id v = pp_id p \<and> pv_version v = 1)"
  using assms seeded_grows [OF _ assms(1)] store_grows_rows(2) [OF assms(1)] unfolding packs_ok_def by blast

definition version_row_ok :: "policy_hashing \<Rightarrow> policy_store \<Rightarrow> crypto_policy_version \<Rightarrow> bool" where
  "version_row_ok h s v =
     (version_ok h v \<and>
        (\<exists>p \<in> set (st_packs s). pp_id p = pv_policy_id v \<and> pp_workspace_id p = pv_workspace_id v) \<and>
        (builtin_version_row h v \<or> length (pv_id v) = 36 \<and> length (pv_policy_id v) = 36) \<and>
        (1 < pv_version v \<longrightarrow> (\<exists>u \<in> set (st_versions s). pv_policy_id u = pv_policy_id v \<and>
           pv_version v = pv_version u + 1 \<and> pv_rules_hash u \<noteq> pv_rules_hash v)))"

lemma versions_ok_rows: "versions_ok h s \<longleftrightarrow> (\<forall>v \<in> set (st_versions s). version_row_ok h s v)"
  by (simp add: versions_ok_def version_row_ok_def)

lemma version_row_kept: "store_grows s s' \<Longrightarrow> version_row_ok h s v \<Longrightarrow> version_row_ok h s' v"
  unfolding version_row_ok_def using store_grows_rows by blast

lemma assignments_kept:
  assumes "assignments_ok s" "reassigned (pv_workspace_id v) (pv_id v) (st_assignments s) (st_assignments s')"
    and "keyed pa_workspace_id (st_assignments s)" "v \<in> set (st_versions s')" "set (st_versions s) \<subseteq> set (st_versions s')"
  shows "assignments_ok s'"
  using reassigned_rows [OF assms(2,3)] assms(1,4,5) unfolding assignments_ok_def by (metis subset_iff)

lemma store_step_ok:
  assumes "store_step h W s s'" "store_ok h W s"
  shows "store_ok h W s'"
proof -
  note ok = assms(2) [unfolded store_ok_def]
  have keyed: "keyed pa_workspace_id (st_assignments s)" using ok by (simp add: store_keyed_def)
  have keyed': "store_keyed s'" by (rule store_step_keyed [OF assms(1)]) (use ok in simp)
  note grows = store_step_grows [OF assms(1) keyed]
  have old_packs: "pp_workspace_id p \<in> W \<and> seeded h (pp_workspace_id p) s' \<and>
      (if pp_built_in p then builtin_pack_row h p else length (pp_id p) = 36) \<and>
      (\<exists>v \<in> set (st_versions s'). pv_policy_id v = pp_id p \<and> pv_version v = 1)" if "p \<in> set (st_packs s)" for p
    by (rule pack_row_kept [OF grows]) (use ok that in simp_all)
  have old_versions: "version_row_ok h s' v" if "v \<in> set (st_versions s)" for v
    by (rule version_row_kept [OF grows]) (use ok that in \<open>simp add: versions_ok_rows\<close>)
  from assms(1) show ?thesis
  proof cases
    case (seed w now ps vs as)
    note rows = insert_rows_Some [OF seed(3)] insert_rows_Some [OF seed(4)] insert_rows_Some [OF seed(5)]
    have tables: "st_packs s' = st_packs s @ map (builtin_pack h w now) builtin_packs"
      "st_versions s' = st_versions s @ map (builtin_version h w now) builtin_packs"
      "st_assignments s' = st_assignments s @ [default_assignment h w now]"
      using rows by (simp_all add: seed(1))
    note new = seeded_by_rows [OF tables]
    have "packs_ok h W s'"
      unfolding packs_ok_def
    proof
      fix p assume "p \<in> set (st_packs s')"
      then consider "p \<in> set (st_packs s)" | b where "b \<in> set builtin_packs" "p = builtin_pack h w now b"
        by (auto simp: tables)
      then show "pp_workspace_id p \<in> W \<and> seeded h (pp_workspace_id p) s' \<and>
          (if pp_built_in p then builtin_pack_row h p else length (pp_id p) = 36) \<and>
          (\<exists>v \<in> set (st_versions s'). pv_policy_id v = pp_id p \<and> pv_version v = 1)"
      proof cases
        case 2
        then have "\<exists>v \<in> set (st_versions s'). pv_policy_id v = pp_id p \<and> pv_version v = 1"
          by (intro bexI [of _ "builtin_version h w now b"]) (simp_all add: tables builtin_fields)
        with 2 seed(2) new show ?thesis by (auto simp: builtin_fields builtin_pack_row_def)
      qed (rule old_packs)
    qed
    moreover have "version_row_ok h s' v" if "v \<in> set (st_versions s')" for v
    proof -
      from that consider "v \<in> set (st_versions s)" | b where "b \<in> set builtin_packs" "v = builtin_version h w now b"
        by (auto simp: tables)
      then show ?thesis
      proof cases
        case 2
        then have "\<exists>p \<in> set (st_packs s'). pp_id p = pv_policy_id v \<and> pp_workspace_id p = pv_workspace_id v"
          by (intro bexI [of _ "builtin_pack h w now b"]) (simp_all add: tables builtin_fields)
        with 2 builtin_rules_valid show ?thesis
          by (auto simp: version_row_ok_def version_ok_def builtin_fields builtin_version_row_def)
      qed (rule old_versions)
    qed
    moreover have "assignments_ok s'"
    proof -
      obtain b where "b \<in> set builtin_packs" "fst b = ''cryptohawk-recommended''" using recommended_builtin by blast
      then have "\<exists>v \<in> set (st_versions s'). pv_id v = pa_policy_version_id (default_assignment h w now) \<and>
          pv_workspace_id v = pa_workspace_id (default_assignment h w now)"
        by (intro bexI [of _ "builtin_version h w now b"]) (simp_all add: tables builtin_fields default_assignment_def)
      with ok show ?thesis unfolding assignments_ok_def by (auto simp: tables)
    qed
    ultimately show ?thesis using keyed' by (simp add: store_ok_def versions_ok_rows)
  next
    case (new_pack p ps v vs as)
    have as: "st_assignments s' = as" by (simp add: new_pack(1))
    have tables: "st_packs s' = st_packs s @ [p]" "st_versions s' = st_versions s @ [v]"
      using new_pack(5,11) by (simp_all add: new_pack(1) insert_row_Some)
    obtain q where q: "q \<in> set (st_packs s)" "pp_workspace_id q = pp_workspace_id p"
      using new_pack(2) builtin_packs_def unfolding seeded_def has_builtin_def by (metis list.set_intros(1))
    have "packs_ok h W s'"
      unfolding packs_ok_def tables
      using old_packs old_packs [OF q(1)] q(2) new_pack(3,4,7,9) by (auto simp: tables)
    moreover have "version_row_ok h s' v"
      using new_pack(4,6-10) by (auto simp: version_row_ok_def tables)
    then have "versions_ok h s'" using old_versions by (simp add: versions_ok_rows tables)
    moreover have "assignments_ok s'"
      by (rule assignments_kept [of s v]) (use ok keyed new_pack(12) in \<open>auto simp: tables as\<close>)
    ultimately show ?thesis using keyed' by (simp add: store_ok_def)
  next
    case (new_version p v u vs as)
    have as: "st_assignments s' = as" by (simp add: new_version(1))
    have tables: "st_packs s' = st_packs s" "st_versions s' = st_versions s @ [v]"
      using new_version(12) by (simp_all add: new_version(1) insert_row_Some)
    have "length (pp_id p) = 36" using ok new_version(2,3) by (auto simp: packs_ok_def)
    with new_version(2,4-11) have "version_row_ok h s' v" by (auto simp: version_row_ok_def tables)
    then have "versions_ok h s'" using old_versions by (simp add: versions_ok_rows tables)
    moreover have "packs_ok h W s'" unfolding packs_ok_def using old_packs by (simp add: tables(1))
    moreover have "assignments_ok s'"
      by (rule assignments_kept [of s v]) (use ok keyed new_version(13) in \<open>auto simp: tables as\<close>)
    ultimately show ?thesis using keyed' by (simp add: store_ok_def)
  next
    case (activation v as)
    have tables: "st_packs s' = st_packs s" "st_versions s' = st_versions s" by (simp_all add: activation(1))
    have "assignments_ok s'"
      by (rule assignments_kept [of s v]) (use ok keyed activation(2,3) in \<open>simp_all add: activation(1)\<close>)
    moreover have "versions_ok h s'" unfolding versions_ok_rows using old_versions by (simp add: tables)
    moreover have "packs_ok h W s'" unfolding packs_ok_def using old_packs by (simp add: tables(1))
    ultimately show ?thesis using keyed' by (simp add: store_ok_def)
  qed
qed

interpretation policy: step_system "store_step h W" "store_ok h W"
  by unfold_locales (rule store_step_ok)

lemma steps_grow: "(store_step h W)\<^sup>*\<^sup>* s s' \<Longrightarrow> store_ok h W s \<Longrightarrow> store_grows s s'"
  by (rule policy.steps_relate [where R = store_grows])
    (auto intro: store_grows_trans store_step_grows simp: store_ok_def store_keyed_def)

section \<open>The built-in packs\<close>

definition rely :: "policy_hashing \<Rightarrow> string set \<Rightarrow> ('x policy_db_scheme \<Rightarrow> 'x policy_db_scheme) \<Rightarrow> bool" where
  "rely h W env = (\<forall>c. (store_step h W)\<^sup>*\<^sup>* (store_of c) (store_of (env c)))"

lemma stable_id_length: "ids_ok h W \<Longrightarrow> length (stable_id h w v) = 32"
  by (simp add: ids_ok_def stable_id_def)

lemma builtin_slugs_distinct: "distinct (map fst builtin_packs)"
  by (simp add: builtin_packs_def)

lemma builtin_slugs: "b \<in> set builtin_packs \<Longrightarrow> c \<in> set builtin_packs \<Longrightarrow> fst b = fst c \<Longrightarrow> b = c"
  using builtin_slugs_distinct by (auto simp: distinct_map dest: inj_onD)

lemma builtin_ids_apart:
  assumes "ids_ok h W" "w \<in> W" "w' \<in> W" "b \<in> set builtin_packs" "c \<in> set builtin_packs"
  shows "builtin_policy_id h w (fst b) = builtin_policy_id h w' (fst c) \<longleftrightarrow> w = w' \<and> b = c"
    "builtin_version_id h w (fst b) = builtin_version_id h w' (fst c) \<longleftrightarrow> w = w' \<and> b = c"
proof -
  note inj = assms(1) [unfolded ids_ok_def, THEN conjunct1, unfolded inj_on_def, rule_format]
  have mem: "''builtin-policy:'' @ fst b \<in> builtin_values" "''builtin-policy:'' @ fst b @ '':v1'' \<in> builtin_values"
    if "b \<in> set builtin_packs" for b using that by (auto simp: builtin_values_def)
  show "builtin_policy_id h w (fst b) = builtin_policy_id h w' (fst c) \<longleftrightarrow> w = w' \<and> b = c"
    using inj [of "(w, ''builtin-policy:'' @ fst b)" "(w', ''builtin-policy:'' @ fst c)"] assms(2-5) mem builtin_slugs [of b c]
    by (auto simp: builtin_policy_id_def)
  show "builtin_version_id h w (fst b) = builtin_version_id h w' (fst c) \<longleftrightarrow> w = w' \<and> b = c"
    using inj [of "(w, ''builtin-policy:'' @ fst b @ '':v1'')" "(w', ''builtin-policy:'' @ fst c @ '':v1'')"] assms(2-5) mem builtin_slugs [of b c]
    by (auto simp: builtin_version_id_def)
qed

lemma store_packD:
  assumes "store_ok h W s" "p \<in> set (st_packs s)"
  shows "pp_workspace_id p \<in> W" "seeded h (pp_workspace_id p) s" "pp_built_in p \<Longrightarrow> builtin_pack_row h p"
    "\<not> pp_built_in p \<Longrightarrow> length (pp_id p) = 36"
  using assms by (simp_all add: store_ok_def packs_ok_def)

lemma store_versionD:
  assumes "store_ok h W s" "v \<in> set (st_versions s)"
  obtains p where "version_row_ok h s v" "p \<in> set (st_packs s)" "pp_id p = pv_policy_id v" "pp_workspace_id p = pv_workspace_id v"
proof -
  have "version_row_ok h s v" using assms by (simp add: store_ok_def versions_ok_rows)
  with that show ?thesis by (auto simp: version_row_ok_def)
qed

lemma store_assignmentD:
  assumes "store_ok h W s" "a \<in> set (st_assignments s)"
  obtains v where "v \<in> set (st_versions s)" "pv_id v = pa_policy_version_id a" "pv_workspace_id v = pa_workspace_id a"
  using assms unfolding store_ok_def assignments_ok_def by blast

text \<open>Before a workspace is seeded nothing in the store belongs to it or has one of its built-in ids.\<close>

lemma unseeded:
  assumes "store_ok h W s" "ids_ok h W" "w \<in> W" "\<not> seeded h w s"
  shows "p \<in> set (st_packs s) \<Longrightarrow> pp_workspace_id p \<noteq> w"
    and "v \<in> set (st_versions s) \<Longrightarrow> pv_workspace_id v \<noteq> w"
    and "a \<in> set (st_assignments s) \<Longrightarrow> pa_workspace_id a \<noteq> w"
    and "p \<in> set (st_packs s) \<Longrightarrow> b \<in> set builtin_packs \<Longrightarrow> pp_id p \<noteq> builtin_policy_id h w (fst b)"
    and "v \<in> set (st_versions s) \<Longrightarrow> b \<in> set builtin_packs \<Longrightarrow> pv_id v \<noteq> builtin_version_id h w (fst b)"
    and "v \<in> set (st_versions s) \<Longrightarrow> b \<in> set builtin_packs \<Longrightarrow> pv_policy_id v \<noteq> builtin_policy_id h w (fst b)"
proof -
  show pack: "pp_workspace_id p \<noteq> w" if "p \<in> set (st_packs s)" for p
    using store_packD(2) [OF assms(1) that] assms(4) by blast
  show version: "pv_workspace_id v \<noteq> w" if "v \<in> set (st_versions s)" for v
    by (rule store_versionD [OF assms(1) that]) (use pack in metis)
  show "pa_workspace_id a \<noteq> w" if "a \<in> set (st_assignments s)"
    by (rule store_assignmentD [OF assms(1) that]) (use version in metis)
  show pack_id: "pp_id p \<noteq> builtin_policy_id h w (fst b)" if p: "p \<in> set (st_packs s)" and b: "b \<in> set builtin_packs" for p b
  proof (cases "pp_built_in p")
    case True
    then obtain c where "c \<in> set builtin_packs" "pp_id p = builtin_policy_id h (pp_workspace_id p) (fst c)"
      using store_packD(3) [OF assms(1) p] unfolding builtin_pack_row_def by blast
    then show ?thesis
      using b builtin_ids_apart(1) [OF assms(2) store_packD(1) [OF assms(1) p] assms(3), of c b] pack [OF p] by simp
  next
    case False
    then have "length (pp_id p) = 36" by (rule store_packD(4) [OF assms(1) p])
    then show ?thesis using stable_id_length [OF assms(2)] unfolding builtin_policy_id_def by auto
  qed
  show "pv_id v \<noteq> builtin_version_id h w (fst b)" if v: "v \<in> set (st_versions s)" and b: "b \<in> set builtin_packs"
  proof (rule store_versionD [OF assms(1) v])
    fix p assume p: "version_row_ok h s v" "p \<in> set (st_packs s)" "pp_workspace_id p = pv_workspace_id v"
    show ?thesis
    proof (cases "builtin_version_row h v")
      case True
      then obtain c where "c \<in> set builtin_packs" "pv_id v = builtin_version_id h (pv_workspace_id v) (fst c)"
        unfolding builtin_version_row_def by blast
      then show ?thesis
        using b builtin_ids_apart(2) [OF assms(2) store_packD(1) [OF assms(1) p(2)] assms(3), of c b] version [OF v]
        by (simp add: p(3))
    next
      case False
      then have "length (pv_id v) = 36" using p(1) by (simp add: version_row_ok_def)
      then show ?thesis using stable_id_length [OF assms(2)] unfolding builtin_version_id_def by auto
    qed
  qed
  show "pv_policy_id v \<noteq> builtin_policy_id h w (fst b)" if "v \<in> set (st_versions s)" "b \<in> set builtin_packs"
    by (rule store_versionD [OF assms(1) that(1)]) (use that(2) pack_id in metis)
qed

lemma fold_builtin_seeded:
  assumes "\<And>b. b \<in> set bs \<Longrightarrow> has_builtin h w (store_of db) b"
  shows "fold (add_builtin h w now db) bs ([], []) = ([], [])"
  using assms
proof (induction bs)
  case (Cons b bs)
  have "has_builtin h w (store_of db) b" by (rule Cons.prems) simp
  then have "row_of pp_id (policy_packs db) (builtin_policy_id h w (fst b)) \<noteq> None"
    "row_of pv_id (policy_versions db) (builtin_version_id h w (fst b)) \<noteq> None"
    unfolding has_builtin_def store_of_simps row_of_None by blast+
  then have "add_builtin h w now db b ([], []) = ([], [])" by (simp add: add_builtin_def builtin_fields)
  with Cons show ?case by simp
qed simp

lemma fold_builtin_fresh:
  assumes "\<And>p b. p \<in> set (policy_packs db) \<Longrightarrow> b \<in> set builtin_packs \<Longrightarrow> pp_id p \<noteq> builtin_policy_id h w (fst b)"
    and "\<And>v b. v \<in> set (policy_versions db) \<Longrightarrow> b \<in> set builtin_packs \<Longrightarrow> pv_id v \<noteq> builtin_version_id h w (fst b)"
    and "ids_ok h W" "w \<in> W" "distinct bs" "set bs \<subseteq> set builtin_packs" "set done' \<subseteq> set builtin_packs" "set bs \<inter> set done' = {}"
  shows "fold (add_builtin h w now db) bs (map (builtin_pack h w now) done', map (builtin_version h w now) done') =
    (map (builtin_pack h w now) (done' @ bs), map (builtin_version h w now) (done' @ bs))"
  using assms(5-8)
proof (induction bs arbitrary: done')
  case (Cons b bs)
  have b: "b \<in> set builtin_packs" using Cons.prems by simp
  have "builtin_policy_id h w (fst c) \<noteq> builtin_policy_id h w (fst b)" "builtin_version_id h w (fst c) \<noteq> builtin_version_id h w (fst b)"
    if "c \<in> set done'" for c
    using that builtin_ids_apart [OF assms(3,4,4) _ b, of c] Cons.prems by auto
  then have "row_of pp_id (policy_packs db @ map (builtin_pack h w now) done') (builtin_policy_id h w (fst b)) = None"
    "row_of pv_id (policy_versions db @ map (builtin_version h w now) done') (builtin_version_id h w (fst b)) = None"
    using assms(1) [OF _ b] assms(2) [OF _ b] by (simp_all add: row_of_None builtin_fields ball_Un)
  then have "add_builtin h w now db b (map (builtin_pack h w now) done', map (builtin_version h w now) done') =
      (map (builtin_pack h w now) (done' @ [b]), map (builtin_version h w now) (done' @ [b]))"
    by (simp add: add_builtin_def builtin_fields)
  with Cons.IH [of "done' @ [b]"] Cons.prems show ?case by auto
qed simp

lemma insert_rows_apart:
  "\<forall>r \<in> set rs. \<forall>x \<in> set t. \<not> conflict x r \<Longrightarrow> sorted_wrt (\<lambda>x r. \<not> conflict x r) rs \<Longrightarrow>
     insert_rows conflict rs t = Some (t @ rs)"
proof (induction rs arbitrary: t)
  case (Cons r rs)
  then have "insert_row conflict r t = Some (t @ [r])" by (auto simp: insert_row_Some)
  with Cons.IH [of "t @ [r]"] Cons.prems show ?case by auto
qed simp

lemma insert_builtins_fresh:
  assumes "store_ok h W s" "ids_ok h W" "w \<in> W" "\<not> seeded h w s"
  shows "insert_rows pack_conflict (map (builtin_pack h w now) builtin_packs) (st_packs s) =
      Some (st_packs s @ map (builtin_pack h w now) builtin_packs)"
    "insert_rows version_conflict (map (builtin_version h w now) builtin_packs) (st_versions s) =
      Some (st_versions s @ map (builtin_version h w now) builtin_packs)"
    "insert_rows assignment_conflict [default_assignment h w now] (st_assignments s) =
      Some (st_assignments s @ [default_assignment h w now])"
proof -
  note none = unseeded [OF assms]
  have apart: "sorted_wrt (\<lambda>b c. b \<in> set builtin_packs \<and> c \<in> set builtin_packs \<and> b \<noteq> c) builtin_packs"
    by (simp add: builtin_packs_def)
  show "insert_rows pack_conflict (map (builtin_pack h w now) builtin_packs) (st_packs s) =
      Some (st_packs s @ map (builtin_pack h w now) builtin_packs)"
    by (rule insert_rows_apart; simp add: sorted_wrt_map)
      (use none in \<open>fastforce simp: pack_conflict_def builtin_fields\<close>,
       rule sorted_wrt_mono_rel [OF _ apart],
       use builtin_ids_apart [OF assms(2,3,3)] builtin_slugs in \<open>auto simp: pack_conflict_def builtin_fields\<close>)
  show "insert_rows version_conflict (map (builtin_version h w now) builtin_packs) (st_versions s) =
      Some (st_versions s @ map (builtin_version h w now) builtin_packs)"
    by (rule insert_rows_apart; simp add: sorted_wrt_map)
      (use none in \<open>fastforce simp: version_conflict_def builtin_fields\<close>,
       rule sorted_wrt_mono_rel [OF _ apart],
       use builtin_ids_apart [OF assms(2,3,3)] in \<open>auto simp: version_conflict_def builtin_fields\<close>)
  show "insert_rows assignment_conflict [default_assignment h w now] (st_assignments s) =
      Some (st_assignments s @ [default_assignment h w now])"
    by (rule insert_rows_apart) (use none(3) in \<open>auto simp: assignment_conflict_def default_assignment_def\<close>)
qed

lemma seeded_complete:
  assumes "store_ok h W (store_of db)" "seeded h w (store_of db)"
  shows "builtins_complete w db"
proof -
  have "set (map pp_slug (filter (\<lambda>p. pp_workspace_id p = w \<and> pp_built_in p) (policy_packs db))) = set (map fst builtin_packs)"
  proof
    show "set (map pp_slug (filter (\<lambda>p. pp_workspace_id p = w \<and> pp_built_in p) (policy_packs db))) \<subseteq> set (map fst builtin_packs)"
      using store_packD(3) [OF assms(1)] by (fastforce simp: builtin_pack_row_def)
    show "set (map fst builtin_packs) \<subseteq> set (map pp_slug (filter (\<lambda>p. pp_workspace_id p = w \<and> pp_built_in p) (policy_packs db)))"
    proof
      fix x assume "x \<in> set (map fst builtin_packs)"
      then obtain b where "b \<in> set builtin_packs" "x = fst b" by auto
      with assms(2) obtain p where "p \<in> set (policy_packs db)" "pp_workspace_id p = w" "pp_slug p = x" "pp_built_in p"
        unfolding seeded_def has_builtin_def store_of_simps by metis
      then show "x \<in> set (map pp_slug (filter (\<lambda>p. pp_workspace_id p = w \<and> pp_built_in p) (policy_packs db)))" by force
    qed
  qed
  moreover have "row_of pa_workspace_id (policy_assignments db) w \<noteq> None"
    using assms(2) by (auto simp: seeded_def row_of_None)
  ultimately show ?thesis by (simp add: builtins_complete_def)
qed

lemma store_of_update:
  "store_of (db\<lparr>policy_packs := ps, policy_versions := vs, policy_assignments := as\<rparr>) =
     (store_of db)\<lparr>st_packs := ps, st_versions := vs, st_assignments := as\<rparr>"
  by (simp add: store_of_def)

lemma store_of_assign: "store_of (db\<lparr>policy_assignments := as\<rparr>) = (store_of db)\<lparr>st_assignments := as\<rparr>"
  by (simp_all add: store_of_def)

lemma store_of_same: "db\<lparr>policy_packs := policy_packs db, policy_versions := policy_versions db,
    policy_assignments := policy_assignments db\<rparr> = db"
  by simp

text \<open>The first built-in row is refused once the workspace is seeded.\<close>

lemma insert_builtins_again:
  assumes "seeded h w s"
  shows "insert_rows pack_conflict (map (builtin_pack h w now) builtin_packs) (st_packs s) = None"
proof -
  obtain b bs where b: "builtin_packs = b # bs" by (simp add: builtin_packs_def)
  then have "b \<in> set builtin_packs" by (metis list.set_intros(1))
  then have "has_builtin h w s b" using assms unfolding seeded_def by blast
  then have "insert_row pack_conflict (builtin_pack h w now b) (st_packs s) = None"
    by (auto simp: insert_row_None has_builtin_def pack_conflict_def builtin_fields)
  then show ?thesis by (simp add: b)
qed

text \<open>What ensuring the built-in packs does: nothing for a seeded workspace, else it inserts their rows.\<close>

lemma ensure_seeded:
  assumes "seeded h w (store_of db)" "row_of ws_id (workspaces db) w \<noteq> None"
  shows "ensure_builtins h env w now db = (Inr (), env db)"
proof -
  have "fold (add_builtin h w now db) builtin_packs ([], []) = ([], [])"
    using assms(1) by (intro fold_builtin_seeded) (simp add: seeded_def)
  moreover obtain a where "row_of pa_workspace_id (policy_assignments db) w = Some a"
    using assms(1) by (cases "row_of pa_workspace_id (policy_assignments db) w") (auto simp: seeded_def row_of_None)
  ultimately show ?thesis using assms(2) by (simp add: ensure_builtins_def Let_def)
qed

lemma ensure_unseeded:
  assumes ok: "store_ok h W (store_of db)" and ids: "ids_ok h W" and w: "w \<in> W" and ok': "store_ok h W (store_of (env db))"
    and known: "row_of ws_id (workspaces db) w \<noteq> None" and "\<not> seeded h w (store_of db)"
  shows "ensure_builtins h env w now db =
    (Inr (), if seeded h w (store_of (env db)) then env db
       else (env db)\<lparr>policy_packs := policy_packs (env db) @ map (builtin_pack h w now) builtin_packs,
         policy_versions := policy_versions (env db) @ map (builtin_version h w now) builtin_packs,
         policy_assignments := policy_assignments (env db) @ [default_assignment h w now]\<rparr>)"
proof -
  note none = unseeded [OF ok ids w assms(6)]
  have rows: "fold (add_builtin h w now db) builtin_packs ([], []) =
      (map (builtin_pack h w now) builtin_packs, map (builtin_version h w now) builtin_packs)"
    using fold_builtin_fresh [of db h w W builtin_packs "[]" now] none ids w builtin_slugs_distinct
    by (simp add: distinct_map)
  have as: "row_of pa_workspace_id (policy_assignments db) w = None" using none(3) by (simp add: row_of_None)
  show ?thesis
  proof (cases "seeded h w (store_of (env db))")
    case True
    then show ?thesis
      using known seeded_complete [OF ok' True] insert_builtins_again [OF True, of now]
      by (simp add: ensure_builtins_def rows Let_def)
  next
    case False
    then show ?thesis
      using known insert_builtins_fresh [OF ok' ids w False, of now] by (simp add: ensure_builtins_def rows as Let_def)
  qed
qed

lemma ensure_builtins_refines:
  assumes ok: "store_ok h W (store_of db)" and ids: "ids_ok h W" and w: "w \<in> W" and env: "rely h W env"
    and known: "row_of ws_id (workspaces db) w \<noteq> None"
  obtains db' where "ensure_builtins h env w now db = (Inr (), db')"
    "(store_step h W)\<^sup>*\<^sup>* (store_of db) (store_of db')" "store_ok h W (store_of db')" "seeded h w (store_of db')"
proof -
  have run: "(store_step h W)\<^sup>*\<^sup>* (store_of db) (store_of (env db))" using env by (simp add: rely_def)
  have ok': "store_ok h W (store_of (env db))" by (rule policy.steps_inv [OF run ok])
  note grown = steps_grow [OF run ok]
  note found = that
  show thesis
  proof (cases "seeded h w (store_of db)")
    case True
    show thesis by (rule found [OF ensure_seeded [OF True known] run ok' seeded_grows [OF True grown]])
  next
    case False
    note res = ensure_unseeded [where env = env and now = now, OF ok ids w ok' known False]
    show thesis
    proof (cases "seeded h w (store_of (env db))")
      case True
      with res run ok' show thesis by (intro found [of "env db"]) simp_all
    next
      case False
      note ins = insert_builtins_fresh [OF ok' ids w False, of now]
      let ?db = "(env db)\<lparr>policy_packs := policy_packs (env db) @ map (builtin_pack h w now) builtin_packs,
        policy_versions := policy_versions (env db) @ map (builtin_version h w now) builtin_packs,
        policy_assignments := policy_assignments (env db) @ [default_assignment h w now]\<rparr>"
      have step: "store_step h W (store_of (env db)) (store_of ?db)"
        using store_step.seed [OF w ins] by (simp add: store_of_def)
      have "seeded h w (store_of ?db)" by (rule seeded_by_rows) (simp_all add: store_of_def)
      with res False step run store_step_ok [OF step ok'] show thesis
        by (intro found [of ?db]) (auto intro: rtranclp.rtrancl_into_rtrancl)
    qed
  qed
qed

section \<open>Every operation runs as transactions\<close>

lemma commit_policy_Some:
  assumes "commit_policy packs v act by' now loaded db = Some db'"
  obtains ps vs as where "insert_rows pack_conflict packs (policy_packs db) = Some ps"
    "insert_row version_conflict v (policy_versions db) = Some vs"
    "reassigned (pv_workspace_id v) (pv_id v) (policy_assignments db) as"
    "db' = db\<lparr>policy_packs := ps, policy_versions := vs, policy_assignments := as\<rparr>"
    "act \<Longrightarrow> set_assignment (pv_workspace_id v) (pv_id v) by' now loaded (policy_assignments db) = Some as"
proof -
  obtain ps vs as where c: "insert_rows pack_conflict packs (policy_packs db) = Some ps"
    "insert_row version_conflict v (policy_versions db) = Some vs"
    "(if act then set_assignment (pv_workspace_id v) (pv_id v) by' now loaded (policy_assignments db)
      else Some (policy_assignments db)) = Some as"
    "db' = db\<lparr>policy_packs := ps, policy_versions := vs, policy_assignments := as\<rparr>"
    using assms by (auto simp: commit_policy_def split: option.splits)
  then have "reassigned (pv_workspace_id v) (pv_id v) (policy_assignments db) as"
    unfolding reassigned_def by (metis option.inject)
  with c show thesis by (intro that [of ps vs as]) simp_all
qed

lemma run_env: "rely h W env \<Longrightarrow> (store_step h W)\<^sup>*\<^sup>* s (store_of db) \<Longrightarrow> (store_step h W)\<^sup>*\<^sup>* s (store_of (env db))"
  unfolding rely_def by (metis rtranclp_trans)

lemma ensure_runs:
  assumes "store_ok h W (store_of db)" "ids_ok h W" "w \<in> W" "rely h W env" "ensure_builtins h env w now db = (r, db')"
  shows "(store_step h W)\<^sup>*\<^sup>* (store_of db) (store_of db') \<and> (\<forall>x. r = Inr x \<longrightarrow> seeded h w (store_of db'))"
proof (cases "row_of ws_id (workspaces db) w = None")
  case True
  with assms(5) show ?thesis by (auto simp: ensure_builtins_def)
next
  case False
  with ensure_builtins_refines [OF assms(1-4)] assms(5) show ?thesis by (metis prod.inject)
qed

lemma get_pack_runs:
  assumes "store_ok h W (store_of db)" "ids_ok h W" "w \<in> W" "rely h W env"
  shows "(store_step h W)\<^sup>*\<^sup>* (store_of db) (store_of (snd (get_pack h env clock w pid db)))"
    "(store_step h W)\<^sup>*\<^sup>* (store_of db) (store_of (snd (list_packs h env clock w db)))"
    "(store_step h W)\<^sup>*\<^sup>* (store_of db) (store_of (snd (effective_policy_of h env clock w db)))"
  using ensure_runs [OF assms] unfolding get_pack_def list_packs_def effective_policy_of_def
  by (auto split: prod.split sum.split)

lemma find_pack_Some: "find_pack w pid db = Some p \<Longrightarrow> p \<in> set (policy_packs db) \<and> pp_id p = pid \<and> pp_workspace_id p = w"
  by (auto simp: find_pack_def first_where_def dest: find_SomeD)

lemma create_version_runs:
  assumes ok: "store_ok h W (store_of db)" and env: "\<And>n. rely h W (env n)"
    and new: "length ident = 36" "validate_rules rules = Inr rules"
  shows "(store_step h W)\<^sup>*\<^sup>* (store_of db) (store_of (snd (create_version h env ident w pid rules author act now db)))"
    (is "(store_step h W)\<^sup>*\<^sup>* _ (store_of (snd ?res))")
proof (cases "snd ?res = db")
  case False
  define digest where "digest = rules_hash h rules"
  define latest where "latest = first_where (\<lambda>_. True) (versions_of pid db)"
  obtain p where p: "find_pack w pid db = Some p" "\<not> pp_built_in p"
    using False by (auto simp: create_version_def split: if_splits option.splits)
  note in_store = find_pack_Some [OF p(1)]
  obtain v1 where v1: "v1 \<in> set (policy_versions db)" "pv_policy_id v1 = pid"
    using ok in_store by (auto simp: store_ok_def packs_ok_def)
  then have "v1 \<in> set (versions_of pid db)" by (simp add: versions_of_def)
  then have "versions_of pid db \<noteq> []" by auto
  then obtain u where "latest = Some u" by (cases "versions_of pid db") (auto simp: latest_def first_where_def)
  then have u: "latest = Some u" "u \<in> set (policy_versions db)" "pv_policy_id u = pid"
    by (auto simp: latest_def first_where_def versions_of_def dest!: find_SomeD)
  define v where "v = \<lparr>pv_id = ident, pv_policy_id = pid, pv_workspace_id = w, pv_version = pv_version u + 1, pv_rules = rules,
      pv_rules_hash = digest, pv_created_by = take 200 (strip author), pv_created_at = now\<rparr>"
  let ?db1 = "env 0 db"
  let ?db2 = "if act then env 1 ?db1 else ?db1"
  let ?loaded = "row_of pa_workspace_id (policy_assignments ?db1) w"
  have hash: "pv_rules_hash u \<noteq> digest" and author: "strip author \<noteq> []"
    using False p u(1) by (auto simp: create_version_def latest_def [symmetric] digest_def split: if_splits)
  have res: "snd ?res = (if commit_policy [] v False author now None ?db1 = None then ?db1
      else case commit_policy [] v act author now ?loaded ?db2 of None \<Rightarrow> ?db2 | Some db3 \<Rightarrow> db3)"
    using p hash author u(1)
    by (simp add: create_version_def latest_def [symmetric] digest_def [symmetric] v_def Let_def split: option.split)
  have run1: "(store_step h W)\<^sup>*\<^sup>* (store_of db) (store_of ?db1)" by (rule run_env [OF env]) simp
  have run2: "(store_step h W)\<^sup>*\<^sup>* (store_of db) (store_of ?db2)" using run1 run_env [OF env run1] by simp
  note ok2 = policy.steps_inv [OF run2 ok] and grows = steps_grow [OF run2 ok]
  have "(store_step h W)\<^sup>*\<^sup>* (store_of db) (store_of db3)" if "commit_policy [] v act author now ?loaded ?db2 = Some db3" for db3
  proof (rule commit_policy_Some [OF that])
    fix ps vs as
    assume c: "insert_rows pack_conflict [] (policy_packs ?db2) = Some ps"
      "insert_row version_conflict v (policy_versions ?db2) = Some vs"
      "reassigned (pv_workspace_id v) (pv_id v) (policy_assignments ?db2) as"
      "db3 = ?db2\<lparr>policy_packs := ps, policy_versions := vs, policy_assignments := as\<rparr>"
    have here: "p \<in> set (policy_packs ?db2)" "u \<in> set (policy_versions ?db2)"
      using store_grows_rows [OF grows] in_store u(2) by (simp_all del: if_split)
    have "1 \<le> pv_version u" using ok u(2) by (auto simp: store_ok_def versions_ok_def version_ok_def)
    then have "version_ok h v" using new(2) by (simp add: version_ok_def v_def digest_def)
    then have "store_step h W (store_of ?db2) ((store_of ?db2)\<lparr>st_versions := vs, st_assignments := as\<rparr>)"
      using store_step.new_version [of p "store_of ?db2" v h u vs as W] here c(2,3) in_store p(2) new(1) u(3) hash
      by (simp add: v_def del: if_split)
    moreover have "store_of db3 = (store_of ?db2)\<lparr>st_versions := vs, st_assignments := as\<rparr>"
      using c(1,4) by (simp add: store_of_def del: if_split)
    ultimately show ?thesis using run2 by (metis rtranclp.rtrancl_into_rtrancl)
  qed
  then show ?thesis using run1 run2 unfolding res by (auto split: option.split if_splits)
qed simp

lemma create_pack_invalid:
  "\<not> policy_slug_ok (lower (strip slug)) \<Longrightarrow> snd (create_pack h env clock pid vid w slug name descr rules author act now db) = db"
  "strip name = [] \<Longrightarrow> snd (create_pack h env clock pid vid w slug name descr rules author act now db) = db"
  "strip author = [] \<Longrightarrow> snd (create_pack h env clock pid vid w slug name descr rules author act now db) = db"
  by (simp_all add: create_pack_def Let_def)

lemma create_pack_runs:
  assumes ok: "store_ok h W (store_of db)" and ids: "ids_ok h W" and w: "w \<in> W" and env: "\<And>n. rely h W (env n)"
    and new: "length pid = 36" "length vid = 36" "validate_rules rules = Inr rules"
  shows "(store_step h W)\<^sup>*\<^sup>* (store_of db)
    (store_of (snd (create_pack h env clock pid vid w slug name descr rules author act now db)))"
    (is "(store_step h W)\<^sup>*\<^sup>* _ (store_of (snd ?res))")
proof (cases "snd ?res = db")
  case False
  obtain r db1 where ensured: "ensure_builtins h (env 0) w now db = (r, db1)" by (cases "ensure_builtins h (env 0) w now db")
  note run1 = ensure_runs [OF ok ids w env ensured]
  have valid: "policy_slug_ok (lower (strip slug))" "strip name \<noteq> []" "strip author \<noteq> []"
    by (rule ccontr, rule notE [OF False], erule create_pack_invalid(1))
      (rule notI, rule notE [OF False], erule create_pack_invalid)+
  show ?thesis
  proof (cases r)
    case (Inl e)
    then show ?thesis using valid ensured run1 by (simp add: create_pack_def)
  next
    case (Inr x)
    define p where "p = \<lparr>pp_id = pid, pp_workspace_id = w, pp_slug = lower (strip slug), pp_name = take 200 (strip name),
      pp_description = strip descr, pp_built_in = False, pp_created_by = take 200 (strip author), pp_created_at = now\<rparr>"
    define v where "v = \<lparr>pv_id = vid, pv_policy_id = pid, pv_workspace_id = w, pv_version = 1, pv_rules = rules,
      pv_rules_hash = rules_hash h rules, pv_created_by = take 200 (strip author), pv_created_at = now\<rparr>"
    let ?db2 = "env 1 db1"
    let ?db3 = "if act then env 2 ?db2 else ?db2"
    let ?loaded = "row_of pa_workspace_id (policy_assignments ?db2) w"
    have res: "snd ?res = (if act \<and> commit_policy [p] v False author now None ?db2 = None then ?db2
      else case commit_policy [p] v act author now ?loaded ?db3 of None \<Rightarrow> ?db3
        | Some db4 \<Rightarrow> snd (get_pack h (env 3) clock w pid db4))"
      using valid ensured Inr
      by (simp add: create_pack_def p_def v_def Let_def split: option.split prod.split sum.split)
    have run2: "(store_step h W)\<^sup>*\<^sup>* (store_of db) (store_of ?db2)" by (rule run_env [OF env]) (use run1 in simp)
    have run3: "(store_step h W)\<^sup>*\<^sup>* (store_of db) (store_of ?db3)" using run2 run_env [OF env run2] by simp
    have ok1: "store_ok h W (store_of db1)" and seed1: "seeded h w (store_of db1)"
      using policy.steps_inv [OF conjunct1 [OF run1] ok] run1 Inr by simp_all
    have "(store_step h W)\<^sup>*\<^sup>* (store_of db1) (store_of (env 1 db1))" by (rule run_env [OF env]) simp
    then have "(store_step h W)\<^sup>*\<^sup>* (store_of db1) (store_of ?db3)" using run_env [OF env] by simp
    from seeded_grows [OF seed1 steps_grow [OF this ok1]] have seed3: "seeded h w (store_of ?db3)" .
    have "(store_step h W)\<^sup>*\<^sup>* (store_of db) (store_of db4)" if "commit_policy [p] v act author now ?loaded ?db3 = Some db4" for db4
    proof (rule commit_policy_Some [OF that])
      fix ps vs as
      assume c: "insert_rows pack_conflict [p] (policy_packs ?db3) = Some ps"
        "insert_row version_conflict v (policy_versions ?db3) = Some vs"
        "reassigned (pv_workspace_id v) (pv_id v) (policy_assignments ?db3) as"
        "db4 = ?db3\<lparr>policy_packs := ps, policy_versions := vs, policy_assignments := as\<rparr>"
      have "insert_row pack_conflict p (policy_packs ?db3) = Some ps"
        using c(1) unfolding insert_rows_single .
      moreover have "version_ok h v" using new(3) by (simp add: version_ok_def v_def)
      ultimately have "store_step h W (store_of ?db3) ((store_of ?db3)\<lparr>st_packs := ps, st_versions := vs, st_assignments := as\<rparr>)"
        using store_step.new_pack [of h p "store_of ?db3" ps v vs as W] seed3 c(2,3) new(1,2)
        by (simp add: v_def p_def del: if_split)
      then show ?thesis using run3 unfolding c(4) store_of_update by (rule rtranclp.rtrancl_into_rtrancl [rotated])
    qed
    then have "(store_step h W)\<^sup>*\<^sup>* (store_of db) (store_of (snd (get_pack h (env 3) clock w pid db4)))"
      if "commit_policy [p] v act author now ?loaded ?db3 = Some db4" for db4
      using get_pack_runs(1) [OF policy.steps_inv [OF _ ok] ids w env] that by (metis rtranclp_trans)
    then show ?thesis using run2 run3 unfolding res by (auto split: option.split if_splits)
  qed
qed simp

lemma activate_runs:
  assumes ok: "store_ok h W (store_of db)" and ids: "ids_ok h W" and w: "w \<in> W" and env: "\<And>n. rely h W (env n)"
  shows "(store_step h W)\<^sup>*\<^sup>* (store_of db) (store_of (snd (activate_policy h env clock w pid n author now db)))"
    (is "(store_step h W)\<^sup>*\<^sup>* _ (store_of (snd ?res))")
proof (cases "snd ?res = db")
  case False
  obtain r db1 where ensured: "ensure_builtins h (env 0) w now db = (r, db1)" by (cases "ensure_builtins h (env 0) w now db")
  note run1 = ensure_runs [OF ok ids w env ensured]
  have author: "strip author \<noteq> []" using False by (auto simp: activate_policy_def)
  let ?found = "first_where (\<lambda>v. pv_workspace_id v = w \<and> pv_policy_id v = pid \<and> pv_version v = n) (policy_versions db1)"
  show ?thesis
  proof (cases "is_ok r \<and> ?found \<noteq> None")
    case False
    then show ?thesis using author ensured run1 by (cases r) (auto simp: activate_policy_def)
  next
    case True
    then obtain v where v: "?found = Some v" by auto
    then have in1: "v \<in> set (policy_versions db1)" "pv_workspace_id v = w"
      by (auto simp: first_where_def dest: find_SomeD)
    let ?db2 = "env 1 db1"
    let ?set = "set_assignment w (pv_id v) author now (row_of pa_workspace_id (policy_assignments db1) w) (policy_assignments ?db2)"
    have res: "snd ?res = (case ?set of None \<Rightarrow> ?db2
        | Some as \<Rightarrow> snd (effective_policy_of h (env 2) clock w (?db2\<lparr>policy_assignments := as\<rparr>)))"
      using True author ensured v by (cases r) (auto simp: activate_policy_def Let_def split: option.split)
    have ok1: "store_ok h W (store_of db1)" using policy.steps_inv [OF conjunct1 [OF run1] ok] .
    have run12: "(store_step h W)\<^sup>*\<^sup>* (store_of db1) (store_of ?db2)" by (rule run_env [OF env]) simp
    have run2: "(store_step h W)\<^sup>*\<^sup>* (store_of db) (store_of ?db2)" by (rule run_env [OF env]) (use run1 in simp)
    have in2: "v \<in> set (st_versions (store_of ?db2))"
      using store_grows_rows(2) [OF steps_grow [OF run12 ok1]] in1(1) by simp
    have "(store_step h W)\<^sup>*\<^sup>* (store_of db) (store_of (?db2\<lparr>policy_assignments := as\<rparr>))" if "?set = Some as" for as
    proof -
      have "reassigned (pv_workspace_id v) (pv_id v) (st_assignments (store_of ?db2)) as"
        using that in1(2) by (auto simp: reassigned_def)
      from store_step.activation [OF in2 this] run2 show ?thesis
        unfolding store_of_assign by (rule rtranclp.rtrancl_into_rtrancl [rotated])
    qed
    then have "(store_step h W)\<^sup>*\<^sup>* (store_of db) (store_of (snd (effective_policy_of h (env 2) clock w (?db2\<lparr>policy_assignments := as\<rparr>))))"
      if "?set = Some as" for as
      using get_pack_runs(3) [OF policy.steps_inv [OF _ ok] ids w env] that by (metis rtranclp_trans)
    then show ?thesis using run2 unfolding res by (auto split: option.split)
  qed
qed simp

section \<open>Properties\<close>

text \<open>Calls of the repository, each interleaved with any transactions of other processes.\<close>

inductive policy_call :: "policy_hashing \<Rightarrow> string set \<Rightarrow> 'x policy_db_scheme \<Rightarrow> 'x policy_db_scheme \<Rightarrow> bool"
  for h :: policy_hashing and W :: "string set" where
  create_pack: "w \<in> W \<Longrightarrow> \<forall>n. rely h W (env n) \<Longrightarrow> length pid = 36 \<Longrightarrow> length vid = 36 \<Longrightarrow> validate_rules rules = Inr rules \<Longrightarrow>
    policy_call h W db (snd (create_pack h env clock pid vid w slug name descr rules author act now db))"
| create_version: "\<forall>n. rely h W (env n) \<Longrightarrow> length vid = 36 \<Longrightarrow> validate_rules rules = Inr rules \<Longrightarrow>
    policy_call h W db (snd (create_version h env vid w pid rules author act now db))"
| activate: "w \<in> W \<Longrightarrow> \<forall>n. rely h W (env n) \<Longrightarrow>
    policy_call h W db (snd (activate_policy h env clock w pid n author now db))"
| get: "w \<in> W \<Longrightarrow> rely h W env1 \<Longrightarrow> policy_call h W db (snd (get_pack h env1 clock w pid db))"
| list_all_packs: "w \<in> W \<Longrightarrow> rely h W env1 \<Longrightarrow> policy_call h W db (snd (list_packs h env1 clock w db))"
| effective: "w \<in> W \<Longrightarrow> rely h W env1 \<Longrightarrow> policy_call h W db (snd (effective_policy_of h env1 clock w db))"
| other: "store_of db' = store_of db \<Longrightarrow> policy_call h W db db'"

lemma policy_call_runs:
  assumes "policy_call h W db db'" "store_ok h W (store_of db)" "ids_ok h W"
  shows "(store_step h W)\<^sup>*\<^sup>* (store_of db) (store_of db')"
  using assms(1)
  by cases (auto intro!: create_pack_runs create_version_runs activate_runs get_pack_runs assms(2,3))

lemma policy_calls_run:
  assumes "(policy_call h W)\<^sup>*\<^sup>* db db'" "store_ok h W (store_of db)" "ids_ok h W"
  shows "(store_step h W)\<^sup>*\<^sup>* (store_of db) (store_of db')"
  using assms(1)
proof (induction rule: rtranclp_induct)
  case (step b c)
  have "store_ok h W (store_of b)" by (rule policy.steps_inv [OF step.IH assms(2)])
  from policy_call_runs [OF step.hyps(2) this assms(3)] step.IH show ?case by simp
qed simp

lemma numbered:
  fixes S :: "int set"
  assumes "finite S" "1 \<in> S" "\<And>x. x \<in> S \<Longrightarrow> 1 \<le> x" "\<And>x. x \<in> S \<Longrightarrow> 1 < x \<Longrightarrow> x - 1 \<in> S"
  shows "S = {1..int (card S)}"
proof -
  have down: "x - int k \<in> S" if "x \<in> S" "int k < x" for x k
    using that by (induction k) (use assms(4) in \<open>fastforce simp: algebra_simps\<close>)+
  have "S = {1..Max S}"
  proof
    show "S \<subseteq> {1..Max S}" using assms(1,3) by auto
    show "{1..Max S} \<subseteq> S"
    proof
      fix x assume "x \<in> {1..Max S}"
      then have "Max S - int (nat (Max S - x)) \<in> S"
        using assms(1,2) by (intro down Max_in) auto
      with \<open>x \<in> {1..Max S}\<close> show "x \<in> S" by simp
    qed
  qed
  moreover have "1 \<le> Max S" using assms(1-3) Max_in by auto
  ultimately show ?thesis by (metis card_atLeastAtMost_int diff_add_cancel nat_0_le order_trans zero_le_one add.commute add_diff_cancel_left')
qed

lemma versions_numbered:
  assumes "store_ok h W s" "p \<in> set (st_packs s)"
  shows "pv_version ` {v \<in> set (st_versions s). pv_policy_id v = pp_id p} =
    {1..int (card {v \<in> set (st_versions s). pv_policy_id v = pp_id p})}"
proof -
  let ?V = "{v \<in> set (st_versions s). pv_policy_id v = pp_id p}"
  have row: "version_row_ok h s v" if "v \<in> ?V" for v
    using assms(1) that by (auto elim: store_versionD)
  have "inj_on pv_version ?V"
  proof (rule inj_onI)
    fix u v assume uv: "u \<in> ?V" "v \<in> ?V" "pv_version u = pv_version v"
    have "keyed (\<lambda>v. (pv_policy_id v, pv_version v)) (st_versions s)" using assms(1) by (simp add: store_ok_def store_keyed_def)
    from row_of_member [OF this, of u] row_of_member [OF this, of v] uv show "u = v" by simp
  qed
  then have card: "card (pv_version ` ?V) = card ?V" by (rule card_image)
  obtain v1 where "v1 \<in> ?V" "pv_version v1 = 1" using assms by (auto simp: store_ok_def packs_ok_def)
  then have one: "1 \<in> pv_version ` ?V" by force
  have "pv_version ` ?V = {1..int (card (pv_version ` ?V))}"
  proof (rule numbered [OF _ one])
    fix x assume "x \<in> pv_version ` ?V"
    then obtain v where v: "v \<in> ?V" "x = pv_version v" by blast
    show "1 \<le> x" using row [OF v(1)] v(2) by (simp add: version_row_ok_def version_ok_def)
    show "x - 1 \<in> pv_version ` ?V" if "1 < x"
      using row [OF v(1)] v that by (force simp: version_row_ok_def)
  qed simp
  with card show ?thesis by simp
qed

lemma builtin_single_version:
  assumes "store_ok h W s" "ids_ok h W" "v \<in> set (st_versions s)" "p \<in> set (st_packs s)" "pp_id p = pv_policy_id v" "pp_built_in p"
  shows "pv_version v = 1"
proof -
  have "builtin_pack_row h p" by (rule store_packD(3) [OF assms(1,4,6)])
  then have "length (pv_policy_id v) = 32"
    using stable_id_length [OF assms(2)] assms(5) by (auto simp: builtin_pack_row_def builtin_policy_id_def)
  moreover have "version_row_ok h s v" by (rule store_versionD [OF assms(1,3)])
  ultimately show ?thesis by (auto simp: version_row_ok_def builtin_version_row_def)
qed

text \<open>
  C23. The policy history is append-only and consistent. However policy packs are created, versioned,
  activated and read, with any transactions of other processes in between: packs and versions are
  never changed or removed; the versions of a pack are numbered from one without gaps or repeats;
  a built-in pack has exactly one version; every version carries the hash of its rules, and a
  later version differs from the one before it; and the policy assigned to a workspace is always
  a stored version of that same workspace.
\<close>

theorem policy_history_stays_consistent:
  assumes "(policy_call h W)\<^sup>*\<^sup>* db db'" "store_ok h W (store_of db)" "ids_ok h W"
  shows "prefix (policy_packs db) (policy_packs db') \<and> prefix (policy_versions db) (policy_versions db') \<and>
    (\<forall>p \<in> set (policy_packs db').
       pv_version ` {v \<in> set (policy_versions db'). pv_policy_id v = pp_id p} =
         {1..int (card {v \<in> set (policy_versions db'). pv_policy_id v = pp_id p})} \<and>
       (pp_built_in p \<longrightarrow> (\<forall>v \<in> set (policy_versions db'). pv_policy_id v = pp_id p \<longrightarrow> pv_version v = 1))) \<and>
    (\<forall>v \<in> set (policy_versions db'). pv_rules_hash v = rules_hash h (pv_rules v) \<and>
       (1 < pv_version v \<longrightarrow> (\<exists>u \<in> set (policy_versions db'). pv_policy_id u = pv_policy_id v \<and>
          pv_version v = pv_version u + 1 \<and> pv_rules_hash u \<noteq> pv_rules_hash v))) \<and>
    (\<forall>a \<in> set (policy_assignments db'). \<exists>v \<in> set (policy_versions db'). pv_id v = pa_policy_version_id a \<and>
       pv_workspace_id v = pa_workspace_id a)"
proof -
  note run = policy_calls_run [OF assms]
  note ok = policy.steps_inv [OF run assms(2)] and grows = steps_grow [OF run assms(2)]
  have "pv_version v = 1" if "p \<in> set (policy_packs db')" "pp_built_in p" "v \<in> set (policy_versions db')" "pv_policy_id v = pp_id p" for p v
    by (rule builtin_single_version [OF ok assms(3)]) (use that in simp_all)
  moreover have "pv_rules_hash v = rules_hash h (pv_rules v) \<and>
       (1 < pv_version v \<longrightarrow> (\<exists>u \<in> set (policy_versions db'). pv_policy_id u = pv_policy_id v \<and>
          pv_version v = pv_version u + 1 \<and> pv_rules_hash u \<noteq> pv_rules_hash v))" if "v \<in> set (policy_versions db')" for v
    using ok that unfolding store_ok_def versions_ok_def version_ok_def store_of_simps by blast
  moreover have "\<exists>v \<in> set (policy_versions db'). pv_id v = pa_policy_version_id a \<and> pv_workspace_id v = pa_workspace_id a"
    if "a \<in> set (policy_assignments db')" for a
    using ok that by (simp add: store_ok_def assignments_ok_def)
  moreover have "prefix (policy_packs db) (policy_packs db') \<and> prefix (policy_versions db) (policy_versions db')"
    using grows by (simp add: store_grows_def)
  ultimately show ?thesis using versions_numbered [OF ok, unfolded store_of_simps] by blast
qed

lemma version_reads_itself:
  assumes "store_ok h W s" "ids_ok h W" "v \<in> set (st_versions s)"
  shows "version_from_record v = Inr v"
proof -
  have "version_row_ok h s v" by (rule store_versionD [OF assms(1,3)])
  then have "version_ok h v" by (simp add: version_row_ok_def)
  then show ?thesis using assms(2) by (simp add: version_from_record_def version_ok_def ids_ok_def rules_hash_def)
qed

text \<open>Reading the assigned policy of a seeded workspace never fails.\<close>

lemma read_assigned:
  assumes ok: "store_ok h W (store_of db)" and ids: "ids_ok h W" and a: "row_of pa_workspace_id (policy_assignments db) w = Some a"
    and v: "v \<in> set (policy_versions db)" "pv_id v = pa_policy_version_id a"
  shows "\<exists>p \<in> set (policy_packs db). pp_id p = pv_policy_id v \<and> pp_workspace_id p = w \<and>
    read_effective w db = Inr \<lparr>ep_pack = p, ep_version = v, ep_assigned_by = pa_assigned_by a, ep_assigned_at = pa_assigned_at a\<rparr>"
proof -
  have keys: "keyed pp_id (policy_packs db)" "keyed pv_id (policy_versions db)"
    using ok by (simp_all add: store_ok_def store_keyed_def)
  have a': "a \<in> set (policy_assignments db)" "pa_workspace_id a = w" using row_of_SomeD [OF a] by simp_all
  then obtain v' where "v' \<in> set (policy_versions db)" "pv_id v' = pa_policy_version_id a" "pv_workspace_id v' = w"
    using store_assignmentD [OF ok] by (metis store_of_simps(2,3))
  then have w: "pv_workspace_id v = w" using row_of_member [OF keys(2)] v by (metis option.inject)
  obtain p where p: "p \<in> set (policy_packs db)" "pp_id p = pv_policy_id v" "pp_workspace_id p = w"
    using store_versionD [OF ok, of v] v(1) w by auto
  have "row_of pv_id (policy_versions db) (pa_policy_version_id a) = Some v"
    using row_of_member [OF keys(2) v(1)] v(2) by simp
  moreover have "row_of pp_id (policy_packs db) (pv_policy_id v) = Some p"
    using row_of_member [OF keys(1) p(1)] p(2) by simp
  ultimately show ?thesis
    using p a version_reads_itself [OF ok ids] v(1) by (intro bexI [of _ p]) (simp_all add: read_effective_def)
qed

text \<open>
  C24. Every workspace has an effective policy. Whatever other processes commit meanwhile, reading
  the effective policy of an existing workspace succeeds: it returns the stored version that the
  workspace is assigned to, with the pack of this workspace it belongs to, and none of the errors
  for a missing or a foreign policy can occur. A workspace that was never touched gets the
  recommended built-in baseline.
\<close>

theorem effective_policy_always_resolves:
  assumes "store_ok h W (store_of db)" "ids_ok h W" "w \<in> W" "rely h W env" "row_of ws_id (workspaces db) w \<noteq> None"
  shows "\<exists>ep db' a. effective_policy_of h env clock w db = (Inr ep, db') \<and>
    ep_pack ep \<in> set (policy_packs db') \<and> ep_version ep \<in> set (policy_versions db') \<and>
    pv_policy_id (ep_version ep) = pp_id (ep_pack ep) \<and> pp_workspace_id (ep_pack ep) = w \<and>
    row_of pa_workspace_id (policy_assignments db') w = Some a \<and> pa_policy_version_id a = pv_id (ep_version ep) \<and>
    ep_assigned_by ep = pa_assigned_by a \<and> ep_assigned_at ep = pa_assigned_at a \<and>
    (\<not> seeded h w (store_of (env db)) \<longrightarrow> ep_version ep = builtin_version h w clock (hd builtin_packs))"
proof -
  obtain db' where db': "ensure_builtins h env w clock db = (Inr (), db')" "store_ok h W (store_of db')" "seeded h w (store_of db')"
    by (rule ensure_builtins_refines [OF assms])
  obtain a where a: "row_of pa_workspace_id (policy_assignments db') w = Some a"
    using db'(3) by (cases "row_of pa_workspace_id (policy_assignments db') w") (auto simp: seeded_def row_of_None)
  then obtain v where v: "v \<in> set (policy_versions db')" "pv_id v = pa_policy_version_id a"
    using store_assignmentD [OF db'(2), of a] row_of_SomeD [OF a] by auto
  from read_assigned [OF db'(2) assms(2) a v] obtain p where
    p: "p \<in> set (policy_packs db')" "pp_id p = pv_policy_id v" "pp_workspace_id p = w"
    "read_effective w db' = Inr \<lparr>ep_pack = p, ep_version = v, ep_assigned_by = pa_assigned_by a, ep_assigned_at = pa_assigned_at a\<rparr>"
    by blast
  have "v = builtin_version h w clock (hd builtin_packs)" if fresh: "\<not> seeded h w (store_of (env db))"
  proof -
    have run: "(store_step h W)\<^sup>*\<^sup>* (store_of db) (store_of (env db))" using assms(4) by (simp add: rely_def)
    note ok' = policy.steps_inv [OF run assms(1)]
    have "\<not> seeded h w (store_of db)" using fresh seeded_grows [OF _ steps_grow [OF run assms(1)]] by blast
    from ensure_unseeded [where env = env and now = clock, OF assms(1-3) ok' assms(5) this] db'(1) fresh
    have tables: "policy_versions db' = policy_versions (env db) @ map (builtin_version h w clock) builtin_packs"
      "policy_assignments db' = policy_assignments (env db) @ [default_assignment h w clock]" by auto
    have "row_of pa_workspace_id (policy_assignments (env db)) w = None"
      using unseeded(3) [OF ok' assms(2,3) fresh] by (simp add: row_of_None)
    with a have "a = default_assignment h w clock" by (simp add: tables row_of_append default_assignment_def)
    then have "pv_id v = pv_id (builtin_version h w clock (hd builtin_packs))"
      using v(2) by (simp add: default_assignment_def builtin_fields builtin_packs_def)
    moreover have "builtin_version h w clock (hd builtin_packs) \<in> set (policy_versions db')"
      by (simp add: tables builtin_packs_def)
    moreover have "keyed pv_id (policy_versions db')" using db'(2) by (simp add: store_ok_def store_keyed_def)
    ultimately show ?thesis using v(1) row_of_member by (metis option.inject)
  qed
  then show ?thesis
    using db'(1) p v a by (intro exI [of _ "\<lparr>ep_pack = p, ep_version = v, ep_assigned_by = pa_assigned_by a, ep_assigned_at = pa_assigned_at a\<rparr>"]
        exI [of _ db'] exI [of _ a]) (simp add: effective_policy_of_def)
qed

end
