(* ===== verification/AccessControl.thy ===== *)
theory AccessControl
  imports Auth
begin

text \<open>
  Properties of authentication and authorization: dead credentials stay dead, nobody gains or
  grants more than the caller's role in a workspace, outsiders of a workspace cannot change who
  has access to it, and a bootstrapped owner can log in. Calls are labelled with the principal that
  makes them; the tables only grow, and a row keeps what its credential means.
\<close>

section \<open>Tables that grow\<close>

text \<open>
  A table grows when its rows are replaced by rows they keep (\<open>keeps\<close>) and at most one new row
  is added, which conflicts with none of the old ones.
\<close>

definition table_grows :: "('r \<Rightarrow> 'r \<Rightarrow> bool) \<Rightarrow> ('r \<Rightarrow> 'r \<Rightarrow> bool) \<Rightarrow> 'r tbl \<Rightarrow> 'r tbl \<Rightarrow> bool" where
  "table_grows conflict keeps t t' =
     (\<exists>f. (\<forall>r \<in> set t. keeps r (f r)) \<and>
        (t' = map f t \<or> (\<exists>n. t' = map f t @ [n] \<and> (\<forall>x \<in> set t. \<not> conflict x n))))"

lemma table_grows_refl [intro]: "(\<And>r. keeps r r) \<Longrightarrow> table_grows conflict keeps t t"
  unfolding table_grows_def by (rule exI [of _ id]) simp

lemma table_grows_insert:
  "insert_row conflict n t = Some t' \<Longrightarrow> (\<And>r. keeps r r) \<Longrightarrow> table_grows conflict keeps t t'"
  unfolding table_grows_def by (rule exI [of _ id]) (auto simp: insert_row_Some)

lemma table_grows_update:
  assumes "\<And>r. keeps r r" "\<And>r. r \<in> set t \<Longrightarrow> P r \<Longrightarrow> keeps r (f r)"
  shows "table_grows conflict keeps t (update_where P f t)"
  unfolding table_grows_def update_where_def
  by (rule exI [of _ "\<lambda>r. if P r then f r else r"]) (use assms in auto)

lemma table_grows_keyed:
  assumes "table_grows conflict keeps t t'" "keyed key t"
    and "\<And>r r'. keeps r r' \<Longrightarrow> key r' = key r" "\<And>x n. key x = key n \<Longrightarrow> conflict x n"
  shows "keyed key t'"
proof -
  from assms(1) obtain f where f: "\<forall>r \<in> set t. keeps r (f r)"
    "t' = map f t \<or> (\<exists>n. t' = map f t @ [n] \<and> (\<forall>x \<in> set t. \<not> conflict x n))"
    unfolding table_grows_def by blast
  have same: "key (f r) = key r" if "r \<in> set t" for r using that f(1) assms(3) by blast
  then have "map key (map f t) = map key t" by simp
  then have "keyed key (map f t)"
    using assms(2) unfolding keyed_def by (simp only: \<open>map key (map f t) = map key t\<close>)
  moreover have "row_of key (map f t) (key n) = None" if "\<forall>x \<in> set t. \<not> conflict x n" for n
    using that assms(4) by (auto simp: row_of_None same)
  ultimately show ?thesis using f(2) by (auto simp: keyed_append)
qed

lemma table_grows_row:
  assumes "table_grows conflict keeps t t'" "row_of key t k = Some r"
    and "\<And>r r'. keeps r r' \<Longrightarrow> key r' = key r"
  shows "\<exists>r'. row_of key t' k = Some r' \<and> keeps r r'"
proof -
  from assms(1) obtain f where f: "\<forall>r \<in> set t. keeps r (f r)"
    "t' = map f t \<or> (\<exists>n. t' = map f t @ [n] \<and> (\<forall>x \<in> set t. \<not> conflict x n))"
    unfolding table_grows_def by blast
  have "key (f r) = key r" if "r \<in> set t" for r using that f(1) assms(3) by blast
  then have "row_of key (map f t) k = map_option f (row_of key t k)"
    by (induction t) (simp_all add: row_of_Cons)
  moreover have "keeps r (f r)" using f(1) row_of_SomeD [OF assms(2)] by blast
  ultimately show ?thesis using assms(2) f(2) by (auto simp: row_of_append)
qed

section \<open>What a call does to the tables\<close>

definition session_keeps :: "session_row \<Rightarrow> session_row \<Rightarrow> bool" where
  "session_keeps s s' =
     (sn_id s' = sn_id s \<and> sn_user_id s' = sn_user_id s \<and> sn_token_hash s' = sn_token_hash s \<and>
      sn_expires_at s' = sn_expires_at s \<and> (sn_revoked_at s \<noteq> None \<longrightarrow> sn_revoked_at s' = sn_revoked_at s))"

definition api_key_keeps :: "api_key_row \<Rightarrow> api_key_row \<Rightarrow> bool" where
  "api_key_keeps k k' =
     (ak_id k' = ak_id k \<and> ak_workspace_id k' = ak_workspace_id k \<and> ak_token_hash k' = ak_token_hash k \<and>
      ak_role k' = ak_role k \<and> ak_expires_at k' = ak_expires_at k \<and>
      (ak_revoked_at k \<noteq> None \<longrightarrow> ak_revoked_at k' = ak_revoked_at k))"

lemma keeps_refl [simp]: "session_keeps s s" "api_key_keeps k k"
  by (simp_all add: session_keeps_def api_key_keeps_def)

lemma table_grows_same [simp]:
  "table_grows c session_keeps s s" "table_grows c' api_key_keeps k k" "table_grows c'' (=) t t"
  by (auto intro: table_grows_refl)

definition auth_grows :: "'x auth_db_scheme \<Rightarrow> 'x auth_db_scheme \<Rightarrow> bool" where
  "auth_grows db db' =
     (table_grows workspace_conflict (=) (workspaces db) (workspaces db') \<and>
      table_grows user_conflict (=) (users db) (users db') \<and>
      table_grows membership_conflict (=) (memberships db) (memberships db') \<and>
      table_grows session_conflict session_keeps (sessions db) (sessions db') \<and>
      table_grows api_key_conflict api_key_keeps (api_keys db) (api_keys db'))"

lemma auth_grows_refl [simp]: "auth_grows db db"
  by (auto simp: auth_grows_def)

text \<open>Calls of the repository, one at a time, labelled with the principal that makes them.\<close>

inductive auth_call ::
  "scrypt \<Rightarrow> (string \<Rightarrow> string) \<Rightarrow> principal option \<Rightarrow> 'x auth_db_scheme \<Rightarrow> 'x auth_db_scheme \<Rightarrow> bool"
  for scrypt :: scrypt and sha :: "string \<Rightarrow> string" where
  bootstrap: "auth_call scrypt sha None db
    (snd (bootstrap scrypt sha id fresh email name pw wname slug hours now db))"
| login: "auth_call scrypt sha None db (snd (login scrypt sha ident secret email pw hours now db))"
| session: "auth_call scrypt sha None db (snd (create_session sha ident secret u hours now db))"
| authenticate: "auth_call scrypt sha None db (snd (authenticate sha token now db))"
| revoke_session: "auth_call scrypt sha (Some p) db (revoke_session p now db)"
| create_workspace: "auth_call scrypt sha (Some p) db (snd (auth_create_workspace id ident p name slug now db))"
| provision: "auth_call scrypt sha (Some p) db
    (snd (provision_member scrypt id fresh p w email name role pw now db))"
| create_key: "auth_call scrypt sha (Some p) db (snd (create_api_key sha ident secret p w name role expires now db))"
| revoke_key: "auth_call scrypt sha (Some p) db (snd (revoke_api_key p w key now db))"

text \<open>Effects of the operations, as changes of single tables.\<close>

lemma create_session_effect:
  "snd (create_session sha ident secret u hours now db) = db \<or>
   (\<exists>s t. insert_row session_conflict s (sessions db) = Some t \<and>
      snd (create_session sha ident secret u hours now db) = db\<lparr>sessions := t\<rparr>)"
  by (auto simp: create_session_def Let_def split: option.splits)

lemma insert_owned_effect:
  assumes "insert_owned w new owner created db = Some db'"
  obtains ws us ms where "insert_row workspace_conflict w (workspaces db) = Some ws"
    "us = users db \<or> (\<exists>u. insert_row user_conflict u (users db) = Some us)"
    "insert_row membership_conflict
       \<lparr>mb_workspace_id = ws_id w, mb_user_id = owner, mb_role = Owner, mb_created_at = created\<rparr> (memberships db) = Some ms"
    "db' = db\<lparr>workspaces := ws, users := us, memberships := ms\<rparr>"
  using assms by (auto simp: insert_owned_def split: option.splits)

lemma bootstrap_effect:
  "snd (bootstrap scrypt sha id fresh email name pw wname slug hours now db) = db \<or>
   (\<exists>w u owner created db1. insert_owned w u owner created db = Some db1 \<and>
      (snd (bootstrap scrypt sha id fresh email name pw wname slug hours now db) = db1 \<or>
       (\<exists>s t. insert_row session_conflict s (sessions db1) = Some t \<and>
          snd (bootstrap scrypt sha id fresh email name pw wname slug hours now db) = db1\<lparr>sessions := t\<rparr>)))"
proof -
  define res where "res = bindE (normalize_email email) (\<lambda>email.
             bindE (validate_workspace \<lparr>ws_id = fv_workspace_id fresh, ws_name = wname,
                      ws_slug = (if truthy slug then the slug else slugify wname),
                      ws_created_at = now\<rparr>) (\<lambda>w.
             bindE (validate_user \<lparr>us_id = fv_user_id fresh, us_email = email, us_display_name = name,
                      us_password_hash = [], us_active = True, us_created_at = now\<rparr>) (\<lambda>u.
             bindE (hash_password scrypt (fv_salt fresh) pw) (\<lambda>digest.
               Inr (w, u\<lparr>us_password_hash := digest\<rparr>)))))"
  show ?thesis
  proof (cases res)
    case (Inl e)
    then show ?thesis by (simp add: bootstrap_def res_def [symmetric])
  next
    case (Inr wu)
    obtain w u where wu: "wu = (w, u)" by (cases wu)
    let ?ins = "insert_owned w (Some u) (us_id u) (us_created_at u) db"
    show ?thesis
    proof (cases "has_users db \<or> ?ins = None")
      case True
      then show ?thesis by (auto simp: bootstrap_def res_def [symmetric] Inr wu)
    next
      case False
      then obtain db1 where db1: "?ins = Some db1" by auto
      have "snd (bootstrap scrypt sha id fresh email name pw wname slug hours now db) =
          snd (create_session sha (fv_session_id fresh) (fv_secret fresh) (us_id u) hours now db1)"
        using False by (simp add: bootstrap_def res_def [symmetric] Inr wu db1 case_prod_unfold Let_def)
      with db1 create_session_effect [of sha "fv_session_id fresh" "fv_secret fresh" "us_id u" hours now db1]
      show ?thesis by metis
    qed
  qed
qed

lemma login_effect:
  "snd (login scrypt sha ident secret email pw hours now db) = db \<or>
   (\<exists>s t. insert_row session_conflict s (sessions db) = Some t \<and>
      snd (login scrypt sha ident secret email pw hours now db) = db\<lparr>sessions := t\<rparr>)"
proof -
  have "snd (login scrypt sha ident secret email pw hours now db) = db \<or>
      (\<exists>u. snd (login scrypt sha ident secret email pw hours now db) =
         snd (create_session sha ident secret u hours now db))"
    by (auto simp: login_def case_prod_unfold Let_def split: sum.split)
  with create_session_effect [of sha ident secret _ hours now db] show ?thesis by metis
qed

definition touch_session :: "time \<Rightarrow> session_row \<Rightarrow> session_row tbl \<Rightarrow> session_row tbl" where
  "touch_session now r = update_where (\<lambda>x. sn_id x = sn_id r) (\<lambda>x. x\<lparr>sn_last_used_at := Some now\<rparr>)"

definition touch_key :: "time \<Rightarrow> api_key_row \<Rightarrow> api_key_row tbl \<Rightarrow> api_key_row tbl" where
  "touch_key now r = update_where (\<lambda>x. ak_id x = ak_id r) (\<lambda>x. x\<lparr>ak_last_used_at := Some now\<rparr>)"

lemma authenticate_effect:
  "snd (authenticate sha token now db) \<in>
     {db} \<union> range (\<lambda>r. db\<lparr>sessions := touch_session now r (sessions db)\<rparr>) \<union>
     range (\<lambda>r. db\<lparr>api_keys := touch_key now r (api_keys db)\<rparr>)"
proof (cases "startswith token ''chs_''")
  case True
  show ?thesis
  proof (cases "row_of sn_token_hash (sessions db) (sha token)")
    case (Some r)
    show ?thesis
    proof (cases "row_of us_id (users db) (sn_user_id r)")
      case u: (Some u)
      show ?thesis
        by (simp add: authenticate_def Let_def True Some u touch_session_def)
    qed (simp add: authenticate_def Let_def True Some)
  qed (simp add: authenticate_def Let_def True)
next
  case False
  show ?thesis
  proof (cases "startswith token ''chk_''")
    case True
    show ?thesis
    proof (cases "row_of ak_token_hash (api_keys db) (sha token)")
      case (Some r)
      show ?thesis
        by (simp add: authenticate_def Let_def False True Some touch_key_def)
    qed (simp add: authenticate_def Let_def False True)
  qed (simp add: authenticate_def Let_def False)
qed

lemma create_workspace_effect:
  "snd (auth_create_workspace id ident p name slug now db) = db \<or>
   (\<exists>w owner created. insert_owned w None owner created db = Some (snd (auth_create_workspace id ident p name slug now db)))"
  unfolding auth_create_workspace_def by (auto split: sum.split option.split)

text \<open>A grant is made only by a caller who is an administrator and not outranked by the grant.\<close>

definition may_grant :: "principal \<Rightarrow> string \<Rightarrow> workspace_role \<Rightarrow> 'x auth_db_scheme \<Rightarrow> bool" where
  "may_grant p w role db =
     (case principal_role p w db of Inl _ \<Rightarrow> False
      | Inr r \<Rightarrow> role_rank Admin \<le> role_rank r \<and> role_rank role \<le> role_rank r)"

lemma authorize_Inr: "authorize_workspace p w m db = Inr r \<longleftrightarrow> principal_role p w db = Inr r \<and> role_rank m \<le> role_rank r"
  by (cases "principal_role p w db") (auto simp: authorize_workspace_def)

lemma may_grant_authorized:
  "authorize_workspace p w Admin db = Inr r \<Longrightarrow> \<not> role_rank role > role_rank r \<Longrightarrow> may_grant p w role db"
  by (simp add: authorize_Inr may_grant_def)

lemma provision_exI:
  "us = old \<or> ins us \<Longrightarrow> Q m \<Longrightarrow> R m \<Longrightarrow> S m ms \<Longrightarrow> T us ms \<Longrightarrow> G \<Longrightarrow>
     same \<or> G \<and> (\<exists>us m ms. (us = old \<or> ins us) \<and> Q m \<and> R m \<and> S m ms \<and> T us ms)"
  by blast

lemma provision_effect:
  "snd (provision_member scrypt id fresh p w email name role pw now db) = db \<or>
   may_grant p w role db \<and>
   (\<exists>us m ms. (us = users db \<or> (\<exists>u. insert_row user_conflict u (users db) = Some us)) \<and>
      mb_workspace_id m = w \<and> mb_role m = role \<and> insert_row membership_conflict m (memberships db) = Some ms \<and>
      snd (provision_member scrypt id fresh p w email name role pw now db) = db\<lparr>users := us, memberships := ms\<rparr>)"
proof -
  define checked where "checked = bindE (authorize_workspace p w Admin db) (\<lambda>caller_role.
             if role_rank role > role_rank caller_role
             then Inl (PermissionError ''cannot assign a role higher than the caller'')
             else bindE (normalize_email email) (\<lambda>email.
                  bindE (hash_password scrypt (fv_salt fresh) pw) (\<lambda>digest.
                  bindE (validate_user \<lparr>us_id = fv_user_id fresh, us_email = email, us_display_name = name,
                           us_password_hash = [], us_active = True, us_created_at = now\<rparr>) (\<lambda>u.
                    Inr (u\<lparr>us_password_hash := digest\<rparr>)))))"
  let ?out = "provision_member scrypt id fresh p w email name role pw now db"
  show ?thesis
  proof (cases checked)
    case (Inl e)
    then show ?thesis by (simp add: provision_member_def checked_def [symmetric])
  next
    case (Inr new)
    have grant: "may_grant p w role db"
    proof (cases "authorize_workspace p w Admin db")
      case auth: (Inr r)
      with Inr show ?thesis by (intro may_grant_authorized [OF auth]) (auto simp: checked_def)
    qed (use Inr in \<open>simp add: checked_def\<close>)
    define look where "look = (case first_where (\<lambda>u. us_email u = us_email new) (users db) of
        None \<Rightarrow> Inr (None, new) | Some u \<Rightarrow> bindE (user_from_record u) (\<lambda>u. Inr (Some u, u)))"
    show ?thesis
    proof (cases look)
      case (Inl e)
      then show ?thesis by (simp add: provision_member_def checked_def [symmetric] Inr look_def [symmetric])
    next
      case eu: (Inr eu)
      obtain existing u where [simp]: "eu = (existing, u)" by (cases eu)
      let ?m = "\<lparr>mb_workspace_id = w, mb_user_id = us_id u, mb_role = role, mb_created_at = now\<rparr>"
      let ?us = "if existing = None then insert_row user_conflict u (users db) else Some (users db)"
      have out: "?out = (case (?us, insert_row membership_conflict ?m (memberships db)) of
          (Some us, Some ms) \<Rightarrow> (Inr (u, ?m), db\<lparr>users := us, memberships := ms\<rparr>)
        | _ \<Rightarrow> (Inl (ValueError ''membership already exists''), db))"
        by (simp add: provision_member_def checked_def [symmetric] Inr look_def [symmetric] eu Let_def)
      show ?thesis
      proof (cases "?us = None \<or> insert_row membership_conflict ?m (memberships db) = None")
        case True
        then show ?thesis unfolding out by (auto split: option.split)
      next
        case False
        then obtain us ms where t: "?us = Some us" "insert_row membership_conflict ?m (memberships db) = Some ms"
          by auto
        then have "us = users db \<or> (\<exists>u. insert_row user_conflict u (users db) = Some us)"
          by (auto split: if_splits)
        with t grant show ?thesis unfolding out
          by (intro provision_exI [where us = us and m = ?m and ms = ms]) simp_all
      qed
    qed
  qed
qed

lemma create_key_effect:
  "snd (create_api_key sha ident secret p w name role expires now db) = db \<or>
   may_grant p w role db \<and> role \<noteq> Owner \<and>
   (\<exists>k t. ak_workspace_id k = w \<and> ak_role k = role \<and> insert_row api_key_conflict k (api_keys db) = Some t \<and>
      snd (create_api_key sha ident secret p w name role expires now db) = db\<lparr>api_keys := t\<rparr>)"
proof (cases "authorize_workspace p w Admin db")
  case (Inr r)
  let ?k = "\<lparr>ak_id = ident, ak_workspace_id = w, ak_name = name, ak_prefix = take 16 (''chk_'' @ secret),
     ak_token_hash = sha (''chk_'' @ secret), ak_role = role, ak_created_by_user_id = pr_user_id p,
     ak_created_at = now, ak_expires_at = map_option (\<lambda>d. now + days d) expires,
     ak_last_used_at = None, ak_revoked_at = None\<rparr>"
  show ?thesis
  proof (cases "role_rank role > role_rank r \<or> role = Owner \<or>
      (case expires of None \<Rightarrow> False | Some d \<Rightarrow> \<not> (1 \<le> d \<and> d \<le> 3650)) \<or> \<not> length_between 1 200 name")
    case True
    then show ?thesis by (auto simp: create_api_key_def Inr api_key_from_record_def Let_def)
  next
    case False
    then have out: "create_api_key sha ident secret p w name role expires now db =
        (case insert_row api_key_conflict ?k (api_keys db) of
           None \<Rightarrow> (Inl IntegrityError, db)
         | Some t \<Rightarrow> (Inr \<lparr>ik_token = ''chk_'' @ secret, ik_metadata = ?k\<rparr>, db\<lparr>api_keys := t\<rparr>))"
      by (simp add: create_api_key_def Inr api_key_from_record_def Let_def cong: option.case_cong)
    show ?thesis
    proof (cases "insert_row api_key_conflict ?k (api_keys db)")
      case (Some t)
      with False may_grant_authorized [OF Inr, of role] show ?thesis unfolding out
        by (intro disjI2 conjI exI [of _ ?k] exI [of _ t]) simp_all
    qed (simp add: out)
  qed
qed (simp add: create_api_key_def)

lemma revoke_key_effect:
  "snd (revoke_api_key p w key now db) = db \<or>
   may_grant p w Viewer db \<and>
   (\<exists>k. ak_workspace_id k = w \<and> k \<in> set (api_keys db) \<and> ak_revoked_at k = None \<and>
      snd (revoke_api_key p w key now db) = db\<lparr>api_keys := update_where (\<lambda>x. ak_id x = ak_id k)
        (\<lambda>x. x\<lparr>ak_revoked_at := Some now\<rparr>) (api_keys db)\<rparr>)"
proof (cases "authorize_workspace p w Admin db")
  case (Inr r)
  show ?thesis
  proof (cases "first_where (\<lambda>k. ak_id k = key \<and> ak_workspace_id k = w) (api_keys db)")
    case (Some k)
    then have "k \<in> set (api_keys db)" "ak_workspace_id k = w"
      by (auto simp: first_where_def dest: find_SomeD)
    moreover have "may_grant p w Viewer db"
      using Inr by (auto simp: authorize_Inr may_grant_def)
    ultimately show ?thesis by (auto simp: revoke_api_key_def Inr Some)
  qed (simp add: revoke_api_key_def Inr)
qed (simp add: revoke_api_key_def)

lemma insert_owned_grows:
  assumes "insert_owned w new owner created db = Some db'"
  shows "auth_grows db db'"
  using assms
proof (rule insert_owned_effect)
  fix ws us ms
  assume t: "insert_row workspace_conflict w (workspaces db) = Some ws"
    "us = users db \<or> (\<exists>u. insert_row user_conflict u (users db) = Some us)"
    "insert_row membership_conflict
       \<lparr>mb_workspace_id = ws_id w, mb_user_id = owner, mb_role = Owner, mb_created_at = created\<rparr> (memberships db) = Some ms"
    "db' = db\<lparr>workspaces := ws, users := us, memberships := ms\<rparr>"
  then show "auth_grows db db'"
    by (auto simp: auth_grows_def intro: table_grows_insert)
qed

lemma add_session_grows: "insert_row session_conflict s (sessions db) = Some t \<Longrightarrow> auth_grows db (db\<lparr>sessions := t\<rparr>)"
  by (auto simp: auth_grows_def intro: table_grows_insert)

lemma update_sessions_grow:
  "(\<And>s. s \<in> set (sessions db) \<Longrightarrow> P s \<Longrightarrow> session_keeps s (f s)) \<Longrightarrow> auth_grows db (db\<lparr>sessions := update_where P f (sessions db)\<rparr>)"
  by (auto simp: auth_grows_def intro: table_grows_update)

lemma update_keys_grow:
  "(\<And>k. k \<in> set (api_keys db) \<Longrightarrow> P k \<Longrightarrow> api_key_keeps k (f k)) \<Longrightarrow> auth_grows db (db\<lparr>api_keys := update_where P f (api_keys db)\<rparr>)"
  by (auto simp: auth_grows_def intro: table_grows_update)

lemma auth_grows_insert_session:
  assumes "insert_owned w new owner created db = Some db1" "insert_row session_conflict s (sessions db1) = Some t"
  shows "auth_grows db (db1\<lparr>sessions := t\<rparr>)"
  using assms(1)
proof (rule insert_owned_effect)
  fix ws us ms
  assume "insert_row workspace_conflict w (workspaces db) = Some ws"
    "us = users db \<or> (\<exists>u. insert_row user_conflict u (users db) = Some us)"
    "insert_row membership_conflict
       \<lparr>mb_workspace_id = ws_id w, mb_user_id = owner, mb_role = Owner, mb_created_at = created\<rparr> (memberships db) = Some ms"
    "db1 = db\<lparr>workspaces := ws, users := us, memberships := ms\<rparr>"
  with assms(2) show "auth_grows db (db1\<lparr>sessions := t\<rparr>)"
    by (auto simp: auth_grows_def intro: table_grows_insert)
qed

text \<open>
  The key rows of a workspace up to their time of last use. A revoked key id identifies its row, so
  a revocation in one workspace leaves the keys of the others alone.
\<close>

definition auth_ok :: "'x auth_db_scheme \<Rightarrow> bool" where
  "auth_ok db =
     (keyed us_id (users db) \<and> keyed us_email (users db) \<and> keyed ws_id (workspaces db) \<and>
      keyed (\<lambda>m. (mb_workspace_id m, mb_user_id m)) (memberships db) \<and>
      keyed sn_id (sessions db) \<and> keyed sn_token_hash (sessions db) \<and>
      keyed ak_id (api_keys db) \<and> keyed ak_token_hash (api_keys db))"

lemma keyed_same: "keyed key t \<Longrightarrow> x \<in> set t \<Longrightarrow> y \<in> set t \<Longrightarrow> key x = key y \<Longrightarrow> x = y"
  by (metis option.inject row_of_member)

lemma auth_grows_ok:
  assumes "auth_grows db db'" "auth_ok db"
  shows "auth_ok db'"
  using assms unfolding auth_grows_def auth_ok_def
  by (elim conjE; intro conjI)
     (erule (1) table_grows_keyed;
       auto simp: user_conflict_def workspace_conflict_def membership_conflict_def session_conflict_def
         api_key_conflict_def session_keeps_def api_key_keeps_def)+

lemma auth_call_grows:
  assumes "auth_call scrypt sha l db db'" "auth_ok db"
  shows "auth_grows db db'"
  using assms(1)
proof cases
  case (bootstrap fresh email name pw wname slug hours now)
  with bootstrap_effect [of scrypt sha fresh email name pw wname slug hours now db]
  show ?thesis using insert_owned_grows auth_grows_insert_session by (metis auth_grows_refl)
next
  case (login ident secret email pw hours now)
  with login_effect [of scrypt sha ident secret email pw hours now db] show ?thesis
    using add_session_grows by (metis auth_grows_refl)
next
  case (session ident secret u hours now)
  with create_session_effect [of sha ident secret u hours now db] show ?thesis
    using add_session_grows by (metis auth_grows_refl)
next
  case (authenticate token now)
  then show ?thesis
    using authenticate_effect [of sha token now db]
    by (auto simp: touch_session_def touch_key_def session_keeps_def api_key_keeps_def
        intro!: update_sessions_grow update_keys_grow)
next
  case (revoke_session p now)
  then show ?thesis
    by (auto simp: revoke_session_def session_keeps_def intro!: update_sessions_grow)
next
  case (create_workspace p ident name slug now)
  then show ?thesis
    using create_workspace_effect [of ident p name slug now db] insert_owned_grows by auto
next
  case (provision p fresh w email name role pw now)
  with provision_effect [of scrypt fresh p w email name role pw now db] show ?thesis
    by (auto simp: auth_grows_def intro: table_grows_insert)
next
  case (create_key p ident secret w name role expires now)
  with create_key_effect [of sha ident secret p w name role expires now db] show ?thesis
    by (auto simp: auth_grows_def intro: table_grows_insert)
next
  case (revoke_key p w key now)
  show ?thesis
  proof (cases "db' = db")
    case False
    with revoke_key revoke_key_effect [of p w key now db] obtain k where k: "ak_revoked_at k = None"
      "k \<in> set (api_keys db)"
      "db' = db\<lparr>api_keys := update_where (\<lambda>x. ak_id x = ak_id k) (\<lambda>x. x\<lparr>ak_revoked_at := Some now\<rparr>) (api_keys db)\<rparr>"
      by auto
    moreover have "x = k" if "x \<in> set (api_keys db)" "ak_id x = ak_id k" for x
      by (rule keyed_same [of ak_id "api_keys db"]) (use assms(2) that k(2) in \<open>simp_all add: auth_ok_def\<close>)
    ultimately show ?thesis by (fastforce simp: api_key_keeps_def intro!: update_keys_grow)
  qed simp
qed

lemma auth_call_ok: "auth_call scrypt sha l db db' \<Longrightarrow> auth_ok db \<Longrightarrow> auth_ok db'"
  by (rule auth_grows_ok [OF auth_call_grows])

definition any_auth_call :: "scrypt \<Rightarrow> (string \<Rightarrow> string) \<Rightarrow> 'x auth_db_scheme \<Rightarrow> 'x auth_db_scheme \<Rightarrow> bool" where
  "any_auth_call scrypt sha db db' = (\<exists>l. auth_call scrypt sha l db db')"

interpretation auth_calls: step_system "any_auth_call scrypt sha" auth_ok
  by unfold_locales (auto simp: any_auth_call_def intro: auth_call_ok)

section \<open>Credentials\<close>

text \<open>The credential behind a token is over at \<open>t\<close>: there is none, it is revoked, or it has expired.\<close>

definition session_over :: "session_row \<Rightarrow> time \<Rightarrow> bool" where
  "session_over s t = (sn_revoked_at s \<noteq> None \<or> sn_expires_at s \<le> t)"

definition key_over :: "api_key_row \<Rightarrow> time \<Rightarrow> bool" where
  "key_over k t = (ak_revoked_at k \<noteq> None \<or> (\<exists>e. ak_expires_at k = Some e \<and> e \<le> t))"

definition over_at :: "(string \<Rightarrow> string) \<Rightarrow> string \<Rightarrow> time \<Rightarrow> 'x auth_db_scheme \<Rightarrow> bool" where
  "over_at sha token t db =
     (if startswith token ''chs_''
      then (\<exists>s. row_of sn_token_hash (sessions db) (sha token) = Some s \<and> session_over s t)
      else if startswith token ''chk_''
      then (\<exists>k. row_of ak_token_hash (api_keys db) (sha token) = Some k \<and> key_over k t)
      else True)"

lemma over_refused: "over_at sha token t db \<Longrightarrow> t \<le> now \<Longrightarrow> \<exists>e. authenticate sha token now db = (Inl (PermissionError e), db)"
  by (auto simp: over_at_def authenticate_def Let_def session_over_def key_over_def split: if_splits)

lemma over_stays:
  assumes "over_at sha token t db" "auth_grows db db'"
  shows "over_at sha token t db'"
proof -
  note grown = assms(2) [unfolded auth_grows_def]
  have s: "\<exists>r'. row_of sn_token_hash (sessions db') h = Some r' \<and> session_keeps r r'"
    if "row_of sn_token_hash (sessions db) h = Some r" for h r
    by (rule table_grows_row [where conflict = session_conflict and keeps = session_keeps, OF _ that])
      (simp add: grown, simp add: session_keeps_def)
  have k: "\<exists>r'. row_of ak_token_hash (api_keys db') h = Some r' \<and> api_key_keeps r r'"
    if "row_of ak_token_hash (api_keys db) h = Some r" for h r
    by (rule table_grows_row [where conflict = api_key_conflict and keeps = api_key_keeps, OF _ that])
      (simp add: grown, simp add: api_key_keeps_def)
  from assms(1) show ?thesis
    by (auto simp: over_at_def session_over_def key_over_def session_keeps_def api_key_keeps_def
        split: if_splits dest!: s k)
qed

lemma over_along:
  assumes "(any_auth_call scrypt sha)\<^sup>*\<^sup>* db db'" "auth_ok db" "over_at sha token t db"
  shows "over_at sha token t db'"
proof -
  have "over_at sha token t db \<longrightarrow> over_at sha token t db'"
    by (rule auth_calls.steps_relate [where R = "\<lambda>a b. over_at sha token t a \<longrightarrow> over_at sha token t b", OF _ _ assms(1,2)])
      (auto simp: any_auth_call_def dest: auth_call_grows over_stays)
  with assms(3) show ?thesis by simp
qed

text \<open>Logging out ends the session of the principal, revoking a key ends the key.\<close>

lemma authenticated_session:
  assumes "authenticate sha token now db = (Inr p, db')" "pr_kind p = SessionKind"
  shows "\<exists>s u. startswith token ''chs_'' \<and> row_of sn_token_hash (sessions db) (sha token) = Some s \<and>
    \<not> session_over s now \<and> sn_id s = pr_subject_id p \<and> pr_user_id p = Some (sn_user_id s) \<and>
    row_of us_id (users db) (sn_user_id s) = Some u \<and> us_active u \<and>
    db' = db\<lparr>sessions := touch_session now s (sessions db)\<rparr>"
  using assms
  by (auto simp: authenticate_def Let_def session_over_def touch_session_def split: if_splits option.splits)

lemma authenticated_key:
  assumes "authenticate sha token now db = (Inr p, db')" "pr_kind p = ApiKeyKind"
  shows "\<exists>k. \<not> startswith token ''chs_'' \<and> startswith token ''chk_'' \<and>
    row_of ak_token_hash (api_keys db) (sha token) = Some k \<and> \<not> key_over k now \<and> ak_id k = pr_subject_id p \<and>
    pr_api_key_workspace_id p = Some (ak_workspace_id k) \<and> pr_api_key_role p = Some (ak_role k) \<and>
    db' = db\<lparr>api_keys := touch_key now k (api_keys db)\<rparr>"
  using assms
  by (auto simp: authenticate_def Let_def key_over_def touch_key_def split: if_splits option.splits)

lemma logout_over:
  assumes "authenticate sha token now db = (Inr p, db1)" "pr_kind p = SessionKind"
  shows "over_at sha token t (revoke_session p now' db1)"
proof -
  obtain s where s: "startswith token ''chs_''" "row_of sn_token_hash (sessions db) (sha token) = Some s"
    "sn_id s = pr_subject_id p" "db1 = db\<lparr>sessions := touch_session now s (sessions db)\<rparr>"
    using authenticated_session [OF assms] by blast
  have touched: "row_of sn_token_hash (touch_session now s (sessions db)) (sha token) = Some (s\<lparr>sn_last_used_at := Some now\<rparr>)"
    unfolding touch_session_def by (subst row_of_update) (simp_all add: s(2))
  have revoked: "row_of sn_token_hash (update_where P (\<lambda>x. x\<lparr>sn_revoked_at := Some now'\<rparr>) ss) h =
      map_option (\<lambda>x. if P x then x\<lparr>sn_revoked_at := Some now'\<rparr> else x) (row_of sn_token_hash ss h)" for P ss h
    by (rule row_of_update) simp
  show ?thesis
    using s(1,3) assms(2) by (simp add: over_at_def session_over_def revoke_session_def s(4) revoked touched)
qed

lemma revoked_key_over:
  assumes "authenticate sha token now db = (Inr p, db1)" "pr_kind p = ApiKeyKind" "auth_ok db"
    and "revoke_api_key q w (pr_subject_id p) now' db1 = (Inr (), db2)"
  shows "over_at sha token t db2"
proof -
  obtain k where k: "\<not> startswith token ''chs_''" "startswith token ''chk_''"
    "row_of ak_token_hash (api_keys db) (sha token) = Some k"
    "ak_id k = pr_subject_id p" "db1 = db\<lparr>api_keys := touch_key now k (api_keys db)\<rparr>"
    using authenticated_key [OF assms(1,2)] by blast
  let ?k = "k\<lparr>ak_last_used_at := Some now\<rparr>"
  have touched: "row_of ak_token_hash (api_keys db1) (sha token) = Some ?k"
    unfolding touch_key_def k(5) by (simp, subst row_of_update) (simp_all add: k(3))
  have keyed: "keyed ak_id (api_keys db1)"
    using assms(3) by (simp add: k(5) touch_key_def auth_ok_def keyed_update)
  obtain r where r: "first_where (\<lambda>x. ak_id x = pr_subject_id p \<and> ak_workspace_id x = w) (api_keys db1) = Some r"
    using assms(4) by (auto simp: revoke_api_key_def split: sum.splits option.splits)
  then have rin: "r \<in> set (api_keys db1)" "ak_id r = pr_subject_id p"
    by (auto simp: first_where_def dest: find_SomeD)
  have "r = ?k"
    using row_of_member [OF keyed rin(1)] row_of_member [OF keyed conjunct1 [OF row_of_SomeD [OF touched]]] rin(2) k(4)
    by simp
  then have db2: "db2 = (if ak_revoked_at k = None then db1\<lparr>api_keys := update_where (\<lambda>x. ak_id x = ak_id k)
      (\<lambda>x. x\<lparr>ak_revoked_at := Some now'\<rparr>) (api_keys db1)\<rparr> else db1)"
    using assms(4) r by (auto simp: revoke_api_key_def split: sum.splits if_splits)
  have revoked: "row_of ak_token_hash (update_where P (\<lambda>x. x\<lparr>ak_revoked_at := Some now'\<rparr>) ks) h =
      map_option (\<lambda>x. if P x then x\<lparr>ak_revoked_at := Some now'\<rparr> else x) (row_of ak_token_hash ks h)" for P ks h
    by (rule row_of_update) simp
  show ?thesis
    using k(1,2) by (simp add: db2 over_at_def key_over_def revoked touched)
qed

lemma authenticate_ok: "auth_ok db \<Longrightarrow> authenticate sha token t db = (res, db') \<Longrightarrow> auth_ok db'"
  using auth_call_ok [OF auth_call.authenticate [where token = token and now = t and db = db and sha = sha]]
  by (metis snd_conv)

lemma logout_final:
  assumes "auth_ok db" "authenticate sha token t db = (Inr p, db1)" "pr_kind p = SessionKind"
    and "(any_auth_call scrypt sha)\<^sup>*\<^sup>* (revoke_session p t' db1) db'"
  shows "over_at sha token now db'"
  by (rule over_along [OF assms(4) auth_call_ok [OF auth_call.revoke_session authenticate_ok [OF assms(1,2)]]
        logout_over [OF assms(2,3)]])

lemma key_revocation_final:
  assumes "auth_ok db" "authenticate sha token t db = (Inr p, db1)" "pr_kind p = ApiKeyKind"
    and "revoke_api_key q w (pr_subject_id p) t' db1 = (Inr (), db2)" "(any_auth_call scrypt sha)\<^sup>*\<^sup>* db2 db'"
  shows "over_at sha token now db'"
proof (rule over_along [OF assms(5) _ revoked_key_over [OF assms(2,3,1,4)]])
  show "auth_ok db2"
    using auth_call_ok [OF auth_call.revoke_key [where p = q and w = w and key = "pr_subject_id p" and now = t']
        authenticate_ok [OF assms(1,2)]] assms(4) by (metis snd_conv)
qed

text \<open>
  C22. Dead credentials stay dead. Once the session or the API key behind a token is revoked, or has
  expired by an instant, no later sequence of calls revives it: at any later instant the token is
  refused with an error and the database is unchanged. In particular logging out ends the session
  for good, and so does revoking an API key, whatever instants the clocks of the servers show.
\<close>

theorem dead_credentials_stay_dead:
  assumes "auth_ok db"
  shows "(over_at sha token t db \<and> (any_auth_call scrypt sha)\<^sup>*\<^sup>* db db' \<and> t \<le> now \<longrightarrow>
      (\<exists>e. authenticate sha token now db' = (Inl (PermissionError e), db'))) \<and>
    (authenticate sha token t db = (Inr p, db1) \<and> pr_kind p = SessionKind \<and>
      (any_auth_call scrypt sha)\<^sup>*\<^sup>* (revoke_session p t' db1) db' \<longrightarrow>
      (\<exists>e. authenticate sha token now db' = (Inl (PermissionError e), db'))) \<and>
    (authenticate sha token t db = (Inr p, db1) \<and> pr_kind p = ApiKeyKind \<and>
      revoke_api_key q w (pr_subject_id p) t' db1 = (Inr (), db2) \<and> (any_auth_call scrypt sha)\<^sup>*\<^sup>* db2 db' \<longrightarrow>
      (\<exists>e. authenticate sha token now db' = (Inl (PermissionError e), db')))"
proof (intro conjI impI; elim conjE)
  show "\<exists>e. authenticate sha token now db' = (Inl (PermissionError e), db')"
    if "over_at sha token t db" "(any_auth_call scrypt sha)\<^sup>*\<^sup>* db db'" "t \<le> now"
    using that by (intro over_refused [OF over_along [OF _ assms]])
  show "\<exists>e. authenticate sha token now db' = (Inl (PermissionError e), db')"
    if "authenticate sha token t db = (Inr p, db1)" "pr_kind p = SessionKind"
      "(any_auth_call scrypt sha)\<^sup>*\<^sup>* (revoke_session p t' db1) db'"
    by (rule over_refused [OF logout_final [OF assms that] order_refl])
  show "\<exists>e. authenticate sha token now db' = (Inl (PermissionError e), db')"
    if "authenticate sha token t db = (Inr p, db1)" "pr_kind p = ApiKeyKind"
      "revoke_api_key q w (pr_subject_id p) t' db1 = (Inr (), db2)" "(any_auth_call scrypt sha)\<^sup>*\<^sup>* db2 db'"
    by (rule over_refused [OF key_revocation_final [OF assms that] order_refl])
qed

section \<open>Who has access to a workspace\<close>

definition members_of :: "string \<Rightarrow> 'x auth_db_scheme \<Rightarrow> membership list" where
  "members_of w db = filter (\<lambda>m. mb_workspace_id m = w) (memberships db)"

text \<open>The API keys of a workspace, without their time of last use.\<close>

definition keys_of :: "string \<Rightarrow> 'x auth_db_scheme \<Rightarrow> api_key_row list" where
  "keys_of w db = map (\<lambda>k. k\<lparr>ak_last_used_at := None\<rparr>) (filter (\<lambda>k. ak_workspace_id k = w) (api_keys db))"

definition grants_of :: "string \<Rightarrow> 'x auth_db_scheme \<Rightarrow> (string \<times> workspace_role) list" where
  "grants_of w db = map (\<lambda>k. (ak_id k, ak_role k)) (keys_of w db)"

definition exists_workspace :: "string \<Rightarrow> 'x auth_db_scheme \<Rightarrow> bool" where
  "exists_workspace w db = (row_of ws_id (workspaces db) w \<noteq> None)"

definition access_unchanged :: "string \<Rightarrow> 'x auth_db_scheme \<Rightarrow> 'x auth_db_scheme \<Rightarrow> bool" where
  "access_unchanged w db db' = (members_of w db' = members_of w db \<and> keys_of w db' = keys_of w db)"

text \<open>What an administrator may do to the access to a workspace with one call.\<close>

definition access_granted ::
  "principal \<Rightarrow> string \<Rightarrow> 'x auth_db_scheme \<Rightarrow> 'x auth_db_scheme \<Rightarrow> bool" where
  "access_granted p w db db' =
     (may_grant p w Viewer db \<and>
      ((\<exists>m. may_grant p w (mb_role m) db \<and> members_of w db' = members_of w db @ [m] \<and> grants_of w db' = grants_of w db) \<or>
       (\<exists>i role. may_grant p w role db \<and> role \<noteq> Owner \<and> members_of w db' = members_of w db \<and>
          grants_of w db' = grants_of w db @ [(i, role)]) \<or>
       members_of w db' = members_of w db \<and> grants_of w db' = grants_of w db))"

lemma may_grant_viewer: "may_grant p w role db \<Longrightarrow> may_grant p w Viewer db"
  by (auto simp: may_grant_def split: sum.splits)

lemma access_other_tables [simp]:
  "members_of w (db\<lparr>sessions := t\<rparr>) = members_of w db" "keys_of w (db\<lparr>sessions := t\<rparr>) = keys_of w db"
  "members_of w (db\<lparr>api_keys := ks\<rparr>) = members_of w db"
  by (simp_all add: members_of_def keys_of_def)

lemma keys_of_touch:
  "(\<And>k. (f k)\<lparr>ak_last_used_at := None\<rparr> = k\<lparr>ak_last_used_at := None\<rparr>) \<Longrightarrow> keys_of w (db\<lparr>api_keys := update_where P f (api_keys db)\<rparr>) = keys_of w db"
proof -
  assume f: "\<And>k. (f k)\<lparr>ak_last_used_at := None\<rparr> = k\<lparr>ak_last_used_at := None\<rparr>"
  have ws: "ak_workspace_id (f k) = ak_workspace_id k" for k
    using arg_cong [where f = ak_workspace_id, OF f [of k]] by simp
  have "map (\<lambda>k. k\<lparr>ak_last_used_at := None\<rparr>) (filter (\<lambda>k. ak_workspace_id k = w) (update_where P f ks)) =
      map (\<lambda>k. k\<lparr>ak_last_used_at := None\<rparr>) (filter (\<lambda>k. ak_workspace_id k = w) ks)" for ks
    by (induction ks) (simp_all add: update_where_def ws f)
  then show ?thesis by (simp add: keys_of_def)
qed

lemma insert_owned_access:
  assumes "insert_owned ow new owner created db = Some db'" "exists_workspace w db"
  shows "access_unchanged w db db'"
  using assms(1)
proof (rule insert_owned_effect)
  fix ws us ms
  assume t: "insert_row workspace_conflict ow (workspaces db) = Some ws"
    "insert_row membership_conflict
       \<lparr>mb_workspace_id = ws_id ow, mb_user_id = owner, mb_role = Owner, mb_created_at = created\<rparr> (memberships db) = Some ms"
    "db' = db\<lparr>workspaces := ws, users := us, memberships := ms\<rparr>"
  have "ws_id ow \<noteq> w"
    using t(1) assms(2) by (auto simp: exists_workspace_def insert_row_Some workspace_conflict_def dest!: row_of_SomeD)
  with t(2) show ?thesis
    by (simp add: t(3) access_unchanged_def members_of_def keys_of_def insert_row_Some)
qed

lemma access_unchanged_simps [simp]: "access_unchanged w db db"
  "access_unchanged w db (db'\<lparr>sessions := t\<rparr>) = access_unchanged w db db'"
  by (simp_all add: access_unchanged_def)

lemma grants_of_cong: "keys_of w db' = keys_of w db \<Longrightarrow> grants_of w db' = grants_of w db"
  by (simp add: grants_of_def)

lemma provision_access:
  assumes "db' = snd (provision_member scrypt id fresh p v email name role pw now db)"
  shows "access_unchanged w db db' \<or> v = w \<and> access_granted p w db db'"
proof (cases "db' = db")
  case False
  with provision_effect [of scrypt fresh p v email name role pw now db, folded assms(1)] obtain us m ms where
    m: "may_grant p v role db" "mb_workspace_id m = v" "mb_role m = role"
    "insert_row membership_conflict m (memberships db) = Some ms" "db' = db\<lparr>users := us, memberships := ms\<rparr>"
    by blast
  have keys: "keys_of w db' = keys_of w db" by (simp add: m(5) keys_of_def)
  have members: "members_of w db' = members_of w db @ (if v = w then [m] else [])"
    using m(2,4) by (simp add: m(5) members_of_def insert_row_Some)
  show ?thesis
  proof (cases "v = w")
    case True
    with m(1,3) members grants_of_cong [OF keys] show ?thesis
      by (auto simp: access_granted_def intro: may_grant_viewer)
  qed (simp add: access_unchanged_def members keys)
qed simp

lemma create_key_access:
  assumes "db' = snd (create_api_key sha ident secret p v name role expires now db)"
  shows "access_unchanged w db db' \<or> v = w \<and> access_granted p w db db'"
proof (cases "db' = db")
  case False
  with create_key_effect [of sha ident secret p v name role expires now db, folded assms(1)] obtain k t where
    k: "may_grant p v role db" "role \<noteq> Owner" "ak_workspace_id k = v" "ak_role k = role"
    "insert_row api_key_conflict k (api_keys db) = Some t" "db' = db\<lparr>api_keys := t\<rparr>"
    by blast
  have keys: "keys_of w db' = keys_of w db @ (if v = w then [k\<lparr>ak_last_used_at := None\<rparr>] else [])"
    using k(3,5) by (simp add: k(6) keys_of_def insert_row_Some)
  show ?thesis
  proof (cases "v = w")
    case True
    with keys k(4) have "grants_of w db' = grants_of w db @ [(ak_id k, role)]" by (simp add: grants_of_def)
    with k(1,2) True show ?thesis
      by (auto simp: access_granted_def k(6) intro: may_grant_viewer)
  qed (simp add: access_unchanged_def k(6), use keys k(6) in simp)
qed simp

lemma revoke_key_access:
  assumes "db' = snd (revoke_api_key p v key now db)" "auth_ok db"
  shows "access_unchanged w db db' \<or> v = w \<and> access_granted p w db db'"
proof (cases "db' = db")
  case False
  with revoke_key_effect [of p v key now db, folded assms(1)] obtain k where
    k: "may_grant p v Viewer db" "ak_workspace_id k = v" "k \<in> set (api_keys db)"
    "db' = db\<lparr>api_keys := update_where (\<lambda>x. ak_id x = ak_id k) (\<lambda>x. x\<lparr>ak_revoked_at := Some now\<rparr>) (api_keys db)\<rparr>"
    by blast
  have only: "x = k" if "x \<in> set (api_keys db)" "ak_id x = ak_id k" for x
    by (rule keyed_same [of ak_id "api_keys db"]) (use assms(2) that k(3) in \<open>simp_all add: auth_ok_def\<close>)
  show ?thesis
  proof (cases "v = w")
    case True
    have "map (\<lambda>k. (ak_id k, ak_role k)) (filter (\<lambda>k. ak_workspace_id k = w)
        (update_where P (\<lambda>x. x\<lparr>ak_revoked_at := Some now\<rparr>) ks)) =
      map (\<lambda>k. (ak_id k, ak_role k)) (filter (\<lambda>k. ak_workspace_id k = w) ks)" for P and ks :: "api_key_row list"
      by (induction ks) (simp_all add: update_where_def)
    then have "grants_of w db' = grants_of w db" by (simp add: k(4) grants_of_def keys_of_def comp_def)
    with k(1) True show ?thesis by (simp add: access_granted_def k(4))
  next
    case False
    have "filter (\<lambda>x. ak_workspace_id x = w) (update_where (\<lambda>x. ak_id x = ak_id k) (\<lambda>x. x\<lparr>ak_revoked_at := Some now\<rparr>) ks) =
        filter (\<lambda>x. ak_workspace_id x = w) ks" if "set ks \<subseteq> set (api_keys db)" for ks
      using that
    proof (induction ks)
      case (Cons x ks)
      have "ak_id x = ak_id k \<Longrightarrow> ak_workspace_id x \<noteq> w" using only [of x] Cons.prems False k(2) by auto
      with Cons show ?case by (simp add: update_where_def)
    qed (simp add: update_where_def)
    then show ?thesis by (simp add: access_unchanged_def k(4) keys_of_def)
  qed
qed simp

lemma touch_access:
  "members_of w (db\<lparr>api_keys := touch_key now r (api_keys db)\<rparr>) = members_of w db"
  "keys_of w (db\<lparr>api_keys := touch_key now r (api_keys db)\<rparr>) = keys_of w db"
  by (simp add: members_of_def) (simp add: touch_key_def keys_of_touch)

lemma call_access:
  assumes "auth_call scrypt sha l db db'" "auth_ok db" "exists_workspace w db"
  shows "access_unchanged w db db' \<or> (\<exists>p. l = Some p \<and> access_granted p w db db')"
  using assms(1)
proof cases
  case (bootstrap fresh email name pw wname slug hours now)
  with bootstrap_effect [of scrypt sha fresh email name pw wname slug hours now db] show ?thesis
    using insert_owned_access [OF _ assms(3)] access_unchanged_simps by metis
next
  case (login ident secret email pw hours now)
  with login_effect [of scrypt sha ident secret email pw hours now db] show ?thesis
    using access_unchanged_simps by metis
next
  case (session ident secret u hours now)
  with create_session_effect [of sha ident secret u hours now db] show ?thesis
    using access_unchanged_simps by metis
next
  case (authenticate token now)
  then have "db' \<in> {db} \<union> range (\<lambda>r. db\<lparr>sessions := touch_session now r (sessions db)\<rparr>) \<union>
     range (\<lambda>r. db\<lparr>api_keys := touch_key now r (api_keys db)\<rparr>)"
    using authenticate_effect [of sha token now db] by simp
  then consider "db' = db" | t where "db' = db\<lparr>sessions := t\<rparr>"
    | r where "db' = db\<lparr>api_keys := touch_key now r (api_keys db)\<rparr>" by blast
  then show ?thesis by cases (simp_all add: access_unchanged_def touch_access)
next
  case (revoke_session p now)
  then show ?thesis by (simp add: revoke_session_def)
next
  case (create_workspace p ident name slug now)
  with create_workspace_effect [of ident p name slug now db] show ?thesis
    using insert_owned_access [OF _ assms(3)] access_unchanged_simps by metis
next
  case (provision p fresh v email name role pw now)
  with provision_access [OF provision(2)] show ?thesis by blast
next
  case (create_key p ident secret v name role expires now)
  with create_key_access [OF create_key(2)] show ?thesis by blast
next
  case (revoke_key p v key now)
  with revoke_key_access [OF revoke_key(2) assms(2)] show ?thesis by blast
qed

lemma exists_workspace_grows:
  assumes "auth_grows db db'" "exists_workspace w db"
  shows "exists_workspace w db'"
proof -
  obtain r where "row_of ws_id (workspaces db) w = Some r" using assms(2) by (auto simp: exists_workspace_def)
  from table_grows_row [where conflict = workspace_conflict and keeps = "(=)", OF _ this] assms(1) show ?thesis
    by (auto simp: auth_grows_def exists_workspace_def)
qed

text \<open>Runs of calls made by principals of a set, or by nobody in particular.\<close>

definition calls_by ::
  "scrypt \<Rightarrow> (string \<Rightarrow> string) \<Rightarrow> principal set \<Rightarrow> 'x auth_db_scheme \<Rightarrow> 'x auth_db_scheme \<Rightarrow> bool" where
  "calls_by scrypt sha P db db' = (\<exists>l. (\<forall>p. l = Some p \<longrightarrow> p \<in> P) \<and> auth_call scrypt sha l db db')"

definition roles_below :: "principal set \<Rightarrow> string \<Rightarrow> nat \<Rightarrow> 'x auth_db_scheme \<Rightarrow> bool" where
  "roles_below P w n db = (\<forall>p \<in> P. \<forall>r. principal_role p w db = Inr r \<longrightarrow> role_rank r \<le> n)"

lemma principal_role_members:
  "principal_role p w db =
     (if pr_kind p = ApiKeyKind then
        (case pr_api_key_role p of
           None \<Rightarrow> Inl (PermissionError ''API key is not valid for this workspace'')
         | Some role \<Rightarrow>
             if pr_api_key_workspace_id p \<noteq> Some w
             then Inl (PermissionError ''API key is not valid for this workspace'') else Inr role)
      else case pr_user_id p of
             None \<Rightarrow> Inl (PermissionError ''session has no user identity'')
           | Some u \<Rightarrow>
               (case row_of mb_user_id (members_of w db) u of
                  None \<Rightarrow> Inl (PermissionError ''user is not a member of this workspace'')
                | Some m \<Rightarrow> Inr (mb_role m)))"
proof -
  have "first_where (\<lambda>m. mb_workspace_id m = w \<and> mb_user_id m = u) t =
      row_of mb_user_id (filter (\<lambda>m. mb_workspace_id m = w) t) u" for u and t :: "membership list"
    by (induction t) (simp_all add: first_where_def row_of_Cons)
  note found = this
  show ?thesis unfolding principal_role_def members_of_def found ..
qed

lemma roles_below_append:
  assumes "members_of w db' = members_of w db @ [m]" "role_rank (mb_role m) \<le> n" "roles_below P w n db"
  shows "roles_below P w n db'"
  unfolding roles_below_def
proof (intro ballI allI impI)
  fix p r assume p: "p \<in> P" "principal_role p w db' = Inr r"
  show "role_rank r \<le> n"
  proof (cases "pr_kind p = ApiKeyKind")
    case True
    with p(2) have "principal_role p w db = Inr r" by (simp add: principal_role_def)
    with assms(3) p(1) show ?thesis by (auto simp: roles_below_def)
  next
    case False
    with p(2) obtain u where u: "pr_user_id p = Some u" by (auto simp: principal_role_def split: option.splits)
    show ?thesis
    proof (cases "row_of mb_user_id (members_of w db) u")
      case None
      with p(2) False u assms(1,2) show ?thesis
        by (auto simp: principal_role_members row_of_append split: if_splits)
    next
      case (Some q)
      with p(2) False u assms(1) have "principal_role p w db = Inr r"
        by (simp add: principal_role_members row_of_append)
      with assms(3) p(1) show ?thesis by (auto simp: roles_below_def)
    qed
  qed
qed

lemma roles_below_cong: "members_of w db' = members_of w db \<Longrightarrow> roles_below P w n db' = roles_below P w n db"
  by (simp only: roles_below_def principal_role_members)

text \<open>Access to \<open>w\<close> that grew by grants of rank \<open>n\<close> at most, and not at all if \<open>n\<close> is below an administrator.\<close>

definition access_within :: "string \<Rightarrow> nat \<Rightarrow> 'x auth_db_scheme \<Rightarrow> 'x auth_db_scheme \<Rightarrow> bool" where
  "access_within w n db db' =
     ((\<exists>ms. members_of w db' = members_of w db @ ms \<and> (\<forall>m \<in> set ms. role_rank (mb_role m) \<le> n)) \<and>
      (\<exists>gs. grants_of w db' = grants_of w db @ gs \<and> (\<forall>(i, role) \<in> set gs. role_rank role \<le> n \<and> role \<noteq> Owner)) \<and>
      (n < role_rank Admin \<longrightarrow> access_unchanged w db db'))"

lemma granted_within:
  assumes "access_granted p w b c" "p \<in> P" "roles_below P w n b"
  shows "access_within w n b c \<and> roles_below P w n c"
proof -
  have le: "role_rank role \<le> n \<and> role_rank Admin \<le> n" if "may_grant p w role b" for role
    using that assms(2,3) by (fastforce simp: may_grant_def roles_below_def split: sum.splits)
  from assms(1) have admin: "\<not> n < role_rank Admin" using le by (auto simp: access_granted_def)
  from assms(1) consider
      (member) m where "role_rank (mb_role m) \<le> n" "members_of w c = members_of w b @ [m]" "grants_of w c = grants_of w b"
    | (key) i role where "role_rank role \<le> n" "role \<noteq> Owner" "members_of w c = members_of w b"
        "grants_of w c = grants_of w b @ [(i, role)]"
    | (same) "members_of w c = members_of w b" "grants_of w c = grants_of w b"
    unfolding access_granted_def using le by blast
  then show ?thesis
  proof cases
    case member
    with admin roles_below_append [OF member(2,1) assms(3)] show ?thesis by (simp add: access_within_def)
  next
    case key
    with admin assms(3) roles_below_cong [OF key(3), of P n] show ?thesis by (simp add: access_within_def)
  next
    case same
    with admin assms(3) roles_below_cong [OF same(1), of P n] show ?thesis by (simp add: access_within_def)
  qed
qed

lemma access_within_trans:
  "access_within w n a b \<Longrightarrow> access_within w n b c \<Longrightarrow> access_within w n a c"
  unfolding access_within_def access_unchanged_def by (elim conjE exE; intro conjI) (fastforce+)

lemma call_within:
  assumes "calls_by scrypt sha P b c" "auth_ok b" "exists_workspace w b" "roles_below P w n b"
  shows "access_within w n b c \<and> roles_below P w n c"
proof -
  obtain l where l: "\<forall>p. l = Some p \<longrightarrow> p \<in> P" "auth_call scrypt sha l b c"
    using assms(1) by (auto simp: calls_by_def)
  from call_access [OF l(2) assms(2,3)] show ?thesis
  proof
    assume "access_unchanged w b c"
    then have same: "members_of w c = members_of w b" "keys_of w c = keys_of w b"
      by (simp_all add: access_unchanged_def)
    with assms(4) roles_below_cong [OF same(1), of P n] grants_of_cong [OF same(2)] show ?thesis
      by (simp add: access_within_def access_unchanged_def)
  qed (use granted_within assms(4) l(1) in blast)
qed

text \<open>
  C21. No role escalation. Let the calls of a run be made by principals whose role in an existing
  workspace is at most some rank (or by nobody: bootstrapping, logging in, authenticating). Then
  none of them ever holds a higher role there, existing members and API keys keep their role, every
  new member has a role of at most that rank, and so has every new API key, which is never an
  owner. If the rank is below an administrator's, nothing about who has access changes at all:
  the members are the same, and the API keys too, up to their time of last use. So outsiders, who
  have no role there, cannot change it whatever roles they hold in other workspaces.
\<close>

theorem no_role_escalation:
  assumes "(calls_by scrypt sha P)\<^sup>*\<^sup>* db db'" "auth_ok db" "exists_workspace w db"
    and "\<forall>p \<in> P. \<forall>r. principal_role p w db = Inr r \<longrightarrow> role_rank r \<le> n"
  shows "(\<forall>p \<in> P. \<forall>r. principal_role p w db' = Inr r \<longrightarrow> role_rank r \<le> n) \<and>
    (\<exists>ms. members_of w db' = members_of w db @ ms \<and> (\<forall>m \<in> set ms. role_rank (mb_role m) \<le> n)) \<and>
    (\<exists>gs. grants_of w db' = grants_of w db @ gs \<and> (\<forall>(i, role) \<in> set gs. role_rank role \<le> n \<and> role \<noteq> Owner)) \<and>
    (n < role_rank Admin \<longrightarrow> members_of w db' = members_of w db \<and> keys_of w db' = keys_of w db)"
proof -
  have "auth_ok db' \<and> exists_workspace w db' \<and> roles_below P w n db' \<and> access_within w n db db'"
    using assms(1)
  proof (induction rule: rtranclp_induct)
    case base
    with assms(2-4) show ?case by (simp add: roles_below_def access_within_def)
  next
    case (step b c)
    then obtain l where l: "auth_call scrypt sha l b c" by (auto simp: calls_by_def)
    with step.IH have "auth_ok c" "exists_workspace w c"
      using auth_call_ok exists_workspace_grows auth_call_grows by blast+
    moreover from step have "access_within w n b c \<and> roles_below P w n c"
      by (intro call_within) auto
    ultimately show ?case using step.IH access_within_trans by blast
  qed
  then show ?thesis by (simp add: roles_below_def access_within_def access_unchanged_def)
qed

section \<open>Bootstrapping\<close>

lemma bootstrap_eq:
  assumes "normalize_email email = Inr e"
    and "validate_workspace \<lparr>ws_id = fv_workspace_id fresh, ws_name = wname,
      ws_slug = (if truthy slug then the slug else slugify wname), ws_created_at = now\<rparr> = Inr w"
    and "validate_user \<lparr>us_id = fv_user_id fresh, us_email = e, us_display_name = name,
      us_password_hash = [], us_active = True, us_created_at = now\<rparr> = Inr u"
    and "hash_password scrypt (fv_salt fresh) pw = Inr d"
  shows "bootstrap scrypt sha env fresh email name pw wname slug hours now db =
      (if has_users db then (Inl (RuntimeError ''bootstrap is disabled after the first user is created''), db)
       else case insert_owned w (Some (u\<lparr>us_password_hash := d\<rparr>)) (us_id u) (us_created_at u) (env db) of
         None \<Rightarrow> (Inl (ValueError ''bootstrap identity or workspace already exists''), env db)
       | Some db'' \<Rightarrow>
           let (res, db3) = create_session sha (fv_session_id fresh) (fv_secret fresh) (us_id u) hours now db''
           in (bindE res (\<lambda>issued. Inr (issued\<lparr>it_user := Some (u\<lparr>us_password_hash := d\<rparr>), it_workspace := Some w\<rparr>)), db3))"
  using assms by (simp add: bootstrap_def Let_def cong: option.case_cong)

lemma bootstrap_run:
  fixes db :: "'x auth_db_scheme"
  assumes "bootstrap scrypt sha env fresh email name pw wname slug hours now db = (Inr issued, db')"
  obtains e w u db1 q where "normalize_email email = Inr e"
    "hash_password scrypt (fv_salt fresh) pw = Inr (us_password_hash u)"
    "us_email u = e" "us_id u = fv_user_id fresh" "us_active u" "validate_user u = Inr u"
    "ws_id w = fv_workspace_id fresh" "\<not> has_users db"
    "insert_owned w (Some u) (us_id u) now (env db) = Some db1"
    "create_session sha (fv_session_id fresh) (fv_secret fresh) (us_id u) hours now db1 = (Inr q, db')"
    "issued = q\<lparr>it_user := Some u, it_workspace := Some w\<rparr>"
    "\<And>env (c :: 'x auth_db_scheme) c1 q c2. \<not> has_users c \<Longrightarrow> insert_owned w (Some u) (us_id u) now (env c) = Some c1 \<Longrightarrow>
       create_session sha (fv_session_id fresh) (fv_secret fresh) (us_id u) hours now c1 = (Inr q, c2) \<Longrightarrow>
       bootstrap scrypt sha env fresh email name pw wname slug hours now c =
         (Inr (q\<lparr>it_user := Some u, it_workspace := Some w\<rparr>), c2)"
proof -
  note found = that
  define w where "w = \<lparr>ws_id = fv_workspace_id fresh, ws_name = wname,
      ws_slug = (if truthy slug then the slug else slugify wname), ws_created_at = now\<rparr>"
  obtain e where e: "normalize_email email = Inr e"
    using assms by (cases "normalize_email email") (simp_all add: bootstrap_def)
  define u where "u = \<lparr>us_id = fv_user_id fresh, us_email = e, us_display_name = name,
      us_password_hash = [], us_active = True, us_created_at = now\<rparr>"
  have w: "validate_workspace w = Inr w"
    using assms by (auto simp: bootstrap_def e w_def [symmetric] validate_workspace_def split: if_splits)
  have u: "validate_user u = Inr u"
  proof (cases "validate_user u")
    case (Inl f)
    with assms show ?thesis by (simp add: bootstrap_def e w_def [symmetric] w u_def [symmetric])
  qed (auto simp: validate_user_def split: if_splits)
  obtain d where d: "hash_password scrypt (fv_salt fresh) pw = Inr d"
    using assms by (cases "hash_password scrypt (fv_salt fresh) pw")
      (simp_all add: bootstrap_def e w_def [symmetric] w u_def [symmetric] u)
  let ?u = "u\<lparr>us_password_hash := d\<rparr>"
  have new: "validate_workspace \<lparr>ws_id = fv_workspace_id fresh, ws_name = wname,
      ws_slug = (if truthy slug then the slug else slugify wname), ws_created_at = now\<rparr> = Inr w"
    "validate_user \<lparr>us_id = fv_user_id fresh, us_email = e, us_display_name = name,
      us_password_hash = [], us_active = True, us_created_at = now\<rparr> = Inr u"
    using w u by (simp_all add: w_def u_def)
  note boot = bootstrap_eq [OF e new d]
  from assms have no: "\<not> has_users db" unfolding boot by (simp split: if_splits)
  with assms obtain db1 where db1: "insert_owned w (Some ?u) (us_id ?u) (us_created_at ?u) (env db) = Some db1"
    unfolding boot by (simp split: option.splits)
  obtain q where q: "create_session sha (fv_session_id fresh) (fv_secret fresh) (us_id ?u) hours now db1 = (Inr q, db')"
    "issued = q\<lparr>it_user := Some ?u, it_workspace := Some w\<rparr>"
    using assms no db1 unfolding boot by (auto simp: bindE_Inr split: prod.splits)
  have "bootstrap scrypt sha env fresh email name pw wname slug hours now c = (Inr (q\<lparr>it_user := Some ?u, it_workspace := Some w\<rparr>), c2)"
    if "\<not> has_users c" "insert_owned w (Some ?u) (us_id ?u) now (env c) = Some c1"
      "create_session sha (fv_session_id fresh) (fv_secret fresh) (us_id ?u) hours now c1 = (Inr q, c2)" for env c1 q c2 and c :: "'x auth_db_scheme"
    using that unfolding boot by (simp add: u_def)
  note replay = this
  show ?thesis
    by (rule found [of e ?u w db1 q, OF _ _ _ _ _ _ _ _ _ _ _ replay]) (use e d u no db1 q in \<open>simp_all add: u_def w_def validate_user_def split: if_splits\<close>)
qed

lemma bootstrap_Inr:
  assumes "bootstrap scrypt sha env fresh email name pw wname slug hours now db = (Inr issued, db')"
  obtains e w u db1 q where "normalize_email email = Inr e"
    "hash_password scrypt (fv_salt fresh) pw = Inr (us_password_hash u)"
    "us_email u = e" "us_id u = fv_user_id fresh" "us_active u" "validate_user u = Inr u"
    "ws_id w = fv_workspace_id fresh" "\<not> has_users db"
    "insert_owned w (Some u) (us_id u) now (env db) = Some db1"
    "create_session sha (fv_session_id fresh) (fv_secret fresh) (us_id u) hours now db1 = (Inr q, db')"
    "issued = q\<lparr>it_user := Some u, it_workspace := Some w\<rparr>"
  by (rule bootstrap_run [OF assms]) (rule that)

lemma create_session_Inr:
  assumes "create_session sha ident secret user hours now db = (Inr q, db')"
  obtains t where "1 \<le> hours" "hours \<le> 720" "db' = db\<lparr>sessions := t\<rparr>"
    "insert_row session_conflict \<lparr>sn_id = ident, sn_user_id = user, sn_token_hash = sha (''chs_'' @ secret),
       sn_created_at = now, sn_expires_at = now + seconds (hours * 3600), sn_last_used_at = None,
       sn_revoked_at = None\<rparr> (sessions db) = Some t"
    "q = \<lparr>it_token = ''chs_'' @ secret, it_expires_at = now + seconds (hours * 3600), it_user = None, it_workspace = None\<rparr>"
  using assms by (auto simp: create_session_def Let_def split: if_splits option.splits)

lemma role_of_new_member:
  assumes "insert_row membership_conflict m ms0 = Some (memberships db)" "pr_kind p = SessionKind" "pr_user_id p = Some (mb_user_id m)"
  shows "principal_role p (mb_workspace_id m) db = Inr (mb_role m)"
proof -
  have "find (\<lambda>x. mb_workspace_id x = mb_workspace_id m \<and> mb_user_id x = mb_user_id m) ms0 = None"
    using assms(1) by (auto simp: find_NoneD insert_row_Some membership_conflict_def)
  moreover have "find P (xs @ [x]) = (case find P xs of None \<Rightarrow> if P x then Some x else None | Some y \<Rightarrow> Some y)"
    for P :: "membership \<Rightarrow> bool" and xs x by (induction xs) simp_all
  ultimately show ?thesis
    using assms by (simp add: principal_role_def first_where_def insert_row_Some)
qed

text \<open>A session that was just opened for an active user authenticates until it expires.\<close>

lemma new_session_authenticates:
  assumes "create_session sha ident secret user hours now db = (Inr q, db')" "t < it_expires_at q"
    and "row_of us_id (users db) user = Some u" "us_active u"
  shows "fst (authenticate sha (it_token q) t db') = Inr \<lparr>pr_kind = SessionKind, pr_subject_id = ident, pr_user_id = Some user,
    pr_api_key_id = None, pr_api_key_workspace_id = None, pr_api_key_role = None\<rparr>"
proof -
  obtain ss where c: "db' = db\<lparr>sessions := ss\<rparr>"
    "insert_row session_conflict \<lparr>sn_id = ident, sn_user_id = user, sn_token_hash = sha (''chs_'' @ secret),
       sn_created_at = now, sn_expires_at = now + seconds (hours * 3600), sn_last_used_at = None,
       sn_revoked_at = None\<rparr> (sessions db) = Some ss"
    "q = \<lparr>it_token = ''chs_'' @ secret, it_expires_at = now + seconds (hours * 3600), it_user = None, it_workspace = None\<rparr>"
    using create_session_Inr [OF assms(1)] by metis
  have "row_of sn_token_hash (sessions db) (sha (''chs_'' @ secret)) = None"
    using c(2) by (auto simp: row_of_None insert_row_Some session_conflict_def)
  with c(2) have row: "row_of sn_token_hash ss (sha (''chs_'' @ secret)) =
      Some \<lparr>sn_id = ident, sn_user_id = user, sn_token_hash = sha (''chs_'' @ secret),
       sn_created_at = now, sn_expires_at = now + seconds (hours * 3600), sn_last_used_at = None, sn_revoked_at = None\<rparr>"
    by (simp add: insert_row_Some row_of_append)
  have "startswith (''chs_'' @ secret) ''chs_''" by (simp add: startswith_def)
  with row assms(2-4) show ?thesis by (simp add: authenticate_def c Let_def)
qed

lemma after_bootstrap:
  assumes "insert_owned w (Some u) user now db = Some db1" "\<not> has_users db"
  shows "users db1 = [u] \<and> sessions db1 = sessions db \<and>
    insert_row membership_conflict \<lparr>mb_workspace_id = ws_id w, mb_user_id = user, mb_role = Owner, mb_created_at = now\<rparr>
      (memberships db) = Some (memberships db1)"
  using assms by (auto simp: insert_owned_def insert_row_Some has_users_def split: option.splits)

lemma bootstrap_disabled:
  "has_users db \<Longrightarrow> \<exists>e. bootstrap scrypt sha env fresh email name pw wname slug hours now db = (Inl e, db)"
  by (cases "bindE (normalize_email email) (\<lambda>email.
             bindE (validate_workspace \<lparr>ws_id = fv_workspace_id fresh, ws_name = wname,
                      ws_slug = (if truthy slug then the slug else slugify wname),
                      ws_created_at = now\<rparr>) (\<lambda>w.
             bindE (validate_user \<lparr>us_id = fv_user_id fresh, us_email = email, us_display_name = name,
                      us_password_hash = [], us_active = True, us_created_at = now\<rparr>) (\<lambda>u.
             bindE (hash_password scrypt (fv_salt fresh) pw) (\<lambda>digest.
               Inr (w, u\<lparr>us_password_hash := digest\<rparr>)))))")
    (auto simp: bootstrap_def)

lemma login_single_user:
  assumes "users db = [u]" "us_active u" "validate_user u = Inr u" "normalize_email email = Inr (us_email u)"
    and "verify_password scrypt q (us_password_hash u) = Inr valid"
  shows "login scrypt sha ident secret email q hours now db =
    (if valid then let (res, db') = create_session sha ident secret (us_id u) hours now db
       in (bindE res (\<lambda>issued. Inr (issued\<lparr>it_user := Some u\<rparr>)), db')
     else (Inl (PermissionError ''invalid email or password''), db))"
  using assms by (simp add: login_def first_where_def user_from_record_def)

lemma create_session_ok:
  assumes "1 \<le> hours" "hours \<le> 720" "row_of us_id (users db) user = Some u" "us_active u"
    and "\<And>s. s \<in> set (sessions db) \<Longrightarrow> sn_id s \<noteq> ident \<and> sn_token_hash s \<noteq> sha (''chs_'' @ secret)"
  shows "\<exists>q t. create_session sha ident secret user hours now db = (Inr q, db\<lparr>sessions := t\<rparr>) \<and>
    it_expires_at q = now + seconds (hours * 3600) \<and> it_token q = ''chs_'' @ secret"
  using assms by (auto simp: create_session_def Let_def insert_row_def list_ex_iff session_conflict_def)

text \<open>
  Bootstrapping gives an owner who can log in. When bootstrapping an installation without users
  succeeds, the token it returns is, until it expires, a principal with the owner's role in the
  created workspace, and bootstrapping again is refused without any change. Logging in later, with
  the address in any spelling that normalises to the same one, succeeds exactly when the digest of
  the given password is the stored one: then the user is the bootstrapped one and the new token
  is an owner again, and otherwise the answer is one and the same refusal and nothing changes.
\<close>

theorem bootstrap_then_login:
  fixes db :: "'x auth_db_scheme"
  assumes "bootstrap scrypt sha id fresh email name pw wname slug hours now db = (Inr issued, db')"
    and "sessions db = []" "scrypt pw (fv_salt fresh) 16384 8 1 32 = Inr digest" "length digest = 32"
    and "is_bytes digest" "length (fv_salt fresh) = 16" "is_bytes (fv_salt fresh)"
  shows "\<exists>u w. it_user issued = Some u \<and> it_workspace issued = Some w \<and>
    (t < it_expires_at issued \<longrightarrow> (\<exists>p. fst (authenticate sha (it_token issued) t db') = Inr p \<and>
       principal_role p (ws_id w) db' = Inr Owner)) \<and>
    (\<exists>e. bootstrap scrypt sha id freshB emailB nameB pwB wnameB slugB hoursB nowB db' = (Inl e, db')) \<and>
    (normalize_email other = normalize_email email \<and> scrypt q (fv_salt fresh) 16384 8 1 32 = Inr d \<and>
       1 \<le> hours' \<and> hours' \<le> 720 \<and> ident \<noteq> fv_session_id fresh \<and> sha (''chs_'' @ secret) \<noteq> sha (it_token issued) \<longrightarrow>
       (if d = digest
        then \<exists>i db2. login scrypt sha ident secret other q hours' now' db' = (Inr i, db2) \<and> it_user i = Some u \<and>
          (\<forall>t < now' + seconds (hours' * 3600). \<exists>p. fst (authenticate sha (it_token i) t db2) = Inr p \<and>
             principal_role p (ws_id w) db2 = Inr Owner)
        else login scrypt sha ident secret other q hours' now' db' = (Inl (PermissionError ''invalid email or password''), db')))"
proof -
  obtain e w u db1 q where b: "normalize_email email = Inr e"
    "hash_password scrypt (fv_salt fresh) pw = Inr (us_password_hash u)" "us_email u = e" "us_id u = fv_user_id fresh"
    "us_active u" "validate_user u = Inr u" "\<not> has_users db"
    "insert_owned w (Some u) (us_id u) now db = Some db1"
    "create_session sha (fv_session_id fresh) (fv_secret fresh) (us_id u) hours now db1 = (Inr q, db')"
    "issued = q\<lparr>it_user := Some u, it_workspace := Some w\<rparr>"
    using bootstrap_Inr [OF assms(1)] by (metis id_apply)
  note after = after_bootstrap [OF b(8,7)]
  obtain s where s: "db' = db1\<lparr>sessions := [s]\<rparr>" "sn_id s = fv_session_id fresh" "sn_token_hash s = sha (it_token issued)"
  proof (rule create_session_Inr [OF b(9)])
    fix t
    let ?s = "\<lparr>sn_id = fv_session_id fresh, sn_user_id = us_id u,
         sn_token_hash = sha (''chs_'' @ fv_secret fresh), sn_created_at = now,
         sn_expires_at = now + seconds (hours * 3600), sn_last_used_at = None, sn_revoked_at = None\<rparr>"
    assume t: "db' = db1\<lparr>sessions := t\<rparr>"
      "insert_row session_conflict ?s (sessions db1) = Some t"
      "q = \<lparr>it_token = ''chs_'' @ fv_secret fresh, it_expires_at = now + seconds (hours * 3600),
         it_user = None, it_workspace = None\<rparr>"
    from t(2) after assms(2) have "t = [?s]"
      by (simp add: insert_row_Some)
    then show ?thesis using t(1,3) b(10) by (intro that [of ?s]) simp_all
  qed
  have users: "users db' = [u]" "row_of us_id (users db1) (us_id u) = Some u" "row_of us_id (users db') (us_id u) = Some u"
    using after s(1) by (simp_all add: row_of_Cons)
  have owner: "principal_role \<lparr>pr_kind = SessionKind, pr_subject_id = i, pr_user_id = Some (us_id u),
      pr_api_key_id = None, pr_api_key_workspace_id = None, pr_api_key_role = None\<rparr> (ws_id w) db2 = Inr Owner"
    if "memberships db2 = memberships db1" for i and db2 :: "'x auth_db_scheme"
    using role_of_new_member [of "\<lparr>mb_workspace_id = ws_id w, mb_user_id = us_id u, mb_role = Owner, mb_created_at = now\<rparr>"
        "memberships db" db2] after that by simp
  have "12 \<le> length pw"
    using b(2) by (simp add: hash_password_def split: if_splits)
  from hashed_password [where scrypt = scrypt, OF assms(3-7) this] b(2)
  have verify: "verify_password scrypt q (us_password_hash u) = Inr (d = digest)"
    if "scrypt q (fv_salt fresh) 16384 8 1 32 = Inr d" for q d
    using that by (metis sum.inject(2))
  have first: "\<exists>p. fst (authenticate sha (it_token issued) t db') = Inr p \<and> principal_role p (ws_id w) db' = Inr Owner"
    if "t < it_expires_at issued" for t
    using new_session_authenticates [OF b(9) _ users(2) b(5), of t] that b(10) owner s(1) by simp
  have again: "\<exists>f. bootstrap scrypt sha id fresh email name pw wname slug hours now db' = (Inl f, db')"
    for fresh email name pw wname slug hours now
    by (rule bootstrap_disabled) (simp add: has_users_def users)
  have later: "if d = digest
        then \<exists>i db2. login scrypt sha ident secret other q hours' t db' = (Inr i, db2) \<and> it_user i = Some u \<and>
          (\<forall>t' < t + seconds (hours' * 3600). \<exists>p. fst (authenticate sha (it_token i) t' db2) = Inr p \<and>
             principal_role p (ws_id w) db2 = Inr Owner)
        else login scrypt sha ident secret other q hours' t db' = (Inl (PermissionError ''invalid email or password''), db')"
    if l: "normalize_email other = normalize_email email" "scrypt q (fv_salt fresh) 16384 8 1 32 = Inr d" "1 \<le> hours'"
      "hours' \<le> 720" "ident \<noteq> fv_session_id fresh" "sha (''chs_'' @ secret) \<noteq> sha (it_token issued)"
    for ident secret other q d hours' t
  proof -
    have "normalize_email other = Inr (us_email u)" using l(1) b(1,3) by simp
    note log = login_single_user [OF users(1) b(5,6) this verify [OF l(2)], of sha ident secret hours' t]
    obtain i ss where i: "create_session sha ident secret (us_id u) hours' t db' = (Inr i, db'\<lparr>sessions := ss\<rparr>)"
      "it_expires_at i = t + seconds (hours' * 3600)" "it_token i = ''chs_'' @ secret"
      using create_session_ok [OF l(3,4) users(3) b(5), of ident sha secret t] l(5,6) s by auto
    show ?thesis
    proof (cases "d = digest")
      case True
      have "\<exists>p. fst (authenticate sha (it_token i) t' (db'\<lparr>sessions := ss\<rparr>)) = Inr p \<and>
          principal_role p (ws_id w) (db'\<lparr>sessions := ss\<rparr>) = Inr Owner" if "t' < t + seconds (hours' * 3600)" for t'
        using new_session_authenticates [OF i(1) _ users(3) b(5), of t'] that i(2) owner s(1) by simp
      with True log i(1) show ?thesis by simp
    qed (use log in simp)
  qed
  show ?thesis
    by (rule exI [of _ u], rule exI [of _ w], intro conjI impI; (elim conjE)?)
      (simp add: b(10), simp add: b(10), erule first, rule again, rule later)
qed

section \<open>Concrete runs\<close>

definition empty_auth_db :: auth_db where
  "empty_auth_db = migration_db.extend (continuous_db.extend empty_continuous_db (migration_db.fields []))
     (auth_db.fields [] [] [] [])"

lemma empty_auth_simps [simp]: "users empty_auth_db = []" "memberships empty_auth_db = []"
    "sessions empty_auth_db = []" "api_keys empty_auth_db = []" "workspaces empty_auth_db = []"
  by (simp_all add: empty_auth_db_def empty_continuous_db_def empty_findings_db_def continuous_db.defs
      findings_db.defs migration_db.defs auth_db.defs)

text \<open>SHA-256 is instantiated by the identity, which has no collisions, and scrypt by \<open>toy_scrypt\<close>.\<close>

definition fresh_a :: fresh where
  "fresh_a = \<lparr>fv_workspace_id = ''w'', fv_user_id = ''a'', fv_salt = replicate 16 7, fv_session_id = ''s'', fv_secret = ''x''\<rparr>"

definition fresh_b :: fresh where
  "fresh_b = \<lparr>fv_workspace_id = ''v'', fv_user_id = ''b'', fv_salt = replicate 16 8, fv_session_id = ''t'', fv_secret = ''y''\<rparr>"

section \<open>A race of two bootstraps\<close>

text \<open>The owner a bootstrap created, as a principal.\<close>

definition session_principal :: "string \<Rightarrow> string \<Rightarrow> principal" where
  "session_principal ident user = \<lparr>pr_kind = SessionKind, pr_subject_id = ident, pr_user_id = Some user,
     pr_api_key_id = None, pr_api_key_workspace_id = None, pr_api_key_role = None\<rparr>"

lemma old_role_kept:
  assumes "insert_row membership_conflict m (memberships db) = Some (memberships db')" "principal_role p w db = Inr r"
  shows "principal_role p w db' = Inr r"
proof -
  have "find P (xs @ [x]) = (case find P xs of None \<Rightarrow> if P x then Some x else None | Some y \<Rightarrow> Some y)"
    for P :: "membership \<Rightarrow> bool" and xs x by (induction xs) simp_all
  with assms show ?thesis
    by (auto simp: principal_role_def first_where_def insert_row_Some split: option.splits if_splits)
qed

lemma insert_owned_Some:
  "insert_owned w (Some u) user now db = Some db' \<longleftrightarrow>
     (\<exists>ws us ms. insert_row workspace_conflict w (workspaces db) = Some ws \<and> insert_row user_conflict u (users db) = Some us \<and>
        insert_row membership_conflict \<lparr>mb_workspace_id = ws_id w, mb_user_id = user, mb_role = Owner, mb_created_at = now\<rparr>
          (memberships db) = Some ms \<and> db' = db\<lparr>workspaces := ws, users := us, memberships := ms\<rparr>)"
  by (auto simp: insert_owned_def split: option.splits)

text \<open>
  Two bootstraps can race. If two different people bootstrap an installation without users, and
  the first commits between the check that there are no users and the commit of the second, then
  both succeed: two accounts exist and each is the owner of a workspace of its own, although a
  bootstrap that starts after the first has committed is refused. The check and the insertion are
  one transaction, but nothing in it conflicts with the other one.
\<close>

theorem bootstrap_race_creates_two_owners:
  fixes db :: "'x auth_db_scheme"
  assumes "bootstrap scrypt sha id fa ea na pa wa sa ha ta db = (Inr a, db1)" "it_workspace a = Some wsa" "it_user a = Some ua"
    and "bootstrap scrypt sha id fb eb nb pb wb sb hb tb db = (Inr b, dbb)" "it_workspace b = Some wsb" "it_user b = Some ub"
    and "ws_id wsa \<noteq> ws_id wsb" "ws_slug wsa \<noteq> ws_slug wsb" "us_id ua \<noteq> us_id ub" "us_email ua \<noteq> us_email ub"
    and "sessions db = []" "fv_session_id fa \<noteq> fv_session_id fb" "sha (it_token a) \<noteq> sha (it_token b)"
  shows "(\<exists>e. bootstrap scrypt sha id fb eb nb pb wb sb hb tb db1 = (Inl e, db1)) \<and>
    (\<exists>db2. bootstrap scrypt sha (\<lambda>_. db1) fb eb nb pb wb sb hb tb db = (Inr b, db2) \<and> users db2 = [ua, ub] \<and>
       principal_role (session_principal (fv_session_id fa) (us_id ua)) (ws_id wsa) db2 = Inr Owner \<and>
       principal_role (session_principal (fv_session_id fb) (us_id ub)) (ws_id wsb) db2 = Inr Owner)"
proof -
  obtain w u d1 q where A: "insert_owned w (Some u) (us_id u) ta db = Some d1"
    "create_session sha (fv_session_id fa) (fv_secret fa) (us_id u) ha ta d1 = (Inr q, db1)"
    "a = q\<lparr>it_user := Some u, it_workspace := Some w\<rparr>" "\<not> has_users db"
    using bootstrap_Inr [OF assms(1)] by (metis id_apply)
  have after: "users d1 = [u]" "sessions d1 = []" "workspaces d1 = workspaces db @ [w]"
    "insert_row membership_conflict \<lparr>mb_workspace_id = ws_id w, mb_user_id = us_id u, mb_role = Owner, mb_created_at = ta\<rparr>
      (memberships db) = Some (memberships d1)"
    using after_bootstrap [OF A(1,4)] A(1) assms(11) by (auto simp: insert_owned_Some insert_row_Some)
  obtain s where s: "db1 = d1\<lparr>sessions := [s]\<rparr>" "sn_id s = fv_session_id fa" "sn_token_hash s = sha (it_token a)"
    by (rule create_session_Inr [OF A(2)]) (use after(2) A(3) in \<open>simp add: insert_row_Some\<close>)
  show ?thesis
  proof (rule bootstrap_run [OF assms(4)])
    fix e v n d2 r
    assume B: "us_active n" "insert_owned v (Some n) (us_id n) tb (id db) = Some d2"
      "create_session sha (fv_session_id fb) (fv_secret fb) (us_id n) hb tb d2 = (Inr r, dbb)"
      "b = r\<lparr>it_user := Some n, it_workspace := Some v\<rparr>"
      and replay: "\<And>env (c :: 'x auth_db_scheme) c1 q c2. \<not> has_users c \<Longrightarrow> insert_owned v (Some n) (us_id n) tb (env c) = Some c1 \<Longrightarrow>
       create_session sha (fv_session_id fb) (fv_secret fb) (us_id n) hb tb c1 = (Inr q, c2) \<Longrightarrow>
       bootstrap scrypt sha env fb eb nb pb wb sb hb tb c = (Inr (q\<lparr>it_user := Some n, it_workspace := Some v\<rparr>), c2)"
    have names: "w = wsa" "u = ua" "v = wsb" "n = ub" using A(3) B(4) assms(2,3,5,6) by simp_all
    let ?mb = "\<lparr>mb_workspace_id = ws_id v, mb_user_id = us_id n, mb_role = Owner, mb_created_at = tb\<rparr>"
    obtain c1 where c1: "insert_owned v (Some n) (us_id n) tb db1 = Some c1" "users c1 = [u, n]" "sessions c1 = [s]"
      "insert_row membership_conflict ?mb (memberships db1) = Some (memberships c1)"
    proof -
      have "insert_row workspace_conflict v (workspaces db1) = Some (workspaces db1 @ [v])"
        "insert_row user_conflict n (users db1) = Some [u, n]"
        "insert_row membership_conflict ?mb (memberships db1) = Some (memberships db1 @ [?mb])"
        using B(2) after assms(7-10) names
        by (auto simp: insert_owned_Some insert_row_Some s(1) workspace_conflict_def user_conflict_def membership_conflict_def)
      then show ?thesis by (intro that [of "db1\<lparr>workspaces := workspaces db1 @ [v], users := [u, n],
          memberships := memberships db1 @ [?mb]\<rparr>"]) (simp_all add: insert_owned_Some s(1))
    qed
    have row: "row_of us_id (users c1) (us_id n) = Some n" using c1(2) names assms(9) by (simp add: row_of_Cons)
    have h: "1 \<le> hb" "hb \<le> 720"
      and r: "r = \<lparr>it_token = ''chs_'' @ fv_secret fb, it_expires_at = tb + seconds (hb * 3600), it_user = None, it_workspace = None\<rparr>"
      by (rule create_session_Inr [OF B(3)]; assumption)+
    have "sn_id x \<noteq> fv_session_id fb \<and> sn_token_hash x \<noteq> sha (''chs_'' @ fv_secret fb)" if "x \<in> set (sessions c1)" for x
      using that c1(3) s(2,3) assms(12,13) B(4) r by simp
    from create_session_ok [where sha = sha and ident = "fv_session_id fb" and secret = "fv_secret fb" and now = tb,
        OF h row B(1) this] obtain i ss where
      i: "create_session sha (fv_session_id fb) (fv_secret fb) (us_id n) hb tb c1 = (Inr i, c1\<lparr>sessions := ss\<rparr>)"
      by blast
    have "i = r" by (rule create_session_Inr [OF i]) (simp add: r)
    have "bootstrap scrypt sha (\<lambda>_. db1) fb eb nb pb wb sb hb tb db = (Inr b, c1\<lparr>sessions := ss\<rparr>)"
      unfolding B(4) \<open>i = r\<close> [symmetric] by (rule replay [OF A(4) _ i]) (rule c1(1))
    moreover have "principal_role (session_principal (fv_session_id fb) (us_id n)) (ws_id v) (c1\<lparr>sessions := ss\<rparr>) = Inr Owner"
      using role_of_new_member [of ?mb "memberships db1" "c1\<lparr>sessions := ss\<rparr>"] c1(4) by (simp add: session_principal_def)
    moreover have "principal_role (session_principal (fv_session_id fa) (us_id u)) (ws_id w) db1 = Inr Owner"
      using role_of_new_member [OF after(4), of "session_principal (fv_session_id fa) (us_id u)"] s(1)
      by (simp add: session_principal_def principal_role_def)
    then have "principal_role (session_principal (fv_session_id fa) (us_id u)) (ws_id w) (c1\<lparr>sessions := ss\<rparr>) = Inr Owner"
      using old_role_kept [of ?mb db1 "c1\<lparr>sessions := ss\<rparr>"] c1(4) by simp
    moreover have "\<exists>e. bootstrap scrypt sha id fb eb nb pb wb sb hb tb db1 = (Inl e, db1)"
      by (rule bootstrap_disabled) (simp add: has_users_def s(1) after(1))
    ultimately show ?thesis using c1(2) names by auto
  qed
qed

section \<open>Witnesses\<close>

lemma toy_digest:
  "toy_scrypt ''correct horse'' (replicate 16 7) 16384 8 1 32 = Inr (map code_of ''correct horse'' @ replicate 16 7 @ replicate 3 0)"
  "toy_scrypt ''correct house'' (replicate 16 7) 16384 8 1 32 = Inr (map code_of ''correct house'' @ replicate 16 7 @ replicate 3 0)"
  "length (map code_of ''correct horse'' @ replicate 16 7 @ replicate 3 (0::nat)) = 32"
  "is_bytes (map code_of ''correct horse'' @ replicate 16 7 @ replicate 3 0)"
  by (simp_all add: toy_scrypt_def numeral_eq_Suc is_bytes_def list_all_iff code_of_def)

lemma sample_emails: "normalize_email ''a@x.y'' = Inr ''a@x.y''" "normalize_email '' A@X.Y'' = Inr ''a@x.y''" "normalize_email ''b@x.y'' = Inr ''b@x.y''"
  by code_simp+

lemma sample_workspaces: "validate_workspace \<lparr>ws_id = ''w'', ws_name = ''Acme'', ws_slug = ''acme'', ws_created_at = t\<rparr> =
     Inr \<lparr>ws_id = ''w'', ws_name = ''Acme'', ws_slug = ''acme'', ws_created_at = t\<rparr>"
  "validate_workspace \<lparr>ws_id = ''v'', ws_name = ''Bobco'', ws_slug = ''bobco'', ws_created_at = t\<rparr> =
     Inr \<lparr>ws_id = ''v'', ws_name = ''Bobco'', ws_slug = ''bobco'', ws_created_at = t\<rparr>"
  by (simp_all add: validate_workspace_def length_between_def slug_pattern_def is_lower_or_digit_def is_lower_def is_digit_def code_of_def)

definition alice :: "(issued_token, auth_db) outcome" where
  "alice = bootstrap toy_scrypt (\<lambda>s. s) id fresh_a ''a@x.y'' ''A'' ''correct horse'' ''Acme'' (Some ''acme'') 12 0 empty_auth_db"

definition bob :: "(issued_token, auth_db) outcome" where
  "bob = bootstrap toy_scrypt (\<lambda>s. s) id fresh_b ''b@x.y'' ''B'' ''battery staple'' ''Bobco'' (Some ''bobco'') 12 0 empty_auth_db"

text \<open>A bootstrap of an empty installation, from the parts that validate.\<close>

lemma bootstrap_empty:
  assumes "normalize_email email = Inr e" "validate_workspace w = Inr w" "validate_user u = Inr u"
    and "w = \<lparr>ws_id = fv_workspace_id fresh, ws_name = wname, ws_slug = s # slug, ws_created_at = now\<rparr>"
    and "u = \<lparr>us_id = fv_user_id fresh, us_email = e, us_display_name = name,
      us_password_hash = [], us_active = True, us_created_at = now\<rparr>"
    and "hash_password scrypt (fv_salt fresh) pw = Inr d" "1 \<le> hours" "hours \<le> 720"
  shows "bootstrap scrypt sha id fresh email name pw wname (Some (s # slug)) hours now empty_auth_db =
    (Inr \<lparr>it_token = ''chs_'' @ fv_secret fresh, it_expires_at = now + seconds (hours * 3600),
       it_user = Some (u\<lparr>us_password_hash := d\<rparr>), it_workspace = Some w\<rparr>,
     empty_auth_db\<lparr>workspaces := [w], users := [u\<lparr>us_password_hash := d\<rparr>],
       memberships := [\<lparr>mb_workspace_id = ws_id w, mb_user_id = us_id u, mb_role = Owner, mb_created_at = now\<rparr>],
       sessions := [\<lparr>sn_id = fv_session_id fresh, sn_user_id = us_id u, sn_token_hash = sha (''chs_'' @ fv_secret fresh),
         sn_created_at = now, sn_expires_at = now + seconds (hours * 3600), sn_last_used_at = None, sn_revoked_at = None\<rparr>]\<rparr>)"
proof -
  have new: "validate_workspace \<lparr>ws_id = fv_workspace_id fresh, ws_name = wname,
      ws_slug = (if truthy (Some (s # slug)) then the (Some (s # slug)) else slugify wname), ws_created_at = now\<rparr> = Inr w"
    "validate_user \<lparr>us_id = fv_user_id fresh, us_email = e, us_display_name = name,
      us_password_hash = [], us_active = True, us_created_at = now\<rparr> = Inr u"
    using assms(2-5) by (simp_all add: truthy_def)
  let ?u = "u\<lparr>us_password_hash := d\<rparr>"
  let ?db = "empty_auth_db\<lparr>workspaces := [w], users := [?u],
       memberships := [\<lparr>mb_workspace_id = ws_id w, mb_user_id = us_id u, mb_role = Owner, mb_created_at = now\<rparr>]\<rparr>"
  have "insert_owned w (Some ?u) (us_id u) (us_created_at u) (id empty_auth_db) = Some ?db"
    using assms(5) by (simp add: insert_owned_def insert_row_def)
  moreover have "row_of us_id (users ?db) (us_id u) = Some ?u" "us_active ?u" "sessions ?db = []"
    using assms(5) by (simp_all add: row_of_Cons)
  then have "create_session sha (fv_session_id fresh) (fv_secret fresh) (us_id u) hours now ?db =
      (Inr \<lparr>it_token = ''chs_'' @ fv_secret fresh, it_expires_at = now + seconds (hours * 3600), it_user = None, it_workspace = None\<rparr>,
       ?db\<lparr>sessions := [\<lparr>sn_id = fv_session_id fresh, sn_user_id = us_id u, sn_token_hash = sha (''chs_'' @ fv_secret fresh),
         sn_created_at = now, sn_expires_at = now + seconds (hours * 3600), sn_last_used_at = None, sn_revoked_at = None\<rparr>]\<rparr>)"
    using assms(7,8) unfolding create_session_def Let_def by (simp add: insert_row_def)
  ultimately show ?thesis
    unfolding bootstrap_eq [OF assms(1) new assms(6)] by (simp add: has_users_def)
qed

definition alice_user :: "string \<Rightarrow> user_row" where
  "alice_user d = \<lparr>us_id = ''a'', us_email = ''a@x.y'', us_display_name = ''A'', us_password_hash = d, us_active = True, us_created_at = 0\<rparr>"

definition bob_user :: "string \<Rightarrow> user_row" where
  "bob_user d = \<lparr>us_id = ''b'', us_email = ''b@x.y'', us_display_name = ''B'', us_password_hash = d, us_active = True, us_created_at = 0\<rparr>"

lemma alice_alone:
  obtains d db' where "alice = (Inr \<lparr>it_token = ''chs_x'', it_expires_at = seconds 43200, it_user = Some (alice_user d),
       it_workspace = Some \<lparr>ws_id = ''w'', ws_name = ''Acme'', ws_slug = ''acme'', ws_created_at = 0\<rparr>\<rparr>, db')"
proof -
  obtain d where d: "hash_password toy_scrypt (replicate 16 7) ''correct horse'' = Inr d"
    by (rule hashed_password [where scrypt = toy_scrypt, OF toy_digest(1,3,4)]) (simp_all add: is_bytes_def list_all_iff)
  have "validate_user (alice_user []) = Inr (alice_user [])"
    by (simp add: alice_user_def validate_user_def length_between_def)
  from bootstrap_empty [where sha = "\<lambda>s. s" and fresh = fresh_a and pw = "''correct horse''" and scrypt = toy_scrypt
      and wname = "''Acme''" and name = "''A''" and d = d and hours = 12 and now = 0,
      OF sample_emails(1) sample_workspaces(1) this] d
  show thesis by (intro that [of d]) (auto simp: alice_def fresh_a_def alice_user_def)
qed

lemma bob_alone:
  obtains d db' where "bob = (Inr \<lparr>it_token = ''chs_y'', it_expires_at = seconds 43200, it_user = Some (bob_user d),
       it_workspace = Some \<lparr>ws_id = ''v'', ws_name = ''Bobco'', ws_slug = ''bobco'', ws_created_at = 0\<rparr>\<rparr>, db')"
proof -
  have "toy_scrypt ''battery staple'' (replicate 16 8) 16384 8 1 32 =
      Inr (map code_of ''battery staple'' @ replicate 16 8 @ replicate 2 0)"
    "length (map code_of ''battery staple'' @ replicate 16 8 @ replicate 2 (0::nat)) = 32"
    "is_bytes (map code_of ''battery staple'' @ replicate 16 8 @ replicate 2 0)"
    by (simp_all add: toy_scrypt_def numeral_eq_Suc is_bytes_def list_all_iff code_of_def)
  then obtain d where d: "hash_password toy_scrypt (replicate 16 8) ''battery staple'' = Inr d"
    by (rule hashed_password [where scrypt = toy_scrypt]) (simp_all add: is_bytes_def list_all_iff)
  have "validate_user (bob_user []) = Inr (bob_user [])"
    by (simp add: bob_user_def validate_user_def length_between_def)
  from bootstrap_empty [where sha = "\<lambda>s. s" and fresh = fresh_b and pw = "''battery staple''" and scrypt = toy_scrypt
      and wname = "''Bobco''" and name = "''B''" and d = d and hours = 12 and now = 0,
      OF sample_emails(3) sample_workspaces(2) this] d
  show thesis by (intro that [of d]) (auto simp: bob_def fresh_b_def bob_user_def)
qed

theorem bootstrap_then_login_witness:
  "\<exists>i db'. login toy_scrypt (\<lambda>s. s) ''t'' ''z'' '' A@X.Y'' ''correct horse'' 1 5 (snd alice) = (Inr i, db') \<and>
     map_option us_email (it_user i) = Some ''a@x.y'' \<and>
     login toy_scrypt (\<lambda>s. s) ''t'' ''z'' '' A@X.Y'' ''correct house'' 1 5 (snd alice) =
       (Inl (PermissionError ''invalid email or password''), snd alice)"
proof -
  obtain d db' where a: "alice = (Inr \<lparr>it_token = ''chs_x'', it_expires_at = seconds 43200, it_user = Some (alice_user d),
      it_workspace = Some \<lparr>ws_id = ''w'', ws_name = ''Acme'', ws_slug = ''acme'', ws_created_at = 0\<rparr>\<rparr>, db')"
    by (rule alice_alone)
  define good where "good = map code_of ''correct horse'' @ replicate 16 7 @ replicate 3 (0::nat)"
  define bad where "bad = map code_of ''correct house'' @ replicate 16 7 @ replicate 3 (0::nat)"
  have ne: "bad \<noteq> good" by (simp add: good_def bad_def code_of_def)
  have salt: "fv_salt fresh_a = replicate 16 7" "length (fv_salt fresh_a) = 16" "is_bytes (fv_salt fresh_a)"
    and ids: "fv_session_id fresh_a = ''s''"
    by (simp_all add: fresh_a_def is_bytes_def list_all_iff)
  note digest = toy_digest [folded good_def bad_def, folded salt(1)]
  note log = bootstrap_then_login [OF a [unfolded alice_def] empty_auth_simps(3) digest(1,3,4) salt(2,3),
      where other = "'' A@X.Y''" and hours' = 1 and ident = "''t''" and secret = "''z''" and now' = 5
      and t = 0 and freshB = fresh_a and emailB = "[]" and nameB = "[]" and pwB = "[]" and wnameB = "[]"
      and slugB = None and hoursB = 1 and nowB = 0]
  have mail: "normalize_email '' A@X.Y'' = normalize_email ''a@x.y''" by (simp only: sample_emails)
  have "\<exists>i db2. login toy_scrypt (\<lambda>s. s) ''t'' ''z'' '' A@X.Y'' ''correct horse'' 1 5 db' = (Inr i, db2) \<and> it_user i = Some (alice_user d)"
    using log [where q = "''correct horse''" and d = good] mail digest(1) ids by auto
  moreover have "login toy_scrypt (\<lambda>s. s) ''t'' ''z'' '' A@X.Y'' ''correct house'' 1 5 db' = (Inl (PermissionError ''invalid email or password''), db')"
    using log [where q = "''correct house''" and d = bad] mail digest(2) ids ne by auto
  ultimately show ?thesis by (auto simp: a alice_user_def)
qed

theorem bootstrap_race_creates_two_owners_witness:
  "\<exists>b db2 ha hb. bootstrap toy_scrypt (\<lambda>s. s) (\<lambda>_. snd alice) fresh_b ''b@x.y'' ''B'' ''battery staple'' ''Bobco'' (Some ''bobco'') 12 0
     empty_auth_db = (Inr b, db2) \<and> users db2 = [alice_user ha, bob_user hb]"
proof -
  obtain da dba where a: "alice = (Inr \<lparr>it_token = ''chs_x'', it_expires_at = seconds 43200, it_user = Some (alice_user da),
      it_workspace = Some \<lparr>ws_id = ''w'', ws_name = ''Acme'', ws_slug = ''acme'', ws_created_at = 0\<rparr>\<rparr>, dba)"
    by (rule alice_alone)
  obtain db dbb where b: "bob = (Inr \<lparr>it_token = ''chs_y'', it_expires_at = seconds 43200, it_user = Some (bob_user db),
      it_workspace = Some \<lparr>ws_id = ''v'', ws_name = ''Bobco'', ws_slug = ''bobco'', ws_created_at = 0\<rparr>\<rparr>, dbb)"
    by (rule bob_alone)
  have "snd alice = dba" by (simp add: a)
  note dba = this
  have "\<exists>db2. bootstrap toy_scrypt (\<lambda>s. s) (\<lambda>_. dba) fresh_b ''b@x.y'' ''B'' ''battery staple'' ''Bobco'' (Some ''bobco'') 12 0
     empty_auth_db = (Inr (projr (fst bob)), db2) \<and> users db2 = [alice_user da, bob_user db]"
    using bootstrap_race_creates_two_owners [OF a [unfolded alice_def] _ _ b [unfolded bob_def],
        of "\<lparr>ws_id = ''w'', ws_name = ''Acme'', ws_slug = ''acme'', ws_created_at = 0\<rparr>" "alice_user da"
          "\<lparr>ws_id = ''v'', ws_name = ''Bobco'', ws_slug = ''bobco'', ws_created_at = 0\<rparr>" "bob_user db"]
    by (auto simp: b alice_user_def bob_user_def fresh_a_def fresh_b_def)
  then show ?thesis unfolding dba by blast
qed

definition team_db :: auth_db where
  "team_db = empty_auth_db\<lparr>workspaces := [\<lparr>ws_id = ''w'', ws_name = ''Acme'', ws_slug = ''acme'', ws_created_at = 0\<rparr>],
     users := [alice_user [], bob_user []],
     memberships := [\<lparr>mb_workspace_id = ''w'', mb_user_id = ''a'', mb_role = Owner, mb_created_at = 0\<rparr>,
       \<lparr>mb_workspace_id = ''w'', mb_user_id = ''b'', mb_role = Admin, mb_created_at = 0\<rparr>],
     sessions := [\<lparr>sn_id = ''t'', sn_user_id = ''b'', sn_token_hash = ''chs_y'', sn_created_at = 0, sn_expires_at = 100,
       sn_last_used_at = None, sn_revoked_at = None\<rparr>]\<rparr>"

lemma team_ok: "auth_ok team_db" "exists_workspace ''w'' team_db"
  by (simp_all add: team_db_def auth_ok_def keyed_def alice_user_def bob_user_def exists_workspace_def row_of_Cons)

theorem no_role_escalation_witness:
  "grants_of ''w'' (snd (create_api_key (\<lambda>s. s) ''k'' ''q'' (session_principal ''t'' ''b'') ''w'' ''ci'' Admin None 5 team_db)) = [(''k'', Admin)] \<and>
   principal_role (session_principal ''t'' ''b'') ''w''
     (snd (create_api_key (\<lambda>s. s) ''k'' ''q'' (session_principal ''t'' ''b'') ''w'' ''ci'' Admin None 5 team_db)) \<noteq> Inr Owner"
proof -
  let ?p = "session_principal ''t'' ''b''"
  let ?db = "snd (create_api_key (\<lambda>s. s) ''k'' ''q'' ?p ''w'' ''ci'' Admin None 5 team_db)"
  have role: "principal_role ?p ''w'' team_db = Inr Admin"
    by (simp add: session_principal_def principal_role_def team_db_def first_where_def)
  have "calls_by toy_scrypt (\<lambda>s. s) {?p} team_db ?db"
    unfolding calls_by_def by (intro exI [of _ "Some ?p"] conjI auth_call.create_key) simp
  note run = r_into_rtranclp [where r = "calls_by toy_scrypt (\<lambda>s. s) {?p}", OF this]
  have "\<forall>p \<in> {?p}. \<forall>r. principal_role p ''w'' team_db = Inr r \<longrightarrow> role_rank r \<le> 30"
    by (simp add: role)
  from no_role_escalation [OF run team_ok this]
  have "\<forall>p \<in> {?p}. \<forall>r. principal_role p ''w'' ?db = Inr r \<longrightarrow> role_rank r \<le> 30" by (rule conjunct1)
  then have "principal_role ?p ''w'' ?db \<noteq> Inr Owner" by auto
  moreover have "grants_of ''w'' ?db = [(''k'', Admin)]"
  proof -
    have "authorize_workspace ?p ''w'' Admin team_db = Inr Admin" by (simp add: authorize_workspace_def role)
    moreover have "api_keys team_db = []" by (simp add: team_db_def)
    ultimately show ?thesis
      by (simp add: create_api_key_def api_key_from_record_def length_between_def insert_row_def Let_def
          grants_of_def keys_of_def)
  qed
  ultimately show ?thesis by simp
qed

theorem dead_credentials_stay_dead_witness:
  "fst (authenticate (\<lambda>s. s) ''chs_y'' 10 team_db) = Inr (session_principal ''t'' ''b'') \<and>
   (\<exists>e. fst (authenticate (\<lambda>s. s) ''chs_y'' 30
     (revoke_session (session_principal ''t'' ''b'') 20 (snd (authenticate (\<lambda>s. s) ''chs_y'' 10 team_db)))) = Inl (PermissionError e))"
proof -
  have "fst (authenticate (\<lambda>s. s) ''chs_y'' 10 team_db) = Inr (session_principal ''t'' ''b'')"
    by (simp add: authenticate_def startswith_def team_db_def row_of_Cons alice_user_def bob_user_def session_principal_def)
  then have auth: "authenticate (\<lambda>s. s) ''chs_y'' 10 team_db =
      (Inr (session_principal ''t'' ''b''), snd (authenticate (\<lambda>s. s) ''chs_y'' 10 team_db))"
    by (simp add: prod_eq_iff)
  with dead_credentials_stay_dead [where sha = "\<lambda>s. s" and token = "''chs_y''" and t = 10 and t' = 20 and now = 30 and
      scrypt = toy_scrypt and p = "session_principal ''t'' ''b''", OF team_ok(1)]
  show ?thesis
    by (metis (no_types, lifting) fst_conv principal.select_convs(1) rtranclp.rtrancl_refl session_principal_def)
qed

end
