(* ===== verification/PolicyActivation.thy ===== *)
theory PolicyActivation
  imports PolicyHistory AccessControl
begin

text \<open>
  What activating a policy version does, undisturbed and in a race with another activation, the two
  errors of a repeated slug, and concrete runs of the policy store.
\<close>

section \<open>Activation\<close>

lemma seeded_by_version:
  assumes "store_ok h W s" "v \<in> set (st_versions s)" "pv_workspace_id v = w"
  shows "seeded h w s"
  using store_versionD [OF assms(1,2)] store_packD(2) [OF assms(1)] assms(3) by metis

lemma seeded_assignment:
  assumes "seeded h w (store_of db)"
  obtains a where "row_of pa_workspace_id (policy_assignments db) w = Some a"
  using assms by (cases "row_of pa_workspace_id (policy_assignments db) w") (auto simp: seeded_def row_of_None)

text \<open>The row an activation writes over the current row \<open>r\<close> when it had read \<open>a\<close>.\<close>

definition activated :: "string \<Rightarrow> string \<Rightarrow> time \<Rightarrow> policy_assignment \<Rightarrow> policy_assignment \<Rightarrow> policy_assignment" where
  "activated vid by now a r =
     r\<lparr>pa_policy_version_id := flush (pa_policy_version_id a) vid (pa_policy_version_id r),
       pa_assigned_by := flush (pa_assigned_by a) (take 200 (strip by)) (pa_assigned_by r),
       pa_assigned_at := flush (pa_assigned_at a) now (pa_assigned_at r)\<rparr>"

lemma set_assignment_update:
  "set_assignment w vid by now (Some a) t = Some (update_where (\<lambda>r. pa_workspace_id r = w) (activated vid by now a) t)"
  by (simp add: set_assignment_def activated_def [abs_def])

lemma activated_fields:
  "pa_workspace_id (activated vid by now a r) = pa_workspace_id r"
  "activated vid by now a a = a\<lparr>pa_policy_version_id := vid, pa_assigned_by := take 200 (strip by), pa_assigned_at := now\<rparr>"
  by (simp_all add: activated_def)

lemma activated_row:
  "row_of pa_workspace_id (update_where (\<lambda>r. pa_workspace_id r = w) (activated vid by now a) t) w =
     map_option (activated vid by now a) (row_of pa_workspace_id t w)"
  by (simp add: row_of_update_at activated_fields)

text \<open>
  An activation, in a state where it finds its version: \<open>mid\<close> is what is committed between reading
  the assignment and writing it.
\<close>

lemma activate_seeded:
  assumes "row_of ws_id (workspaces db) w \<noteq> None" "strip author \<noteq> []"
    and "seeded h w (store_of db)" "row_of pa_workspace_id (policy_assignments db) w = Some a"
    and "v \<in> set (policy_versions db)" "keyed (\<lambda>v. (pv_policy_id v, pv_version v)) (policy_versions db)" "pv_workspace_id v = w"
    and "env 0 = id" "env 2 = id" "seeded h w (store_of (env 1 db))" "workspaces (env 1 db) = workspaces db"
  shows "activate_policy h env clock w (pv_policy_id v) (pv_version v) author now db =
    (let db' = (env 1 db)\<lparr>policy_assignments := update_where (\<lambda>r. pa_workspace_id r = w) (activated (pv_id v) author now a)
        (policy_assignments (env 1 db))\<rparr>
     in (read_effective w db', db'))"
proof -
  have "x = v" if "x \<in> set (policy_versions db)" "pv_policy_id x = pv_policy_id v" "pv_version x = pv_version v" for x
    by (rule keyed_same [OF assms(6) that(1) assms(5)]) (use that in simp)
  note only = this
  have found: "first_where (\<lambda>x. pv_workspace_id x = w \<and> pv_policy_id x = pv_policy_id v \<and> pv_version x = pv_version v)
      (policy_versions db) = Some v" (is "first_where ?P _ = _")
  proof (cases "find ?P (policy_versions db)")
    case None
    with assms(5,7) show ?thesis by (auto simp: find_NoneD)
  next
    case (Some x)
    with find_SomeD [OF Some] only [of x] show ?thesis by (simp add: first_where_def)
  qed
  have ensured: "ensure_builtins h id w now db = (Inr (), db)"
    using ensure_seeded [OF assms(3,1), where env = id and now = now] by simp
  let ?db = "(env 1 db)\<lparr>policy_assignments := update_where (\<lambda>r. pa_workspace_id r = w) (activated (pv_id v) author now a)
        (policy_assignments (env 1 db))\<rparr>"
  have "map pa_workspace_id (update_where (\<lambda>r. pa_workspace_id r = w) (activated vid author now a) t) = map pa_workspace_id t" for vid t
    by (simp add: update_where_def activated_fields)
  from arg_cong [where f = set, OF this] have "store_grows (store_of (env 1 db)) (store_of ?db)"
    by (simp add: store_grows_def)
  then have "seeded h w (store_of ?db)" by (rule seeded_grows [OF assms(10)])
  then have "ensure_builtins h id w clock ?db = (Inr (), ?db)"
    using ensure_seeded [where env = id and now = clock and db = ?db] assms(1,11) by simp
  then show ?thesis
    using assms(2,4,8,9) ensured found
    by (simp add: activate_policy_def set_assignment_update effective_policy_of_def Let_def)
qed

lemma ok_keys:
  assumes "store_ok h W (store_of db)"
  shows "keyed pv_id (policy_versions db)" "keyed (\<lambda>v. (pv_policy_id v, pv_version v)) (policy_versions db)"
    "keyed pa_workspace_id (policy_assignments db)" "keyed pp_id (policy_packs db)"
  using assms by (simp_all add: store_ok_def store_keyed_def)

text \<open>Activating keeps the store in order, so the assigned version can be read.\<close>

lemma activated_store_ok:
  assumes "store_ok h W (store_of db)" "v \<in> set (policy_versions db)" "pv_workspace_id v = w"
  shows "store_ok h W (store_of (db\<lparr>policy_assignments := update_where (\<lambda>r. pa_workspace_id r = w)
    (activated (pv_id v) author now a) (policy_assignments db)\<rparr>))"
proof -
  have "reassigned (pv_workspace_id v) (pv_id v) (st_assignments (store_of db))
      (update_where (\<lambda>r. pa_workspace_id r = w) (activated (pv_id v) author now a) (policy_assignments db))"
    using set_assignment_update [of w "pv_id v" author now a] assms(3) by (auto simp: reassigned_def)
  from store_step.activation [OF _ this, of h W] assms(2)
  have "store_step h W (store_of db) (store_of (db\<lparr>policy_assignments := update_where (\<lambda>r. pa_workspace_id r = w)
    (activated (pv_id v) author now a) (policy_assignments db)\<rparr>))"
    by (simp add: store_of_assign)
  then show ?thesis by (rule store_step_ok [OF _ assms(1)])
qed

text \<open>
  Activating a version takes effect. Undisturbed, activating a stored version of an existing
  workspace succeeds and returns that version with the caller and the time as its assignment, and
  every later reading of the effective policy of this workspace returns the same until another
  policy is activated there; the other workspaces keep their assignment.
\<close>

theorem activation_takes_effect:
  assumes "store_ok h W (store_of db)" "ids_ok h W" "row_of ws_id (workspaces db) w \<noteq> None" "strip author \<noteq> []"
    and "v \<in> set (policy_versions db)" "pv_workspace_id v = w"
  shows "\<exists>ep db'. activate_policy h (\<lambda>_. id) clock w (pv_policy_id v) (pv_version v) author now db = (Inr ep, db') \<and>
    ep_version ep = v \<and> ep_assigned_by ep = take 200 (strip author) \<and> ep_assigned_at ep = now \<and>
    effective_policy_of h id clock' w db' = (Inr ep, db') \<and>
    (\<forall>x. x \<noteq> w \<longrightarrow> row_of pa_workspace_id (policy_assignments db') x = row_of pa_workspace_id (policy_assignments db) x)"
proof -
  have seeded: "seeded h w (store_of db)" by (rule seeded_by_version [OF assms(1)]) (use assms(5,6) in simp_all)
  then obtain a where a: "row_of pa_workspace_id (policy_assignments db) w = Some a" by (rule seeded_assignment)
  let ?db = "db\<lparr>policy_assignments := update_where (\<lambda>r. pa_workspace_id r = w) (activated (pv_id v) author now a) (policy_assignments db)\<rparr>"
  let ?a = "a\<lparr>pa_policy_version_id := pv_id v, pa_assigned_by := take 200 (strip author), pa_assigned_at := now\<rparr>"
  have act: "activate_policy h (\<lambda>_. id) clock w (pv_policy_id v) (pv_version v) author now db = (read_effective w ?db, ?db)"
    using activate_seeded [where env = "\<lambda>_. id", OF assms(3,4) seeded a assms(5) ok_keys(2) [OF assms(1)] assms(6)] seeded
    by (simp add: Let_def)
  note ok = activated_store_ok [OF assms(1,5,6), of author now a]
  have row: "row_of pa_workspace_id (policy_assignments ?db) w = Some ?a"
    using a by (simp add: activated_row activated_fields(2))
  obtain p where p: "read_effective w ?db = Inr \<lparr>ep_pack = p, ep_version = v, ep_assigned_by = take 200 (strip author), ep_assigned_at = now\<rparr>"
    using read_assigned [OF ok assms(2) row, of v] assms(5) by auto
  have "seeded h w (store_of ?db)" by (rule seeded_by_version [OF ok]) (use assms(5,6) in simp_all)
  then have "effective_policy_of h id clock' w ?db = (read_effective w ?db, ?db)"
    using ensure_seeded [where env = id and db = ?db and now = clock'] assms(3) by (simp add: effective_policy_of_def)
  moreover have "row_of pa_workspace_id (policy_assignments ?db) x = row_of pa_workspace_id (policy_assignments db) x" if "x \<noteq> w" for x
    using that by (simp add: row_of_update_at activated_fields)
  ultimately show ?thesis using act p by simp
qed

text \<open>
  Racing activations are misattributed. If the policy of a workspace was assigned by some caller
  and the same caller activates another version, while someone else's activation commits between
  the reading and the writing of the assignment, then the version of the first caller wins but the
  assignment names the other one: the session only writes the columns whose value changed since it
  read them. So the record of who assigned the effective policy is wrong.
\<close>

theorem activation_race_misattributes:
  fixes db :: "'x policy_db_scheme"
  assumes "store_ok h W (store_of db)" "ids_ok h W" "row_of ws_id (workspaces db) w \<noteq> None"
    and "strip ann \<noteq> []" "strip ben \<noteq> []" "take 200 (strip ben) \<noteq> take 200 (strip ann)"
    and "u \<in> set (policy_versions db)" "pv_workspace_id u = w" "v \<in> set (policy_versions db)" "pv_workspace_id v = w"
    and "row_of pa_workspace_id (policy_assignments db) w = Some a" "pa_assigned_by a = take 200 (strip ann)"
    and "pa_policy_version_id a \<noteq> pv_id v" "pa_assigned_at a \<noteq> now"
  shows "\<exists>ep db'. activate_policy h (\<lambda>n d. if n = 1 then snd (activate_policy h (\<lambda>_. id) clock2 w (pv_policy_id u) (pv_version u) ben now2 d) else d)
      clock w (pv_policy_id v) (pv_version v) ann now db = (Inr ep, db') \<and>
    ep_version ep = v \<and> ep_assigned_at ep = now \<and> ep_assigned_by ep = take 200 (strip ben)"
proof -
  have seeded: "seeded h w (store_of db)" by (rule seeded_by_version [OF assms(1)]) (use assms(9,10) in simp_all)
  define db1 where "db1 = db\<lparr>policy_assignments := update_where (\<lambda>r. pa_workspace_id r = w) (activated (pv_id u) ben now2 a) (policy_assignments db)\<rparr>"
  have ben: "snd (activate_policy h (\<lambda>_. id) clock2 w (pv_policy_id u) (pv_version u) ben now2 db) = db1"
    using activate_seeded [where env = "\<lambda>_. id", OF assms(3,5) seeded assms(11,7) ok_keys(2) [OF assms(1)] assms(8)] seeded
    by (simp add: Let_def db1_def)
  have ok1: "store_ok h W (store_of db1)" unfolding db1_def by (rule activated_store_ok [OF assms(1,7,8)])
  have seeded1: "seeded h w (store_of db1)" by (rule seeded_by_version [OF ok1]) (use assms(9,10) in \<open>simp_all add: db1_def\<close>)
  define env where "env = (\<lambda>n (d :: 'x policy_db_scheme). if n = (1::nat) then snd (activate_policy h (\<lambda>_. id) clock2 w (pv_policy_id u) (pv_version u) ben now2 d) else d)"
  have env: "env 0 = id" "env 2 = id" "env 1 db = db1" by (simp_all add: env_def ben fun_eq_iff)
  let ?db = "db1\<lparr>policy_assignments := update_where (\<lambda>r. pa_workspace_id r = w) (activated (pv_id v) ann now a) (policy_assignments db1)\<rparr>"
  have act: "activate_policy h env clock w (pv_policy_id v) (pv_version v) ann now db = (read_effective w ?db, ?db)"
    using activate_seeded [where env = env and now = now and clock = clock, OF assms(3,4) seeded assms(11,9) ok_keys(2) [OF assms(1)] assms(10) env(1,2)]
    unfolding env(3) Let_def using seeded1 by (simp add: db1_def)
  have v1: "v \<in> set (policy_versions db1)" using assms(9) by (simp add: db1_def)
  note ok = activated_store_ok [OF ok1 v1 assms(10), of ann now a]
  have "row_of pa_workspace_id (policy_assignments ?db) w = Some (activated (pv_id v) ann now a (activated (pv_id u) ben now2 a a))"
    using assms(11) by (simp add: db1_def activated_row)
  then have row: "row_of pa_workspace_id (policy_assignments ?db) w =
      Some (a\<lparr>pa_policy_version_id := pv_id v, pa_assigned_by := take 200 (strip ben), pa_assigned_at := now\<rparr>)"
    using assms(12-14) unfolding activated_fields(2) by (simp add: activated_def flush_def)
  from read_assigned [OF ok assms(2) row, of v] v1 show ?thesis unfolding env_def [symmetric] act by auto
qed

text \<open>
  A repeated slug is refused in two ways. Creating a pack under a slug that the workspace already
  uses changes nothing; but the caller is told that the slug exists only if the pack is not to be
  activated at once. With activation the constraint is violated when the assignment is read, outside
  the handler, and the database error escapes.
\<close>

theorem repeated_slug_error:
  assumes "store_ok h W (store_of db)" "row_of ws_id (workspaces db) w \<noteq> None"
    and "q \<in> set (policy_packs db)" "pp_workspace_id q = w" "pp_slug q = lower (strip slug)"
    and "policy_slug_ok (lower (strip slug))" "strip name \<noteq> []" "strip author \<noteq> []"
  shows "create_pack h (\<lambda>_. id) clock pid vid w slug name descr rules author act now db =
    (Inl (if act then IntegrityError else ValueError ''policy slug already exists in workspace''), db)"
proof -
  have "seeded h w (store_of db)" using store_packD(2) [OF assms(1)] assms(3,4) by auto
  then have "ensure_builtins h id w now db = (Inr (), db)"
    using ensure_seeded [where env = id and now = now] assms(2) by simp
  moreover have "commit_policy [\<lparr>pp_id = pid, pp_workspace_id = w, pp_slug = lower (strip slug), pp_name = n, pp_description = t,
      pp_built_in = False, pp_created_by = c, pp_created_at = now\<rparr>] v activate by' now loaded db = None" for n t c v activate by' loaded
  proof -
    have "insert_row pack_conflict \<lparr>pp_id = pid, pp_workspace_id = w, pp_slug = lower (strip slug), pp_name = n, pp_description = t,
      pp_built_in = False, pp_created_by = c, pp_created_at = now\<rparr> (policy_packs db) = None"
      using assms(3-5) by (auto simp: insert_row_None pack_conflict_def)
    then show ?thesis by (simp add: commit_policy_def)
  qed
  ultimately show ?thesis using assms(6-8) by (simp add: create_pack_def Let_def)
qed

section \<open>Concrete runs\<close>

text \<open>A digest of 64 characters that keeps the ids of the built-in rows apart.\<close>

definition toy_policy_hashing :: policy_hashing where
  "toy_policy_hashing = \<lparr>pl_sha256 = (\<lambda>s. take 64 (rev s @ replicate 64 (CHR ''0''))),
     pl_rules_payload = (\<lambda>r. str_of_int (minimum_rsa_bits r))\<rparr>"

lemma toy_ids_ok: "ids_ok toy_policy_hashing {''w''}"
proof -
  let ?vs = "map (\<lambda>b. ''builtin-policy:'' @ fst b) builtin_packs @ map (\<lambda>b. ''builtin-policy:'' @ fst b @ '':v1'') builtin_packs"
  have "distinct (map (stable_id toy_policy_hashing ''w'') ?vs)" by code_simp
  then have "inj_on (stable_id toy_policy_hashing ''w'') (set ?vs)" unfolding distinct_map by (rule conjunct2)
  moreover have "builtin_values = set ?vs" unfolding builtin_values_def set_append set_map ..
  ultimately have "inj_on (stable_id toy_policy_hashing ''w'') builtin_values" by (simp only:)
  moreover have "length (pl_sha256 toy_policy_hashing s) = 64" for s by (simp add: toy_policy_hashing_def)
  ultimately show ?thesis by (auto simp: ids_ok_def inj_on_def)
qed

definition bare_db :: policy_db where
  "bare_db = auth_db.extend empty_auth_db (policy_db.fields [] [] [])
     \<lparr>workspaces := [\<lparr>ws_id = ''w'', ws_name = ''Acme'', ws_slug = ''acme'', ws_created_at = 0\<rparr>]\<rparr>"

lemma bare_tables [simp]: "policy_packs bare_db = []" "policy_versions bare_db = []" "policy_assignments bare_db = []"
    "workspaces bare_db = [\<lparr>ws_id = ''w'', ws_name = ''Acme'', ws_slug = ''acme'', ws_created_at = 0\<rparr>]"
  by (simp_all add: bare_db_def auth_db.defs policy_db.defs)

lemma bare_ok: "store_ok h W (store_of bare_db)" "\<not> seeded h w (store_of bare_db)" "row_of ws_id (workspaces bare_db) ''w'' \<noteq> None"
  by (simp_all add: store_ok_def store_keyed_def packs_ok_def versions_ok_def assignments_ok_def keyed_def seeded_def row_of_Cons)

lemma rely_alone: "rely h W id"
  by (simp add: rely_def)

definition seeded_db :: policy_db where
  "seeded_db = snd (effective_policy_of toy_policy_hashing id 0 ''w'' bare_db)"

lemma seeded_db_call: "policy_call toy_policy_hashing {''w''} bare_db seeded_db"
  unfolding seeded_db_def by (rule policy_call.effective) (simp_all add: rely_alone)

lemma seeded_db_ok: "store_ok toy_policy_hashing {''w''} (store_of seeded_db)"
  by (rule policy.steps_inv [OF policy_call_runs [OF seeded_db_call bare_ok(1) toy_ids_ok] bare_ok(1)])

lemma seeded_db_eq: "seeded_db = bare_db\<lparr>policy_packs := map (builtin_pack toy_policy_hashing ''w'' 0) builtin_packs,
    policy_versions := map (builtin_version toy_policy_hashing ''w'' 0) builtin_packs,
    policy_assignments := [default_assignment toy_policy_hashing ''w'' 0]\<rparr>"
  using ensure_unseeded [where env = id and now = 0, OF bare_ok(1) toy_ids_ok _ _ bare_ok(3,2)] bare_ok(1,2)
  by (simp add: seeded_db_def effective_policy_of_def)

lemma seeded_db_rows: "row_of ws_id (workspaces seeded_db) ''w'' \<noteq> None"
    "row_of pa_workspace_id (policy_assignments seeded_db) ''w'' = Some (default_assignment toy_policy_hashing ''w'' 0)"
    "b \<in> set builtin_packs \<Longrightarrow> builtin_version toy_policy_hashing ''w'' 0 b \<in> set (policy_versions seeded_db)"
  by (simp_all add: seeded_db_eq row_of_Cons default_assignment_def)

theorem policy_history_stays_consistent_witness:
  "length (policy_versions seeded_db) = 3 \<and> pv_version ` set (policy_versions seeded_db) = {1}"
proof -
  note ok = policy_history_stays_consistent [OF r_into_rtranclp [where r = "policy_call toy_policy_hashing {''w''}", OF seeded_db_call]
      bare_ok(1) toy_ids_ok]
  have "pp_built_in p" if "p \<in> set (policy_packs seeded_db)" for p
    using that by (auto simp: seeded_db_eq builtin_pack_def)
  with ok have one: "\<forall>p \<in> set (policy_packs seeded_db). \<forall>v \<in> set (policy_versions seeded_db). pv_policy_id v = pp_id p \<longrightarrow> pv_version v = 1"
    by blast
  have "\<exists>p \<in> set (policy_packs seeded_db). pv_policy_id v = pp_id p" if "v \<in> set (policy_versions seeded_db)" for v
    using that by (auto simp: seeded_db_eq builtin_pack_def builtin_version_def split: prod.splits intro!: bexI)
  with one have "\<forall>v \<in> set (policy_versions seeded_db). pv_version v = 1" by blast
  moreover have three: "length (policy_versions seeded_db) = 3" by (simp add: seeded_db_eq builtin_packs_def)
  moreover from three have "set (policy_versions seeded_db) \<noteq> {}" by (metis list.size(3) set_empty zero_neq_numeral)
  ultimately show ?thesis by (auto simp: image_constant_conv)
qed

theorem effective_policy_always_resolves_witness:
  "\<exists>ep db'. effective_policy_of toy_policy_hashing id 0 ''w'' bare_db = (Inr ep, db') \<and> pv_rules (ep_version ep) = default_rules"
proof -
  have "''w'' \<in> {''w''}" by simp
  from effective_policy_always_resolves [where env = id and clock = 0, OF bare_ok(1) toy_ids_ok this rely_alone bare_ok(3)]
  obtain ep db' where "effective_policy_of toy_policy_hashing id 0 ''w'' bare_db = (Inr ep, db')"
    "ep_version ep = builtin_version toy_policy_hashing ''w'' 0 (hd builtin_packs)"
    using bare_ok(2) by (metis id_apply)
  then show ?thesis by (simp add: builtin_fields builtin_packs_def)
qed

definition strict_modern :: "string \<times> string \<times> string \<times> crypto_policy_rules" where
  "strict_modern = builtin_packs ! 1"

definition long_lived :: "string \<times> string \<times> string \<times> crypto_policy_rules" where
  "long_lived = builtin_packs ! 2"

lemma sample_builtins: "strict_modern \<in> set builtin_packs" "long_lived \<in> set builtin_packs"
    "fst strict_modern = ''strict-modern''" "snd (snd (snd strict_modern)) = strict_modern_rules"
  by (simp_all add: strict_modern_def long_lived_def builtin_packs_def)

theorem activation_takes_effect_witness:
  "\<exists>ep db'. activate_policy toy_policy_hashing (\<lambda>_. id) 7 ''w'' (builtin_policy_id toy_policy_hashing ''w'' ''strict-modern'') 1 ''ann'' 5 seeded_db
     = (Inr ep, db') \<and> pv_rules (ep_version ep) = strict_modern_rules \<and> effective_policy_of toy_policy_hashing id 9 ''w'' db' = (Inr ep, db')"
proof -
  let ?v = "builtin_version toy_policy_hashing ''w'' 0 strict_modern"
  have "strip ''ann'' \<noteq> []" by code_simp
  from activation_takes_effect [OF seeded_db_ok toy_ids_ok seeded_db_rows(1) this seeded_db_rows(3) [OF sample_builtins(1)], of 7 5 9]
  show ?thesis by (auto simp: builtin_fields sample_builtins)
qed

theorem activation_race_misattributes_witness:
  "\<exists>db a. row_of pa_workspace_id (policy_assignments db) ''w'' = Some a \<and> pa_assigned_by a = ''ann'' \<and>
     (\<exists>ep db'. activate_policy toy_policy_hashing (\<lambda>n d. if n = 1 then snd (activate_policy toy_policy_hashing (\<lambda>_. id) 8 ''w''
          (builtin_policy_id toy_policy_hashing ''w'' ''cryptohawk-recommended'') 1 ''ben'' 8 d) else d)
        9 ''w'' (builtin_policy_id toy_policy_hashing ''w'' ''strict-modern'') 1 ''ann'' 9 (db :: policy_db) = (Inr ep, db') \<and>
      pv_rules (ep_version ep) = strict_modern_rules \<and> ep_assigned_by ep = ''ben'')"
proof -
  let ?v = "builtin_version toy_policy_hashing ''w'' 0 strict_modern"
  let ?u = "builtin_version toy_policy_hashing ''w'' 0 (hd builtin_packs)"
  let ?a = "activated (pv_id ?u) ''ann'' 5 (default_assignment toy_policy_hashing ''w'' 0) (default_assignment toy_policy_hashing ''w'' 0)"
  let ?db = "seeded_db\<lparr>policy_assignments := update_where (\<lambda>r. pa_workspace_id r = ''w'')
    (activated (pv_id ?u) ''ann'' 5 (default_assignment toy_policy_hashing ''w'' 0)) (policy_assignments seeded_db)\<rparr>"
  have strips: "strip ''ann'' = ''ann''" "strip ''ben'' = ''ben''" by code_simp+
  have u: "?u \<in> set (policy_versions seeded_db)" by (rule seeded_db_rows(3)) (simp add: builtin_packs_def)
  have ok: "store_ok toy_policy_hashing {''w''} (store_of ?db)"
    by (rule activated_store_ok [OF seeded_db_ok u]) (simp add: builtin_fields)
  have row: "row_of pa_workspace_id (policy_assignments ?db) ''w'' = Some ?a"
    by (simp add: activated_row seeded_db_rows(2))
  have apart: "pv_id ?u \<noteq> pv_id ?v"
    using builtin_ids_apart(2) [OF toy_ids_ok, of "''w''" "''w''" "hd builtin_packs" strict_modern] sample_builtins(1)
    by (simp add: builtin_fields strict_modern_def builtin_packs_def)
  have "\<exists>ep db'. activate_policy toy_policy_hashing (\<lambda>n d. if n = 1 then snd (activate_policy toy_policy_hashing (\<lambda>_. id) 8 ''w''
          (pv_policy_id ?u) (pv_version ?u) ''ben'' 8 d) else d)
        9 ''w'' (pv_policy_id ?v) (pv_version ?v) ''ann'' 9 ?db = (Inr ep, db') \<and>
      ep_version ep = ?v \<and> ep_assigned_at ep = 9 \<and> ep_assigned_by ep = take 200 (strip ''ben'')"
    by (rule activation_race_misattributes [OF ok toy_ids_ok, where a = ?a])
      (use seeded_db_rows(1) u row apart seeded_db_rows(3) [OF sample_builtins(1)] in
       \<open>simp_all add: strips builtin_fields activated_fields(2)\<close>)
  moreover have "pv_policy_id ?u = builtin_policy_id toy_policy_hashing ''w'' ''cryptohawk-recommended''" "pv_version ?u = 1"
      "pv_policy_id ?v = builtin_policy_id toy_policy_hashing ''w'' ''strict-modern''" "pv_version ?v = 1"
    by (simp_all add: builtin_fields sample_builtins builtin_packs_def)
  ultimately obtain ep db' where res: "activate_policy toy_policy_hashing (\<lambda>n d. if n = 1 then snd (activate_policy toy_policy_hashing (\<lambda>_. id) 8 ''w''
          (builtin_policy_id toy_policy_hashing ''w'' ''cryptohawk-recommended'') 1 ''ben'' 8 d) else d)
        9 ''w'' (builtin_policy_id toy_policy_hashing ''w'' ''strict-modern'') 1 ''ann'' 9 ?db = (Inr ep, db')"
    "ep_version ep = ?v" "ep_assigned_by ep = take 200 (strip ''ben'')"
    by (elim exE conjE) (rule that, simp only:)
  have "pv_rules (ep_version ep) = strict_modern_rules" "ep_assigned_by ep = ''ben''" "pa_assigned_by ?a = ''ann''"
    by (simp_all add: res(2,3) builtin_fields sample_builtins strips activated_fields(2))
  with row res(1) show ?thesis by blast
qed

theorem repeated_slug_error_witness:
  "fst (create_pack toy_policy_hashing (\<lambda>_. id) 7 (replicate 36 CHR ''p'') (replicate 36 CHR ''v'') ''w'' ''Strict-Modern'' ''Mine'' []
      default_rules ''ann'' True 5 seeded_db) = Inl IntegrityError"
proof -
  let ?q = "builtin_pack toy_policy_hashing ''w'' 0 strict_modern"
  have q: "?q \<in> set (policy_packs seeded_db)" using sample_builtins(1) by (simp add: seeded_db_eq)
  have slug: "lower (strip ''Strict-Modern'') = ''strict-modern''" "policy_slug_ok ''strict-modern''"
    "strip ''Mine'' \<noteq> []" "strip ''ann'' \<noteq> []" by code_simp+
  have "create_pack toy_policy_hashing (\<lambda>_. id) 7 (replicate 36 CHR ''p'') (replicate 36 CHR ''v'') ''w'' ''Strict-Modern'' ''Mine'' []
      default_rules ''ann'' True 5 seeded_db =
    (Inl (if True then IntegrityError else ValueError ''policy slug already exists in workspace''), seeded_db)"
    by (rule repeated_slug_error [OF seeded_db_ok seeded_db_rows(1) q]) (use slug in \<open>simp_all add: builtin_fields sample_builtins\<close>)
  then show ?thesis by simp
qed

end
