(* ===== verification/Secrets.thy ===== *)
theory Secrets
  imports Passwords
begin

text \<open>
  The authenticated encryption of connector secrets: \<^verbatim>\<open>security/secrets.py\<close>. AES-GCM (a third-party
  package) and the JSON text of a dictionary are parameters in a \<open>secret_library\<close>; what the proofs
  assume of them is \<open>aead_correct\<close>, \<open>aead_binds\<close> and \<open>json_correct\<close>, the documented behaviour of
  the two. The random nonce and the random key are arguments. Keys by version, the key
  specification and its strict Base64, and the associated data that ties a ciphertext to its row are
  modelled. The property here is that a specification written from generated keys is read back.
\<close>

section \<open>The library\<close>

text \<open>A dictionary of texts, and what \<open>json.loads\<close> makes of a plaintext.\<close>

type_synonym material = "(string \<times> string) list"

datatype plaintext_json = NotJson | OtherJson | TextObject material

record secret_library =
  sl_encrypt :: "bytes \<Rightarrow> bytes \<Rightarrow> bytes \<Rightarrow> bytes \<Rightarrow> bytes"
  sl_decrypt :: "bytes \<Rightarrow> bytes \<Rightarrow> bytes \<Rightarrow> bytes \<Rightarrow> bytes option"
  sl_dumps :: "material \<Rightarrow> bytes"
  sl_loads :: "bytes \<Rightarrow> plaintext_json"

definition aead_correct :: "secret_library \<Rightarrow> bool" where
  "aead_correct lib \<longleftrightarrow> (\<forall>key nonce plain aad.
     sl_decrypt lib key nonce (sl_encrypt lib key nonce plain aad) aad = Some plain)"

definition aead_binds :: "secret_library \<Rightarrow> bool" where
  "aead_binds lib \<longleftrightarrow> (\<forall>key nonce plain aad other. other \<noteq> aad \<longrightarrow>
     sl_decrypt lib key nonce (sl_encrypt lib key nonce plain aad) other = None)"

definition json_correct :: "secret_library \<Rightarrow> bool" where
  "json_correct lib \<longleftrightarrow> (\<forall>m. distinct (map fst m) \<longrightarrow> sl_loads lib (sl_dumps lib m) = TextObject m)"

text \<open>\<open>s.encode("utf-8")\<close>; a character is a code point below 256.\<close>

definition utf8 :: "string \<Rightarrow> bytes" where
  "utf8 s = concat (map (\<lambda>c. if code_of c < 128 then [code_of c]
     else [192 + code_of c div 64, 128 + code_of c mod 64]) s)"

section \<open>Ciphers\<close>

record cipher =
  ci_keys :: "(int \<times> bytes) list"
  ci_active_version :: int

record encrypted_secret =
  es_ciphertext :: bytes
  es_nonce :: bytes
  es_key_version :: int

fun check_keys :: "(int \<times> bytes) list \<Rightarrow> unit result" where
  "check_keys [] = Inr ()"
| "check_keys ((version, key) # keys) =
     (if version < 1 then Inl (RuntimeError ''connector key versions must be positive integers'')
      else if length key \<noteq> 32 then Inl (RuntimeError ''connector encryption keys must be exactly 32 bytes'')
      else check_keys keys)"

definition make_cipher :: "(int \<times> bytes) list \<Rightarrow> int \<Rightarrow> cipher result" where
  "make_cipher keys active =
     (if keys = [] then Inl (RuntimeError ''at least one connector encryption key is required'')
      else bindE (check_keys keys) (\<lambda>_.
        if map_of keys active = None
        then Inl (RuntimeError ''active connector encryption key version is unavailable'')
        else Inr \<lparr>ci_keys = keys, ci_active_version = active\<rparr>))"

text \<open>
  \<open>base64.b64decode(..., validate=True)\<close>: no character outside the alphabet, no data after a pad,
  no pad too many or too early. The arguments are those of \<open>b64_loop\<close>; \<open>padded\<close> says whether a
  pad has been seen.
\<close>

fun b64_strict :: "bool \<Rightarrow> nat \<Rightarrow> nat \<Rightarrow> nat \<Rightarrow> bytes \<Rightarrow> string \<Rightarrow> bytes result" where
  "b64_strict padded quad left pads out [] =
     (if quad = 0 then Inr out else Inl (ValueError ''Incorrect padding''))"
| "b64_strict padded quad left pads out (c # cs) =
     (if c = CHR ''='' then
        (if quad = 0 then Inl (ValueError ''Excess padding not allowed'')
         else if quad \<ge> 2 \<and> quad + (pads + 1) \<ge> 4
         then (if cs = [] then Inr out else Inl (ValueError ''Excess data after padding''))
         else b64_strict True quad left (if quad \<ge> 2 then pads + 1 else pads) out cs)
      else case b64_value c of
             None \<Rightarrow> Inl (ValueError ''Only base64 data is allowed'')
           | Some v \<Rightarrow>
               (if padded then Inl (ValueError ''Discontinuous padding not allowed'')
                else if quad = 0 then b64_strict padded 1 v 0 out cs
                else if quad = 1 then b64_strict padded 2 (v mod 16) 0 (out @ [left * 4 + v div 16]) cs
                else if quad = 2 then b64_strict padded 3 (v mod 4) 0 (out @ [left * 16 + v div 4]) cs
                else b64_strict padded 0 0 0 (out @ [left * 64 + v]) cs))"

definition b64_padding :: "string \<Rightarrow> string" where
  "b64_padding s = replicate (nat (- int (length s) mod 4)) (CHR ''='')"

fun read_entries :: "string list \<Rightarrow> (int \<times> bytes) list \<Rightarrow> (int \<times> bytes) list result" where
  "read_entries [] keys = Inr keys"
| "read_entries (part # parts) keys =
     (let entry = strip part
      in if entry = [] then read_entries parts keys
         else case split_max (CHR '':'') 1 [] entry of
           [version_text, encoded] \<Rightarrow>
             (case int_of_str version_text of
                None \<Rightarrow> Inl (RuntimeError ''connector encryption key version must be an integer'')
              | Some version \<Rightarrow>
                  if map_of keys version \<noteq> None
                  then Inl (RuntimeError ''duplicate connector encryption key version'')
                  else case b64_strict False 0 0 0 [] (encoded @ b64_padding encoded) of
                         Inl _ \<Rightarrow> Inl (RuntimeError ''connector encryption key is not valid base64url'')
                       | Inr key \<Rightarrow> read_entries parts (keys @ [(version, key)]))
         | _ \<Rightarrow> Inl (RuntimeError ''connector encryption keys must use VERSION:BASE64URL format''))"

definition from_spec :: "string \<Rightarrow> int \<Rightarrow> cipher result" where
  "from_spec spec active =
     bindE (read_entries (split_max (CHR '','') (length spec) [] spec) []) (\<lambda>keys. make_cipher keys active)"

definition rstrip_char :: "char \<Rightarrow> string \<Rightarrow> string" where
  "rstrip_char c s = rev (dropWhile (\<lambda>x. x = c) (rev s))"

definition generate_key :: "bytes \<Rightarrow> string" where
  "generate_key random_key = rstrip_char (CHR ''='') (urlsafe_b64encode random_key)"

section \<open>Encryption\<close>

definition aad_text :: "string \<Rightarrow> string \<Rightarrow> string \<Rightarrow> int \<Rightarrow> string" where
  "aad_text w ident kind version =
     ''cryptohawk.connector-credential|v1|workspace:'' @ w @ ''|credential:'' @ ident @
     ''|kind:'' @ kind @ ''|key:'' @ str_of_int version"

definition aad :: "string \<Rightarrow> string \<Rightarrow> string \<Rightarrow> int \<Rightarrow> bytes" where
  "aad w ident kind version = utf8 (aad_text w ident kind version)"

definition encrypt ::
  "secret_library \<Rightarrow> cipher \<Rightarrow> bytes \<Rightarrow> material \<Rightarrow> string \<Rightarrow> string \<Rightarrow> string \<Rightarrow> encrypted_secret result" where
  "encrypt lib ci nonce secret w ident kind =
     (let plaintext = sl_dumps lib (sort_key fst secret)
      in case map_of (ci_keys ci) (ci_active_version ci) of
           None \<Rightarrow> Inl (LookupError (str_of_int (ci_active_version ci)))
         | Some key \<Rightarrow>
             Inr \<lparr>es_ciphertext = sl_encrypt lib key nonce plaintext (aad w ident kind (ci_active_version ci)),
                  es_nonce = nonce, es_key_version = ci_active_version ci\<rparr>)"

definition decrypt ::
  "secret_library \<Rightarrow> cipher \<Rightarrow> encrypted_secret \<Rightarrow> string \<Rightarrow> string \<Rightarrow> string \<Rightarrow> material result" where
  "decrypt lib ci es w ident kind =
     (case map_of (ci_keys ci) (es_key_version es) of
        None \<Rightarrow> Inl (RuntimeError ''credential encryption key version is unavailable'')
      | Some key \<Rightarrow>
          (case sl_decrypt lib key (es_nonce es) (es_ciphertext es) (aad w ident kind (es_key_version es)) of
             None \<Rightarrow> Inl (RuntimeError ''credential ciphertext failed authentication'')
           | Some plaintext \<Rightarrow>
               (case sl_loads lib plaintext of
                  NotJson \<Rightarrow> Inl (RuntimeError ''credential plaintext is invalid'')
                | OtherJson \<Rightarrow> Inl (RuntimeError ''credential plaintext has an invalid structure'')
                | TextObject m \<Rightarrow> Inr m)))"

section \<open>Numerals read back\<close>

lemma digit_char: "n < 10 \<Longrightarrow> is_digit (char_of (48 + n)) \<and> code_of (char_of (48 + n)) - 48 = n"
  by (simp add: is_digit_def)

lemma int_digits_snoc: "is_digit c \<Longrightarrow> list_all is_digit s \<Longrightarrow> after \<or> s \<noteq> [] \<Longrightarrow>
    int_digits after acc (s @ [c]) = map_option (\<lambda>x. x * 10 + int (code_of c - 48)) (int_digits after acc s)"
  by (induction s arbitrary: after acc) auto

lemma str_of_nat_digits: "list_all is_digit (str_of_nat n) \<and> str_of_nat n \<noteq> []"
proof (induction n rule: str_of_nat.induct)
  case (1 n)
  have "is_digit (char_of (48 + n mod 10))" by (rule conjunct1 [OF digit_char]) simp
  then show ?case using 1 digit_char [of n] by (subst (1 2) str_of_nat.simps) auto
qed

lemma int_digits_str_of_nat: "int_digits False 0 (str_of_nat n) = Some (int n)"
proof (induction n rule: str_of_nat.induct)
  case (1 n)
  show ?case
  proof (cases "n < 10")
    case True
    then show ?thesis using digit_char [OF True] by (simp add: str_of_nat.simps [of n])
  next
    case False
    have d: "is_digit (char_of (48 + n mod 10))" "code_of (char_of (48 + n mod 10)) - 48 = n mod 10"
      using digit_char [of "n mod 10"] by simp_all
    have "int_digits False 0 (str_of_nat n) = Some (int (n div 10) * 10 + int (n mod 10))"
      using False 1 str_of_nat_digits [of "n div 10"]
      by (simp add: str_of_nat.simps [of n] int_digits_snoc [OF d(1)] d(2))
    also have "int (n div 10) * 10 + int (n mod 10) = int n"
      by (metis div_mult_mod_eq of_nat_add of_nat_mult of_nat_numeral)
    finally show ?thesis .
  qed
qed

lemma digit_no_space: "is_digit c \<Longrightarrow> \<not> is_space c \<and> c \<noteq> CHR '':'' \<and> c \<noteq> CHR '','' \<and> c \<noteq> CHR ''-'' \<and> c \<noteq> CHR ''+'' \<and> c \<noteq> CHR ''|''"
  by (auto simp: is_digit_def is_space_def code_of_def)

lemma str_of_int_digits: "0 \<le> v \<Longrightarrow> list_all is_digit (str_of_int v) \<and> str_of_int v \<noteq> []"
  using str_of_nat_digits by (simp add: str_of_int_def)

lemma int_of_str_of_int:
  assumes "0 \<le> v"
  shows "int_of_str (str_of_int v) = Some v"
proof -
  let ?s = "str_of_int v"
  from str_of_int_digits [OF assms] obtain c cs where s: "?s = c # cs" and d: "list_all is_digit ?s"
    by (cases ?s) auto
  have "is_digit (hd ?s)" "is_digit (last ?s)" using d s by (auto simp: list_all_iff)
  then have "strip ?s = ?s" unfolding strip_def by (intro strip_by_fixed) (use digit_no_space in blast)
  moreover have "int_digits False 0 ?s = Some v" using assms int_digits_str_of_nat [of "nat v"] by (simp add: str_of_int_def)
  ultimately show ?thesis using digit_no_space [of c] d by (simp add: int_of_str_def s)
qed

section \<open>Keys read back\<close>

lemma b64_char_plain: "\<not> is_space (b64_char n)" "b64_char n \<noteq> CHR '':''" "b64_char n \<noteq> CHR '',''"
proof -
  have "list_all (\<lambda>n. \<not> is_space (b64_char n) \<and> b64_char n \<noteq> CHR '':'' \<and> b64_char n \<noteq> CHR '','') [0..<64]"
    by (simp add: upt_rec_numeral upt_conv_Cons b64_char_def b64_alphabet_def is_space_def code_of_def)
  then have "\<forall>n < 64. \<not> is_space (b64_char n) \<and> b64_char n \<noteq> CHR '':'' \<and> b64_char n \<noteq> CHR '',''"
    by (simp add: list_all_iff)
  moreover have "b64_char n = b64_char (n mod 64)" "n mod 64 < 64" by (simp_all add: b64_char_def)
  ultimately show "\<not> is_space (b64_char n)" "b64_char n \<noteq> CHR '':''" "b64_char n \<noteq> CHR '',''" by auto
qed

text \<open>The encoded bytes are data characters followed by at most two pads.\<close>

lemma encode_shape: "\<exists>data p. urlsafe_b64encode bs = data @ replicate p (CHR ''='') \<and> set data \<subseteq> range b64_char \<and>
    p < 3 \<and> (length data + p) mod 4 = 0 \<and> (bs \<noteq> [] \<longrightarrow> data \<noteq> [])"
proof (induction bs rule: urlsafe_b64encode.induct)
  case 1
  have "urlsafe_b64encode [] = [] @ replicate 0 (CHR ''='')" by simp
  then show ?case by fastforce
next
  case (2 a)
  have "urlsafe_b64encode [a] = [b64_char (a div 4), b64_char (a mod 4 * 16)] @ replicate 2 (CHR ''='')"
    by (simp add: numeral_2_eq_2)
  then show ?case by fastforce
next
  case (3 a b)
  have "urlsafe_b64encode [a, b] = [b64_char (a div 4), b64_char (a mod 4 * 16 + b div 16), b64_char (b mod 16 * 4)]
      @ replicate 1 (CHR ''='')" by simp
  then show ?case by fastforce
next
  case (4 a b c cs)
  then obtain data p where "urlsafe_b64encode cs = data @ replicate p (CHR ''='')" "set data \<subseteq> range b64_char"
    "p < 3" "(length data + p) mod 4 = 0" by (elim exE conjE) (rule that)
  then show ?case
    by (intro exI [of _ "[b64_char (a div 4), b64_char (a mod 4 * 16 + b div 16),
          b64_char (b mod 16 * 4 + c div 64), b64_char (c mod 64)] @ data"] exI [of _ p]) auto
qed

lemma rstrip_pads: "CHR ''='' \<notin> set data \<Longrightarrow> rstrip_char (CHR ''='') (data @ replicate p (CHR ''='')) = data"
proof -
  assume "CHR ''='' \<notin> set data"
  then have "dropWhile (\<lambda>x. x = CHR ''='') (rev data) = rev data"
    unfolding set_rev [of data, symmetric] by (cases "rev data") auto
  moreover have "dropWhile (\<lambda>x. x = CHR ''='') (replicate p (CHR ''='') @ rev data) = dropWhile (\<lambda>x. x = CHR ''='') (rev data)"
    by (rule dropWhile_append2) simp
  ultimately show ?thesis by (simp only: rstrip_char_def rev_append rev_replicate rev_rev_ident)
qed

lemma generate_key_shape:
  "generate_key bs @ b64_padding (generate_key bs) = urlsafe_b64encode bs \<and> set (generate_key bs) \<subseteq> range b64_char \<and>
   (bs \<noteq> [] \<longrightarrow> generate_key bs \<noteq> [])"
proof -
  obtain data p where e: "urlsafe_b64encode bs = data @ replicate p (CHR ''='')" and d: "set data \<subseteq> range b64_char"
    "p < 3" "(length data + p) mod 4 = 0" "bs \<noteq> [] \<longrightarrow> data \<noteq> []"
    using encode_shape [of bs] by (elim exE conjE) (rule that)
  have "CHR ''='' \<notin> range b64_char" using b64_char_ok(2) by (metis imageE)
  with d(1) have "CHR ''='' \<notin> set data" by (rule contra_subsetD)
  then have g: "generate_key bs = data" unfolding generate_key_def e by (rule rstrip_pads)
  have "- int (length data) mod 4 = int p" using d(2,3) by presburger
  then show ?thesis by (simp add: g e d b64_padding_def)
qed

lemma b64_strict_encode: "is_bytes bs \<Longrightarrow> b64_strict False 0 0 0 out (urlsafe_b64encode bs) = Inr (out @ bs)"
proof (induction bs arbitrary: out rule: urlsafe_b64encode.induct)
  case (4 a b c cs)
  then have lt: "a < 256" "b < 256" "c < 256" "is_bytes cs" by (simp_all add: is_bytes_def)
  define v1 v2 v3 v4 where "v1 = a div 4" "v2 = a mod 4 * 16 + b div 16" "v3 = b mod 16 * 4 + c div 64" "v4 = c mod 64"
  note v = v1_v2_v3_v4_def
  have "v1 < 64" "v2 < 64" "v3 < 64" "v4 < 64" "v1 * 4 + v2 div 16 = a"
    "v2 mod 16 * 16 + v3 div 4 = b" "v3 mod 4 * 64 + v4 = c"
    using lt by (simp_all add: v)
  then show ?case unfolding urlsafe_b64encode.simps v [symmetric] by (simp add: "4.IH" [OF lt(4)])
next
  case (2 a)
  then have "a div 4 < 64" "a mod 4 * 16 < 64" by (simp_all add: is_bytes_def)
  then show ?case unfolding urlsafe_b64encode.simps by simp
next
  case (3 a b)
  then have lt: "a < 256" "b < 256" by (simp_all add: is_bytes_def)
  define v1 v2 v3 where "v1 = a div 4" "v2 = a mod 4 * 16 + b div 16" "v3 = b mod 16 * 4"
  note v = v1_v2_v3_def
  have "v1 < 64" "v2 < 64" "v3 < 64" "v1 * 4 + v2 div 16 = a" "v2 mod 16 * 16 + v3 div 4 = b"
    using lt by (simp_all add: v)
  then show ?case unfolding urlsafe_b64encode.simps v [symmetric] by simp
qed simp

text \<open>The specification an operator writes from versions and generated keys.\<close>

definition key_entry :: "int \<times> bytes \<Rightarrow> string" where
  "key_entry e = str_of_int (fst e) @ '':'' @ generate_key (snd e)"

fun key_spec :: "(int \<times> bytes) list \<Rightarrow> string" where
  "key_spec [] = []"
| "key_spec [e] = key_entry e"
| "key_spec (e # f # es) = key_entry e @ '','' @ key_spec (f # es)"

lemma strip_no_space: "(\<And>c. c \<in> set s \<Longrightarrow> \<not> is_space c) \<Longrightarrow> strip s = s"
  unfolding strip_def by (rule strip_by_fixed) (metis hd_in_set last_in_set)

lemma key_entry_chars:
  assumes "0 \<le> fst e" "c \<in> set (key_entry e)"
  shows "\<not> is_space c \<and> c \<noteq> CHR '',''"
proof -
  have "is_digit c \<or> c = CHR '':'' \<or> c \<in> range b64_char"
    using assms str_of_int_digits [OF assms(1)] generate_key_shape [of "snd e"]
    by (auto simp: key_entry_def list_all_iff)
  moreover have "\<not> is_space (CHR '':'')" by (simp add: is_space_def code_of_def)
  ultimately show ?thesis using digit_no_space [of c] b64_char_plain by auto
qed

lemma split_key_entry:
  assumes "0 \<le> fst e"
  shows "split_max (CHR '':'') 1 [] (key_entry e) = [str_of_int (fst e), generate_key (snd e)]"
proof -
  have "CHR '':'' \<notin> set (str_of_int (fst e))"
    using str_of_int_digits [OF assms] digit_no_space by (auto simp: list_all_iff)
  moreover have "CHR '':'' \<notin> set (generate_key (snd e))"
    using generate_key_shape [of "snd e"] b64_char_plain(2) by (metis imageE subsetD)
  ultimately show ?thesis
    using split_max_sep [where n = 0 and acc = "[]"] split_max_last [where n = 0 and acc = "[]"]
    by (simp add: key_entry_def One_nat_def [symmetric] del: One_nat_def)
qed

lemma split_key_spec:
  "(\<And>e. e \<in> set es \<Longrightarrow> 0 \<le> fst e) \<Longrightarrow> es \<noteq> [] \<Longrightarrow> length es \<le> Suc n \<Longrightarrow>
   split_max (CHR '','') n [] (key_spec es) = map key_entry es"
proof (induction es arbitrary: n rule: key_spec.induct)
  case (2 e)
  then have "CHR '','' \<notin> set (key_entry e)" using key_entry_chars [of e] by auto
  then show ?case by (simp add: split_max_last)
next
  case (3 e f es)
  then have "CHR '','' \<notin> set (key_entry e)" using key_entry_chars [of e] by auto
  moreover from "3.prems"(3) obtain m where "n = Suc m" "length (f # es) \<le> Suc m" by (cases n) auto
  ultimately show ?case using "3.IH" [of m] "3.prems"(1) by (simp add: split_max_sep)
qed simp

lemma key_spec_length: "length es \<le> Suc (length (key_spec es))"
  by (induction es rule: key_spec.induct) auto

definition good_keys :: "(int \<times> bytes) list \<Rightarrow> bool" where
  "good_keys keys \<longleftrightarrow> keys \<noteq> [] \<and> distinct (map fst keys) \<and>
     (\<forall>(version, key) \<in> set keys. 1 \<le> version \<and> length key = 32 \<and> is_bytes key)"

lemma read_key_entries:
  assumes "\<And>e. e \<in> set es \<Longrightarrow> 0 \<le> fst e \<and> is_bytes (snd e)" "distinct (map fst (keys @ es))"
  shows "read_entries (map key_entry es @ parts) keys = read_entries parts (keys @ es)"
  using assms
proof (induction es arbitrary: keys)
  case (Cons e es)
  then have e: "0 \<le> fst e" "is_bytes (snd e)" by simp_all
  have "strip (key_entry e) = key_entry e" using key_entry_chars [OF e(1)] by (intro strip_no_space) blast
  moreover have "key_entry e \<noteq> []" by (simp add: key_entry_def)
  moreover have "map_of keys (fst e) = None"
    using Cons.prems(2) by (auto simp: map_of_eq_None_iff)
  ultimately have "read_entries (map key_entry (e # es) @ parts) keys = read_entries (map key_entry es @ parts) (keys @ [e])"
    using b64_strict_encode [OF e(2), of "[]"]
    by (simp add: split_key_entry [OF e(1), simplified] int_of_str_of_int [OF e(1)] generate_key_shape)
  with Cons.IH [of "keys @ [e]"] Cons.prems show ?case by simp
qed simp

lemma check_keys_good: "(\<And>v k. (v, k) \<in> set keys \<Longrightarrow> 1 \<le> v \<and> length k = 32) \<Longrightarrow> check_keys keys = Inr ()"
  by (induction keys rule: check_keys.induct) fastforce+

lemma make_cipher_Inr:
  "make_cipher keys active = Inr ci \<Longrightarrow> ci = \<lparr>ci_keys = keys, ci_active_version = active\<rparr> \<and> map_of keys active \<noteq> None"
  by (auto simp: make_cipher_def bindE_Inr split: if_splits)

text \<open>
  Key specifications round-trip. The specification
  \<open>VERSION:KEY,VERSION:KEY,...\<close> written from distinct
  positive versions and freshly generated keys of 32 bytes is read back by \<open>from_spec\<close> as exactly
  those keys, whichever of them is active; with an active version that is not among them it is
  refused; and repeating a version in the text is refused, so that no key can shadow another.
\<close>

theorem key_spec_round_trip:
  assumes "good_keys keys"
  shows "from_spec (key_spec keys) active =
      (if active \<in> fst ` set keys then Inr \<lparr>ci_keys = keys, ci_active_version = active\<rparr>
       else Inl (RuntimeError ''active connector encryption key version is unavailable'')) \<and>
    (\<forall>v k. v \<in> fst ` set keys \<longrightarrow> is_ok (from_spec (key_spec (keys @ [(v, k)])) active) = False)"
proof -
  have e: "0 \<le> fst e \<and> is_bytes (snd e)" if "e \<in> set keys" for e
    using assms that by (fastforce simp: good_keys_def)
  have ne: "keys \<noteq> []" and d: "distinct (map fst ([] @ keys))" using assms by (simp_all add: good_keys_def)
  have "check_keys keys = Inr ()" using assms by (intro check_keys_good) (auto simp: good_keys_def)
  then have "from_spec (key_spec keys) active =
      (if active \<in> fst ` set keys then Inr \<lparr>ci_keys = keys, ci_active_version = active\<rparr>
       else Inl (RuntimeError ''active connector encryption key version is unavailable''))"
    using split_key_spec [of keys "length (key_spec keys)"] e ne key_spec_length read_key_entries [OF e d, of "[]"]
    by (auto simp: from_spec_def make_cipher_def map_of_eq_None_iff)
  moreover have "\<not> is_ok (from_spec (key_spec (keys @ [(v, k)])) active)" if v: "v \<in> fst ` set keys" for v k
  proof -
    have v0: "0 \<le> v" using v e by auto
    let ?e = "(v, k)"
    have "strip (key_entry ?e) = key_entry ?e" using key_entry_chars [of ?e] v0 by (intro strip_no_space) auto
    moreover have "key_entry ?e \<noteq> []" by (simp add: key_entry_def)
    moreover have "map_of keys v \<noteq> None" using v by (simp add: map_of_eq_None_iff)
    ultimately have "\<not> is_ok (read_entries [key_entry ?e] keys)"
      using split_key_entry [of ?e] v0 by (auto simp: int_of_str_of_int)
    moreover have "split_max (CHR '','') (length (key_spec (keys @ [?e]))) [] (key_spec (keys @ [?e])) = map key_entry keys @ [key_entry ?e]"
      using split_key_spec [of "keys @ [?e]"] e v0 key_spec_length by fastforce
    ultimately show ?thesis
      using read_key_entries [OF e d, of "[key_entry ?e]"]
      by (cases "read_entries [key_entry ?e] keys") (simp_all add: from_spec_def del: read_entries.simps)
  qed
  ultimately show ?thesis by blast
qed

theorem key_spec_round_trip_witness:
  "from_spec (key_spec [(1, replicate 32 7), (2, replicate 32 255)]) 2 =
     Inr \<lparr>ci_keys = [(1, replicate 32 7), (2, replicate 32 255)], ci_active_version = 2\<rparr>"
proof -
  have "good_keys [(1, replicate 32 7), (2, replicate 32 255)]"
    by (simp add: good_keys_def is_bytes_def list_all_iff)
  from key_spec_round_trip [OF this, of 2] show ?thesis by simp
qed

section \<open>Associated data\<close>

lemma utf8_Cons: "utf8 (c # s) = (if code_of c < 128 then code_of c # utf8 s
    else (192 + code_of c div 64) # (128 + code_of c mod 64) # utf8 s)"
  by (simp add: utf8_def)

lemma utf8_inj: "utf8 s = utf8 t \<Longrightarrow> s = t"
proof (induction s arbitrary: t)
  case Nil
  then show ?case by (cases t) (auto simp: utf8_def split: if_splits)
next
  case (Cons c s)
  from Cons.prems obtain d u where t: "t = d # u" by (cases t) (auto simp: utf8_def split: if_splits)
  have "code_of c = code_of d \<and> utf8 s = utf8 u"
  proof (cases "code_of c < 128 \<or> code_of d < 128")
    case True
    then show ?thesis using Cons.prems by (auto simp: t utf8_Cons split: if_splits)
  next
    case False
    then have "code_of c div 64 = code_of d div 64" "code_of c mod 64 = code_of d mod 64" "utf8 s = utf8 u"
      using Cons.prems by (simp_all add: t utf8_Cons)
    then show ?thesis by (metis div_mult_mod_eq)
  qed
  with Cons.IH t show ?case by (simp add: code_of_eq_iff)
qed

lemma bar_split: "CHR ''|'' \<notin> set a \<Longrightarrow> CHR ''|'' \<notin> set b \<Longrightarrow> a @ CHR ''|'' # x = b @ CHR ''|'' # y \<Longrightarrow> a = b \<and> x = y"
proof (induction a arbitrary: b)
  case Nil
  then show ?case by (cases b) auto
next
  case (Cons c a)
  then show ?case by (cases b) auto
qed

text \<open>The associated data names its workspace, credential and kind when the separator occurs
  neither in the id of the workspace nor in the kind.\<close>

lemma aad_inj:
  assumes eq: "aad w i k v = aad w' i' k' v'"
    and w: "CHR ''|'' \<notin> set w" "CHR ''|'' \<notin> set w'" and k: "CHR ''|'' \<notin> set k" "CHR ''|'' \<notin> set k'"
    and v: "0 \<le> v" "0 \<le> v'"
  shows "w = w' \<and> i = i' \<and> k = k' \<and> v = v'"
proof -
  have "aad_text w i k v = aad_text w' i' k' v'" using utf8_inj eq by (simp add: aad_def)
  then have "w @ CHR ''|'' # (''credential:'' @ i @ ''|kind:'' @ k @ ''|key:'' @ str_of_int v) =
      w' @ CHR ''|'' # (''credential:'' @ i' @ ''|kind:'' @ k' @ ''|key:'' @ str_of_int v')" by (simp add: aad_text_def)
  from bar_split [OF w this] have ww: "w = w'"
    and tails: "i @ ''|kind:'' @ k @ ''|key:'' @ str_of_int v = i' @ ''|kind:'' @ k' @ ''|key:'' @ str_of_int v'" by simp_all
  have reversed: "(rev (str_of_int v) @ '':yek'') @ CHR ''|'' # ((rev k @ '':dnik'') @ CHR ''|'' # rev i) =
      (rev (str_of_int v') @ '':yek'') @ CHR ''|'' # ((rev k' @ '':dnik'') @ CHR ''|'' # rev i')"
    using arg_cong [OF tails, of rev] by simp
  have bars: "CHR ''|'' \<notin> set (rev (str_of_int v) @ '':yek'')" "CHR ''|'' \<notin> set (rev (str_of_int v') @ '':yek'')"
      "CHR ''|'' \<notin> set (rev k @ '':dnik'')" "CHR ''|'' \<notin> set (rev k' @ '':dnik'')"
    using str_of_int_digits [OF v(1)] str_of_int_digits [OF v(2)] digit_no_space k by (auto simp: list_all_iff)
  note parts = bar_split [OF bars(1,2) reversed]
  note rest = bar_split [OF bars(3,4) conjunct2 [OF parts]]
  from conjunct1 [OF parts] have vs: "str_of_int v = str_of_int v'" by (simp only: append_same_eq rev_is_rev_conv)
  from conjunct1 [OF rest] have "k = k'" by (simp only: append_same_eq rev_is_rev_conv)
  moreover from conjunct2 [OF rest] have "i = i'" by (simp only: rev_is_rev_conv)
  moreover have "v = v'" using int_of_str_of_int [OF v(1)] int_of_str_of_int [OF v(2)] unfolding vs by simp
  ultimately show ?thesis using ww by simp
qed

section \<open>Sealing and opening\<close>

definition cipher_ok :: "cipher \<Rightarrow> bool" where
  "cipher_ok ci \<longleftrightarrow> make_cipher (ci_keys ci) (ci_active_version ci) = Inr ci"

lemma check_keys_pos: "check_keys keys = Inr u \<Longrightarrow> map_of keys v = Some k \<Longrightarrow> 1 \<le> v"
  by (induction keys rule: check_keys.induct) (auto split: if_splits)

lemma cipher_key: "cipher_ok ci \<Longrightarrow> map_of (ci_keys ci) v = Some k \<Longrightarrow> 1 \<le> v"
  by (auto simp: cipher_ok_def make_cipher_def bindE_Inr check_keys_pos split: if_splits)

lemma cipher_active: "cipher_ok ci \<Longrightarrow> \<exists>key. map_of (ci_keys ci) (ci_active_version ci) = Some key"
  using make_cipher_Inr unfolding cipher_ok_def by fastforce

lemma encrypt_Inr: "encrypt lib ci nonce m w i k = Inr es \<longleftrightarrow> (\<exists>key. map_of (ci_keys ci) (ci_active_version ci) = Some key \<and>
    es = \<lparr>es_ciphertext = sl_encrypt lib key nonce (sl_dumps lib (sort_key fst m)) (aad w i k (ci_active_version ci)),
          es_nonce = nonce, es_key_version = ci_active_version ci\<rparr>)"
  by (auto simp: encrypt_def split: option.splits)

lemma encrypt_ok:
  assumes "cipher_ok ci"
  obtains es where "encrypt lib ci nonce m w i k = Inr es" "es_key_version es = ci_active_version ci" "es_nonce es = nonce"
  using cipher_active [OF assms] by (auto simp: encrypt_Inr)

text \<open>A cipher with more keys opens what a cipher with fewer keys sealed.\<close>

lemma decrypt_encrypt:
  assumes "aead_correct lib" "json_correct lib" "distinct (map fst m)"
    and "encrypt lib ci nonce m w i k = Inr es" "map_of (ci_keys ci) \<subseteq>\<^sub>m map_of (ci_keys ci')"
  shows "decrypt lib ci' es w i k = Inr (sort_key fst m)"
proof -
  obtain key where key: "map_of (ci_keys ci) (ci_active_version ci) = Some key"
    and es: "es = \<lparr>es_ciphertext = sl_encrypt lib key nonce (sl_dumps lib (sort_key fst m)) (aad w i k (ci_active_version ci)),
          es_nonce = nonce, es_key_version = ci_active_version ci\<rparr>"
    using assms(4) by (auto simp: encrypt_Inr)
  have "map_of (ci_keys ci') (ci_active_version ci) = Some key"
    using key assms(5) unfolding map_le_def by (metis domI)
  moreover have "distinct (map fst (sort_key fst m))" using assms(3) by (simp add: distinct_map inj_on_def)
  ultimately show ?thesis using assms(1,2) by (simp add: decrypt_def es aead_correct_def json_correct_def)
qed

lemma decrypt_elsewhere:
  assumes "aead_binds lib" "encrypt lib ci nonce m w i k = Inr es" "(w', i', k') \<noteq> (w, i, k)" "cipher_ok ci"
    and "CHR ''|'' \<notin> set w" "CHR ''|'' \<notin> set w'" "CHR ''|'' \<notin> set k" "CHR ''|'' \<notin> set k'"
  shows "decrypt lib ci es w' i' k' = Inl (RuntimeError ''credential ciphertext failed authentication'')"
proof -
  obtain key where key: "map_of (ci_keys ci) (ci_active_version ci) = Some key"
    and es: "es = \<lparr>es_ciphertext = sl_encrypt lib key nonce (sl_dumps lib (sort_key fst m)) (aad w i k (ci_active_version ci)),
          es_nonce = nonce, es_key_version = ci_active_version ci\<rparr>"
    using assms(2) by (auto simp: encrypt_Inr)
  have "aad w' i' k' (ci_active_version ci) \<noteq> aad w i k (ci_active_version ci)"
    using aad_inj [OF _ assms(6,5,8,7)] cipher_key [OF assms(4) key] assms(3) by force
  then show ?thesis using assms(1) key by (simp add: decrypt_def es aead_binds_def)
qed

section \<open>A concrete library\<close>

text \<open>Not a cipher: the ciphertext carries its associated data in clear. It has the laws.\<close>

fun toy_read :: "nat \<Rightarrow> bytes \<Rightarrow> material" where
  "toy_read 0 bs = []"
| "toy_read (Suc n) bs =
     (let k = hd bs; r = tl bs; v = hd (drop k r); s = tl (drop k r)
      in (map char_of (take k r), map char_of (take v s)) # toy_read n (drop v s))"

definition toy_library :: secret_library where
  "toy_library = \<lparr>
     sl_encrypt = (\<lambda>key nonce plain aad. nonce @ length aad # aad @ plain),
     sl_decrypt = (\<lambda>key nonce c aad. let n = length nonce; l = length aad in
       if take n c = nonce \<and> take (Suc l) (drop n c) = l # aad then Some (drop (n + Suc l) c) else None),
     sl_dumps = (\<lambda>m. length m # concat (map (\<lambda>(k, v). length k # map code_of k @ length v # map code_of v) m)),
     sl_loads = (\<lambda>bs. case bs of [] \<Rightarrow> NotJson | n # r \<Rightarrow> TextObject (toy_read n r))\<rparr>"

lemma char_of_code: "char_of \<circ> code_of = id"
  by (simp add: fun_eq_iff code_of_def)

lemma toy_read_dumps:
  "toy_read (length m) (concat (map (\<lambda>(k, v). length k # map code_of k @ length v # map code_of v) m)) = m"
  by (induction m) (auto simp: char_of_code)

lemma toy_library_laws: "aead_correct toy_library" "aead_binds toy_library" "json_correct toy_library"
proof -
  show "aead_correct toy_library" by (simp add: aead_correct_def toy_library_def)
  show "aead_binds toy_library" by (auto simp: aead_binds_def toy_library_def Let_def)
  show "json_correct toy_library" by (simp add: json_correct_def toy_library_def toy_read_dumps)
qed

definition old_cipher :: cipher where
  "old_cipher = \<lparr>ci_keys = [(1, replicate 32 7)], ci_active_version = 1\<rparr>"

definition both_cipher :: cipher where
  "both_cipher = \<lparr>ci_keys = [(1, replicate 32 7), (2, replicate 32 9)], ci_active_version = 2\<rparr>"

definition new_cipher :: cipher where
  "new_cipher = \<lparr>ci_keys = [(2, replicate 32 9)], ci_active_version = 2\<rparr>"

lemma sample_ciphers: "cipher_ok old_cipher" "cipher_ok both_cipher" "cipher_ok new_cipher"
  by (simp_all add: cipher_ok_def make_cipher_def old_cipher_def both_cipher_def new_cipher_def)

end
