(* ===== verification/Credentials.thy ===== *)
theory Credentials
  imports Secrets PolicyStore
begin

text \<open>
  Connector credentials: \<^verbatim>\<open>domain/credentials.py\<close> and \<^verbatim>\<open>storage/credentials.py\<close>. A row holds the
  ciphertext of a dictionary of secret fields, sealed for its workspace, its id and its kind; callers
  see metadata only, except for \<open>resolve_for_use\<close>. New ids, nonces and the clock are arguments.
  \<open>env n\<close> is what other processes commit at the \<open>n\<close>-th point of an operation where they can:
  0 after the first read, 1 before the commit, 2 before the refresh of the committed row. The
  properties are in \<open>CredentialVault\<close>.
\<close>

section \<open>Kinds and secret fields\<close>

datatype credential_kind = GithubToken | GitlabToken | GenericBearer | RegistryBasic
  | SshPrivateKey | CloudAccessKey

fun credential_kind_value :: "credential_kind \<Rightarrow> string" where
  "credential_kind_value GithubToken = ''github-token''"
| "credential_kind_value GitlabToken = ''gitlab-token''"
| "credential_kind_value GenericBearer = ''generic-bearer''"
| "credential_kind_value RegistryBasic = ''registry-basic''"
| "credential_kind_value SshPrivateKey = ''ssh-private-key''"
| "credential_kind_value CloudAccessKey = ''cloud-access-key''"

fun required_fields :: "credential_kind \<Rightarrow> string list" where
  "required_fields GithubToken = [''token'']"
| "required_fields GitlabToken = [''token'']"
| "required_fields GenericBearer = [''token'']"
| "required_fields RegistryBasic = [''username'', ''password'']"
| "required_fields SshPrivateKey = [''private_key'']"
| "required_fields CloudAccessKey = [''access_key_id'', ''secret_access_key'']"

fun allowed_fields :: "credential_kind \<Rightarrow> string list" where
  "allowed_fields GithubToken = [''token'']"
| "allowed_fields GitlabToken = [''token'']"
| "allowed_fields GenericBearer = [''token'']"
| "allowed_fields RegistryBasic = [''username'', ''password'']"
| "allowed_fields SshPrivateKey = [''private_key'', ''passphrase'', ''username'']"
| "allowed_fields CloudAccessKey = [''access_key_id'', ''secret_access_key'', ''session_token'']"

text \<open>A value of the dictionary a caller passes: a text, or anything else.\<close>

datatype secret_value = SecretText string | NotText

text \<open>\<open>d[key] = value\<close>: a key that is present keeps its place.\<close>

fun dict_put :: "string \<Rightarrow> string \<Rightarrow> material \<Rightarrow> material" where
  "dict_put k v [] = [(k, v)]"
| "dict_put k v ((k', v') # d) = (if k' = k then (k, v) # d else (k', v') # dict_put k v d)"

fun normalize_fields :: "(string \<times> secret_value) list \<Rightarrow> material \<Rightarrow> material result" where
  "normalize_fields [] d = Inr d"
| "normalize_fields ((raw_key, raw_value) # rest) d =
     (let key = strip raw_key
      in if key = [] then Inl (ValueError ''credential secret field names cannot be empty'')
         else if length key > 100 then Inl (ValueError ''credential secret field names are too long'')
         else case raw_value of
                NotText \<Rightarrow> Inl (ValueError ''credential secret values must be strings'')
              | SecretText v \<Rightarrow>
                  if v = []
                  then Inl (ValueError (''credential secret field '' @ py_repr key @ '' cannot be empty''))
                  else if length (utf8 v) > 256000
                  then Inl (ValueError (''credential secret field '' @ py_repr key @ '' is too large''))
                  else normalize_fields rest (dict_put key v d))"

definition validate_secret_material :: "credential_kind \<Rightarrow> (string \<times> secret_value) list \<Rightarrow> material result" where
  "validate_secret_material kind secret =
     (if secret = [] then Inl (ValueError ''credential secret material is required'')
      else if length secret > 16 then Inl (ValueError ''credential secret material has too many fields'')
      else bindE (normalize_fields secret []) (\<lambda>m.
        let unexpected = sort (filter (\<lambda>k. k \<notin> set (allowed_fields kind)) (map fst m));
            missing = sort (filter (\<lambda>k. k \<notin> set (map fst m)) (required_fields kind))
        in if unexpected \<noteq> []
           then Inl (ValueError (''unsupported secret fields for '' @ credential_kind_value kind @ '': '' @ join_commas unexpected))
           else if missing \<noteq> []
           then Inl (ValueError (''missing required secret fields for '' @ credential_kind_value kind @ '': '' @ join_commas missing))
           else if sum_list (map (\<lambda>(k, v). length (utf8 v)) m) > 512000
           then Inl (ValueError ''credential secret material is too large'')
           else Inr m))"

section \<open>Rows and metadata\<close>

record credential_row =
  cr_id :: string
  cr_workspace_id :: string
  cr_name :: string
  cr_kind :: credential_kind
  cr_ciphertext :: bytes
  cr_nonce :: bytes
  cr_key_version :: int
  cr_secret_fields :: "string list"
  cr_created_by :: string
  cr_created_at :: time
  cr_updated_at :: time
  cr_last_used_at :: "time option"

record credential_metadata =
  cm_id :: string
  cm_workspace_id :: string
  cm_name :: string
  cm_kind :: credential_kind
  cm_key_version :: int
  cm_secret_fields :: "string list"
  cm_created_by :: string
  cm_created_at :: time
  cm_updated_at :: time
  cm_last_used_at :: "time option"

record credential_db = policy_db +
  connector_credentials :: "credential_row tbl"

definition credential_conflict :: "credential_row \<Rightarrow> credential_row \<Rightarrow> bool" where
  "credential_conflict x r =
     (cr_id x = cr_id r \<or> cr_workspace_id x = cr_workspace_id r \<and> cr_name x = cr_name r)"

definition metadata_of :: "credential_row \<Rightarrow> credential_metadata result" where
  "metadata_of r =
     (if cr_key_version r < 1 then Inl (ValidationError ''key_version'')
      else Inr \<lparr>cm_id = cr_id r, cm_workspace_id = cr_workspace_id r, cm_name = cr_name r, cm_kind = cr_kind r,
                cm_key_version = cr_key_version r, cm_secret_fields = cr_secret_fields r,
                cm_created_by = cr_created_by r, cm_created_at = cr_created_at r,
                cm_updated_at = cr_updated_at r, cm_last_used_at = cr_last_used_at r\<rparr>)"

definition sealed_secret :: "credential_row \<Rightarrow> encrypted_secret" where
  "sealed_secret r = \<lparr>es_ciphertext = cr_ciphertext r, es_nonce = cr_nonce r, es_key_version = cr_key_version r\<rparr>"

definition get_record :: "string \<Rightarrow> string \<Rightarrow> 'x credential_db_scheme \<Rightarrow> credential_row result" where
  "get_record w ident db =
     (case first_where (\<lambda>r. cr_workspace_id r = w \<and> cr_id r = ident) (connector_credentials db) of
        None \<Rightarrow> Inl (LookupError ''credential not found in workspace'')
      | Some r \<Rightarrow> Inr r)"

definition open_row :: "secret_library \<Rightarrow> cipher \<Rightarrow> credential_row \<Rightarrow> material result" where
  "open_row lib ci r =
     decrypt lib ci (sealed_secret r) (cr_workspace_id r) (cr_id r) (credential_kind_value (cr_kind r))"

definition seal_row ::
  "secret_library \<Rightarrow> cipher \<Rightarrow> bytes \<Rightarrow> material \<Rightarrow> time \<Rightarrow> credential_row \<Rightarrow> credential_row result" where
  "seal_row lib ci nonce m now r =
     bindE (encrypt lib ci nonce m (cr_workspace_id r) (cr_id r) (credential_kind_value (cr_kind r))) (\<lambda>es.
       Inr (r\<lparr>cr_ciphertext := es_ciphertext es, cr_nonce := es_nonce es,
              cr_key_version := es_key_version es, cr_updated_at := now\<rparr>))"

section \<open>Writing back\<close>

text \<open>The commit writes the columns whose value is not the one that was read.\<close>

definition flush_credential :: "credential_row \<Rightarrow> credential_row \<Rightarrow> credential_row \<Rightarrow> credential_row" where
  "flush_credential old new r =
     r\<lparr>cr_name := flush (cr_name old) (cr_name new) (cr_name r),
       cr_ciphertext := flush (cr_ciphertext old) (cr_ciphertext new) (cr_ciphertext r),
       cr_nonce := flush (cr_nonce old) (cr_nonce new) (cr_nonce r),
       cr_key_version := flush (cr_key_version old) (cr_key_version new) (cr_key_version r),
       cr_secret_fields := flush (cr_secret_fields old) (cr_secret_fields new) (cr_secret_fields r),
       cr_updated_at := flush (cr_updated_at old) (cr_updated_at new) (cr_updated_at r),
       cr_last_used_at := flush (cr_last_used_at old) (cr_last_used_at new) (cr_last_used_at r)\<rparr>"

text \<open>
  An update that matches no row any more raises \<open>StaleDataError\<close>, one that takes the name of
  another credential \<open>IntegrityError\<close>; an object without changes writes nothing.
\<close>

definition commit_credential ::
  "credential_row \<Rightarrow> credential_row \<Rightarrow> 'x credential_db_scheme \<Rightarrow> (unit, 'x credential_db_scheme) outcome" where
  "commit_credential old new db =
     (if new = old then (Inr (), db)
      else if row_of cr_id (connector_credentials db) (cr_id old) = None then (Inl StaleDataError, db)
      else if cr_name new \<noteq> cr_name old \<and> list_ex (\<lambda>x. cr_id x \<noteq> cr_id old \<and>
                cr_workspace_id x = cr_workspace_id old \<and> cr_name x = cr_name new) (connector_credentials db)
      then (Inl IntegrityError, db)
      else (Inr (), db\<lparr>connector_credentials :=
             update_where (\<lambda>r. cr_id r = cr_id old) (flush_credential old new) (connector_credentials db)\<rparr>))"

definition refreshed_metadata :: "string \<Rightarrow> 'x credential_db_scheme \<Rightarrow> credential_metadata result" where
  "refreshed_metadata ident db =
     (case row_of cr_id (connector_credentials db) ident of
        None \<Rightarrow> Inl InvalidRequestError
      | Some r \<Rightarrow> metadata_of r)"

definition save_credential ::
  "(nat \<Rightarrow> 'x credential_db_scheme \<Rightarrow> 'x credential_db_scheme) \<Rightarrow> credential_row \<Rightarrow> credential_row \<Rightarrow>
   'x credential_db_scheme \<Rightarrow> (credential_metadata, 'x credential_db_scheme) outcome" where
  "save_credential env old new db =
     (case commit_credential old new (env 1 db) of
        (Inl e, db') \<Rightarrow> (Inl e, db')
      | (Inr _, db') \<Rightarrow> (refreshed_metadata (cr_id old) (env 2 db'), env 2 db'))"

section \<open>Operations\<close>

definition name_problem :: "string \<Rightarrow> py_error option" where
  "name_problem name =
     (if name = [] then Some (ValueError ''credential name is required'')
      else if length name > 200 then Some (ValueError ''credential name is too long'')
      else None)"

definition create_credential ::
  "secret_library \<Rightarrow> cipher \<Rightarrow> (nat \<Rightarrow> 'x credential_db_scheme \<Rightarrow> 'x credential_db_scheme) \<Rightarrow> string \<Rightarrow> bytes \<Rightarrow>
   string \<Rightarrow> string \<Rightarrow> credential_kind \<Rightarrow> (string \<times> secret_value) list \<Rightarrow> string \<Rightarrow> time \<Rightarrow>
   'x credential_db_scheme \<Rightarrow> (credential_metadata, 'x credential_db_scheme) outcome" where
  "create_credential lib ci env ident nonce w name kind secret created_by now db =
     (let name = strip name
      in case bindE (get_workspace w db) (\<lambda>workspace.
                if workspace = None then Inl (LookupError ''workspace not found'')
                else case name_problem name of
                       Some e \<Rightarrow> Inl e
                     | None \<Rightarrow>
                         if strip created_by = [] then Inl (ValueError ''created_by is required'')
                         else bindE (validate_secret_material kind secret) (\<lambda>m.
                           let new = \<lparr>cr_id = ident, cr_workspace_id = w, cr_name = name, cr_kind = kind,
                                      cr_ciphertext = [], cr_nonce = [], cr_key_version = ci_active_version ci,
                                      cr_secret_fields = sort (map fst m), cr_created_by = created_by,
                                      cr_created_at = now, cr_updated_at = now, cr_last_used_at = None\<rparr>
                           in bindE (metadata_of new) (\<lambda>metadata.
                              bindE (seal_row lib ci nonce m now new) (\<lambda>row. Inr (metadata, row))))) of
           Inl e \<Rightarrow> (Inl e, db)
         | Inr (metadata, row) \<Rightarrow>
             let db1 = env 0 db
             in if first_where (\<lambda>r. cr_workspace_id r = w \<and> cr_name r = name) (connector_credentials db1) \<noteq> None
                then (Inl (ValueError ''credential name already exists in workspace''), db1)
                else let db2 = env 1 db1
                     in case insert_row credential_conflict row (connector_credentials db2) of
                          None \<Rightarrow> (Inl IntegrityError, db2)
                        | Some t \<Rightarrow> (Inr metadata, db2\<lparr>connector_credentials := t\<rparr>))"

definition list_credentials :: "string \<Rightarrow> 'x credential_db_scheme \<Rightarrow> credential_metadata list result" where
  "list_credentials w db =
     map_rows metadata_of (sort_key (\<lambda>r. (cr_name r, cr_id r))
       (filter (\<lambda>r. cr_workspace_id r = w) (connector_credentials db)))"

definition get_metadata :: "string \<Rightarrow> string \<Rightarrow> 'x credential_db_scheme \<Rightarrow> credential_metadata result" where
  "get_metadata w ident db = bindE (get_record w ident db) metadata_of"

definition replace_credential ::
  "secret_library \<Rightarrow> cipher \<Rightarrow> (nat \<Rightarrow> 'x credential_db_scheme \<Rightarrow> 'x credential_db_scheme) \<Rightarrow> bytes \<Rightarrow>
   string \<Rightarrow> string \<Rightarrow> (string \<times> secret_value) list \<Rightarrow> string option \<Rightarrow> time \<Rightarrow>
   'x credential_db_scheme \<Rightarrow> (credential_metadata, 'x credential_db_scheme) outcome" where
  "replace_credential lib ci env nonce w ident secret name now db =
     (case get_record w ident db of
        Inl e \<Rightarrow> (Inl e, db)
      | Inr row \<Rightarrow>
          (case validate_secret_material (cr_kind row) secret of
             Inl e \<Rightarrow> (Inl e, db)
           | Inr m \<Rightarrow>
               let clean = (case name of None \<Rightarrow> cr_name row | Some s \<Rightarrow> strip s)
               in case name_problem clean of
                    Some e \<Rightarrow> (Inl e, db)
                  | None \<Rightarrow>
                      let db1 = env 0 db
                      in if clean \<noteq> cr_name row \<and> first_where (\<lambda>r. cr_workspace_id r = w \<and> cr_name r = clean \<and>
                              cr_id r \<noteq> ident) (connector_credentials db1) \<noteq> None
                         then (Inl (ValueError ''credential name already exists in workspace''), db1)
                         else case seal_row lib ci nonce m now row of
                                Inl e \<Rightarrow> (Inl e, db1)
                              | Inr new \<Rightarrow>
                                  save_credential env row
                                    (new\<lparr>cr_name := clean, cr_secret_fields := sort (map fst m)\<rparr>) db1))"

definition rotate_encryption ::
  "secret_library \<Rightarrow> cipher \<Rightarrow> (nat \<Rightarrow> 'x credential_db_scheme \<Rightarrow> 'x credential_db_scheme) \<Rightarrow> bytes \<Rightarrow>
   string \<Rightarrow> string \<Rightarrow> time \<Rightarrow> 'x credential_db_scheme \<Rightarrow>
   (credential_metadata, 'x credential_db_scheme) outcome" where
  "rotate_encryption lib ci env nonce w ident now db =
     (case get_record w ident db of
        Inl e \<Rightarrow> (Inl e, db)
      | Inr row \<Rightarrow>
          (case bindE (open_row lib ci row) (\<lambda>m. seal_row lib ci nonce m now row) of
             Inl e \<Rightarrow> (Inl e, db)
           | Inr new \<Rightarrow> save_credential env row new db))"

definition resolve_for_use ::
  "secret_library \<Rightarrow> cipher \<Rightarrow> (nat \<Rightarrow> 'x credential_db_scheme \<Rightarrow> 'x credential_db_scheme) \<Rightarrow>
   string \<Rightarrow> string \<Rightarrow> time \<Rightarrow> 'x credential_db_scheme \<Rightarrow> (material, 'x credential_db_scheme) outcome" where
  "resolve_for_use lib ci env w ident now db =
     (case get_record w ident db of
        Inl e \<Rightarrow> (Inl e, db)
      | Inr row \<Rightarrow>
          (case open_row lib ci row of
             Inl e \<Rightarrow> (Inl e, db)
           | Inr m \<Rightarrow>
               (case commit_credential row (row\<lparr>cr_last_used_at := Some now\<rparr>) (env 1 db) of
                  (Inl e, db') \<Rightarrow> (Inl e, db')
                | (Inr _, db') \<Rightarrow> (Inr m, db'))))"

definition delete_credential ::
  "(nat \<Rightarrow> 'x credential_db_scheme \<Rightarrow> 'x credential_db_scheme) \<Rightarrow> string \<Rightarrow> string \<Rightarrow>
   'x credential_db_scheme \<Rightarrow> (unit, 'x credential_db_scheme) outcome" where
  "delete_credential env w ident db =
     (case get_record w ident db of
        Inl e \<Rightarrow> (Inl e, db)
      | Inr row \<Rightarrow> let db1 = env 1 db
          in (Inr (), db1\<lparr>connector_credentials :=
                delete_where (\<lambda>r. cr_id r = cr_id row) (connector_credentials db1)\<rparr>))"

end
