(* ===== verification/CredentialVault.thy ===== *)
theory CredentialVault
  imports Credentials PolicyActivation
begin

text \<open>
  What the credential store promises: it implements a vault, a map from a workspace and a credential
  id to the name, the kind and the secret material. \<open>vault_call\<close> says what each operation does to the
  vault, errors included; the rows, ciphertexts, nonces and key versions of \<open>Credentials\<close> refine it.
  The same invariant, \<open>vault_ok\<close>, gives the safety of key rollover; the associated data of \<open>Secrets\<close>
  gives that a ciphertext moved to another row stays closed; and a race of a rotation with a
  replacement is shown to bring an old secret back.
\<close>

section \<open>The vault\<close>

record stored_secret =
  sx_name :: string
  sx_kind :: credential_kind
  sx_material :: material

type_synonym vault = "string \<times> string \<Rightarrow> stored_secret option"

definition vault_entry :: "secret_library \<Rightarrow> cipher \<Rightarrow> credential_row \<Rightarrow> stored_secret option" where
  "vault_entry lib ci r =
     (case open_row lib ci r of
        Inl _ \<Rightarrow> None
      | Inr m \<Rightarrow> Some \<lparr>sx_name = cr_name r, sx_kind = cr_kind r, sx_material = m\<rparr>)"

definition vault_of :: "secret_library \<Rightarrow> cipher \<Rightarrow> credential_row tbl \<Rightarrow> vault" where
  "vault_of lib ci t k =
     (case row_of cr_id t (snd k) of
        None \<Rightarrow> None
      | Some r \<Rightarrow> if cr_workspace_id r = fst k then vault_entry lib ci r else None)"

definition row_ok :: "secret_library \<Rightarrow> cipher \<Rightarrow> credential_row \<Rightarrow> bool" where
  "row_ok lib ci r \<longleftrightarrow> 1 \<le> cr_key_version r \<and> name_problem (cr_name r) = None \<and>
     (\<exists>m. open_row lib ci r = Inr m \<and> distinct (map fst m) \<and> sorted (map fst m) \<and> cr_secret_fields r = map fst m)"

definition vault_ok :: "secret_library \<Rightarrow> cipher \<Rightarrow> credential_row tbl \<Rightarrow> bool" where
  "vault_ok lib ci t \<longleftrightarrow> keyed cr_id t \<and> distinct (map (\<lambda>r. (cr_workspace_id r, cr_name r)) t) \<and>
     (\<forall>r \<in> set t. row_ok lib ci r)"

section \<open>What the operations promise\<close>

datatype credential_call =
    CreateCredential string string credential_kind "(string \<times> secret_value) list" string
  | ReplaceCredential string string "(string \<times> secret_value) list" "string option"
  | RotateEncryption string string
  | ResolveForUse string string
  | DeleteCredential string string

definition name_taken :: "string \<Rightarrow> string \<Rightarrow> string \<Rightarrow> vault \<Rightarrow> bool" where
  "name_taken w name except V \<longleftrightarrow> (\<exists>i s. V (w, i) = Some s \<and> sx_name s = name \<and> i \<noteq> except)"

text \<open>A call on the vault: the material it answers with (empty unless it resolves a credential) and
  the new vault. \<open>ws\<close> tells the workspaces, \<open>ident\<close> is the id of a new credential.\<close>

fun vault_call ::
  "(string \<Rightarrow> workspace option result) \<Rightarrow> string \<Rightarrow> credential_call \<Rightarrow> vault \<Rightarrow> (material, vault) outcome" where
  "vault_call ws ident (CreateCredential w name kind secret created_by) V =
     (case bindE (ws w) (\<lambda>workspace.
             if workspace = None then Inl (LookupError ''workspace not found'')
             else case name_problem (strip name) of
                    Some e \<Rightarrow> Inl e
                  | None \<Rightarrow> if strip created_by = [] then Inl (ValueError ''created_by is required'')
                            else validate_secret_material kind secret) of
        Inl e \<Rightarrow> (Inl e, V)
      | Inr m \<Rightarrow>
          if name_taken w (strip name) ident V
          then (Inl (ValueError ''credential name already exists in workspace''), V)
          else (Inr [], V((w, ident) \<mapsto> \<lparr>sx_name = strip name, sx_kind = kind, sx_material = sort_key fst m\<rparr>)))"
| "vault_call ws ident (ReplaceCredential w i secret name) V =
     (case V (w, i) of
        None \<Rightarrow> (Inl (LookupError ''credential not found in workspace''), V)
      | Some s \<Rightarrow>
          (case bindE (validate_secret_material (sx_kind s) secret) (\<lambda>m.
                  let clean = (case name of None \<Rightarrow> sx_name s | Some t \<Rightarrow> strip t)
                  in case name_problem clean of Some e \<Rightarrow> Inl e | None \<Rightarrow> Inr (m, clean)) of
             Inl e \<Rightarrow> (Inl e, V)
           | Inr (m, clean) \<Rightarrow>
               if name_taken w clean i V
               then (Inl (ValueError ''credential name already exists in workspace''), V)
               else (Inr [], V((w, i) \<mapsto> \<lparr>sx_name = clean, sx_kind = sx_kind s, sx_material = sort_key fst m\<rparr>))))"
| "vault_call ws ident (RotateEncryption w i) V =
     (if V (w, i) = None then Inl (LookupError ''credential not found in workspace'') else Inr [], V)"
| "vault_call ws ident (ResolveForUse w i) V =
     (case V (w, i) of
        None \<Rightarrow> Inl (LookupError ''credential not found in workspace'')
      | Some s \<Rightarrow> Inr (sx_material s), V)"
| "vault_call ws ident (DeleteCredential w i) V =
     (case V (w, i) of
        None \<Rightarrow> (Inl (LookupError ''credential not found in workspace''), V)
      | Some _ \<Rightarrow> (Inr [], V((w, i) := None)))"

text \<open>The same call on the store, undisturbed; \<open>silent\<close> forgets the metadata.\<close>

definition silent :: "('a, 's) outcome \<Rightarrow> (material, 's) outcome" where
  "silent o' = (case o' of (r, db) \<Rightarrow> (bindE r (\<lambda>_. Inr []), db))"

fun store_call ::
  "secret_library \<Rightarrow> cipher \<Rightarrow> string \<Rightarrow> bytes \<Rightarrow> time \<Rightarrow> credential_call \<Rightarrow> 'x credential_db_scheme \<Rightarrow>
   (material, 'x credential_db_scheme) outcome" where
  "store_call lib ci ident nonce now (CreateCredential w name kind secret created_by) db =
     silent (create_credential lib ci (\<lambda>_. id) ident nonce w name kind secret created_by now db)"
| "store_call lib ci ident nonce now (ReplaceCredential w i secret name) db =
     silent (replace_credential lib ci (\<lambda>_. id) nonce w i secret name now db)"
| "store_call lib ci ident nonce now (RotateEncryption w i) db =
     silent (rotate_encryption lib ci (\<lambda>_. id) nonce w i now db)"
| "store_call lib ci ident nonce now (ResolveForUse w i) db = resolve_for_use lib ci (\<lambda>_. id) w i now db"
| "store_call lib ci ident nonce now (DeleteCredential w i) db = silent (delete_credential (\<lambda>_. id) w i db)"

section \<open>Validated material\<close>

lemma dict_put_keys: "distinct (map fst d) \<Longrightarrow> distinct (map fst (dict_put k v d)) \<and>
    set (map fst (dict_put k v d)) = insert k (set (map fst d))"
  by (induction k v d rule: dict_put.induct) auto

lemma normalize_fields_distinct: "normalize_fields secret d = Inr m \<Longrightarrow> distinct (map fst d) \<Longrightarrow> distinct (map fst m)"
proof (induction secret d rule: normalize_fields.induct)
  case (2 raw_key raw_value rest d)
  from "2.prems"(1) obtain v where "raw_value = SecretText v" "normalize_fields rest (dict_put (strip raw_key) v d) = Inr m"
    "strip raw_key \<noteq> []" "length (strip raw_key) \<le> 100" "v \<noteq> []" "length (utf8 v) \<le> 256000"
    by (auto simp: Let_def split: if_splits secret_value.splits)
  with "2.IH" [OF refl] "2.prems"(2) dict_put_keys show ?case by (auto simp: not_less)
qed simp

lemma validated_distinct: "validate_secret_material kind secret = Inr m \<Longrightarrow> distinct (map fst m)"
  using normalize_fields_distinct [of secret "[]"]
  by (auto simp: validate_secret_material_def bindE_Inr Let_def split: if_splits)

lemma sort_keys: "sort (map fst m) = map fst (sort_key fst m)"
  by (rule properties_for_sort) (simp_all add: mset_map)

lemma kind_plain: "CHR ''|'' \<notin> set (credential_kind_value k)"
  by (cases k) simp_all

section \<open>Rows and the vault\<close>

definition same_credential :: "credential_row \<Rightarrow> credential_row \<Rightarrow> bool" where
  "same_credential old new \<longleftrightarrow> cr_id new = cr_id old \<and> cr_workspace_id new = cr_workspace_id old \<and>
     cr_kind new = cr_kind old \<and> cr_created_by new = cr_created_by old \<and> cr_created_at new = cr_created_at old"

lemma get_record_eq:
  "keyed cr_id (connector_credentials db) \<Longrightarrow> get_record w i db =
     (case row_of cr_id (connector_credentials db) i of
        None \<Rightarrow> Inl (LookupError ''credential not found in workspace'')
      | Some r \<Rightarrow> if cr_workspace_id r = w then Inr r else Inl (LookupError ''credential not found in workspace''))"
  by (simp add: get_record_def first_where_key split: option.splits)

lemma vault_okD: "vault_ok lib ci t \<Longrightarrow> keyed cr_id t" "vault_ok lib ci t \<Longrightarrow> r \<in> set t \<Longrightarrow> row_ok lib ci r"
  by (simp_all add: vault_ok_def)

lemma row_okD:
  assumes "row_ok lib ci r"
  obtains m where "open_row lib ci r = Inr m" "distinct (map fst m)" "sorted (map fst m)" "cr_secret_fields r = map fst m"
    "1 \<le> cr_key_version r" "name_problem (cr_name r) = None"
    "vault_entry lib ci r = Some \<lparr>sx_name = cr_name r, sx_kind = cr_kind r, sx_material = m\<rparr>"
  using assms by (auto simp: row_ok_def vault_entry_def)

lemma get_record_vault:
  assumes "vault_ok lib ci (connector_credentials db)"
  shows "get_record w i db = Inr r \<Longrightarrow> row_of cr_id (connector_credentials db) i = Some r \<and> cr_workspace_id r = w \<and> cr_id r = i \<and>
      row_ok lib ci r \<and> vault_of lib ci (connector_credentials db) (w, i) = vault_entry lib ci r"
    and "get_record w i db = Inl e \<Longrightarrow> e = LookupError ''credential not found in workspace'' \<and>
      vault_of lib ci (connector_credentials db) (w, i) = None"
  using assms row_of_SomeD [of cr_id "connector_credentials db" i r]
  by (auto simp: get_record_eq vault_okD vault_of_def split: option.splits if_splits)

lemma name_taken_iff:
  assumes "vault_ok lib ci t"
  shows "name_taken w name i (vault_of lib ci t) \<longleftrightarrow> (\<exists>r \<in> set t. cr_workspace_id r = w \<and> cr_name r = name \<and> cr_id r \<noteq> i)"
proof
  assume "name_taken w name i (vault_of lib ci t)"
  then obtain j s where s: "vault_of lib ci t (w, j) = Some s" "sx_name s = name" "j \<noteq> i" by (auto simp: name_taken_def)
  then obtain r where "row_of cr_id t j = Some r" "cr_workspace_id r = w" "vault_entry lib ci r = Some s"
    by (auto simp: vault_of_def split: option.splits if_splits)
  with s show "\<exists>r \<in> set t. cr_workspace_id r = w \<and> cr_name r = name \<and> cr_id r \<noteq> i"
    by (auto simp: vault_entry_def split: sum.splits dest!: row_of_SomeD)
next
  assume "\<exists>r \<in> set t. cr_workspace_id r = w \<and> cr_name r = name \<and> cr_id r \<noteq> i"
  then obtain r where r: "r \<in> set t" "cr_workspace_id r = w" "cr_name r = name" "cr_id r \<noteq> i" by blast
  from row_okD [OF vault_okD(2) [OF assms r(1)]] obtain m
    where "vault_entry lib ci r = Some \<lparr>sx_name = cr_name r, sx_kind = cr_kind r, sx_material = m\<rparr>" .
  moreover have "row_of cr_id t (cr_id r) = Some r" by (rule row_of_member [OF vault_okD(1) [OF assms] r(1)])
  ultimately have "vault_of lib ci t (w, cr_id r) = Some \<lparr>sx_name = cr_name r, sx_kind = cr_kind r, sx_material = m\<rparr>"
    using r by (simp add: vault_of_def)
  with r show "name_taken w name i (vault_of lib ci t)" unfolding name_taken_def by fastforce
qed

definition put_row :: "credential_row \<Rightarrow> credential_row tbl \<Rightarrow> credential_row tbl" where
  "put_row new t = update_where (\<lambda>r. cr_id r = cr_id new) (\<lambda>_. new) t"

lemma row_of_put: "row_of cr_id (put_row new t) i =
    (if i = cr_id new then map_option (\<lambda>_. new) (row_of cr_id t i) else row_of cr_id t i)"
  unfolding put_row_def by (induction t) (auto simp: row_of_Cons update_where_def)

lemma keyed_put: "keyed cr_id (put_row new t) = keyed cr_id t"
proof -
  have "map cr_id (put_row new t) = map cr_id t" by (auto simp: put_row_def update_where_def)
  then show ?thesis by (simp add: keyed_def)
qed

lemma vault_of_put:
  assumes "row_of cr_id t (cr_id old) = Some old" "same_credential old new" "row_ok lib ci new"
  shows "vault_of lib ci (put_row new t) = (vault_of lib ci t)((cr_workspace_id old, cr_id old) := vault_entry lib ci new)"
proof
  fix k :: "string \<times> string"
  show "vault_of lib ci (put_row new t) k = ((vault_of lib ci t)((cr_workspace_id old, cr_id old) := vault_entry lib ci new)) k"
    using assms by (cases k) (auto simp: vault_of_def row_of_put same_credential_def split: option.splits)
qed

lemma vault_ok_put:
  assumes "vault_ok lib ci t" "row_of cr_id t (cr_id old) = Some old" "same_credential old new" "row_ok lib ci new"
    and "cr_name new = cr_name old \<or> \<not> name_taken (cr_workspace_id old) (cr_name new) (cr_id old) (vault_of lib ci t)"
  shows "vault_ok lib ci (put_row new t)"
proof -
  have k: "keyed cr_id t" by (rule vault_okD(1) [OF assms(1)])
  have names: "distinct (map (\<lambda>r. (cr_workspace_id r, cr_name r)) t)" using assms(1) by (simp add: vault_ok_def)
  have "distinct (map (\<lambda>r. (cr_workspace_id r, cr_name r)) (put_row new t))"
  proof (cases "cr_name new = cr_name old")
    case True
    have "map (\<lambda>r. (cr_workspace_id r, cr_name r)) (put_row new t) = map (\<lambda>r. (cr_workspace_id r, cr_name r)) t"
    proof -
      have "r = old" if "r \<in> set t" "cr_id r = cr_id old" for r
        using row_of_member [OF k that(1)] assms(2) unfolding that(2) by (metis option.inject)
      then show ?thesis using True assms(3) by (auto simp: put_row_def update_where_def same_credential_def)
    qed
    then show ?thesis using names by simp
  next
    case False
    then have free: "\<not> (\<exists>r \<in> set t. cr_workspace_id r = cr_workspace_id old \<and> cr_name r = cr_name new \<and> cr_id r \<noteq> cr_id old)"
      using assms(5) by (simp add: name_taken_iff [OF assms(1)])
    let ?f = "\<lambda>r. if cr_id r = cr_id old then (cr_workspace_id old, cr_name new) else (cr_workspace_id r, cr_name r)"
    have "r = s" if rs: "r \<in> set t" "s \<in> set t" and eq: "?f r = ?f s" for r s
    proof (cases "cr_id r = cr_id old \<or> cr_id s = cr_id old")
      case True
      then have "cr_id r = cr_id s" using eq rs free by (auto split: if_splits)
      with rs row_of_member [OF k] show ?thesis by (metis option.inject)
    next
      case other: False
      then have "(\<lambda>r. (cr_workspace_id r, cr_name r)) r = (\<lambda>r. (cr_workspace_id r, cr_name r)) s" using eq by simp
      with names rs show ?thesis unfolding distinct_map inj_on_def by blast
    qed
    then have "distinct (map ?f t)" using k by (simp add: keyed_def distinct_map inj_on_def)
    moreover have "map (\<lambda>r. (cr_workspace_id r, cr_name r)) (put_row new t) =
        map (\<lambda>r. if cr_id r = cr_id old then (cr_workspace_id old, cr_name new) else (cr_workspace_id r, cr_name r)) t"
      using assms(3) by (simp add: put_row_def update_where_def same_credential_def)
    ultimately show ?thesis by (simp only:)
  qed
  moreover have "row_ok lib ci r" if "r \<in> set (put_row new t)" for r
    using that vault_okD(2) [OF assms(1)] assms(4) by (auto simp: put_row_def set_update_where split: if_splits)
  ultimately show ?thesis using k by (simp add: vault_ok_def keyed_put)
qed

section \<open>Sealing, committing\<close>

lemma open_row_cong:
  "cr_id r = cr_id s \<Longrightarrow> cr_workspace_id r = cr_workspace_id s \<Longrightarrow> cr_kind r = cr_kind s \<Longrightarrow> sealed_secret r = sealed_secret s \<Longrightarrow>
   open_row lib ci r = open_row lib ci s"
  by (simp add: open_row_def)

lemma seal_row_ok:
  assumes "cipher_ok ci" "aead_correct lib" "json_correct lib" "distinct (map fst m)"
  obtains new where "seal_row lib ci nonce m now r = Inr new" "same_credential r new" "cr_name new = cr_name r"
    "cr_secret_fields new = cr_secret_fields r" "cr_key_version new = ci_active_version ci" "cr_nonce new = nonce"
    "open_row lib ci new = Inr (sort_key fst m)"
proof -
  obtain es where es: "encrypt lib ci nonce m (cr_workspace_id r) (cr_id r) (credential_kind_value (cr_kind r)) = Inr es"
    "es_key_version es = ci_active_version ci" "es_nonce es = nonce"
    using encrypt_ok [OF assms(1)] .
  let ?new = "r\<lparr>cr_ciphertext := es_ciphertext es, cr_nonce := es_nonce es, cr_key_version := es_key_version es, cr_updated_at := now\<rparr>"
  have "sealed_secret ?new = es" by (simp add: sealed_secret_def)
  then have "open_row lib ci ?new = Inr (sort_key fst m)"
    using decrypt_encrypt [OF assms(2-4) es(1), of ci] by (simp add: open_row_def)
  moreover have "seal_row lib ci nonce m now r = Inr ?new" by (simp add: seal_row_def es(1))
  ultimately show ?thesis using that [of ?new] es by (simp add: same_credential_def)
qed

lemma flush_whole: "same_credential old new \<Longrightarrow> flush_credential old new old = new"
  by (rule credential_row.equality) (simp_all add: flush_credential_def same_credential_def)

lemma put_row_same: "keyed cr_id t \<Longrightarrow> row_of cr_id t (cr_id r) = Some r \<Longrightarrow> put_row r t = t"
  unfolding put_row_def update_where_def by (rule map_idI) (metis option.inject row_of_member)

lemma commit_undisturbed:
  assumes "vault_ok lib ci (connector_credentials db)" "row_of cr_id (connector_credentials db) (cr_id old) = Some old"
    and "same_credential old new"
    and "cr_name new = cr_name old \<or> \<not> name_taken (cr_workspace_id old) (cr_name new) (cr_id old) (vault_of lib ci (connector_credentials db))"
  shows "commit_credential old new db = (Inr (), db\<lparr>connector_credentials := put_row new (connector_credentials db)\<rparr>)"
proof (cases "new = old")
  case True
  then show ?thesis using put_row_same [OF vault_okD(1) [OF assms(1)] assms(2)] by (simp add: commit_credential_def)
next
  case False
  have "update_where (\<lambda>r. cr_id r = cr_id old) (flush_credential old new) (connector_credentials db) = put_row new (connector_credentials db)"
    using row_of_member [OF vault_okD(1) [OF assms(1)]] assms(2,3) flush_whole [OF assms(3)]
    unfolding put_row_def update_where_def same_credential_def by (intro map_cong) (metis option.inject)+
  then show ?thesis
    using False assms(2,4) by (auto simp: commit_credential_def name_taken_iff [OF assms(1)] list_ex_iff)
qed

lemma save_undisturbed:
  assumes "vault_ok lib ci (connector_credentials db)" "row_of cr_id (connector_credentials db) (cr_id old) = Some old"
    and "same_credential old new"
    and "cr_name new = cr_name old \<or> \<not> name_taken (cr_workspace_id old) (cr_name new) (cr_id old) (vault_of lib ci (connector_credentials db))"
  shows "save_credential (\<lambda>_. id) old new db = (metadata_of new, db\<lparr>connector_credentials := put_row new (connector_credentials db)\<rparr>)"
proof -
  have "cr_id new = cr_id old" using assms(3) by (simp add: same_credential_def)
  then show ?thesis
    using commit_undisturbed [OF assms] assms(2) by (simp add: save_credential_def refreshed_metadata_def row_of_put)
qed

text \<open>A row that is sealed again under the same or a new material.\<close>

lemma put_refines:
  assumes "vault_ok lib ci (connector_credentials db)" "row_of cr_id (connector_credentials db) (cr_id old) = Some old"
    and "same_credential old new" "row_ok lib ci new" "vault_entry lib ci new = Some s"
    and "cr_name new = cr_name old \<or> \<not> name_taken (cr_workspace_id old) (cr_name new) (cr_id old) (vault_of lib ci (connector_credentials db))"
  shows "vault_ok lib ci (connector_credentials (db\<lparr>connector_credentials := put_row new (connector_credentials db)\<rparr>)) \<and>
    vault_of lib ci (connector_credentials (db\<lparr>connector_credentials := put_row new (connector_credentials db)\<rparr>)) =
      (vault_of lib ci (connector_credentials db))((cr_workspace_id old, cr_id old) \<mapsto> s)"
  using vault_ok_put [OF assms(1-4,6)] vault_of_put [OF assms(2-4)] assms(5) by simp

section \<open>Each operation refines its promise\<close>

definition refines_call ::
  "secret_library \<Rightarrow> cipher \<Rightarrow> string \<Rightarrow> credential_call \<Rightarrow> 'x credential_db_scheme \<Rightarrow>
   (material, 'x credential_db_scheme) outcome \<Rightarrow> bool" where
  "refines_call lib ci ident call db out \<longleftrightarrow>
     vault_ok lib ci (connector_credentials (snd out)) \<and> workspaces (snd out) = workspaces db \<and>
     vault_call (\<lambda>w. get_workspace w db) ident call (vault_of lib ci (connector_credentials db)) =
       (fst out, vault_of lib ci (connector_credentials (snd out)))"

lemma resolve_refines:
  assumes "vault_ok lib ci (connector_credentials db)"
  shows "refines_call lib ci ident (ResolveForUse w i) db (resolve_for_use lib ci (\<lambda>_. id) w i now db)"
proof (cases "get_record w i db")
  case (Inl e)
  then show ?thesis using get_record_vault(2) [OF assms Inl] assms by (simp add: refines_call_def resolve_for_use_def)
next
  case (Inr r)
  note r = get_record_vault(1) [OF assms Inr]
  then obtain m where m: "open_row lib ci r = Inr m" "distinct (map fst m)" "sorted (map fst m)" "cr_secret_fields r = map fst m"
    "1 \<le> cr_key_version r" "name_problem (cr_name r) = None"
    "vault_entry lib ci r = Some \<lparr>sx_name = cr_name r, sx_kind = cr_kind r, sx_material = m\<rparr>"
    using row_okD by blast
  let ?new = "r\<lparr>cr_last_used_at := Some now\<rparr>"
  have same: "same_credential r ?new" by (simp add: same_credential_def)
  have opens: "open_row lib ci ?new = Inr m" using m(1) open_row_cong [of ?new r] by (simp add: sealed_secret_def)
  have ok: "row_ok lib ci ?new" using m opens by (simp add: row_ok_def)
  have entry: "vault_entry lib ci ?new = Some \<lparr>sx_name = cr_name r, sx_kind = cr_kind r, sx_material = m\<rparr>"
    using opens by (simp add: vault_entry_def)
  have row: "row_of cr_id (connector_credentials db) (cr_id r) = Some r" using r by simp
  have unchanged: "(vault_of lib ci (connector_credentials db))((w, i) \<mapsto> \<lparr>sx_name = cr_name r, sx_kind = cr_kind r, sx_material = m\<rparr>) =
      vault_of lib ci (connector_credentials db)"
    using r m(7) by (simp add: fun_upd_idem)
  show ?thesis
    using put_refines [OF assms row same ok entry] commit_undisturbed [OF assms row same] r m(1,7)
    by (simp add: refines_call_def resolve_for_use_def Inr unchanged)
qed

definition crypto_ok :: "secret_library \<Rightarrow> cipher \<Rightarrow> bool" where
  "crypto_ok lib ci \<longleftrightarrow> cipher_ok ci \<and> aead_correct lib \<and> json_correct lib"

lemma active_positive: "crypto_ok lib ci \<Longrightarrow> 1 \<le> ci_active_version ci"
  using cipher_active cipher_key unfolding crypto_ok_def by blast

lemma silent_simps [simp]: "silent (Inl e, db) = (Inl e, db)" "silent (Inr a, db) = (Inr [], db)"
  by (simp_all add: silent_def)

lemma metadata_ok: "1 \<le> cr_key_version r \<Longrightarrow> \<exists>md. metadata_of r = Inr md"
  by (simp add: metadata_of_def)

text \<open>Sealing material for a row under a free name and saving it.\<close>

lemma reseal_refines:
  assumes ok: "vault_ok lib ci (connector_credentials db)" and cr: "crypto_ok lib ci"
    and row: "row_of cr_id (connector_credentials db) (cr_id r) = Some r" and m: "distinct (map fst m)"
    and name: "name_problem clean = None" "clean = cr_name r \<or> \<not> name_taken (cr_workspace_id r) clean (cr_id r) (vault_of lib ci (connector_credentials db))"
    and sealed: "seal_row lib ci nonce m now r = Inr new0"
    and final: "new = new0\<lparr>cr_name := clean, cr_secret_fields := sort (map fst m)\<rparr>"
  obtains md db' where "save_credential (\<lambda>_. id) r new db = (Inr md, db')" "vault_ok lib ci (connector_credentials db')"
    "workspaces db' = workspaces db" "cr_key_version new = ci_active_version ci" "connector_credentials db' = put_row new (connector_credentials db)"
    "vault_of lib ci (connector_credentials db') = (vault_of lib ci (connector_credentials db))((cr_workspace_id r, cr_id r) \<mapsto>
       \<lparr>sx_name = clean, sx_kind = cr_kind r, sx_material = sort_key fst m\<rparr>)"
proof -
  from cr have c: "cipher_ok ci" "aead_correct lib" "json_correct lib" by (simp_all add: crypto_ok_def)
  have n: "same_credential r new0" "cr_key_version new0 = ci_active_version ci" "open_row lib ci new0 = Inr (sort_key fst m)"
    using seal_row_ok [OF c m, of nonce now r] sealed by (metis sum.inject(2))+
  have same: "same_credential r new" using n(1) by (simp add: final same_credential_def)
  have opens: "open_row lib ci new = Inr (sort_key fst m)"
    using n(3) open_row_cong [of new new0] by (simp add: final sealed_secret_def)
  have "distinct (map fst (sort_key fst m))" using m unfolding sort_keys [symmetric] by simp
  then have rok: "row_ok lib ci new"
    using opens n(2) active_positive [OF cr] name(1) by (simp add: row_ok_def final sort_keys)
  have entry: "vault_entry lib ci new = Some \<lparr>sx_name = clean, sx_kind = cr_kind r, sx_material = sort_key fst m\<rparr>"
    using opens same by (simp add: vault_entry_def final same_credential_def)
  have nm: "cr_name new = cr_name r \<or> \<not> name_taken (cr_workspace_id r) (cr_name new) (cr_id r) (vault_of lib ci (connector_credentials db))"
    using name(2) by (simp add: final)
  obtain md where md: "metadata_of new = Inr md" using metadata_ok rok by (auto simp: row_ok_def)
  let ?db = "db\<lparr>connector_credentials := put_row new (connector_credentials db)\<rparr>"
  show ?thesis
    using that [of md ?db] put_refines [OF ok row same rok entry nm] save_undisturbed [OF ok row same nm] md n(2)
    by (simp add: final)
qed

lemma rotate_effect:
  assumes "vault_ok lib ci (connector_credentials db)" "crypto_ok lib ci" "get_record w i db = Inr r"
  obtains md new db' where "rotate_encryption lib ci (\<lambda>_. id) nonce w i now db = (Inr md, db')"
    "vault_ok lib ci (connector_credentials db')" "workspaces db' = workspaces db"
    "vault_of lib ci (connector_credentials db') = vault_of lib ci (connector_credentials db)"
    "connector_credentials db' = put_row new (connector_credentials db)" "same_credential r new"
    "cr_key_version new = ci_active_version ci"
proof -
  note r = get_record_vault(1) [OF assms(1,3)]
  then obtain m where m: "open_row lib ci r = Inr m" "distinct (map fst m)" "sorted (map fst m)" "cr_secret_fields r = map fst m"
    "name_problem (cr_name r) = None" "vault_entry lib ci r = Some \<lparr>sx_name = cr_name r, sx_kind = cr_kind r, sx_material = m\<rparr>"
    using row_okD by blast
  from assms(2) have c: "cipher_ok ci" "aead_correct lib" "json_correct lib" by (simp_all add: crypto_ok_def)
  obtain new where new: "seal_row lib ci nonce m now r = Inr new" "same_credential r new" "cr_name new = cr_name r"
    "cr_secret_fields new = cr_secret_fields r"
    using seal_row_ok [OF c m(2), of nonce now r] .
  have final: "new = new\<lparr>cr_name := cr_name r, cr_secret_fields := sort (map fst m)\<rparr>"
    using new(3,4) m(3,4) by (simp add: sorted_sort_id)
  have row: "row_of cr_id (connector_credentials db) (cr_id r) = Some r" using r by simp
  obtain md db' where saved: "save_credential (\<lambda>_. id) r new db = (Inr md, db')" "vault_ok lib ci (connector_credentials db')"
    "workspaces db' = workspaces db" "cr_key_version new = ci_active_version ci" "connector_credentials db' = put_row new (connector_credentials db)"
    "vault_of lib ci (connector_credentials db') = (vault_of lib ci (connector_credentials db))((cr_workspace_id r, cr_id r) \<mapsto>
       \<lparr>sx_name = cr_name r, sx_kind = cr_kind r, sx_material = sort_key fst m\<rparr>)"
    by (rule reseal_refines [OF assms(1,2) row m(2,5) _ new(1) final]) simp_all
  have "sort_key fst m = m" using m(3) by (rule sort_key_id_if_sorted)
  then have "vault_of lib ci (connector_credentials db') = vault_of lib ci (connector_credentials db)"
    using saved(6) r m(6) by (simp add: fun_upd_idem)
  moreover have "rotate_encryption lib ci (\<lambda>_. id) nonce w i now db = (Inr md, db')"
    using saved(1) m(1) new(1) by (simp add: rotate_encryption_def assms(3))
  ultimately show ?thesis using that saved(2-5) new(2) by blast
qed

lemma rotate_refines:
  assumes "vault_ok lib ci (connector_credentials db)" "crypto_ok lib ci"
  shows "refines_call lib ci ident (RotateEncryption w i) db (silent (rotate_encryption lib ci (\<lambda>_. id) nonce w i now db))"
proof (cases "get_record w i db")
  case (Inl e)
  then show ?thesis using get_record_vault(2) [OF assms(1) Inl] assms by (simp add: refines_call_def rotate_encryption_def)
next
  case (Inr r)
  obtain md db' where "rotate_encryption lib ci (\<lambda>_. id) nonce w i now db = (Inr md, db')"
    "vault_ok lib ci (connector_credentials db')" "workspaces db' = workspaces db"
    "vault_of lib ci (connector_credentials db') = vault_of lib ci (connector_credentials db)"
    by (rule rotate_effect [OF assms Inr])
  moreover have "vault_of lib ci (connector_credentials db) (w, i) \<noteq> None"
    using get_record_vault(1) [OF assms(1) Inr] row_okD by (metis option.distinct(1))
  ultimately show ?thesis by (simp add: refines_call_def)
qed

lemma name_taken_rows:
  assumes "vault_ok lib ci (connector_credentials db)"
  shows "first_where (\<lambda>r. cr_workspace_id r = w \<and> cr_name r = name \<and> cr_id r \<noteq> i) (connector_credentials db) \<noteq> None \<longleftrightarrow>
    name_taken w name i (vault_of lib ci (connector_credentials db))"
  by (auto simp: name_taken_iff [OF assms] first_where_def find_NoneD)

lemma own_name_free:
  assumes "vault_ok lib ci t" "row_of cr_id t i = Some r"
  shows "\<not> name_taken (cr_workspace_id r) (cr_name r) i (vault_of lib ci t)"
proof -
  have "r \<in> set t" "cr_id r = i" using row_of_SomeD [OF assms(2)] by simp_all
  then show ?thesis
    using assms(1) unfolding name_taken_iff [OF assms(1)] vault_ok_def distinct_map inj_on_def by blast
qed

lemma replace_refines:
  assumes "vault_ok lib ci (connector_credentials db)" "crypto_ok lib ci"
  shows "refines_call lib ci ident (ReplaceCredential w i secret name) db
    (silent (replace_credential lib ci (\<lambda>_. id) nonce w i secret name now db))"
proof (cases "get_record w i db")
  case (Inl e)
  then show ?thesis using get_record_vault(2) [OF assms(1) Inl] assms by (simp add: refines_call_def replace_credential_def)
next
  case (Inr r)
  note r = get_record_vault(1) [OF assms(1) Inr]
  then obtain m0 where entry: "vault_entry lib ci r = Some \<lparr>sx_name = cr_name r, sx_kind = cr_kind r, sx_material = m0\<rparr>"
    using row_okD by blast
  have row: "row_of cr_id (connector_credentials db) (cr_id r) = Some r" using r by simp
  from assms(2) have c: "cipher_ok ci" "aead_correct lib" "json_correct lib" by (simp_all add: crypto_ok_def)
  define clean where "clean = (case name of None \<Rightarrow> cr_name r | Some s \<Rightarrow> strip s)"
  let ?V = "vault_of lib ci (connector_credentials db)"
  obtain s where V: "?V (w, i) = Some s" "sx_kind s = cr_kind r" and names: "sx_name s = cr_name r" using r entry by simp
  have clean: "(case name of None \<Rightarrow> sx_name s | Some t \<Rightarrow> strip t) = clean" unfolding names clean_def ..
  note replaces = refines_call_def replace_credential_def Inr clean clean_def [symmetric] Let_def
  show ?thesis
  proof (cases "validate_secret_material (cr_kind r) secret")
    case (Inl e)
    then show ?thesis using assms(1) V by (simp add: refines_call_def replace_credential_def Inr)
  next
    case valid: (Inr m)
    show ?thesis
    proof (cases "name_problem clean")
      case (Some e)
      then show ?thesis using assms(1) V valid by (simp add: replaces)
    next
      case good: None
      show ?thesis
      proof (cases "clean \<noteq> cr_name r \<and> name_taken w clean i ?V")
        case True
        then show ?thesis using assms(1) V valid good name_taken_rows [OF assms(1), of w clean i]
          by (simp add: replaces)
      next
        case False
        have free: "\<not> name_taken w clean i ?V" using False own_name_free [OF assms(1), of i r] r by auto
        obtain new where new: "seal_row lib ci nonce m now r = Inr new"
          using seal_row_ok [OF c validated_distinct [OF valid], of nonce now r] .
        have dis: "clean = cr_name r \<or> \<not> name_taken (cr_workspace_id r) clean (cr_id r) ?V" using free r by simp
        obtain md db' where saved: "save_credential (\<lambda>_. id) r (new\<lparr>cr_name := clean, cr_secret_fields := sort (map fst m)\<rparr>) db = (Inr md, db')"
          "vault_ok lib ci (connector_credentials db')" "workspaces db' = workspaces db"
          "vault_of lib ci (connector_credentials db') = ?V((cr_workspace_id r, cr_id r) \<mapsto>
             \<lparr>sx_name = clean, sx_kind = cr_kind r, sx_material = sort_key fst m\<rparr>)"
          by (rule reseal_refines [OF assms row validated_distinct [OF valid] good dis new refl])
        show ?thesis
          using saved V valid good free r new name_taken_rows [OF assms(1), of w clean i]
          by (simp add: replaces)
      qed
    qed
  qed
qed

lemma delete_refines:
  assumes "vault_ok lib ci (connector_credentials db)"
  shows "refines_call lib ci ident (DeleteCredential w i) db (silent (delete_credential (\<lambda>_. id) w i db))"
proof (cases "get_record w i db")
  case (Inl e)
  then show ?thesis using get_record_vault(2) [OF assms Inl] assms by (simp add: refines_call_def delete_credential_def)
next
  case (Inr r)
  note r = get_record_vault(1) [OF assms Inr]
  then obtain s where V: "vault_of lib ci (connector_credentials db) (w, i) = Some s" using row_okD by metis
  let ?t = "delete_where (\<lambda>r. cr_id r = i) (connector_credentials db)"
  have k: "keyed cr_id (connector_credentials db)" by (rule vault_okD(1) [OF assms])
  have rows: "row_of cr_id ?t j = (if j = i then None else row_of cr_id (connector_credentials db) j)" for j
    using row_of_SomeD [of cr_id "connector_credentials db" j] by (auto simp: row_of_delete [OF k] split: option.splits)
  have "vault_of lib ci ?t k = ((vault_of lib ci (connector_credentials db))((w, i) := None)) k" for k :: "string \<times> string"
    using r by (cases k) (auto simp: vault_of_def rows)
  then have "vault_of lib ci ?t = (vault_of lib ci (connector_credentials db))((w, i) := None)" ..
  moreover have "vault_ok lib ci ?t"
    using assms by (auto simp: vault_ok_def delete_where_def keyed_def distinct_map inj_on_def)
  moreover have "cr_id r = i" using r by simp
  ultimately show ?thesis using V by (simp add: refines_call_def delete_credential_def Inr)
qed

lemma row_of_snoc: "row_of key (t @ [r]) j = (if key r = j \<and> row_of key t j = None then Some r else row_of key t j)"
  by (simp add: row_of_append split: option.splits)

lemma create_refines:
  assumes "vault_ok lib ci (connector_credentials db)" "crypto_ok lib ci" "row_of cr_id (connector_credentials db) ident = None"
  shows "refines_call lib ci ident (CreateCredential w name kind secret created_by) db
    (silent (create_credential lib ci (\<lambda>_. id) ident nonce w name kind secret created_by now db))"
proof -
  let ?V = "vault_of lib ci (connector_credentials db)"
  define checks where "checks = bindE (get_workspace w db) (\<lambda>workspace.
             if workspace = None then Inl (LookupError ''workspace not found'')
             else case name_problem (strip name) of
                    Some e \<Rightarrow> Inl e
                  | None \<Rightarrow> if strip created_by = [] then Inl (ValueError ''created_by is required'')
                            else validate_secret_material kind secret)"
  define fresh where "fresh = (\<lambda>m :: material. \<lparr>cr_id = ident, cr_workspace_id = w, cr_name = strip name, cr_kind = kind,
      cr_ciphertext = [], cr_nonce = [], cr_key_version = ci_active_version ci, cr_secret_fields = sort (map fst m),
      cr_created_by = created_by, cr_created_at = now, cr_updated_at = now, cr_last_used_at = None\<rparr>)"
  have create: "create_credential lib ci (\<lambda>_. id) ident nonce w name kind secret created_by now db =
    (case bindE checks (\<lambda>m. bindE (metadata_of (fresh m)) (\<lambda>metadata.
        bindE (seal_row lib ci nonce m now (fresh m)) (\<lambda>row. Inr (metadata, row)))) of
       Inl e \<Rightarrow> (Inl e, db)
     | Inr (metadata, row) \<Rightarrow>
         if first_where (\<lambda>r. cr_workspace_id r = w \<and> cr_name r = strip name) (connector_credentials db) \<noteq> None
         then (Inl (ValueError ''credential name already exists in workspace''), db)
         else case insert_row credential_conflict row (connector_credentials db) of
                None \<Rightarrow> (Inl IntegrityError, db)
              | Some t \<Rightarrow> (Inr metadata, db\<lparr>connector_credentials := t\<rparr>))"
    unfolding create_credential_def checks_def fresh_def Let_def id_apply
    by (cases "get_workspace w db"; cases "projr (get_workspace w db)"; cases "name_problem (strip name)";
        cases "strip created_by = []") simp_all
  show ?thesis
  proof (cases checks)
    case (Inl e)
    then show ?thesis using assms(1) by (simp add: refines_call_def create checks_def [symmetric])
  next
    case (Inr m)
    then have name: "name_problem (strip name) = None" and valid: "validate_secret_material kind secret = Inr m"
      by (auto simp: checks_def bindE_Inr split: if_splits option.splits)
    have d: "distinct (map fst m)" by (rule validated_distinct [OF valid])
    from assms(2) have c: "cipher_ok ci" "aead_correct lib" "json_correct lib" by (simp_all add: crypto_ok_def)
    obtain md where md: "metadata_of (fresh m) = Inr md" using metadata_ok [of "fresh m"] active_positive [OF assms(2)] by (auto simp: fresh_def)
    obtain new where new: "seal_row lib ci nonce m now (fresh m) = Inr new" "same_credential (fresh m) new" "cr_name new = cr_name (fresh m)"
      "cr_secret_fields new = cr_secret_fields (fresh m)" "cr_key_version new = ci_active_version ci"
      "open_row lib ci new = Inr (sort_key fst m)"
      using seal_row_ok [OF c d, of nonce now "fresh m"] .
    have f: "cr_id new = ident" "cr_workspace_id new = w" "cr_name new = strip name" "cr_kind new = kind"
      "cr_secret_fields new = map fst (sort_key fst m)"
      using new(2-4) by (simp_all add: same_credential_def fresh_def sort_keys)
    have no: "cr_id r \<noteq> ident" if "r \<in> set (connector_credentials db)" for r
      using assms(3) that by (auto simp: row_of_None)
    have taken: "first_where (\<lambda>r. cr_workspace_id r = w \<and> cr_name r = strip name) (connector_credentials db) \<noteq> None \<longleftrightarrow>
        name_taken w (strip name) ident ?V"
      using no by (auto simp: name_taken_iff [OF assms(1)] first_where_def find_NoneD)
    show ?thesis
    proof (cases "name_taken w (strip name) ident ?V")
      case True
      then show ?thesis
        using assms(1) taken by (simp add: refines_call_def create Inr md new(1) checks_def [symmetric])
    next
      case False
      let ?t = "connector_credentials db @ [new]"
      have free: "\<not> (cr_workspace_id r = w \<and> cr_name r = strip name)" if "r \<in> set (connector_credentials db)" for r
        using False no that unfolding name_taken_iff [OF assms(1)] by blast
      have ins: "insert_row credential_conflict new (connector_credentials db) = Some ?t"
        using no free by (auto simp: insert_row_Some credential_conflict_def f)
      have "distinct (map fst (sort_key fst m))" using d unfolding sort_keys [symmetric] by simp
      then have "row_ok lib ci new"
        using new(5,6) f active_positive [OF assms(2)] name by (simp add: row_ok_def sort_keys)
      moreover have "(w, strip name) \<notin> (\<lambda>r. (cr_workspace_id r, cr_name r)) ` set (connector_credentials db)" using free by (metis (mono_tags, lifting) imageE prod.inject)
      ultimately have "vault_ok lib ci ?t"
        using assms(1,3) by (simp add: vault_ok_def keyed_append f)
      moreover have "vault_of lib ci ?t = ?V((w, ident) \<mapsto> \<lparr>sx_name = strip name, sx_kind = kind, sx_material = sort_key fst m\<rparr>)"
      proof
        fix k :: "string \<times> string"
        show "vault_of lib ci ?t k = (?V((w, ident) \<mapsto> \<lparr>sx_name = strip name, sx_kind = kind, sx_material = sort_key fst m\<rparr>)) k"
          using assms(3) new(6) f by (cases k) (auto simp: vault_of_def row_of_snoc vault_entry_def)
      qed
      ultimately show ?thesis
        using False taken by (simp add: refines_call_def create Inr md new(1) ins checks_def [symmetric])
    qed
  qed
qed

section \<open>Runs of calls\<close>

lemma store_call_refines:
  assumes "vault_ok lib ci (connector_credentials db)" "crypto_ok lib ci" "row_of cr_id (connector_credentials db) ident = None"
  shows "refines_call lib ci ident call db (store_call lib ci ident nonce now call db)"
  using create_refines [OF assms] replace_refines [OF assms(1,2)] rotate_refines [OF assms(1,2)]
    resolve_refines [OF assms(1)] delete_refines [OF assms(1)]
  by (cases call) simp_all

type_synonym timed_call = "string \<times> bytes \<times> time \<times> credential_call"

fun run_store ::
  "secret_library \<Rightarrow> cipher \<Rightarrow> timed_call list \<Rightarrow> 'x credential_db_scheme \<Rightarrow>
   material result list \<times> 'x credential_db_scheme" where
  "run_store lib ci [] db = ([], db)"
| "run_store lib ci ((ident, nonce, now, call) # calls) db =
     (let (r, db1) = store_call lib ci ident nonce now call db; (rs, db2) = run_store lib ci calls db1
      in (r # rs, db2))"

fun run_vault :: "(string \<Rightarrow> workspace option result) \<Rightarrow> timed_call list \<Rightarrow> vault \<Rightarrow> material result list \<times> vault" where
  "run_vault ws [] V = ([], V)"
| "run_vault ws ((ident, nonce, now, call) # calls) V =
     (let (r, V1) = vault_call ws ident call V; (rs, V2) = run_vault ws calls V1 in (r # rs, V2))"

definition unused :: "string \<Rightarrow> vault \<Rightarrow> bool" where
  "unused j V \<longleftrightarrow> (\<forall>w. V (w, j) = None)"

lemma unused_iff: "vault_ok lib ci t \<Longrightarrow> unused j (vault_of lib ci t) \<longleftrightarrow> row_of cr_id t j = None"
proof (cases "row_of cr_id t j")
  case (Some r)
  assume ok: "vault_ok lib ci t"
  have "r \<in> set t" using row_of_SomeD [OF Some] by simp
  from row_okD [OF vault_okD(2) [OF ok this]] obtain s where "vault_entry lib ci r = Some s" .
  then have "vault_of lib ci t (cr_workspace_id r, j) = Some s" using Some by (simp add: vault_of_def)
  then show ?thesis using Some by (auto simp: unused_def)
qed (simp add: unused_def vault_of_def)

lemma vault_call_unused: "unused j V \<Longrightarrow> j \<noteq> ident \<Longrightarrow> unused j (snd (vault_call ws ident call V))"
  by (cases call) (auto simp: unused_def Let_def split: sum.splits option.splits)

text \<open>
  C25. The credential store is a vault. Run any sequence of creations, replacements, key rotations,
  uses and deletions on a consistent store under fresh ids: every call answers exactly as the vault
  specification \<open>vault_call\<close> says, with the same error on every refused branch, a use answers with
  the material last stored for that workspace and id and with nothing of another, a rotation
  changes no secret, and the store stays consistent (ids and names unique, every row opens).
\<close>

theorem credentials_refine_vault:
  assumes "vault_ok lib ci (connector_credentials db)" "crypto_ok lib ci"
    and "distinct (map fst calls)" "\<forall>j \<in> fst ` set calls. row_of cr_id (connector_credentials db) j = None"
  shows "run_vault (\<lambda>w. get_workspace w db) calls (vault_of lib ci (connector_credentials db)) =
      (fst (run_store lib ci calls db), vault_of lib ci (connector_credentials (snd (run_store lib ci calls db)))) \<and>
    vault_ok lib ci (connector_credentials (snd (run_store lib ci calls db)))"
  using assms(1,3,4)
proof (induction calls arbitrary: db)
  case (Cons a calls)
  obtain ident nonce now call where a: "a = (ident, nonce, now, call)" by (cases a)
  obtain r db1 where out: "store_call lib ci ident nonce now call db = (r, db1)" by (cases "store_call lib ci ident nonce now call db")
  have "refines_call lib ci ident call db (r, db1)"
    using store_call_refines [OF Cons.prems(1) assms(2), of ident call nonce now] Cons.prems(3) out by (simp add: a)
  then have ok: "vault_ok lib ci (connector_credentials db1)" and ws: "workspaces db1 = workspaces db"
    and step: "vault_call (\<lambda>w. get_workspace w db) ident call (vault_of lib ci (connector_credentials db)) =
      (r, vault_of lib ci (connector_credentials db1))" by (simp_all add: refines_call_def)
  have fresh: "\<forall>j \<in> fst ` set calls. row_of cr_id (connector_credentials db1) j = None"
  proof
    fix j
    assume "j \<in> fst ` set calls"
    then have "unused j (vault_of lib ci (connector_credentials db))" "j \<noteq> ident"
      using Cons.prems unused_iff [OF Cons.prems(1)] by (auto simp: a)
    from vault_call_unused [OF this, of "\<lambda>w. get_workspace w db" call] show "row_of cr_id (connector_credentials db1) j = None"
      using step unused_iff [OF ok] by simp
  qed
  obtain rs db2 where tail: "run_store lib ci calls db1 = (rs, db2)" by (cases "run_store lib ci calls db1")
  have same: "(\<lambda>w. get_workspace w db1) = (\<lambda>w. get_workspace w db)" by (simp add: get_workspace_def ws)
  have "distinct (map fst calls)" using Cons.prems(2) by simp
  from Cons.IH [OF ok this fresh]
  have "run_vault (\<lambda>w. get_workspace w db) calls (vault_of lib ci (connector_credentials db1)) =
      (rs, vault_of lib ci (connector_credentials db2)) \<and> vault_ok lib ci (connector_credentials db2)"
    unfolding tail same fst_conv snd_conv .
  then show ?case by (simp add: a out step tail)
qed simp

section \<open>Key rollover\<close>

lemma decrypt_more_keys:
  "decrypt lib ci es w i k = Inr m \<Longrightarrow> map_of (ci_keys ci') (es_key_version es) = map_of (ci_keys ci) (es_key_version es) \<Longrightarrow>
   decrypt lib ci' es w i k = Inr m"
  by (simp add: decrypt_def)

lemma vault_more_keys:
  assumes "vault_ok lib ci t" "\<And>r. r \<in> set t \<Longrightarrow> map_of (ci_keys ci') (cr_key_version r) = map_of (ci_keys ci) (cr_key_version r)"
  shows "vault_ok lib ci' t \<and> vault_of lib ci' t = vault_of lib ci t"
proof -
  have opens: "open_row lib ci' r = open_row lib ci r" if "r \<in> set t" for r
  proof -
    from row_okD [OF vault_okD(2) [OF assms(1) that]] obtain m where "open_row lib ci r = Inr m" .
    then have "decrypt lib ci (sealed_secret r) (cr_workspace_id r) (cr_id r) (credential_kind_value (cr_kind r)) = Inr m"
      by (simp add: open_row_def)
    from decrypt_more_keys [OF this, of ci'] this assms(2) [OF that] show ?thesis
      by (simp add: open_row_def sealed_secret_def)
  qed
  have "row_ok lib ci' r" if "r \<in> set t" for r
    using vault_okD(2) [OF assms(1) that] unfolding row_ok_def opens [OF that] .
  then have "vault_ok lib ci' t" using assms(1) unfolding vault_ok_def by blast
  moreover have "vault_of lib ci' t k = vault_of lib ci t k" for k
  proof (cases "row_of cr_id t (snd k)")
    case (Some r)
    have "r \<in> set t" using row_of_SomeD [OF Some] by simp
    from opens [OF this] show ?thesis by (simp add: vault_of_def vault_entry_def Some)
  qed (simp add: vault_of_def)
  ultimately show ?thesis by blast
qed

text \<open>An operator's rollover: every stored credential is rotated once.\<close>

definition rotate_all ::
  "secret_library \<Rightarrow> cipher \<Rightarrow> (credential_row \<Rightarrow> bytes) \<Rightarrow> time \<Rightarrow> credential_row list \<Rightarrow> 'x credential_db_scheme \<Rightarrow>
   'x credential_db_scheme" where
  "rotate_all lib ci nonce now rows db = fold (\<lambda>r d. snd (rotate_encryption lib ci (\<lambda>_. id) (nonce r)
     (cr_workspace_id r) (cr_id r) now d)) rows db"

lemma opened_key: "decrypt lib ci es w i k = Inr m \<Longrightarrow> map_of (ci_keys ci) (es_key_version es) \<noteq> None"
  by (auto simp: decrypt_def split: option.splits)

definition places :: "credential_row tbl \<Rightarrow> (string \<times> string) set" where
  "places t = (\<lambda>r. (cr_workspace_id r, cr_id r)) ` set t"

lemma places_put: "row_of cr_id t (cr_id r) = Some r \<Longrightarrow> keyed cr_id t \<Longrightarrow> same_credential r new \<Longrightarrow> places (put_row new t) = places t"
proof -
  assume row: "row_of cr_id t (cr_id r) = Some r" and k: "keyed cr_id t" and same: "same_credential r new"
  have "x = r" if "x \<in> set t" "cr_id x = cr_id r" for x
    using row_of_member [OF k that(1)] row unfolding that(2) by (metis option.inject)
  with same have eq: "(cr_workspace_id (if cr_id x = cr_id new then new else x), cr_id (if cr_id x = cr_id new then new else x)) =
      (cr_workspace_id x, cr_id x)" if "x \<in> set t" for x
    using that by (auto simp: same_credential_def)
  show ?thesis unfolding places_def put_row_def set_update_where image_image by (rule image_cong [OF refl eq])
qed

lemma rotate_all_effect:
  assumes "vault_ok lib ci (connector_credentials db)" "crypto_ok lib ci"
    and "(\<lambda>r. (cr_workspace_id r, cr_id r)) ` set rows \<subseteq> places (connector_credentials db)"
  shows "vault_ok lib ci (connector_credentials (rotate_all lib ci nonce now rows db)) \<and>
    vault_of lib ci (connector_credentials (rotate_all lib ci nonce now rows db)) = vault_of lib ci (connector_credentials db) \<and>
    places (connector_credentials (rotate_all lib ci nonce now rows db)) = places (connector_credentials db) \<and>
    (\<forall>r \<in> set (connector_credentials (rotate_all lib ci nonce now rows db)).
       cr_key_version r = ci_active_version ci \<or> cr_id r \<notin> cr_id ` set rows \<and> r \<in> set (connector_credentials db))"
  using assms(1,3)
proof (induction rows arbitrary: db)
  case Nil
  then show ?case by (simp add: rotate_all_def)
next
  case (Cons a rows)
  let ?w = "cr_workspace_id a" and ?i = "cr_id a"
  have keyed: "keyed cr_id (connector_credentials db)" by (rule vault_okD(1) [OF Cons.prems(1)])
  from Cons.prems(2) obtain r where r: "r \<in> set (connector_credentials db)" "cr_workspace_id r = ?w" "cr_id r = ?i"
    by (auto simp: places_def)
  have row: "row_of cr_id (connector_credentials db) (cr_id r) = Some r" by (rule row_of_member [OF keyed r(1)])
  then have "get_record ?w ?i db = Inr r" using r(2,3) by (simp add: get_record_eq [OF keyed])
  from rotate_effect [OF Cons.prems(1) assms(2) this, of "nonce a" now]
  obtain md new db' where step: "rotate_encryption lib ci (\<lambda>_. id) (nonce a) ?w ?i now db = (Inr md, db')"
    "vault_ok lib ci (connector_credentials db')"
    "vault_of lib ci (connector_credentials db') = vault_of lib ci (connector_credentials db)"
    "connector_credentials db' = put_row new (connector_credentials db)" "same_credential r new"
    "cr_key_version new = ci_active_version ci" by metis
  have pl: "places (connector_credentials db') = places (connector_credentials db)"
    unfolding step(4) by (rule places_put [OF row keyed step(5)])
  have all: "rotate_all lib ci nonce now (a # rows) db = rotate_all lib ci nonce now rows db'" by (simp add: rotate_all_def step(1))
  have x: "x = new \<or> cr_id x \<noteq> ?i \<and> x \<in> set (connector_credentials db)" if "x \<in> set (connector_credentials db')" for x
    using that step(5) r(3) by (auto simp: step(4) put_row_def set_update_where same_credential_def split: if_splits)
  have sub: "(\<lambda>r. (cr_workspace_id r, cr_id r)) ` set rows \<subseteq> places (connector_credentials db')"
    using Cons.prems(2) by (simp add: pl)
  note IH = Cons.IH [OF step(2) sub]
  have "cr_key_version r = ci_active_version ci \<or> cr_id r \<notin> cr_id ` set (a # rows) \<and> r \<in> set (connector_credentials db)"
    if "r \<in> set (connector_credentials (rotate_all lib ci nonce now rows db'))" for r
  proof -
    from IH that have "cr_key_version r = ci_active_version ci \<or> cr_id r \<notin> cr_id ` set rows \<and> r \<in> set (connector_credentials db')"
      by blast
    then show ?thesis using x [of r] step(6) by auto
  qed
  then show ?case using IH unfolding all pl step(3) by blast
qed

text \<open>
  C26. Key rollover loses nothing. Take a consistent store under a cipher, give the service a cipher
  that still has the old keys and activates a new one, rotate every stored credential once, and
  then drop the old keys: under any cipher that has the new key, the vault is the vault it was, and
  the store is consistent, so every secret still opens.
\<close>

theorem key_rollover_keeps_secrets:
  assumes "vault_ok lib ci (connector_credentials db)" "crypto_ok lib ci'"
    and "map_of (ci_keys ci) \<subseteq>\<^sub>m map_of (ci_keys ci')"
    and "map_of (ci_keys ci'') (ci_active_version ci') = map_of (ci_keys ci') (ci_active_version ci')"
  shows "vault_of lib ci'' (connector_credentials (rotate_all lib ci' nonce now (connector_credentials db) db)) =
      vault_of lib ci (connector_credentials db) \<and>
    vault_ok lib ci'' (connector_credentials (rotate_all lib ci' nonce now (connector_credentials db) db))"
proof -
  let ?t = "connector_credentials db" and ?t' = "connector_credentials (rotate_all lib ci' nonce now (connector_credentials db) db)"
  have "map_of (ci_keys ci') (cr_key_version r) = map_of (ci_keys ci) (cr_key_version r)" if "r \<in> set ?t" for r
  proof -
    from row_okD [OF vault_okD(2) [OF assms(1) that]] obtain m where "open_row lib ci r = Inr m" .
    then have "map_of (ci_keys ci) (cr_key_version r) \<noteq> None"
      using opened_key unfolding open_row_def sealed_secret_def by fastforce
    then show ?thesis using assms(3) unfolding map_le_def by (metis domIff)
  qed
  from vault_more_keys [OF assms(1) this] have more: "vault_ok lib ci' ?t" "vault_of lib ci' ?t = vault_of lib ci ?t" by blast+
  have "(\<lambda>r. (cr_workspace_id r, cr_id r)) ` set ?t \<subseteq> places ?t" by (simp add: places_def)
  note all = rotate_all_effect [OF more(1) assms(2) this, of nonce now]
  have "map_of (ci_keys ci'') (cr_key_version r) = map_of (ci_keys ci') (cr_key_version r)" if "r \<in> set ?t'" for r
  proof -
    have "cr_key_version r = ci_active_version ci'" using all that by blast
    then show ?thesis using assms(4) by simp
  qed
  from vault_more_keys [OF _ this] all more(2) show ?thesis by metis
qed

section \<open>Ciphertexts stay where they were sealed\<close>

lemma kind_value_inj: "credential_kind_value k = credential_kind_value k' \<longleftrightarrow> k = k'"
  by (cases k; cases k') simp_all

text \<open>
  C27. A ciphertext is bound to its row. If the sealed secret of one credential (ciphertext, nonce and
  key version) turns up in the row of another workspace, another credential or another kind, a use or
  a rotation of that row is refused with an authentication error and changes nothing. The ids of
  the workspaces must not contain the separator of the associated data; generated ids do not.
\<close>

theorem ciphertext_bound_to_row:
  assumes "aead_binds lib" "cipher_ok ci"
    and "encrypt lib ci nonce m w i (credential_kind_value k) = Inr (sealed_secret r)"
    and "get_record v j db = Inr r" "(v, j, cr_kind r) \<noteq> (w, i, k)" "CHR ''|'' \<notin> set w" "CHR ''|'' \<notin> set v"
  shows "resolve_for_use lib ci env v j now db = (Inl (RuntimeError ''credential ciphertext failed authentication''), db) \<and>
    rotate_encryption lib ci env nonce' v j now db = (Inl (RuntimeError ''credential ciphertext failed authentication''), db)"
proof -
  have r: "cr_workspace_id r = v" "cr_id r = j"
    using assms(4) find_SomeD [where t = "connector_credentials db"]
    by (auto simp: get_record_def first_where_def split: option.splits)
  have "(v, j, credential_kind_value (cr_kind r)) \<noteq> (w, i, credential_kind_value k)"
    using assms(5) by (simp add: kind_value_inj)
  from decrypt_elsewhere [OF assms(1,3) this assms(2,6,7) kind_plain kind_plain]
  have "open_row lib ci r = Inl (RuntimeError ''credential ciphertext failed authentication'')"
    by (simp add: open_row_def r)
  then show ?thesis by (simp add: resolve_for_use_def rotate_encryption_def assms(4))
qed

section \<open>A rotation that races with a replacement\<close>

lemma update_put: "update_where (\<lambda>r. cr_id r = cr_id new) f (put_row new t) = put_row (f new) t" if "cr_id (f new) = cr_id new"
  using that by (simp add: put_row_def update_where_def)

lemma get_put: "keyed cr_id t \<Longrightarrow> row_of cr_id t (cr_id new) \<noteq> None \<Longrightarrow> connector_credentials db = put_row new t \<Longrightarrow>
    get_record (cr_workspace_id new) (cr_id new) db = Inr new"
  by (auto simp: get_record_eq keyed_put row_of_put)

lemma resolve_result:
  assumes "get_record w i db = Inr r" "keyed cr_id (connector_credentials db)" "open_row lib ci r = Inr m"
  shows "fst (resolve_for_use lib ci (\<lambda>_. id) w i now db) = Inr m"
proof -
  have "row_of cr_id (connector_credentials db) (cr_id r) = Some r"
    using assms(1) row_of_SomeD [of cr_id "connector_credentials db" i r]
    by (auto simp: get_record_eq [OF assms(2)] split: option.splits if_splits)
  then show ?thesis by (simp add: resolve_for_use_def assms(1,3) commit_credential_def)
qed

text \<open>
  A rotation can bring an old secret back. \<open>rotate_encryption\<close> opens the row it has read and
  writes the re-encrypted material without a guard. When a replacement of the secret commits between
  the read and the write, both calls succeed, yet from then on the credential resolves to the old
  material, while its metadata lists the fields of the new one: the replacement of a leaked token is
  silently undone. The last hypothesis says that the fresh nonce gives a fresh ciphertext.
\<close>

theorem rotation_race_reverts_secret:
  fixes db :: "'x credential_db_scheme"
  assumes ok: "vault_ok lib ci (connector_credentials db)" "crypto_ok lib ci" "get_record w i db = Inr r"
    and valid: "validate_secret_material (cr_kind r) secret = Inr m"
    and nonce: "nonce' \<noteq> cr_nonce r" "\<forall>x n. seal_row lib ci nonce' x later r = Inr n \<longrightarrow> cr_ciphertext n \<noteq> cr_ciphertext r"
    and replace: "replace = replace_credential lib ci (\<lambda>_. id) nonce w i secret None now"
  shows "\<exists>old md md' db'. fst (resolve_for_use lib ci (\<lambda>_. id) w i now db) = Inr old \<and> fst (replace db) = Inr md \<and>
    rotate_encryption lib ci (\<lambda>n d. if n = 1 then snd (replace d) else d) nonce' w i later db = (Inr md', db') \<and>
    fst (resolve_for_use lib ci (\<lambda>_. id) w i later db') = Inr old \<and> cm_secret_fields md' = sort (map fst m)"
proof -
  let ?t = "connector_credentials db"
  have k: "keyed cr_id ?t" by (rule vault_okD(1) [OF ok(1)])
  note r = get_record_vault(1) [OF ok(1,3)]
  then obtain old where old: "open_row lib ci r = Inr old" "distinct (map fst old)" "sorted (map fst old)"
    "name_problem (cr_name r) = None"
    using row_okD by blast
  from r have row: "row_of cr_id ?t (cr_id r) = Some r" "cr_workspace_id r = w" "cr_id r = i" by simp_all
  from ok(2) have c: "cipher_ok ci" "aead_correct lib" "json_correct lib" by (simp_all add: crypto_ok_def)
  obtain new0 where new0: "seal_row lib ci nonce m now r = Inr new0" "same_credential r new0"
    "cr_name new0 = cr_name r" "cr_key_version new0 = ci_active_version ci"
    using seal_row_ok [OF c validated_distinct [OF valid], of nonce now r] .
  define new where "new = new0\<lparr>cr_name := cr_name r, cr_secret_fields := sort (map fst m)\<rparr>"
  have dis: "cr_name r = cr_name r \<or> \<not> name_taken (cr_workspace_id r) (cr_name r) (cr_id r) (vault_of lib ci ?t)" by simp
  obtain md1 db1 where saved: "save_credential (\<lambda>_. id) r new db = (Inr md1, db1)" "connector_credentials db1 = put_row new ?t"
    by (rule reseal_refines [OF ok(1,2) row(1) validated_distinct [OF valid] old(4) dis new0(1) new_def])
  have replaced: "replace db = (Inr md1, db1)"
    using saved(1) by (simp add: replace replace_credential_def ok(3) valid old(4) new0(1) new_def)
  obtain new2 where new2: "seal_row lib ci nonce' old later r = Inr new2" "same_credential r new2" "cr_name new2 = cr_name r"
    "cr_secret_fields new2 = cr_secret_fields r" "cr_key_version new2 = ci_active_version ci" "cr_nonce new2 = nonce'"
    "open_row lib ci new2 = Inr (sort_key fst old)"
    using seal_row_ok [OF c old(2), of nonce' later r] .
  define final where "final = flush_credential r new2 new"
  have fresh: "cr_ciphertext new2 \<noteq> cr_ciphertext r" "new2 \<noteq> r" using nonce new2(1,6) by auto
  have ids: "cr_id new = cr_id r" "cr_workspace_id new = w" "cr_kind new = cr_kind r"
    "cr_id new2 = cr_id r" "cr_workspace_id new2 = w" "cr_kind new2 = cr_kind r"
    using new0(2) new2(2) row(2) by (simp_all add: new_def same_credential_def)
  have f: "cr_id final = i" "cr_workspace_id final = w" "cr_secret_fields final = sort (map fst m)"
    "cr_key_version final = ci_active_version ci"
    using ids row(3) new2(4,5) new0(4) by (simp_all add: final_def flush_credential_def flush_def new_def)
  have "sealed_secret final = sealed_secret new2" "cr_kind final = cr_kind new2"
    using fresh(1) nonce(1) new2(5,6) new0(4) ids
    by (simp_all add: sealed_secret_def final_def flush_credential_def flush_def new_def)
  then have "open_row lib ci final = open_row lib ci new2" using f(1,2) ids row(3) by (intro open_row_cong) simp_all
  then have opens: "open_row lib ci final = Inr old" using new2(7) sort_key_id_if_sorted [OF old(3)] by simp
  have upd: "update_where (\<lambda>x. cr_id x = i) (flush_credential r new2) (connector_credentials db1) = put_row final ?t"
    using update_put [of "flush_credential r new2" new ?t] ids(1) row(3) f(1) by (simp add: saved(2) final_def)
  let ?db = "db1\<lparr>connector_credentials := put_row final ?t\<rparr>"
  have present: "row_of cr_id (connector_credentials db1) i = Some new"
    using row(1,3) ids(1) by (simp add: saved(2) row_of_put)
  have "commit_credential r new2 db1 = (Inr (), ?db)"
    using fresh(2) present upd new2(3) row(3) by (simp add: commit_credential_def)
  moreover obtain md' where md': "metadata_of final = Inr md'" using metadata_ok [of final] active_positive [OF ok(2)] f(4) by auto
  moreover have got: "get_record w i ?db = Inr final"
    using get_put [of ?t final ?db] k row(1,3) f(1,2) by simp
  moreover have "row_of cr_id (put_row final ?t) i = Some final" using row(1,3) f(1) by (simp add: row_of_put)
  ultimately have "rotate_encryption lib ci (\<lambda>n d. if n = 1 then snd (replace d) else d) nonce' w i later db = (Inr md', ?db)"
    using old(1) new2(1) row(3) by (simp add: rotate_encryption_def ok(3) save_credential_def replaced refreshed_metadata_def)
  moreover have "cm_secret_fields md' = sort (map fst m)" using md' f(3) by (auto simp: metadata_of_def split: if_splits)
  moreover have "fst (resolve_for_use lib ci (\<lambda>_. id) w i later ?db) = Inr old"
    using resolve_result [OF got _ opens] k by (simp add: keyed_put)
  moreover have "fst (resolve_for_use lib ci (\<lambda>_. id) w i now db) = Inr old" by (rule resolve_result [OF ok(3) k old(1)])
  ultimately show ?thesis using replaced by auto
qed

section \<open>Sample stores\<close>

definition token_of :: "string \<Rightarrow> (string \<times> secret_value) list" where
  "token_of s = [(''token'', SecretText s)]"

definition credential_base :: credential_db where
  "credential_base = policy_db.extend bare_db (credential_db.fields [])"

lemma credential_base_simps [simp]: "connector_credentials credential_base = []"
    "workspaces credential_base = workspaces bare_db"
  by (simp_all add: credential_base_def policy_db.defs credential_db.defs bare_db_def auth_db.defs)

lemma sample_crypto: "crypto_ok toy_library old_cipher" "crypto_ok toy_library both_cipher" "crypto_ok toy_library new_cipher"
  by (simp_all add: crypto_ok_def sample_ciphers toy_library_laws)

lemma empty_vault_ok: "vault_ok lib ci []"
  by (simp add: vault_ok_def keyed_def)

lemma sample_material: "validate_secret_material GithubToken (token_of ''abc'') = Inr [(''token'', ''abc'')]"
    "validate_secret_material GithubToken (token_of ''xyz'') = Inr [(''token'', ''xyz'')]"
proof -
  have "strip ''token'' = ''token''" by code_simp
  then show "validate_secret_material GithubToken (token_of ''abc'') = Inr [(''token'', ''abc'')]"
    "validate_secret_material GithubToken (token_of ''xyz'') = Inr [(''token'', ''xyz'')]"
    by (simp_all add: validate_secret_material_def token_of_def utf8_def code_of_def)
qed

lemma sample_strips: "strip ''ci'' = ''ci''" "strip ''ann'' = ''ann''"
  by code_simp+

lemma base_workspace: "\<exists>x. get_workspace ''w'' credential_base = Inr (Some x)"
proof -
  have "slug_pattern ''acme''" by code_simp
  then show ?thesis
    by (simp add: get_workspace_def row_of_Cons optional_row_def workspace_from_record_def validate_workspace_def length_between_def)
qed

theorem credentials_refine_vault_witness:
  "fst (run_store toy_library old_cipher
     [(''c'', [1], 5, CreateCredential ''w'' '' ci '' GithubToken (token_of ''abc'') ''ann''),
      (''-'', [2], 6, ReplaceCredential ''w'' ''c'' (token_of ''xyz'') None),
      (''--'', [3], 7, RotateEncryption ''w'' ''c''),
      (''---'', [], 8, ResolveForUse ''w'' ''c''),
      (''----'', [], 9, ResolveForUse ''v'' ''c'')] credential_base) =
   [Inr [], Inr [], Inr [], Inr [(''token'', ''xyz'')], Inl (LookupError ''credential not found in workspace'')]"
proof -
  obtain x where x: "get_workspace ''w'' credential_base = Inr (Some x)" using base_workspace by blast
  let ?calls = "[(''c'', [1], 5, CreateCredential ''w'' '' ci '' GithubToken (token_of ''abc'') ''ann''),
      (''-'', [2], 6, ReplaceCredential ''w'' ''c'' (token_of ''xyz'') None),
      (''--'', [3], 7, RotateEncryption ''w'' ''c''),
      (''---'', [], 8, ResolveForUse ''w'' ''c''),
      (''----'', [], 9, ResolveForUse ''v'' ''c'')] :: timed_call list"
  have clean: "strip '' ci '' = ''ci''" by code_simp
  have "vault_of toy_library old_cipher (connector_credentials credential_base) = (\<lambda>_. None)" by (simp add: vault_of_def fun_eq_iff)
  then have "fst (run_vault (\<lambda>w. get_workspace w credential_base) ?calls (vault_of toy_library old_cipher (connector_credentials credential_base))) =
    [Inr [], Inr [], Inr [], Inr [(''token'', ''xyz'')], Inl (LookupError ''credential not found in workspace'')]"
    by (simp add: x clean sample_strips sample_material name_problem_def name_taken_def)
  with credentials_refine_vault [OF _ sample_crypto(1), of credential_base ?calls]
  show ?thesis by (simp add: empty_vault_ok)
qed

definition blank_row :: credential_row where
  "blank_row = \<lparr>cr_id = ''c'', cr_workspace_id = ''w'', cr_name = ''ci'', cr_kind = GithubToken, cr_ciphertext = [],
     cr_nonce = [], cr_key_version = 1, cr_secret_fields = [''token''], cr_created_by = ''ann'', cr_created_at = 5,
     cr_updated_at = 5, cr_last_used_at = None\<rparr>"

definition sample_row :: credential_row where
  "sample_row = projr (seal_row toy_library old_cipher [1] [(''token'', ''abc'')] 5 blank_row)"

definition sample_store :: credential_db where
  "sample_store = credential_base\<lparr>connector_credentials := [sample_row]\<rparr>"

lemma sample_sealed: "seal_row toy_library old_cipher [1] [(''token'', ''abc'')] 5 blank_row = Inr sample_row"
  and sample_fields: "same_credential blank_row sample_row" "cr_name sample_row = ''ci''" "cr_secret_fields sample_row = [''token'']"
    "cr_key_version sample_row = 1" "cr_nonce sample_row = [1]" "open_row toy_library old_cipher sample_row = Inr [(''token'', ''abc'')]"
proof -
  have d: "distinct (map fst [(''token'', ''abc'')])" by simp
  obtain new where new: "seal_row toy_library old_cipher [1] [(''token'', ''abc'')] 5 blank_row = Inr new"
    "same_credential blank_row new" "cr_name new = cr_name blank_row" "cr_secret_fields new = cr_secret_fields blank_row"
    "cr_key_version new = ci_active_version old_cipher" "cr_nonce new = [1]"
    "open_row toy_library old_cipher new = Inr (sort_key fst [(''token'', ''abc'')])"
    by (rule seal_row_ok [OF sample_ciphers(1) toy_library_laws(1,3) d])
  moreover have "sample_row = new" by (simp only: sample_row_def new(1) sum.sel)
  ultimately show "seal_row toy_library old_cipher [1] [(''token'', ''abc'')] 5 blank_row = Inr sample_row"
    "same_credential blank_row sample_row" "cr_name sample_row = ''ci''" "cr_secret_fields sample_row = [''token'']"
    "cr_key_version sample_row = 1" "cr_nonce sample_row = [1]" "open_row toy_library old_cipher sample_row = Inr [(''token'', ''abc'')]"
    by (simp_all add: blank_row_def old_cipher_def)
qed

lemma sample_ids: "cr_id sample_row = ''c''" "cr_workspace_id sample_row = ''w''" "cr_kind sample_row = GithubToken"
  using sample_fields(1) by (simp_all add: same_credential_def blank_row_def)

lemma sample_secret:
  obtains es where "encrypt toy_library old_cipher [1] [(''token'', ''abc'')] ''w'' ''c'' (credential_kind_value GithubToken) = Inr es"
    "sample_row = blank_row\<lparr>cr_ciphertext := es_ciphertext es, cr_nonce := es_nonce es,
       cr_key_version := es_key_version es, cr_updated_at := 5\<rparr>"
  using sample_sealed by (auto simp: seal_row_def bindE_Inr blank_row_def)

lemma sample_store_rows [simp]: "connector_credentials sample_store = [sample_row]"
  by (simp add: sample_store_def)

lemma sample_store_ok: "vault_ok toy_library old_cipher (connector_credentials sample_store)"
  using sample_fields by (simp add: vault_ok_def keyed_def row_ok_def name_problem_def)

lemma sample_record: "get_record ''w'' ''c'' sample_store = Inr sample_row"
  by (simp add: get_record_def first_where_def sample_ids)

theorem key_rollover_keeps_secrets_witness:
  "vault_of toy_library new_cipher (connector_credentials
     (rotate_all toy_library both_cipher (\<lambda>_. [4]) 9 (connector_credentials sample_store) sample_store)) (''w'', ''c'') =
   Some \<lparr>sx_name = ''ci'', sx_kind = GithubToken, sx_material = [(''token'', ''abc'')]\<rparr>"
proof -
  have keys: "map_of (ci_keys old_cipher) \<subseteq>\<^sub>m map_of (ci_keys both_cipher)"
    "map_of (ci_keys new_cipher) (ci_active_version both_cipher) = map_of (ci_keys both_cipher) (ci_active_version both_cipher)"
    by (simp_all add: old_cipher_def both_cipher_def new_cipher_def map_le_def)
  have "vault_of toy_library old_cipher (connector_credentials sample_store) (''w'', ''c'') =
      Some \<lparr>sx_name = ''ci'', sx_kind = GithubToken, sx_material = [(''token'', ''abc'')]\<rparr>"
    by (simp add: vault_of_def row_of_Cons vault_entry_def sample_ids sample_fields)
  with key_rollover_keeps_secrets [OF sample_store_ok sample_crypto(2) keys, of "\<lambda>_. [4]" 9] show ?thesis by metis
qed

theorem ciphertext_bound_to_row_witness:
  "fst (resolve_for_use toy_library old_cipher (\<lambda>_. id) ''v'' ''c'' 9
     (credential_base\<lparr>connector_credentials := [sample_row\<lparr>cr_workspace_id := ''v''\<rparr>]\<rparr>)) =
   Inl (RuntimeError ''credential ciphertext failed authentication'')"
proof -
  let ?r = "sample_row\<lparr>cr_workspace_id := ''v''\<rparr>"
  let ?db = "credential_base\<lparr>connector_credentials := [?r]\<rparr>"
  obtain es where es: "encrypt toy_library old_cipher [1] [(''token'', ''abc'')] ''w'' ''c'' (credential_kind_value GithubToken) = Inr es"
      "sample_row = blank_row\<lparr>cr_ciphertext := es_ciphertext es, cr_nonce := es_nonce es,
         cr_key_version := es_key_version es, cr_updated_at := 5\<rparr>"
    by (rule sample_secret)
  have sealed: "encrypt toy_library old_cipher [1] [(''token'', ''abc'')] ''w'' ''c'' (credential_kind_value GithubToken) =
      Inr (sealed_secret ?r)"
    unfolding es by (cases es) (simp add: sealed_secret_def)
  have stored: "get_record ''v'' ''c'' ?db = Inr ?r" by (simp add: get_record_def first_where_def sample_ids)
  have "(''v'', ''c'', cr_kind ?r) \<noteq> (''w'', ''c'', GithubToken)" "CHR ''|'' \<notin> set ''w''" "CHR ''|'' \<notin> set ''v''" by simp_all
  from ciphertext_bound_to_row [OF toy_library_laws(2) sample_ciphers(1) sealed stored this, where env = "\<lambda>_. id" and now = 9]
  show ?thesis by simp
qed

theorem rotation_race_reverts_secret_witness:
  "\<exists>md' db'. rotate_encryption toy_library old_cipher
       (\<lambda>n d. if n = 1 then snd (replace_credential toy_library old_cipher (\<lambda>_. id) [2] ''w'' ''c'' (token_of ''xyz'') None 6 d) else d)
       [3] ''w'' ''c'' 7 sample_store = (Inr md', db') \<and>
     fst (resolve_for_use toy_library old_cipher (\<lambda>_. id) ''w'' ''c'' 7 db') = Inr [(''token'', ''abc'')]"
proof -
  have valid: "validate_secret_material (cr_kind sample_row) (token_of ''xyz'') = Inr [(''token'', ''xyz'')]"
    by (simp add: sample_ids sample_material)
  have nonce: "[3] \<noteq> cr_nonce sample_row" by (simp add: sample_fields)
  have "\<exists>s. cr_ciphertext sample_row = 1 # s"
  proof -
    obtain es where es: "encrypt toy_library old_cipher [1] [(''token'', ''abc'')] ''w'' ''c'' (credential_kind_value GithubToken) = Inr es"
      "sample_row = blank_row\<lparr>cr_ciphertext := es_ciphertext es, cr_nonce := es_nonce es,
         cr_key_version := es_key_version es, cr_updated_at := 5\<rparr>" by (rule sample_secret)
    show ?thesis unfolding es(2) using es(1) by (auto simp: encrypt_Inr toy_library_def)
  qed
  then have cipher: "\<forall>x n. seal_row toy_library old_cipher [3] x 7 sample_row = Inr n \<longrightarrow> cr_ciphertext n \<noteq> cr_ciphertext sample_row"
    by (auto simp: seal_row_def bindE_Inr encrypt_Inr toy_library_def)
  from rotation_race_reverts_secret [OF sample_store_ok sample_crypto(1) sample_record valid nonce cipher refl, of 6 "[2]"]
  obtain old md' db' where "fst (resolve_for_use toy_library old_cipher (\<lambda>_. id) ''w'' ''c'' 6 sample_store) = Inr old"
    "rotate_encryption toy_library old_cipher
       (\<lambda>n d. if n = 1 then snd (replace_credential toy_library old_cipher (\<lambda>_. id) [2] ''w'' ''c'' (token_of ''xyz'') None 6 d) else d)
       [3] ''w'' ''c'' 7 sample_store = (Inr md', db')"
    "fst (resolve_for_use toy_library old_cipher (\<lambda>_. id) ''w'' ''c'' 7 db') = Inr old" by metis
  moreover have "fst (resolve_for_use toy_library old_cipher (\<lambda>_. id) ''w'' ''c'' 6 sample_store) = Inr [(''token'', ''abc'')]"
    by (rule resolve_result [OF sample_record _ sample_fields(6)]) (simp add: keyed_def)
  ultimately show ?thesis by auto
qed

end
