(* ===== verification/Repositories.thy ===== *)
theory Repositories
  imports Credentials
begin

text \<open>
  Repository assets and the provenance of their scans (\<^verbatim>\<open>domain/repositories.py\<close>,
  \<^verbatim>\<open>storage/repositories.py\<close>), and the audit log (\<^verbatim>\<open>domain/audit.py\<close>, \<^verbatim>\<open>storage/audit.py\<close>). An asset
  and its configuration are created in one transaction; the provenance of a scan job is recorded
  once. \<open>env\<close> is what other processes commit between the reads and the commit. The retention of
  these records is \<open>Retention\<close>.
\<close>

section \<open>State\<close>

datatype repository_provider = PvGithub | PvGitlab | PvGeneric

fun repository_provider_value :: "repository_provider \<Rightarrow> string" where
  "repository_provider_value PvGithub = ''github''"
| "repository_provider_value PvGitlab = ''gitlab''"
| "repository_provider_value PvGeneric = ''generic''"

datatype repository_scan_mode = FullScan | IncrementalScan

fun repository_scan_mode_value :: "repository_scan_mode \<Rightarrow> string" where
  "repository_scan_mode_value FullScan = ''full''"
| "repository_scan_mode_value IncrementalScan = ''incremental''"

record repository_configuration =
  rc_asset_id :: string
  rc_workspace_id :: string
  rc_repository_url :: string
  rc_provider :: repository_provider
  rc_ref :: string
  rc_credential_id :: "string option"
  rc_created_at :: time
  rc_updated_at :: time

record repository_asset =
  rx_asset :: managed_asset
  rx_repository :: repository_configuration

record scan_provenance =
  sp_scan_job_id :: string
  sp_workspace_id :: string
  sp_asset_id :: string
  sp_repository_url :: string
  sp_ref :: string
  sp_commit_sha :: string
  sp_previous_commit_sha :: "string option"
  sp_scan_mode :: repository_scan_mode
  sp_changed_paths :: int
  sp_scanned_files :: int
  sp_retained_observations :: int
  sp_collected_at :: time

datatype audit_outcome = AuditSuccess | AuditDenied | AuditFailure

datatype audit_value = AText string | AInt int | ABool bool | ANone

record audit_event =
  av_id :: string
  av_workspace_id :: "string option"
  av_request_id :: string
  av_actor_kind :: string
  av_actor_id :: "string option"
  av_user_id :: "string option"
  av_action :: string
  av_resource_type :: string
  av_resource_id :: "string option"
  av_outcome :: audit_outcome
  av_metadata :: "(string \<times> audit_value) list"
  av_created_at :: time

record repository_db = credential_db +
  repository_configurations :: "repository_configuration tbl"
  repository_scan_runs :: "scan_provenance tbl"
  audit_events :: "audit_event tbl"

section \<open>Repository assets\<close>

definition create_repository_asset ::
  "('x repository_db_scheme \<Rightarrow> 'x repository_db_scheme) \<Rightarrow> string \<Rightarrow> string \<Rightarrow> string \<Rightarrow> string \<Rightarrow> repository_provider \<Rightarrow>
   string \<Rightarrow> string option \<Rightarrow> scan_context \<Rightarrow> (string \<times> string) list \<Rightarrow> time \<Rightarrow> 'x repository_db_scheme \<Rightarrow>
   (repository_asset, 'x repository_db_scheme) outcome" where
  "create_repository_asset env ident w name url provider ref credential_id context tags now db =
     (let duplicate = Inl (ValueError ''repository asset already exists in workspace'');
          config = \<lparr>rc_asset_id = ident, rc_workspace_id = w, rc_repository_url = url, rc_provider = provider,
                    rc_ref = ref, rc_credential_id = credential_id, rc_created_at = now, rc_updated_at = now\<rparr>
      in case validate_asset \<lparr>ma_id = ident, ma_workspace_id = w, ma_name = name, ma_kind = KRepository,
                ma_locator = url, ma_context = context, ma_tags = tags, ma_enabled = True,
                ma_created_at = now, ma_updated_at = now\<rparr> of
           Inl e \<Rightarrow> (Inl e, db)
         | Inr asset \<Rightarrow>
             if row_of ws_id (workspaces db) w = None then (Inl (LookupError ''workspace not found''), db)
             else if first_where (\<lambda>r. ma_workspace_id r = w \<and> ma_kind r = KRepository \<and> ma_locator r = url)
                       (managed_assets db) \<noteq> None
             then (duplicate, db)
             else let db' = env db
                  in case (insert_row asset_conflict (asset_record asset) (managed_assets db'),
                           insert_row (\<lambda>x y. rc_asset_id x = rc_asset_id y) config (repository_configurations db')) of
                       (Some assets, Some configs) \<Rightarrow>
                         (Inr \<lparr>rx_asset = asset, rx_repository = config\<rparr>,
                          db'\<lparr>managed_assets := assets, repository_configurations := configs\<rparr>)
                     | _ \<Rightarrow> (duplicate, db'))"

definition get_configuration :: "string \<Rightarrow> string \<Rightarrow> 'x repository_db_scheme \<Rightarrow> repository_configuration result" where
  "get_configuration w a db =
     (case first_where (\<lambda>r. rc_workspace_id r = w \<and> rc_asset_id r = a) (repository_configurations db) of
        None \<Rightarrow> Inl (LookupError ''repository configuration not found in workspace'')
      | Some r \<Rightarrow> Inr r)"

definition get_repository_asset :: "string \<Rightarrow> string \<Rightarrow> 'x repository_db_scheme \<Rightarrow> repository_asset result" where
  "get_repository_asset w a db =
     bindE (get_asset w a db) (\<lambda>asset.
       case asset of
         None \<Rightarrow> Inl (LookupError ''repository asset not found in workspace'')
       | Some x \<Rightarrow>
           if ma_kind x \<noteq> KRepository then Inl (LookupError ''repository asset not found in workspace'')
           else bindE (get_configuration w a db) (\<lambda>config. Inr \<lparr>rx_asset = x, rx_repository = config\<rparr>))"

definition list_repository_assets :: "string \<Rightarrow> 'x repository_db_scheme \<Rightarrow> repository_asset list result" where
  "list_repository_assets w db =
     bindE (list_assets w db) (\<lambda>listed.
       let assets = filter (\<lambda>a. ma_kind a = KRepository) listed;
           rows = sort_key rc_repository_url (filter (\<lambda>r. rc_workspace_id r = w) (repository_configurations db))
       in Inr (concat (map (\<lambda>r. case row_of ma_id assets (rc_asset_id r) of
                                  None \<Rightarrow> []
                                | Some a \<Rightarrow> [\<lparr>rx_asset = a, rx_repository = r\<rparr>]) rows)))"

section \<open>Scan provenance\<close>

text \<open>The constructor of the domain class; rows are read back through it.\<close>

definition validate_provenance :: "scan_provenance \<Rightarrow> scan_provenance result" where
  "validate_provenance p =
     (if \<not> length_between 40 64 (sp_commit_sha p) then Inl (ValidationError ''commit_sha'')
      else if (case sp_previous_commit_sha p of None \<Rightarrow> False | Some s \<Rightarrow> \<not> length_between 40 64 s)
      then Inl (ValidationError ''previous_commit_sha'')
      else if sp_changed_paths p < 0 \<or> sp_scanned_files p < 0 \<or> sp_retained_observations p < 0
      then Inl (ValidationError ''counts'')
      else Inr p)"

definition same_provenance :: "scan_provenance \<Rightarrow> scan_provenance \<Rightarrow> scan_provenance result" where
  "same_provenance p row =
     bindE (validate_provenance row) (\<lambda>stored.
       if stored \<noteq> p then Inl (RuntimeError ''repository scan provenance changed for existing scan job'')
       else Inr stored)"

definition record_scan_provenance ::
  "('x repository_db_scheme \<Rightarrow> 'x repository_db_scheme) \<Rightarrow> scan_provenance \<Rightarrow> 'x repository_db_scheme \<Rightarrow>
   (scan_provenance, 'x repository_db_scheme) outcome" where
  "record_scan_provenance env p db =
     (case row_of sp_scan_job_id (repository_scan_runs db) (sp_scan_job_id p) of
        Some row \<Rightarrow> (same_provenance p row, db)
      | None \<Rightarrow>
          let db' = env db
          in case insert_row (\<lambda>x y. sp_scan_job_id x = sp_scan_job_id y) p (repository_scan_runs db') of
               Some t \<Rightarrow> (Inr p, db'\<lparr>repository_scan_runs := t\<rparr>)
             | None \<Rightarrow>
                 (case row_of sp_scan_job_id (repository_scan_runs db') (sp_scan_job_id p) of
                    None \<Rightarrow> (Inl IntegrityError, db')
                  | Some row \<Rightarrow> (same_provenance p row, db')))"

text \<open>The newest succeeded scan: \<open>finished_at\<close> descending, then the id of the job. Succeeded jobs
  have a \<open>finished_at\<close>; a missing one would come first, as in PostgreSQL.\<close>

definition last_successful_scan ::
  "string \<Rightarrow> string \<Rightarrow> 'x repository_db_scheme \<Rightarrow> scan_provenance option result" where
  "last_successful_scan w a db =
     (let finished = (\<lambda>r. case row_of sj_id (scan_jobs db) (sp_scan_job_id r) of
                            Some j \<Rightarrow> if sj_status j = Succeeded then Some j else None
                          | None \<Rightarrow> None);
          rows = filter (\<lambda>r. sp_workspace_id r = w \<and> sp_asset_id r = a \<and> finished r \<noteq> None) (repository_scan_runs db);
          order = (\<lambda>r. (case sj_finished_at (the (finished r)) of None \<Rightarrow> (False, 0) | Some t \<Rightarrow> (True, - t), sp_scan_job_id r))
      in optional_row validate_provenance (first_where (\<lambda>_. True) (sort_key order rows)))"

definition list_scan_provenance ::
  "string \<Rightarrow> string \<Rightarrow> nat \<Rightarrow> 'x repository_db_scheme \<Rightarrow> scan_provenance list result" where
  "list_scan_provenance w a limit db =
     map_rows validate_provenance (take limit (sort_key (\<lambda>r. - sp_collected_at r)
       (filter (\<lambda>r. sp_workspace_id r = w \<and> sp_asset_id r = a) (repository_scan_runs db))))"

section \<open>The audit log\<close>

definition text_between :: "nat \<Rightarrow> nat \<Rightarrow> string option \<Rightarrow> bool" where
  "text_between lo hi s = (case s of None \<Rightarrow> True | Some t \<Rightarrow> length_between lo hi t)"

definition validate_audit_event :: "audit_event \<Rightarrow> audit_event result" where
  "validate_audit_event e =
     (if \<not> length_between 1 64 (av_request_id e) then Inl (ValidationError ''request_id'')
      else if \<not> length_between 1 40 (av_actor_kind e) then Inl (ValidationError ''actor_kind'')
      else if \<not> text_between 0 200 (av_actor_id e) then Inl (ValidationError ''actor_id'')
      else if \<not> text_between 0 64 (av_user_id e) then Inl (ValidationError ''user_id'')
      else if \<not> length_between 1 200 (av_action e) then Inl (ValidationError ''action'')
      else if \<not> length_between 1 100 (av_resource_type e) then Inl (ValidationError ''resource_type'')
      else if \<not> text_between 0 1000 (av_resource_id e) then Inl (ValidationError ''resource_id'')
      else Inr e)"

text \<open>The metadata are stored as JSON with sorted keys.\<close>

definition append_audit ::
  "audit_event \<Rightarrow> 'x repository_db_scheme \<Rightarrow> (audit_event, 'x repository_db_scheme) outcome" where
  "append_audit e db =
     (case insert_row (\<lambda>x y. av_id x = av_id y) (e\<lparr>av_metadata := sort_key fst (av_metadata e)\<rparr>) (audit_events db) of
        None \<Rightarrow> (Inl IntegrityError, db)
      | Some t \<Rightarrow> (Inr e, db\<lparr>audit_events := t\<rparr>))"

definition list_audit :: "string \<Rightarrow> nat \<Rightarrow> 'x repository_db_scheme \<Rightarrow> audit_event list result" where
  "list_audit w limit db =
     map_rows validate_audit_event (take limit (sort_key (\<lambda>e. - av_created_at e)
       (filter (\<lambda>e. av_workspace_id e = Some w) (audit_events db))))"

end
