(* ===== verification/Retention.thy ===== *)
theory Retention
  imports Repositories
begin

text \<open>
  The life of a workspace's history: \<^verbatim>\<open>domain/retention.py\<close> and \<^verbatim>\<open>storage/retention.py\<close>. A policy says how
  long evidence and audit events are kept; a sweep deletes older rows except those of protected scan
  jobs; a purge deletes a workspace with everything that belongs to it. Deletes go table by table as
  in the code, counting the deleted rows. \<open>env\<close> and \<open>mid\<close> are what other processes commit
  between two reads or between a read and a write; \<open>locked\<close> says whose policy row another sweep
  holds. The properties are in \<open>RetentionSafety\<close>.
\<close>

section \<open>State\<close>

record retention_policy =
  rt_workspace_id :: string
  rt_enabled :: bool
  rt_evidence_days :: int
  rt_audit_days :: int
  rt_sweep_hours :: int
  rt_last_run_at :: "time option"
  rt_updated_by :: "string option"
  rt_updated_at :: "time option"

record retention_db = repository_db +
  retention_policies :: "retention_policy tbl"

type_synonym row_counts = "(string \<times> nat) list"

record retention_sweep_result =
  sw_workspace_id :: string
  sw_evidence_cutoff :: time
  sw_audit_cutoff :: time
  sw_deleted_rows :: row_counts
  sw_protected_evidence_jobs :: nat
  sw_ran_at :: time

record workspace_purge_result =
  pg_workspace_id :: string
  pg_workspace_slug :: string
  pg_deleted_rows :: row_counts

definition hours :: "int \<Rightarrow> time" where
  "hours n = seconds (n * 3600)"

definition validate_retention :: "retention_policy \<Rightarrow> retention_policy result" where
  "validate_retention p =
     (if \<not> (7 \<le> rt_evidence_days p \<and> rt_evidence_days p \<le> 3650) then Inl (ValidationError ''evidence_retention_days'')
      else if \<not> (7 \<le> rt_audit_days p \<and> rt_audit_days p \<le> 3650) then Inl (ValidationError ''audit_retention_days'')
      else if \<not> (1 \<le> rt_sweep_hours p \<and> rt_sweep_hours p \<le> 168) then Inl (ValidationError ''sweep_interval_hours'')
      else Inr p)"

section \<open>Policies\<close>

definition default_retention :: "string \<Rightarrow> retention_policy" where
  "default_retention w = \<lparr>rt_workspace_id = w, rt_enabled = False, rt_evidence_days = 180, rt_audit_days = 365,
     rt_sweep_hours = 24, rt_last_run_at = None, rt_updated_by = None, rt_updated_at = None\<rparr>"

definition get_retention :: "string \<Rightarrow> 'x retention_db_scheme \<Rightarrow> retention_policy result" where
  "get_retention w db =
     bindE (get_workspace w db) (\<lambda>workspace.
       if workspace = None then Inl (LookupError ''workspace not found'')
       else case row_of rt_workspace_id (retention_policies db) w of
              Some r \<Rightarrow> validate_retention r
            | None \<Rightarrow> Inr (default_retention w))"

text \<open>The commit writes the columns whose value is not the one that was read.\<close>

definition flush_retention :: "retention_policy \<Rightarrow> retention_policy \<Rightarrow> retention_policy \<Rightarrow> retention_policy" where
  "flush_retention old new r =
     r\<lparr>rt_enabled := flush (rt_enabled old) (rt_enabled new) (rt_enabled r),
       rt_evidence_days := flush (rt_evidence_days old) (rt_evidence_days new) (rt_evidence_days r),
       rt_audit_days := flush (rt_audit_days old) (rt_audit_days new) (rt_audit_days r),
       rt_sweep_hours := flush (rt_sweep_hours old) (rt_sweep_hours new) (rt_sweep_hours r),
       rt_updated_by := flush (rt_updated_by old) (rt_updated_by new) (rt_updated_by r),
       rt_updated_at := flush (rt_updated_at old) (rt_updated_at new) (rt_updated_at r)\<rparr>"

definition save_retention ::
  "retention_policy option \<Rightarrow> retention_policy \<Rightarrow> retention_policy tbl \<Rightarrow> retention_policy tbl result" where
  "save_retention loaded new t =
     (case loaded of
        None \<Rightarrow> (case insert_row (\<lambda>x y. rt_workspace_id x = rt_workspace_id y) new t of
                   None \<Rightarrow> Inl IntegrityError
                 | Some t' \<Rightarrow> Inr t')
      | Some old \<Rightarrow>
          if new = old then Inr t
          else if row_of rt_workspace_id t (rt_workspace_id old) = None then Inl StaleDataError
          else Inr (update_where (\<lambda>r. rt_workspace_id r = rt_workspace_id old) (flush_retention old new) t))"

definition set_retention ::
  "(nat \<Rightarrow> 'x retention_db_scheme \<Rightarrow> 'x retention_db_scheme) \<Rightarrow> string \<Rightarrow> bool \<Rightarrow> int \<Rightarrow> int \<Rightarrow> int \<Rightarrow> string \<Rightarrow> time \<Rightarrow>
   'x retention_db_scheme \<Rightarrow> (retention_policy, 'x retention_db_scheme) outcome" where
  "set_retention env w enabled evidence_days audit_days sweep_hours updated_by now db =
     (let wanted = \<lparr>rt_workspace_id = w, rt_enabled = enabled, rt_evidence_days = evidence_days,
                    rt_audit_days = audit_days, rt_sweep_hours = sweep_hours, rt_last_run_at = None,
                    rt_updated_by = Some (take 200 (strip updated_by)), rt_updated_at = Some now\<rparr>
      in case bindE (get_workspace w db) (\<lambda>workspace.
                if workspace = None then Inl (LookupError ''workspace not found'')
                else if strip updated_by = [] then Inl (ValueError ''updated_by is required'')
                else validate_retention wanted) of
           Inl e \<Rightarrow> (Inl e, db)
         | Inr validated \<Rightarrow>
             let db1 = env 0 db;
                 loaded = row_of rt_workspace_id (retention_policies db1) w;
                 new = (case loaded of None \<Rightarrow> validated
                        | Some old \<Rightarrow> validated\<lparr>rt_last_run_at := rt_last_run_at old\<rparr>);
                 db2 = env 1 db1
             in case save_retention loaded new (retention_policies db2) of
                  Inl e \<Rightarrow> (Inl e, db2)
                | Inr t \<Rightarrow>
                    let db3 = env 2 (db2\<lparr>retention_policies := t\<rparr>)
                    in ((case row_of rt_workspace_id (retention_policies db3) w of
                           None \<Rightarrow> Inl InvalidRequestError
                         | Some r \<Rightarrow> validate_retention r), db3))"

definition is_due :: "retention_policy \<Rightarrow> time \<Rightarrow> bool" where
  "is_due r current = (rt_enabled r \<and>
     (case rt_last_run_at r of None \<Rightarrow> True | Some t \<Rightarrow> t + hours (rt_sweep_hours r) \<le> current))"

section \<open>Counted deletes\<close>

text \<open>\<open>deleted[name] = deleted.get(name, 0) + n\<close>\<close>

fun add_count :: "string \<Rightarrow> nat \<Rightarrow> row_counts \<Rightarrow> row_counts" where
  "add_count name n [] = [(name, n)]"
| "add_count name n ((k, m) # c) = (if k = name then (k, m + n) # c else (k, m) # add_count name n c)"

text \<open>\<open>remove(model, *criteria)\<close>: the table is given by its selector and its update.\<close>

definition remove ::
  "string \<Rightarrow> ('d \<Rightarrow> 'r tbl) \<Rightarrow> (('r tbl \<Rightarrow> 'r tbl) \<Rightarrow> 'd \<Rightarrow> 'd) \<Rightarrow> ('r \<Rightarrow> bool) \<Rightarrow> row_counts \<times> 'd \<Rightarrow> row_counts \<times> 'd" where
  "remove name get upd P s =
     (case s of (c, db) \<Rightarrow> (add_count name (count_where P (get db)) c, upd (delete_where P) db))"

section \<open>Sweeps\<close>

definition nonterminal_remediation :: "remediation_status list" where
  "nonterminal_remediation = [Open, Planned, InProgress, Blocked, ReadyForVerification]"

definition terminal_scan_statuses :: "scan_status list" where
  "terminal_scan_statuses = [Succeeded, Failed, Canceled]"

text \<open>Rows that carry the latest instant of their asset within the workspace; the join compares the
  asset and the instant only.\<close>

definition latest_of :: "('r \<Rightarrow> string) \<Rightarrow> ('r \<Rightarrow> string) \<Rightarrow> ('r \<Rightarrow> time) \<Rightarrow> string \<Rightarrow> 'r tbl \<Rightarrow> 'r list" where
  "latest_of ws asset instant w t = filter (\<lambda>r.
     let times = map instant (filter (\<lambda>x. ws x = w \<and> asset x = asset r) t)
     in instant r \<in> set times \<and> list_all (\<lambda>u. u \<le> instant r) times) t"

definition protected_jobs :: "string \<Rightarrow> 'x retention_db_scheme \<Rightarrow> string list" where
  "protected_jobs w db =
     (let items = filter (\<lambda>i. mi_workspace_id i = w \<and> mi_status i \<in> set nonterminal_remediation) (migration_items db)
      in remdups
        (map os_last_job_id (filter (\<lambda>s. os_workspace_id s = w \<and> os_active s) (observation_states db)) @
         map ss_job_id (latest_of ss_workspace_id ss_asset_id ss_completed_at w (scan_snapshots db)) @
         map sp_scan_job_id (latest_of sp_workspace_id sp_asset_id sp_collected_at w (repository_scan_runs db)) @
         concat (map (\<lambda>i. mi_source_scan_job_id i #
           (case mi_verification_job_id i of None \<Rightarrow> [] | Some j \<Rightarrow> if j = [] then [] else [j])) items)))"

definition prune_evidence ::
  "string \<Rightarrow> time \<Rightarrow> string list \<Rightarrow> row_counts \<times> 'x retention_db_scheme \<Rightarrow> row_counts \<times> 'x retention_db_scheme" where
  "prune_evidence w cutoff protected s =
     (let s = remove ''observation_occurrences'' occurrences occurrences_update
                (\<lambda>o'. oc_workspace_id o' = w \<and> oc_observed_at o' < cutoff \<and> oc_job_id o' \<notin> set protected) s;
          s = remove ''drift_events'' drift_events drift_events_update
                (\<lambda>e. de_workspace_id e = w \<and> de_occurred_at e < cutoff \<and> de_scan_job_id e \<notin> set protected) s;
          s = remove ''scan_snapshots'' scan_snapshots scan_snapshots_update
                (\<lambda>x. ss_workspace_id x = w \<and> ss_completed_at x < cutoff \<and> ss_job_id x \<notin> set protected) s;
          s = remove ''scheduled_executions'' scheduled_executions scheduled_executions_update
                (\<lambda>e. se_workspace_id e = w \<and> se_scheduled_for e < cutoff \<and> se_job_id e \<notin> set protected) s
      in remove ''repository_scan_runs'' repository_scan_runs repository_scan_runs_update
                (\<lambda>r. sp_workspace_id r = w \<and> sp_collected_at r < cutoff \<and> sp_scan_job_id r \<notin> set protected) s)"

definition stale_findings :: "string \<Rightarrow> time \<Rightarrow> 'x retention_db_scheme \<Rightarrow> string list" where
  "stale_findings w cutoff db =
     concat (map (\<lambda>f. map (\<lambda>_. fr_id f)
         (filter (\<lambda>s. fs_finding_id s = fr_id f \<and> fs_workspace_id s = w) (finding_scopes db)))
       (filter (\<lambda>f. fr_discovered_at f < cutoff \<and>
            \<not> list_ex (\<lambda>o'. oc_finding_id o' = fr_id f) (occurrences db) \<and>
            \<not> list_ex (\<lambda>i. mi_source_finding_id i = fr_id f) (migration_items db)) (findings db)))"

definition prune_findings ::
  "string \<Rightarrow> time \<Rightarrow> row_counts \<times> 'x retention_db_scheme \<Rightarrow> row_counts \<times> 'x retention_db_scheme" where
  "prune_findings w cutoff s =
     (let ids = stale_findings w cutoff (snd s)
      in if ids = [] then s
         else remove ''findings'' findings findings_update (\<lambda>f. fr_id f \<in> set ids)
               (remove ''finding_scopes'' finding_scopes finding_scopes_update (\<lambda>x. fs_finding_id x \<in> set ids) s))"

definition old_jobs :: "string \<Rightarrow> time \<Rightarrow> string list \<Rightarrow> 'x retention_db_scheme \<Rightarrow> string list" where
  "old_jobs w cutoff protected db =
     map sj_id (filter (\<lambda>j. sj_workspace_id j = w \<and> sj_status j \<in> set terminal_scan_statuses \<and>
         (case sj_finished_at j of None \<Rightarrow> False | Some t \<Rightarrow> t < cutoff) \<and> sj_id j \<notin> set protected \<and>
         \<not> list_ex (\<lambda>s. fs_scan_job_id s = sj_id j) (finding_scopes db) \<and>
         \<not> list_ex (\<lambda>i. mi_source_scan_job_id i = sj_id j) (migration_items db) \<and>
         \<not> list_ex (\<lambda>i. mi_verification_job_id i = Some (sj_id j)) (migration_items db)) (scan_jobs db))"

definition prune_jobs ::
  "string \<Rightarrow> time \<Rightarrow> string list \<Rightarrow> row_counts \<times> 'x retention_db_scheme \<Rightarrow> row_counts \<times> 'x retention_db_scheme" where
  "prune_jobs w cutoff protected s =
     (let ids = old_jobs w cutoff protected (snd s)
      in if ids = [] then s
         else remove ''scan_jobs'' scan_jobs scan_jobs_update (\<lambda>j. sj_id j \<in> set ids)
               (remove ''scan_queue'' scan_queue scan_queue_update (\<lambda>q. q_job_id q \<in> set ids) s))"

definition prune_rows ::
  "string \<Rightarrow> time \<Rightarrow> time \<Rightarrow> string list \<Rightarrow> 'x retention_db_scheme \<Rightarrow> row_counts \<times> 'x retention_db_scheme" where
  "prune_rows w evidence_cutoff audit_cutoff protected db =
     remove ''audit_events'' audit_events audit_events_update
       (\<lambda>e. av_workspace_id e = Some w \<and> av_created_at e < audit_cutoff)
       (prune_jobs w evidence_cutoff protected
         (prune_findings w evidence_cutoff
           (prune_evidence w evidence_cutoff protected ([], db))))"

definition prune_workspace_history ::
  "('x retention_db_scheme \<Rightarrow> 'x retention_db_scheme) \<Rightarrow> (string \<Rightarrow> bool) \<Rightarrow> string \<Rightarrow> time \<Rightarrow> bool \<Rightarrow>
   'x retention_db_scheme \<Rightarrow> (retention_sweep_result option, 'x retention_db_scheme) outcome" where
  "prune_workspace_history mid locked w now only_if_due db =
     (case (if only_if_due \<and> locked w then None else row_of rt_workspace_id (retention_policies db) w) of
        None \<Rightarrow>
          (if only_if_due then Inr None
           else bindE (get_workspace w db) (\<lambda>workspace.
             if workspace = None then Inl (LookupError ''workspace not found'')
             else Inl (ValueError ''workspace retention policy has not been configured'')), db)
      | Some policy \<Rightarrow>
          if \<not> rt_enabled policy then (Inl (ValueError ''workspace retention policy is disabled''), db)
          else if only_if_due \<and> \<not> is_due policy now then (Inr None, db)
          else
            let evidence_cutoff = now - days (rt_evidence_days policy);
                audit_cutoff = now - days (rt_audit_days policy);
                protected = protected_jobs w db;
                (deleted, db1) = prune_rows w evidence_cutoff audit_cutoff protected (mid db)
            in (Inr (Some \<lparr>sw_workspace_id = w, sw_evidence_cutoff = evidence_cutoff, sw_audit_cutoff = audit_cutoff,
                           sw_deleted_rows = deleted, sw_protected_evidence_jobs = length protected, sw_ran_at = now\<rparr>),
                db1\<lparr>retention_policies := update_where (\<lambda>r. rt_workspace_id r = w)
                      (\<lambda>r. r\<lparr>rt_last_run_at := Some now\<rparr>) (retention_policies db1)\<rparr>))"

text \<open>\<open>env n\<close> is what other processes commit before the \<open>n\<close>-th workspace of a sweep.\<close>

fun sweep_workspaces ::
  "(nat \<Rightarrow> 'x retention_db_scheme \<Rightarrow> 'x retention_db_scheme) \<Rightarrow> (string \<Rightarrow> bool) \<Rightarrow> nat \<Rightarrow> time \<Rightarrow> string list \<Rightarrow>
   'x retention_db_scheme \<Rightarrow> (retention_sweep_result list, 'x retention_db_scheme) outcome" where
  "sweep_workspaces env locked n now [] db = (Inr [], db)"
| "sweep_workspaces env locked n now (w # ws) db =
     (case prune_workspace_history id locked w now True (env n db) of
        (Inl e, db1) \<Rightarrow> (Inl e, db1)
      | (Inr r, db1) \<Rightarrow>
          (case sweep_workspaces env locked (Suc n) now ws db1 of
             (Inl e, db2) \<Rightarrow> (Inl e, db2)
           | (Inr rs, db2) \<Rightarrow> (Inr (case r of None \<Rightarrow> rs | Some x \<Rightarrow> x # rs), db2)))"

definition sweep_order :: "retention_policy \<Rightarrow> bool \<times> time \<times> string" where
  "sweep_order r = (case rt_last_run_at r of None \<Rightarrow> (False, 0, rt_workspace_id r) | Some t \<Rightarrow> (True, t, rt_workspace_id r))"

definition run_due_retention ::
  "(nat \<Rightarrow> 'x retention_db_scheme \<Rightarrow> 'x retention_db_scheme) \<Rightarrow> (string \<Rightarrow> bool) \<Rightarrow> time \<Rightarrow> int \<Rightarrow>
   'x retention_db_scheme \<Rightarrow> (retention_sweep_result list, 'x retention_db_scheme) outcome" where
  "run_due_retention env locked now limit db =
     (if \<not> (1 \<le> limit \<and> limit \<le> 1000) then (Inl (ValueError ''limit must be between 1 and 1000''), db)
      else sweep_workspaces env locked 0 now
             (take (nat limit) (map rt_workspace_id (sort_key sweep_order (filter rt_enabled (retention_policies db))))) db)"

section \<open>Purging a workspace\<close>

text \<open>The findings go in chunks of 500 ids, each only if no scope is left.\<close>

function purge_findings ::
  "string list \<Rightarrow> row_counts \<times> 'x retention_db_scheme \<Rightarrow> row_counts \<times> 'x retention_db_scheme" where
  "purge_findings ids s =
     (if ids = [] then s
      else purge_findings (drop 500 ids)
             (remove ''findings'' findings findings_update
                (\<lambda>f. fr_id f \<in> set (take 500 ids) \<and>
                   \<not> list_ex (\<lambda>x. fs_finding_id x = fr_id f) (finding_scopes (snd s))) s))"
  by pat_completeness auto
termination
  by (relation "measure (\<lambda>(ids, s). length ids)") auto

declare purge_findings.simps [simp del]

definition rate_scope_keys :: "string \<Rightarrow> 'x retention_db_scheme \<Rightarrow> string list" where
  "rate_scope_keys w db =
     (''workspace:'' @ w) # map (\<lambda>k. ''principal:api-key:'' @ ak_id k) (filter (\<lambda>k. ak_workspace_id k = w) (api_keys db))"

definition purge_history ::
  "string \<Rightarrow> row_counts \<times> 'x retention_db_scheme \<Rightarrow> row_counts \<times> 'x retention_db_scheme" where
  "purge_history w s =
     (let job_ids = map sj_id (filter (\<lambda>j. sj_workspace_id j = w) (scan_jobs (snd s)));
          s = remove ''migration_items'' migration_items migration_items_update (\<lambda>i. mi_workspace_id i = w) s;
          s = remove ''workspace_policy_assignments'' policy_assignments policy_assignments_update
                (\<lambda>a. pa_workspace_id a = w) s;
          s = remove ''workspace_retention_policies'' retention_policies retention_policies_update
                (\<lambda>p. rt_workspace_id p = w) s;
          s = remove ''repository_scan_runs'' repository_scan_runs repository_scan_runs_update
                (\<lambda>r. sp_workspace_id r = w) s;
          s = remove ''drift_events'' drift_events drift_events_update (\<lambda>e. de_workspace_id e = w) s;
          s = remove ''observation_occurrences'' occurrences occurrences_update (\<lambda>o'. oc_workspace_id o' = w) s;
          s = remove ''scan_snapshots'' scan_snapshots scan_snapshots_update (\<lambda>x. ss_workspace_id x = w) s;
          s = remove ''scheduled_executions'' scheduled_executions scheduled_executions_update
                (\<lambda>e. se_workspace_id e = w) s;
          s = remove ''scan_queue'' scan_queue scan_queue_update (\<lambda>q. q_job_id q \<in> set job_ids) s;
          s = remove ''scan_schedules'' scan_schedules scan_schedules_update (\<lambda>x. sd_workspace_id x = w) s
      in remove ''observation_states'' observation_states observation_states_update (\<lambda>x. os_workspace_id x = w) s)"

definition purge_settings ::
  "string \<Rightarrow> row_counts \<times> 'x retention_db_scheme \<Rightarrow> row_counts \<times> 'x retention_db_scheme" where
  "purge_settings w s =
     (let s = remove ''repository_configurations'' repository_configurations repository_configurations_update
                (\<lambda>r. rc_workspace_id r = w) s;
          s = remove ''connector_credentials'' connector_credentials connector_credentials_update
                (\<lambda>r. cr_workspace_id r = w) s;
          s = remove ''crypto_policy_versions'' policy_versions policy_versions_update (\<lambda>v. pv_workspace_id v = w) s;
          s = remove ''crypto_policy_packs'' policy_packs policy_packs_update (\<lambda>p. pp_workspace_id p = w) s
      in remove ''finding_scopes'' finding_scopes finding_scopes_update (\<lambda>x. fs_workspace_id x = w) s)"

definition purge_access ::
  "string \<Rightarrow> string list \<Rightarrow> row_counts \<times> 'x retention_db_scheme \<Rightarrow> row_counts \<times> 'x retention_db_scheme" where
  "purge_access w scope_keys s =
     (let s = remove ''api_keys'' api_keys api_keys_update (\<lambda>k. ak_workspace_id k = w) s;
          s = remove ''workspace_runtime'' runtimes runtimes_update (\<lambda>r. wr_workspace_id r = w) s;
          s = remove ''workspace_memberships'' memberships memberships_update (\<lambda>m. mb_workspace_id m = w) s;
          s = remove ''rate_limit_buckets'' rate_buckets rate_buckets_update (\<lambda>b. rb_scope_key b \<in> set scope_keys) s;
          s = remove ''audit_events'' audit_events audit_events_update (\<lambda>e. av_workspace_id e = Some w) s;
          s = remove ''scan_jobs'' scan_jobs scan_jobs_update (\<lambda>j. sj_workspace_id j = w) s;
          s = remove ''managed_assets'' managed_assets managed_assets_update (\<lambda>a. ma_workspace_id a = w) s
      in remove ''workspaces'' workspaces workspaces_update (\<lambda>x. ws_id x = w) s)"

text \<open>\<open>mid\<close> is what other processes commit between the count of running scans and the locking of the
  queue.\<close>

definition purge_workspace ::
  "('x retention_db_scheme \<Rightarrow> 'x retention_db_scheme) \<Rightarrow> string \<Rightarrow> 'x retention_db_scheme \<Rightarrow>
   (workspace_purge_result, 'x retention_db_scheme) outcome" where
  "purge_workspace mid w db =
     (if w = [] then (Inl (ValueError ''workspace_id is required''), db)
      else case row_of ws_id (workspaces db) w of
        None \<Rightarrow> (Inl (LookupError ''workspace not found''), db)
      | Some workspace \<Rightarrow>
          if count_where (\<lambda>j. sj_workspace_id j = w \<and> sj_status j = Running) (scan_jobs db) \<noteq> 0
          then (Inl (RuntimeError ''workspace has running scans; wait for them to finish or cancel them first''), db)
          else let db1 = mid db;
                   finding_ids = map fs_finding_id (filter (\<lambda>x. fs_workspace_id x = w) (finding_scopes db1));
                   scope_keys = rate_scope_keys w db1;
                   (deleted, db2) = purge_access w scope_keys (purge_findings finding_ids
                                      (purge_settings w (purge_history w ([], db1))))
               in (Inr \<lparr>pg_workspace_id = w, pg_workspace_slug = ws_slug workspace, pg_deleted_rows = deleted\<rparr>, db2))"

end
