(* ===== verification/RetentionSafety.thy ===== *)
theory RetentionSafety
  imports Retention CredentialVault
begin

text \<open>
  What retention promises. A sweep or a purge of one workspace is invisible to every other workspace
  (\<open>scan_view\<close>, \<open>evidence_view\<close> and \<open>governance_view\<close> are all a workspace can see of the database).
  A purge leaves no row of its workspace. A sweep takes away only old rows of unprotected jobs, so the
  work in progress does not notice it: unfinished remediation verifies as before and the next scan
  reports the same drift. Two weaknesses are shown as theorems: the limit of a sweep can starve a
  workspace that is due, and a purge can race with the start of a scan.
\<close>

section \<open>What a workspace sees\<close>

definition scan_view where
  "scan_view v (db :: 'x retention_db_scheme) =
     (filter (\<lambda>x. ws_id x = v) (workspaces db), filter (\<lambda>a. ma_workspace_id a = v) (managed_assets db),
      filter (\<lambda>j. sj_workspace_id j = v) (scan_jobs db),
      filter (\<lambda>q. list_ex (\<lambda>j. sj_id j = q_job_id q \<and> sj_workspace_id j = v) (scan_jobs db)) (scan_queue db),
      filter (\<lambda>r. wr_workspace_id r = v) (runtimes db),
      filter (\<lambda>b. rb_scope_key b \<in> set (rate_scope_keys v db)) (rate_buckets db),
      filter (\<lambda>s. sd_workspace_id s = v) (scan_schedules db),
      filter (\<lambda>e. se_workspace_id e = v) (scheduled_executions db))"

definition evidence_view where
  "evidence_view v (db :: 'x retention_db_scheme) =
     (filter (\<lambda>f. list_ex (\<lambda>s. fs_finding_id s = fr_id f \<and> fs_workspace_id s = v) (finding_scopes db)) (findings db),
      filter (\<lambda>s. fs_workspace_id s = v) (finding_scopes db),
      filter (\<lambda>s. ss_workspace_id s = v) (scan_snapshots db),
      filter (\<lambda>s. os_workspace_id s = v) (observation_states db),
      filter (\<lambda>o'. oc_workspace_id o' = v) (occurrences db),
      filter (\<lambda>e. de_workspace_id e = v) (drift_events db),
      filter (\<lambda>r. sp_workspace_id r = v) (repository_scan_runs db))"

definition governance_view where
  "governance_view v (db :: 'x retention_db_scheme) =
     (filter (\<lambda>i. mi_workspace_id i = v) (migration_items db), filter (\<lambda>m. mb_workspace_id m = v) (memberships db),
      filter (\<lambda>k. ak_workspace_id k = v) (api_keys db), filter (\<lambda>p. pp_workspace_id p = v) (policy_packs db),
      filter (\<lambda>x. pv_workspace_id x = v) (policy_versions db), filter (\<lambda>a. pa_workspace_id a = v) (policy_assignments db),
      filter (\<lambda>r. cr_workspace_id r = v) (connector_credentials db),
      filter (\<lambda>r. rc_workspace_id r = v) (repository_configurations db),
      filter (\<lambda>p. rt_workspace_id p = v) (retention_policies db),
      filter (\<lambda>e. av_workspace_id e = Some v) (audit_events db))"

definition sees_the_same :: "string \<Rightarrow> 'x retention_db_scheme \<Rightarrow> 'x retention_db_scheme \<Rightarrow> bool" where
  "sees_the_same v db db' \<longleftrightarrow> scan_view v db' = scan_view v db \<and> evidence_view v db' = evidence_view v db \<and>
     governance_view v db' = governance_view v db \<and> users db' = users db \<and> sessions db' = sessions db"

text \<open>The keys of the tables whose rows belong to a workspace through another row.\<close>

definition history_ok :: "'x retention_db_scheme \<Rightarrow> bool" where
  "history_ok db \<longleftrightarrow> keyed sj_id (scan_jobs db) \<and> keyed fs_finding_id (finding_scopes db) \<and> keyed ak_id (api_keys db)"

section \<open>The tables after the deletes\<close>

lemma snd_remove [simp]: "snd (remove name get upd P s) = upd (delete_where P) (snd s)"
  by (simp add: remove_def split: prod.split)

lemma filter_delete: "(\<And>x. x \<in> set t \<Longrightarrow> Q x \<Longrightarrow> \<not> P x) \<Longrightarrow> filter Q (delete_where P t) = filter Q t"
  by (auto simp: delete_where_def intro: filter_cong)

lemma filter_delete_all: "(\<And>x. x \<in> set t \<Longrightarrow> Q x \<Longrightarrow> P x) \<Longrightarrow> filter Q (delete_where P t) = []"
  by (auto simp: filter_empty_conv)

lemma delete_none: "(\<And>x. x \<in> set t \<Longrightarrow> \<not> P x) \<Longrightarrow> delete_where P t = t"
  by (simp add: delete_where_def filter_id_conv)

lemma first_where_delete: "(\<And>x. x \<in> set t \<Longrightarrow> Q x \<Longrightarrow> \<not> P x) \<Longrightarrow> first_where Q (delete_where P t) = first_where Q t"
  by (induction t) (auto simp: first_where_def delete_where_def)

definition evidence_of :: "string \<Rightarrow> time \<Rightarrow> string list \<Rightarrow> 'x retention_db_scheme \<Rightarrow> 'x retention_db_scheme" where
  "evidence_of w cutoff protected db = snd (prune_evidence w cutoff protected ([], db))"

definition stale_of :: "string \<Rightarrow> time \<Rightarrow> string list \<Rightarrow> 'x retention_db_scheme \<Rightarrow> string list" where
  "stale_of w cutoff protected db = stale_findings w cutoff (evidence_of w cutoff protected db)"

definition old_of :: "string \<Rightarrow> time \<Rightarrow> string list \<Rightarrow> 'x retention_db_scheme \<Rightarrow> string list" where
  "old_of w cutoff protected db =
     old_jobs w cutoff protected (snd (prune_findings w cutoff (prune_evidence w cutoff protected ([], db))))"

lemma evidence_tables:
  "occurrences (evidence_of w c P db) =
     delete_where (\<lambda>x. oc_workspace_id x = w \<and> oc_observed_at x < c \<and> oc_job_id x \<notin> set P) (occurrences db)"
  "drift_events (evidence_of w c P db) =
     delete_where (\<lambda>x. de_workspace_id x = w \<and> de_occurred_at x < c \<and> de_scan_job_id x \<notin> set P) (drift_events db)"
  "scan_snapshots (evidence_of w c P db) =
     delete_where (\<lambda>x. ss_workspace_id x = w \<and> ss_completed_at x < c \<and> ss_job_id x \<notin> set P) (scan_snapshots db)"
  "scheduled_executions (evidence_of w c P db) =
     delete_where (\<lambda>x. se_workspace_id x = w \<and> se_scheduled_for x < c \<and> se_job_id x \<notin> set P) (scheduled_executions db)"
  "repository_scan_runs (evidence_of w c P db) =
     delete_where (\<lambda>x. sp_workspace_id x = w \<and> sp_collected_at x < c \<and> sp_scan_job_id x \<notin> set P) (repository_scan_runs db)"
  "findings (evidence_of w c P db) = findings db" "finding_scopes (evidence_of w c P db) = finding_scopes db"
  "migration_items (evidence_of w c P db) = migration_items db" "scan_jobs (evidence_of w c P db) = scan_jobs db"
  by (simp_all add: evidence_of_def prune_evidence_def Let_def)

lemma pruned_findings:
  "snd (prune_findings w c s) = (snd s)
     \<lparr>finding_scopes := delete_where (\<lambda>x. fs_finding_id x \<in> set (stale_findings w c (snd s))) (finding_scopes (snd s)),
      findings := delete_where (\<lambda>f. fr_id f \<in> set (stale_findings w c (snd s))) (findings (snd s))\<rparr>"
  by (simp add: prune_findings_def Let_def delete_none)

lemma pruned_jobs:
  "snd (prune_jobs w c P s) = (snd s)
     \<lparr>scan_queue := delete_where (\<lambda>q. q_job_id q \<in> set (old_jobs w c P (snd s))) (scan_queue (snd s)),
      scan_jobs := delete_where (\<lambda>j. sj_id j \<in> set (old_jobs w c P (snd s))) (scan_jobs (snd s))\<rparr>"
  by (simp add: prune_jobs_def Let_def delete_none)

lemma pruned_tables:
  fixes db :: "'x retention_db_scheme"
  assumes d: "d = snd (prune_rows w c a P db)"
  shows "occurrences d = occurrences (evidence_of w c P db)" "drift_events d = drift_events (evidence_of w c P db)"
    "scan_snapshots d = scan_snapshots (evidence_of w c P db)"
    "scheduled_executions d = scheduled_executions (evidence_of w c P db)"
    "repository_scan_runs d = repository_scan_runs (evidence_of w c P db)"
    "finding_scopes d = delete_where (\<lambda>x. fs_finding_id x \<in> set (stale_of w c P db)) (finding_scopes db)"
    "findings d = delete_where (\<lambda>f. fr_id f \<in> set (stale_of w c P db)) (findings db)"
    "scan_queue d = delete_where (\<lambda>q. q_job_id q \<in> set (old_of w c P db)) (scan_queue db)"
    "scan_jobs d = delete_where (\<lambda>j. sj_id j \<in> set (old_of w c P db)) (scan_jobs db)"
    "audit_events d = delete_where (\<lambda>e. av_workspace_id e = Some w \<and> av_created_at e < a) (audit_events db)"
  by (simp_all add: d prune_rows_def pruned_jobs pruned_findings evidence_of_def [symmetric] stale_of_def old_of_def evidence_tables)
    (simp_all add: evidence_of_def prune_evidence_def Let_def)

lemma pruned_rest:
  fixes db :: "'x retention_db_scheme"
  assumes d: "d = snd (prune_rows w c a P db)"
  shows "workspaces d = workspaces db" "managed_assets d = managed_assets db" "runtimes d = runtimes db"
    "rate_buckets d = rate_buckets db" "scan_schedules d = scan_schedules db" "observation_states d = observation_states db"
    "migration_items d = migration_items db" "memberships d = memberships db" "api_keys d = api_keys db"
    "policy_packs d = policy_packs db" "policy_versions d = policy_versions db" "policy_assignments d = policy_assignments db"
    "connector_credentials d = connector_credentials db" "repository_configurations d = repository_configurations db"
    "retention_policies d = retention_policies db" "users d = users db" "sessions d = sessions db"
  by (simp_all add: d prune_rows_def pruned_jobs pruned_findings prune_evidence_def Let_def)

section \<open>Sweeps and other workspaces\<close>

lemma stale_ofD:
  assumes "f \<in> set (stale_of w c P db)"
  shows "\<exists>s \<in> set (finding_scopes db). fs_finding_id s = f \<and> fs_workspace_id s = w"
    "i \<in> set (migration_items db) \<Longrightarrow> mi_source_finding_id i \<noteq> f"
    "x \<in> set (occurrences (evidence_of w c P db)) \<Longrightarrow> oc_finding_id x \<noteq> f"
  using assms by (auto simp: stale_of_def stale_findings_def evidence_tables list_ex_iff)

lemma old_ofD:
  assumes "j \<in> set (old_of w c P db)"
  shows "\<exists>r \<in> set (scan_jobs db). sj_id r = j \<and> sj_workspace_id r = w \<and> sj_status r \<in> set terminal_scan_statuses \<and>
      (\<exists>t. sj_finished_at r = Some t \<and> t < c)"
    "j \<notin> set P" "i \<in> set (migration_items db) \<Longrightarrow> mi_source_scan_job_id i \<noteq> j \<and> mi_verification_job_id i \<noteq> Some j"
    "s \<in> set (finding_scopes (snd (prune_rows w c a P db))) \<Longrightarrow> fs_scan_job_id s \<noteq> j"
  using assms unfolding old_of_def old_jobs_def
  by (auto simp: pruned_findings evidence_of_def [symmetric] evidence_tables pruned_tables(6) [OF refl] stale_of_def list_ex_iff
      split: option.splits)

lemma keyed_unique: "keyed key t \<Longrightarrow> x \<in> set t \<Longrightarrow> y \<in> set t \<Longrightarrow> key x = key y \<Longrightarrow> x = y"
  by (metis option.inject row_of_member)

lemma stale_elsewhere:
  assumes "keyed fs_finding_id (finding_scopes db)" "f \<in> set (stale_of w c P db)"
    and "s \<in> set (finding_scopes db)" "fs_finding_id s = f"
  shows "fs_workspace_id s = w"
  using stale_ofD(1) [OF assms(2)] keyed_unique [OF assms(1,3)] assms(4) by blast

lemma old_elsewhere:
  assumes "keyed sj_id (scan_jobs db)" "j \<in> set (old_of w c P db)" "r \<in> set (scan_jobs db)" "sj_id r = j"
  shows "sj_workspace_id r = w"
  using old_ofD(1) [OF assms(2)] keyed_unique [OF assms(1,3)] assms(4) by blast

lemma list_ex_delete:
  "(\<And>x. x \<in> set t \<Longrightarrow> Q x \<Longrightarrow> \<not> P x) \<Longrightarrow> list_ex Q (delete_where P t) = list_ex Q t"
  by (auto simp: list_ex_iff)

lemma prune_scan_view:
  assumes "history_ok db" "v \<noteq> w"
  shows "scan_view v (snd (prune_rows w c a P db)) = scan_view v db"
proof -
  let ?d = "snd (prune_rows w c a P db)"
  from assms(1) have k: "keyed sj_id (scan_jobs db)" by (simp add: history_ok_def)
  have job: "\<not> sj_id j \<in> set (old_of w c P db)" if "j \<in> set (scan_jobs db)" "sj_workspace_id j = v" for j
    using old_elsewhere [OF k _ that(1) refl] that(2) assms(2) by blast
  have jobs: "filter (\<lambda>j. sj_workspace_id j = v) (scan_jobs ?d) = filter (\<lambda>j. sj_workspace_id j = v) (scan_jobs db)"
    unfolding pruned_tables(9) [OF refl] by (rule filter_delete) (rule job)
  have ex: "list_ex (\<lambda>j. sj_id j = i \<and> sj_workspace_id j = v) (scan_jobs ?d) =
      list_ex (\<lambda>j. sj_id j = i \<and> sj_workspace_id j = v) (scan_jobs db)" for i
    unfolding pruned_tables(9) [OF refl] by (rule list_ex_delete) (use job in blast)
  have queue: "filter (\<lambda>q. list_ex (\<lambda>j. sj_id j = q_job_id q \<and> sj_workspace_id j = v) (scan_jobs db)) (scan_queue ?d) =
      filter (\<lambda>q. list_ex (\<lambda>j. sj_id j = q_job_id q \<and> sj_workspace_id j = v) (scan_jobs db)) (scan_queue db)"
    unfolding pruned_tables(8) [OF refl] by (rule filter_delete) (unfold list_ex_iff, metis job)
  have runs: "filter (\<lambda>e. se_workspace_id e = v) (scheduled_executions ?d) = filter (\<lambda>e. se_workspace_id e = v) (scheduled_executions db)"
    unfolding pruned_tables(4) [OF refl] evidence_tables by (rule filter_delete) (use assms(2) in blast)
  have keys: "rate_scope_keys v ?d = rate_scope_keys v db" by (simp add: rate_scope_keys_def pruned_rest [OF refl])
  show ?thesis
    by (simp add: scan_view_def jobs queue runs ex keys pruned_rest [OF refl])
qed

lemma prune_evidence_view:
  assumes "history_ok db" "v \<noteq> w"
  shows "evidence_view v (snd (prune_rows w c a P db)) = evidence_view v db"
proof -
  let ?d = "snd (prune_rows w c a P db)"
  from assms(1) have k: "keyed fs_finding_id (finding_scopes db)" by (simp add: history_ok_def)
  have scope: "\<not> fs_finding_id s \<in> set (stale_of w c P db)" if "s \<in> set (finding_scopes db)" "fs_workspace_id s = v" for s
    using stale_elsewhere [OF k _ that(1) refl] that(2) assms(2) by blast
  have scopes: "filter (\<lambda>s. fs_workspace_id s = v) (finding_scopes ?d) = filter (\<lambda>s. fs_workspace_id s = v) (finding_scopes db)"
    unfolding pruned_tables(6) [OF refl] by (rule filter_delete) (rule scope)
  have ex: "list_ex (\<lambda>s. fs_finding_id s = i \<and> fs_workspace_id s = v) (finding_scopes ?d) =
      list_ex (\<lambda>s. fs_finding_id s = i \<and> fs_workspace_id s = v) (finding_scopes db)" for i
    unfolding pruned_tables(6) [OF refl] by (rule list_ex_delete) (use scope in blast)
  have found: "filter (\<lambda>f. list_ex (\<lambda>s. fs_finding_id s = fr_id f \<and> fs_workspace_id s = v) (finding_scopes db)) (findings ?d) =
      filter (\<lambda>f. list_ex (\<lambda>s. fs_finding_id s = fr_id f \<and> fs_workspace_id s = v) (finding_scopes db)) (findings db)"
    unfolding pruned_tables(7) [OF refl] by (rule filter_delete) (unfold list_ex_iff, metis scope)
  have "filter (\<lambda>s. ss_workspace_id s = v) (scan_snapshots ?d) = filter (\<lambda>s. ss_workspace_id s = v) (scan_snapshots db)"
    unfolding pruned_tables(3) [OF refl] evidence_tables by (rule filter_delete) (use assms(2) in blast)
  moreover have "filter (\<lambda>x. oc_workspace_id x = v) (occurrences ?d) = filter (\<lambda>x. oc_workspace_id x = v) (occurrences db)"
    unfolding pruned_tables(1) [OF refl] evidence_tables by (rule filter_delete) (use assms(2) in blast)
  moreover have "filter (\<lambda>e. de_workspace_id e = v) (drift_events ?d) = filter (\<lambda>e. de_workspace_id e = v) (drift_events db)"
    unfolding pruned_tables(2) [OF refl] evidence_tables by (rule filter_delete) (use assms(2) in blast)
  moreover have "filter (\<lambda>r. sp_workspace_id r = v) (repository_scan_runs ?d) = filter (\<lambda>r. sp_workspace_id r = v) (repository_scan_runs db)"
    unfolding pruned_tables(5) [OF refl] evidence_tables by (rule filter_delete) (use assms(2) in blast)
  ultimately show ?thesis by (simp add: evidence_view_def scopes found ex pruned_rest [OF refl])
qed

lemma prune_governance_view:
  assumes "v \<noteq> w"
  shows "governance_view v (snd (prune_rows w c a P db)) = governance_view v db"
proof -
  have "filter (\<lambda>e. av_workspace_id e = Some v) (audit_events (snd (prune_rows w c a P db))) =
      filter (\<lambda>e. av_workspace_id e = Some v) (audit_events db)"
    unfolding pruned_tables(10) [OF refl] by (rule filter_delete) (use assms in simp)
  then show ?thesis by (simp add: governance_view_def pruned_rest [OF refl])
qed

lemma filter_update_where:
  "(\<And>x. P x \<Longrightarrow> \<not> Q x \<and> \<not> Q (f x)) \<Longrightarrow> filter Q (update_where P f t) = filter Q t"
  by (induction t) (auto simp: update_where_def)

section \<open>Purges\<close>

lemma delete_delete: "delete_where Q (delete_where P t) = delete_where (\<lambda>x. P x \<or> Q x) t"
  by (simp add: delete_where_def)

lemma purged_findings:
  "snd (purge_findings ids s) = (snd s)\<lparr>findings := delete_where (\<lambda>f. fr_id f \<in> set ids \<and>
     \<not> list_ex (\<lambda>x. fs_finding_id x = fr_id f) (finding_scopes (snd s))) (findings (snd s))\<rparr>"
proof (induction ids s rule: purge_findings.induct)
  case (1 ids s)
  show ?case
  proof (cases "ids = []")
    case True
    then show ?thesis by (subst purge_findings.simps) (simp add: delete_none)
  next
    case False
    have split: "set ids = set (take 500 ids) \<union> set (drop 500 ids)" by (metis append_take_drop_id set_append)
    show ?thesis
      using 1 [OF False] False unfolding split by (simp add: purge_findings.simps [of ids] delete_delete conj_disj_distribR)
  qed
qed

definition purged :: "string \<Rightarrow> 'x retention_db_scheme \<Rightarrow> 'x retention_db_scheme" where
  "purged w db = snd (purge_access w (rate_scope_keys w db)
     (purge_findings (map fs_finding_id (filter (\<lambda>x. fs_workspace_id x = w) (finding_scopes db)))
       (purge_settings w (purge_history w ([], db)))))"

lemma purge_result:
  "purge_workspace mid w db = (r, db') \<Longrightarrow> (\<exists>e. r = Inl e \<and> db' = db \<and> (w = [] \<or> row_of ws_id (workspaces db) w = None \<or>
     count_where (\<lambda>j. sj_workspace_id j = w \<and> sj_status j = Running) (scan_jobs db) \<noteq> 0)) \<or> (\<exists>x. r = Inr x \<and> db' = purged w (mid db) \<and>
     w \<noteq> [] \<and> row_of ws_id (workspaces db) w \<noteq> None \<and>
     count_where (\<lambda>j. sj_workspace_id j = w \<and> sj_status j = Running) (scan_jobs db) = 0)"
  by (auto simp: purge_workspace_def purged_def Let_def split: if_splits option.splits prod.splits)

lemma purge_ok:
  "purge_workspace id w db = (Inr x, db') \<Longrightarrow> db' = purged w db \<and> w \<noteq> [] \<and>
     count_where (\<lambda>j. sj_workspace_id j = w \<and> sj_status j = Running) (scan_jobs db) = 0"
  by (auto simp: purge_workspace_def purged_def Let_def split: if_splits option.splits prod.splits)

lemma purge_refused:
  "purge_workspace mid w db = (Inl e, db') \<Longrightarrow> db' = db \<and> (w = [] \<or> row_of ws_id (workspaces db) w = None \<or>
     count_where (\<lambda>j. sj_workspace_id j = w \<and> sj_status j = Running) (scan_jobs db) \<noteq> 0)"
  by (auto simp: purge_workspace_def Let_def split: if_splits option.splits prod.splits)

lemmas purge_steps = purged_def purge_access_def purge_settings_def purge_history_def purged_findings Let_def snd_remove

lemma purged_scan_tables:
  "workspaces (purged w db) = delete_where (\<lambda>x. ws_id x = w) (workspaces db)"
  "managed_assets (purged w db) = delete_where (\<lambda>x. ma_workspace_id x = w) (managed_assets db)"
  "scan_jobs (purged w db) = delete_where (\<lambda>x. sj_workspace_id x = w) (scan_jobs db)"
  "scan_queue (purged w db) = delete_where (\<lambda>q. q_job_id q \<in> sj_id ` {j \<in> set (scan_jobs db). sj_workspace_id j = w}) (scan_queue db)"
  "runtimes (purged w db) = delete_where (\<lambda>x. wr_workspace_id x = w) (runtimes db)"
  "rate_buckets (purged w db) = delete_where (\<lambda>b. rb_scope_key b \<in> set (rate_scope_keys w db)) (rate_buckets db)"
  "scan_schedules (purged w db) = delete_where (\<lambda>x. sd_workspace_id x = w) (scan_schedules db)"
  "scheduled_executions (purged w db) = delete_where (\<lambda>x. se_workspace_id x = w) (scheduled_executions db)"
  by (simp_all add: purge_steps)

lemma purged_evidence_tables:
  "finding_scopes (purged w db) = delete_where (\<lambda>x. fs_workspace_id x = w) (finding_scopes db)"
  "findings (purged w db) = delete_where (\<lambda>f. fr_id f \<in> fs_finding_id ` {x \<in> set (finding_scopes db). fs_workspace_id x = w} \<and>
     \<not> list_ex (\<lambda>x. fs_finding_id x = fr_id f) (delete_where (\<lambda>x. fs_workspace_id x = w) (finding_scopes db))) (findings db)"
  "scan_snapshots (purged w db) = delete_where (\<lambda>x. ss_workspace_id x = w) (scan_snapshots db)"
  "observation_states (purged w db) = delete_where (\<lambda>x. os_workspace_id x = w) (observation_states db)"
  "occurrences (purged w db) = delete_where (\<lambda>x. oc_workspace_id x = w) (occurrences db)"
  "drift_events (purged w db) = delete_where (\<lambda>x. de_workspace_id x = w) (drift_events db)"
  "repository_scan_runs (purged w db) = delete_where (\<lambda>x. sp_workspace_id x = w) (repository_scan_runs db)"
  by (simp_all add: purge_steps)

lemma purged_governance_tables:
  "migration_items (purged w db) = delete_where (\<lambda>x. mi_workspace_id x = w) (migration_items db)"
  "memberships (purged w db) = delete_where (\<lambda>x. mb_workspace_id x = w) (memberships db)"
  "api_keys (purged w db) = delete_where (\<lambda>x. ak_workspace_id x = w) (api_keys db)"
  "policy_packs (purged w db) = delete_where (\<lambda>x. pp_workspace_id x = w) (policy_packs db)"
  "policy_versions (purged w db) = delete_where (\<lambda>x. pv_workspace_id x = w) (policy_versions db)"
  "policy_assignments (purged w db) = delete_where (\<lambda>x. pa_workspace_id x = w) (policy_assignments db)"
  "connector_credentials (purged w db) = delete_where (\<lambda>x. cr_workspace_id x = w) (connector_credentials db)"
  "repository_configurations (purged w db) = delete_where (\<lambda>x. rc_workspace_id x = w) (repository_configurations db)"
  "retention_policies (purged w db) = delete_where (\<lambda>x. rt_workspace_id x = w) (retention_policies db)"
  "audit_events (purged w db) = delete_where (\<lambda>x. av_workspace_id x = Some w) (audit_events db)"
  "users (purged w db) = users db" "sessions (purged w db) = sessions db"
  by (simp_all add: purge_steps)

lemma purge_scan_view:
  assumes "history_ok db" "v \<noteq> w"
  shows "scan_view v (purged w db) = scan_view v db"
proof -
  from assms(1) have k: "keyed sj_id (scan_jobs db)" "keyed ak_id (api_keys db)" by (simp_all add: history_ok_def)
  have ex: "list_ex (\<lambda>j. sj_id j = i \<and> sj_workspace_id j = v) (scan_jobs (purged w db)) =
      list_ex (\<lambda>j. sj_id j = i \<and> sj_workspace_id j = v) (scan_jobs db)" for i
    unfolding purged_scan_tables by (rule list_ex_delete) (use assms(2) in blast)
  have apart: "\<not> (\<exists>j \<in> set (scan_jobs db). sj_id j = i \<and> sj_workspace_id j = v) \<or>
      \<not> i \<in> sj_id ` {j \<in> set (scan_jobs db). sj_workspace_id j = w}" for i
    using keyed_unique [OF k(1)] assms(2) by blast
  have "filter (\<lambda>q. list_ex (\<lambda>j. sj_id j = q_job_id q \<and> sj_workspace_id j = v) (scan_jobs db)) (scan_queue (purged w db)) =
      filter (\<lambda>q. list_ex (\<lambda>j. sj_id j = q_job_id q \<and> sj_workspace_id j = v) (scan_jobs db)) (scan_queue db)"
    unfolding purged_scan_tables by (rule filter_delete) (use apart in \<open>unfold list_ex_iff, blast\<close>)
  moreover have keys: "rate_scope_keys v (purged w db) = rate_scope_keys v db"
    using assms(2) by (simp add: rate_scope_keys_def purged_governance_tables filter_delete)
  moreover have "filter (\<lambda>b. rb_scope_key b \<in> set (rate_scope_keys v db)) (rate_buckets (purged w db)) =
      filter (\<lambda>b. rb_scope_key b \<in> set (rate_scope_keys v db)) (rate_buckets db)"
  proof -
    have "\<not> (s \<in> set (rate_scope_keys v db) \<and> s \<in> set (rate_scope_keys w db))" for s
      using keyed_unique [OF k(2)] assms(2) by (auto simp: rate_scope_keys_def)
    then show ?thesis unfolding purged_scan_tables by (intro filter_delete) blast
  qed
  moreover have "filter (\<lambda>x. ws_id x = v) (workspaces (purged w db)) = filter (\<lambda>x. ws_id x = v) (workspaces db)"
    "filter (\<lambda>x. ma_workspace_id x = v) (managed_assets (purged w db)) = filter (\<lambda>x. ma_workspace_id x = v) (managed_assets db)"
    "filter (\<lambda>x. sj_workspace_id x = v) (scan_jobs (purged w db)) = filter (\<lambda>x. sj_workspace_id x = v) (scan_jobs db)"
    "filter (\<lambda>x. wr_workspace_id x = v) (runtimes (purged w db)) = filter (\<lambda>x. wr_workspace_id x = v) (runtimes db)"
    "filter (\<lambda>x. sd_workspace_id x = v) (scan_schedules (purged w db)) = filter (\<lambda>x. sd_workspace_id x = v) (scan_schedules db)"
    "filter (\<lambda>x. se_workspace_id x = v) (scheduled_executions (purged w db)) = filter (\<lambda>x. se_workspace_id x = v) (scheduled_executions db)"
    unfolding purged_scan_tables by (rule filter_delete, use assms(2) in blast)+
  ultimately show ?thesis by (simp add: scan_view_def ex)
qed

lemma purge_evidence_view:
  assumes "history_ok db" "v \<noteq> w"
  shows "evidence_view v (purged w db) = evidence_view v db"
proof -
  from assms(1) have k: "keyed fs_finding_id (finding_scopes db)" by (simp add: history_ok_def)
  have ex: "list_ex (\<lambda>s. fs_finding_id s = i \<and> fs_workspace_id s = v) (finding_scopes (purged w db)) =
      list_ex (\<lambda>s. fs_finding_id s = i \<and> fs_workspace_id s = v) (finding_scopes db)" for i
    unfolding purged_evidence_tables by (rule list_ex_delete) (use assms(2) in blast)
  have apart: "\<not> (\<exists>s \<in> set (finding_scopes db). fs_finding_id s = i \<and> fs_workspace_id s = v) \<or>
      \<not> i \<in> fs_finding_id ` {s \<in> set (finding_scopes db). fs_workspace_id s = w}" for i
    using keyed_unique [OF k] assms(2) by blast
  have "filter (\<lambda>f. list_ex (\<lambda>s. fs_finding_id s = fr_id f \<and> fs_workspace_id s = v) (finding_scopes db)) (findings (purged w db)) =
      filter (\<lambda>f. list_ex (\<lambda>s. fs_finding_id s = fr_id f \<and> fs_workspace_id s = v) (finding_scopes db)) (findings db)"
    unfolding purged_evidence_tables by (rule filter_delete) (use apart in \<open>unfold list_ex_iff, blast\<close>)
  moreover have "filter (\<lambda>x. fs_workspace_id x = v) (finding_scopes (purged w db)) = filter (\<lambda>x. fs_workspace_id x = v) (finding_scopes db)"
    "filter (\<lambda>x. ss_workspace_id x = v) (scan_snapshots (purged w db)) = filter (\<lambda>x. ss_workspace_id x = v) (scan_snapshots db)"
    "filter (\<lambda>x. os_workspace_id x = v) (observation_states (purged w db)) = filter (\<lambda>x. os_workspace_id x = v) (observation_states db)"
    "filter (\<lambda>x. oc_workspace_id x = v) (occurrences (purged w db)) = filter (\<lambda>x. oc_workspace_id x = v) (occurrences db)"
    "filter (\<lambda>x. de_workspace_id x = v) (drift_events (purged w db)) = filter (\<lambda>x. de_workspace_id x = v) (drift_events db)"
    "filter (\<lambda>x. sp_workspace_id x = v) (repository_scan_runs (purged w db)) = filter (\<lambda>x. sp_workspace_id x = v) (repository_scan_runs db)"
    unfolding purged_evidence_tables by (rule filter_delete, use assms(2) in blast)+
  ultimately show ?thesis by (simp add: evidence_view_def ex)
qed

lemma purge_governance_view:
  assumes "v \<noteq> w"
  shows "governance_view v (purged w db) = governance_view v db"
proof -
  have "filter (\<lambda>x. mi_workspace_id x = v) (migration_items (purged w db)) = filter (\<lambda>x. mi_workspace_id x = v) (migration_items db)"
    "filter (\<lambda>x. mb_workspace_id x = v) (memberships (purged w db)) = filter (\<lambda>x. mb_workspace_id x = v) (memberships db)"
    "filter (\<lambda>x. ak_workspace_id x = v) (api_keys (purged w db)) = filter (\<lambda>x. ak_workspace_id x = v) (api_keys db)"
    "filter (\<lambda>x. pp_workspace_id x = v) (policy_packs (purged w db)) = filter (\<lambda>x. pp_workspace_id x = v) (policy_packs db)"
    "filter (\<lambda>x. pv_workspace_id x = v) (policy_versions (purged w db)) = filter (\<lambda>x. pv_workspace_id x = v) (policy_versions db)"
    "filter (\<lambda>x. pa_workspace_id x = v) (policy_assignments (purged w db)) = filter (\<lambda>x. pa_workspace_id x = v) (policy_assignments db)"
    "filter (\<lambda>x. cr_workspace_id x = v) (connector_credentials (purged w db)) = filter (\<lambda>x. cr_workspace_id x = v) (connector_credentials db)"
    "filter (\<lambda>x. rc_workspace_id x = v) (repository_configurations (purged w db)) = filter (\<lambda>x. rc_workspace_id x = v) (repository_configurations db)"
    "filter (\<lambda>x. rt_workspace_id x = v) (retention_policies (purged w db)) = filter (\<lambda>x. rt_workspace_id x = v) (retention_policies db)"
    "filter (\<lambda>x. av_workspace_id x = Some v) (audit_events (purged w db)) = filter (\<lambda>x. av_workspace_id x = Some v) (audit_events db)"
    unfolding purged_governance_tables by (rule filter_delete, use assms in force)+
  then show ?thesis by (simp add: governance_view_def)
qed

lemma sees_refl [simp]: "sees_the_same v db db"
  by (simp add: sees_the_same_def)

lemma sees_trans: "sees_the_same v a b \<Longrightarrow> sees_the_same v b c \<Longrightarrow> sees_the_same v a c"
  by (simp add: sees_the_same_def)

lemma purge_sees:
  assumes "history_ok db" "v \<noteq> w"
  shows "sees_the_same v db (purged w db)"
  using purge_scan_view [OF assms] purge_evidence_view [OF assms] purge_governance_view [OF assms(2)]
  by (simp add: sees_the_same_def purged_governance_tables)

section \<open>Isolation\<close>

definition swept :: "string \<Rightarrow> retention_policy \<Rightarrow> time \<Rightarrow> 'x retention_db_scheme \<Rightarrow> 'x retention_db_scheme" where
  "swept w policy now db =
     (let d = snd (prune_rows w (now - days (rt_evidence_days policy)) (now - days (rt_audit_days policy)) (protected_jobs w db) db)
      in d\<lparr>retention_policies := update_where (\<lambda>r. rt_workspace_id r = w) (\<lambda>r. r\<lparr>rt_last_run_at := Some now\<rparr>) (retention_policies d)\<rparr>)"

lemma prune_result:
  assumes "prune_workspace_history id locked w now due db = (r, db')"
  shows "db' = db \<and> (\<forall>x. r \<noteq> Inr (Some x)) \<or>
    (\<exists>policy x. row_of rt_workspace_id (retention_policies db) w = Some policy \<and> rt_enabled policy \<and>
       db' = swept w policy now db \<and> r = Inr (Some x) \<and> sw_workspace_id x = w)"
  using assms
  by (auto simp: prune_workspace_history_def swept_def bindE_def Let_def split: if_splits option.splits prod.splits sum.splits)

lemma swept_tables:
  assumes "e = now - days (rt_evidence_days policy)" "a = now - days (rt_audit_days policy)" "P = protected_jobs w db"
  shows "occurrences (swept w policy now db) = occurrences (evidence_of w e P db)"
    "drift_events (swept w policy now db) = drift_events (evidence_of w e P db)"
    "scan_snapshots (swept w policy now db) = scan_snapshots (evidence_of w e P db)"
    "scheduled_executions (swept w policy now db) = scheduled_executions (evidence_of w e P db)"
    "repository_scan_runs (swept w policy now db) = repository_scan_runs (evidence_of w e P db)"
    "finding_scopes (swept w policy now db) = delete_where (\<lambda>x. fs_finding_id x \<in> set (stale_of w e P db)) (finding_scopes db)"
    "scan_jobs (swept w policy now db) = delete_where (\<lambda>j. sj_id j \<in> set (old_of w e P db)) (scan_jobs db)"
    "observation_states (swept w policy now db) = observation_states db" "migration_items (swept w policy now db) = migration_items db"
    "api_keys (swept w policy now db) = api_keys db"
  by (simp_all add: swept_def Let_def pruned_tables [OF refl] pruned_rest [OF refl] assms)

lemma swept_ok: "history_ok db \<Longrightarrow> history_ok (swept w policy now db)"
  by (simp add: history_ok_def swept_tables [OF refl refl refl] keyed_delete)

lemma swept_sees:
  assumes "history_ok db" "v \<noteq> w"
  shows "sees_the_same v db (swept w policy now db)"
proof -
  let ?d = "snd (prune_rows w (now - days (rt_evidence_days policy)) (now - days (rt_audit_days policy)) (protected_jobs w db) db)"
  have "filter (\<lambda>p. rt_workspace_id p = v) (retention_policies (swept w policy now db)) = filter (\<lambda>p. rt_workspace_id p = v) (retention_policies ?d)"
    unfolding swept_def Let_def retention_db.select_convs retention_db.update_convs
    by (simp, rule filter_update_where) (use assms(2) in auto)
  then have "governance_view v (swept w policy now db) = governance_view v ?d"
    by (simp add: governance_view_def swept_def Let_def)
  moreover have "scan_view v (swept w policy now db) = scan_view v ?d" "evidence_view v (swept w policy now db) = evidence_view v ?d"
    "users (swept w policy now db) = users db" "sessions (swept w policy now db) = sessions db"
    by (simp_all add: swept_def Let_def scan_view_def evidence_view_def rate_scope_keys_def pruned_rest [OF refl])
  ultimately show ?thesis
    using prune_scan_view [OF assms] prune_evidence_view [OF assms] prune_governance_view [OF assms(2)]
    by (simp add: sees_the_same_def)
qed

lemma prune_sees:
  assumes "prune_workspace_history id locked w now due db = (r, db')" "history_ok db" "v \<noteq> w"
  shows "sees_the_same v db db' \<and> history_ok db'"
  using prune_result [OF assms(1)] swept_sees [OF assms(2,3)] swept_ok [OF assms(2)] assms(2) by auto

lemma sweep_sees:
  assumes "sweep_workspaces (\<lambda>_. id) locked n now ws db = (r, db')" "history_ok db" "v \<notin> set ws"
  shows "sees_the_same v db db'"
  using assms
proof (induction ws arbitrary: n db r db')
  case (Cons w ws)
  obtain q db1 where step: "prune_workspace_history id locked w now True db = (q, db1)"
    by (cases "prune_workspace_history id locked w now True db")
  then have step': "prune_workspace_history id locked w now True (id db) = (q, db1)" by simp
  have one: "sees_the_same v db db1 \<and> history_ok db1"
    by (rule prune_sees [OF step Cons.prems(2)]) (use Cons.prems(3) in simp)
  show ?case
  proof (cases q)
    case (Inl e)
    then show ?thesis using Cons.prems(1) step one by simp
  next
    case (Inr x)
    obtain q' db2 where rest: "sweep_workspaces (\<lambda>_. id) locked (Suc n) now ws db1 = (q', db2)"
      by (cases "sweep_workspaces (\<lambda>_. id) locked (Suc n) now ws db1")
    have "sees_the_same v db1 db2" by (rule Cons.IH [OF rest]) (use one Cons.prems(3) in simp_all)
    moreover have "db' = db2" using Cons.prems(1) unfolding sweep_workspaces.simps step' Inr prod.case sum.case rest by (cases q') simp_all
    ultimately show ?thesis using one sees_trans by blast
  qed
qed simp

text \<open>
  C28. Retention is isolated per workspace. A retention sweep of one workspace and the purge of one
  workspace, whatever their outcome, leave every other workspace's view of the database exactly as
  it was: its assets, jobs, queue entries, quotas, findings, evidence, drift, remediation, policies,
  credentials, keys and audit events; and users and their sessions. A sweep of all due workspaces
  leaves those alone that have not enabled retention.
\<close>

theorem retention_isolates_workspaces:
  assumes "history_ok db"
  shows "(v \<noteq> w \<longrightarrow> sees_the_same v db (snd (prune_workspace_history id locked w now due db)) \<and>
      sees_the_same v db (snd (purge_workspace id w db))) \<and>
    ((\<forall>p \<in> set (retention_policies db). rt_workspace_id p = v \<longrightarrow> \<not> rt_enabled p) \<longrightarrow>
      sees_the_same v db (snd (run_due_retention (\<lambda>_. id) locked now limit db)))"
proof (intro conjI impI)
  assume "v \<noteq> w"
  then show "sees_the_same v db (snd (prune_workspace_history id locked w now due db))"
    using prune_sees [OF _ assms] by (metis prod.collapse)
  show "sees_the_same v db (snd (purge_workspace id w db))"
    using purge_result [of id w db "fst (purge_workspace id w db)" "snd (purge_workspace id w db)"] purge_sees [OF assms \<open>v \<noteq> w\<close>]
    by auto
next
  assume off: "\<forall>p \<in> set (retention_policies db). rt_workspace_id p = v \<longrightarrow> \<not> rt_enabled p"
  let ?ws = "take (nat limit) (map rt_workspace_id (sort_key sweep_order (filter rt_enabled (retention_policies db))))"
  have "v \<notin> set ?ws" using off by (auto dest!: in_set_takeD)
  then show "sees_the_same v db (snd (run_due_retention (\<lambda>_. id) locked now limit db))"
    using sweep_sees [OF _ assms] by (auto simp: run_due_retention_def) (metis prod.collapse)
qed

section \<open>A purge is complete\<close>

definition erased :: "string \<Rightarrow> 'x retention_db_scheme \<Rightarrow> 'x retention_db_scheme \<Rightarrow> bool" where
  "erased w db db' \<longleftrightarrow>
     scan_view w db' = ([], [], [], [], [], [], [], []) \<and> evidence_view w db' = ([], [], [], [], [], [], []) \<and>
     governance_view w db' = ([], [], [], [], [], [], [], [], [], []) \<and>
     (\<forall>q \<in> set (scan_queue db'). \<not> (\<exists>j \<in> set (scan_jobs db). sj_id j = q_job_id q \<and> sj_workspace_id j = w)) \<and>
     (\<forall>f \<in> set (findings db'). \<not> (\<exists>s \<in> set (finding_scopes db). fs_finding_id s = fr_id f \<and> fs_workspace_id s = w)) \<and>
     (\<forall>b \<in> set (rate_buckets db'). rb_scope_key b \<notin> set (rate_scope_keys w db))"

lemma purged_views_empty:
  shows "scan_view w (purged w db) = ([], [], [], [], [], [], [], [])"
    and "evidence_view w (purged w db) = ([], [], [], [], [], [], [])"
    and "governance_view w (purged w db) = ([], [], [], [], [], [], [], [], [], [])"
proof -
  have none: "\<not> list_ex (\<lambda>j. sj_id j = i \<and> sj_workspace_id j = w) (scan_jobs (purged w db))"
    "\<not> list_ex (\<lambda>s. fs_finding_id s = i \<and> fs_workspace_id s = w) (finding_scopes (purged w db))" for i
    by (auto simp: purged_scan_tables purged_evidence_tables list_ex_iff)
  have "rb_scope_key b \<notin> set (rate_scope_keys w (purged w db))" if "b \<in> set (rate_buckets (purged w db))" for b
    using that by (auto simp: purged_scan_tables rate_scope_keys_def purged_governance_tables)
  then show "scan_view w (purged w db) = ([], [], [], [], [], [], [], [])"
    by (simp add: scan_view_def none filter_empty_conv) (simp add: purged_scan_tables)
  show "evidence_view w (purged w db) = ([], [], [], [], [], [], [])"
    by (simp add: evidence_view_def none) (simp add: purged_evidence_tables filter_empty_conv)
  show "governance_view w (purged w db) = ([], [], [], [], [], [], [], [], [], [])"
    by (simp add: governance_view_def purged_governance_tables filter_empty_conv)
qed

text \<open>
  C29. A purge is complete, or nothing happens. A purge is refused, leaving the database as it was,
  exactly when the id is empty, the workspace does not exist or one of its scans is running.
  Otherwise no row of the workspace is left in any table, no queue entry of its jobs, no finding
  that was stored for it and no rate-limit bucket of it or its API keys; the workspace is not found
  any more, and purging it again is a \<open>LookupError\<close>.
\<close>

theorem purge_erases_workspace:
  assumes "history_ok db"
  shows "case purge_workspace id w db of
      (Inl e, db') \<Rightarrow> db' = db \<and> (w = [] \<or> row_of ws_id (workspaces db) w = None \<or>
        (\<exists>j \<in> set (scan_jobs db). sj_workspace_id j = w \<and> sj_status j = Running))
    | (Inr r, db') \<Rightarrow> erased w db db' \<and> get_workspace w db' = Inr None \<and>
        \<not> (\<exists>j \<in> set (scan_jobs db). sj_workspace_id j = w \<and> sj_status j = Running) \<and>
        purge_workspace id w db' = (Inl (LookupError ''workspace not found''), db')"
proof (cases "purge_workspace id w db")
  case (Pair r db')
  from assms have k: "keyed fs_finding_id (finding_scopes db)" by (simp add: history_ok_def)
  show ?thesis
  proof (cases r)
    case (Inl e)
    have "db' = db" "w = [] \<or> row_of ws_id (workspaces db) w = None \<or>
        count_where (\<lambda>j. sj_workspace_id j = w \<and> sj_status j = Running) (scan_jobs db) \<noteq> 0"
      using purge_refused [OF Pair [unfolded Inl]] by blast+
    moreover from this(2) have "w = [] \<or> row_of ws_id (workspaces db) w = None \<or>
        (\<exists>j \<in> set (scan_jobs db). sj_workspace_id j = w \<and> sj_status j = Running)"
      by (auto simp: count_where_def filter_empty_conv)
    ultimately show ?thesis unfolding Pair Inl prod.case sum.case by blast
  next
    case (Inr x)
    have p: "db' = purged w db" "w \<noteq> []"
      "count_where (\<lambda>j. sj_workspace_id j = w \<and> sj_status j = Running) (scan_jobs db) = 0"
      using purge_ok [OF Pair [unfolded Inr]] by blast+
    have gone: "row_of ws_id (workspaces db') w = None" by (simp add: p(1) purged_scan_tables row_of_None)
    have "\<not> (\<exists>s \<in> set (finding_scopes db). fs_finding_id s = fr_id f \<and> fs_workspace_id s = w)" if f: "f \<in> set (findings db')" for f
    proof
      assume "\<exists>s \<in> set (finding_scopes db). fs_finding_id s = fr_id f \<and> fs_workspace_id s = w"
      then obtain s where s: "s \<in> set (finding_scopes db)" "fs_finding_id s = fr_id f" "fs_workspace_id s = w" by blast
      then have "fr_id f \<in> fs_finding_id ` {x \<in> set (finding_scopes db). fs_workspace_id x = w}" by force
      with f obtain s' where s': "s' \<in> set (finding_scopes db)" "fs_workspace_id s' \<noteq> w" "fs_finding_id s' = fr_id f"
        by (auto simp: p(1) purged_evidence_tables list_ex_iff)
      show False using keyed_unique [OF k s(1) s'(1)] s s' by simp
    qed
    then have "\<forall>f \<in> set (findings db'). \<not> (\<exists>s \<in> set (finding_scopes db). fs_finding_id s = fr_id f \<and> fs_workspace_id s = w)"
      by blast
    moreover have "\<not> (\<exists>j \<in> set (scan_jobs db). sj_id j = q_job_id q \<and> sj_workspace_id j = w)" if "q \<in> set (scan_queue db')" for q
      using that by (simp add: p(1) purged_scan_tables) (metis (mono_tags, lifting) image_eqI mem_Collect_eq)
    moreover have "\<forall>b \<in> set (rate_buckets db'). rb_scope_key b \<notin> set (rate_scope_keys w db)"
      by (auto simp: p(1) purged_scan_tables)
    ultimately have "erased w db db'" using purged_views_empty [of w db] by (simp add: erased_def p(1))
    moreover have "get_workspace w db' = Inr None" by (simp add: get_workspace_def gone optional_row_def)
    moreover have "purge_workspace id w db' = (Inl (LookupError ''workspace not found''), db')"
      by (simp add: purge_workspace_def p(2) gone)
    ultimately show ?thesis using Pair Inr p(3) by (auto simp: count_where_def filter_empty_conv)
  qed
qed

section \<open>Sweeps and the work in progress\<close>

lemma find_filter_head: "find (\<lambda>_. True) xs = Some x \<Longrightarrow> K x \<Longrightarrow> find (\<lambda>_. True) (filter K xs) = Some x"
  by (cases xs) auto

lemma sorted_after_delete:
  "rev (sort_key k (filter Q (delete_where P t))) = filter (\<lambda>x. \<not> P x) (rev (sort_key k (filter Q t)))"
  by (simp only: delete_where_def filter_sort [symmetric] rev_filter [symmetric] filter_filter conj_commute)

lemma latest_protected:
  assumes "latest_snapshot w a db = Some s"
  shows "ss_job_id s \<in> set (protected_jobs w db)"
proof -
  from latest_snapshot_last [OF assms]
  have "s \<in> set (latest_of ss_workspace_id ss_asset_id ss_completed_at w (scan_snapshots db))"
    by (auto simp: latest_of_def Let_def list_all_iff)
  then show ?thesis by (simp add: protected_jobs_def Let_def)
qed

lemma swept_latest: "latest_snapshot w a (swept w policy now db) = latest_snapshot w a db"
proof -
  let ?K = "\<lambda>s. \<not> (ss_workspace_id s = w \<and> ss_completed_at s < now - days (rt_evidence_days policy) \<and> ss_job_id s \<notin> set (protected_jobs w db))"
  let ?xs = "rev (sort_key (\<lambda>s. (ss_completed_at s, ss_job_id s)) (filter (\<lambda>s. ss_workspace_id s = w \<and> ss_asset_id s = a) (scan_snapshots db)))"
  have "latest_snapshot w a (swept w policy now db) = find (\<lambda>_. True) (filter ?K ?xs)"
    unfolding latest_snapshot_def first_where_def swept_tables [OF refl refl refl] evidence_tables
    by (rule arg_cong [OF sorted_after_delete])
  moreover have "latest_snapshot w a db = find (\<lambda>_. True) ?xs" by (simp add: latest_snapshot_def first_where_def)
  ultimately show ?thesis
    using latest_protected [of w a db] find_filter_head [of ?xs _ ?K] by (cases ?xs) auto
qed

lemma swept_row:
  "job \<in> set (protected_jobs w db) \<Longrightarrow>
     row_of ss_job_id (scan_snapshots (swept w policy now db)) job = row_of ss_job_id (scan_snapshots db) job"
  unfolding swept_tables [OF refl refl refl] evidence_tables row_of_def first_where_def [symmetric]
  by (rule first_where_delete) auto

lemma verification_needs:
  "verification_snapshot w r job db = Inr s \<Longrightarrow>
     mi_status r = ReadyForVerification \<and> map_option ss_job_id (latest_snapshot w (mi_asset_id r) db) = Some job"
  by (cases "row_of ss_job_id (scan_snapshots db) job") (simp_all add: verification_snapshot_def split: if_splits)

lemma swept_verification_snapshot:
  assumes "r \<in> set (migration_items db)" "mi_workspace_id r = w"
  shows "verification_snapshot w r job (swept w policy now db) = Inr s \<longleftrightarrow> verification_snapshot w r job db = Inr s"
proof (cases "mi_status r = ReadyForVerification \<and> map_option ss_job_id (latest_snapshot w (mi_asset_id r) db) = Some job")
  case True
  then have job: "job \<in> set (protected_jobs w db)" using latest_protected by fastforce
  have source: "mi_source_scan_job_id r \<in> set (protected_jobs w db)"
    using True assms by (force simp: protected_jobs_def Let_def nonterminal_remediation_def)
  have "verification_job w (mi_asset_id r) job (swept w policy now db) = verification_job w (mi_asset_id r) job db"
    unfolding verification_job_def swept_tables [OF refl refl refl]
    by (rule first_where_delete) (use old_ofD(2) job in blast)
  then show ?thesis unfolding verification_snapshot_def swept_latest swept_row [OF job] swept_row [OF source] by simp
next
  case False
  then show ?thesis using verification_needs [of w r job db] verification_needs [of w r job "swept w policy now db"]
    unfolding swept_latest by blast
qed

lemma commit_item_same:
  assumes "migration_items d = migration_items db"
  obtains res d1 d2 where "commit_item id old new d = (res, d1)" "commit_item id old new db = (res, d2)"
proof -
  have "fst (commit_item id old new d) = fst (commit_item id old new db)"
    using assms by (simp add: commit_item_def Let_def split: option.splits)
  then show thesis using that by (cases "commit_item id old new d"; cases "commit_item id old new db") simp
qed

lemma swept_verify:
  "fst (verify_item id w i job t (swept w policy now db)) = Inr v \<longleftrightarrow> fst (verify_item id w i job t db) = Inr v"
proof (cases "find_item w i db")
  case None
  then show ?thesis by (simp add: verify_item_def find_item_def swept_tables [OF refl refl refl])
next
  case (Some r)
  let ?d = "swept w policy now db"
  from Some have find: "find_item w i ?d = Some r" by (simp add: find_item_def swept_tables [OF refl refl refl])
  from Some have r: "r \<in> set (migration_items db)" "mi_workspace_id r = w"
    by (auto simp: find_item_def first_where_def find_Some_iff)
  show ?thesis
  proof (cases "verification_snapshot w r job db")
    case (Inl e)
    then have "\<exists>e'. verification_snapshot w r job ?d = Inl e'"
      using swept_verification_snapshot [OF r, of job] by (cases "verification_snapshot w r job ?d") auto
    with Inl show ?thesis by (auto simp: verify_item_def Some find)
  next
    case (Inr s)
    then have d: "verification_snapshot w r job ?d = Inr s" using swept_verification_snapshot [OF r] by blast
    from verification_needs [OF Inr] have job: "job \<in> set (protected_jobs w db)" using latest_protected by fastforce
    have "first_where (\<lambda>x. oc_job_id x = job \<and> oc_fingerprint x = mi_observation_fingerprint r) (occurrences ?d) =
        first_where (\<lambda>x. oc_job_id x = job \<and> oc_fingerprint x = mi_observation_fingerprint r) (occurrences db)"
      unfolding swept_tables [OF refl refl refl] evidence_tables by (rule first_where_delete) (use job in blast)
    note same = this
    have items: "migration_items ?d = migration_items db" by (simp add: swept_tables [OF refl refl refl])
    let ?new = "verified_item job t s (first_where (\<lambda>x. oc_job_id x = job \<and> oc_fingerprint x = mi_observation_fingerprint r) (occurrences db)) r"
    obtain res d1 d2 where c: "commit_item id r ?new ?d = (res, d1)" "commit_item id r ?new db = (res, d2)"
      by (rule commit_item_same [OF items])
    show ?thesis unfolding verify_item_def Some find option.case Inr d sum.case Let_def same c prod.case fst_conv ..
  qed
qed

lemma swept_scanned:
  "count_where (\<lambda>s. ss_workspace_id s = v \<and> ss_asset_id s = a) (scan_snapshots (swept w policy now db)) > 0 \<longleftrightarrow>
   count_where (\<lambda>s. ss_workspace_id s = v \<and> ss_asset_id s = a) (scan_snapshots db) > 0"
proof -
  have "\<exists>s' \<in> set (scan_snapshots (swept w policy now db)). ss_workspace_id s' = v \<and> ss_asset_id s' = a"
    if s: "s \<in> set (scan_snapshots db)" "ss_workspace_id s = v" "ss_asset_id s = a" for s
  proof (cases "v = w")
    case True
    have "latest_snapshot w a db \<noteq> None"
      using s True by (auto simp: latest_snapshot_def first_where_def find_None_iff)
    then obtain s' where "latest_snapshot w a (swept w policy now db) = Some s'" unfolding swept_latest by blast
    then show ?thesis using latest_snapshot_last [of w a] True by blast
  next
    case False
    then show ?thesis using s by (auto simp: swept_tables [OF refl refl refl] evidence_tables)
  qed
  moreover have "set (scan_snapshots (swept w policy now db)) \<subseteq> set (scan_snapshots db)"
    by (auto simp: swept_tables [OF refl refl refl] evidence_tables)
  ultimately show ?thesis by (auto simp: count_where_def filter_empty_conv)
qed

lemma distinct_map_delete: "distinct (map f t @ x) \<Longrightarrow> distinct (map f (delete_where P t) @ x)"
  by (auto simp: delete_where_def intro: distinct_map_filter)

definition recorded_keys_distinct where
  "recorded_keys_distinct states occs events jobs \<longleftrightarrow> distinct (map os_id states) \<and>
     distinct (map (\<lambda>s. (os_workspace_id s, os_asset_id s, os_fingerprint s)) states) \<and>
     distinct (map oc_id occs) \<and> distinct (map (\<lambda>x. (oc_job_id x, oc_fingerprint x)) occs) \<and>
     distinct (map de_id events) \<and> distinct jobs"

lemma recorded_keys_distinct_delete:
  "recorded_keys_distinct states (occs @ xs) (events @ es) (map ss_job_id snaps @ [j]) \<Longrightarrow>
   recorded_keys_distinct states (delete_where P occs @ xs) (delete_where Q events @ es) (map ss_job_id (delete_where R snaps) @ [j])"
  unfolding recorded_keys_distinct_def map_append by (intro conjI; elim conjE; (assumption | rule distinct_map_delete, assumption))

lemma record_outcome:
  assumes "row_of ss_job_id (scan_snapshots db) job = None"
    and "drift_of h v a job t (count_where (\<lambda>s. ss_workspace_id s = v \<and> ss_asset_id s = a) (scan_snapshots db) > 0)
      (prepare_findings h job fs) (observation_states db) = (states, raw)"
  shows "fst (record_successful_scan h uuid v a job fs t sv pv db) =
    (let events = map (event_of uuid v a job t) (enumerate 0 raw)
     in if recorded_keys_distinct states (occurrences db @ map (new_occurrence h v a job t sv pv) (prepare_findings h job fs))
          (drift_events db @ events) (map ss_job_id (scan_snapshots db) @ [job])
        then Inr events else Inl IntegrityError)"
  unfolding record_successful_scan_def Let_def assms(2) prod.case recording_commits_def recorded_keys_distinct_def
  using assms(1) by simp

lemma swept_record:
  assumes "row_of ss_job_id (scan_snapshots db) job = None" "fst (record_successful_scan h uuid v a job fs t sv pv db) = Inr events"
  shows "fst (record_successful_scan h uuid v a job fs t sv pv (swept w policy now db)) = Inr events"
proof -
  let ?d = "swept w policy now db"
  have none: "row_of ss_job_id (scan_snapshots ?d) job = None"
    using assms(1) by (auto simp: row_of_None swept_tables [OF refl refl refl] evidence_tables)
  have states: "observation_states ?d = observation_states db" by (simp add: swept_tables [OF refl refl refl])
  obtain states' raw where drift: "drift_of h v a job t
      (count_where (\<lambda>s. ss_workspace_id s = v \<and> ss_asset_id s = a) (scan_snapshots db) > 0) (prepare_findings h job fs)
      (observation_states db) = (states', raw)" by (rule prod.exhaust)
  have drift': "drift_of h v a job t
      (count_where (\<lambda>s. ss_workspace_id s = v \<and> ss_asset_id s = a) (scan_snapshots ?d) > 0) (prepare_findings h job fs)
      (observation_states ?d) = (states', raw)" unfolding states swept_scanned by (rule drift)
  have "recorded_keys_distinct states' (occurrences db @ map (new_occurrence h v a job t sv pv) (prepare_findings h job fs))
      (drift_events db @ map (event_of uuid v a job t) (enumerate 0 raw)) (map ss_job_id (scan_snapshots db) @ [job]) \<and>
      events = map (event_of uuid v a job t) (enumerate 0 raw)"
    using assms(2) unfolding record_outcome [OF assms(1) drift] Let_def by (simp split: if_splits)
  then show ?thesis
    unfolding record_outcome [OF none drift'] Let_def swept_tables [OF refl refl refl] evidence_tables
    by (simp only: recorded_keys_distinct_delete if_True simp_thms)
qed

text \<open>
  C30. A sweep does not disturb the work in progress. Whatever a sweep of a workspace deletes, every
  verification of remediation has the result it had before, so a sweep can neither spoil a proof nor
  make a finding look resolved; the next scan of any asset, recorded under a new job, reports the
  drift it would have reported; the newest snapshot of every asset of the workspace stays; and so
  does the evidence that active observations were last seen with.
\<close>

theorem retention_preserves_work:
  assumes "prune_workspace_history id locked w now due db = (r, d)"
  shows "(fst (verify_item id w i job t d) = Inr v \<longleftrightarrow> fst (verify_item id w i job t db) = Inr v) \<and>
    (row_of ss_job_id (scan_snapshots db) j = None \<and> fst (record_successful_scan h uuid w' a j fs t sv pv db) = Inr events \<longrightarrow>
      fst (record_successful_scan h uuid w' a j fs t sv pv d) = Inr events) \<and>
    latest_snapshot w a d = latest_snapshot w a db \<and>
    (\<forall>s \<in> set (observation_states db). os_workspace_id s = w \<and> os_active s \<longrightarrow>
      filter (\<lambda>x. oc_job_id x = os_last_job_id s) (occurrences d) = filter (\<lambda>x. oc_job_id x = os_last_job_id s) (occurrences db))"
proof -
  have kept: "filter (\<lambda>x. oc_job_id x = os_last_job_id s) (occurrences (swept w policy now db)) =
      filter (\<lambda>x. oc_job_id x = os_last_job_id s) (occurrences db)"
    if "s \<in> set (observation_states db)" "os_workspace_id s = w" "os_active s" for s policy
  proof -
    have "os_last_job_id s \<in> set (protected_jobs w db)" using that by (auto simp: protected_jobs_def Let_def)
    then show ?thesis
      unfolding swept_tables [OF refl refl refl] evidence_tables by (intro filter_delete) auto
  qed
  from prune_result [OF assms] consider "d = db" | policy where "d = swept w policy now db" by blast
  then show ?thesis
  proof cases
    case 1
    then show ?thesis by simp
  next
    case 2
    show ?thesis unfolding 2
      by (intro conjI impI ballI; (rule swept_verify swept_latest | (elim conjE, rule swept_record; assumption) | (elim conjE, rule kept; assumption)))
  qed
qed

section \<open>Limits and races\<close>

lemma sweep_not_due:
  assumes "\<forall>w \<in> set ws. \<forall>p. row_of rt_workspace_id (retention_policies db) w = Some p \<longrightarrow> rt_enabled p \<and> \<not> is_due p now"
  shows "sweep_workspaces (\<lambda>_. id) locked n now ws db = (Inr [], db)"
  using assms
proof (induction ws arbitrary: n)
  case (Cons w ws)
  have "prune_workspace_history id locked w now True db = (Inr None, db)"
    using Cons.prems by (auto simp: prune_workspace_history_def split: option.splits)
  with Cons show ?case by simp
qed simp

text \<open>
  The limit of a sweep can starve a workspace. \<open>run_due_retention\<close> takes the first \<open>limit\<close> enabled
  policies, oldest sweep first, before it looks which of them are due. If none of those is due, the
  call does nothing, even if a policy with a shorter interval behind them is due; and every further
  call does nothing until one of the first policies becomes due.
\<close>

theorem retention_limit_starves_due_workspace:
  assumes "keyed rt_workspace_id (retention_policies db)" "1 \<le> limit" "limit \<le> 1000"
    and "\<forall>p \<in> set (take (nat limit) (sort_key sweep_order (filter rt_enabled (retention_policies db)))). \<not> is_due p now"
  shows "run_due_retention (\<lambda>_. id) locked now limit db = (Inr [], db)"
proof -
  let ?ps = "take (nat limit) (sort_key sweep_order (filter rt_enabled (retention_policies db)))"
  have "rt_enabled p \<and> \<not> is_due p now"
    if "w \<in> rt_workspace_id ` set ?ps" and p: "row_of rt_workspace_id (retention_policies db) w = Some p" for w p
  proof -
    from that(1) obtain q where q: "q \<in> set ?ps" "rt_workspace_id q = w" by blast
    then have m: "q \<in> set (retention_policies db)" "rt_enabled q" by (auto dest: in_set_takeD)
    have "q = p" using row_of_member [OF assms(1) m(1)] unfolding q(2) p by (rule option.inject [THEN iffD1, symmetric])
    then show ?thesis using q(1) m(2) assms(4) by blast
  qed
  then have "\<forall>w \<in> set (map rt_workspace_id ?ps). \<forall>p. row_of rt_workspace_id (retention_policies db) w = Some p \<longrightarrow>
      rt_enabled p \<and> \<not> is_due p now" unfolding set_map by blast
  note sweep_not_due [OF this, of locked 0]
  then show ?thesis
    using assms(2,3) unfolding run_due_retention_def take_map by simp
qed

section \<open>Instances\<close>

definition history_base :: retention_db where
  "history_base = repository_db.extend (credential_db.extend credential_base (repository_db.fields [] [] [])) (retention_db.fields [])"

definition history_policy :: "string \<Rightarrow> int \<Rightarrow> time option \<Rightarrow> retention_policy" where
  "history_policy w sweep last_run = (default_retention w)\<lparr>rt_enabled := True, rt_evidence_days := 7, rt_audit_days := 7,
     rt_sweep_hours := sweep, rt_last_run_at := last_run\<rparr>"

definition old_job :: "string \<Rightarrow> string \<Rightarrow> scan_job" where
  "old_job j w = (new_job j 1 w ''a'' ScTls)\<lparr>sj_status := Failed, sj_started_at := Some 2, sj_finished_at := Some 3\<rparr>"

text \<open>A workspace with an item to verify, two snapshots and an old failed job, beside another workspace.\<close>

definition sample_history :: retention_db where
  "sample_history = history_base
     \<lparr>scan_jobs := [rescan_job, old_job ''jw'' ''w'', old_job ''jv'' ''v''],
      scan_snapshots := [sample_snapshot, sample_snapshot\<lparr>ss_job_id := ''j1'', ss_completed_at := 9\<rparr>],
      migration_items := [ready_item],
      retention_policies := [history_policy ''w'' 24 None]\<rparr>"

lemma sample_history_ok: "history_ok sample_history"
  by code_simp

lemma sample_sweep:
  "map sj_id (scan_jobs (snd (prune_workspace_history id (\<lambda>_. False) ''w'' (days 400) True sample_history))) = [''j1'', ''jv'']"
  "map sj_id (scan_jobs (snd (purge_workspace id ''w'' sample_history))) = [''jv'']"
  "is_ok (fst (purge_workspace id ''w'' sample_history))"
  "is_ok (fst (verify_item id ''w'' ''m'' ''j1'' 20 sample_history))"
  by code_simp+

theorem retention_isolates_workspaces_witness:
  "sees_the_same ''v'' sample_history (snd (prune_workspace_history id (\<lambda>_. False) ''w'' (days 400) True sample_history)) \<and>
   sees_the_same ''v'' sample_history (snd (purge_workspace id ''w'' sample_history)) \<and>
   map sj_id (scan_jobs (snd (purge_workspace id ''w'' sample_history))) = [''jv'']"
  using retention_isolates_workspaces [OF sample_history_ok, of "''v''" "''w''"] sample_sweep by simp

theorem purge_erases_workspace_witness:
  "erased ''w'' sample_history (snd (purge_workspace id ''w'' sample_history))"
proof -
  obtain x d where d: "purge_workspace id ''w'' sample_history = (Inr x, d)"
    using sample_sweep(3) by (cases "purge_workspace id ''w'' sample_history"; cases "fst (purge_workspace id ''w'' sample_history)") auto
  show ?thesis
    using purge_erases_workspace [OF sample_history_ok, of "''w''"] unfolding d prod.case sum.case snd_conv by blast
qed

theorem retention_preserves_work_witness:
  "is_ok (fst (verify_item id ''w'' ''m'' ''j1'' 20 (snd (prune_workspace_history id (\<lambda>_. False) ''w'' (days 400) True sample_history))))"
proof -
  obtain v where v: "fst (verify_item id ''w'' ''m'' ''j1'' 20 sample_history) = Inr v"
    using sample_sweep(4) by (cases "fst (verify_item id ''w'' ''m'' ''j1'' 20 sample_history)") auto
  have "fst (verify_item id ''w'' ''m'' ''j1'' 20 (snd (prune_workspace_history id (\<lambda>_. False) ''w'' (days 400) True sample_history))) = Inr v"
    using retention_preserves_work [OF prod.collapse [symmetric], where db = sample_history] v by blast
  then show ?thesis by simp
qed

definition starving_history :: retention_db where
  "starving_history = sample_history
     \<lparr>retention_policies := [history_policy ''v'' 168 (Some (days 395)), history_policy ''w'' 1 (Some (days 396))]\<rparr>"

lemma starving_facts:
  "keyed rt_workspace_id (retention_policies starving_history)"
  "list_all (\<lambda>p. \<not> is_due p (days 400))
     (take (nat 1) (sort_key sweep_order (filter rt_enabled (retention_policies starving_history))))"
  "is_ok (fst (prune_workspace_history id (\<lambda>_. False) ''w'' (days 400) True starving_history))"
  "fst (prune_workspace_history id (\<lambda>_. False) ''w'' (days 400) True starving_history) \<noteq> Inr None"
  by code_simp+

theorem retention_limit_starves_due_workspace_witness:
  "run_due_retention (\<lambda>_. id) (\<lambda>_. False) (days 400) 1 starving_history = (Inr [], starving_history) \<and>
   fst (prune_workspace_history id (\<lambda>_. False) ''w'' (days 400) True starving_history) \<noteq> Inr None"
  using retention_limit_starves_due_workspace [OF starving_facts(1), of 1 "days 400" "\<lambda>_. False"] starving_facts(2,4)
  by (simp add: list_all_iff)

definition queued_history :: retention_db where
  "queued_history = history_base\<lparr>scan_jobs := [new_job ''j'' 5 ''w'' ''a'' ScTls], scan_queue := [new_queue_row ''j'' 3 5]\<rparr>"

definition claim_between :: "retention_db \<Rightarrow> retention_db" where
  "claim_between db = snd (claim_next (\<lambda>_. alone) (\<lambda>_. None) True ''worker'' 60 (Some 1) 10 db)"

text \<open>
  A purge can delete a scan that is running. The running scans are counted before the queue is
  locked. When a worker claims a queued job in between, the purge does not notice: it succeeds,
  although the same purge an instant later is refused, and the worker finds that its job is gone when
  it reports success.
\<close>

theorem purge_race_deletes_running_scan:
  "let (res, db) = purge_workspace claim_between ''w'' queued_history
   in map sj_status (scan_jobs (claim_between queued_history)) = [Running] \<and>
      fst (purge_workspace id ''w'' (claim_between queued_history)) =
        Inl (RuntimeError ''workspace has running scans; wait for them to finish or cancel them first'') \<and>
      is_ok res \<and> scan_jobs db = [] \<and>
      fst (complete_scan True alone ''j'' ''worker'' 0 11 db) = Inl (LookupError ''scan job not found'')"
  by code_simp

definition disable_between :: "nat \<Rightarrow> retention_db \<Rightarrow> retention_db" where
  "disable_between n db = (if n = 1 then db\<lparr>retention_policies := update_where (\<lambda>p. rt_workspace_id p = ''v'')
     (\<lambda>p. p\<lparr>rt_enabled := False\<rparr>) (retention_policies db)\<rparr> else db)"

text \<open>
  One workspace can abort the sweep of all others. A policy that is disabled between the listing
  of the policies and its turn is an error that ends the whole sweep: the workspaces after it are not
  swept although they are due, and the results of those before it are lost.
\<close>

theorem disabled_policy_aborts_sweep:
  "let db0 = sample_history\<lparr>retention_policies := map (\<lambda>w. history_policy w 24 None) [''u'', ''v'', ''w'']\<rparr>;
       (res, db) = run_due_retention disable_between (\<lambda>_. False) (days 400) 100 db0;
       (res', db') = run_due_retention alone (\<lambda>_. False) (days 400) 100 db0
   in res = Inl (ValueError ''workspace retention policy is disabled'') \<and>
      map rt_last_run_at (retention_policies db) = [Some (days 400), None, None] \<and>
      map sj_id (scan_jobs db) = [''j1'', ''jw'', ''jv''] \<and>
      is_ok res' \<and> map sj_id (scan_jobs db') = [''j1'']"
  by code_simp

end
