(* ===== verification/Paths.thy ===== *)
theory Paths
  imports Prelude
begin

text \<open>
  Relative paths as the scanners see them: the parts of Python's \<open>pathlib\<close> they use (\<open>PurePosixPath\<close>
  with its parts, name, suffix and text), and the two tables of \<^verbatim>\<open>scanners/source.py\<close> that say which
  files are worth reading. A path is the list of its parts; the lemmas show that text and parts
  determine each other and that prefixes of texts at a slash are prefixes of parts.
\<close>

section \<open>Splitting and joining\<close>

fun split_on :: "char \<Rightarrow> string \<Rightarrow> string list" where
  "split_on sep [] = [[]]"
| "split_on sep (c # cs) =
     (if c = sep then [] # split_on sep cs
      else case split_on sep cs of
             [] \<Rightarrow> [[c]]
           | x # xs \<Rightarrow> (c # x) # xs)"

fun join_with :: "char \<Rightarrow> string list \<Rightarrow> string" where
  "join_with sep [] = []"
| "join_with sep [x] = x"
| "join_with sep (x # y # ys) = x @ sep # join_with sep (y # ys)"

lemma split_on_not_Nil [simp]: "split_on sep s \<noteq> []"
  by (induction s) (auto split: list.splits)

lemma split_on_parts: "p \<in> set (split_on sep s) \<Longrightarrow> sep \<notin> set p"
  by (induction s arbitrary: p) (auto split: list.splits if_splits)

lemma split_on_plain: "sep \<notin> set s \<Longrightarrow> split_on sep s = [s]"
  by (induction s) auto

lemma split_on_append: "sep \<notin> set x \<Longrightarrow> split_on sep (x @ sep # s) = x # split_on sep s"
  by (induction x) auto

lemma split_join: "ps \<noteq> [] \<Longrightarrow> \<forall>p \<in> set ps. sep \<notin> set p \<Longrightarrow> split_on sep (join_with sep ps) = ps"
  by (induction sep ps rule: join_with.induct) (auto simp: split_on_plain split_on_append)

lemma join_with_append:
  "ps \<noteq> [] \<Longrightarrow> qs \<noteq> [] \<Longrightarrow> join_with sep (ps @ qs) = join_with sep ps @ sep # join_with sep qs"
  by (induction sep ps rule: join_with.induct) (auto simp: neq_Nil_conv)

section \<open>Parts\<close>

text \<open>A path drops empty parts and single dots; \<open>..\<close> stays.\<close>

definition path_parts :: "string \<Rightarrow> string list" where
  "path_parts s = filter (\<lambda>p. p \<noteq> [] \<and> p \<noteq> ''.'') (split_on (CHR ''/'') s)"

definition is_absolute :: "string \<Rightarrow> bool" where
  "is_absolute s = startswith s ''/''"

definition as_posix :: "string list \<Rightarrow> string" where
  "as_posix ps = (if ps = [] then ''.'' else join_with (CHR ''/'') ps)"

definition path_name :: "string list \<Rightarrow> string" where
  "path_name ps = (if ps = [] then [] else last ps)"

definition path_parent :: "string list \<Rightarrow> string list" where
  "path_parent ps = butlast ps"

text \<open>\<open>suffix\<close>: from the last dot, unless that is the first or the last character of the name.\<close>

definition path_suffix :: "string list \<Rightarrow> string" where
  "path_suffix ps =
     (let name = path_name ps;
          tail = takeWhile (\<lambda>c. c \<noteq> CHR ''.'') (rev name);
          i = length name - 1 - length tail
      in if CHR ''.'' \<in> set name \<and> 0 < i \<and> i < length name - 1 then drop i name else [])"

definition plain_part :: "string \<Rightarrow> bool" where
  "plain_part p = (p \<noteq> [] \<and> p \<noteq> ''.'' \<and> CHR ''/'' \<notin> set p)"

lemma path_parts_plain: "p \<in> set (path_parts s) \<Longrightarrow> plain_part p"
  using split_on_parts [of p "CHR ''/''" s] by (auto simp: path_parts_def plain_part_def)

lemma parts_of_posix [simp]: "\<forall>p \<in> set ps. plain_part p \<Longrightarrow> path_parts (as_posix ps) = ps"
  by (cases "ps = []") (auto simp: path_parts_def as_posix_def split_join plain_part_def filter_id_conv)

lemma as_posix_inj:
  "as_posix ps = as_posix qs \<Longrightarrow> \<forall>p \<in> set ps. plain_part p \<Longrightarrow> \<forall>q \<in> set qs. plain_part q \<Longrightarrow> ps = qs"
  by (metis parts_of_posix)

lemma posix_of_parts_idem [simp]: "as_posix (path_parts (as_posix (path_parts s))) = as_posix (path_parts s)"
  by (simp add: path_parts_plain)

lemma join_with_nonempty: "ps \<noteq> [] \<Longrightarrow> \<forall>p \<in> set ps. p \<noteq> [] \<Longrightarrow> join_with sep ps \<noteq> []"
  by (induction sep ps rule: join_with.induct) auto

lemma as_posix_nonempty: "\<forall>p \<in> set ps. plain_part p \<Longrightarrow> as_posix ps \<noteq> []"
  using join_with_nonempty [of ps "CHR ''/''"] by (auto simp: as_posix_def plain_part_def)

text \<open>\<open>existing.startswith(target + "/")\<close> says that the parts of \<open>target\<close> are a proper prefix.\<close>

lemma startswith_prefix: "startswith s p \<longleftrightarrow> prefix p s"
  by (auto simp: startswith_def prefix_def) (metis append_take_drop_id)

lemma join_prefix:
  assumes "prefix (join_with sep ps @ [sep]) (join_with sep qs)" "ps \<noteq> []"
    and "\<forall>p \<in> set ps. sep \<notin> set p" "\<forall>q \<in> set qs. sep \<notin> set q"
  shows "strict_prefix ps qs"
proof -
  from assms(1) obtain r where r: "join_with sep qs = join_with sep ps @ sep # r" by (auto simp: prefix_def)
  then have "qs \<noteq> []" by auto
  have "split_on sep (join_with sep ps @ sep # r) = ps @ split_on sep r"
    using assms(2,3) by (induction sep ps rule: join_with.induct) (auto simp: split_on_append)
  then have "qs = ps @ split_on sep r" using split_join [OF \<open>qs \<noteq> []\<close> assms(4)] r by simp
  then show ?thesis by (simp add: strict_prefix_def)
qed

lemma below_iff:
  assumes "\<forall>p \<in> set ps. plain_part p" "\<forall>q \<in> set qs. plain_part q" "ps \<noteq> []"
  shows "startswith (as_posix qs) (as_posix ps @ ''/'') \<longleftrightarrow> strict_prefix ps qs"
proof
  assume a: "startswith (as_posix qs) (as_posix ps @ ''/'')"
  have "qs \<noteq> []"
  proof
    assume "qs = []"
    with a have "CHR ''/'' \<in> set ''.''" by (auto simp: startswith_prefix as_posix_def prefix_def dest: arg_cong [of _ _ set])
    then show False by simp
  qed
  with a assms show "strict_prefix ps qs"
    by (auto simp: startswith_prefix as_posix_def plain_part_def intro!: join_prefix)
next
  assume "strict_prefix ps qs"
  then obtain r where "qs = ps @ r" "r \<noteq> []" by (auto simp: strict_prefix_def prefix_def)
  with assms(3) show "startswith (as_posix qs) (as_posix ps @ ''/'')"
    by (simp add: startswith_prefix as_posix_def join_with_append)
qed

section \<open>Files worth reading\<close>

definition supported_extensions :: "string list" where
  "supported_extensions =
     [''.py'', ''.js'', ''.jsx'', ''.ts'', ''.tsx'', ''.java'', ''.go'', ''.rs'', ''.c'', ''.h'', ''.cc'', ''.cpp'', ''.cs'',
      ''.rb'', ''.php'', ''.swift'', ''.kt'', ''.kts'', ''.scala'', ''.sh'', ''.yaml'', ''.yml'', ''.json'', ''.toml'', ''.xml'',
      ''.properties'', ''.conf'', ''.ini'', ''.env'', ''.pem'']"

definition ignored_dirs :: "string list" where
  "ignored_dirs = [''.git'', ''node_modules'', ''.venv'', ''venv'', ''dist'', ''build'', ''target'', ''.next'', ''coverage'']"

definition ignored_path :: "string list \<Rightarrow> bool" where
  "ignored_path ps = list_ex (\<lambda>p. p \<in> set ignored_dirs) ps"

definition supported_relative_path :: "string \<Rightarrow> bool" where
  "supported_relative_path relative =
     (let path = path_parts relative
      in lower (path_suffix path) \<in> set supported_extensions \<and> \<not> ignored_path path)"

end
