(* ===== verification/Network.thy ===== *)
theory Network
  imports Prelude
begin

text \<open>
  Where a scan may connect to: \<^verbatim>\<open>security/network.py\<close>. Addresses of Python's \<open>ipaddress\<close> are values of
  type \<open>address\<close> with the classes the code asks for; parsing them and \<open>getaddrinfo\<close> are parameters.
  The lemma shows that the returned target is one of the answers and that all of them are allowed.
\<close>

section \<open>Resolving a target\<close>

record address =
  ad_text :: string
  ad_version :: nat
  ad_multicast :: bool
  ad_unspecified :: bool
  ad_global :: bool

datatype sockaddr = SockV4 string int | SockV6 string int int int

fun sockaddr_host :: "sockaddr \<Rightarrow> string" where
  "sockaddr_host (SockV4 h p) = h"
| "sockaddr_host (SockV6 h p f s) = h"

record resolved_target =
  tg_hostname :: string
  tg_ip :: string
  tg_family :: int
  tg_socktype :: int
  tg_proto :: int
  tg_sockaddr :: sockaddr

record answer =
  an_family :: int
  an_socktype :: int
  an_proto :: int
  an_sockaddr :: sockaddr

text \<open>\<open>ip_address\<close> (\<open>None\<close> is \<open>ValueError\<close>), \<open>getaddrinfo\<close> for TCP (\<open>None\<close> is \<open>gaierror\<close>) and the constants of \<open>socket\<close>.\<close>

record network =
  nw_ip_address :: "string \<Rightarrow> address option"
  nw_getaddrinfo :: "string \<Rightarrow> int \<Rightarrow> answer list option"
  nw_af_inet :: int
  nw_af_inet6 :: int
  nw_sock_stream :: int
  nw_ipproto_tcp :: int

definition rstrip_dots :: "string \<Rightarrow> string" where
  "rstrip_dots s = rev (dropWhile (\<lambda>c. c = CHR ''.'') (rev s))"

definition address_is_unsafe :: "address \<Rightarrow> bool" where
  "address_is_unsafe a = (ad_multicast a \<or> ad_unspecified a)"

definition literal_target :: "network \<Rightarrow> string \<Rightarrow> int \<Rightarrow> address \<Rightarrow> resolved_target" where
  "literal_target nw hostname port a =
     \<lparr>tg_hostname = hostname, tg_ip = ad_text a,
      tg_family = (if ad_version a = 6 then nw_af_inet6 nw else nw_af_inet nw), tg_socktype = nw_sock_stream nw,
      tg_proto = nw_ipproto_tcp nw,
      tg_sockaddr = (if ad_version a = 6 then SockV6 (ad_text a) port 0 0 else SockV4 (ad_text a) port)\<rparr>"

fun check_answers ::
  "network \<Rightarrow> bool \<Rightarrow> string \<Rightarrow> (int \<times> string) list \<Rightarrow> answer list \<Rightarrow> resolved_target list \<Rightarrow> resolved_target list result" where
  "check_answers nw allow_private hostname seen [] resolved = Inr resolved"
| "check_answers nw allow_private hostname seen (an # ans) resolved =
     (let ip = sockaddr_host (an_sockaddr an)
      in case nw_ip_address nw ip of
           None \<Rightarrow> Inl (ValueError (''resolver returned an invalid address: '' @ ip))
         | Some a \<Rightarrow>
             if address_is_unsafe a
             then Inl (ValueError (''hostname resolves to an unsafe address and is blocked: '' @ ip))
             else if \<not> allow_private \<and> \<not> ad_global a
             then Inl (ValueError (''hostname resolves to a non-global address and is blocked: '' @ ip))
             else if (an_family an, ip) \<in> set seen
             then check_answers nw allow_private hostname seen ans resolved
             else check_answers nw allow_private hostname (seen @ [(an_family an, ip)]) ans
                    (resolved @ [\<lparr>tg_hostname = hostname, tg_ip = ip, tg_family = an_family an,
                       tg_socktype = an_socktype an, tg_proto = an_proto an, tg_sockaddr = an_sockaddr an\<rparr>]))"

definition resolve_target :: "network \<Rightarrow> string \<Rightarrow> int \<Rightarrow> bool \<Rightarrow> resolved_target result" where
  "resolve_target nw host port allow_private =
     (let hostname = rstrip_dots (strip host)
      in if hostname = [] then Inl (ValueError ''hostname is empty'')
         else case nw_ip_address nw hostname of
           Some a \<Rightarrow>
             if address_is_unsafe a then Inl (ValueError (''unsafe target is blocked: '' @ ad_text a))
             else if \<not> allow_private \<and> \<not> ad_global a
             then Inl (ValueError (''non-global target is blocked: '' @ ad_text a))
             else Inr (literal_target nw hostname port a)
         | None \<Rightarrow>
             (case nw_getaddrinfo nw hostname port of
                None \<Rightarrow> Inl (ValueError (''hostname resolution failed: '' @ hostname))
              | Some answers \<Rightarrow>
                  if answers = []
                  then Inl (ValueError (''hostname resolution returned no addresses: '' @ hostname))
                  else bindE (check_answers nw allow_private hostname [] answers [])
                    (\<lambda>resolved. case resolved of
                        [] \<Rightarrow> Inl (ValueError (''no usable TCP address resolved for: '' @ hostname))
                      | t # _ \<Rightarrow> Inr t)))"

section \<open>Only allowed addresses\<close>

definition allowed :: "network \<Rightarrow> bool \<Rightarrow> string \<Rightarrow> bool" where
  "allowed nw allow_private ip \<longleftrightarrow>
     (\<exists>a. nw_ip_address nw ip = Some a \<and> \<not> address_is_unsafe a \<and> (allow_private \<or> ad_global a))"

lemma check_answers_Inr:
  "check_answers nw priv h seen ans res = Inr res' \<Longrightarrow>
     list_all (\<lambda>an. allowed nw priv (sockaddr_host (an_sockaddr an))) ans \<and> (\<exists>more. res' = res @ more)"
proof (induction nw priv h seen ans res rule: check_answers.induct)
  case (2 nw priv h seen an ans res)
  then show ?case
    by (auto simp: Let_def allowed_def split: option.splits if_splits)
qed simp

lemma check_answers_ok:
  "list_all (\<lambda>an. allowed nw priv (sockaddr_host (an_sockaddr an))) ans \<Longrightarrow> \<exists>res'. check_answers nw priv h seen ans res = Inr res'"
proof (induction ans arbitrary: seen res)
  case (Cons an ans)
  then obtain a where "nw_ip_address nw (sockaddr_host (an_sockaddr an)) = Some a" "\<not> address_is_unsafe a" "priv \<or> ad_global a"
    by (auto simp: allowed_def)
  with Cons show ?case by (auto simp: Let_def)
qed simp

lemma check_answers_first:
  assumes "check_answers nw priv h [] (an # ans) [] = Inr res"
  shows "\<exists>ts. res = \<lparr>tg_hostname = h, tg_ip = sockaddr_host (an_sockaddr an), tg_family = an_family an,
    tg_socktype = an_socktype an, tg_proto = an_proto an, tg_sockaddr = an_sockaddr an\<rparr> # ts"
  using assms check_answers_Inr by (fastforce simp: Let_def split: option.splits if_splits)

text \<open>
  A scan connects only where the policy allows, and is not fooled by mixed answers. When a host is
  resolved, either the host is an address itself, allowed by the policy, or every answer of the
  resolver is a valid address that is neither multicast nor unspecified and, unless private targets
  are allowed, global; the returned target is then the first answer, to be connected to without
  resolving again. One forbidden or invalid answer is enough to refuse the host.
\<close>

theorem resolved_targets_are_allowed:
  assumes "nw_ip_address nw (rstrip_dots (strip host)) = None"
    and "nw_getaddrinfo nw (rstrip_dots (strip host)) port = Some answers"
  shows "case resolve_target nw host port priv of
      Inr t \<Rightarrow> list_all (\<lambda>an. allowed nw priv (sockaddr_host (an_sockaddr an))) answers \<and> answers \<noteq> [] \<and>
        tg_sockaddr t = an_sockaddr (hd answers) \<and> allowed nw priv (sockaddr_host (tg_sockaddr t))
    | Inl e \<Rightarrow> rstrip_dots (strip host) = [] \<or> answers = [] \<or>
        \<not> list_all (\<lambda>an. allowed nw priv (sockaddr_host (an_sockaddr an))) answers"
proof (cases "rstrip_dots (strip host) = [] \<or> answers = []")
  case True
  then show ?thesis using assms by (auto simp: resolve_target_def Let_def)
next
  case False
  then obtain an ans where ans: "answers = an # ans" and h: "rstrip_dots (strip host) \<noteq> []" by (cases answers) auto
  let ?check = "check_answers nw priv (rstrip_dots (strip host)) [] answers []"
  show ?thesis
  proof (cases ?check)
    case (Inl e)
    then have "\<not> list_all (\<lambda>an. allowed nw priv (sockaddr_host (an_sockaddr an))) answers"
      using check_answers_ok [of nw priv answers "rstrip_dots (strip host)" "[]" "[]"] by auto
    with Inl show ?thesis using assms h ans by (simp add: resolve_target_def Let_def)
  next
    case (Inr res)
    from check_answers_Inr [OF this] have all: "list_all (\<lambda>an. allowed nw priv (sockaddr_host (an_sockaddr an))) answers" by simp
    from check_answers_first [OF Inr [unfolded ans]] obtain ts where "res = \<lparr>tg_hostname = rstrip_dots (strip host),
      tg_ip = sockaddr_host (an_sockaddr an), tg_family = an_family an, tg_socktype = an_socktype an, tg_proto = an_proto an,
      tg_sockaddr = an_sockaddr an\<rparr> # ts" by blast
    with Inr all show ?thesis using assms h ans by (simp add: resolve_target_def Let_def)
  qed
qed

definition demo_network :: network where
  "demo_network = \<lparr>nw_ip_address = (\<lambda>s. if s = ''93.184.216.34'' then Some \<lparr>ad_text = s, ad_version = 4, ad_multicast = False,
       ad_unspecified = False, ad_global = True\<rparr>
     else if s = ''10.0.0.1'' then Some \<lparr>ad_text = s, ad_version = 4, ad_multicast = False, ad_unspecified = False, ad_global = False\<rparr>
     else None),
     nw_getaddrinfo = (\<lambda>h p. Some [\<lparr>an_family = 2, an_socktype = 1, an_proto = 6, an_sockaddr = SockV4 ''93.184.216.34'' p\<rparr>,
       \<lparr>an_family = 2, an_socktype = 1, an_proto = 6, an_sockaddr = SockV4 ''10.0.0.1'' p\<rparr>]),
     nw_af_inet = 2, nw_af_inet6 = 10, nw_sock_stream = 1, nw_ipproto_tcp = 6\<rparr>"

theorem resolved_targets_are_allowed_witness:
  "(case resolve_target demo_network ''mixed.example.'' 443 True of Inr t \<Rightarrow> tg_sockaddr t = SockV4 ''93.184.216.34'' 443 | Inl e \<Rightarrow> False) \<and>
   \<not> is_ok (resolve_target demo_network ''mixed.example.'' 443 False)"
proof -
  have host: "rstrip_dots (strip ''mixed.example.'') = ''mixed.example''" by code_simp
  have facts: "nw_ip_address demo_network (rstrip_dots (strip ''mixed.example.'')) = None"
    "nw_getaddrinfo demo_network (rstrip_dots (strip ''mixed.example.'')) 443 =
       Some [\<lparr>an_family = 2, an_socktype = 1, an_proto = 6, an_sockaddr = SockV4 ''93.184.216.34'' 443\<rparr>,
         \<lparr>an_family = 2, an_socktype = 1, an_proto = 6, an_sockaddr = SockV4 ''10.0.0.1'' 443\<rparr>]"
    unfolding host by (simp_all add: demo_network_def)
  show ?thesis
    using resolved_targets_are_allowed [OF facts, of True] resolved_targets_are_allowed [OF facts, of False]
    unfolding host by (auto simp: allowed_def demo_network_def address_is_unsafe_def split: sum.splits)
qed

end
