(* ===== verification/RepositoryScanner.thy ===== *)
theory RepositoryScanner
  imports SourceScanner Network Retention
begin

text \<open>
  Scanning a Git repository: \<^verbatim>\<open>scanners/repository.py\<close>. Git, the checked-out files, URL parsing and the
  resolver are parameters: \<open>rs_git\<close> gives the outcome of each command (a scan runs no command
  twice), \<open>rs_checkout\<close> lists what \<open>rglob\<close> meets in the work tree of a commit. The decision between a
  full and an incremental scan, the parser of Git's diff, the observations kept from the last scan,
  the limits and the provenance are modelled as the code has them. \<open>RepositoryScanError\<close> is a
  \<open>RuntimeError\<close>. The properties are in \<open>RepositoryDelta\<close>.
\<close>

section \<open>Parameters\<close>

datatype git_result = GitMissing | GitTimeout | GitExit int string string

text \<open>A file has a size (\<open>None\<close>: \<open>stat\<close> fails) and a text (\<open>None\<close>: reading fails).\<close>

datatype node = FileNode "int option" "string option" | LinkNode | DirNode

type_synonym checkout = "(string \<times> node) list"

record split_url =
  su_scheme :: string
  su_username :: "string option"
  su_password :: "string option"
  su_hostname :: "string option"
  su_port :: "int option result"
  su_path :: string
  su_query :: string
  su_fragment :: string

record repository_limits =
  rl_fetch_depth :: int
  rl_git_timeout :: int
  rl_max_files :: int
  rl_max_scan_bytes :: int
  rl_max_file_bytes :: int

record repository_scanner =
  rs_git :: "string list \<Rightarrow> git_result"
  rs_checkout :: "string \<Rightarrow> checkout"
  rs_urlsplit :: "string \<Rightarrow> split_url option"
  rs_network :: network
  rs_allowed_hosts :: "string list"
  rs_allow_private :: bool
  rs_credentials :: "(secret_library \<times> cipher) option"
  rs_limits :: repository_limits
  rs_inputs :: "nat \<Rightarrow> scan_input"

definition validate_limits :: "repository_limits \<Rightarrow> unit result" where
  "validate_limits l =
     (if \<not> (1 \<le> rl_fetch_depth l \<and> rl_fetch_depth l \<le> 10000)
      then Inl (ValueError ''repository_fetch_depth must be between 1 and 10000'')
      else if \<not> (5 \<le> rl_git_timeout l \<and> rl_git_timeout l \<le> 1800)
      then Inl (ValueError ''repository_git_timeout_seconds must be between 5 and 1800'')
      else if \<not> (1 \<le> rl_max_files l \<and> rl_max_files l \<le> 1000000)
      then Inl (ValueError ''repository_max_files must be positive'')
      else if \<not> (1000000 \<le> rl_max_scan_bytes l \<and> rl_max_scan_bytes l \<le> 10000000000)
      then Inl (ValueError ''repository_max_scan_bytes is outside supported bounds'')
      else if \<not> (1000 \<le> rl_max_file_bytes l \<and> rl_max_file_bytes l \<le> rl_max_scan_bytes l)
      then Inl (ValueError ''repository_max_file_bytes is outside supported bounds'')
      else Inr ())"

section \<open>Running Git\<close>

definition git_command :: "string list \<Rightarrow> string list" where
  "git_command args =
     [''git'', ''-c'', ''protocol.file.allow=never'', ''-c'', ''protocol.ext.allow=never'',
      ''-c'', ''http.followRedirects=false'', ''-c'', ''http.sslVerify=true''] @ args"

definition sanitize_git_error :: "string \<Rightarrow> (string \<times> string) option \<Rightarrow> string" where
  "sanitize_git_error stderr auth =
     (let message = (if strip stderr = [] then ''git operation failed'' else strip stderr);
          hide = (\<lambda>secret m. if secret = [] then m else replace_sub secret ''[REDACTED]'' m)
      in take 1000 (case auth of
           None \<Rightarrow> message
         | Some (username, token) \<Rightarrow> hide token (hide username message)))"

definition git :: "repository_scanner \<Rightarrow> (string \<times> string) option \<Rightarrow> string list \<Rightarrow> string result" where
  "git rs auth args =
     (case rs_git rs (git_command args) of
        GitMissing \<Rightarrow> Inl (RuntimeError ''git executable is required for repository scanning'')
      | GitTimeout \<Rightarrow> Inl (RuntimeError ''git operation exceeded configured timeout'')
      | GitExit code out err \<Rightarrow> if code \<noteq> 0 then Inl (RuntimeError (sanitize_git_error err auth)) else Inr out)"

definition git_success :: "repository_scanner \<Rightarrow> (string \<times> string) option \<Rightarrow> string list \<Rightarrow> bool" where
  "git_success rs auth args = is_ok (git rs auth args)"

definition hex_lower :: "char \<Rightarrow> bool" where
  "hex_lower c = (is_digit c \<or> 97 \<le> code_of c \<and> code_of c \<le> 102)"

definition sha_pattern :: "string \<Rightarrow> bool" where
  "sha_pattern s = (length_between 40 64 s \<and> list_all hex_lower s)"

definition commit_available :: "repository_scanner \<Rightarrow> (string \<times> string) option \<Rightarrow> string \<Rightarrow> bool" where
  "commit_available rs auth sha =
     (sha_pattern sha \<and> git_success rs auth [''cat-file'', ''-e'', sha @ ''^{commit}''])"

definition is_ancestor :: "repository_scanner \<Rightarrow> (string \<times> string) option \<Rightarrow> string \<Rightarrow> string \<Rightarrow> bool" where
  "is_ancestor rs auth previous current = git_success rs auth [''merge-base'', ''--is-ancestor'', previous, current]"

section \<open>URLs, refs and credentials\<close>

definition validate_repository_url :: "repository_scanner \<Rightarrow> string \<Rightarrow> repository_provider result" where
  "validate_repository_url rs url =
     (case rs_urlsplit rs url of
        None \<Rightarrow> Inl (RuntimeError ''repository URL is invalid'')
      | Some p \<Rightarrow>
          let present = (\<lambda>v. v \<noteq> None \<and> v \<noteq> Some []);
              hostname = rstrip_dots (lower (case su_hostname p of None \<Rightarrow> [] | Some h \<Rightarrow> h))
          in if lower (su_scheme p) \<noteq> ''https'' then Inl (RuntimeError ''repository URL must use HTTPS'')
             else if present (su_username p) \<or> present (su_password p)
             then Inl (RuntimeError ''repository URL must not contain embedded credentials'')
             else if su_query p \<noteq> [] \<or> su_fragment p \<noteq> []
             then Inl (RuntimeError ''repository URL must not contain query strings or fragments'')
             else if hostname = [] \<or> su_path p = [] \<or> su_path p = ''/''
             then Inl (RuntimeError ''repository URL must include a host and repository path'')
             else if hostname \<notin> set (rs_allowed_hosts rs)
             then Inl (RuntimeError (''repository host is not allowlisted: '' @ hostname))
             else bindE (su_port p) (\<lambda>port.
               case resolve_target (rs_network rs) hostname
                      (case port of None \<Rightarrow> 443 | Some n \<Rightarrow> if n = 0 then 443 else n) (rs_allow_private rs) of
                 Inl (ValueError m) \<Rightarrow> Inl (RuntimeError m)
               | Inl e \<Rightarrow> Inl e
               | Inr _ \<Rightarrow>
                   if hostname = ''github.com'' then Inr PvGithub
                   else if hostname = ''gitlab.com'' then Inr PvGitlab else Inr PvGeneric))"

definition ref_char :: "char \<Rightarrow> bool" where
  "ref_char c = (is_lower c \<or> is_upper c \<or> is_digit c \<or> c \<in> set ''._/-'')"

definition ref_pattern :: "string \<Rightarrow> bool" where
  "ref_pattern s =
     (case s of [] \<Rightarrow> False
      | c # cs \<Rightarrow> (is_lower c \<or> is_upper c \<or> is_digit c) \<and> length cs \<le> 199 \<and> list_all ref_char cs)"

definition contains :: "string \<Rightarrow> string \<Rightarrow> bool" where
  "contains s p = sublist p s"

definition validate_ref :: "string \<Rightarrow> string result" where
  "validate_ref ref =
     (let value = strip ref
      in if \<not> ref_pattern value \<or> contains value ''..'' \<or> contains value [CHR ''@'', CHR 0x7B] \<or> endswith value ''/'' \<or> endswith value ''.lock''
         then Inl (RuntimeError ''repository ref is invalid or unsafe'') else Inr value)"

definition credential_material ::
  "repository_scanner \<Rightarrow> (nat \<Rightarrow> 'x credential_db_scheme \<Rightarrow> 'x credential_db_scheme) \<Rightarrow> repository_configuration \<Rightarrow> time \<Rightarrow>
   'x credential_db_scheme \<Rightarrow> ((string \<times> string) option, 'x credential_db_scheme) outcome" where
  "credential_material rs env config now db =
     (case rc_credential_id config of
        None \<Rightarrow> (Inr None, db)
      | Some ident \<Rightarrow>
          (case rs_credentials rs of
             None \<Rightarrow> (Inl (RuntimeError ''repository credential is configured but connector encryption is unavailable''), db)
           | Some (lib, ci) \<Rightarrow>
               (case get_metadata (rc_workspace_id config) ident db of
                  Inl e \<Rightarrow> (Inl e, db)
                | Inr meta \<Rightarrow>
                    (case (case rc_provider config of
                             PvGithub \<Rightarrow> Some (GithubToken, ''x-access-token'')
                           | PvGitlab \<Rightarrow> Some (GitlabToken, ''oauth2'')
                           | PvGeneric \<Rightarrow> None) of
                       None \<Rightarrow> (Inl (RuntimeError ''authenticated custom repository hosts are not supported by this collector''), db)
                     | Some (expected, username) \<Rightarrow>
                         if cm_kind meta \<noteq> expected
                         then (Inl (RuntimeError (''repository requires a '' @ credential_kind_value expected @ '' credential'')), db)
                         else (case resolve_for_use lib ci env (rc_workspace_id config) ident now db of
                                 (Inl e, db') \<Rightarrow> (Inl e, db')
                               | (Inr m, db') \<Rightarrow>
                                   (case map_of m ''token'' of
                                      None \<Rightarrow> (Inl (RuntimeError ''repository credential does not contain a token''), db')
                                    | Some token \<Rightarrow>
                                        if token = []
                                        then (Inl (RuntimeError ''repository credential does not contain a token''), db')
                                        else (Inr (Some (username, token)), db')))))))"

section \<open>What changed\<close>

definition safe_relative_path :: "string \<Rightarrow> string result" where
  "safe_relative_path value =
     (let path = path_parts value
      in if is_absolute value \<or> ''..'' \<in> set path \<or> path = []
         then Inl (RuntimeError ''git returned an unsafe repository path'') else Inr (as_posix path))"

record repository_delta =
  dl_touched :: "string list"
  dl_current :: "string list"

definition add_path :: "string \<Rightarrow> string list \<Rightarrow> string list" where
  "add_path p ps = (if p \<in> set ps then ps else ps @ [p])"

fun parse_diff :: "string list \<Rightarrow> repository_delta \<Rightarrow> repository_delta result" where
  "parse_diff [] d = Inr d"
| "parse_diff (code # rest) d =
     (if code = [] then parse_diff rest d
      else if hd code = CHR ''R'' \<or> hd code = CHR ''C''
      then (case rest of
              old # new # rest' \<Rightarrow>
                bindE (safe_relative_path old) (\<lambda>old. bindE (safe_relative_path new) (\<lambda>new.
                  parse_diff rest' \<lparr>dl_touched = add_path new (add_path old (dl_touched d)), dl_current = add_path new (dl_current d)\<rparr>))
            | _ \<Rightarrow> Inl (RuntimeError ''git returned malformed rename/copy diff data''))
      else (case rest of
              path # rest' \<Rightarrow>
                bindE (safe_relative_path path) (\<lambda>path.
                  parse_diff rest' \<lparr>dl_touched = add_path path (dl_touched d),
                    dl_current = (if hd code = CHR ''D'' then dl_current d else add_path path (dl_current d))\<rparr>)
            | [] \<Rightarrow> Inl (RuntimeError ''git returned malformed diff data'')))"

definition diff_fields :: "string \<Rightarrow> string list" where
  "diff_fields output =
     (let fields = split_on (CHR 0x00) output
      in if last fields = [] then butlast fields else fields)"

definition changed_paths ::
  "repository_scanner \<Rightarrow> (string \<times> string) option \<Rightarrow> string \<Rightarrow> string \<Rightarrow> repository_delta result" where
  "changed_paths rs auth previous current =
     bindE (git rs auth [''diff'', ''--name-status'', ''-z'', previous, current, ''--'']) (\<lambda>output.
       parse_diff (diff_fields output) \<lparr>dl_touched = [], dl_current = []\<rparr>)"

text \<open>The observations of the active states whose file was not touched.\<close>

definition retained_observations ::
  "string \<Rightarrow> string \<Rightarrow> string list \<Rightarrow> 'x continuous_db_scheme \<Rightarrow> crypto_observation list" where
  "retained_observations w a touched db =
     filter (\<lambda>x. case ev_locator (ob_evidence x) of None \<Rightarrow> True | Some p \<Rightarrow> p \<notin> set touched)
       (map (\<lambda>s. fi_observation (os_finding_payload s))
         (filter (\<lambda>s. os_workspace_id s = w \<and> os_asset_id s = a \<and> os_active s) (observation_states db)))"

section \<open>Reading files\<close>

definition file_node :: "node \<Rightarrow> bool" where
  "file_node n = (case n of FileNode _ _ \<Rightarrow> True | _ \<Rightarrow> False)"

fun checkout_paths :: "int \<Rightarrow> checkout \<Rightarrow> string list \<Rightarrow> string list result" where
  "checkout_paths limit [] paths = Inr paths"
| "checkout_paths limit ((relative, n) # rest) paths =
     (if limit \<le> int (length paths) then Inl (RuntimeError ''repository exceeds configured file-count limit'')
      else checkout_paths limit rest
             (if file_node n \<and> supported_relative_path relative then paths @ [relative] else paths))"

fun read_paths ::
  "repository_limits \<Rightarrow> (nat \<Rightarrow> scan_input) \<Rightarrow> string \<Rightarrow> checkout \<Rightarrow> string list \<Rightarrow> int \<Rightarrow> nat \<Rightarrow> crypto_observation list \<Rightarrow>
   (crypto_observation list \<times> nat) result" where
  "read_paths l inputs name files [] bytes scanned obs = Inr (obs, scanned)"
| "read_paths l inputs name files (relative # rest) bytes scanned obs =
     (case (if supported_relative_path relative then map_of files relative else None) of
        Some (FileNode (Some bytes_read) content) \<Rightarrow>
          if bytes_read > rl_max_file_bytes l then read_paths l inputs name files rest bytes scanned obs
          else if bytes + bytes_read > rl_max_scan_bytes l
          then Inl (RuntimeError ''repository scan exceeds configured byte limit'')
          else (case content of
                  None \<Rightarrow> read_paths l inputs name files rest (bytes + bytes_read) scanned obs
                | Some t \<Rightarrow>
                    read_paths l inputs name files rest (bytes + bytes_read) (Suc scanned)
                      (obs @ scan_text ((inputs scanned)\<lparr>si_asset_name := name, si_locator := relative\<rparr>) t))
      | _ \<Rightarrow> read_paths l inputs name files rest bytes scanned obs)"

definition scan_paths ::
  "repository_limits \<Rightarrow> (nat \<Rightarrow> scan_input) \<Rightarrow> string \<Rightarrow> checkout \<Rightarrow> string list \<Rightarrow>
   (crypto_observation list \<times> nat) result" where
  "scan_paths l inputs name files paths =
     (let normalized = sort (remdups paths)
      in if int (length normalized) > rl_max_files l
         then Inl (RuntimeError ''repository scan exceeds configured file-count limit'')
         else read_paths l inputs name files normalized 0 0 [])"

definition scan_checkout ::
  "repository_limits \<Rightarrow> (nat \<Rightarrow> scan_input) \<Rightarrow> string \<Rightarrow> checkout \<Rightarrow> (crypto_observation list \<times> nat) result" where
  "scan_checkout l inputs name files =
     bindE (checkout_paths (rl_max_files l) files []) (scan_paths l inputs name files)"

section \<open>A scan\<close>

text \<open>What is known of the work tree once it is checked out: the commit and the credentials.\<close>

definition fetch_commit :: "repository_scanner \<Rightarrow> (string \<times> string) option \<Rightarrow> string \<Rightarrow> string \<Rightarrow> string result" where
  "fetch_commit rs auth url ref =
     bindE (git rs auth [''init'', ''--quiet'']) (\<lambda>_.
     bindE (git rs auth [''remote'', ''add'', ''origin'', url]) (\<lambda>_.
     bindE (git rs auth [''fetch'', ''--quiet'', ''--no-tags'', ''--prune'',
        ''--depth='' @ str_of_int (rl_fetch_depth (rs_limits rs)), ''origin'', ref]) (\<lambda>_.
     bindE (git rs auth [''rev-parse'', ''FETCH_HEAD'']) (\<lambda>out.
       let sha = lower (strip out)
       in if \<not> sha_pattern sha then Inl (RuntimeError ''git returned an invalid commit identity'')
          else bindE (git rs auth [''checkout'', ''--quiet'', ''--detach'', ''--force'', sha]) (\<lambda>_. Inr sha)))))"

record collected =
  co_observations :: "crypto_observation list"
  co_scanned_files :: nat
  co_retained :: nat
  co_touched :: nat
  co_mode :: repository_scan_mode

definition collect ::
  "repository_scanner \<Rightarrow> (string \<times> string) option \<Rightarrow> managed_asset \<Rightarrow> string option \<Rightarrow> string \<Rightarrow>
   'x continuous_db_scheme \<Rightarrow> collected result" where
  "collect rs auth asset previous sha db =
     (let files = rs_checkout rs sha
      in case (case previous of
                 None \<Rightarrow> None
               | Some p \<Rightarrow> if p \<noteq> [] \<and> commit_available rs auth p \<and> is_ancestor rs auth p sha then Some p else None) of
           Some p \<Rightarrow>
             bindE (changed_paths rs auth p sha) (\<lambda>delta.
               let retained = retained_observations (ma_workspace_id asset) (ma_id asset) (dl_touched delta) db
               in bindE (scan_paths (rs_limits rs) (rs_inputs rs) (ma_name asset) files (dl_current delta)) (\<lambda>(rescanned, n).
                    Inr \<lparr>co_observations = retained @ rescanned, co_scanned_files = n, co_retained = length retained,
                         co_touched = length (dl_touched delta), co_mode = IncrementalScan\<rparr>))
         | None \<Rightarrow>
             bindE (scan_checkout (rs_limits rs) (rs_inputs rs) (ma_name asset) files) (\<lambda>(obs, n).
               Inr \<lparr>co_observations = obs, co_scanned_files = n, co_retained = 0, co_touched = 0, co_mode = FullScan\<rparr>))"

text \<open>\<open>env 0\<close> and \<open>env 1\<close> are what others commit while the credential is used, \<open>env 2\<close> while Git runs and
  the files are read, \<open>env 3\<close> between the reading and the writing of the provenance; \<open>clock 0\<close> and
  \<open>clock 1\<close> are the readings of the clock for the credential and for the provenance.\<close>

definition scan_repository ::
  "repository_scanner \<Rightarrow> (nat \<Rightarrow> 'x repository_db_scheme \<Rightarrow> 'x repository_db_scheme) \<Rightarrow> managed_asset \<Rightarrow> string \<Rightarrow>
   (nat \<Rightarrow> time) \<Rightarrow> 'x repository_db_scheme \<Rightarrow> (crypto_observation list \<times> scan_provenance, 'x repository_db_scheme) outcome" where
  "scan_repository rs env asset job clock db =
     (if strip job = [] then (Inl (RuntimeError ''scan_job_id is required for repository scans''), db)
      else case bindE (get_configuration (ma_workspace_id asset) (ma_id asset) db) (\<lambda>config.
                  bindE (validate_repository_url rs (rc_repository_url config)) (\<lambda>_.
                  bindE (validate_ref (rc_ref config)) (\<lambda>_. Inr config))) of
        Inl e \<Rightarrow> (Inl e, db)
      | Inr config \<Rightarrow>
          (case credential_material rs env config (clock 0) db of
             (Inl e, db1) \<Rightarrow> (Inl e, db1)
           | (Inr auth, db1) \<Rightarrow>
               (case last_successful_scan (ma_workspace_id asset) (ma_id asset) db1 of
                  Inl e \<Rightarrow> (Inl e, db1)
                | Inr previous \<Rightarrow>
                    let db2 = env 2 db1;
                        previous_sha = map_option sp_commit_sha previous
                    in case bindE (fetch_commit rs auth (rc_repository_url config) (rc_ref config)) (\<lambda>sha.
                              bindE (collect rs auth asset previous_sha sha db2) (\<lambda>c.
                                bindE (validate_provenance \<lparr>sp_scan_job_id = job, sp_workspace_id = ma_workspace_id asset,
                                   sp_asset_id = ma_id asset, sp_repository_url = rc_repository_url config, sp_ref = rc_ref config,
                                   sp_commit_sha = sha, sp_previous_commit_sha = previous_sha, sp_scan_mode = co_mode c,
                                   sp_changed_paths = int (co_touched c), sp_scanned_files = int (co_scanned_files c),
                                   sp_retained_observations = int (co_retained c), sp_collected_at = clock 1\<rparr>)
                                  (\<lambda>p. Inr (map (\<lambda>x. x\<lparr>ob_asset_type := ARepository\<rparr>) (co_observations c), p)))) of
                         Inl e \<Rightarrow> (Inl e, db2)
                       | Inr (observations, provenance) \<Rightarrow>
                           (case record_scan_provenance (env 3) provenance db2 of
                              (Inl e, db3) \<Rightarrow> (Inl e, db3)
                            | (Inr _, db3) \<Rightarrow> (Inr (observations, provenance), db3)))))"

end
