(* ===== verification/SourceDetection.thy ===== *)
theory SourceDetection
  imports SourceScanner
begin

text \<open>
  What the source scanner promises: it reports every match once and nothing else, it finds the
  whole-word spellings of the detectors with boundaries, its observations agree with the knowledge base, and it misses a key size
  that is written without a separator and is not in its list.
\<close>

section \<open>The matcher\<close>

text \<open>Texts that a pattern matches wherever they stand; \<open>Wb\<close> is left out.\<close>

fun lang :: "re \<Rightarrow> string list" where
  "lang Eps = [[]]"
| "lang (Chr c) = [[c]]"
| "lang (Cls cs) = map (\<lambda>c. [c]) cs"
| "lang (Seq a b) = concat (map (\<lambda>x. map (\<lambda>y. x @ y) (lang b)) (lang a))"
| "lang (Alt a b) = lang a @ lang b"
| "lang (Opt a) = lang a @ [[]]"
| "lang Spaces = [[]]"
| "lang Wb = []"
| "lang (Grp a) = lang a"

abbreviation same_text :: "bool \<Rightarrow> string \<Rightarrow> string \<Rightarrow> bool" where
  "same_text ic \<equiv> list_all2 (same_char ic)"

lemma same_char_refl [simp]: "same_char ic c c"
  by (simp add: same_char_def)

lemma to_lower_upper: "is_upper d \<Longrightarrow> is_lower (to_lower d)"
  by (simp add: to_lower_def is_upper_def is_lower_def)

lemma same_char_fixed:
  assumes "same_char ic c d" "\<not> is_upper c" "\<not> is_lower c"
  shows "d = c"
proof (cases "is_upper d")
  case True
  with assms to_lower_upper [OF True] show ?thesis by (auto simp: same_char_def to_lower_def split: if_splits)
next
  case False
  with assms show ?thesis by (auto simp: same_char_def to_lower_def split: if_splits)
qed

lemma same_text_refl [simp]: "same_text ic w w"
  by (simp add: list_all2_refl)

lemma runs_lang:
  "w \<in> set (lang r) \<Longrightarrow> same_text ic w w' \<Longrightarrow>
     \<exists>h. (length pre + length w', h) \<in> set (runs ic (pre @ w' @ post) r (length pre) g)"
proof (induction r arbitrary: w w' pre post g)
  case (Cls cs)
  then show ?case by (auto simp: list_all2_Cons1 list_ex_iff nth_append) blast
next
  case (Seq a b)
  from Seq.prems(1) obtain x y where w: "w = x @ y" "x \<in> set (lang a)" "y \<in> set (lang b)" by auto
  with Seq.prems(2) obtain x' y' where w': "w' = x' @ y'" "same_text ic x x'" "same_text ic y y'"
    by (auto simp: list_all2_append1)
  obtain h where h: "(length pre + length x', h) \<in> set (runs ic (pre @ x' @ (y' @ post)) a (length pre) g)"
    using Seq.IH(1) [OF w(2) w'(2)] by blast
  obtain h' where "(length (pre @ x') + length y', h') \<in> set (runs ic ((pre @ x') @ y' @ post) b (length (pre @ x')) h)"
    using Seq.IH(2) [OF w(3) w'(3)] by blast
  then have "(length pre + length w', h') \<in> set (runs ic (pre @ w' @ post) b (length pre + length x') h)"
    by (simp add: w'(1) add.assoc)
  moreover have "(length pre + length x', h) \<in> set (runs ic (pre @ w' @ post) a (length pre) g)"
    using h by (simp add: w'(1))
  ultimately show ?case by auto
next
  case (Grp a)
  then show ?case by force
next
  case Spaces
  then have "w' = []" by simp
  then show ?case by (intro exI [of _ g]) (cases "takeWhile is_space post"; auto)
next
  case (Alt a b)
  from Alt.prems(1) consider "w \<in> set (lang a)" | "w \<in> set (lang b)" by auto
  then show ?case
  proof cases
    case 1
    from Alt.IH(1) [OF this Alt.prems(2), of pre post g] show ?thesis by auto
  next
    case 2
    from Alt.IH(2) [OF this Alt.prems(2), of pre post g] show ?thesis by auto
  qed
next
  case (Opt a)
  from Opt.prems(1) consider "w \<in> set (lang a)" | "w = []" by auto
  then show ?case
  proof cases
    case 1
    from Opt.IH [OF this Opt.prems(2), of pre post g] show ?thesis by auto
  next
    case 2
    with Opt.prems(2) show ?thesis by auto
  qed
qed (auto simp: list_all2_Cons1 nth_append)

lemma find_from_complete:
  "match_at ic r s k \<noteq> None \<Longrightarrow> i \<le> k \<Longrightarrow> k \<le> length s \<Longrightarrow> find_from ic r s i \<noteq> []"
proof (induction ic r s i rule: find_from.induct)
  case (1 ic r s i)
  show ?case
  proof (cases "match_at ic r s i")
    case None
    with 1(3) 1(4) have "Suc i \<le> k" by (cases "i = k") auto
    with 1 None show ?thesis by (simp add: find_from.simps [of ic r s i])
  next
    case (Some m)
    with 1(4,5) show ?thesis by (cases m) (simp add: find_from.simps [of ic r s i])
  qed
qed

lemma find_from_sound: "(i', j, g) \<in> set (find_from ic r s i) \<Longrightarrow> i' \<le> length s \<and> (j, g) \<in> set (runs ic s r i' None)"
proof (induction ic r s i rule: find_from.induct)
  case (1 ic r s i)
  then show ?case
    by (subst (asm) (3) find_from.simps)
      (auto simp: match_at_def split: if_splits list.splits option.splits)
qed

lemma match_at_run: "m \<in> set (runs ic s r i None) \<Longrightarrow> match_at ic r s i \<noteq> None"
  by (auto simp: match_at_def split: list.splits)

section \<open>Every match is reported once\<close>

definition observation_key :: "crypto_observation \<Rightarrow> fingerprint" where
  "observation_key x = (case ev_line (ob_evidence x) of None \<Rightarrow> 0 | Some n \<Rightarrow> n, ob_family x, ob_key_size x)"

definition line_hits :: "int \<Rightarrow> string \<Rightarrow> fingerprint list" where
  "line_hits n line =
     (if import_only line then []
      else concat (map (\<lambda>d. map (\<lambda>(i, j, g). (n, normalize_family (dt_family d), key_size_match d line g))
             (finditer (dt_ignore_case d) (dt_pattern d) line)) DETECTORS))"

definition text_hits :: "string \<Rightarrow> fingerprint list" where
  "text_hits text = concat (map (\<lambda>(n, line). line_hits (int (Suc n)) line) (enumerate 0 (splitlines [] text)))"

text \<open>The first of equal elements stays.\<close>

definition first_occurrences :: "'a list \<Rightarrow> 'a list" where
  "first_occurrences xs = rev (remdups (rev xs))"

lemma set_first_occurrences [simp]: "set (first_occurrences xs) = set xs"
  by (simp add: first_occurrences_def)

lemma distinct_first_occurrences [simp]: "distinct (first_occurrences xs)"
  by (simp add: first_occurrences_def)

lemma first_occurrences_snoc:
  "first_occurrences (xs @ [x]) = (if x \<in> set xs then first_occurrences xs else first_occurrences xs @ [x])"
  by (simp add: first_occurrences_def)

lemma key_observed [simp]: "observation_key (observed_at inp n line d fp) = fp"
  by (cases fp) (simp add: observation_key_def observed_at_def)

definition tallied :: "fingerprint list \<Rightarrow> scan_state \<Rightarrow> bool" where
  "tallied hits st \<longleftrightarrow> fst st = first_occurrences hits \<and> map observation_key (snd st) = first_occurrences hits"

lemma scanned_matches:
  "tallied hits st \<Longrightarrow>
     tallied (hits @ map (\<lambda>(i, j, g). (n, normalize_family (dt_family d), key_size_match d line g)) ms)
       (scan_matches inp n line d ms st)"
proof (induction inp n line d ms st arbitrary: hits rule: scan_matches.induct)
  case (2 inp n line d i j g ms seen obs)
  let ?fp = "(n, normalize_family (dt_family d), key_size_match d line g)"
  have "tallied (hits @ [?fp]) (if ?fp \<in> set seen then (seen, obs) else (seen @ [?fp], obs @ [observed_at inp (length obs) line d ?fp]))"
    using 2(2) by (auto simp: tallied_def first_occurrences_snoc)
  from 2(1) [OF refl this] show ?case by (simp add: Let_def)
qed simp

lemma scanned_detectors:
  "tallied hits st \<Longrightarrow>
     tallied (hits @ concat (map (\<lambda>d. map (\<lambda>(i, j, g). (n, normalize_family (dt_family d), key_size_match d line g))
         (finditer (dt_ignore_case d) (dt_pattern d) line)) ds))
       (scan_detectors inp n line ds st)"
proof (induction inp n line ds st arbitrary: hits rule: scan_detectors.induct)
  case (2 inp n line d ds st)
  from 2(1) [OF scanned_matches [OF 2(2)]] show ?case by simp
qed simp

lemma scanned_lines:
  "tallied hits st \<Longrightarrow> n = int (Suc k) \<Longrightarrow>
     tallied (hits @ concat (map (\<lambda>(i, line). line_hits (int (Suc i)) line) (enumerate k lines))) (scan_lines inp n lines st)"
proof (induction inp n lines st arbitrary: hits k rule: scan_lines.induct)
  case (2 inp n line lines st)
  have "tallied (hits @ line_hits n line) (if import_only line then st else scan_detectors inp n line DETECTORS st)"
    using scanned_detectors [OF 2(2)] 2(2) by (simp add: line_hits_def)
  from 2(1) [OF this, of "Suc k"] show ?case unfolding scan_lines.simps using 2(3) by simp
qed simp

lemma scan_keys: "map observation_key (scan_text inp text) = first_occurrences (text_hits text)"
proof -
  have "tallied (text_hits text) (scan_lines inp 1 (splitlines [] text) ([], []))"
    using scanned_lines [of "[]" "([], [])" 1 0] by (simp add: tallied_def first_occurrences_def text_hits_def)
  then show ?thesis by (simp add: tallied_def scan_text_def)
qed

text \<open>
  C33. A scan reports every match once and nothing else. The observations of a text are, in this order,
  the first occurrences among all matches of all detectors on the lines that are not mere imports,
  where matches with the same line, family and key size count as equal.
\<close>

theorem scan_reports_each_match_once:
  "map observation_key (scan_text inp text) = first_occurrences (text_hits text) \<and>
   distinct (map observation_key (scan_text inp text)) \<and>
   observation_key ` set (scan_text inp text) = set (text_hits text)"
proof -
  have "observation_key ` set (scan_text inp text) = set (text_hits text)"
    using arg_cong [OF scan_keys, of set] by simp
  then show ?thesis by (simp only: scan_keys distinct_first_occurrences simp_thms)
qed

section \<open>Whole words are found\<close>

lemma boundary_left:
  assumes "pre = [] \<or> \<not> word_char (last pre)" "w \<noteq> []" "word_char (hd w)"
  shows "boundary (pre @ w @ post) (length pre)"
proof -
  have "word_at (pre @ w @ post) (length pre)" using assms(2,3) by (simp add: word_at_def nth_append hd_conv_nth)
  moreover have "\<not> word_at (pre @ w @ post) (length pre - 1)" if "0 < length pre"
    using assms(1) that by (auto simp: word_at_def nth_append last_conv_nth)
  ultimately show ?thesis by (auto simp: boundary_def)
qed

lemma boundary_right:
  assumes "post = [] \<or> \<not> word_char (hd post)" "w \<noteq> []" "word_char (last w)"
  shows "boundary (pre @ w @ post) (length pre + length w)"
proof -
  have "word_at (pre @ w @ post) (length pre + length w - 1)"
    using assms(2,3) by (cases w rule: rev_cases) (auto simp: word_at_def nth_append)
  moreover have "\<not> word_at (pre @ w @ post) (length pre + length w)"
    using assms(1) by (cases post) (auto simp: word_at_def nth_append)
  ultimately show ?thesis using assms(2) by (simp add: boundary_def)
qed

lemma whole_word_found:
  assumes "w \<in> set (lang body)" "same_text ic w w'" "w' \<noteq> []" "word_char (hd w')" "word_char (last w')"
    and "pre = [] \<or> \<not> word_char (last pre)" "post = [] \<or> \<not> word_char (hd post)"
  shows "finditer ic (whole_word body) (pre @ w' @ post) \<noteq> []"
proof -
  let ?s = "pre @ w' @ post"
  obtain h where "(length pre + length w', h) \<in> set (runs ic ?s body (length pre) None)"
    using runs_lang [OF assms(1,2)] by blast
  then have "(length pre + length w', h) \<in> set (runs ic ?s (whole_word body) (length pre) None)"
    using boundary_left [OF assms(6,3,4)] boundary_right [OF assms(7,3,5)] by (force simp: whole_word_def)
  then have "match_at ic (whole_word body) ?s (length pre) \<noteq> None" by (rule match_at_run)
  then show ?thesis unfolding finditer_def by (rule find_from_complete) simp_all
qed

lemma hit_reported:
  assumes "n < length (splitlines [] text)" "\<not> import_only (splitlines [] text ! n)" "d \<in> set DETECTORS"
    and "finditer (dt_ignore_case d) (dt_pattern d) (splitlines [] text ! n) \<noteq> []"
  shows "\<exists>x \<in> set (scan_text inp text). ev_line (ob_evidence x) = Some (int (Suc n)) \<and> ob_family x = normalize_family (dt_family d)"
proof -
  let ?line = "splitlines [] text ! n"
  from assms(4) obtain i j g where m: "(i, j, g) \<in> set (finditer (dt_ignore_case d) (dt_pattern d) ?line)"
    by (cases "finditer (dt_ignore_case d) (dt_pattern d) ?line") auto
  let ?fp = "(int (Suc n), normalize_family (dt_family d), key_size_match d ?line g)"
  have "?fp \<in> set (line_hits (int (Suc n)) ?line)" using assms(2,3) m by (force simp: line_hits_def)
  moreover have "(n, ?line) \<in> set (enumerate 0 (splitlines [] text))" using assms(1) by (simp add: in_set_enumerate_eq)
  ultimately have "?fp \<in> set (text_hits text)" by (force simp: text_hits_def)
  moreover have "observation_key ` set (scan_text inp text) = set (text_hits text)"
    using arg_cong [OF scan_keys, of set] by simp
  ultimately have "?fp \<in> observation_key ` set (scan_text inp text)" by simp
  then obtain x where x: "x \<in> set (scan_text inp text)" "observation_key x = ?fp" by (rule imageE) simp
  from x(2) have "ev_line (ob_evidence x) = Some (int (Suc n)) \<and> ob_family x = normalize_family (dt_family d)"
    by (cases "ev_line (ob_evidence x)") (simp_all add: observation_key_def)
  with x(1) show ?thesis by (rule bexI [rotated])
qed

text \<open>
  No whole-word spelling is overlooked. For a detector whose pattern is enclosed in two word boundaries
  (all but that of MD5, which wants a parenthesis), every spelling that the pattern allows without
  looking at its surroundings, in any case if the detector ignores case, is reported for its line
  wherever it stands in the line, provided that nothing that counts as part of a word touches it and the
  line is not a mere import. The boundary inside the pattern for DH keeps that name out of this statement.
\<close>

lemma whole_words_are_found:
  assumes "d \<in> set DETECTORS" "dt_pattern d = whole_word body" "w \<in> set (lang body)" "same_text (dt_ignore_case d) w w'"
    and "w' \<noteq> []" "word_char (hd w')" "word_char (last w')"
    and "n < length (splitlines [] text)" "splitlines [] text ! n = pre @ w' @ post" "\<not> import_only (pre @ w' @ post)"
    and "pre = [] \<or> \<not> word_char (last pre)" "post = [] \<or> \<not> word_char (hd post)"
  shows "\<exists>x \<in> set (scan_text inp text). ev_line (ob_evidence x) = Some (int (Suc n)) \<and> ob_family x = normalize_family (dt_family d)"
proof (rule hit_reported [OF assms(8)])
  show "\<not> import_only (splitlines [] text ! n)" using assms(9,10) by simp
  show "d \<in> set DETECTORS" by (rule assms(1))
  show "finditer (dt_ignore_case d) (dt_pattern d) (splitlines [] text ! n) \<noteq> []"
    unfolding assms(2,9) by (rule whole_word_found [OF assms(3-7,11,12)])
qed

section \<open>Observations agree with the knowledge base\<close>

definition detected :: "scan_input \<Rightarrow> int \<Rightarrow> string \<Rightarrow> detector \<Rightarrow> crypto_observation \<Rightarrow> bool" where
  "detected inp n line d x \<longleftrightarrow>
     (\<exists>c i j g. (i, j, g) \<in> set (finditer (dt_ignore_case d) (dt_pattern d) line) \<and>
        x = observed_at inp c line d (n, normalize_family (dt_family d), key_size_match d line g))"

lemma detectedI:
  "(i, j, g) \<in> set (finditer (dt_ignore_case d) (dt_pattern d) line) \<Longrightarrow>
     detected inp n line d (observed_at inp c line d (n, normalize_family (dt_family d), key_size_match d line g))"
  unfolding detected_def by blast

lemma matched_observations:
  "x \<in> set (snd (scan_matches inp n line d ms st)) \<Longrightarrow> set ms \<subseteq> set (finditer (dt_ignore_case d) (dt_pattern d) line) \<Longrightarrow>
     x \<in> set (snd st) \<or> detected inp n line d x"
proof (induction inp n line d ms st rule: scan_matches.induct)
  case (2 inp n line d i j g ms seen obs)
  from 2(3) have "set ms \<subseteq> set (finditer (dt_ignore_case d) (dt_pattern d) line)" by simp
  from 2(1) [OF refl 2(2) [unfolded scan_matches.simps Let_def] this] 2(3) show ?case
    using detectedI [of i j g d line inp n "length obs"] by (auto split: if_splits)
qed simp

lemma detected_observations:
  "x \<in> set (snd (scan_detectors inp n line ds st)) \<Longrightarrow> x \<in> set (snd st) \<or> (\<exists>d \<in> set ds. detected inp n line d x)"
proof (induction inp n line ds st rule: scan_detectors.induct)
  case (2 inp n line d ds st)
  from 2(1) [OF 2(2) [unfolded scan_detectors.simps]] matched_observations [OF _ subset_refl, of x inp n line d st]
  show ?case by auto
qed simp

definition reported_from :: "scan_input \<Rightarrow> int \<Rightarrow> string \<Rightarrow> crypto_observation \<Rightarrow> bool" where
  "reported_from inp n line x \<longleftrightarrow> \<not> import_only line \<and> (\<exists>d \<in> set DETECTORS. detected inp n line d x)"

lemma line_observations:
  "x \<in> set (snd (scan_lines inp n lines st)) \<Longrightarrow> x \<in> set (snd st) \<or>
     (\<exists>m < length lines. reported_from inp (n + int m) (lines ! m) x)"
proof (induction inp n lines st rule: scan_lines.induct)
  case (2 inp n line lines st)
  from 2(1) [OF 2(2) [unfolded scan_lines.simps]] consider
      "x \<in> set (snd (if import_only line then st else scan_detectors inp n line DETECTORS st))"
    | m where "m < length lines" "reported_from inp (n + 1 + int m) (lines ! m) x" by blast
  then show ?case
  proof cases
    case 1
    then have "x \<in> set (snd st) \<or> reported_from inp n line x"
      using detected_observations [of x inp n line DETECTORS st] unfolding reported_from_def by (cases "import_only line") auto
    then show ?thesis
    proof
      assume "reported_from inp n line x"
      then show ?thesis by (intro disjI2 exI [of _ 0]) simp
    qed simp
  next
    case 2
    then show ?thesis by (intro disjI2 exI [of _ "Suc m"]) (simp add: add.assoc)
  qed
qed simp

lemma scanned_from:
  "x \<in> set (scan_text inp text) \<Longrightarrow> \<exists>m < length (splitlines [] text). reported_from inp (int (Suc m)) (splitlines [] text ! m) x"
  using line_observations [of x inp 1 "splitlines [] text" "([], [])"] by (auto simp: scan_text_def)

lemma runs_lit:
  "(j, h) \<in> set (runs ic s (lit w) i g) \<Longrightarrow>
     h = g \<and> j = i + length w \<and> same_text ic w (take (length w) (drop i s))"
proof (induction w arbitrary: i rule: lit.induct)
  case (2 c)
  then show ?case by (auto simp: take_Suc_conv_app_nth split: if_splits)
next
  case (3 c d cs)
  then have i: "i < length s" "same_char ic c (s ! i)" and rest: "(j, h) \<in> set (runs ic s (lit (d # cs)) (Suc i) g)"
    by (auto split: if_splits)
  have "take (length (c # d # cs)) (drop i s) = s ! i # take (length (d # cs)) (drop (Suc i) s)"
    using i(1) by (simp add: Cons_nth_drop_Suc [symmetric])
  with 3(1) [OF rest] i(2) show ?case by simp
qed simp

lemma runs_alts:
  "ws \<noteq> [] \<Longrightarrow> (j, h) \<in> set (runs ic s (alts (map lit ws)) i g) \<Longrightarrow> \<exists>w \<in> set ws. (j, h) \<in> set (runs ic s (lit w) i g)"
proof (induction ws)
  case (Cons w ws)
  then show ?case by (cases ws) auto
qed simp

lemma runs_Opt: "(j, h) \<in> set (runs ic s (Opt a) i g) \<longleftrightarrow> (j, h) \<in> set (runs ic s a i g) \<or> j = i \<and> h = g"
  by auto

lemma runs_Grp: "(j, h) \<in> set (runs ic s (Grp a) i g) \<longleftrightarrow> (\<exists>h'. (j, h') \<in> set (runs ic s a i g)) \<and> h = Some (i, j)"
  by force

lemma runs_Seq:
  "(j, h) \<in> set (runs ic s (Seq a b) i g) \<longleftrightarrow> (\<exists>m h1. (m, h1) \<in> set (runs ic s a i g) \<and> (j, h) \<in> set (runs ic s b m h1))"
  by auto

text \<open>A sized match is the bare name, or the name, at most one separator and a listed size.\<close>

lemma runs_sized:
  assumes "(j, h) \<in> set (runs ic s (sized name sizes) i g)" "sizes \<noteq> []"
  shows "same_text ic name (take (length name) (drop i s)) \<and>
    (h = g \<and> j = i + length name \<or>
     (\<exists>w \<in> set sizes. \<exists>k. (k = i + length name \<or> k = Suc (i + length name) \<and> k \<le> length s \<and> s ! (i + length name) \<in> set ''-_ '') \<and>
        h = Some (k, j) \<and> j = k + length w \<and> same_text ic w (take (length w) (drop k s))))"
proof -
  let ?o = "Opt (Seq (Opt (Cls ''-_ '')) (Grp (alts (map lit sizes))))"
  from assms(1) obtain m h1 where m: "(m, h1) \<in> set (runs ic s (lit name) i g)" "(j, h) \<in> set (runs ic s ?o m h1)"
    unfolding sized_def runs_Seq by blast
  from runs_lit [OF m(1)] have name: "h1 = g" "m = i + length name" "same_text ic name (take (length name) (drop i s))" by simp_all
  from m(2) consider "j = m" "h = h1"
    | k g' h' where "(k, g') \<in> set (runs ic s (Opt (Cls ''-_ '')) m h1)" "(j, h') \<in> set (runs ic s (alts (map lit sizes)) k g')" "h = Some (k, j)"
    unfolding runs_Opt [of j h] runs_Seq runs_Grp by blast
  then show ?thesis
  proof cases
    case 1
    with name show ?thesis by simp
  next
    case 2
    from runs_alts [OF assms(2) 2(2)] obtain w where w: "w \<in> set sizes" "(j, h') \<in> set (runs ic s (lit w) k g')" by blast
    have "k = m \<or> k = Suc m \<and> k \<le> length s \<and> s ! m \<in> set ''-_ ''"
      using 2(1) by (auto dest!: same_char_fixed simp: is_upper_def is_lower_def code_of_def split: if_splits)
    with runs_lit [OF w(2)] w(1) 2(3) name show ?thesis by (rule_tac conjI, simp, rule_tac disjI2, rule_tac bexI [of _ w], rule_tac exI [of _ k], simp_all)
  qed
qed

definition key_sizes :: "string \<Rightarrow> string list" where
  "key_sizes family =
     (if family = ''AES'' then [''128'', ''192'', ''256'']
      else if family = ''RSA'' then [''1024'', ''2048'', ''3072'', ''4096'', ''8192''] else [])"

lemma detector_families:
  "map dt_family DETECTORS = [''MD5'', ''SHA-1'', ''SHA-256'', ''SHA-384'', ''SHA-512'', ''3DES'', ''RC4'', ''DES'', ''AES'', ''RSA'',
     ''ECDSA'', ''ECDH'', ''DH'', ''ChaCha20'', ''ML-KEM'', ''ML-DSA'', ''SLH-DSA'']"
  by (simp add: DETECTORS_def detector_of_def)

lemma detector_profiles: "set (map dt_family DETECTORS) \<subseteq> insert ''ChaCha20'' (set (map fst PROFILES))"
  unfolding detector_families by (simp add: PROFILES_def)

lemma chacha_profile: "get_profile ''ChaCha20'' \<noteq> None"
  by code_simp

lemma detectors_ok:
  assumes "d \<in> set DETECTORS"
  shows "get_profile (dt_family d) \<noteq> None" "0 < dt_confidence d \<and> dt_confidence d \<le> 1"
proof -
  have "dt_family d = ''ChaCha20'' \<or> dt_family d \<in> set (map fst PROFILES)" using detector_profiles assms by auto
  then show "get_profile (dt_family d) \<noteq> None"
  proof
    assume "dt_family d \<in> set (map fst PROFILES)"
    then obtain p where "map_of PROFILES (dt_family d) = Some p" by (metis map_of_eq_None_iff not_Some_eq set_map)
    then show ?thesis by (simp add: get_profile_key)
  qed (use chacha_profile in simp)
  show "0 < dt_confidence d \<and> dt_confidence d \<le> 1" using assms by (auto simp: DETECTORS_def detector_of_def)
qed

lemma sized_detectors:
  assumes "d \<in> set DETECTORS" "dt_sized d"
  shows "dt_pattern d = whole_word (sized (dt_family d) (key_sizes (dt_family d))) \<and> dt_ignore_case d \<and>
    normalize_family (dt_family d) = dt_family d \<and> (dt_family d = ''AES'' \<or> dt_family d = ''RSA'')"
proof -
  have "normalize_family ''AES'' = ''AES''" "normalize_family ''RSA'' = ''RSA''" by code_simp+
  with assms show ?thesis unfolding DETECTORS_def detector_of_def by (auto simp: key_sizes_def)
qed

lemma key_sizes_digits: "w \<in> set (key_sizes f) \<Longrightarrow> w \<noteq> [] \<and> list_all is_digit w \<and> digits_value 0 w \<noteq> 0"
  by (auto simp: key_sizes_def is_digit_def code_of_def split: if_splits)

lemma same_digits: "list_all is_digit w \<Longrightarrow> same_text ic w t \<Longrightarrow> t = w"
proof (induction w arbitrary: t)
  case (Cons c w)
  then obtain d t' where t: "t = d # t'" "same_char ic c d" "same_text ic w t'" by (auto simp: list_all2_Cons1)
  have "\<not> is_upper c" "\<not> is_lower c" using Cons.prems(1) by (auto simp: is_digit_def is_upper_def is_lower_def)
  with t Cons same_char_fixed show ?case by auto
qed simp

lemma whole_word_run:
  "(j, g) \<in> set (runs ic s (whole_word r) i g0) \<Longrightarrow> boundary s i \<and> boundary s j \<and> (j, g) \<in> set (runs ic s r i g0)"
  by (auto simp: whole_word_def split: if_splits)

lemma sized_key:
  assumes "(i, j, g) \<in> set (finditer ic (whole_word (sized name (key_sizes f))) line)" "key_sizes f \<noteq> []"
  shows "g = None \<and> j = i + length name \<or>
    (\<exists>w \<in> set (key_sizes f). \<exists>k. g = Some (k, k + length w) \<and> j = k + length w \<and> take (length w) (drop k line) = w \<and>
       (k = i + length name \<or> k = Suc (i + length name) \<and> line ! (i + length name) \<in> set ''-_ ''))"
proof -
  from find_from_sound [OF assms(1) [unfolded finditer_def]]
  have "(j, g) \<in> set (runs ic line (sized name (key_sizes f)) i None)" using whole_word_run by blast
  from runs_sized [OF this assms(2)] key_sizes_digits same_digits show ?thesis by blast
qed

lemma detected_key_size:
  assumes "d \<in> set DETECTORS" "(i, j, g) \<in> set (finditer (dt_ignore_case d) (dt_pattern d) line)"
  shows "key_size_match d line g \<in> insert None ((\<lambda>w. Some (digits_value 0 w)) ` set (key_sizes (normalize_family (dt_family d))))"
proof (cases "dt_sized d")
  case False
  then show ?thesis by (simp add: key_size_match_def split: option.splits)
next
  case True
  note d = sized_detectors [OF assms(1) True]
  then have "key_sizes (dt_family d) \<noteq> []" by (auto simp: key_sizes_def)
  from sized_key [OF assms(2) [unfolded d [THEN conjunct1]] this]
  consider "g = None" | w k where "w \<in> set (key_sizes (dt_family d))" "g = Some (k, k + length w)" "take (length w) (drop k line) = w"
    by blast
  then show ?thesis
  proof cases
    case 1
    then show ?thesis by (simp add: key_size_match_def)
  next
    case 2
    then have "key_size_match d line g \<in> {None, Some (digits_value 0 w)}" by (simp add: key_size_match_def)
    then show ?thesis using 2(1) d by auto
  qed
qed

text \<open>
  Observations are consistent with the text and the knowledge base. Every observation of a scan
  names a family in its normal form that has a profile, with the profile's primitive and a positive
  confidence of at most 1; its line number and snippet belong to a line of the text that is not a
  mere import; a key size is one of the listed sizes of AES or RSA and agrees with the parameter set.
\<close>

theorem observations_agree_with_knowledge_base:
  "\<forall>x \<in> set (scan_text inp text).
     (\<exists>p. get_profile (ob_family x) = Some p \<and> ob_primitive x = ap_primitive p) \<and>
     normalize_family (ob_family x) = ob_family x \<and> 0 < ob_confidence x \<and> ob_confidence x \<le> 1 \<and>
     (\<exists>n < length (splitlines [] text). ev_line (ob_evidence x) = Some (int (Suc n)) \<and> \<not> import_only (splitlines [] text ! n) \<and>
        ev_snippet (ob_evidence x) = Some (take 240 (strip (splitlines [] text ! n)))) \<and>
     ob_key_size x \<in> insert None ((\<lambda>w. Some (digits_value 0 w)) ` set (key_sizes (ob_family x))) \<and>
     ob_parameter_set x = map_option str_of_int (ob_key_size x)"
proof
  fix x assume "x \<in> set (scan_text inp text)"
  from scanned_from [OF this] obtain n where n: "n < length (splitlines [] text)" "reported_from inp (int (Suc n)) (splitlines [] text ! n) x"
    by blast
  let ?line = "splitlines [] text ! n"
  from n(2) obtain d c i j g where d: "d \<in> set DETECTORS" "(i, j, g) \<in> set (finditer (dt_ignore_case d) (dt_pattern d) ?line)"
    and imp: "\<not> import_only ?line"
    and x: "x = observed_at inp c ?line d (int (Suc n), normalize_family (dt_family d), key_size_match d ?line g)"
    unfolding reported_from_def detected_def by blast
  obtain p where p: "get_profile (dt_family d) = Some p" "0 < dt_confidence d" "dt_confidence d \<le> 1"
    using detectors_ok [OF d(1)] by auto
  have key: "ob_key_size x \<in> insert None ((\<lambda>w. Some (digits_value 0 w)) ` set (key_sizes (ob_family x)))"
    using detected_key_size [OF d] by (simp add: x observed_at_def)
  then have "ob_key_size x \<noteq> Some 0" using key_sizes_digits by auto
  then have "ob_parameter_set x = map_option str_of_int (ob_key_size x)"
    by (cases "key_size_match d ?line g") (simp_all add: x observed_at_def)
  moreover have "normalize_family (ob_family x) = ob_family x" "ob_primitive x = ap_primitive p" "get_profile (ob_family x) = Some p"
    "ob_confidence x = dt_confidence d" "ev_line (ob_evidence x) = Some (int (Suc n))" "ev_snippet (ob_evidence x) = Some (take 240 (strip ?line))"
    using p(1) by (simp_all add: x observed_at_def)
  ultimately show "(\<exists>p. get_profile (ob_family x) = Some p \<and> ob_primitive x = ap_primitive p) \<and>
     normalize_family (ob_family x) = ob_family x \<and> 0 < ob_confidence x \<and> ob_confidence x \<le> 1 \<and>
     (\<exists>n < length (splitlines [] text). ev_line (ob_evidence x) = Some (int (Suc n)) \<and> \<not> import_only (splitlines [] text ! n) \<and>
        ev_snippet (ob_evidence x) = Some (take 240 (strip (splitlines [] text ! n)))) \<and>
     ob_key_size x \<in> insert None ((\<lambda>w. Some (digits_value 0 w)) ` set (key_sizes (ob_family x))) \<and>
     ob_parameter_set x = map_option str_of_int (ob_key_size x)"
    using n(1) imp key p(2,3) by auto
qed

section \<open>Sizes that are not listed\<close>

lemma splitlines_plain: "list_all (\<lambda>c. \<not> line_break c) s \<Longrightarrow> acc @ s \<noteq> [] \<Longrightarrow> splitlines acc s = [acc @ s]"
  by (induction s arbitrary: acc) auto

lemma sized_detector_of:
  assumes "d \<in> set DETECTORS" "normalize_family (dt_family d) = f" "f = ''AES'' \<or> f = ''RSA''"
  shows "dt_family d = f \<and> dt_ignore_case d \<and> dt_pattern d = whole_word (sized f (key_sizes f))"
proof (cases "dt_sized d")
  case True
  from sized_detectors [OF assms(1) this] assms(2) show ?thesis by simp
next
  case False
  then have "dt_family d \<noteq> ''AES''" "dt_family d \<noteq> ''RSA''"
    using assms(1) by (auto simp: DETECTORS_def detector_of_def)
  moreover have "dt_family d = ''ChaCha20'' \<or> dt_family d \<in> set (map fst PROFILES)" using detector_profiles assms(1) by auto
  moreover have "normalize_family ''ChaCha20'' = ''CHACHA20''" by code_simp
  ultimately have False
  proof (elim disjE)
    assume "dt_family d \<in> set (map fst PROFILES)" "dt_family d \<noteq> ''AES''" "dt_family d \<noteq> ''RSA''"
    with profile_key_fixed [OF this(1)] assms(2,3) show False by simp
  qed (use assms(2,3) in auto)
  then show ?thesis ..
qed

lemma unlisted_match:
  assumes f: "f = ''AES'' \<or> f = ''RSA''" and ds: "list_all is_digit ds" "ds \<noteq> []" "ds \<notin> set (key_sizes f)"
    and sep: "sep = [] \<or> sep = ''-''"
    and m: "(i, j, g) \<in> set (finditer True (whole_word (sized f (key_sizes f))) (f @ sep @ ds))"
  shows "g = None \<and> sep = ''-''"
proof -
  let ?s = "f @ sep @ ds"
  have len: "length f = 3" using f by auto
  have sizes: "key_sizes f \<noteq> []" using f by (auto simp: key_sizes_def)
  from find_from_sound [OF m [unfolded finditer_def]]
  have run: "(j, g) \<in> set (runs True ?s (sized f (key_sizes f)) i None)" and b: "boundary ?s j"
    using whole_word_run by blast+
  have digit: "is_digit (ds ! n)" if "n < length ds" for n using ds(1) that by (simp add: list_all_length)
  have digit_char: "word_char (ds ! n)" if "n < length ds" for n using digit [OF that] by (simp add: word_char_def)
  have word: "word_at ?s n \<longleftrightarrow> n < length ?s" if "n \<ge> length f + length sep" for n
    using digit_char [of "n - (length f + length sep)"] that by (auto simp: word_at_def nth_append)
  have i0: "i = 0"
  proof (rule ccontr)
    assume "i \<noteq> 0"
    from runs_sized [OF run sizes] have same: "same_text True f (take (length f) (drop i ?s))" by blast
    from list_all2_lengthD [OF this] len have "i + 3 \<le> length ?s" unfolding length_take length_drop by linarith
    then have "take (length f) (drop i ?s) ! 0 = ?s ! i" by (subst nth_take) (simp_all only: len nth_drop, simp_all)
    with list_all2_nthD [OF same, of 0] len have first: "same_char True (f ! 0) (?s ! i)" by (simp only:)
    show False
    proof (cases "i < 3")
      case True
      with \<open>i \<noteq> 0\<close> have "i = 1 \<or> i = 2" by auto
      with first f show False by (auto simp: same_char_def to_lower_def is_upper_def code_of_def)
    next
      case False
      with \<open>i + 3 \<le> length ?s\<close> len have "?s ! i \<in> set (sep @ ds)" by (auto simp: nth_append)
      then have "\<not> is_upper (?s ! i) \<and> \<not> is_lower (?s ! i) \<and> ?s ! i \<noteq> f ! 0"
        using ds(1) sep f by (auto simp: list_all_iff is_digit_def is_upper_def is_lower_def code_of_def)
      with same_char_fixed [of True "?s ! i" "f ! 0"] first show False by (auto simp: same_char_def)
    qed
  qed
  note key = sized_key [OF m sizes, unfolded i0]
  have listed: False if w: "w \<in> set (key_sizes f)" "j = k + length w" "take (length w) (drop k ?s) = w"
      "k = 0 + length f \<or> k = Suc (0 + length f) \<and> ?s ! (0 + length f) \<in> set ''-_ ''" for w k
  proof -
    from key_sizes_digits [OF w(1)] have wd: "w \<noteq> []" "list_all is_digit w" by simp_all
    have k: "k = length f + length sep"
    proof (rule ccontr)
      assume k: "k \<noteq> length f + length sep"
      with w(4) sep consider "sep = []" "k = Suc (length f)" "?s ! length f \<in> set ''-_ ''" | "sep = ''-''" "k = length f" by auto
      then show False
      proof cases
        case 1
        with digit [of 0] ds(2) show False by (auto simp: nth_append is_digit_def code_of_def)
      next
        case 2
        with w(3) wd have "hd w = CHR ''-''" by (cases w) auto
        with wd show False by (cases w) (auto simp: is_digit_def code_of_def)
      qed
    qed
    with w(3) have pre: "take (length w) ds = w" by simp
    then have le: "length w \<le> length ds" by (metis length_take min.cobounded1 min.commute)
    have "word_at ?s (j - 1)" using word [of "j - 1"] w(2) k wd(1) le by (cases w) auto
    moreover have "0 < j" using w(2) wd(1) by simp
    ultimately have "\<not> word_at ?s j" using b by (simp add: boundary_def)
    with word [of j] w(2) k le have "length w = length ds" by auto
    with pre have "w = ds" by simp
    with w(1) ds(3) show False by simp
  qed
  have "g = None \<and> j = length f" using key listed by (metis add_0)
  moreover have "sep = ''-''"
  proof (rule ccontr)
    assume "sep \<noteq> ''-''"
    with sep have "sep = []" by simp
    then have "word_at ?s (length f)" using word [of "length f"] ds(2) by simp
    moreover have "word_at ?s (length f - 1)" using f by (auto simp: word_at_def word_char_def is_upper_def code_of_def)
    moreover have "boundary ?s (length f)" using b \<open>g = None \<and> j = length f\<close> by simp
    ultimately show False using len unfolding boundary_def by simp
  qed
  ultimately show ?thesis by simp
qed

lemma sized_text_facts:
  assumes "f = ''AES'' \<or> f = ''RSA''" "list_all is_digit ds" "sep = [] \<or> sep = ''-''"
  shows "splitlines [] (f @ sep @ ds) = [f @ sep @ ds]" "\<not> import_only (f @ sep @ ds)"
proof -
  have d: "\<not> line_break c \<and> c \<noteq> CHR ''m''" if "c \<in> set (f @ sep @ ds)" for c
    using that assms by (auto simp: list_all_iff line_break_def is_digit_def code_of_def)
  then have "list_all (\<lambda>c. \<not> line_break c) (f @ sep @ ds)" by (auto simp: list_all_iff)
  moreover have "f @ sep @ ds \<noteq> []" using assms(1) by auto
  ultimately show "splitlines [] (f @ sep @ ds) = [f @ sep @ ds]" using splitlines_plain [of _ "[]"] by simp
  have "set p \<subseteq> set (f @ sep @ ds)" if "startswith (strip (f @ sep @ ds)) p" for p
  proof -
    have "set p \<subseteq> set (strip (f @ sep @ ds))" using that by (metis startswith_def set_take_subset)
    also have "\<dots> \<subseteq> set (f @ sep @ ds)" unfolding strip_def by (rule set_strip_by)
    finally show ?thesis .
  qed
  note sub = this
  have no_m: "CHR ''m'' \<notin> set (f @ sep @ ds)" using d by blast
  have m: "CHR ''m'' \<in> set ''import ''" "CHR ''m'' \<in> set ''from ''" by simp_all
  have "\<not> startswith (strip (f @ sep @ ds)) ''import ''" using sub m(1) no_m by blast
  moreover have "\<not> startswith (strip (f @ sep @ ds)) ''from ''" using sub m(2) no_m by blast
  ultimately show "\<not> import_only (f @ sep @ ds)" by (simp only: import_only_def Let_def simp_thms)
qed

text \<open>
  Key sizes outside the list are lost. A size of AES or RSA that is not in the pattern's list hides
  the algorithm altogether when it is written directly after the name, as in \<open>RSA512\<close>: the text is
  scanned without any observation of that family. With a dash in between, as in \<open>RSA-512\<close>, the
  algorithm is reported but without its key size, so the rules for short keys do not apply to it.
\<close>

theorem unlisted_key_sizes_are_lost:
  assumes "f = ''AES'' \<or> f = ''RSA''" "list_all is_digit ds" "ds \<noteq> []" "ds \<notin> set (key_sizes f)"
  shows "f \<notin> ob_family ` set (scan_text inp (f @ ds)) \<and> f \<in> ob_family ` set (scan_text inp (f @ ''-'' @ ds)) \<and>
    (\<forall>x \<in> set (scan_text inp (f @ ''-'' @ ds)). ob_family x = f \<longrightarrow> ob_key_size x = None)"
proof -
  have from_match: "sep = ''-'' \<and> ob_key_size x = None"
    if "x \<in> set (scan_text inp (f @ sep @ ds))" "ob_family x = f" "sep = [] \<or> sep = ''-''" for x sep
  proof -
    from scanned_from [OF that(1)] have "reported_from inp 1 (f @ sep @ ds) x"
      by (simp add: sized_text_facts [OF assms(1,2) that(3)])
    then obtain d c i j g where d: "d \<in> set DETECTORS" "(i, j, g) \<in> set (finditer (dt_ignore_case d) (dt_pattern d) (f @ sep @ ds))"
      and x: "x = observed_at inp c (f @ sep @ ds) d (1, normalize_family (dt_family d), key_size_match d (f @ sep @ ds) g)"
      unfolding reported_from_def detected_def by blast
    have "normalize_family (dt_family d) = f" using that(2) by (simp add: x observed_at_def)
    from sized_detector_of [OF d(1) this assms(1)] d(2)
    have "(i, j, g) \<in> set (finditer True (whole_word (sized f (key_sizes f))) (f @ sep @ ds))" by simp
    from unlisted_match [OF assms that(3) this] show ?thesis by (simp add: x observed_at_def key_size_match_def)
  qed
  obtain d where d: "d \<in> set DETECTORS" "dt_ignore_case d" "dt_pattern d = whole_word (sized f (key_sizes f))" "normalize_family (dt_family d) = f"
  proof -
    have "f \<in> set (map dt_family DETECTORS)" using assms(1) unfolding detector_families by auto
    then obtain d where d: "d \<in> set DETECTORS" "dt_family d = f" by auto
    moreover have "normalize_family ''AES'' = ''AES''" "normalize_family ''RSA'' = ''RSA''" by code_simp+
    ultimately show thesis using that sized_detector_of [OF d(1) _ assms(1)] assms(1) by auto
  qed
  let ?t = "f @ ''-'' @ ds"
  have "f \<in> set (lang (sized f (key_sizes f)))" using assms(1) by (auto simp: sized_def)
  from whole_word_found [OF this same_text_refl, where pre = "[]" and post = "''-'' @ ds"] assms(1)
  have "finditer True (whole_word (sized f (key_sizes f))) ?t \<noteq> []"
    by (auto simp: word_char_def latin_word_def is_upper_def is_lower_def is_digit_def code_of_def)
  then have "\<exists>x \<in> set (scan_text inp ?t). ev_line (ob_evidence x) = Some (int (Suc 0)) \<and> ob_family x = normalize_family (dt_family d)"
    using hit_reported [of 0 ?t d inp] sized_text_facts [OF assms(1,2), of "''-''"] d by simp
  then have "f \<in> ob_family ` set (scan_text inp ?t)" using d(4) by force
  moreover have "f \<notin> ob_family ` set (scan_text inp (f @ ds))" using from_match [where sep = "[]"] by fastforce
  ultimately show ?thesis using from_match [where sep = "''-''"] by blast
qed

section \<open>Instances\<close>

definition sample_input :: scan_input where
  "sample_input = \<lparr>si_asset_id = ''u'', si_ids = (\<lambda>n. replicate n CHR ''i''), si_clock = (\<lambda>n. int n), si_asset_name = ''demo'',
     si_locator = ''demo.py''\<rparr>"

definition sample_source :: string where
  "sample_source = ''import rsa'' @ [CHR 0x0A] @ ''key = (rsa_2048)''"

lemma sample_lines: "splitlines [] sample_source = [''import rsa'', ''key = (rsa_2048)'']"
  "map observation_key (scan_text sample_input sample_source) = [(2, ''RSA'', Some 2048)]"
  "\<not> import_only ''key = (rsa_2048)''"
  by code_simp+

lemma whole_words_instance:
  "''RSA'' \<in> ob_family ` set (scan_text sample_input sample_source)"
proof -
  obtain d where d: "d \<in> set DETECTORS" "dt_family d = ''RSA''"
  proof -
    have "''RSA'' \<in> set (map dt_family DETECTORS)" unfolding detector_families by simp
    then show thesis using that by auto
  qed
  have n: "normalize_family ''RSA'' = ''RSA''" by code_simp
  from sized_detector_of [OF d(1), of "''RSA''"] d(2) n
  have p: "dt_pattern d = whole_word (sized ''RSA'' (key_sizes ''RSA''))" "dt_ignore_case d" by simp_all
  have w: "''RSA_2048'' \<in> set (lang (sized ''RSA'' (key_sizes ''RSA'')))" by code_simp
  have same: "same_text True ''RSA_2048'' ''rsa_2048''" by code_simp
  have ends: "word_char (hd ''rsa_2048'')" "word_char (last ''rsa_2048'')" "\<not> word_char (last ''key = ('')" "\<not> word_char (hd '')'')"
    by code_simp+
  have "\<exists>x \<in> set (scan_text sample_input sample_source). ev_line (ob_evidence x) = Some (int (Suc 1)) \<and> ob_family x = normalize_family (dt_family d)"
    by (rule whole_words_are_found [OF d(1) p(1) w, where w' = "''rsa_2048''" and pre = "''key = (''" and post = "'')''"])
      (use p(2) same ends sample_lines in simp_all)
  then show ?thesis using d(2) n by force
qed

theorem observations_agree_with_knowledge_base_witness:
  "(\<lambda>x. map_option ap_primitive (get_profile (ob_family x)) = Some (ob_primitive x) \<and>
      ob_parameter_set x = map_option str_of_int (ob_key_size x)) ` set (scan_text sample_input sample_source) = {True}"
proof -
  have "scan_text sample_input sample_source \<noteq> []" using sample_lines(2) by auto
  then show ?thesis using observations_agree_with_knowledge_base [of sample_input sample_source]
    by (fastforce simp: image_def neq_Nil_conv)
qed

theorem unlisted_key_sizes_are_lost_witness:
  "''RSA'' \<notin> ob_family ` set (scan_text sample_input ''RSA512'') \<and> ''RSA'' \<in> ob_family ` set (scan_text sample_input ''RSA-512'')"
proof -
  have "list_all is_digit ''512''" by code_simp
  moreover have "''512'' \<notin> set (key_sizes ''RSA'')" by (simp add: key_sizes_def)
  ultimately show ?thesis using unlisted_key_sizes_are_lost [of "''RSA''" "''512''" sample_input] by simp
qed

end
