(* ===== verification/RepositoryDelta.thy ===== *)
theory RepositoryDelta
  imports RepositoryScanner SourceDetection RetentionSafety
begin

text \<open>
  What the repository scanner promises: the parser of Git's diff reads back what Git wrote and
  refuses unsafe paths; an incremental scan reports what a full scan of the same commit would; a
  scan of a job that has already recorded its provenance can never succeed again; and no command
  that a scan runs can be an option smuggled in as a ref.
\<close>

section \<open>The diff parser\<close>

datatype change = Kept string string | Removed string | Moved string string string

text \<open>\<open>git diff --name-status -z\<close>: a status and one path, or a status and two paths.\<close>

fun change_fields :: "change \<Rightarrow> string list" where
  "change_fields (Kept code p) = [code, p]"
| "change_fields (Removed p) = [''D'', p]"
| "change_fields (Moved code p q) = [code, p, q]"

fun change_paths :: "change \<Rightarrow> string list" where
  "change_paths (Kept code p) = [p]"
| "change_paths (Removed p) = [p]"
| "change_paths (Moved code p q) = [p, q]"

fun change_new :: "change \<Rightarrow> string list" where
  "change_new (Kept code p) = [p]"
| "change_new (Removed p) = []"
| "change_new (Moved code p q) = [q]"

fun change_code_ok :: "change \<Rightarrow> bool" where
  "change_code_ok (Kept code p) = (code \<noteq> [] \<and> hd code \<notin> set ''RCD'' \<and> CHR 0x00 \<notin> set code)"
| "change_code_ok (Removed p) = True"
| "change_code_ok (Moved code p q) = (code \<noteq> [] \<and> hd code \<in> set ''RC'' \<and> CHR 0x00 \<notin> set code)"

definition git_output :: "change list \<Rightarrow> string" where
  "git_output cs = concat (map (\<lambda>f. f @ [CHR 0x00]) (concat (map change_fields cs)))"

definition diff_path :: "string \<Rightarrow> bool" where
  "diff_path p = is_ok (safe_relative_path p)"

definition normal_path :: "string \<Rightarrow> string" where
  "normal_path p = as_posix (path_parts p)"

lemma safe_relative_path_eq: "safe_relative_path p = (if diff_path p then Inr (normal_path p) else Inl (RuntimeError ''git returned an unsafe repository path''))"
  by (simp add: diff_path_def safe_relative_path_def normal_path_def Let_def)

lemma set_add_path [simp]: "set (add_path p ps) = insert p (set ps)"
  by (auto simp: add_path_def)

lemma distinct_add_path [simp]: "distinct ps \<Longrightarrow> distinct (add_path p ps)"
  by (simp add: add_path_def)

lemma split_fields:
  "\<forall>f \<in> set fs. sep \<notin> set f \<Longrightarrow> split_on sep (concat (map (\<lambda>f. f @ [sep]) fs)) = fs @ [[]]"
  by (induction fs) (auto simp: split_on_append)

lemma diff_fields_output:
  assumes "\<forall>c \<in> set cs. change_code_ok c \<and> (\<forall>p \<in> set (change_paths c). CHR 0x00 \<notin> set p)"
  shows "diff_fields (git_output cs) = concat (map change_fields cs)"
proof -
  have "\<forall>f \<in> set (concat (map change_fields cs)). CHR 0x00 \<notin> set f"
  proof
    fix f assume "f \<in> set (concat (map change_fields cs))"
    then obtain c where "c \<in> set cs" "f \<in> set (change_fields c)" by auto
    with assms show "CHR 0x00 \<notin> set f" by (cases c) auto
  qed
  then show ?thesis by (simp add: diff_fields_def git_output_def split_fields Let_def)
qed

lemma parse_change:
  assumes "change_code_ok c"
  shows "parse_diff (change_fields c @ rest) d =
    (if \<forall>p \<in> set (change_paths c). diff_path p
     then parse_diff rest \<lparr>dl_touched = fold add_path (map normal_path (change_paths c)) (dl_touched d),
            dl_current = fold add_path (map normal_path (change_new c)) (dl_current d)\<rparr>
     else Inl (RuntimeError ''git returned an unsafe repository path''))"
  using assms by (cases c) (auto simp: safe_relative_path_eq)

definition delta_of :: "change list \<Rightarrow> repository_delta \<Rightarrow> repository_delta" where
  "delta_of cs d = \<lparr>dl_touched = fold add_path (map normal_path (concat (map change_paths cs))) (dl_touched d),
     dl_current = fold add_path (map normal_path (concat (map change_new cs))) (dl_current d)\<rparr>"

lemma parse_changes:
  assumes "\<forall>c \<in> set cs. change_code_ok c"
  shows "parse_diff (concat (map change_fields cs)) d =
    (if \<forall>c \<in> set cs. \<forall>p \<in> set (change_paths c). diff_path p then Inr (delta_of cs d)
     else Inl (RuntimeError ''git returned an unsafe repository path''))"
  using assms
proof (induction cs arbitrary: d)
  case Nil
  then show ?case by (simp add: delta_of_def)
next
  case (Cons c cs)
  then show ?case by (simp add: parse_change delta_of_def)
qed

lemma set_fold_add_path [simp]: "set (fold add_path ps qs) = set qs \<union> set ps"
  by (induction ps arbitrary: qs) auto

lemma distinct_fold_add_path [simp]: "distinct qs \<Longrightarrow> distinct (fold add_path ps qs)"
  by (induction ps arbitrary: qs) auto

text \<open>
  C32. The scanner understands Git's diff. Whatever list of changes Git reports in its
  zero-terminated format, the parser returns each touched path once, both names of a renamed or
  copied file, and as current paths exactly those that exist afterwards; if any path is absolute,
  empty or climbs with \<open>..\<close>, the whole diff is refused.
\<close>

theorem diff_round_trip:
  assumes "\<forall>c \<in> set cs. change_code_ok c \<and> (\<forall>p \<in> set (change_paths c). CHR 0x00 \<notin> set p)"
    and "rs_git rs (git_command [''diff'', ''--name-status'', ''-z'', previous, current, ''--'']) = GitExit 0 (git_output cs) err"
  shows "case changed_paths rs auth previous current of
      Inr d \<Rightarrow> list_all diff_path (concat (map change_paths cs)) \<and> distinct (dl_touched d) \<and> distinct (dl_current d) \<and>
        set (dl_touched d) = normal_path ` set (concat (map change_paths cs)) \<and>
        set (dl_current d) = normal_path ` set (concat (map change_new cs))
    | Inl e \<Rightarrow> e = RuntimeError ''git returned an unsafe repository path'' \<and> \<not> list_all diff_path (concat (map change_paths cs))"
proof -
  have "changed_paths rs auth previous current = parse_diff (concat (map change_fields cs)) \<lparr>dl_touched = [], dl_current = []\<rparr>"
    using assms by (simp add: changed_paths_def git_def diff_fields_output)
  then show ?thesis using assms(1) by (auto simp: parse_changes delta_of_def list_all_iff)
qed

section \<open>Incremental and full scans\<close>

text \<open>What an observation says, apart from identifiers, the asset and the time.\<close>

definition content_of :: "crypto_observation \<Rightarrow> crypto_observation" where
  "content_of x = x\<lparr>ob_id := [], ob_asset_id := [], ob_asset_name := [], ob_asset_type := ASource, ob_discovered_at := 0\<rparr>"

lemma content_observed:
  "si_locator inp = si_locator inp' \<Longrightarrow> content_of (observed_at inp n line d fp) = content_of (observed_at inp' m line d fp)"
  by (cases fp) (simp add: content_of_def observed_at_def)

definition same_state :: "scan_state \<Rightarrow> scan_state \<Rightarrow> bool" where
  "same_state st st' \<longleftrightarrow> fst st = fst st' \<and> map content_of (snd st) = map content_of (snd st')"

lemma same_matches:
  assumes "si_locator inp = si_locator inp'"
  shows "same_state st st' \<Longrightarrow> same_state (scan_matches inp n line d ms st) (scan_matches inp' n line d ms st')"
proof (induction ms arbitrary: st st')
  case (Cons m ms)
  obtain i j g where m: "m = (i, j, g)" by (cases m)
  obtain seen obs seen' obs' where st: "st = (seen, obs)" "st' = (seen', obs')" by (cases st, cases st')
  let ?fp = "(n, normalize_family (dt_family d), key_size_match d line g)"
  have "same_state (if ?fp \<in> set seen then (seen, obs) else (seen @ [?fp], obs @ [observed_at inp (length obs) line d ?fp]))
      (if ?fp \<in> set seen' then (seen', obs') else (seen' @ [?fp], obs' @ [observed_at inp' (length obs') line d ?fp]))"
    using Cons.prems content_observed [OF assms] by (auto simp: st same_state_def)
  from Cons.IH [OF this] show ?case by (simp add: m st Let_def)
qed simp

lemma same_detectors:
  assumes "si_locator inp = si_locator inp'"
  shows "same_state st st' \<Longrightarrow> same_state (scan_detectors inp n line ds st) (scan_detectors inp' n line ds st')"
  by (induction ds arbitrary: st st') (simp_all add: same_matches [OF assms])

lemma same_lines:
  assumes "si_locator inp = si_locator inp'"
  shows "same_state st st' \<Longrightarrow> same_state (scan_lines inp n lines st) (scan_lines inp' n lines st')"
  by (induction lines arbitrary: st st' n) (simp_all add: same_detectors [OF assms])

lemma content_scan:
  "si_locator inp = si_locator inp' \<Longrightarrow> map content_of (scan_text inp t) = map content_of (scan_text inp' t)"
  using same_lines [of inp inp' "([], [])" "([], [])" 1 "splitlines [] t"] by (simp add: same_state_def scan_text_def)

definition file_input :: "string \<Rightarrow> scan_input" where
  "file_input p = \<lparr>si_asset_id = [], si_ids = (\<lambda>_. []), si_clock = (\<lambda>_. 0), si_asset_name = [], si_locator = p\<rparr>"

text \<open>The files that a scan reads, and what it reports about a work tree.\<close>

definition readable :: "repository_limits \<Rightarrow> checkout \<Rightarrow> string \<Rightarrow> string option" where
  "readable l files p =
     (case (if supported_relative_path p then map_of files p else None) of
        Some (FileNode (Some sz) content) \<Rightarrow> if sz > rl_max_file_bytes l then None else content
      | _ \<Rightarrow> None)"

definition file_contents :: "repository_limits \<Rightarrow> checkout \<Rightarrow> string \<Rightarrow> crypto_observation set" where
  "file_contents l files p =
     (case readable l files p of None \<Rightarrow> {} | Some t \<Rightarrow> content_of ` set (scan_text (file_input p) t))"

definition tree_contents :: "repository_limits \<Rightarrow> checkout \<Rightarrow> crypto_observation set" where
  "tree_contents l files = (\<Union>p. file_contents l files p)"

lemma scan_contents:
  "content_of ` set (scan_text (inp\<lparr>si_asset_name := name, si_locator := p\<rparr>) t) = content_of ` set (scan_text (file_input p) t)"
  using arg_cong [OF content_scan [of "inp\<lparr>si_asset_name := name, si_locator := p\<rparr>" "file_input p" t], of set]
  by (simp add: file_input_def)

lemma read_paths_contents:
  "read_paths l inputs name files ps bytes n obs = Inr (obs', n') \<Longrightarrow>
     content_of ` set obs' = content_of ` set obs \<union> (\<Union>p \<in> set ps. file_contents l files p)"
proof (induction ps arbitrary: bytes n obs)
  case (Cons p rest)
  let ?node = "if supported_relative_path p then map_of files p else None"
  show ?case
  proof (cases "\<exists>sz c. ?node = Some (FileNode (Some sz) c)")
    case True
    then obtain sz c where node: "?node = Some (FileNode (Some sz) c)" by blast
    note run = Cons.prems [unfolded read_paths.simps node option.case node.case]
    have fc: "file_contents l files p = (case (if sz > rl_max_file_bytes l then None else c) of None \<Rightarrow> {}
        | Some t \<Rightarrow> content_of ` set (scan_text (file_input p) t))"
      unfolding file_contents_def readable_def node by simp
    show ?thesis
    proof (cases "sz > rl_max_file_bytes l")
      case True
      with run have "read_paths l inputs name files rest bytes n obs = Inr (obs', n')" by simp
      from Cons.IH [OF this] True fc show ?thesis by simp
    next
      case small: False
      show ?thesis
      proof (cases c)
        case None
        with run small have "read_paths l inputs name files rest (bytes + sz) n obs = Inr (obs', n')" by (simp split: if_splits)
        from Cons.IH [OF this] None fc small show ?thesis by simp
      next
        case (Some t)
        with run small have "read_paths l inputs name files rest (bytes + sz) (Suc n)
            (obs @ scan_text ((inputs n)\<lparr>si_asset_name := name, si_locator := p\<rparr>) t) = Inr (obs', n')" by (simp split: if_splits)
        from Cons.IH [OF this] Some fc small show ?thesis by (simp add: scan_contents image_Un Un_assoc)
      qed
    qed
  next
    case False
    then have "file_contents l files p = {}" by (auto simp: file_contents_def readable_def split: option.splits node.splits)
    moreover have "read_paths l inputs name files rest bytes n obs = Inr (obs', n')"
      using Cons.prems False unfolding read_paths.simps by (cases ?node rule: option.exhaust) (auto split: node.splits option.splits)
    ultimately show ?thesis using Cons.IH by simp
  qed
qed simp

lemma scan_paths_contents:
  "scan_paths l inputs name files ps = Inr (obs, n) \<Longrightarrow> content_of ` set obs = (\<Union>p \<in> set ps. file_contents l files p)"
  using read_paths_contents [of l inputs name files "sort (remdups ps)" 0 0 "[]" obs n]
  by (simp add: scan_paths_def Let_def split: if_splits)

lemma checkout_paths_set:
  "checkout_paths limit files ps = Inr ps' \<Longrightarrow>
     set ps' = set ps \<union> {p. \<exists>n. (p, n) \<in> set files \<and> file_node n \<and> supported_relative_path p}"
  by (induction limit files ps rule: checkout_paths.induct) (auto split: if_splits)

lemma scan_checkout_contents:
  assumes "scan_checkout l inputs name files = Inr (obs, n)"
  shows "content_of ` set obs = tree_contents l files"
proof -
  from assms obtain ps where ps: "checkout_paths (rl_max_files l) files [] = Inr ps" "scan_paths l inputs name files ps = Inr (obs, n)"
    by (auto simp: scan_checkout_def bindE_Inr)
  have "file_contents l files p = {}" if "p \<notin> set ps" for p
  proof (cases "supported_relative_path p")
    case True
    with that checkout_paths_set [OF ps(1)] have "\<not> (\<exists>n. (p, n) \<in> set files \<and> file_node n)" by auto
    then have "\<not> (\<exists>n. map_of files p = Some n \<and> file_node n)" by (meson map_of_SomeD)
    then show ?thesis by (auto simp: file_contents_def readable_def file_node_def split: option.splits node.splits)
  qed (simp add: file_contents_def readable_def)
  then have "tree_contents l files = (\<Union>p \<in> set ps. file_contents l files p)" by (auto simp: tree_contents_def)
  with scan_paths_contents [OF ps(2)] show ?thesis by simp
qed

lemma content_locator: "x \<in> file_contents l files p \<Longrightarrow> ev_locator (ob_evidence x) = Some p"
  by (auto simp: file_contents_def content_of_def file_input_def reported_from_def detected_def observed_at_def
      dest!: scanned_from split: option.splits)

text \<open>The observations of the active states of an asset.\<close>

definition active_observations :: "managed_asset \<Rightarrow> 'x continuous_db_scheme \<Rightarrow> crypto_observation list" where
  "active_observations asset db = map (\<lambda>s. fi_observation (os_finding_payload s))
     (filter (\<lambda>s. os_workspace_id s = ma_workspace_id asset \<and> os_asset_id s = ma_id asset \<and> os_active s) (observation_states db))"

lemma retained_contents:
  "content_of ` set (retained_observations (ma_workspace_id asset) (ma_id asset) touched db) =
     {x \<in> content_of ` set (active_observations asset db).
        case ev_locator (ob_evidence x) of None \<Rightarrow> True | Some p \<Rightarrow> p \<notin> set touched}"
  unfolding retained_observations_def active_observations_def [symmetric]
  by (auto simp: content_of_def split: option.splits)

text \<open>What \<open>git diff\<close> guarantees: paths it does not list are the same in both commits, and a path that
  it lists only as old is not a file of the new commit.\<close>

definition file_at :: "checkout \<Rightarrow> string \<Rightarrow> node option" where
  "file_at files p = (case map_of files p of Some DirNode \<Rightarrow> None | x \<Rightarrow> x)"

lemma file_contents_at: "file_at old p = file_at new p \<Longrightarrow> file_contents l old p = file_contents l new p"
  by (auto simp: file_at_def file_contents_def readable_def split: option.splits node.splits)

lemma file_contents_none: "file_at files p = None \<Longrightarrow> file_contents l files p = {}"
  by (auto simp: file_at_def file_contents_def readable_def split: option.splits node.splits)

definition diff_is_complete :: "checkout \<Rightarrow> checkout \<Rightarrow> repository_delta \<Rightarrow> bool" where
  "diff_is_complete old new d \<longleftrightarrow>
     (\<forall>p. p \<notin> set (dl_touched d) \<longrightarrow> file_at old p = file_at new p) \<and> set (dl_current d) \<subseteq> set (dl_touched d) \<and>
     (\<forall>p \<in> set (dl_touched d) - set (dl_current d). file_at new p = None)"

text \<open>
  C31. Incremental scans are sound and complete. If the active observations of an asset say what a full
  scan of the previous commit says, then an incremental scan of a later commit says exactly what a full
  scan of that commit says, so nothing is lost and nothing stale is kept, whatever the changes between
  the commits.
\<close>

theorem incremental_scan_equals_full_scan:
  assumes "collect rs auth asset (Some previous) sha db = Inr c" "co_mode c = IncrementalScan"
    and "changed_paths rs auth previous sha = Inr delta"
    and "diff_is_complete (rs_checkout rs previous) (rs_checkout rs sha) delta"
    and "content_of ` set (active_observations asset db) = tree_contents (rs_limits rs) (rs_checkout rs previous)"
  shows "content_of ` set (co_observations c) = tree_contents (rs_limits rs) (rs_checkout rs sha) \<and>
    (\<forall>obs n. scan_checkout (rs_limits rs) inputs name (rs_checkout rs sha) = Inr (obs, n) \<longrightarrow>
       content_of ` set (co_observations c) = content_of ` set obs)"
proof -
  let ?l = "rs_limits rs" and ?old = "rs_checkout rs previous" and ?new = "rs_checkout rs sha"
  let ?retained = "retained_observations (ma_workspace_id asset) (ma_id asset) (dl_touched delta) db"
  from assms(1-3) obtain rescanned n where sp: "scan_paths ?l (rs_inputs rs) (ma_name asset) ?new (dl_current delta) = Inr (rescanned, n)"
    and obs: "co_observations c = ?retained @ rescanned"
    by (auto simp: collect_def Let_def bindE_Inr split: if_splits)
  have same: "file_contents ?l ?old p = file_contents ?l ?new p" if "p \<notin> set (dl_touched delta)" for p
    by (rule file_contents_at) (use assms(4) that in \<open>simp add: diff_is_complete_def\<close>)
  have gone: "file_contents ?l ?new p = {}" if "p \<in> set (dl_touched delta)" "p \<notin> set (dl_current delta)" for p
    by (rule file_contents_none) (use assms(4) that in \<open>simp add: diff_is_complete_def\<close>)
  have sub: "set (dl_current delta) \<subseteq> set (dl_touched delta)" using assms(4) by (simp add: diff_is_complete_def)
  have "content_of ` set ?retained = (\<Union>p \<in> - set (dl_touched delta). file_contents ?l ?old p)"
    unfolding retained_contents assms(5) tree_contents_def by (auto dest: content_locator simp: content_locator)
  also have "\<dots> = (\<Union>p \<in> - set (dl_touched delta). file_contents ?l ?new p)" using same by auto
  finally have "content_of ` set (co_observations c) =
      (\<Union>p \<in> - set (dl_touched delta). file_contents ?l ?new p) \<union> (\<Union>p \<in> set (dl_current delta). file_contents ?l ?new p)"
    using scan_paths_contents [OF sp] by (simp add: obs image_Un)
  also have "\<dots> = tree_contents ?l ?new" 
  proof -
    have "file_contents ?l ?new p \<subseteq> (\<Union>p \<in> - set (dl_touched delta). file_contents ?l ?new p) \<union>
        (\<Union>p \<in> set (dl_current delta). file_contents ?l ?new p)" for p
      using gone [of p] by blast
    then show ?thesis unfolding tree_contents_def by blast
  qed
  finally show ?thesis using scan_checkout_contents by metis
qed

section \<open>Retries\<close>

lemma provenance_conflict:
  assumes "row_of sp_scan_job_id (repository_scan_runs db) (sp_scan_job_id p) = Some r" "sp_collected_at r \<noteq> sp_collected_at p"
  shows "\<not> is_ok (fst (record_scan_provenance env p db))"
proof -
  have "r \<noteq> p" using assms(2) by auto
  then show ?thesis using assms(1)
    by (cases "validate_provenance r") (auto simp: record_scan_provenance_def same_provenance_def validate_provenance_def split: if_splits)
qed

lemma credential_material_runs:
  fixes db :: "'x repository_db_scheme"
  assumes "credential_material rs env config now db = (r, db')" "\<forall>n d. repository_scan_runs (env n d) = repository_scan_runs d"
  shows "repository_scan_runs db' = repository_scan_runs db"
proof -
  have commit: "repository_scan_runs (snd (commit_credential old new d)) = repository_scan_runs d" for old new and d :: "'x repository_db_scheme"
    by (simp add: commit_credential_def)
  have used: "repository_scan_runs (snd (resolve_for_use lib ci env w i t d)) = repository_scan_runs d" for lib ci w i t d
    using assms(2) commit by (auto simp: resolve_for_use_def split: sum.splits prod.splits) (metis snd_conv)+
  show ?thesis
    using assms(1) used by (auto simp: credential_material_def split: option.splits sum.splits prod.splits if_splits) (metis snd_conv)+
qed

lemma scan_recorded:
  assumes "scan_repository rs env asset job clock db = (Inr (obs, p), db')"
  shows "\<exists>config auth db1 x. credential_material rs env config (clock 0) db = (Inr auth, db1) \<and>
    sp_scan_job_id p = job \<and> sp_collected_at p = clock 1 \<and> record_scan_provenance (env 3) p (env 2 db1) = (Inr x, db')"
  using assms
  by (auto simp: scan_repository_def bindE_Inr Let_def validate_provenance_def split: if_splits sum.splits prod.splits)
    (intro exI conjI, assumption, assumption)+

text \<open>
  C35. A repository scan cannot be retried once its provenance is recorded. The provenance is written
  at the end of the scan, with the time of that attempt. When anything after it fails, or the worker
  dies, and the job is tried again, the new attempt carries another time, and whatever it finds it
  ends in an error, because the provenance must not change.
\<close>

theorem recorded_scan_cannot_be_retried:
  assumes "row_of sp_scan_job_id (repository_scan_runs db) job = Some r" "sp_collected_at r \<noteq> clock 1"
    and "\<forall>n d. repository_scan_runs (env n d) = repository_scan_runs d"
  shows "\<not> is_ok (fst (scan_repository rs env asset job clock db))"
proof
  assume "is_ok (fst (scan_repository rs env asset job clock db))"
  then obtain obs p db' where "scan_repository rs env asset job clock db = (Inr (obs, p), db')"
    by (cases "scan_repository rs env asset job clock db"; cases "fst (scan_repository rs env asset job clock db)") auto
  from scan_recorded [OF this] obtain config auth db1 x where cred: "credential_material rs env config (clock 0) db = (Inr auth, db1)"
    and p: "sp_scan_job_id p = job" "sp_collected_at p = clock 1" and rec: "record_scan_provenance (env 3) p (env 2 db1) = (Inr x, db')"
    by blast
  have "repository_scan_runs (env 2 db1) = repository_scan_runs db"
    using assms(3) credential_material_runs [OF cred assms(3)] by simp
  then have "\<not> is_ok (fst (record_scan_provenance (env 3) p (env 2 db1)))"
    using provenance_conflict [of "env 2 db1" p r "env 3"] assms(1,2) p by simp
  with rec show False by simp
qed

text \<open>
  Files named \<open>.env\<close> are never scanned, although their extension is in the table of supported ones:
  the suffix of a name that starts with its only dot is empty.
\<close>

theorem dotenv_files_are_never_scanned:
  "''.env'' \<in> set supported_extensions \<and> \<not> (\<exists>s. path_name (path_parts s) = ''.env'' \<and> supported_relative_path s)"
proof -
  have "path_suffix ps = []" if "path_name ps = ''.env''" for ps
    using that by (simp add: path_suffix_def)
  then show ?thesis by (auto simp: supported_relative_path_def supported_extensions_def lower_def Let_def)
qed

section \<open>Instances\<close>

definition old_commit :: string where "old_commit = replicate 40 CHR ''a''"
definition new_commit :: string where "new_commit = replicate 40 CHR ''b''"

definition demo_changes :: "change list" where
  "demo_changes = [Kept ''M'' ''a.py'', Moved ''R100'' ''b.py'' ''c/b.py'']"

definition demo_scanner :: repository_scanner where
  "demo_scanner = \<lparr>rs_git = (\<lambda>args. if args = git_command [''diff'', ''--name-status'', ''-z'', old_commit, new_commit, ''--'']
       then GitExit 0 (git_output demo_changes) [] else GitExit 0 new_commit []),
     rs_checkout = (\<lambda>sha. if sha = old_commit
       then [(''a.py'', FileNode (Some 9) (Some ''RSA-2048'')), (''b.py'', FileNode (Some 4) (Some ''DES'')),
             (''d.py'', FileNode (Some 4) (Some ''RC4''))]
       else [(''a.py'', FileNode (Some 8) (Some ''AES-256'')), (''c'', DirNode), (''c/b.py'', FileNode (Some 4) (Some ''DES'')),
             (''d.py'', FileNode (Some 4) (Some ''RC4''))]),
     rs_urlsplit = (\<lambda>u. Some \<lparr>su_scheme = ''https'', su_username = None, su_password = None, su_hostname = Some ''93.184.216.34'',
       su_port = Inr None, su_path = ''/x'', su_query = [], su_fragment = []\<rparr>),
     rs_network = demo_network, rs_allowed_hosts = [''93.184.216.34''], rs_allow_private = False, rs_credentials = None,
     rs_limits = \<lparr>rl_fetch_depth = 10, rl_git_timeout = 60, rl_max_files = 100, rl_max_scan_bytes = 1000000, rl_max_file_bytes = 1000\<rparr>,
     rs_inputs = (\<lambda>_. file_input [])\<rparr>"

definition demo_asset :: managed_asset where
  "demo_asset = \<lparr>ma_id = ''a'', ma_workspace_id = ''w'', ma_name = ''repo'', ma_kind = KRepository, ma_locator = ''https://x'',
     ma_context = default_context, ma_tags = [], ma_enabled = True, ma_created_at = 0, ma_updated_at = 0\<rparr>"

definition demo_full :: "crypto_observation list" where
  "demo_full = concat (map (\<lambda>(p, t). scan_text (file_input p) t) [(''a.py'', ''RSA-2048''), (''b.py'', ''DES''), (''d.py'', ''RC4'')])"

definition demo_connection :: retention_db where
  "demo_connection = history_base
     \<lparr>repository_configurations := [\<lparr>rc_asset_id = ''a'', rc_workspace_id = ''w'', rc_repository_url = ''https://x'', rc_provider = PvGeneric,
        rc_ref = ''main'', rc_credential_id = None, rc_created_at = 0, rc_updated_at = 0\<rparr>]\<rparr>"

definition demo_history :: retention_db where
  "demo_history = demo_connection
     \<lparr>observation_states := map (\<lambda>x. new_state plain_hashing ''w'' ''a'' ''j0'' 5 (ob_family x) (sample_finding\<lparr>fi_observation := x\<rparr>)) demo_full\<rparr>"

lemma demo_paths:
  "supported_relative_path ''a.py''" "supported_relative_path ''b.py''" "supported_relative_path ''c/b.py''" "supported_relative_path ''d.py''"
  "sort (remdups [''a.py'', ''c/b.py'']) = [''a.py'', ''c/b.py'']" "sort (remdups [''a.py'', ''b.py'', ''d.py'']) = [''a.py'', ''b.py'', ''d.py'']"
  "length (remdups [''a.py'', ''c/b.py'']) = 2" "length (remdups [''a.py'', ''b.py'', ''d.py'']) = 3"
  "commit_available demo_scanner None old_commit" "is_ancestor demo_scanner None old_commit new_commit" "old_commit \<noteq> []" "new_commit \<noteq> old_commit"
  "changed_paths demo_scanner None old_commit new_commit = Inr \<lparr>dl_touched = [''a.py'', ''b.py'', ''c/b.py''], dl_current = [''a.py'', ''c/b.py'']\<rparr>"
  by code_simp+

lemma demo_trees:
  "rs_checkout demo_scanner old_commit = [(''a.py'', FileNode (Some 9) (Some ''RSA-2048'')), (''b.py'', FileNode (Some 4) (Some ''DES'')),
     (''d.py'', FileNode (Some 4) (Some ''RC4''))]"
  "rs_checkout demo_scanner new_commit = [(''a.py'', FileNode (Some 8) (Some ''AES-256'')), (''c'', DirNode),
     (''c/b.py'', FileNode (Some 4) (Some ''DES'')), (''d.py'', FileNode (Some 4) (Some ''RC4''))]"
  "rs_limits demo_scanner = \<lparr>rl_fetch_depth = 10, rl_git_timeout = 60, rl_max_files = 100, rl_max_scan_bytes = 1000000, rl_max_file_bytes = 1000\<rparr>"
  "rs_inputs demo_scanner = (\<lambda>_. file_input [])"
  using demo_paths(12) by (simp_all add: demo_scanner_def)

lemma demo_full_scan:
  "\<exists>obs n. scan_checkout (rs_limits demo_scanner) (rs_inputs demo_scanner) ''repo'' (rs_checkout demo_scanner old_commit) = Inr (obs, n) \<and>
     content_of ` set obs = content_of ` set demo_full"
proof -
  let ?in = "\<lambda>p. (file_input [])\<lparr>si_asset_name := ''repo'', si_locator := p\<rparr>"
  have "scan_checkout (rs_limits demo_scanner) (rs_inputs demo_scanner) ''repo'' (rs_checkout demo_scanner old_commit) =
      Inr (scan_text (?in ''a.py'') ''RSA-2048'' @ scan_text (?in ''b.py'') ''DES'' @ scan_text (?in ''d.py'') ''RC4'', 3)"
    by (simp add: scan_checkout_def demo_trees file_node_def demo_paths scan_paths_def Let_def del: remdups.simps sort_key_simps)
  then show ?thesis by (simp add: demo_full_def image_Un scan_contents)
qed

lemma demo_active: "content_of ` set (active_observations demo_asset demo_history) = content_of ` set demo_full"
  by (simp add: active_observations_def demo_history_def demo_asset_def new_state_def filter_map comp_def)

lemma demo_incremental:
  "\<exists>c. collect demo_scanner None demo_asset (Some old_commit) new_commit demo_history = Inr c \<and> co_mode c = IncrementalScan \<and>
     co_scanned_files c = 2"
  by (simp add: collect_def demo_paths scan_paths_def demo_trees Let_def del: remdups.simps sort_key_simps)

theorem incremental_scan_equals_full_scan_witness:
  "\<exists>c. collect demo_scanner None demo_asset (Some old_commit) new_commit demo_history = Inr c \<and> co_scanned_files c = 2 \<and>
     content_of ` set (co_observations c) = tree_contents (rs_limits demo_scanner) (rs_checkout demo_scanner new_commit)"
proof -
  obtain c where c: "collect demo_scanner None demo_asset (Some old_commit) new_commit demo_history = Inr c" "co_mode c = IncrementalScan"
    "co_scanned_files c = 2" using demo_incremental by blast
  have "content_of ` set (active_observations demo_asset demo_history) = tree_contents (rs_limits demo_scanner) (rs_checkout demo_scanner old_commit)"
    using demo_full_scan scan_checkout_contents demo_active by metis
  moreover have "diff_is_complete (rs_checkout demo_scanner old_commit) (rs_checkout demo_scanner new_commit)
      \<lparr>dl_touched = [''a.py'', ''b.py'', ''c/b.py''], dl_current = [''a.py'', ''c/b.py'']\<rparr>"
    by (auto simp: diff_is_complete_def demo_trees file_at_def)
  ultimately show ?thesis
    using incremental_scan_equals_full_scan [OF c(1,2) demo_paths(13)] c by blast
qed

theorem diff_round_trip_witness:
  "set (dl_touched (projr (changed_paths demo_scanner None old_commit new_commit))) = {''a.py'', ''b.py'', ''c/b.py''}"
proof -
  have run: "rs_git demo_scanner (git_command [''diff'', ''--name-status'', ''-z'', old_commit, new_commit, ''--'']) = GitExit 0 (git_output demo_changes) []"
    by (simp add: demo_scanner_def)
  have ok: "\<forall>c \<in> set demo_changes. change_code_ok c \<and> (\<forall>p \<in> set (change_paths c). CHR 0x00 \<notin> set p)"
    by (simp add: demo_changes_def)
  have "normal_path ` set (concat (map change_paths demo_changes)) = {''a.py'', ''b.py'', ''c/b.py''}" by code_simp
  then show ?thesis using diff_round_trip [OF ok run, of None] by (simp add: demo_paths(13))
qed

definition demo_first :: "(crypto_observation list \<times> scan_provenance, retention_db) outcome" where
  "demo_first = scan_repository (demo_scanner\<lparr>rs_checkout := \<lambda>_. []\<rparr>) alone demo_asset ''j1'' (\<lambda>_. 7) demo_connection"

lemma demo_first_runs: "is_ok (fst demo_first)" "map sp_collected_at (repository_scan_runs (snd demo_first)) = [7]"
  "map sp_scan_job_id (repository_scan_runs (snd demo_first)) = [''j1'']"
  by code_simp+

theorem recorded_scan_cannot_be_retried_witness:
  "is_ok (fst (scan_repository (demo_scanner\<lparr>rs_checkout := \<lambda>_. []\<rparr>) alone demo_asset ''j1'' (\<lambda>_. 7) demo_connection)) \<and>
   \<not> is_ok (fst (scan_repository (demo_scanner\<lparr>rs_checkout := \<lambda>_. []\<rparr>) alone demo_asset ''j1'' (\<lambda>_. 8) (snd demo_first)))"
proof -
  obtain r where r: "repository_scan_runs (snd demo_first) = [r]" "sp_scan_job_id r = ''j1''" "sp_collected_at r = 7"
    using demo_first_runs(2,3) by (cases "repository_scan_runs (snd demo_first)") auto
  have "row_of sp_scan_job_id (repository_scan_runs (snd demo_first)) ''j1'' = Some r" by (simp add: r row_of_Cons)
  then have "\<not> is_ok (fst (scan_repository (demo_scanner\<lparr>rs_checkout := \<lambda>_. []\<rparr>) alone demo_asset ''j1'' (\<lambda>_. 8) (snd demo_first)))"
    by (rule recorded_scan_cannot_be_retried) (simp_all add: r(3))
  then show ?thesis using demo_first_runs(1) by (simp add: demo_first_def)
qed

end
