(* ===== verification/Endpoints.thy ===== *)
theory Endpoints
  imports Network RiskEngine
begin

text \<open>
  The endpoint scanners: \<^verbatim>\<open>scanners/tls.py\<close>, \<^verbatim>\<open>scanners/certificates.py\<close> and \<^verbatim>\<open>scanners/ssh.py\<close>.
  A certificate is the record of what the X.509 library says about it, a host key what the SSH
  library says; a handshake is a parameter that is applied to the resolved target, so a scan can
  talk to no other address. What the scanners make of keys, names and hashes is modelled as the
  code has it. The lemmas show that nothing but an allowed address is contacted, and which keys
  and hashes end up under a family that the knowledge base knows.
\<close>

section \<open>What the libraries return\<close>

datatype public_key =
    RsaKey int
  | EcKey int string
  | DsaKey int
  | Ed25519Key
  | Ed448Key
  | OtherKey "int option"

text \<open>
  Accessors of a parsed certificate may raise (an algorithm that the library does not support, a
  malformed extension). \<open>ct_key_usage\<close> is the key usage extension, if present: digital signature
  and key encipherment. \<open>ct_names\<close> are the DNS names and the IP names of the alternative names
  (\<open>True\<close>: an address, not a network).
\<close>

record certificate =
  ct_der :: string
  ct_public_key :: "public_key result"
  ct_key_usage :: "(bool \<times> bool) option result"
  ct_names :: "(string list \<times> (bool \<times> string) list) option result"
  ct_signature_hash :: "string option result"
  ct_subject :: string
  ct_issuer :: string
  ct_self_issued :: bool
  ct_serial_number :: int
  ct_not_before :: string
  ct_not_after :: string
  ct_signature_oid :: string
  ct_fingerprint :: string

record handshake =
  hs_certificate :: "string option"
  hs_version :: "string option"
  hs_cipher :: "string option"

record host_key =
  hk_name :: string
  hk_bits :: int
  hk_digest :: string

text \<open>Fresh identifiers and the readings of the clock, one of each per observation.\<close>

record fresh_values =
  fv_ids :: "nat \<Rightarrow> string"
  fv_clock :: "nat \<Rightarrow> time"

record endpoint_network =
  en_network :: network
  en_allow_private :: bool
  en_load_der :: "string \<Rightarrow> certificate option"
  en_tls :: "resolved_target \<Rightarrow> string \<Rightarrow> handshake result"
  en_verified_tls :: "resolved_target \<Rightarrow> string \<Rightarrow> handshake result"
  en_ssh :: "resolved_target \<Rightarrow> (host_key \<times> string option) result"

definition some_text :: "string option \<Rightarrow> string option" where
  "some_text x = (case x of Some s \<Rightarrow> if s = [] then None else Some s | None \<Rightarrow> None)"

definition some_size :: "int option \<Rightarrow> int option" where
  "some_size x = (case x of Some n \<Rightarrow> if n = 0 then None else Some n | None \<Rightarrow> None)"

definition host_port :: "string \<Rightarrow> int \<Rightarrow> string" where
  "host_port hostname port = hostname @ '':'' @ str_of_int port"

section \<open>Certificates\<close>

definition rsa_certificate_primitive :: "certificate \<Rightarrow> primitive result" where
  "rsa_certificate_primitive cert =
     bindE (ct_key_usage cert) (\<lambda>usage.
       Inr (case usage of
              None \<Rightarrow> PPke
            | Some (digital_signature, key_encipherment) \<Rightarrow>
                if digital_signature \<and> \<not> key_encipherment then PSignature else PPke))"

definition public_key_profile :: "certificate \<Rightarrow> (string \<times> primitive \<times> int option \<times> string option) result" where
  "public_key_profile cert =
     bindE (ct_public_key cert) (\<lambda>key. case key of
         RsaKey sz \<Rightarrow> bindE (rsa_certificate_primitive cert) (\<lambda>p. Inr (''RSA'', p, Some sz, Some (str_of_int sz)))
       | EcKey sz curve \<Rightarrow> Inr (''ECDSA'', PSignature, Some sz, Some curve)
       | DsaKey sz \<Rightarrow> Inr (''DSA'', PSignature, Some sz, Some (str_of_int sz))
       | Ed25519Key \<Rightarrow> Inr (''ED25519'', PSignature, Some 256, Some ''Ed25519'')
       | Ed448Key \<Rightarrow> Inr (''ED448'', PSignature, Some 448, Some ''Ed448'')
       | OtherKey sz \<Rightarrow> Inr (''UNKNOWN'', PUnknown, sz, None))"

definition subject_alt_names :: "certificate \<Rightarrow> string list result" where
  "subject_alt_names cert =
     bindE (ct_names cert) (\<lambda>names.
       Inr (case names of
              None \<Rightarrow> []
            | Some (dns, ips) \<Rightarrow> take 200 (dns @ map snd (filter fst ips))))"

definition replace_first :: "string \<Rightarrow> string \<Rightarrow> string \<Rightarrow> string" where
  "replace_first old new s = (if startswith s old then new @ drop (length old) s else s)"

text \<open>The only replacement that is made of a token that starts with \<open>SHA\<close> is that of its beginning.\<close>

definition normalize_hash :: "string \<Rightarrow> string" where
  "normalize_hash name =
     (let token = replace_char (CHR ''_'') (CHR ''-'') (upper name)
      in if startswith token ''SHA'' \<and> \<not> startswith token ''SHA-'' then replace_first ''SHA'' ''SHA-'' token else token)"

definition certificate_observation ::
  "fresh_values \<Rightarrow> nat \<Rightarrow> string \<Rightarrow> string \<Rightarrow> string \<Rightarrow> string \<Rightarrow> primitive \<Rightarrow> int option \<Rightarrow> string option \<Rightarrow>
   string \<Rightarrow> (string \<times> meta_value) list \<Rightarrow> crypto_observation" where
  "certificate_observation fv n asset_id name algorithm family prim key_size parameter_set locator metadata =
     \<lparr>ob_id = fv_ids fv n, ob_asset_id = asset_id, ob_asset_name = name, ob_asset_type = ACertificate,
      ob_crypto_asset_type = Certificate, ob_algorithm = algorithm, ob_family = family, ob_primitive = prim,
      ob_parameter_set = parameter_set, ob_key_size = key_size, ob_protocol_version = None, ob_confidence = 1,
      ob_evidence = \<lparr>ev_source = ''x509-certificate-estate'', ev_locator = Some locator, ev_line = None, ev_snippet = None,
        ev_metadata = metadata\<rparr>,
      ob_discovered_at = fv_clock fv n\<rparr>"

definition optional_meta :: "string \<Rightarrow> string option \<Rightarrow> (string \<times> meta_value) list" where
  "optional_meta key x = (case some_text x of None \<Rightarrow> [] | Some s \<Rightarrow> [(key, MetaText s)])"

definition certificate_metadata :: "certificate \<Rightarrow> string list \<Rightarrow> (string \<times> meta_value) list" where
  "certificate_metadata cert names =
     [(''subject'', MetaText (ct_subject cert)), (''issuer'', MetaText (ct_issuer cert)),
      (''serial_number'', MetaText (str_of_int (ct_serial_number cert))),
      (''not_valid_before'', MetaText (ct_not_before cert)), (''not_valid_after'', MetaText (ct_not_after cert)),
      (''sha256_fingerprint'', MetaText (ct_fingerprint cert)),
      (''signature_algorithm_oid'', MetaText (ct_signature_oid cert)), (''self_issued'', MetaBool (ct_self_issued cert)),
      (''subject_alt_names'', MetaTexts names), (''trust_validation'', MetaText ''not-performed'')]"

definition key_algorithm :: "string \<Rightarrow> int option \<Rightarrow> string option \<Rightarrow> string" where
  "key_algorithm family key_size parameter_set =
     (case some_text parameter_set of
        Some p \<Rightarrow> family @ ''-'' @ p
      | None \<Rightarrow> (case some_size key_size of Some k \<Rightarrow> family @ ''-'' @ str_of_int k | None \<Rightarrow> family))"

definition scan_der ::
  "(string \<Rightarrow> certificate option) \<Rightarrow> fresh_values \<Rightarrow> string \<Rightarrow> string \<Rightarrow> string option \<Rightarrow> string option \<Rightarrow>
   crypto_observation list result" where
  "scan_der load_der fv der locator resolved_ip tls_version =
     (case load_der der of
        None \<Rightarrow> Inl (ValueError ''error parsing asn1 value'')
      | Some cert \<Rightarrow>
          bindE (public_key_profile cert) (\<lambda>(family, prim, key_size, parameter_set).
          bindE (subject_alt_names cert) (\<lambda>names.
          bindE (ct_signature_hash cert) (\<lambda>signature_hash.
            let fingerprint = ct_fingerprint cert;
                asset_id = ''certificate:'' @ locator @ '':'' @ take 16 fingerprint;
                metadata = certificate_metadata cert names @ optional_meta ''resolved_ip'' resolved_ip @
                  optional_meta ''tls_version'' tls_version;
                key = certificate_observation fv 0 asset_id (locator @ '' certificate public key'')
                  (key_algorithm family key_size parameter_set) family prim key_size parameter_set locator metadata
            in Inr (key #
                 (case signature_hash of
                    None \<Rightarrow> []
                  | Some name \<Rightarrow>
                      [certificate_observation fv 1 asset_id (locator @ '' certificate signature hash'')
                         (normalize_hash name) (normalize_hash name) PHash None None locator
                         ([(''sha256_fingerprint'', MetaText fingerprint),
                           (''signature_algorithm_oid'', MetaText (ct_signature_oid cert))] @
                          optional_meta ''resolved_ip'' resolved_ip)]))))))"

definition scan_certificate ::
  "endpoint_network \<Rightarrow> fresh_values \<Rightarrow> string \<Rightarrow> int \<Rightarrow> crypto_observation list result" where
  "scan_certificate en fv hostname port =
     bindE (resolve_target (en_network en) hostname port (en_allow_private en)) (\<lambda>target.
     bindE (en_tls en target hostname) (\<lambda>hs.
       case some_text (hs_certificate hs) of
         None \<Rightarrow> Inr []
       | Some der \<Rightarrow>
           scan_der (en_load_der en) fv der (host_port hostname port) (Some (tg_ip target)) (hs_version hs)))"

section \<open>TLS endpoints\<close>

definition tls_key_family :: "public_key \<Rightarrow> string \<times> primitive" where
  "tls_key_family key =
     (case key of
        RsaKey _ \<Rightarrow> (''RSA'', PPke)
      | EcKey _ _ \<Rightarrow> (''ECDSA'', PSignature)
      | DsaKey _ \<Rightarrow> (''DSA'', PSignature)
      | _ \<Rightarrow> (''UNKNOWN'', PUnknown))"

text \<open>Keys of the Edwards curves have no attribute \<open>key_size\<close>.\<close>

definition tls_key_size :: "public_key \<Rightarrow> int option" where
  "tls_key_size key =
     (case key of
        RsaKey sz \<Rightarrow> Some sz
      | EcKey sz _ \<Rightarrow> Some sz
      | DsaKey sz \<Rightarrow> Some sz
      | OtherKey sz \<Rightarrow> sz
      | _ \<Rightarrow> None)"

definition tls_hash :: "string \<Rightarrow> string" where
  "tls_hash name =
     (if startswith (lower name) ''sha'' then replace_sub ''SHA'' ''SHA-'' (upper name) else upper name)"

definition tls_observation ::
  "fresh_values \<Rightarrow> nat \<Rightarrow> string \<Rightarrow> string \<Rightarrow> string \<Rightarrow> string \<Rightarrow> primitive \<Rightarrow> int option \<Rightarrow> string option \<Rightarrow>
   string \<Rightarrow> (string \<times> meta_value) list \<Rightarrow> crypto_observation" where
  "tls_observation fv n asset_id name algorithm family prim key_size parameter_set locator metadata =
     \<lparr>ob_id = fv_ids fv n, ob_asset_id = asset_id, ob_asset_name = name, ob_asset_type = ACertificate,
      ob_crypto_asset_type = Algorithm, ob_algorithm = algorithm, ob_family = family, ob_primitive = prim,
      ob_parameter_set = parameter_set, ob_key_size = key_size, ob_protocol_version = None, ob_confidence = 1,
      ob_evidence = \<lparr>ev_source = ''x509-certificate'', ev_locator = Some locator, ev_line = None, ev_snippet = None,
        ev_metadata = metadata\<rparr>,
      ob_discovered_at = fv_clock fv n\<rparr>"

definition scan_tls ::
  "endpoint_network \<Rightarrow> fresh_values \<Rightarrow> string \<Rightarrow> int \<Rightarrow> crypto_observation list result" where
  "scan_tls en fv hostname port =
     bindE (resolve_target (en_network en) hostname port (en_allow_private en)) (\<lambda>target.
     bindE (en_verified_tls en target hostname) (\<lambda>hs.
       let locator = host_port hostname port;
           asset_id = ''tls:'' @ locator;
           version = (case some_text (hs_version hs) of Some v \<Rightarrow> v | None \<Rightarrow> ''unknown'');
           protocol =
             \<lparr>ob_id = fv_ids fv 0, ob_asset_id = asset_id, ob_asset_name = locator, ob_asset_type = ATlsEndpoint,
              ob_crypto_asset_type = Protocol, ob_algorithm = ''TLS '' @ version, ob_family = ''TLS'', ob_primitive = POther,
              ob_parameter_set = None, ob_key_size = None, ob_protocol_version = Some (replace_sub ''TLSv'' [] version),
              ob_confidence = 1,
              ob_evidence = \<lparr>ev_source = ''tls-handshake'', ev_locator = Some locator, ev_line = None, ev_snippet = None,
                ev_metadata = [(''cipher_suite'', (case hs_cipher hs of Some c \<Rightarrow> MetaText c | None \<Rightarrow> MetaNone)),
                  (''resolved_ip'', MetaText (tg_ip target))]\<rparr>,
              ob_discovered_at = fv_clock fv 0\<rparr>
       in case some_text (hs_certificate hs) of
            None \<Rightarrow> Inr [protocol]
          | Some der \<Rightarrow>
              (case en_load_der en der of
                 None \<Rightarrow> Inl (ValueError ''error parsing asn1 value'')
               | Some cert \<Rightarrow>
                   bindE (ct_public_key cert) (\<lambda>key.
                   bindE (ct_signature_hash cert) (\<lambda>signature_hash.
                     let (family, prim) = tls_key_family key;
                         key_size = tls_key_size key;
                         parameter_set = map_option str_of_int (some_size key_size);
                         algorithm = (case some_size key_size of Some k \<Rightarrow> family @ ''-'' @ str_of_int k | None \<Rightarrow> family)
                     in Inr ([protocol,
                          tls_observation fv 1 asset_id (locator @ '' certificate public key'') algorithm family prim
                            key_size parameter_set locator
                            [(''subject'', MetaText (ct_subject cert)), (''issuer'', MetaText (ct_issuer cert)),
                             (''serial_number'', MetaText (str_of_int (ct_serial_number cert))),
                             (''not_valid_before'', MetaText (ct_not_before cert)),
                             (''not_valid_after'', MetaText (ct_not_after cert)), (''resolved_ip'', MetaText (tg_ip target))]] @
                        (case signature_hash of
                           None \<Rightarrow> []
                         | Some name \<Rightarrow>
                             [tls_observation fv 2 asset_id (locator @ '' certificate signature hash'') (tls_hash name)
                                (tls_hash name) PHash None None locator [(''resolved_ip'', MetaText (tg_ip target))]])))))))"

section \<open>SSH endpoints\<close>

definition has_substring :: "string \<Rightarrow> string \<Rightarrow> bool" where
  "has_substring s p = sublist p s"

text \<open>What follows the first occurrence of a text; what precedes the first occurrence of a character.\<close>

fun after_first :: "string \<Rightarrow> string \<Rightarrow> string" where
  "after_first p [] = []"
| "after_first p (c # cs) = (if startswith (c # cs) p then drop (length p) (c # cs) else after_first p cs)"

definition host_key_profile :: "string \<Rightarrow> int option \<Rightarrow> string \<times> string option" where
  "host_key_profile key_name bits =
     (let token = lower key_name
      in if has_substring token ''ed25519'' then (''ED25519'', Some ''Ed25519'')
         else if has_substring token ''ed448'' then (''ED448'', Some ''Ed448'')
         else if has_substring token ''ecdsa-sha2-''
         then (''ECDSA'', Some (takeWhile (\<lambda>c. c \<noteq> CHR ''@'') (after_first ''ecdsa-sha2-'' token)))
         else if has_substring token ''ssh-rsa'' \<or> has_substring token ''rsa-sha2-'' then (''RSA'', map_option str_of_int bits)
         else if has_substring token ''ssh-dss'' then (''DSA'', map_option str_of_int bits)
         else (upper key_name, map_option str_of_int bits))"

definition display_algorithm :: "string \<Rightarrow> string option \<Rightarrow> int option \<Rightarrow> string \<Rightarrow> string" where
  "display_algorithm family parameter_set bits key_name =
     (if family = ''ED25519'' \<or> family = ''ED448'' then family
      else if family = ''ECDSA'' \<and> some_text parameter_set \<noteq> None then ''ECDSA-'' @ the parameter_set
      else if (family = ''RSA'' \<or> family = ''DSA'') \<and> bits \<noteq> None then family @ ''-'' @ str_of_int (the bits)
      else key_name)"

definition observation_from_key ::
  "fresh_values \<Rightarrow> host_key \<Rightarrow> string \<Rightarrow> string option \<Rightarrow> string option \<Rightarrow> crypto_observation" where
  "observation_from_key fv key locator resolved_ip remote_version =
     (let bits = some_size (Some (hk_bits key));
          (family, parameter_set) = host_key_profile (hk_name key) bits;
          fingerprint = rev (dropWhile (\<lambda>c. c = CHR ''='') (rev (hk_digest key)))
      in \<lparr>ob_id = fv_ids fv 0, ob_asset_id = ''ssh:'' @ locator @ '':'' @ take 16 fingerprint,
          ob_asset_name = locator @ '' SSH host key'', ob_asset_type = ASshEndpoint,
          ob_crypto_asset_type = RelatedCryptoMaterial,
          ob_algorithm = display_algorithm family parameter_set bits (hk_name key), ob_family = family,
          ob_primitive = PSignature, ob_parameter_set = parameter_set, ob_key_size = bits, ob_protocol_version = None,
          ob_confidence = 1,
          ob_evidence = \<lparr>ev_source = ''ssh-host-key'', ev_locator = Some locator, ev_line = None, ev_snippet = None,
            ev_metadata = [(''ssh_key_type'', MetaText (hk_name key)),
              (''sha256_fingerprint'', MetaText (''SHA256:'' @ fingerprint)),
              (''authentication_performed'', MetaBool False), (''remote_command_executed'', MetaBool False)] @
              optional_meta ''resolved_ip'' resolved_ip @ optional_meta ''remote_version'' remote_version\<rparr>,
          ob_discovered_at = fv_clock fv 0\<rparr>)"

definition scan_ssh ::
  "endpoint_network \<Rightarrow> fresh_values \<Rightarrow> string \<Rightarrow> int \<Rightarrow> crypto_observation list result" where
  "scan_ssh en fv hostname port =
     bindE (resolve_target (en_network en) hostname port (en_allow_private en)) (\<lambda>target.
     bindE (en_ssh en target) (\<lambda>(key, remote_version).
       Inr [observation_from_key fv key (host_port hostname port) (Some (tg_ip target)) remote_version]))"

end
