(* ===== verification/ContainerImage.thy ===== *)
theory ContainerImage
  imports Endpoints Paths SourceScanner Inventory
begin

text \<open>
  Scanning a container image archive: \<^verbatim>\<open>scanners/container_image.py\<close>. Archives are streams of
  members as \<open>tarfile\<close> delivers them, with an error wherever reading can fail; JSON documents are
  values of \<open>json\<close>. Parsing tar, JSON and X.509, SHA-256, UTF-8 decoding and the file system are
  parameters. The selection of a manifest, the verification of digests, the two passes over each
  layer with their whiteouts and limits, and the annotation of what is found are modelled as the
  code has them. \<open>ContainerImageScanError\<close> is a \<open>RuntimeError\<close>. The proofs are in \<open>ImageOverlay\<close>.
\<close>

section \<open>Archives and documents\<close>

text \<open>\<open>BadTar\<close> stands for a \<open>TarError\<close>, \<open>ZstdError\<close> or \<open>OSError\<close> on opening or on going to the next member.
  \<open>NoData\<close>: \<open>extractfile\<close> returns \<open>None\<close>; \<open>BadData\<close>: reading raises \<open>TarError\<close> or \<open>OSError\<close>.\<close>

datatype member_data = NoData | BadData | Payload string

text \<open>The type of a member: \<open>isreg\<close> and \<open>isdir\<close>; a link, device or FIFO is neither.\<close>

datatype tar_type = RegularType | DirectoryType | OtherType

record tar_member =
  tm_name :: string
  tm_size :: int
  tm_type :: tar_type
  tm_data :: member_data

abbreviation tm_regular :: "tar_member \<Rightarrow> bool" where
  "tm_regular m \<equiv> tm_type m = RegularType"

datatype tar_stream = EndOfTar | BadTar | Member tar_member tar_stream

datatype json =
    JNull
  | JBool bool
  | JInt int
  | JFloat rat
  | JText string
  | JList "json list"
  | JObj "(string \<times> json) list"

datatype file_stat = NotAFile | NoMetadata | FileOfSize int

record container_library =
  cl_tar :: "bool \<Rightarrow> string \<Rightarrow> tar_stream"
  cl_loads :: "string \<Rightarrow> json option"
  cl_str :: "json \<Rightarrow> string"
  cl_sha256 :: "string \<Rightarrow> string"
  cl_decode :: "string \<Rightarrow> string"
  cl_load_pem :: "string \<Rightarrow> certificate option"
  cl_load_der :: "string \<Rightarrow> certificate option"
  cl_resolve :: "string \<Rightarrow> string list"
  cl_stat :: "string list \<Rightarrow> file_stat"
  cl_open :: "string list \<Rightarrow> tar_stream"

record container_scanner =
  cs_library :: container_library
  cs_archive_root :: "string list option"
  cs_platform_os :: string
  cs_platform_arch :: string
  cs_max_archive_bytes :: int
  cs_max_layers :: int
  cs_max_layer_compressed_bytes :: int
  cs_max_layer_uncompressed_bytes :: int
  cs_max_entries :: int
  cs_max_file_bytes :: int
  cs_max_scan_bytes :: int
  cs_inputs :: "nat \<Rightarrow> scan_input"
  cs_fresh :: "nat \<Rightarrow> nat \<Rightarrow> fresh_values"

record image_file =
  if_content :: string
  if_layer_digest :: string

record layer =
  ly_digest :: string
  ly_media_type :: string
  ly_content :: string

type_synonym image_files = "(string \<times> image_file) list"

abbreviation scan_error :: "string \<Rightarrow> 'a result" where
  "scan_error m \<equiv> Inl (RuntimeError m)"

definition validate_container_limits :: "container_scanner \<Rightarrow> unit result" where
  "validate_container_limits cs =
     (if list_ex (\<lambda>v. v \<le> 0) [cs_max_archive_bytes cs, cs_max_layers cs, cs_max_layer_compressed_bytes cs,
           cs_max_layer_uncompressed_bytes cs, cs_max_entries cs, cs_max_file_bytes cs, cs_max_scan_bytes cs]
      then Inl (ValueError ''container image scanner limits must be positive'')
      else if cs_platform_os cs = [] \<or> cs_platform_arch cs = []
      then Inl (ValueError ''container image platform OS and architecture are required'')
      else Inr ())"

section \<open>Paths\<close>

function strip_dot_slash :: "string \<Rightarrow> string" where
  "strip_dot_slash s = (if startswith s ''./'' then strip_dot_slash (drop 2 s) else s)"
  by pat_completeness auto
termination
  by (relation "measure length") (auto simp: startswith_def intro!: diff_less)

declare strip_dot_slash.simps [simp del]

definition safe_path :: "string \<Rightarrow> string result" where
  "safe_path value =
     (let s = strip_dot_slash (replace_char CHR 0x5C (CHR ''/'') (strip value));
          path = path_parts s
      in if s = [] \<or> is_absolute s \<or> ''..'' \<in> set path \<or> CHR 0x00 \<in> set s
         then scan_error ''container archive contains an unsafe path''
         else if path = [] then scan_error ''container archive contains an invalid empty path''
         else Inr (as_posix path))"

definition certificate_extensions :: "string list" where
  "certificate_extensions = [''.cer'', ''.crt'', ''.pem'']"

definition supported_path :: "string \<Rightarrow> bool" where
  "supported_path relative =
     (let path = path_parts relative; suffix = lower (path_suffix path)
      in \<not> ignored_path path \<and>
         (suffix \<in> set supported_extensions \<or> suffix \<in> set certificate_extensions \<or> suffix = ''.cnf''))"

section \<open>Members of the outer archive\<close>

fun outer_members ::
  "int \<Rightarrow> int \<Rightarrow> tar_member list \<Rightarrow> (string \<times> tar_member) list \<Rightarrow> (string \<times> tar_member) list result" where
  "outer_members limit index [] members = Inr members"
| "outer_members limit index (m # ms) members =
     (if index > limit then scan_error ''container archive has too many entries''
      else bindE (safe_path (tm_name m)) (\<lambda>name.
        if map_of members name \<noteq> None then scan_error (''container archive contains duplicate path: '' @ name)
        else outer_members limit (index + 1) ms (members @ [(name, m)])))"

text \<open>\<open>getmembers\<close> reads the whole archive.\<close>

fun all_members :: "tar_stream \<Rightarrow> tar_member list option" where
  "all_members EndOfTar = Some []"
| "all_members BadTar = None"
| "all_members (Member m rest) = map_option ((#) m) (all_members rest)"

definition unreadable :: "'a result" where
  "unreadable = scan_error ''container image archive is unreadable''"

definition read_member :: "(string \<times> tar_member) list \<Rightarrow> string \<Rightarrow> int \<Rightarrow> string result" where
  "read_member members name limit =
     (case map_of members name of
        None \<Rightarrow> scan_error (''container archive member is missing: '' @ name)
      | Some m \<Rightarrow>
          if \<not> tm_regular m then scan_error (''container archive member is missing: '' @ name)
          else if tm_size m < 0 \<or> tm_size m > limit then scan_error (''container archive member exceeds limit: '' @ name)
          else (case tm_data m of
                  NoData \<Rightarrow> scan_error (''container archive member is unreadable: '' @ name)
                | BadData \<Rightarrow> unreadable
                | Payload d \<Rightarrow>
                    let payload = take (nat (limit + 1)) d
                    in if int (length payload) > limit
                       then scan_error (''container archive member exceeds limit: '' @ name)
                       else Inr payload))"

definition load_json :: "container_library \<Rightarrow> string \<Rightarrow> string \<Rightarrow> json result" where
  "load_json lib payload label =
     (case cl_loads lib payload of
        None \<Rightarrow> scan_error (label @ '' contains invalid JSON'')
      | Some j \<Rightarrow> Inr j)"

definition read_json_member ::
  "container_library \<Rightarrow> (string \<times> tar_member) list \<Rightarrow> string \<Rightarrow> int \<Rightarrow> json result" where
  "read_json_member lib members name limit =
     bindE (read_member members name limit) (\<lambda>payload. load_json lib payload name)"

definition hex64 :: "string \<Rightarrow> bool" where
  "hex64 s = (length s = 64 \<and> list_all (\<lambda>c. is_digit c \<or> 97 \<le> code_of c \<and> code_of c \<le> 102) s)"

text \<open>The digits of a text that \<open>_SHA256_PATTERN\<close> matches.\<close>

definition sha256_digits :: "string \<Rightarrow> string option" where
  "sha256_digits digest =
     (if startswith digest ''sha256:'' \<and> hex64 (drop 7 digest) then Some (drop 7 digest) else None)"

definition read_oci_blob ::
  "container_library \<Rightarrow> (string \<times> tar_member) list \<Rightarrow> string \<Rightarrow> int \<Rightarrow> string result" where
  "read_oci_blob lib members digest limit =
     (case sha256_digits digest of
        None \<Rightarrow> scan_error ''only sha256 OCI descriptors are supported''
      | Some digits \<Rightarrow>
          bindE (read_member members (''blobs/sha256/'' @ digits) limit) (\<lambda>payload.
            if cl_sha256 lib payload \<noteq> digits then scan_error ''OCI blob digest verification failed'' else Inr payload))"

section \<open>Documents\<close>

definition type_name :: "json \<Rightarrow> string" where
  "type_name j =
     (case j of JNull \<Rightarrow> ''NoneType'' | JBool _ \<Rightarrow> ''bool'' | JInt _ \<Rightarrow> ''int'' | JFloat _ \<Rightarrow> ''float''
      | JText _ \<Rightarrow> ''str'' | JList _ \<Rightarrow> ''list'' | JObj _ \<Rightarrow> ''dict'')"

text \<open>\<open>j.get(key)\<close>, \<open>key in j\<close>, \<open>str(j)\<close> and \<open>bool(j)\<close>.\<close>

definition json_get :: "json \<Rightarrow> string \<Rightarrow> json option result" where
  "json_get j key =
     (case j of JObj kvs \<Rightarrow> Inr (map_of kvs key)
      | _ \<Rightarrow> Inl (OtherError ''AttributeError'' (CHR 0x27 # type_name j @ CHR 0x27 # '' object has no attribute '' @ [CHR 0x27] @ ''get'' @ [CHR 0x27])))"

definition json_in :: "string \<Rightarrow> json \<Rightarrow> bool result" where
  "json_in key j =
     (case j of JObj kvs \<Rightarrow> Inr (map_of kvs key \<noteq> None)
      | JList xs \<Rightarrow> Inr (JText key \<in> set xs)
      | JText s \<Rightarrow> Inr (sublist key s)
      | _ \<Rightarrow> Inl (OtherError ''TypeError'' (''argument of type '' @ CHR 0x27 # type_name j @ CHR 0x27 # '' is not iterable'')))"

definition json_str :: "container_library \<Rightarrow> json option \<Rightarrow> string" where
  "json_str lib j = (case j of None \<Rightarrow> [] | Some (JText s) \<Rightarrow> s | Some x \<Rightarrow> cl_str lib x)"

definition json_true :: "json \<Rightarrow> bool" where
  "json_true j =
     (case j of JNull \<Rightarrow> False | JBool b \<Rightarrow> b | JInt i \<Rightarrow> i \<noteq> 0 | JFloat r \<Rightarrow> r \<noteq> 0 | JText s \<Rightarrow> s \<noteq> []
      | JList xs \<Rightarrow> xs \<noteq> [] | JObj kvs \<Rightarrow> kvs \<noteq> [])"

fun is_object :: "json \<Rightarrow> bool" where
  "is_object (JObj kvs) = True"
| "is_object _ = False"

fun object_entries :: "json \<Rightarrow> (string \<times> json) list" where
  "object_entries (JObj kvs) = kvs"
| "object_entries _ = []"

definition object_field :: "json \<Rightarrow> string \<Rightarrow> json option" where
  "object_field j key = map_of (object_entries j) key"

definition descriptor_digest :: "json \<Rightarrow> string result" where
  "descriptor_digest descriptor =
     (case object_field descriptor ''digest'' of
        Some (JText digest) \<Rightarrow>
          if sha256_digits digest = None then scan_error ''OCI descriptor has an invalid sha256 digest'' else Inr digest
      | _ \<Rightarrow> scan_error ''OCI descriptor has an invalid sha256 digest'')"

section \<open>Choosing an image\<close>

definition names_ref :: "string \<Rightarrow> json \<Rightarrow> bool" where
  "names_ref ref item =
     (case object_field item ''annotations'' of
        Some (JObj kvs) \<Rightarrow> map_of kvs ''org.opencontainers.image.ref.name'' = Some (JText ref)
      | _ \<Rightarrow> False)"

definition on_platform :: "container_scanner \<Rightarrow> json \<Rightarrow> bool" where
  "on_platform cs item =
     (case object_field item ''platform'' of
        Some (JObj kvs) \<Rightarrow>
          lower (json_str (cs_library cs) (map_of kvs ''os'')) = cs_platform_os cs \<and>
          lower (json_str (cs_library cs) (map_of kvs ''architecture'')) = cs_platform_arch cs
      | _ \<Rightarrow> False)"

definition select_oci_descriptor :: "container_scanner \<Rightarrow> json list \<Rightarrow> string option \<Rightarrow> json result" where
  "select_oci_descriptor cs descriptors oci_ref =
     (let valid = filter is_object descriptors
      in case some_text oci_ref of
           Some ref \<Rightarrow>
             (case filter (names_ref ref) valid of
                [item] \<Rightarrow> Inr item
              | [] \<Rightarrow> scan_error ''OCI reference name was not found in archive''
              | _ \<Rightarrow> scan_error ''OCI reference name is ambiguous in archive'')
         | None \<Rightarrow>
             let matches = filter (on_platform cs) valid
             in if length matches = 1 then Inr (hd matches)
                else if length valid = 1 then Inr (hd valid)
                else if length matches > 1
                then scan_error ''OCI archive has multiple matching platform images; set the oci_ref asset tag''
                else scan_error ''OCI archive is multi-image and has no unique configured platform match'')"

text \<open>\<open>image_ref in (item.get("RepoTags") or [])\<close>.\<close>

definition tagged :: "string \<Rightarrow> json \<Rightarrow> bool result" where
  "tagged ref item =
     (case object_field item ''RepoTags'' of
        None \<Rightarrow> Inr False
      | Some j \<Rightarrow> if json_true j then json_in ref j else Inr False)"

fun filter_tagged :: "string \<Rightarrow> json list \<Rightarrow> json list result" where
  "filter_tagged ref [] = Inr []"
| "filter_tagged ref (item # items) =
     bindE (tagged ref item) (\<lambda>b. bindE (filter_tagged ref items) (\<lambda>rest. Inr (if b then item # rest else rest)))"

definition select_docker_manifest :: "json list \<Rightarrow> string option \<Rightarrow> json result" where
  "select_docker_manifest manifest image_ref =
     (let valid = filter is_object manifest
      in case some_text image_ref of
           Some ref \<Rightarrow>
             bindE (filter_tagged ref valid) (\<lambda>matches.
               case matches of
                 [item] \<Rightarrow> Inr item
               | [] \<Rightarrow> scan_error ''Docker image reference was not found in archive''
               | _ \<Rightarrow> scan_error ''Docker image reference is ambiguous in archive'')
         | None \<Rightarrow>
             (case valid of
                [item] \<Rightarrow> Inr item
              | _ \<Rightarrow> scan_error ''Docker archive contains multiple images; set the image_ref asset tag''))"

section \<open>Loading an image\<close>

text \<open>The loop over nested indexes, with its five rounds.\<close>

fun find_manifest ::
  "container_scanner \<Rightarrow> (string \<times> tar_member) list \<Rightarrow> string option \<Rightarrow> nat \<Rightarrow> json \<Rightarrow> (json \<times> string) result" where
  "find_manifest cs members oci_ref 0 descriptor = scan_error ''OCI image index nesting exceeds supported depth''"
| "find_manifest cs members oci_ref (Suc n) descriptor =
     bindE (descriptor_digest descriptor) (\<lambda>digest.
     bindE (read_oci_blob (cs_library cs) members digest 8000000) (\<lambda>payload.
     bindE (load_json (cs_library cs) payload ''OCI descriptor'') (\<lambda>document.
       let media_type = json_str (cs_library cs) (object_field descriptor ''mediaType'')
       in bindE (if sublist ''image.index'' media_type then Inr True
                 else bindE (json_in ''manifests'' document) (\<lambda>b.
                   if b then bindE (json_in ''layers'' document) (\<lambda>l. Inr (\<not> l)) else Inr False)) (\<lambda>nested.
            if nested then
              bindE (json_get document ''manifests'') (\<lambda>entries.
                case entries of
                  Some (JList (j # js)) \<Rightarrow>
                    bindE (select_oci_descriptor cs (j # js) oci_ref) (\<lambda>d. find_manifest cs members oci_ref n d)
                | _ \<Rightarrow> scan_error ''OCI nested image index is empty'')
            else if json_true document then Inr (document, digest)
            else scan_error ''OCI image index nesting exceeds supported depth''))))"

definition layer_too_large :: "container_scanner \<Rightarrow> json \<Rightarrow> bool" where
  "layer_too_large cs descriptor =
     (case object_field descriptor ''size'' of
        Some (JInt sz) \<Rightarrow> sz > cs_max_layer_compressed_bytes cs
      | Some (JBool b) \<Rightarrow> (if b then 1 else 0) > cs_max_layer_compressed_bytes cs
      | _ \<Rightarrow> False)"

fun load_oci_layers ::
  "container_scanner \<Rightarrow> (string \<times> tar_member) list \<Rightarrow> json list \<Rightarrow> layer list result" where
  "load_oci_layers cs members [] = Inr []"
| "load_oci_layers cs members (descriptor # ds) =
     (if \<not> is_object descriptor then scan_error ''OCI image layer descriptor is invalid''
      else bindE (descriptor_digest descriptor) (\<lambda>digest.
        if layer_too_large cs descriptor then scan_error ''OCI image layer exceeds configured compressed limit''
        else bindE (read_oci_blob (cs_library cs) members digest (cs_max_layer_compressed_bytes cs)) (\<lambda>content.
          bindE (load_oci_layers cs members ds) (\<lambda>rest.
            Inr (\<lparr>ly_digest = digest, ly_media_type = json_str (cs_library cs) (object_field descriptor ''mediaType''),
                  ly_content = content\<rparr> # rest)))))"

definition load_oci_image ::
  "container_scanner \<Rightarrow> (string \<times> tar_member) list \<Rightarrow> string option \<Rightarrow> (string \<times> layer list) result" where
  "load_oci_image cs members oci_ref =
     bindE (read_json_member (cs_library cs) members ''index.json'' 4000000) (\<lambda>index.
     bindE (json_get index ''manifests'') (\<lambda>descriptors.
       case descriptors of
         Some (JList (j # js)) \<Rightarrow>
           bindE (select_oci_descriptor cs (j # js) oci_ref) (\<lambda>descriptor.
           bindE (find_manifest cs members oci_ref 5 descriptor) (\<lambda>(manifest, image_digest).
           bindE (json_get manifest ''layers'') (\<lambda>layers.
             case layers of
               Some (JList ds) \<Rightarrow> bindE (load_oci_layers cs members ds) (\<lambda>ls. Inr (image_digest, ls))
             | _ \<Rightarrow> scan_error ''OCI image manifest has invalid layer descriptors'')))
       | _ \<Rightarrow> scan_error ''OCI index contains no image manifests''))"

fun load_docker_layers ::
  "container_scanner \<Rightarrow> (string \<times> tar_member) list \<Rightarrow> json list \<Rightarrow> layer list result" where
  "load_docker_layers cs members [] = Inr []"
| "load_docker_layers cs members (raw # raws) =
     bindE (safe_path (json_str (cs_library cs) (Some raw))) (\<lambda>name.
     bindE (read_member members name (cs_max_layer_compressed_bytes cs)) (\<lambda>content.
     bindE (load_docker_layers cs members raws) (\<lambda>rest.
       Inr (\<lparr>ly_digest = ''sha256:'' @ cl_sha256 (cs_library cs) content,
             ly_media_type = ''application/vnd.docker.image.rootfs.diff.tar'', ly_content = content\<rparr> # rest))))"

text \<open>The digits that \<open>_DOCKER_CONFIG_PATTERN\<close> finds in a path; its end may be before a final line feed.\<close>

definition config_digits :: "string \<Rightarrow> string option" where
  "config_digits name =
     (let base = last (split_on (CHR ''/'') (if endswith name [CHR 0x0A] then butlast name else name))
      in if length base = 69 \<and> hex64 (take 64 base) \<and> drop 64 base = ''.json'' then Some (take 64 base) else None)"

definition load_docker_image ::
  "container_scanner \<Rightarrow> (string \<times> tar_member) list \<Rightarrow> string option \<Rightarrow> (string \<times> layer list) result" where
  "load_docker_image cs members image_ref =
     bindE (read_json_member (cs_library cs) members ''manifest.json'' 4000000) (\<lambda>manifest.
       case manifest of
         JList (j # js) \<Rightarrow>
           bindE (select_docker_manifest (j # js) image_ref) (\<lambda>entry.
           bindE (safe_path (json_str (cs_library cs) (object_field entry ''Config''))) (\<lambda>config_name.
           bindE (read_member members config_name 8000000) (\<lambda>config_bytes.
             let image_digits = cl_sha256 (cs_library cs) config_bytes
             in if config_digits config_name \<noteq> None \<and> config_digits config_name \<noteq> Some image_digits
                then scan_error ''Docker image config digest does not match archive path''
                else case object_field entry ''Layers'' of
                  Some (JList raws) \<Rightarrow>
                    bindE (load_docker_layers cs members raws) (\<lambda>ls. Inr (''sha256:'' @ image_digits, ls))
                | _ \<Rightarrow> scan_error ''Docker archive manifest has invalid layer list'')))
       | _ \<Rightarrow> scan_error ''Docker archive manifest is empty'')"

section \<open>Applying a layer\<close>

datatype whiteout = Opaque string | Remove string

definition layer_stream :: "container_library \<Rightarrow> layer \<Rightarrow> tar_stream" where
  "layer_stream lib l =
     cl_tar lib (endswith (lower (ly_media_type l)) ''+zstd'' \<or>
       startswith (ly_content l) [CHR 0x28, CHR 0xB5, CHR 0x2F, CHR 0xFD]) (ly_content l)"

definition bad_layer :: "'a result" where
  "bad_layer = scan_error ''container image layer is not a valid tar changeset''"

text \<open>What a member says about the layers below: nothing, or a whiteout.\<close>

definition whiteout_of :: "string \<Rightarrow> whiteout option result" where
  "whiteout_of path =
     (let parts = path_parts path; basename = path_name parts
      in if basename = ''.wh..wh..opq'' then Inr (Some (Opaque (as_posix (path_parent parts))))
         else if startswith basename ''.wh.'' then
           (let target_name = drop 4 basename
            in if target_name = [] then scan_error ''container layer contains invalid whiteout''
               else Inr (Some (Remove (as_posix (path_parent parts @ path_parts target_name)))))
         else Inr None)"

fun collect_whiteouts ::
  "container_scanner \<Rightarrow> tar_stream \<Rightarrow> int \<Rightarrow> int \<Rightarrow> whiteout list \<Rightarrow> (int \<times> whiteout list) result" where
  "collect_whiteouts cs EndOfTar entries uncompressed ws = Inr (entries, ws)"
| "collect_whiteouts cs BadTar entries uncompressed ws = bad_layer"
| "collect_whiteouts cs (Member m rest) entries uncompressed ws =
     (if entries + 1 > cs_max_entries cs then scan_error ''container image exceeds configured entry limit''
      else if uncompressed + max 0 (tm_size m) > cs_max_layer_uncompressed_bytes cs
      then scan_error ''container image layer exceeds configured uncompressed limit''
      else bindE (safe_path (tm_name m)) (\<lambda>path.
        bindE (whiteout_of path) (\<lambda>w.
          collect_whiteouts cs rest (entries + 1) (uncompressed + max 0 (tm_size m))
            (case w of None \<Rightarrow> ws | Some x \<Rightarrow> ws @ [x]))))"

definition rstrip_slash :: "string \<Rightarrow> string" where
  "rstrip_slash s = rev (dropWhile (\<lambda>c. c = CHR ''/'') (rev s))"

definition pop_file :: "string \<Rightarrow> image_files \<Rightarrow> image_files" where
  "pop_file path files = filter (\<lambda>(p, f). p \<noteq> path) files"

definition remove_path :: "string \<Rightarrow> image_files \<Rightarrow> image_files" where
  "remove_path target files =
     (let prefix = rstrip_slash target @ ''/''
      in filter (\<lambda>(p, f). \<not> (p = target \<or> startswith p prefix)) files)"

fun apply_whiteout :: "whiteout \<Rightarrow> image_files \<Rightarrow> image_files" where
  "apply_whiteout (Opaque target) files =
     (let prefix = (if target = ''.'' then [] else rstrip_slash target @ ''/'')
      in filter (\<lambda>(p, f). \<not> startswith p prefix) files)"
| "apply_whiteout (Remove target) files = remove_path target files"

fun add_files ::
  "container_scanner \<Rightarrow> string \<Rightarrow> tar_stream \<Rightarrow> int \<Rightarrow> image_files \<Rightarrow> (int \<times> image_files) result" where
  "add_files cs digest EndOfTar bytes files = Inr (bytes, files)"
| "add_files cs digest BadTar bytes files = bad_layer"
| "add_files cs digest (Member m rest) bytes files =
     bindE (safe_path (tm_name m)) (\<lambda>path.
       if startswith (path_name (path_parts path)) ''.wh.'' then add_files cs digest rest bytes files
       else if \<not> tm_regular m then add_files cs digest rest bytes (pop_file path files)
       else if \<not> supported_path path \<or> tm_size m < 0 \<or> tm_size m > cs_max_file_bytes cs
       then add_files cs digest rest bytes (pop_file path files)
       else if bytes + tm_size m > cs_max_scan_bytes cs
       then scan_error ''container image exceeds configured cryptography scan-byte limit''
       else (case tm_data m of
               NoData \<Rightarrow> add_files cs digest rest (bytes + tm_size m) (pop_file path files)
             | BadData \<Rightarrow> bad_layer
             | Payload d \<Rightarrow>
                 let content = take (nat (cs_max_file_bytes cs + 1)) d
                 in if int (length content) > cs_max_file_bytes cs
                    then scan_error ''container file exceeded declared scan limit''
                    else add_files cs digest rest (bytes + tm_size m)
                      (pop_file path files @ [(path, \<lparr>if_content = content, if_layer_digest = digest\<rparr>)])))"

definition apply_layer ::
  "container_scanner \<Rightarrow> layer \<Rightarrow> image_files \<Rightarrow> int \<Rightarrow> int \<Rightarrow> (int \<times> int \<times> image_files) result" where
  "apply_layer cs l files entries bytes =
     bindE (collect_whiteouts cs (layer_stream (cs_library cs) l) entries 0 []) (\<lambda>(entries, ws).
     bindE (add_files cs (ly_digest l) (layer_stream (cs_library cs) l) bytes (fold apply_whiteout ws files)) (\<lambda>(bytes, files).
       Inr (entries, bytes, files)))"

fun apply_layers ::
  "container_scanner \<Rightarrow> layer list \<Rightarrow> image_files \<Rightarrow> int \<Rightarrow> int \<Rightarrow> (int \<times> int \<times> image_files) result" where
  "apply_layers cs [] files entries bytes = Inr (entries, bytes, files)"
| "apply_layers cs (l # ls) files entries bytes =
     bindE (apply_layer cs l files entries bytes) (\<lambda>(entries, bytes, files). apply_layers cs ls files entries bytes)"

section \<open>Certificates in a file\<close>

definition byte_space :: "char \<Rightarrow> bool" where
  "byte_space c = (code_of c = 32 \<or> 9 \<le> code_of c \<and> code_of c \<le> 13)"

definition pem_begin :: string where "pem_begin = ''-----BEGIN CERTIFICATE-----''"
definition pem_end :: string where "pem_end = ''-----END CERTIFICATE-----''"

text \<open>
  How \<open>\\s+.*?\\s+-----END CERTIFICATE-----\<close> matches what follows a beginning: the first \<open>\\s+\<close> takes
  as much white space as it can and gives back as little as it must; the rest ends before the
  first end marker that has white space before it.
\<close>

definition pem_close :: "string \<Rightarrow> nat \<Rightarrow> nat option" where
  "pem_close s k = find (\<lambda>e. byte_space (s ! (e - 1)) \<and> startswith (drop e s) pem_end) [k + 1..<length s]"

definition pem_body :: "string \<Rightarrow> nat option" where
  "pem_body s =
     (case find (\<lambda>k. pem_close s k \<noteq> None) (rev [1..<Suc (length (takeWhile byte_space s))]) of
        None \<Rightarrow> None
      | Some k \<Rightarrow> pem_close s k)"

function pem_blocks :: "string \<Rightarrow> string list" where
  "pem_blocks s =
     (if s = [] then []
      else case (if startswith s pem_begin then pem_body (drop (length pem_begin) s) else None) of
             None \<Rightarrow> pem_blocks (tl s)
           | Some e \<Rightarrow>
               let n = length pem_begin + e + length pem_end
               in take n s # pem_blocks (drop (max 1 n) s))"
  by pat_completeness auto
termination
  by (relation "measure length") auto

declare pem_blocks.simps [simp del]

definition parsed :: "(string \<Rightarrow> certificate option) \<Rightarrow> string list \<Rightarrow> certificate list" where
  "parsed load blocks = List.map_filter load blocks"

fun scan_ders ::
  "container_library \<Rightarrow> (nat \<Rightarrow> fresh_values) \<Rightarrow> string \<Rightarrow> nat \<Rightarrow> string list \<Rightarrow> crypto_observation list result" where
  "scan_ders lib fresh locator n [] = Inr []"
| "scan_ders lib fresh locator n (der # ders) =
     bindE (scan_der (cl_load_der lib) (fresh n) der locator None None) (\<lambda>obs.
     bindE (scan_ders lib fresh locator (Suc n) ders) (\<lambda>rest. Inr (obs @ rest)))"

definition scan_certificates ::
  "container_library \<Rightarrow> (nat \<Rightarrow> fresh_values) \<Rightarrow> string \<Rightarrow> string \<Rightarrow> crypto_observation list result" where
  "scan_certificates lib fresh content locator =
     (let pem = parsed (cl_load_pem lib) (pem_blocks content);
          certificates = (if pem = [] \<and> content \<noteq> [] \<and> hd content = CHR 0x30
            then parsed (cl_load_der lib) [content] else pem)
      in scan_ders lib fresh locator 0 (map ct_der (take 100 certificates)))"

section \<open>A scan\<close>

definition put_meta :: "string \<Rightarrow> meta_value \<Rightarrow> (string \<times> meta_value) list \<Rightarrow> (string \<times> meta_value) list" where
  "put_meta k v m = (if map_of m k \<noteq> None then map (\<lambda>(k', v'). (k', if k' = k then v else v')) m else m @ [(k, v)])"

definition annotate ::
  "string \<Rightarrow> string \<Rightarrow> string \<Rightarrow> string \<Rightarrow> crypto_observation \<Rightarrow> crypto_observation" where
  "annotate image_digest image_format relative layer_digest obs =
     obs\<lparr>ob_evidence := (ob_evidence obs)
       \<lparr>ev_snippet := None,
        ev_metadata := put_meta ''container_layer_digest'' (MetaText layer_digest)
          (put_meta ''container_path'' (MetaText relative)
          (put_meta ''container_image_format'' (MetaText image_format)
          (put_meta ''container_image_digest'' (MetaText image_digest) (ev_metadata (ob_evidence obs)))))\<rparr>\<rparr>"

definition scan_image_file ::
  "container_scanner \<Rightarrow> nat \<Rightarrow> string \<Rightarrow> string \<Rightarrow> string \<Rightarrow> string \<Rightarrow> image_file \<Rightarrow> crypto_observation list result" where
  "scan_image_file cs n name image_digest image_format relative f =
     (let locator = ''container://'' @ image_digest @ ''/'' @ relative;
          note_down = annotate image_digest image_format relative (if_layer_digest f)
      in bindE (scan_certificates (cs_library cs) (cs_fresh cs n) (if_content f) locator) (\<lambda>certs.
           Inr (if certs \<noteq> [] then map note_down certs
                else map (\<lambda>x. note_down (x\<lparr>ob_asset_type := AContainer\<rparr>))
                  (scan_text ((cs_inputs cs n)\<lparr>si_asset_name := name, si_locator := locator\<rparr>)
                     (cl_decode (cs_library cs) (if_content f))))))"

fun scan_image_files ::
  "container_scanner \<Rightarrow> nat \<Rightarrow> string \<Rightarrow> string \<Rightarrow> string \<Rightarrow> image_files \<Rightarrow> crypto_observation list result" where
  "scan_image_files cs n name image_digest image_format [] = Inr []"
| "scan_image_files cs n name image_digest image_format ((relative, f) # files) =
     bindE (scan_image_file cs n name image_digest image_format relative f) (\<lambda>obs.
     bindE (scan_image_files cs (Suc n) name image_digest image_format files) (\<lambda>rest. Inr (obs @ rest)))"

record image_collection =
  ic_observations :: "crypto_observation list"
  ic_image_digest :: string
  ic_image_format :: string
  ic_layer_count :: nat
  ic_scanned_files :: nat

definition validate_archive_path :: "container_scanner \<Rightarrow> string list \<Rightarrow> unit result" where
  "validate_archive_path cs archive =
     (case cl_stat (cs_library cs) archive of
        NotAFile \<Rightarrow> scan_error ''container image archive is not a regular file''
      | NoMetadata \<Rightarrow> scan_error ''container image archive metadata is unavailable''
      | FileOfSize sz \<Rightarrow>
          if sz \<le> 0 then scan_error ''container image archive is empty''
          else if sz > cs_max_archive_bytes cs then scan_error ''container image archive exceeds configured size limit''
          else Inr ())"

text \<open>The image's digest, its format and its layers.\<close>

definition load_image ::
  "container_scanner \<Rightarrow> string list \<Rightarrow> string option \<Rightarrow> string option \<Rightarrow> (string \<times> string \<times> layer list) result" where
  "load_image cs archive image_ref oci_ref =
     (case all_members (cl_open (cs_library cs) archive) of
        None \<Rightarrow> unreadable
      | Some ms \<Rightarrow>
          bindE (outer_members (cs_max_entries cs) 1 ms []) (\<lambda>members.
            if map_of members ''oci-layout'' \<noteq> None \<and> map_of members ''index.json'' \<noteq> None
            then bindE (load_oci_image cs members oci_ref) (\<lambda>(digest, layers). Inr (digest, ''oci'', layers))
            else if map_of members ''manifest.json'' \<noteq> None
            then bindE (load_docker_image cs members image_ref) (\<lambda>(digest, layers). Inr (digest, ''docker-archive'', layers))
            else scan_error ''archive is neither an OCI image layout nor a Docker image archive''))"

definition image_overlay :: "container_scanner \<Rightarrow> layer list \<Rightarrow> image_files result" where
  "image_overlay cs layers =
     (if layers = [] then scan_error ''container image has no filesystem layers''
      else if int (length layers) > cs_max_layers cs
      then scan_error ''container image exceeds configured layer-count limit''
      else bindE (apply_layers cs layers [] 0 0) (\<lambda>(entries, bytes, files). Inr files))"

definition scan_container_path ::
  "container_scanner \<Rightarrow> string list \<Rightarrow> string option \<Rightarrow> string option \<Rightarrow> string option \<Rightarrow> image_collection result" where
  "scan_container_path cs archive asset_name image_ref oci_ref =
     bindE (validate_archive_path cs archive) (\<lambda>_.
     bindE (load_image cs archive image_ref oci_ref) (\<lambda>(image_digest, image_format, layers).
     bindE (image_overlay cs layers) (\<lambda>files.
       let name = (case some_text asset_name of Some n \<Rightarrow> n | None \<Rightarrow> path_name archive)
       in bindE (scan_image_files cs 0 name image_digest image_format (sort_key fst files)) (\<lambda>observations.
            Inr \<lparr>ic_observations = observations, ic_image_digest = image_digest, ic_image_format = image_format,
                 ic_layer_count = length layers, ic_scanned_files = length files\<rparr>))))"

definition resolve_managed_locator :: "container_scanner \<Rightarrow> string \<Rightarrow> string list result" where
  "resolve_managed_locator cs locator =
     (let prefix = ''image-archive:''
      in if \<not> startswith locator prefix then scan_error ''container locator must use image-archive:<relative-path>''
         else case cs_archive_root cs of
           None \<Rightarrow> scan_error ''container image archive root is not configured for managed scans''
         | Some base \<Rightarrow>
             let relative = strip (drop (length prefix) locator)
             in if relative = [] then scan_error ''container image archive locator is empty''
                else let path = cl_resolve (cs_library cs) relative
                in if take (length base) path \<noteq> base
                   then scan_error ''container image archive path escapes the configured archive root''
                   else Inr path)"

definition scan_container :: "container_scanner \<Rightarrow> managed_asset \<Rightarrow> image_collection result" where
  "scan_container cs asset =
     bindE (resolve_managed_locator cs (ma_locator asset)) (\<lambda>path.
       scan_container_path cs path (Some (ma_name asset)) (map_of (ma_tags asset) ''image_ref'')
         (map_of (ma_tags asset) ''oci_ref''))"

end
