(* ===== verification/Executor.thy ===== *)
theory Executor
  imports ContainerImage RepositoryScanner
begin

text \<open>
  Running a scan of an asset: \<^verbatim>\<open>services/executor.py\<close>. The executor chooses the collector by the kind
  of the asset, relabels what it finds with the asset, has the risk engine assess it and the
  effective policy of the workspace judge it. Points at which other processes may commit are named
  by lists of numbers: an operation that gets \<open>sub env k\<close> uses the points that start with \<open>k\<close>.
  \<open>AssetScanError\<close> is a \<open>RuntimeError\<close>.
\<close>

section \<open>Interference\<close>

type_synonym 'db interference = "nat list \<Rightarrow> 'db \<Rightarrow> 'db"

definition sub :: "'db interference \<Rightarrow> nat \<Rightarrow> 'db interference" where
  "sub env k = (\<lambda>ns. env (k # ns))"

definition points :: "'db interference \<Rightarrow> nat \<Rightarrow> 'db \<Rightarrow> 'db" where
  "points env n = env [n]"

abbreviation undisturbed :: "'db interference" where
  "undisturbed \<equiv> \<lambda>_ db. db"

lemma undisturbed_simps [simp]: "sub undisturbed k = undisturbed" "points undisturbed n = (\<lambda>db. db)"
  by (simp_all add: sub_def points_def)

definition thenS :: "('a, 's) outcome \<Rightarrow> ('a \<Rightarrow> 's \<Rightarrow> ('b, 's) outcome) \<Rightarrow> ('b, 's) outcome" where
  "thenS r f = (case r of (Inl e, s) \<Rightarrow> (Inl e, s) | (Inr a, s) \<Rightarrow> f a s)"

lemma thenS_simps [simp]: "thenS (Inl e, s) f = (Inl e, s)" "thenS (Inr a, s) f = f a s"
  by (simp_all add: thenS_def)

section \<open>Locators of endpoints\<close>

definition py_isdigit :: "string \<Rightarrow> bool" where
  "py_isdigit s = (s \<noteq> [] \<and> list_all is_digit s)"

definition check_endpoint :: "string \<Rightarrow> string \<Rightarrow> int \<Rightarrow> (string \<times> int) result" where
  "check_endpoint label hostname port =
     (if hostname = [] then Inl (RuntimeError (label @ '' locator hostname is empty''))
      else if \<not> (1 \<le> port \<and> port \<le> 65535)
      then Inl (RuntimeError (label @ '' locator port must be between 1 and 65535''))
      else Inr (hostname, port))"

definition parse_endpoint_locator :: "string \<Rightarrow> int \<Rightarrow> string \<Rightarrow> (string \<times> int) result" where
  "parse_endpoint_locator locator default_port label =
     (let value = strip locator;
          form = Inl (RuntimeError (label @ '' locator must be hostname or hostname:port''))
      in if value = [] then Inl (RuntimeError (label @ '' locator is empty''))
         else if startswith value ''['' then
           (let closing = length (takeWhile (\<lambda>c. c \<noteq> CHR '']'') value)
            in if CHR '']'' \<notin> set value \<or> closing \<le> 1
               then Inl (RuntimeError (label @ '' locator contains an invalid IPv6 address''))
               else let hostname = take (closing - 1) (drop 1 value); suffix = drop (closing + 1) value
                    in if suffix = [] then Inr (hostname, default_port)
                       else if \<not> startswith suffix '':'' \<or> \<not> py_isdigit (drop 1 suffix) then form
                       else check_endpoint label hostname (digits_value 0 (drop 1 suffix)))
         else if count_list value (CHR '':'') = 1 then
           (let hostname = takeWhile (\<lambda>c. c \<noteq> CHR '':'') value; port_text = drop (length hostname + 1) value
            in if hostname = [] \<or> \<not> py_isdigit port_text then form
               else check_endpoint label hostname (digits_value 0 port_text))
         else check_endpoint label value default_port)"

definition parse_tls_locator :: "string \<Rightarrow> (string \<times> int) result" where
  "parse_tls_locator locator = parse_endpoint_locator locator 443 ''TLS''"

section \<open>The executor\<close>

text \<open>\<open>clock 0\<close> and \<open>clock 1\<close> are the readings of a repository scan, \<open>clock 2\<close> that of the policy lookup
  before it.\<close>

definition not_implemented :: "managed_asset_kind \<Rightarrow> 'a result" where
  "not_implemented kind = Inl (RuntimeError (''collector not implemented for asset kind: '' @ managed_asset_kind_value kind))"

record executor =
  ex_source :: scan_input
  ex_repository :: "repository_scanner option"
  ex_container :: container_scanner
  ex_tls :: endpoint_network
  ex_certificate :: endpoint_network
  ex_ssh :: endpoint_network
  ex_fresh :: fresh_values
  ex_policies :: "policy_hashing option"

definition scan_kind_of :: "managed_asset \<Rightarrow> scan_kind result" where
  "scan_kind_of asset =
     (case ma_kind asset of
        KSource \<Rightarrow> Inr ScSource
      | KRepository \<Rightarrow> Inr ScRepository
      | KContainer \<Rightarrow> Inr ScContainer
      | KTlsEndpoint \<Rightarrow> Inr ScTls
      | KCertificateEndpoint \<Rightarrow> Inr ScCertificate
      | KSshEndpoint \<Rightarrow> Inr ScSsh
      | kind \<Rightarrow> not_implemented kind)"

definition collect_asset ::
  "executor \<Rightarrow> ('x repository_db_scheme) interference \<Rightarrow> managed_asset \<Rightarrow> string option \<Rightarrow> string option \<Rightarrow> string option \<Rightarrow>
   (nat \<Rightarrow> time) \<Rightarrow> 'x repository_db_scheme \<Rightarrow> (crypto_observation list, 'x repository_db_scheme) outcome" where
  "collect_asset ex env asset source filename job clock db =
     (case ma_kind asset of
        KSource \<Rightarrow>
          (case some_text source of
             None \<Rightarrow> (Inl (RuntimeError ''source content is required for source assets''), db)
           | Some t \<Rightarrow>
               (Inr (scan_text ((ex_source ex)\<lparr>si_asset_name := ma_name asset,
                  si_locator := (case some_text filename of Some f \<Rightarrow> f | None \<Rightarrow> ma_locator asset)\<rparr>) t), db))
      | KRepository \<Rightarrow>
          (case ex_repository ex of
             None \<Rightarrow> (Inl (RuntimeError ''repository collector is not configured''), db)
           | Some rs \<Rightarrow>
               (case job of
                  None \<Rightarrow> (Inl (RuntimeError ''repository scans require a scan job identity''), db)
                | Some j \<Rightarrow> thenS (scan_repository rs (points env) asset j clock db) (\<lambda>(obs, provenance) db'. (Inr obs, db'))))
      | KContainer \<Rightarrow> (bindE (scan_container (ex_container ex) asset) (\<lambda>c. Inr (ic_observations c)), db)
      | KTlsEndpoint \<Rightarrow>
          (bindE (parse_endpoint_locator (ma_locator asset) 443 ''TLS'') (\<lambda>(host, port). scan_tls (ex_tls ex) (ex_fresh ex) host port), db)
      | KCertificateEndpoint \<Rightarrow>
          (bindE (parse_endpoint_locator (ma_locator asset) 443 ''certificate'')
             (\<lambda>(host, port). scan_certificate (ex_certificate ex) (ex_fresh ex) host port), db)
      | KSshEndpoint \<Rightarrow>
          (bindE (parse_endpoint_locator (ma_locator asset) 22 ''SSH'') (\<lambda>(host, port). scan_ssh (ex_ssh ex) (ex_fresh ex) host port), db)
      | kind \<Rightarrow> (not_implemented kind, db))"

fun assess_all :: "crypto_observation list \<Rightarrow> scan_context \<Rightarrow> finding list result" where
  "assess_all [] c = Inr []"
| "assess_all (x # xs) c = bindE (assess x (Some c)) (\<lambda>f. bindE (assess_all xs c) (\<lambda>fs. Inr (f # fs)))"

definition default_policy_provenance :: string where
  "default_policy_provenance = ''risk-engine-v1''"

definition judge ::
  "managed_asset \<Rightarrow> effective_policy option \<Rightarrow> crypto_observation list \<Rightarrow> (finding list \<times> string) result" where
  "judge asset policy observations =
     bindE (assess_all (map (\<lambda>x. x\<lparr>ob_asset_id := ma_id asset, ob_asset_name := ma_name asset\<rparr>) observations) (ma_context asset))
       (\<lambda>findings. Inr (case policy of
          Some p \<Rightarrow> (map (\<lambda>f. apply_policy f (ma_context asset) p) findings, provenance_ref p)
        | None \<Rightarrow> (findings, default_policy_provenance)))"

definition workspace_policy ::
  "executor \<Rightarrow> ('x repository_db_scheme \<Rightarrow> 'x repository_db_scheme) \<Rightarrow> time \<Rightarrow> string \<Rightarrow> 'x repository_db_scheme \<Rightarrow>
   (effective_policy option, 'x repository_db_scheme) outcome" where
  "workspace_policy ex env now w db =
     (case ex_policies ex of
        None \<Rightarrow> (Inr None, db)
      | Some h \<Rightarrow> thenS (effective_policy_of h env now w db) (\<lambda>p db'. (Inr (Some p), db')))"

definition execute_with_provenance ::
  "executor \<Rightarrow> ('x repository_db_scheme) interference \<Rightarrow> managed_asset \<Rightarrow> string option \<Rightarrow> string option \<Rightarrow> string option \<Rightarrow>
   (nat \<Rightarrow> time) \<Rightarrow> 'x repository_db_scheme \<Rightarrow> (finding list \<times> string, 'x repository_db_scheme) outcome" where
  "execute_with_provenance ex env asset source filename job clock db =
     (if \<not> ma_enabled asset then (Inl (RuntimeError ''asset is disabled''), db)
      else thenS (workspace_policy ex (env [0]) (clock 2) (ma_workspace_id asset) db) (\<lambda>policy db1.
           thenS (collect_asset ex (sub env 1) asset source filename job clock (env [2] db1)) (\<lambda>observations db2.
             (judge asset policy observations, db2))))"

definition execute ::
  "executor \<Rightarrow> ('x repository_db_scheme) interference \<Rightarrow> managed_asset \<Rightarrow> string option \<Rightarrow> string option \<Rightarrow> string option \<Rightarrow>
   (nat \<Rightarrow> time) \<Rightarrow> 'x repository_db_scheme \<Rightarrow> (finding list, 'x repository_db_scheme) outcome" where
  "execute ex env asset source filename job clock db =
     thenS (execute_with_provenance ex env asset source filename job clock db) (\<lambda>(findings, provenance) db'. (Inr findings, db'))"

end
