(* ===== verification/Worker.thy ===== *)
theory Worker
  imports Executor
begin

text \<open>
  The scan worker: \<^verbatim>\<open>services/worker.py\<close>. One call of \<open>run_once\<close> is the composition of the stores and
  the executor, in the order of the code. Its calls are numbered: before call \<open>k\<close> others commit at the
  point \<open>[k]\<close>, inside it at the points that start with \<open>k\<close>; \<open>clock k\<close> is the reading of the clock in it. The
  database can fail in any call, at any point: \<open>fault k = Some (n, e)\<close> says that call \<open>k\<close> raises \<open>e\<close> after
  its first \<open>n\<close> transactions were committed, and the functions \<open>\<dots>_stopped n\<close> are the databases left then.
  Logging, metrics and traces have no effect on the state and are left out. The proofs are in
  \<open>WorkerRuns\<close> and \<open>WorkerLeases\<close>.
\<close>

record worker_config =
  wc_worker_id :: string
  wc_lease_seconds :: int
  wc_poll_interval :: rat
  wc_retry_backoff_seconds :: int
  wc_scan_timeout :: rat

definition validate_worker_config :: "worker_config \<Rightarrow> worker_config result" where
  "validate_worker_config c =
     (if strip (wc_worker_id c) = [] then Inl (ValueError ''worker_id is required'')
      else if \<not> (5 \<le> wc_lease_seconds c \<and> wc_lease_seconds c \<le> 3600)
      then Inl (ValueError ''lease_seconds must be between 5 and 3600'')
      else if \<not> (1 / 10 \<le> wc_poll_interval c \<and> wc_poll_interval c \<le> 60)
      then Inl (ValueError ''poll_interval must be between 0.1 and 60 seconds'')
      else if wc_retry_backoff_seconds c < 0 then Inl (ValueError ''retry_backoff_seconds cannot be negative'')
      else if \<not> (1 / 2 \<le> wc_scan_timeout c \<and> wc_scan_timeout c \<le> 120)
      then Inl (ValueError ''scan_timeout must be between 0.5 and 120 seconds'')
      else Inr c)"

text \<open>\<open>wk_error_text\<close> is the text of exceptions whose message is made by a library.\<close>

record scan_worker =
  wk_config :: worker_config
  wk_executor :: executor
  wk_history :: "hashing option"
  wk_quota :: bool
  wk_concurrency :: int
  wk_scanner_version :: string
  wk_error_text :: "py_error \<Rightarrow> string"

abbreviation worker_of :: "scan_worker \<Rightarrow> string" where
  "worker_of wk \<equiv> wc_worker_id (wk_config wk)"

text \<open>What a run is given from outside: interference, faults, clocks and fresh identifiers.\<close>

record 'db world =
  wd_env :: "'db interference"
  wd_fault :: "nat \<Rightarrow> (nat \<times> py_error) option"
  wd_claim_fault :: "nat \<Rightarrow> py_error option"
  wd_clock :: "nat \<Rightarrow> time"
  wd_scan_clock :: "nat \<Rightarrow> time"
  wd_uuid :: "nat \<Rightarrow> string"

definition call ::
  "'db world \<Rightarrow> nat \<Rightarrow> (nat \<Rightarrow> 'db interference \<Rightarrow> 'db \<Rightarrow> 'db) \<Rightarrow> ('db interference \<Rightarrow> 'db \<Rightarrow> ('a, 'db) outcome) \<Rightarrow> 'db \<Rightarrow>
   ('a, 'db) outcome" where
  "call wd k stopped f db =
     (let db' = wd_env wd [k] db
      in case wd_fault wd k of
           Some (n, e) \<Rightarrow> (Inl e, stopped n (sub (wd_env wd) k) db')
         | None \<Rightarrow> f (sub (wd_env wd) k) db')"

section \<open>Calls that the database stops\<close>

text \<open>A call that only reads, and one that commits once, at its end.\<close>

definition read_stopped :: "nat \<Rightarrow> 'db interference \<Rightarrow> 'db \<Rightarrow> 'db" where
  "read_stopped n e db = db"

definition once_stopped :: "('db interference \<Rightarrow> 'db \<Rightarrow> ('a, 'db) outcome) \<Rightarrow> nat \<Rightarrow> 'db interference \<Rightarrow> 'db \<Rightarrow> 'db" where
  "once_stopped f n e db = (if n = 0 then db else snd (f e db))"

definition call_once ::
  "'db world \<Rightarrow> nat \<Rightarrow> ('db interference \<Rightarrow> 'db \<Rightarrow> ('a, 'db) outcome) \<Rightarrow> 'db \<Rightarrow> ('a, 'db) outcome" where
  "call_once wd k f = call wd k (once_stopped f) f"

text \<open>Giving back a slot: the row of the counter is ensured, then the counter is decreased.\<close>

definition release_stopped ::
  "nat \<Rightarrow> (nat \<Rightarrow> 'x queue_db_scheme \<Rightarrow> 'x queue_db_scheme) \<Rightarrow> string \<Rightarrow> time \<Rightarrow> 'x queue_db_scheme \<Rightarrow> 'x queue_db_scheme" where
  "release_stopped n env w now db =
     (if n = 0 then db
      else case ensure_workspace_runtime (env 0) w now db of
             (Inl e, db1) \<Rightarrow> db1
           | (Inr _, db1) \<Rightarrow> if n = 1 then db1 else drop_slot w now (env 1 db1))"

text \<open>Finishing commits the two rows first; an exception after that leaves the slot taken.\<close>

definition finish_stopped ::
  "nat \<Rightarrow> bool \<Rightarrow> (nat \<Rightarrow> 'x queue_db_scheme \<Rightarrow> 'x queue_db_scheme) \<Rightarrow> string \<Rightarrow> string \<Rightarrow> scan_status \<Rightarrow> int \<Rightarrow>
   string option \<Rightarrow> time \<Rightarrow> 'x queue_db_scheme \<Rightarrow> 'x queue_db_scheme" where
  "finish_stopped n quota env j worker status found message now db =
     (if n = 0 \<or> status \<notin> set [Succeeded, Failed, Canceled] then db
      else case row_of sj_id (scan_jobs db) j of
             None \<Rightarrow> db
           | Some job \<Rightarrow>
               (case finish_tx status now found message j worker db of
                  (False, _) \<Rightarrow> db
                | (True, db1) \<Rightarrow>
                    if quota then release_stopped (n - 1) (\<lambda>n. env (1 + n)) (sj_workspace_id job) now (env 0 db1)
                    else env 0 db1))"

definition fail_stopped ::
  "nat \<Rightarrow> bool \<Rightarrow> (nat \<Rightarrow> 'x queue_db_scheme \<Rightarrow> 'x queue_db_scheme) \<Rightarrow> string \<Rightarrow> string \<Rightarrow> string \<Rightarrow> bool \<Rightarrow> int \<Rightarrow>
   time \<Rightarrow> 'x queue_db_scheme \<Rightarrow> 'x queue_db_scheme" where
  "fail_stopped n quota env j worker message retryable backoff now db =
     (if n = 0 \<or> backoff < 0 then db
      else case get_state j db of
             Inr (Some state) \<Rightarrow>
               if q_lease_owner state \<noteq> Some worker then db
               else let db0 = env 0 db
                    in if retryable \<and> q_attempts state < q_max_attempts state
                       then (case row_of sj_id (scan_jobs db0) j of
                               None \<Rightarrow> db0
                             | Some job \<Rightarrow>
                                 (case retry_tx (now + seconds backoff) j worker db0 of
                                    (False, _) \<Rightarrow> db0
                                  | (True, db1) \<Rightarrow>
                                      if quota then release_stopped (n - 1) (\<lambda>n. env (2 + n)) (sj_workspace_id job) now (env 1 db1)
                                      else env 1 db1))
                       else finish_stopped n quota (\<lambda>n. env (1 + n)) j worker Failed 0 (Some message) now db0
           | _ \<Rightarrow> db)"

text \<open>The sweep commits all rows at once, then gives back the slots one by one.\<close>

fun release_all_stopped ::
  "nat \<Rightarrow> (nat \<Rightarrow> nat \<Rightarrow> 'x queue_db_scheme \<Rightarrow> 'x queue_db_scheme) \<Rightarrow> time \<Rightarrow> nat \<Rightarrow> string list \<Rightarrow>
   'x queue_db_scheme \<Rightarrow> 'x queue_db_scheme" where
  "release_all_stopped n env now i [] db = db"
| "release_all_stopped n env now i (w # ws) db =
     (if n < 2 then release_stopped n (env i) w now (env i 2 db)
      else case release_scan_slot (env i) w now (env i 2 db) of
             (Inl e, db1) \<Rightarrow> db1
           | (Inr _, db1) \<Rightarrow> release_all_stopped (n - 2) env now (i + 1) ws db1)"

definition recover_stopped ::
  "nat \<Rightarrow> bool \<Rightarrow> ('x queue_db_scheme \<Rightarrow> 'x queue_db_scheme) \<Rightarrow>
   (nat \<Rightarrow> nat \<Rightarrow> 'x queue_db_scheme \<Rightarrow> 'x queue_db_scheme) \<Rightarrow> time \<Rightarrow> 'x queue_db_scheme \<Rightarrow> 'x queue_db_scheme" where
  "recover_stopped n quota mid env now db =
     (if n = 0 then db
      else let rows = expired now db; db1 = fold (recover_row now) rows (mid db)
           in if quota then release_all_stopped (n - 1) env now 0 (map (\<lambda>(q, j). sj_workspace_id j) rows) db1 else db1)"

text \<open>
  A claim ensures the counter, takes a slot, and commits the claim of a candidate or gives the slot
  back: also when the claim or the giving back raises, by the handler.
\<close>

fun claim_stopped ::
  "nat \<Rightarrow> bool \<Rightarrow> (nat \<Rightarrow> nat \<Rightarrow> 'x queue_db_scheme \<Rightarrow> 'x queue_db_scheme) \<Rightarrow> string \<Rightarrow> time \<Rightarrow> int \<Rightarrow> time \<Rightarrow> nat \<Rightarrow>
   (string \<times> string) list \<Rightarrow> 'x queue_db_scheme \<Rightarrow> 'x queue_db_scheme" where
  "claim_stopped n quota env worker expires limit now i [] db = db"
| "claim_stopped n quota env worker expires limit now i ((j, w) # cs) db =
     (if n = 0 then db
      else if \<not> quota
      then (case claim_tx worker expires now j (env i 2 db) of
              (True, db4) \<Rightarrow> env i 3 db4
            | (False, _) \<Rightarrow> claim_stopped (n - 1) quota env worker expires limit now (i + 1) cs (env i 2 db))
      else case ensure_workspace_runtime (env i 0) w now db of
        (Inl e, db1) \<Rightarrow> db1
      | (Inr _, db1) \<Rightarrow>
          if n = 1 then db1
          else case take_slot w limit now (env i 1 db1) of
            (False, db2) \<Rightarrow> claim_stopped (n - 2) quota env worker expires limit now (i + 1) cs db2
          | (True, db2) \<Rightarrow>
              let db3 = env i 2 db2; give_back = (\<lambda>k d. snd (release_scan_slot (\<lambda>m. env i (k + m)) w now d))
              in if n = 2 then give_back 3 db3
                 else case claim_tx worker expires now j db3 of
                   (True, db4) \<Rightarrow> env i 3 db4
                 | (False, _) \<Rightarrow>
                     if n < 5 then give_back 5 (release_stopped (n - 3) (\<lambda>m. env i (3 + m)) w now db3)
                     else claim_stopped (n - 5) quota env worker expires limit now (i + 1) cs (give_back 3 db3))"

definition claim_next_stopped ::
  "nat \<Rightarrow> bool \<Rightarrow> (nat \<Rightarrow> nat \<Rightarrow> 'x queue_db_scheme \<Rightarrow> 'x queue_db_scheme) \<Rightarrow> string \<Rightarrow> int \<Rightarrow> int \<Rightarrow> time \<Rightarrow>
   'x queue_db_scheme \<Rightarrow> 'x queue_db_scheme" where
  "claim_next_stopped n quota env worker lease_seconds limit now db =
     (if strip worker = [] \<or> \<not> (5 \<le> lease_seconds \<and> lease_seconds \<le> 3600) \<or> limit < 1 then db
      else claim_stopped n quota env worker (now + seconds lease_seconds) limit now 0 (candidates now db) db)"

text \<open>The executor commits the policy, then what the collection of the observations commits.\<close>

definition execute_stopped ::
  "nat \<Rightarrow> executor \<Rightarrow> ('x repository_db_scheme) interference \<Rightarrow> managed_asset \<Rightarrow> string option \<Rightarrow> string option \<Rightarrow> string option \<Rightarrow>
   (nat \<Rightarrow> time) \<Rightarrow> 'x repository_db_scheme \<Rightarrow> 'x repository_db_scheme" where
  "execute_stopped n ex env asset source filename job clock db =
     (if n = 0 then db
      else if n = 1 then snd (workspace_policy ex (env [0]) (clock 2) (ma_workspace_id asset) db)
      else snd (execute_with_provenance ex env asset source filename job clock db))"

section \<open>Errors\<close>

text \<open>\<open>OSError\<close> (also \<open>PermissionError\<close>) and \<open>SQLAlchemyError\<close> are worth another attempt.\<close>

fun retryable_error :: "py_error \<Rightarrow> bool" where
  "retryable_error (OSError _) = True"
| "retryable_error (PermissionError _) = True"
| "retryable_error IntegrityError = True"
| "retryable_error OperationalError = True"
| "retryable_error StaleDataError = True"
| "retryable_error InvalidRequestError = True"
| "retryable_error _ = False"

fun error_text :: "(py_error \<Rightarrow> string) \<Rightarrow> py_error \<Rightarrow> string" where
  "error_text t (ValueError m) = m"
| "error_text t (LookupError m) = m"
| "error_text t (RuntimeError m) = m"
| "error_text t (PermissionError m) = m"
| "error_text t (OSError m) = m"
| "error_text t (OtherError c m) = m"
| "error_text t e = t e"

section \<open>One run\<close>

text \<open>Asking whether the scan is to be canceled, and doing so: calls \<open>k\<close> and \<open>k + 1\<close>.\<close>

definition cancel_point ::
  "scan_worker \<Rightarrow> ('x repository_db_scheme) world \<Rightarrow> string \<Rightarrow> nat \<Rightarrow> 'x repository_db_scheme \<Rightarrow>
   (bool, 'x repository_db_scheme) outcome" where
  "cancel_point wk wd j k db =
     thenS (call wd k read_stopped (\<lambda>e d. (should_cancel j (worker_of wk) d, d)) db) (\<lambda>c db1.
       if c
       then thenS (call wd (k + 1)
                (\<lambda>n e. finish_stopped n (wk_quota wk) (points e) j (worker_of wk) Canceled 0 None (wd_clock wd (k + 1)))
                (\<lambda>e. acknowledge_cancel (wk_quota wk) (points e) j (worker_of wk) (wd_clock wd (k + 1))) db1)
              (\<lambda>_ db2. (Inr True, db2))
       else (Inr False, db1))"

definition heartbeat_or_cancel ::
  "scan_worker \<Rightarrow> ('x repository_db_scheme) world \<Rightarrow> string \<Rightarrow> 'x repository_db_scheme \<Rightarrow>
   (bool, 'x repository_db_scheme) outcome" where
  "heartbeat_or_cancel wk wd j db =
     (case call_once wd 5 (\<lambda>e. heartbeat (points e) j (worker_of wk) (wc_lease_seconds (wk_config wk)) (wd_clock wd 5)) db of
        (Inr _, db1) \<Rightarrow> (Inr False, db1)
      | (Inl (RuntimeError m), db1) \<Rightarrow>
          thenS (cancel_point wk wd j 6 db1) (\<lambda>c db2. if c then (Inr True, db2) else (Inl (RuntimeError m), db2))
      | (Inl e, db1) \<Rightarrow> (Inl e, db1))"

datatype scan_end = ScanCanceled | ScanSucceeded "finding list"

text \<open>From the scan to the completion of the job: calls 8 to 13.\<close>

definition scan_and_store ::
  "scan_worker \<Rightarrow> ('x repository_db_scheme) world \<Rightarrow> scan_job \<Rightarrow> managed_asset \<Rightarrow> 'x repository_db_scheme \<Rightarrow>
   (scan_end, 'x repository_db_scheme) outcome" where
  "scan_and_store wk wd job asset db =
     thenS (call wd 8 (\<lambda>n e. execute_stopped n (wk_executor wk) e asset None None (Some (sj_id job)) (wd_scan_clock wd))
              (\<lambda>e. execute_with_provenance (wk_executor wk) e asset None None (Some (sj_id job)) (wd_scan_clock wd)) db)
       (\<lambda>(found, policy_version) db1.
         let results = (case wk_history wk of Some h \<Rightarrow> prepare_findings h (sj_id job) found | None \<Rightarrow> found)
         in thenS (cancel_point wk wd (sj_id job) 9 db1) (\<lambda>c db2.
              if c then (Inr ScanCanceled, db2)
              else thenS (call_once wd 11 (\<lambda>e. upsert_many results (Some (sj_workspace_id job)) (Some (ma_id asset)) (Some (sj_id job))) db2)
                (\<lambda>_ db3.
                  thenS (case wk_history wk of
                           None \<Rightarrow> (Inr [], db3)
                         | Some h \<Rightarrow> call_once wd 12 (\<lambda>e. record_successful_scan h (wd_uuid wd) (sj_workspace_id job) (ma_id asset) (sj_id job)
                             results (wd_clock wd 12) (wk_scanner_version wk) policy_version) db3)
                    (\<lambda>_ db4.
                      thenS (call wd 13
                               (\<lambda>n e. finish_stopped n (wk_quota wk) (points e) (sj_id job) (worker_of wk) Succeeded (int (length results)) None
                                  (wd_clock wd 13))
                               (\<lambda>e. complete_scan (wk_quota wk) (points e) (sj_id job) (worker_of wk) (int (length results))
                               (wd_clock wd 13)) db4)
                        (\<lambda>_ db5. (Inr (ScanSucceeded results), db5))))))"

text \<open>The body of the \<open>try\<close> statement.\<close>

definition scan_body ::
  "scan_worker \<Rightarrow> ('x repository_db_scheme) world \<Rightarrow> scan_job \<Rightarrow> 'x repository_db_scheme \<Rightarrow>
   (scan_end, 'x repository_db_scheme) outcome" where
  "scan_body wk wd job db =
     thenS (cancel_point wk wd (sj_id job) 2 db) (\<lambda>c db1.
       if c then (Inr ScanCanceled, db1)
       else thenS (call wd 4 read_stopped (\<lambda>e d. (get_asset (sj_workspace_id job) (sj_asset_id job) d, d)) db1) (\<lambda>asset db2.
         case asset of
           None \<Rightarrow> (Inl (RuntimeError ''managed asset no longer exists''), db2)
         | Some asset \<Rightarrow>
             if ma_kind asset = KSource
             then (Inl (RuntimeError ''durable source scans require a repository-backed source collector''), db2)
             else thenS (heartbeat_or_cancel wk wd (sj_id job) db2) (\<lambda>c db3.
               if c then (Inr ScanCanceled, db3) else scan_and_store wk wd job asset db3)))"

definition run_worker_once ::
  "scan_worker \<Rightarrow> ('x repository_db_scheme) world \<Rightarrow> 'x repository_db_scheme \<Rightarrow> (bool, 'x repository_db_scheme) outcome" where
  "run_worker_once wk wd db =
     thenS (call wd 0 (\<lambda>n e. recover_stopped n (wk_quota wk) (e [0]) (\<lambda>i n. e [1, i, n]) (wd_clock wd 0))
              (\<lambda>e. recover_expired_leases (wk_quota wk) (e [0]) (\<lambda>i n. e [1, i, n]) (wd_clock wd 0)) db) (\<lambda>_ db1.
     thenS (call wd 1
              (\<lambda>n e. claim_next_stopped n (wk_quota wk) (\<lambda>i n. e [i, n]) (worker_of wk) (wc_lease_seconds (wk_config wk))
                 (wk_concurrency wk) (wd_clock wd 1))
              (\<lambda>e. claim_next (\<lambda>i n. e [i, n]) (wd_claim_fault wd) (wk_quota wk) (worker_of wk)
                 (wc_lease_seconds (wk_config wk)) (Some (wk_concurrency wk)) (wd_clock wd 1)) db1) (\<lambda>lease db2.
       case lease of
         None \<Rightarrow> (Inr False, db2)
       | Some lease \<Rightarrow>
           (case scan_body wk wd (sl_job lease) db2 of
              (Inr _, db3) \<Rightarrow> (Inr True, db3)
            | (Inl e, db3) \<Rightarrow>
                thenS (call wd 14
                         (\<lambda>n e'. fail_stopped n (wk_quota wk) (points e') (sj_id (sl_job lease)) (worker_of wk)
                            (error_text (wk_error_text wk) e) (retryable_error e) (wc_retry_backoff_seconds (wk_config wk))
                            (wd_clock wd 14))
                         (\<lambda>e'. fail_scan (wk_quota wk) (points e') (sj_id (sl_job lease)) (worker_of wk)
                            (error_text (wk_error_text wk) e) (retryable_error e) (wc_retry_backoff_seconds (wk_config wk))
                            (wd_clock wd 14)) db3)
                  (\<lambda>_ db4. (Inr True, db4)))))"

end
