(* ===== verification/WorkerRuns.thy ===== *)
theory WorkerRuns
  imports Worker QueueProperties
begin

text \<open>
  What a worker's runs do to the queue. The locale \<open>queue_frame\<close> states what a scan needs of a relation
  between databases to stay within it, whatever others commit meanwhile; it is interpreted on the
  runs of the queue, for any interference, and on the equality of its tables, for none. A run of the
  worker is a run of the queue, wherever the database fails: a failure between leaving a job and giving
  back its slot leaves the slot held for good (\<open>stopped_run\<close>), nothing else gets out of step.
  \<open>WorkerLeases\<close> shows what becomes of the scan it claims.
\<close>

section \<open>Operations that stay within a relation\<close>

definition keeps :: "('d \<Rightarrow> 'd \<Rightarrow> bool) \<Rightarrow> ('d \<Rightarrow> ('a, 'd) outcome) \<Rightarrow> bool" where
  "keeps R f \<longleftrightarrow> (\<forall>d. R d (snd (f d)))"

lemma keepsD: "keeps R f \<Longrightarrow> f d = (r, d') \<Longrightarrow> R d d'"
  unfolding keeps_def by (metis snd_conv)

lemma keepsI: "(\<And>d. R d (snd (f d))) \<Longrightarrow> keeps R f"
  by (simp add: keeps_def)

text \<open>Operations that leave jobs, queue, counters, workspaces and assets alone.\<close>

definition same_queue :: "'x queue_db_scheme \<Rightarrow> 'x queue_db_scheme \<Rightarrow> bool" where
  "same_queue d d' \<longleftrightarrow> scan_jobs d' = scan_jobs d \<and> scan_queue d' = scan_queue d \<and> runtimes d' = runtimes d \<and>
     workspaces d' = workspaces d \<and> managed_assets d' = managed_assets d"

lemma same_queue_refl [simp]: "same_queue d d"
  by (simp add: same_queue_def)

lemma same_queue_trans: "same_queue a b \<Longrightarrow> same_queue b c \<Longrightarrow> same_queue a c"
  by (simp add: same_queue_def)

lemma upsert_same: "same_queue d (snd (upsert_many fs w a j d))"
proof -
  have one: "same_queue d (upsert_one scope f d)" for scope f and d :: "'x findings_db_scheme"
    by (simp add: upsert_one_def same_queue_def Let_def split: option.split)
  have "same_queue d (fold (upsert_one scope) fs d)" for scope
    by (induction fs arbitrary: d) (auto intro: same_queue_trans one)
  then show ?thesis by (simp add: upsert_many_def Let_def)
qed

lemma record_same: "same_queue d (snd (record_successful_scan h u w a j fs now sv pv d))"
  by (simp add: record_successful_scan_def same_queue_def Let_def split: prod.split)

locale queue_frame =
  fixes R :: "'x repository_db_scheme \<Rightarrow> 'x repository_db_scheme \<Rightarrow> bool"
  assumes same: "same_queue d d' \<Longrightarrow> R d d'" and join: "R a b \<Longrightarrow> R b c \<Longrightarrow> R a c"
begin

lemma R_refl [simp]: "R d d"
  by (rule same) simp

lemma keeps_same: "(\<And>d. same_queue d (snd (f d))) \<Longrightarrow> keeps R f"
  by (simp add: keeps_def same)

lemma keeps_pure: "keeps R (\<lambda>d. (f d, d))"
  by (simp add: keeps_def)

lemma keeps_const: "keeps R (Pair r)"
  by (simp add: keeps_def)

lemma keeps_handle: "keeps R f \<Longrightarrow> (\<And>r. keeps R (g r)) \<Longrightarrow> keeps R (\<lambda>d. case f d of (r, d') \<Rightarrow> g r d')"
  unfolding keeps_def by (metis join prod.case_eq_if)

lemma keeps_thenS:
  assumes "keeps R f" "\<And>a. keeps R (g a)"
  shows "keeps R (\<lambda>d. thenS (f d) g)"
proof (rule keepsI)
  fix d
  obtain r d' where f: "f d = (r, d')" by (cases "f d")
  have "R d d'" by (rule keepsD [OF assms(1) f])
  then show "R d (snd (thenS (f d) g))" using assms(2) join by (cases r) (auto simp: f keeps_def)
qed

lemma keeps_judged: "keeps R f \<Longrightarrow> keeps R (\<lambda>d. thenS (f d) (\<lambda>a d'. (g a, d')))"
  by (erule keeps_thenS) (rule keeps_pure)

lemma keeps_if: "keeps R f \<Longrightarrow> keeps R g \<Longrightarrow> keeps R (\<lambda>d. if c then f d else g d)"
  by (cases c) simp_all

lemma keeps_option: "keeps R f \<Longrightarrow> (\<And>a. keeps R (g a)) \<Longrightarrow> keeps R (\<lambda>d. case x of None \<Rightarrow> f d | Some a \<Rightarrow> g a d)"
  by (cases x) simp_all

lemma keeps_after: "keeps R f \<Longrightarrow> (\<And>d. R d (env d)) \<Longrightarrow> keeps R (\<lambda>d. f (env d))"
  unfolding keeps_def by (meson join)

lemmas keeps_intros = keeps_if keeps_option keeps_thenS keeps_const

text \<open>Reading, then a commit after others have committed: nothing, or a change beside the queue.\<close>

lemma keeps_commit:
  assumes "\<And>d. R d (env d)" "\<And>d. same_queue (env d) (snd (f d)) \<or> snd (f d) = d"
  shows "keeps R f"
  unfolding keeps_def using assms join same R_refl by metis

lemma workspace_policy_keeps:
  assumes env: "\<And>d. R d (env d)"
  shows "keeps R (workspace_policy ex env now w)"
proof -
  have "keeps R (ensure_builtins h env w now)" for h
    by (rule keeps_commit [OF env])
      (auto simp: ensure_builtins_def same_queue_def Let_def split: prod.splits option.splits)
  moreover have "snd (effective_policy_of h env now w d) = snd (ensure_builtins h env w now d)" for h d
    by (simp add: effective_policy_of_def split: prod.split sum.split)
  ultimately have "keeps R (effective_policy_of h env now w)" for h by (simp add: keeps_def)
  then show ?thesis unfolding workspace_policy_def
    by (cases "ex_policies ex") (auto intro: keeps_const keeps_thenS)
qed

lemma credential_material_keeps:
  assumes env: "\<And>n d. R d (env n d)"
  shows "keeps R (credential_material rs env config now)"
proof -
  have use: "keeps R (resolve_for_use lib ci env w i now)" for lib ci w i
    by (rule keeps_commit [OF env [of _ 1]])
      (auto simp: resolve_for_use_def commit_credential_def same_queue_def split: sum.splits prod.splits)
  have "R d (snd (credential_material rs env config now d))" for d
    using use by (auto simp: credential_material_def keeps_def split: option.splits sum.splits prod.splits if_splits) (metis snd_conv)+
  then show ?thesis by (rule keepsI)
qed

lemma record_provenance_keeps:
  assumes env: "\<And>d. R d (env d)"
  shows "keeps R (record_scan_provenance env v)"
  by (rule keeps_commit [OF env])
    (auto simp: record_scan_provenance_def same_queue_def Let_def split: option.splits)

lemma scan_repository_keeps:
  assumes env: "\<And>n d. R d (env n d)"
  shows "keeps R (scan_repository rs env asset job clock)"
proof (rule keepsI)
  fix d
  have used: "R d d1" if "credential_material rs env config now d = (r, d1)" for config now r d1
    by (rule keepsD [OF credential_material_keeps [OF env] that])
  have late: "R d (env 2 d1)" if "credential_material rs env config now d = (r, d1)" for config now r d1
    by (rule join [OF used [OF that] env])
  have stored: "R d d3" if "credential_material rs env config now d = (r, d1)" "record_scan_provenance (env 3) v (env 2 d1) = (u, d3)"
    for config now r d1 v u d3
    by (rule join [OF late [OF that(1)] keepsD [OF record_provenance_keeps [OF env] that(2)]])
  show "R d (snd (scan_repository rs env asset job clock d))"
    by (simp add: scan_repository_def Let_def split: sum.split prod.split) (auto intro: used late stored)
qed

lemma collect_asset_keeps:
  assumes env: "\<And>ns d. R d (env ns d)"
  shows "keeps R (collect_asset ex env asset source filename job clock)"
proof -
  have "keeps R (scan_repository rs (points env) asset j clock)" for rs j
    by (rule scan_repository_keeps) (simp add: points_def env)
  from keeps_judged [OF this, where g="\<lambda>(obs, provenance). Inr obs"]
  have repository: "keeps R (\<lambda>d. thenS (scan_repository rs (points env) asset j clock d) (\<lambda>(obs, provenance) d'. (Inr obs, d')))" for rs j
    by (simp add: case_prod_unfold)
  show ?thesis
    by (cases "ma_kind asset"; cases "ex_repository ex"; cases job; cases "some_text source")
       (simp_all add: collect_asset_def [abs_def] keeps_pure keeps_const repository)
qed

lemma execute_keeps:
  assumes env: "\<And>ns d. R d (env ns d)"
  shows "keeps R (execute_with_provenance ex env asset source filename job clock)"
proof -
  have collected: "keeps R (collect_asset ex (sub env 1) asset source filename job clock)"
    by (rule collect_asset_keeps) (simp add: sub_def env)
  have "keeps R (\<lambda>d. thenS (workspace_policy ex (env [0]) (clock 2) (ma_workspace_id asset) d) (\<lambda>policy d1.
      thenS (collect_asset ex (sub env 1) asset source filename job clock (env [2] d1)) (\<lambda>observations d2. (judge asset policy observations, d2))))"
    by (rule keeps_thenS [OF workspace_policy_keeps [OF env] keeps_judged [OF keeps_after [OF collected env]]])
  then show ?thesis by (cases "ma_enabled asset") (simp_all add: execute_with_provenance_def [abs_def] keeps_const)
qed

lemma upsert_keeps: "keeps R (upsert_many fs w a j)"
  by (rule keeps_same) (rule upsert_same)

lemma record_keeps: "keeps R (record_successful_scan h u w a j fs now sv pv)"
  by (rule keeps_same) (rule record_same)

lemma once_stopped_keeps: "keeps R (f e) \<Longrightarrow> R d (once_stopped f n e d)"
  by (simp add: once_stopped_def keeps_def)

lemma execute_stopped_keeps:
  assumes env: "\<And>ns d. R d (env ns d)"
  shows "R d (execute_stopped n ex env asset source filename job clock d)"
  using execute_keeps [where env = env, OF env, of ex asset source filename job clock] workspace_policy_keeps [OF env]
  by (simp add: execute_stopped_def keeps_def)

text \<open>A call of the worker, with the commits of others before it and inside it.\<close>

lemma call_keeps:
  assumes env: "\<And>ns d. R d (wd_env wd ns d)" and f: "keeps R (f (sub (wd_env wd) k))"
    and stopped: "\<And>n e d. wd_fault wd k = Some (n, e) \<Longrightarrow> R d (stopped n (sub (wd_env wd) k) d)"
  shows "keeps R (call wd k stopped f)"
proof (rule keepsI)
  fix d
  have "R (wd_env wd [k] d) (snd (call wd k stopped f d))"
    using f stopped by (cases "wd_fault wd k") (auto simp: call_def keeps_def Let_def)
  then show "R d (snd (call wd k stopped f d))" by (rule join [OF env])
qed

lemma call_read_keeps:
  assumes "\<And>ns d. R d (wd_env wd ns d)"
  shows "keeps R (call wd k read_stopped (\<lambda>e d. (f d, d)))"
  by (rule call_keeps [OF assms keeps_pure]) (simp add: read_stopped_def)

lemma call_once_keeps:
  assumes "\<And>ns d. R d (wd_env wd ns d)" "keeps R (f (sub (wd_env wd) k))"
  shows "keeps R (call_once wd k f)"
  unfolding call_once_def by (rule call_keeps) (rule assms once_stopped_keeps)+

end

interpretation queue_tables: queue_frame same_queue
  by unfold_locales (auto intro: same_queue_trans)

section \<open>Runs of the queue\<close>

text \<open>A run of the queue that may only leave more slots held, and none more unless \<open>leaky\<close>.\<close>

definition queue_runs :: "int \<Rightarrow> bool \<Rightarrow> 'x repository_db_scheme \<Rightarrow> 'x repository_db_scheme \<Rightarrow> bool" where
  "queue_runs limit leaky d d' \<longleftrightarrow>
     (\<forall>p. queue_inv limit (d, p) \<longrightarrow> (\<exists>p'. good_run limit (d, p) (d', p') \<and> p \<le> p' \<and> (leaky \<or> p' = p)))"

lemma queue_runsI: "(\<And>p. queue_inv limit (d, p) \<Longrightarrow> good_run limit (d, p) (d', p)) \<Longrightarrow> queue_runs limit leaky d d'"
  by (auto simp: queue_runs_def)

lemma good_run_join: "good_run limit s s' \<Longrightarrow> good_run limit s' s'' \<Longrightarrow> good_run limit s s''"
  by (auto simp: good_run_def)

lemma queue_runs_join:
  assumes "queue_runs limit leaky a b" "queue_runs limit leaky b c"
  shows "queue_runs limit leaky a c"
  unfolding queue_runs_def
proof (intro allI impI)
  fix p assume "queue_inv limit (a, p)"
  then obtain p' where p': "good_run limit (a, p) (b, p')" "p \<le> p'" "leaky \<or> p' = p" using assms(1) by (auto simp: queue_runs_def)
  obtain p'' where p'': "good_run limit (b, p') (c, p'')" "p' \<le> p''" "leaky \<or> p'' = p'"
    using assms(2) good_run_end [OF p'(1)] by (auto simp: queue_runs_def)
  show "\<exists>q. good_run limit (a, p) (c, q) \<and> p \<le> q \<and> (leaky \<or> q = p)"
    using good_run_join [OF p'(1) p''(1)] order_trans [OF p'(2) p''(2)] p'(3) p''(3) by blast
qed

lemma same_queue_run:
  assumes "same_queue d d'" "queue_inv limit (d, p)"
  shows "good_run limit (d, p) (d', p)"
proof -
  have "known_workspace d' w = known_workspace d w" for w using assms(1) by (simp add: known_workspace_def same_queue_def)
  then have "queue_step limit (d, p) (d', p)"
    using queue_invD(1) [OF assms(2)] assms(1) by (intro queue_step.others) (auto simp: same_queue_def queue_ok_def)
  then show ?thesis by (rule good_run_step [OF good_run_refl [OF assms(2)]])
qed

interpretation queue_run: queue_frame "queue_runs limit leaky" for limit leaky
  by unfold_locales (auto intro: queue_runsI same_queue_run queue_runs_join)

lemma rely_runs: "queue_rely limit env \<Longrightarrow> queue_runs limit leaky d (env d)"
  using good_run_env [OF good_run_refl] by (blast intro: queue_runsI)

lemma keeps_runsI: "(\<And>d p. queue_inv limit (d, p) \<Longrightarrow> good_run limit (d, p) (snd (f d), p)) \<Longrightarrow> keeps (queue_runs limit leaky) f"
  by (auto simp: keeps_def intro: queue_runsI)

section \<open>Calls the database stops\<close>

text \<open>What a stopped call leaves: a run of the queue with at least the slots held before, and exactly
  those when nothing was committed.\<close>

definition stopped_run ::
  "int \<Rightarrow> 'x queue_db_scheme \<times> (string \<Rightarrow> nat) \<Rightarrow> nat \<Rightarrow> (string \<Rightarrow> nat) \<Rightarrow> 'x queue_db_scheme \<Rightarrow> bool" where
  "stopped_run limit s n p d \<longleftrightarrow> (\<exists>p'. good_run limit s (d, p') \<and> p \<le> p' \<and> (n = 0 \<longrightarrow> p' = p))"

lemma stopped_runI: "good_run limit s (d, p) \<Longrightarrow> stopped_run limit s n p d"
  by (auto simp: stopped_run_def)

lemma stopped_run_held: "good_run limit s (d, p') \<Longrightarrow> p \<le> p' \<Longrightarrow> 0 < n \<Longrightarrow> stopped_run limit s n p d"
  by (auto simp: stopped_run_def)

lemma held_more: "p \<le> held p ws" "p \<le> p(w := p w + 1)" "p \<le> p(w := Suc (p w))"
  by (auto simp: held_def le_fun_def)

lemma release_stopped_run:
  assumes run: "good_run limit s (db, p)" and env: "\<And>n. queue_rely limit (env n)" and p: "0 < p w" and "q \<le> p" "q \<le> p(w := p w - 1)"
    and "0 < k"
  shows "stopped_run limit s k q (release_stopped n env w now db)"
proof -
  obtain u db1 where e: "ensure_workspace_runtime (env 0) w now db = (u, db1)"
    by (cases "ensure_workspace_runtime (env 0) w now db")
  have run1: "good_run limit s (db1, p)" by (rule ensure_run(1) [OF run env e])
  have "good_run limit s (drop_slot w now (env 1 db1), p(w := p w - 1))"
    by (rule good_run_step [OF good_run_env [OF run1 env] queue_step.dropped]) (rule p)
  then show ?thesis
    using run run1 assms(4-6) by (auto simp: release_stopped_def e intro: stopped_run_held split: sum.split)
qed

lemma finish_stopped_run:
  assumes run: "good_run limit s (db, p)" and env: "\<And>n. queue_rely limit (env n)" and "0 \<le> found"
  shows "stopped_run limit s n p (finish_stopped n True env j worker status found m now db)"
proof (cases "n = 0 \<or> status \<notin> set [Succeeded, Failed, Canceled] \<or> row_of sj_id (scan_jobs db) j = None \<or>
    \<not> fst (finish_tx status now found m j worker db)")
  case True
  then have "finish_stopped n True env j worker status found m now db = db"
    by (auto simp: finish_stopped_def split: option.split prod.split bool.split)
  then show ?thesis using run by (simp add: stopped_runI)
next
  case False
  then obtain job db1 where job: "row_of sj_id (scan_jobs db) j = Some job"
    and tx: "finish_tx status now found m j worker db = (True, db1)"
    by (cases "finish_tx status now found m j worker db") auto
  let ?w = "sj_workspace_id job"
  have "queue_step limit (db, p) (db1, p(?w := p ?w + 1))"
    by (rule queue_step.finished [OF tx _ assms(3) job]) (use False in auto)
  note run1 = good_run_env [OF good_run_step [OF run this] env [of 0]]
  have "stopped_run limit s n p (release_stopped (n - 1) (\<lambda>n. env (1 + n)) ?w now (env 0 db1))"
    by (rule release_stopped_run [OF run1 env]) (use False in \<open>simp_all add: held_more fun_upd_idem\<close>)
  then show ?thesis using False by (simp add: finish_stopped_def job tx)
qed

lemma fail_stopped_run:
  assumes inv: "queue_inv limit (db, p)" and env: "\<And>n. queue_rely limit (env n)"
  shows "stopped_run limit (db, p) n p (fail_stopped n True env j worker m retryable backoff now db)"
proof -
  note start = good_run_refl [OF inv]
  note run0 = good_run_env [OF start env [of 0]]
  show ?thesis
  proof (cases "\<exists>state. 0 < n \<and> 0 \<le> backoff \<and> get_state j db = Inr (Some state) \<and> q_lease_owner state = Some worker")
    case False
    then have "fail_stopped n True env j worker m retryable backoff now db = db"
      by (auto simp: fail_stopped_def split: sum.split option.split)
    with start show ?thesis by (simp add: stopped_runI)
  next
    case True
    then obtain state where st: "0 < n" "0 \<le> backoff" "get_state j db = Inr (Some state)" "q_lease_owner state = Some worker" by blast
    show ?thesis
    proof (cases "retryable \<and> q_attempts state < q_max_attempts state")
      case False
      with st finish_stopped_run [OF run0, of "\<lambda>n. env (1 + n)" 0 n j worker Failed] env show ?thesis
        by (auto simp: fail_stopped_def Let_def)
    next
      case retry: True
      obtain b db1 where tx: "retry_tx (now + seconds backoff) j worker (env 0 db) = (b, db1)"
        by (cases "retry_tx (now + seconds backoff) j worker (env 0 db)")
      show ?thesis
      proof (cases "b \<and> row_of sj_id (scan_jobs (env 0 db)) j \<noteq> None")
        case False
        then have "fail_stopped n True env j worker m retryable backoff now db = env 0 db"
          using st retry tx by (auto simp: fail_stopped_def Let_def split: option.split)
        with run0 show ?thesis by (simp add: stopped_runI)
      next
        case b: True
        then obtain job where job: "row_of sj_id (scan_jobs (env 0 db)) j = Some job" by blast
        let ?w = "sj_workspace_id job"
        have "queue_step limit (env 0 db, p) (db1, p(?w := p ?w + 1))"
          by (rule queue_step.retried [OF _ job]) (use tx b in auto)
        note run1 = good_run_env [OF good_run_step [OF run0 this] env [of 1]]
        have "stopped_run limit (db, p) n p (release_stopped (n - 1) (\<lambda>n. env (2 + n)) ?w now (env 1 db1))"
          by (rule release_stopped_run [OF run1 env]) (use st in \<open>simp_all add: held_more fun_upd_idem\<close>)
        then show ?thesis using st retry tx b job by (simp add: fail_stopped_def Let_def)
      qed
    qed
  qed
qed

lemma release_all_stopped_run:
  assumes "good_run limit s (db, held p ws)" and env: "\<And>i n. queue_rely limit (env i n)" and "0 < k"
  shows "stopped_run limit s k p (release_all_stopped n env now i ws db)"
  using assms(1)
proof (induction ws arbitrary: n i db)
  case Nil
  then show ?case by (simp add: stopped_runI)
next
  case (Cons w ws)
  note run = good_run_env [OF Cons.prems env [of i 2]]
  have held: "0 < held p (w # ws) w" "(held p (w # ws))(w := held p (w # ws) w - 1) = held p ws"
    by (auto simp: held_def fun_eq_iff)
  obtain u db1 where rel: "release_scan_slot (env i) w now (env i 2 db) = (u, db1)"
    by (cases "release_scan_slot (env i) w now (env i 2 db)")
  have "good_run limit s (db1, held p ws)" "u = Inr ()"
    using release_run [OF run env held(1) rel] by (simp_all only: held(2))
  moreover have "stopped_run limit s k p (release_stopped n (env i) w now (env i 2 db))"
    by (rule release_stopped_run [OF run env held(1)]) (simp_all only: held(2) held_more assms(3))
  ultimately show ?case using Cons.IH [of db1] rel by simp
qed

lemma recover_stopped_run:
  assumes inv: "queue_inv limit (db, p)" and mid: "queue_rely limit mid" "steady Running (expired_ids now db) db (mid db)"
    and env: "\<And>i n. queue_rely limit (env i n)"
  shows "stopped_run limit (db, p) n p (recover_stopped n True mid env now db)"
  using release_all_stopped_run [OF recovered_run [OF inv mid] env, of n] stopped_runI [OF good_run_refl [OF inv]]
  by (simp add: recover_stopped_def Let_def)

lemma claim_stopped_run:
  assumes "good_run limit s (db, p)" and env: "\<And>i n. queue_rely limit (env i n)" and "names_jobs cs db"
  shows "good_run limit s (claim_stopped n True env worker expires limit now i cs db, p)"
  using assms(1,3)
proof (induction cs arbitrary: n i db)
  case Nil
  then show ?case by simp
next
  case (Cons c cs)
  obtain j w where c: "c = (j, w)" by (cases c)
  obtain u db1 where e: "ensure_workspace_runtime (env i 0) w now db = (u, db1)"
    by (cases "ensure_workspace_runtime (env i 0) w now db")
  obtain b db2 where t: "take_slot w limit now (env i 1 db1) = (b, db2)" by (cases "take_slot w limit now (env i 1 db1)")
  note run1 = ensure_run(1) [OF Cons.prems(1) env e]
  show ?case
  proof (cases "u = Inr () \<and> 1 < n")
    case False
    with Cons.prems(1) run1 show ?thesis by (cases u) (auto simp: c e)
  next
    case True
    note start = good_run_refl [OF good_run_end [OF Cons.prems(1)]]
    note run1' = good_run_env [OF run1 env [of i 1]] and here = good_run_env [OF ensure_run(1) [OF start env e] env [of i 1]]
    have known: "known_workspace (env i 1 db1) w"
      using good_run_known [OF good_run_env [OF good_run_refl [OF good_run_end [OF run1]] env [of i 1]]] ensure_run(2) [OF Cons.prems(1) env e] True
      by simp
    show ?thesis
    proof (cases b)
      case False
      have step: "queue_step limit (env i 1 db1, q) (db2, q)" for q by (rule queue_step.refused) (use t False in simp)
      have "names_jobs cs db2"
        using names_jobs_run [OF Cons.prems(2) good_run_step [OF here step]] by (simp add: names_jobs_def)
      from Cons.IH [OF good_run_step [OF run1' step] this] True False t show ?thesis by (simp add: c e)
    next
      case taken: True
      let ?p = "p(w := p w + 1)" and ?db3 = "env i 2 db2"
      have step: "queue_step limit (env i 1 db1, p) (db2, ?p)" by (rule queue_step.taken [OF _ known]) (use t taken in simp)
      note run3 = good_run_env [OF good_run_step [OF run1' step] env [of i 2]]
      note here3 = good_run_env [OF good_run_step [OF here step] env [of i 2]]
      have names: "names_jobs (c # cs) ?db3" by (rule names_jobs_run [OF Cons.prems(2) here3])
      have returned: "good_run limit s (snd (release_scan_slot (\<lambda>m. env i (k + m)) w now d), p)" if "good_run limit s (d, ?p)" for k d s
      proof -
        have p: "0 < ?p w" "?p(w := ?p w - 1) = p" by (auto simp: fun_eq_iff)
        obtain u d' where d': "release_scan_slot (\<lambda>m. env i (k + m)) w now d = (u, d')"
          by (cases "release_scan_slot (\<lambda>m. env i (k + m)) w now d")
        from release_run(1) [OF that env p(1) d'] show ?thesis by (simp only: p(2) d' snd_conv)
      qed
      have names': "names_jobs cs (snd (release_scan_slot (\<lambda>m. env i (k + m)) w now ?db3))" for k
        using names_jobs_run [OF Cons.prems(2) returned [OF here3]] by (simp add: names_jobs_def)
      have again: "good_run limit s (snd (release_scan_slot (\<lambda>m. env i (5 + m)) w now (release_stopped (n - 3) (\<lambda>m. env i (3 + m)) w now ?db3)), p)"
        if "2 < n" "n < 5"
      proof -
        obtain v d where d: "ensure_workspace_runtime (env i 3) w now ?db3 = (v, d)" by (cases "ensure_workspace_runtime (env i 3) w now ?db3")
        have "good_run limit s (release_stopped (n - 3) (\<lambda>m. env i (3 + m)) w now ?db3, ?p)"
          using run3 ensure_run(1) [OF run3 env d] that by (cases v) (auto simp: release_stopped_def d)
        from returned [OF this] show ?thesis .
      qed
      obtain b4 db4 where tx: "claim_tx worker expires now j ?db3 = (b4, db4)" by (cases "claim_tx worker expires now j ?db3")
      have "good_run limit s (env i 3 db4, p)" if b4
      proof -
        obtain job where job: "row_of sj_id (scan_jobs ?db3) j = Some job" "sj_workspace_id job = w"
          using names by (auto simp: names_jobs_def c)
        have "queue_step limit (?db3, ?p) (db4, ?p(w := ?p w - 1))"
          using queue_step.claimed [of worker expires now j ?db3 db4 job ?p limit] tx that job by simp
        from good_run_env [OF good_run_step [OF run3 this] env] show ?thesis by simp
      qed
      then show ?thesis
        using True taken t tx returned [OF run3, of 3] again Cons.IH [OF returned [OF run3] names']
        by (cases b4) (auto simp: c e Let_def)
    qed
  qed
qed

section \<open>A run of the worker\<close>

text \<open>
  What the worker needs of the others: their commits are runs of the queue that hold as many slots
  afterwards as before, and between the reading and the writing of the sweep for expired leases they
  leave the swept jobs running.
\<close>

definition tame :: "int \<Rightarrow> ('x repository_db_scheme) world \<Rightarrow> bool" where
  "tame limit wd \<longleftrightarrow> (\<forall>ns. queue_rely limit (wd_env wd ns)) \<and>
     (\<forall>d. steady Running (expired_ids (wd_clock wd 0) d) d (wd_env wd [0, 0] d))"

text \<open>Some call is stopped after it committed something.\<close>

definition cut_short :: "'db world \<Rightarrow> bool" where
  "cut_short wd \<longleftrightarrow> (\<exists>k n e. wd_fault wd k = Some (n, e) \<and> 0 < n)"

lemma tameD:
  assumes "tame limit wd"
  shows "queue_runs limit leaky d (wd_env wd ns d)" "queue_runs limit leaky d (sub (wd_env wd) k ns d)"
    "queue_rely limit (sub (wd_env wd) k ns)" "queue_rely limit (points (sub (wd_env wd) k) n)"
  using assms by (simp_all add: tame_def rely_runs sub_def points_def)

lemma stopped_runs:
  assumes "wd_fault wd k = Some (n, e)" "\<And>p. queue_inv limit (d, p) \<Longrightarrow> stopped_run limit (d, p) n p d'"
  shows "queue_runs limit (cut_short wd) d d'"
  using assms unfolding queue_runs_def stopped_run_def cut_short_def by (metis gr0I)

lemma finish_call_keeps:
  assumes "tame limit wd" "wk_quota wk" "0 \<le> n"
  shows "keeps (queue_runs limit (cut_short wd))
    (call wd k (\<lambda>i e. finish_stopped i (wk_quota wk) (points e) j worker status n m now) (\<lambda>e. finish (wk_quota wk) (points e) j worker status n m now))"
proof (rule queue_run.call_keeps [OF tameD(1) [OF assms(1)]])
  show "keeps (queue_runs limit (cut_short wd)) (finish (wk_quota wk) (points (sub (wd_env wd) k)) j worker status n m now)"
    by (rule keeps_runsI) (use assms(2) finish_run [OF good_run_refl tameD(4) [OF assms(1)] assms(3)] in simp)
  show "queue_runs limit (cut_short wd) d (finish_stopped i (wk_quota wk) (points (sub (wd_env wd) k)) j worker status n m now d)"
    if "wd_fault wd k = Some (i, e)" for i e d
    by (rule stopped_runs [OF that]) (use assms(2) finish_stopped_run [OF good_run_refl tameD(4) [OF assms(1)] assms(3)] in simp)
qed

lemma cancel_point_keeps:
  assumes "tame limit wd" "wk_quota wk"
  shows "keeps (queue_runs limit (cut_short wd)) (cancel_point wk wd j k)"
  unfolding cancel_point_def [abs_def] acknowledge_cancel_def
  by (intro queue_run.keeps_intros finish_call_keeps [OF assms] queue_run.call_read_keeps [OF tameD(1) [OF assms(1)]]) simp

lemma heartbeat_or_cancel_keeps:
  assumes "tame limit wd" "wk_quota wk"
  shows "keeps (queue_runs limit (cut_short wd)) (heartbeat_or_cancel wk wd j)"
proof -
  let ?R = "queue_runs limit (cut_short wd)"
  have beat: "keeps ?R (call_once wd 5 (\<lambda>e. heartbeat (points e) j worker secs now))" for worker secs now
    by (rule queue_run.call_once_keeps [OF tameD(1) [OF assms(1)] keeps_runsI])
      (rule heartbeat_run [OF _ tameD(4) [OF assms(1)]])
  define rest where "rest r d = (case r of
      Inr _ \<Rightarrow> (Inr False, d)
    | Inl (RuntimeError m) \<Rightarrow> thenS (cancel_point wk wd j 6 d) (\<lambda>c d2. if c then (Inr True, d2) else (Inl (RuntimeError m), d2))
    | Inl e \<Rightarrow> (Inl e, d))" for r :: "py_error + scan_lease" and d
  have "keeps ?R (rest r)" for r
  proof (cases r)
    case (Inl e)
    have "keeps ?R (\<lambda>d. thenS (cancel_point wk wd j 6 d) (\<lambda>c d2. if c then (Inr True, d2) else (Inl (RuntimeError m), d2)))" for m
      by (intro queue_run.keeps_intros cancel_point_keeps [OF assms])
    then show ?thesis by (cases e) (simp_all add: rest_def [abs_def] Inl queue_run.keeps_const)
  qed (simp add: rest_def [abs_def] queue_run.keeps_const)
  from queue_run.keeps_handle [OF beat this] show ?thesis
    by (simp add: heartbeat_or_cancel_def [abs_def] rest_def split_def cong: sum.case_cong)
qed

lemma scan_and_store_keeps:
  assumes "tame limit wd" "wk_quota wk"
  shows "keeps (queue_runs limit (cut_short wd)) (scan_and_store wk wd job asset)"
proof -
  note env = tameD(1) [OF assms(1)] and inside = tameD(2) [OF assms(1)]
  have execute: "keeps (queue_runs limit (cut_short wd)) (call wd 8 (\<lambda>n e. execute_stopped n ex e asset x y z clock)
      (\<lambda>e. execute_with_provenance ex e asset x y z clock))" for ex x y z clock
    by (rule queue_run.call_keeps [OF env]) (rule queue_run.execute_keeps queue_run.execute_stopped_keeps, rule inside)+
  show ?thesis
    unfolding scan_and_store_def [abs_def] complete_scan_def Let_def
    by (intro queue_run.keeps_intros cancel_point_keeps [OF assms] finish_call_keeps [OF assms] execute
          queue_run.call_once_keeps [OF env] queue_run.upsert_keeps queue_run.record_keeps
        | simp only: split_paired_all case_prod_conv of_nat_0_le_iff)+
qed

lemma scan_body_keeps:
  assumes "tame limit wd" "wk_quota wk"
  shows "keeps (queue_runs limit (cut_short wd)) (scan_body wk wd job)"
  unfolding scan_body_def [abs_def]
  by (intro queue_run.keeps_intros queue_run.call_read_keeps [OF tameD(1) [OF assms(1)]]
      cancel_point_keeps [OF assms] heartbeat_or_cancel_keeps [OF assms] scan_and_store_keeps [OF assms])

lemma sweep_keeps:
  assumes "tame limit wd" "wk_quota wk"
  shows "keeps (queue_runs limit (cut_short wd))
    (call wd 0 (\<lambda>n e. recover_stopped n (wk_quota wk) (e [0]) (\<lambda>i n. e [1, i, n]) (wd_clock wd 0))
       (\<lambda>e. recover_expired_leases (wk_quota wk) (e [0]) (\<lambda>i n. e [1, i, n]) (wd_clock wd 0)))"
proof (rule queue_run.call_keeps [OF tameD(1) [OF assms(1)]])
  note rely = tameD(3) [OF assms(1)]
  have steady: "steady Running (expired_ids (wd_clock wd 0) d) d (sub (wd_env wd) 0 [0] d)" for d
    using assms(1) by (simp add: tame_def sub_def)
  show "keeps (queue_runs limit (cut_short wd))
      (recover_expired_leases (wk_quota wk) (sub (wd_env wd) 0 [0]) (\<lambda>i n. sub (wd_env wd) 0 [1, i, n]) (wd_clock wd 0))"
    by (rule keeps_runsI) (simp add: assms(2) recover_expired_leases_run rely steady)
  show "queue_runs limit (cut_short wd) d
      (recover_stopped n (wk_quota wk) (sub (wd_env wd) 0 [0]) (\<lambda>i n. sub (wd_env wd) 0 [1, i, n]) (wd_clock wd 0) d)"
    if "wd_fault wd 0 = Some (n, e)" for n e d
    by (rule stopped_runs [OF that]) (simp add: assms(2) recover_stopped_run rely steady)
qed

lemma claim_keeps:
  assumes "tame limit wd" "wk_quota wk" "wk_concurrency wk = limit"
  shows "keeps (queue_runs limit (cut_short wd))
    (call wd 1 (\<lambda>n e. claim_next_stopped n (wk_quota wk) (\<lambda>i n. e [i, n]) worker secs (wk_concurrency wk) now)
       (\<lambda>e. claim_next (\<lambda>i n. e [i, n]) fault (wk_quota wk) worker secs (Some (wk_concurrency wk)) now))"
proof (rule queue_run.call_keeps [OF tameD(1) [OF assms(1)]])
  note rely = tameD(3) [OF assms(1)]
  show "keeps (queue_runs limit (cut_short wd))
      (claim_next (\<lambda>i n. sub (wd_env wd) 1 [i, n]) fault (wk_quota wk) worker secs (Some (wk_concurrency wk)) now)"
    by (rule keeps_runsI) (simp add: assms(2,3) claim_next_run rely)
  show "queue_runs limit (cut_short wd) d (claim_next_stopped n (wk_quota wk) (\<lambda>i n. sub (wd_env wd) 1 [i, n]) worker secs (wk_concurrency wk) now d)"
    if "wd_fault wd 1 = Some (n, e)" for n e d
  proof (rule queue_runsI)
    fix p assume inv: "queue_inv limit (d, p)"
    show "good_run limit (d, p) (claim_next_stopped n (wk_quota wk) (\<lambda>i n. sub (wd_env wd) 1 [i, n]) worker secs (wk_concurrency wk) now d, p)"
      using claim_stopped_run [OF good_run_refl [OF inv] rely candidates_name_jobs [OF queue_invD(1) [OF inv]]] good_run_refl [OF inv]
      by (simp add: claim_next_stopped_def assms(2,3))
  qed
qed

lemma report_keeps:
  assumes "tame limit wd" "wk_quota wk"
  shows "keeps (queue_runs limit (cut_short wd))
    (call wd k (\<lambda>n e. fail_stopped n (wk_quota wk) (points e) j worker m retryable backoff now)
       (\<lambda>e. fail_scan (wk_quota wk) (points e) j worker m retryable backoff now))"
proof (rule queue_run.call_keeps [OF tameD(1) [OF assms(1)]])
  note rely = tameD(4) [OF assms(1)]
  show "keeps (queue_runs limit (cut_short wd)) (fail_scan (wk_quota wk) (points (sub (wd_env wd) k)) j worker m retryable backoff now)"
    by (rule keeps_runsI) (simp add: assms(2) fail_scan_run rely)
  show "queue_runs limit (cut_short wd) d (fail_stopped n (wk_quota wk) (points (sub (wd_env wd) k)) j worker m retryable backoff now d)"
    if "wd_fault wd k = Some (n, e)" for n e d
    by (rule stopped_runs [OF that]) (simp add: assms(2) fail_stopped_run rely)
qed

lemma run_worker_once_keeps:
  assumes "tame limit wd" "wk_quota wk" "wk_concurrency wk = limit"
  shows "keeps (queue_runs limit (cut_short wd)) (run_worker_once wk wd)"
proof -
  let ?R = "queue_runs limit (cut_short wd)"
  define rest where "rest l r d = (case r of
      Inr _ \<Rightarrow> (Inr True, d)
    | Inl e \<Rightarrow> thenS (call wd 14
        (\<lambda>n e'. fail_stopped n (wk_quota wk) (points e') (sj_id (sl_job l)) (worker_of wk) (error_text (wk_error_text wk) e)
           (retryable_error e) (wc_retry_backoff_seconds (wk_config wk)) (wd_clock wd 14))
        (\<lambda>e'. fail_scan (wk_quota wk) (points e') (sj_id (sl_job l)) (worker_of wk) (error_text (wk_error_text wk) e)
           (retryable_error e) (wc_retry_backoff_seconds (wk_config wk)) (wd_clock wd 14)) d) (\<lambda>_ d4. (Inr True, d4)))"
    for l :: scan_lease and r :: "py_error + scan_end" and d
  have "keeps ?R (rest l r)" for l r
    by (cases r) (simp_all add: rest_def [abs_def] queue_run.keeps_const queue_run.keeps_thenS report_keeps [OF assms(1,2)])
  from queue_run.keeps_handle [OF scan_body_keeps [OF assms(1,2)] this]
  have body: "keeps ?R (\<lambda>d. case scan_body wk wd (sl_job l) d of (r, d') \<Rightarrow> rest l r d')" for l .
  have "keeps ?R (\<lambda>d. case lease of None \<Rightarrow> (Inr False, d) | Some l \<Rightarrow> (case scan_body wk wd (sl_job l) d of (r, d') \<Rightarrow> rest l r d'))" for lease
    by (intro queue_run.keeps_intros body)
  from queue_run.keeps_thenS [OF sweep_keeps [OF assms(1,2)] queue_run.keeps_thenS [OF claim_keeps [OF assms] this]]
  show ?thesis
    by (simp add: run_worker_once_def [abs_def] rest_def split_def cong: option.case_cong sum.case_cong)
qed

text \<open>
  C11. Workers keep the queue consistent, wherever the database fails. Whatever the assets, scanners
  and servers do; whichever database calls of a run raise, before, between or after the transactions
  they commit; and whatever runs of the queue other processes commit before, between and inside those calls
  (holding as many slots afterwards as before, and leaving the jobs that the sweep for expired leases has
  read and not yet written running: the race of C14): a run of the worker performs only steps of the
  queue, so that the two tables stay consistent, no workspace runs more scans than its limit, and its counter
  is at least the number of them. What it is above that number, \<open>p\<close>, are slots that a failure between
  leaving a job and giving back its slot leaves held, for good; unless a call fails in the middle, there
  are no more of them than before the run.
\<close>

theorem worker_runs_keep_the_queue_consistent:
  assumes "queue_inv limit (db, held_before)" "tame limit wd" "wk_quota wk" "wk_concurrency wk = limit"
    and "run_worker_once wk wd db = (r, db')"
  shows "\<exists>p. (queue_step limit)\<^sup>*\<^sup>* (db, held_before) (db', p) \<and> queue_inv limit (db', p) \<and> held_before \<le> p \<and>
    (\<forall>w. active_scans db' w = running_jobs db' w + int (p w) \<and> running_jobs db' w \<le> limit) \<and>
    (\<not> cut_short wd \<longrightarrow> p = held_before)"
proof -
  have "queue_runs limit (cut_short wd) db db'" by (rule keepsD [OF run_worker_once_keeps [OF assms(2-4)] assms(5)])
  then obtain p where p: "good_run limit (db, held_before) (db', p)" "held_before \<le> p" "cut_short wd \<or> p = held_before"
    using assms(1) by (auto simp: queue_runs_def)
  note D = queue_invD [OF good_run_end [OF p(1)]]
  have "active_scans db' w = running_jobs db' w + int (p w) \<and> running_jobs db' w \<le> limit" for w
    using D(3,4) [of w] by linarith
  then show ?thesis using p good_run_end [OF p(1)] unfolding good_run_def by blast
qed

end
