(* ===== verification/EndpointScans.thy ===== *)
theory EndpointScans
  imports Endpoints
begin

text \<open>
  What the endpoint scanners guarantee: they open connections only to addresses that the target
  policy allows, and name the address in what they report; every key that the certificate scanner understands is reported under a family
  of the knowledge base, with the primitive that the knowledge base gives it; and where the TLS
  scanner falls short of that.
\<close>

section \<open>Connections\<close>

text \<open>\<open>str(ip_address(s))\<close> is an address text for the same address, and no address is the empty text.\<close>

definition texts_parse :: "network \<Rightarrow> bool" where
  "texts_parse nw \<longleftrightarrow> nw_ip_address nw [] = None \<and>
     (\<forall>s a. nw_ip_address nw s = Some a \<longrightarrow> nw_ip_address nw (ad_text a) = Some a)"

definition may_contact :: "endpoint_network \<Rightarrow> resolved_target \<Rightarrow> bool" where
  "may_contact en t = allowed (en_network en) (en_allow_private en) (sockaddr_host (tg_sockaddr t))"

lemma first_target: "(case xs of [] \<Rightarrow> Inl e | t' # _ \<Rightarrow> Inr t') = Inr t \<longleftrightarrow> (\<exists>ts. xs = t # ts)"
  by (cases xs) auto

lemma resolved_may_contact:
  assumes "texts_parse (en_network en)" "resolve_target (en_network en) host port (en_allow_private en) = Inr t"
  shows "may_contact en t \<and> tg_ip t = sockaddr_host (tg_sockaddr t)"
proof -
  let ?nw = "en_network en" and ?h = "rstrip_dots (strip host)"
  show ?thesis
  proof (cases "nw_ip_address ?nw ?h")
    case (Some a)
    with assms(2) have "t = literal_target ?nw ?h port a" "\<not> address_is_unsafe a" "en_allow_private en \<or> ad_global a"
      by (auto simp: resolve_target_def Let_def split: if_splits)
    moreover have "nw_ip_address ?nw (ad_text a) = Some a" using assms(1) Some unfolding texts_parse_def by blast
    ultimately show ?thesis by (auto simp: may_contact_def allowed_def literal_target_def)
  next
    case None
    with assms(2) obtain answers res where "answers \<noteq> []" "check_answers ?nw (en_allow_private en) ?h [] answers [] = Inr (t # res)"
      by (auto simp: resolve_target_def Let_def bindE_Inr first_target simp del: check_answers.simps split: if_splits option.splits)
    then obtain an ans where check: "check_answers ?nw (en_allow_private en) ?h [] (an # ans) [] = Inr (t # res)"
      by (cases answers) auto
    from check_answers_Inr [OF check] check_answers_first [OF check] show ?thesis by (auto simp: may_contact_def)
  qed
qed

text \<open>The observations of a scan name the address that was connected to, and it is an allowed one.\<close>

definition records_contact :: "endpoint_network \<Rightarrow> string \<Rightarrow> int \<Rightarrow> crypto_observation list result \<Rightarrow> bool" where
  "records_contact en host port r \<longleftrightarrow>
     (case r of
        Inl _ \<Rightarrow> True
      | Inr obs \<Rightarrow> obs = [] \<or>
          (\<exists>t. resolve_target (en_network en) host port (en_allow_private en) = Inr t \<and> may_contact en t \<and>
             list_all (\<lambda>x. map_of (ev_metadata (ob_evidence x)) ''resolved_ip'' = Some (MetaText (sockaddr_host (tg_sockaddr t)))) obs))"

lemma records_contactI:
  assumes "texts_parse (en_network en)"
    and "\<And>t obs. resolve_target (en_network en) host port (en_allow_private en) = Inr t \<Longrightarrow> tg_ip t \<noteq> [] \<Longrightarrow> f t = Inr obs \<Longrightarrow>
      list_all (\<lambda>x. map_of (ev_metadata (ob_evidence x)) ''resolved_ip'' = Some (MetaText (tg_ip t))) obs"
  shows "records_contact en host port (bindE (resolve_target (en_network en) host port (en_allow_private en)) f)"
proof (cases "resolve_target (en_network en) host port (en_allow_private en)")
  case (Inr t)
  from resolved_may_contact [OF assms(1) Inr] have t: "may_contact en t" "tg_ip t = sockaddr_host (tg_sockaddr t)" by simp_all
  then have "tg_ip t \<noteq> []" using assms(1) by (auto simp: may_contact_def allowed_def texts_parse_def)
  from assms(2) [OF Inr this] t Inr show ?thesis by (auto simp: records_contact_def split: sum.split)
qed (simp add: records_contact_def)

lemma scan_der_records:
  "scan_der load fv der locator (Some ip) tls = Inr obs \<Longrightarrow> ip \<noteq> [] \<Longrightarrow>
     list_all (\<lambda>x. map_of (ev_metadata (ob_evidence x)) ''resolved_ip'' = Some (MetaText ip)) obs"
  by (auto simp: scan_der_def bindE_Inr certificate_observation_def certificate_metadata_def optional_meta_def some_text_def Let_def
      split: option.splits)

text \<open>Two worlds that answer alike wherever the policy allows a connection.\<close>

definition alike_where_allowed :: "endpoint_network \<Rightarrow> endpoint_network \<Rightarrow> bool" where
  "alike_where_allowed en en' \<longleftrightarrow>
     en_network en' = en_network en \<and> en_allow_private en' = en_allow_private en \<and> en_load_der en' = en_load_der en \<and>
     (\<forall>t. may_contact en t \<longrightarrow> en_tls en' t = en_tls en t \<and> en_verified_tls en' t = en_verified_tls en t \<and> en_ssh en' t = en_ssh en t)"

lemma bindE_cong_Inr: "(\<And>a. r = Inr a \<Longrightarrow> f a = g a) \<Longrightarrow> bindE r f = bindE r g"
  by (cases r) auto

text \<open>
  C36. An endpoint scan talks to nothing but allowed addresses, and says to which. The three scanners
  return the same in any two worlds whose servers behave alike at the addresses the policy allows,
  however different they are elsewhere: neither a private address, nor a multicast one, nor one that
  a second resolution of the name would give can be reached or probed by a scan. And each observation
  that a scanner returns carries, as \<open>resolved_ip\<close>, the address of the one target that the connection
  was made to, which is an address the policy allows.
\<close>

theorem endpoint_scans_contact_only_allowed_addresses:
  assumes "texts_parse (en_network en)" "alike_where_allowed en en'"
  shows "scan_tls en' fv host port = scan_tls en fv host port \<and>
    scan_certificate en' fv host port = scan_certificate en fv host port \<and>
    scan_ssh en' fv host port = scan_ssh en fv host port \<and>
    records_contact en host port (scan_tls en fv host port) \<and>
    records_contact en host port (scan_certificate en fv host port) \<and>
    records_contact en host port (scan_ssh en fv host port)"
proof -
  have env: "en_network en' = en_network en" "en_allow_private en' = en_allow_private en" "en_load_der en' = en_load_der en"
    using assms(2) by (simp_all add: alike_where_allowed_def)
  have same: "en_tls en' t = en_tls en t" "en_verified_tls en' t = en_verified_tls en t" "en_ssh en' t = en_ssh en t"
    if "resolve_target (en_network en) host port (en_allow_private en) = Inr t" for t
    using resolved_may_contact [OF assms(1) that] assms(2) by (simp_all add: alike_where_allowed_def)
  have alike: "scan_tls en' fv host port = scan_tls en fv host port \<and>
      scan_certificate en' fv host port = scan_certificate en fv host port \<and> scan_ssh en' fv host port = scan_ssh en fv host port"
    unfolding scan_tls_def scan_certificate_def scan_ssh_def env
    by (intro conjI bindE_cong_Inr) (simp_all add: same)
  have "records_contact en host port (scan_tls en fv host port)"
    unfolding scan_tls_def by (rule records_contactI [OF assms(1)])
      (auto simp: bindE_def tls_observation_def Let_def split: sum.splits option.splits prod.splits)
  moreover have "records_contact en host port (scan_certificate en fv host port)"
    unfolding scan_certificate_def by (rule records_contactI [OF assms(1)])
      (auto simp: bindE_Inr dest: scan_der_records split: option.splits)
  moreover have "records_contact en host port (scan_ssh en fv host port)"
    unfolding scan_ssh_def by (rule records_contactI [OF assms(1)])
      (auto simp: bindE_def observation_from_key_def optional_meta_def some_text_def Let_def split: sum.splits prod.splits)
  ultimately show ?thesis using alike by blast
qed

section \<open>Families\<close>

text \<open>The keys that the certificate scanner knows, and the hashes that the knowledge base knows.\<close>

fun known_key :: "public_key \<Rightarrow> bool" where
  "known_key (OtherKey _) = False"
| "known_key _ = True"

definition primitive_agrees :: "string \<Rightarrow> primitive \<Rightarrow> bool" where
  "primitive_agrees family p =
     (case get_profile family of None \<Rightarrow> False
      | Some prof \<Rightarrow> ap_primitive prof = p \<or> family = ''RSA'' \<and> p = PSignature)"

lemma key_families_known:
  "primitive_agrees ''RSA'' PPke" "primitive_agrees ''RSA'' PSignature" "primitive_agrees ''ECDSA'' PSignature"
  "primitive_agrees ''DSA'' PSignature" "primitive_agrees ''ED25519'' PSignature" "primitive_agrees ''ED448'' PSignature"
  by code_simp+

lemma hash_families:
  "map normalize_hash [''md5'', ''sha1'', ''sha256'', ''sha384'', ''sha512''] = [''MD5'', ''SHA-1'', ''SHA-256'', ''SHA-384'', ''SHA-512'']"
  "list_all (\<lambda>h. primitive_agrees h PHash) [''MD5'', ''SHA-1'', ''SHA-256'', ''SHA-384'', ''SHA-512'']"
  by code_simp+

text \<open>
  Every certificate whose key the scanner knows and whose signature hash is one of the five usual
  ones is reported under families that the knowledge base has a profile for, with their primitives;
  the key size is that of the key.
\<close>

lemma certificates_are_scored_by_their_algorithms:
  assumes "load_der der = Some cert" "ct_public_key cert = Inr key" "known_key key" "ct_key_usage cert = Inr usage" "ct_names cert = Inr names"
    and "ct_signature_hash cert = Inr (Some h)" "h \<in> set [''md5'', ''sha1'', ''sha256'', ''sha384'', ''sha512'']"
  shows "\<exists>k s. scan_der load_der fv der locator ip tls = Inr [k, s] \<and> primitive_agrees (ob_family k) (ob_primitive k) \<and>
    primitive_agrees (ob_family s) (ob_primitive s) \<and> ob_key_size k \<noteq> None"
proof -
  have hash: "primitive_agrees (normalize_hash h) PHash" using assms(7) hash_families by auto
  obtain family p n ps where profile: "public_key_profile cert = Inr (family, p, Some n, ps)" "primitive_agrees family p"
    using assms(2-4) key_families_known
    by (cases key) (auto simp: public_key_profile_def rsa_certificate_primitive_def split: option.splits)
  obtain sans where "subject_alt_names cert = Inr sans" using assms(5) by (simp add: subject_alt_names_def)
  with assms(1,6) hash profile show ?thesis
    by (simp add: scan_der_def certificate_observation_def Let_def)
qed

text \<open>The TLS scanner reports Edwards curve keys of the same certificates as unknown, without a size.\<close>

lemma tls_scanner_misses_edwards_keys:
  assumes "resolve_target (en_network en) host port (en_allow_private en) = Inr t"
    and "en_verified_tls en t host = Inr hs" "hs_certificate hs = Some der" "der \<noteq> []" "en_load_der en der = Some cert"
    and "ct_public_key cert = Inr key" "key = Ed25519Key \<or> key = Ed448Key" "ct_signature_hash cert = Inr h"
  shows "\<exists>a k rest. scan_tls en fv host port = Inr (a # k # rest) \<and> ob_family k = ''UNKNOWN'' \<and> ob_key_size k = None \<and>
    get_profile (ob_family k) = None"
proof -
  have "get_profile ''UNKNOWN'' = None" by code_simp
  with assms show ?thesis
    by (auto simp: scan_tls_def some_text_def tls_key_family_def tls_key_size_def some_size_def tls_observation_def Let_def)
qed

section \<open>Instances\<close>

definition quiet_world :: endpoint_network where
  "quiet_world = \<lparr>en_network = demo_network, en_allow_private = False, en_load_der = (\<lambda>_. None),
     en_tls = (\<lambda>t h. Inr \<lparr>hs_certificate = None, hs_version = Some ''TLSv1.3'', hs_cipher = None\<rparr>),
     en_verified_tls = (\<lambda>t h. Inr \<lparr>hs_certificate = None, hs_version = Some ''TLSv1.3'', hs_cipher = None\<rparr>),
     en_ssh = (\<lambda>t. Inr (\<lparr>hk_name = ''ssh-ed25519'', hk_bits = 256, hk_digest = ''abc=''\<rparr>, None))\<rparr>"

text \<open>The same, but with a server at a private address that answers differently.\<close>

definition private_server :: endpoint_network where
  "private_server = quiet_world
     \<lparr>en_tls := (\<lambda>t h. if sockaddr_host (tg_sockaddr t) = ''10.0.0.1'' then Inl (OSError ''refused'') else en_tls quiet_world t h),
      en_ssh := (\<lambda>t. if sockaddr_host (tg_sockaddr t) = ''10.0.0.1'' then Inl (OSError ''refused'') else en_ssh quiet_world t)\<rparr>"

definition demo_values :: fresh_values where
  "demo_values = \<lparr>fv_ids = (\<lambda>_. ''id''), fv_clock = (\<lambda>_. 0)\<rparr>"

theorem endpoint_scans_contact_only_allowed_addresses_witness:
  "scan_ssh private_server demo_values ''93.184.216.34'' 22 = scan_ssh quiet_world demo_values ''93.184.216.34'' 22 \<and>
   is_ok (scan_ssh quiet_world demo_values ''93.184.216.34'' 22) \<and>
   records_contact quiet_world ''93.184.216.34'' 22 (scan_ssh quiet_world demo_values ''93.184.216.34'' 22) \<and>
   scan_ssh private_server demo_values ''10.0.0.1'' 22 = scan_ssh quiet_world demo_values ''10.0.0.1'' 22"
proof -
  have parse: "texts_parse (en_network quiet_world)" by (auto simp: texts_parse_def quiet_world_def demo_network_def split: if_splits)
  have "\<not> may_contact quiet_world t" if "sockaddr_host (tg_sockaddr t) = ''10.0.0.1''" for t
    using that by (simp add: may_contact_def allowed_def quiet_world_def demo_network_def)
  then have alike: "alike_where_allowed quiet_world private_server"
    by (auto simp: alike_where_allowed_def private_server_def fun_eq_iff)
  have "rstrip_dots (strip ''93.184.216.34'') = ''93.184.216.34''" by code_simp
  then have "is_ok (scan_ssh quiet_world demo_values ''93.184.216.34'' 22)"
    by (simp add: scan_ssh_def resolve_target_def quiet_world_def demo_network_def address_is_unsafe_def Let_def)
  then show ?thesis using endpoint_scans_contact_only_allowed_addresses [OF parse alike] by blast
qed

end
