(* ===== verification/ImageOverlay.thy ===== *)
theory ImageOverlay
  imports ContainerImage
begin

text \<open>
  What the container scanner sees of an image. The reference is how the layers of an image are
  unpacked into a tree (\<open>unpack\<close>): whiteouts take away what is below, then the entries are placed
  one after the other; what is not a directory has nothing below it, and what has something below
  it is a directory. The scanner sees every file of that tree; it sees more than that only where
  the entries of the image collide, since it does not empty a directory that is replaced. The
  lemmas also bound what is kept, show that every layer was verified against its digest, and that
  an archive with an entry for its root is rejected.
\<close>

section \<open>Paths of an archive\<close>

definition safe_file :: "string \<Rightarrow> bool" where
  "safe_file p = (path_parts p \<noteq> [] \<and> ''..'' \<notin> set (path_parts p) \<and> as_posix (path_parts p) = p)"

lemma safe_path_safe: "safe_path v = Inr p \<Longrightarrow> safe_file p"
  by (auto simp: safe_path_def safe_file_def Let_def path_parts_plain split: if_splits)

lemma posix_last:
  assumes "ps \<noteq> []" "\<forall>p \<in> set ps. plain_part p"
  shows "last (as_posix ps) \<noteq> CHR ''/''"
proof -
  have "last (join_with (CHR ''/'') ps) = last (last ps)"
    using assms
  proof (induction "CHR ''/''" ps rule: join_with.induct)
    case (3 x y ys)
    then have "join_with (CHR ''/'') (y # ys) \<noteq> []" by (intro join_with_nonempty) (auto simp: plain_part_def)
    with 3 show ?case by (simp add: last_append)
  qed auto
  moreover have "last ps \<in> set ps" using assms(1) by simp
  moreover have "last (last ps) \<in> set (last ps)" using calculation assms by (auto simp: plain_part_def)
  ultimately show ?thesis using assms by (metis as_posix_def plain_part_def)
qed

lemma rstrip_posix: "ps \<noteq> [] \<Longrightarrow> \<forall>p \<in> set ps. plain_part p \<Longrightarrow> rstrip_slash (as_posix ps) = as_posix ps"
  using posix_last [of ps] as_posix_nonempty [of ps]
  by (cases "rev (as_posix ps)") (auto simp: rstrip_slash_def last_rev [symmetric])

lemma posix_dot: "\<forall>p \<in> set ps. plain_part p \<Longrightarrow> as_posix ps = ''.'' \<longleftrightarrow> ps = []"
proof
  assume "\<forall>p \<in> set ps. plain_part p" "as_posix ps = ''.''"
  then have "ps = path_parts ''.''" using parts_of_posix by metis
  then show "ps = []" by (simp add: path_parts_def)
qed (simp add: as_posix_def)

lemma posix_not_dot_slash:
  assumes "\<forall>p \<in> set ps. plain_part p" "ps \<noteq> []"
  shows "\<not> startswith (as_posix ps) ''./''"
proof
  assume "startswith (as_posix ps) ''./''"
  then obtain r where r: "join_with (CHR ''/'') ps = ''.'' @ CHR ''/'' # r"
    using assms(2) by (auto simp: startswith_prefix prefix_def as_posix_def)
  have "\<forall>p \<in> set ps. CHR ''/'' \<notin> set p" using assms(1) by (auto simp: plain_part_def)
  then have "ps = split_on (CHR ''/'') (''.'' @ CHR ''/'' # r)" using split_join [OF assms(2)] r by metis
  then have "''.'' \<in> set ps" by (subst (asm) split_on_append) auto
  then show False using assms(1) by (auto simp: plain_part_def)
qed

section \<open>What the two passes keep\<close>

definition named :: "string \<Rightarrow> tar_member \<Rightarrow> bool" where
  "named p m = (safe_path (tm_name m) = Inr p)"

definition is_whiteout :: "string \<Rightarrow> bool" where
  "is_whiteout p = startswith (path_name (path_parts p)) ''.wh.''"

definition provided :: "container_scanner \<Rightarrow> string \<Rightarrow> string \<Rightarrow> tar_member \<Rightarrow> image_file option" where
  "provided cs digest p m =
     (case tm_data m of
        Payload d \<Rightarrow>
          if tm_regular m \<and> supported_path p \<and> 0 \<le> tm_size m \<and> tm_size m \<le> cs_max_file_bytes cs
          then Some \<lparr>if_content = d, if_layer_digest = digest\<rparr> else None
      | _ \<Rightarrow> None)"

text \<open>Whether an entry hides a path of the layers below: an opaque marker everything below its
  directory, a whiteout the path it names and everything below it.\<close>

definition hidden_by :: "string list \<Rightarrow> tar_member \<Rightarrow> bool" where
  "hidden_by ps m =
     (case safe_path (tm_name m) of
        Inl _ \<Rightarrow> False
      | Inr q \<Rightarrow>
          let w = path_parts q
          in if path_name w = ''.wh..wh..opq'' then strict_prefix (butlast w) ps
             else startswith (path_name w) ''.wh.'' \<and>
               (let t = butlast w @ path_parts (drop 4 (path_name w)) in t \<noteq> [] \<and> prefix t ps))"

definition entries_of :: "container_scanner \<Rightarrow> layer \<Rightarrow> tar_member list" where
  "entries_of cs l = the (all_members (layer_stream (cs_library cs) l))"

text \<open>What one layer makes of the files kept so far, path by path.\<close>

definition layered ::
  "container_scanner \<Rightarrow> layer \<Rightarrow> (string \<Rightarrow> image_file option) \<Rightarrow> string \<Rightarrow> image_file option" where
  "layered cs l below p =
     (case find (\<lambda>m. named p m \<and> \<not> is_whiteout p) (rev (entries_of cs l)) of
        Some m \<Rightarrow> provided cs (ly_digest l) p m
      | None \<Rightarrow> if list_ex (hidden_by (path_parts p)) (entries_of cs l) then None else below p)"

section \<open>The first pass\<close>

fun wh_hides :: "whiteout \<Rightarrow> string \<Rightarrow> bool" where
  "wh_hides (Opaque target) p = startswith p (if target = ''.'' then [] else rstrip_slash target @ ''/'')"
| "wh_hides (Remove target) p = (p = target \<or> startswith p (rstrip_slash target @ ''/''))"

lemma apply_whiteout_filter: "apply_whiteout w files = filter (\<lambda>(p, f). \<not> wh_hides w p) files"
  by (cases w) (simp_all add: remove_path_def Let_def)

lemma apply_whiteouts_filter: "fold apply_whiteout ws files = filter (\<lambda>(p, f). \<not> list_ex (\<lambda>w. wh_hides w p) ws) files"
  by (induction ws arbitrary: files) (auto simp: apply_whiteout_filter intro!: filter_cong)

lemma wh_hides_parts:
  assumes "whiteout_of q = Inr (Some w)" "safe_path (tm_name m) = Inr q" "safe_file p"
  shows "wh_hides w p \<longleftrightarrow> hidden_by (path_parts p) m"
proof -
  let ?w = "path_parts q" and ?ps = "path_parts p"
  have p: "?ps \<noteq> []" "as_posix ?ps = p" "\<forall>x \<in> set ?ps. plain_part x" using assms(3) by (auto simp: safe_file_def path_parts_plain)
  have dir: "\<forall>x \<in> set (butlast ?w). plain_part x" by (auto dest!: in_set_butlastD simp: path_parts_plain)
  show ?thesis
  proof (cases "path_name ?w = ''.wh..wh..opq''")
    case True
    then have w: "w = Opaque (as_posix (butlast ?w))" using assms(1) by (simp add: whiteout_of_def Let_def path_parent_def)
    have "wh_hides w p \<longleftrightarrow> strict_prefix (butlast ?w) ?ps"
    proof (cases "butlast ?w = []")
      case True
      then show ?thesis using p(1) by (simp add: w as_posix_def startswith_def strict_prefix_def)
    next
      case False
      then show ?thesis
        using below_iff [OF dir p(3) False] p(2) posix_dot [OF dir] rstrip_posix [OF False dir] by (simp add: w)
    qed
    then show ?thesis using True assms(2) by (simp add: hidden_by_def Let_def)
  next
    case False
    let ?t = "butlast ?w @ path_parts (drop 4 (path_name ?w))"
    from False assms(1) have s: "startswith (path_name ?w) ''.wh.''" and w: "w = Remove (as_posix ?t)"
      by (auto simp: whiteout_of_def Let_def path_parent_def split: if_splits)
    have t: "\<forall>x \<in> set ?t. plain_part x" using dir by (auto simp: path_parts_plain)
    have "wh_hides w p \<longleftrightarrow> ?t \<noteq> [] \<and> prefix ?t ?ps"
    proof (cases "?t = []")
      case True
      have "p \<noteq> ''.''" using posix_dot [OF p(3)] p(1,2) by metis
      moreover have "\<not> startswith p ''./''" using posix_not_dot_slash [OF p(3,1)] p(2) by simp
      ultimately show ?thesis using True by (simp add: w as_posix_def rstrip_slash_def)
    next
      case False
      have "p = as_posix ?t \<longleftrightarrow> ?ps = ?t" using as_posix_inj [OF _ p(3) t] p(2) by metis
      moreover have "startswith p (as_posix ?t @ ''/'') \<longleftrightarrow> strict_prefix ?t ?ps" using below_iff [OF t p(3) False] p(2) by simp
      ultimately show ?thesis using False rstrip_posix [OF False t] by (auto simp: w strict_prefix_def)
    qed
    then show ?thesis using False s assms(2) by (simp add: hidden_by_def Let_def)
  qed
qed

lemma no_whiteout: "whiteout_of q = Inr None \<Longrightarrow> safe_path (tm_name m) = Inr q \<Longrightarrow> \<not> hidden_by ps m"
  by (auto simp: whiteout_of_def hidden_by_def Let_def split: if_splits)

lemma collect_whiteouts_Inr:
  "collect_whiteouts cs st e u ws = Inr (e', ws') \<Longrightarrow>
     \<exists>ms. all_members st = Some ms \<and> e' = e + int (length ms) \<and> (ms \<noteq> [] \<longrightarrow> e' \<le> cs_max_entries cs) \<and>
       (\<forall>p. safe_file p \<longrightarrow> list_ex (\<lambda>w. wh_hides w p) ws' = (list_ex (\<lambda>w. wh_hides w p) ws \<or> list_ex (hidden_by (path_parts p)) ms))"
proof (induction cs st e u ws rule: collect_whiteouts.induct)
  case (3 cs m rest e u ws)
  from 3(2) obtain q w where q: "safe_path (tm_name m) = Inr q" "whiteout_of q = Inr w" and limit: "e + 1 \<le> cs_max_entries cs"
      "u + max 0 (tm_size m) \<le> cs_max_layer_uncompressed_bytes cs"
    and run: "collect_whiteouts cs rest (e + 1) (u + max 0 (tm_size m)) (case w of None \<Rightarrow> ws | Some x \<Rightarrow> ws @ [x]) = Inr (e', ws')"
    by (auto simp: bindE_Inr split: if_splits)
  from 3(1) [OF _ _ run] limit obtain ms where ms: "all_members rest = Some ms" "e' = e + 1 + int (length ms)"
      "ms \<noteq> [] \<longrightarrow> e' \<le> cs_max_entries cs"
      "\<forall>p. safe_file p \<longrightarrow> list_ex (\<lambda>w. wh_hides w p) ws' =
         (list_ex (\<lambda>w. wh_hides w p) (case w of None \<Rightarrow> ws | Some x \<Rightarrow> ws @ [x]) \<or> list_ex (hidden_by (path_parts p)) ms)"
    by auto
  have "list_ex (\<lambda>w. wh_hides w p) (case w of None \<Rightarrow> ws | Some x \<Rightarrow> ws @ [x]) =
      (list_ex (\<lambda>w. wh_hides w p) ws \<or> hidden_by (path_parts p) m)" if "safe_file p" for p
    using q that by (cases w) (auto simp: no_whiteout wh_hides_parts)
  with ms limit show ?case by (auto intro!: exI [of _ "m # ms"])
qed (auto simp: bad_layer_def)

section \<open>The second pass\<close>

lemma find_append: "find P (xs @ ys) = (case find P xs of Some x \<Rightarrow> Some x | None \<Rightarrow> find P ys)"
  by (induction xs) auto

lemma map_of_pop [simp]: "map_of (pop_file path files) p = (if p = path then None else map_of files p)"
  by (induction files) (auto simp: pop_file_def)

lemma set_pop: "set (pop_file path files) \<subseteq> set files"
  by (auto simp: pop_file_def)

lemma distinct_pop: "distinct (map fst files) \<Longrightarrow> distinct (map fst (pop_file path files))"
  by (induction files) (auto simp: pop_file_def)

lemma map_of_put [simp]: "map_of (pop_file path files @ [(path, f)]) p = (if p = path then Some f else map_of files p)"
  by (simp add: map_of_append map_add_def split: option.split)

text \<open>What holds of every file that the scanner keeps.\<close>

definition file_ok :: "container_scanner \<Rightarrow> string set \<Rightarrow> string \<times> image_file \<Rightarrow> bool" where
  "file_ok cs digests pf \<longleftrightarrow> safe_file (fst pf) \<and> supported_path (fst pf) \<and>
     int (length (if_content (snd pf))) \<le> cs_max_file_bytes cs \<and> if_layer_digest (snd pf) \<in> digests"

definition files_ok :: "container_scanner \<Rightarrow> string set \<Rightarrow> image_files \<Rightarrow> bool" where
  "files_ok cs digests files \<longleftrightarrow> distinct (map fst files) \<and> (\<forall>pf \<in> set files. file_ok cs digests pf)"

lemma files_ok_pop: "files_ok cs ds files \<Longrightarrow> files_ok cs ds (pop_file path files)"
  using set_pop by (fastforce simp: files_ok_def distinct_pop)

lemma files_ok_put: "files_ok cs ds files \<Longrightarrow> file_ok cs ds (path, f) \<Longrightarrow> files_ok cs ds (pop_file path files @ [(path, f)])"
  using files_ok_pop [of cs ds files path] by (auto simp: files_ok_def) (auto simp: pop_file_def)

lemma files_ok_filter: "files_ok cs ds files \<Longrightarrow> files_ok cs ds (filter P files)"
  by (auto simp: files_ok_def distinct_map inj_on_def)

lemma files_ok_mono: "files_ok cs ds files \<Longrightarrow> ds \<subseteq> ds' \<Longrightarrow> files_ok cs ds' files"
  by (auto simp: files_ok_def file_ok_def)

text \<open>One entry that is not a whiteout.\<close>

lemma add_entry:
  assumes "add_files cs digest (Member m rest) bytes files = Inr r" "safe_path (tm_name m) = Inr q" "\<not> is_whiteout q"
    and "files_ok cs ds files" "digest \<in> ds"
  shows "\<exists>files1 bytes1. add_files cs digest rest bytes1 files1 = Inr r \<and> files_ok cs ds files1 \<and>
    (\<forall>p. map_of files1 p = (if p = q then provided cs digest q m else map_of files p))"
proof -
  let ?small = "tm_regular m \<and> supported_path q \<and> 0 \<le> tm_size m \<and> tm_size m \<le> cs_max_file_bytes cs"
  note run = assms(1) [simplified, unfolded assms(2) bindE_simps] and nw = assms(3) [unfolded is_whiteout_def]
  show ?thesis
  proof (cases "?small \<and> tm_data m \<noteq> NoData")
    case False
    then have "\<exists>bytes1. add_files cs digest rest bytes1 (pop_file q files) = Inr r" "provided cs digest q m = None"
      using run nw by (auto simp: provided_def Let_def split: if_splits member_data.splits)
    then show ?thesis using files_ok_pop [OF assms(4)] by force
  next
    case True
    then obtain d where d: "tm_data m = Payload d" using run nw
      by (cases "tm_data m") (auto simp: bad_layer_def split: if_splits)
    let ?c = "take (nat (cs_max_file_bytes cs + 1)) d"
    from True run nw d have len: "int (length ?c) \<le> cs_max_file_bytes cs"
      and go: "add_files cs digest rest (bytes + tm_size m) (pop_file q files @ [(q, \<lparr>if_content = ?c, if_layer_digest = digest\<rparr>)]) = Inr r"
      by (auto simp: Let_def not_less split: if_splits)
    from len have c: "?c = d" by (cases "length d \<le> nat (cs_max_file_bytes cs + 1)") (use True in auto)
    have ok: "file_ok cs ds (q, \<lparr>if_content = d, if_layer_digest = digest\<rparr>)"
      using len c True assms(5) safe_path_safe [OF assms(2)] by (simp add: file_ok_def)
    have "provided cs digest q m = Some \<lparr>if_content = d, if_layer_digest = digest\<rparr>" using True d by (simp add: provided_def)
    then have "\<forall>p. map_of (pop_file q files @ [(q, \<lparr>if_content = d, if_layer_digest = digest\<rparr>)]) p =
        (if p = q then provided cs digest q m else map_of files p)" by (simp del: map_of_append)
    then show ?thesis using go [unfolded c] files_ok_put [OF assms(4) ok] by blast
  qed
qed

lemma add_files_Inr:
  "add_files cs digest st bytes files = Inr (bytes', files') \<Longrightarrow> files_ok cs ds files \<Longrightarrow> digest \<in> ds \<Longrightarrow>
     \<exists>ms. all_members st = Some ms \<and> files_ok cs ds files' \<and>
       (\<forall>p. map_of files' p = (case find (\<lambda>m. named p m \<and> \<not> is_whiteout p) (rev ms) of
          Some m \<Rightarrow> provided cs digest p m | None \<Rightarrow> map_of files p))"
proof (induction st arbitrary: bytes files)
  case (Member m rest)
  from Member.prems(1) obtain q where q: "safe_path (tm_name m) = Inr q" by (auto simp: bindE_Inr)
  then have named: "named p m \<longleftrightarrow> p = q" for p by (auto simp: named_def)
  have "\<exists>files1 bytes1. add_files cs digest rest bytes1 files1 = Inr (bytes', files') \<and> files_ok cs ds files1 \<and>
    (\<forall>p. map_of files1 p = (if p = q \<and> \<not> is_whiteout q then provided cs digest q m else map_of files p))"
  proof (cases "is_whiteout q")
    case True
    then show ?thesis using Member.prems q by (auto simp: is_whiteout_def)
  next
    case False
    from add_entry [OF Member.prems(1) q False Member.prems(2,3)] False show ?thesis by simp
  qed
  then obtain files1 bytes1 where run: "add_files cs digest rest bytes1 files1 = Inr (bytes', files')" and ok: "files_ok cs ds files1"
    and lookup: "\<forall>p. map_of files1 p = (if p = q \<and> \<not> is_whiteout q then provided cs digest q m else map_of files p)" by blast
  from Member.IH [OF run ok Member.prems(3)] obtain ms where ms: "all_members rest = Some ms" "files_ok cs ds files'"
    "\<forall>p. map_of files' p = (case find (\<lambda>m. named p m \<and> \<not> is_whiteout p) (rev ms) of
          Some m \<Rightarrow> provided cs digest p m | None \<Rightarrow> map_of files1 p)" by blast
  have "map_of files' p = (case find (\<lambda>m. named p m \<and> \<not> is_whiteout p) (rev (m # ms)) of
          Some m \<Rightarrow> provided cs digest p m | None \<Rightarrow> map_of files p)" for p
    using ms(3) lookup named by (auto simp: find_append split: option.split)
  with ms show ?case by auto
qed (auto simp: bad_layer_def)

section \<open>The overlay\<close>

lemma map_of_filter_keys: "map_of (filter (\<lambda>(p, f). P p) files) p = (if P p then map_of files p else None)"
  by (induction files) auto

lemma files_ok_lookup: "files_ok cs ds files \<Longrightarrow> \<not> safe_file p \<Longrightarrow> map_of files p = None"
  by (auto simp: files_ok_def file_ok_def dest!: map_of_SomeD simp flip: not_Some_eq)

lemma apply_layer_Inr:
  assumes "apply_layer cs l files e b = Inr (e', b', files')" "files_ok cs ds files" "ly_digest l \<in> ds"
  shows "files_ok cs ds files' \<and> map_of files' = layered cs l (map_of files) \<and>
    e' = e + int (length (entries_of cs l)) \<and> (e \<le> cs_max_entries cs \<longrightarrow> e' \<le> cs_max_entries cs)"
proof -
  let ?st = "layer_stream (cs_library cs) l"
  from assms(1) obtain ws where first: "collect_whiteouts cs ?st e 0 [] = Inr (e', ws)"
    and second: "add_files cs (ly_digest l) ?st b (fold apply_whiteout ws files) = Inr (b', files')"
    by (auto simp: apply_layer_def bindE_Inr)
  let ?lower = "filter (\<lambda>(p, f). \<not> list_ex (\<lambda>w. wh_hides w p) ws) files"
  have lower: "fold apply_whiteout ws files = ?lower" by (rule apply_whiteouts_filter)
  from collect_whiteouts_Inr [OF first] obtain ms where ms: "all_members ?st = Some ms" "e' = e + int (length ms)"
      "ms \<noteq> [] \<longrightarrow> e' \<le> cs_max_entries cs"
      "\<forall>p. safe_file p \<longrightarrow> list_ex (\<lambda>w. wh_hides w p) ws = list_ex (hidden_by (path_parts p)) ms" by auto
  have entries: "entries_of cs l = ms" by (simp add: entries_of_def ms(1))
  from add_files_Inr [OF second [unfolded lower] files_ok_filter [OF assms(2)] assms(3)]
  have ok: "files_ok cs ds files'" and lookup: "map_of files' p = (case find (\<lambda>m. named p m \<and> \<not> is_whiteout p) (rev ms) of
          Some m \<Rightarrow> provided cs (ly_digest l) p m | None \<Rightarrow> map_of ?lower p)" for p
    using ms(1) by auto
  have "map_of ?lower p = (if list_ex (hidden_by (path_parts p)) ms then None else map_of files p)" for p
    using ms(4) files_ok_lookup [OF assms(2), of p] by (cases "safe_file p") (auto simp: map_of_filter_keys)
  then have "map_of files' = layered cs l (map_of files)"
    by (auto simp: fun_eq_iff lookup layered_def entries split: option.split)
  with ok ms show ?thesis by (auto simp: entries)
qed

lemma apply_layers_Inr:
  "apply_layers cs ls files e b = Inr (e', b', files') \<Longrightarrow> files_ok cs ds files \<Longrightarrow> ly_digest ` set ls \<subseteq> ds \<Longrightarrow>
     files_ok cs ds files' \<and> map_of files' = fold (layered cs) ls (map_of files) \<and>
     e' = e + int (sum_list (map (\<lambda>l. length (entries_of cs l)) ls)) \<and> (e \<le> cs_max_entries cs \<longrightarrow> e' \<le> cs_max_entries cs)"
proof (induction ls arbitrary: files e b)
  case (Cons l ls)
  then obtain e1 b1 files1 where step: "apply_layer cs l files e b = Inr (e1, b1, files1)"
    and run: "apply_layers cs ls files1 e1 b1 = Inr (e', b', files')" by (auto simp: bindE_Inr)
  from apply_layer_Inr [OF step Cons.prems(2)] Cons.prems(3) have one: "files_ok cs ds files1" "map_of files1 = layered cs l (map_of files)"
    "e1 = e + int (length (entries_of cs l))" "e \<le> cs_max_entries cs \<longrightarrow> e1 \<le> cs_max_entries cs" by auto
  from Cons.IH [OF run one(1)] Cons.prems(3) one show ?case by auto
qed auto

lemma image_overlay_Inr:
  assumes "image_overlay cs layers = Inr files"
  shows "map_of files = fold (layered cs) layers (\<lambda>_. None)" "files_ok cs (ly_digest ` set layers) files"
    "0 \<le> cs_max_entries cs \<Longrightarrow> int (sum_list (map (\<lambda>l. length (entries_of cs l)) layers)) \<le> cs_max_entries cs"
proof -
  from assms obtain e b where "apply_layers cs layers [] 0 0 = Inr (e, b, files)"
    by (auto simp: image_overlay_def bindE_Inr split: if_splits)
  then have "map_of files = fold (layered cs) layers (\<lambda>_. None) \<and> files_ok cs (ly_digest ` set layers) files \<and>
    (0 \<le> cs_max_entries cs \<longrightarrow> int (sum_list (map (\<lambda>l. length (entries_of cs l)) layers)) \<le> cs_max_entries cs)"
    using apply_layers_Inr [of cs layers "[]" 0 0 e b files "ly_digest ` set layers"] by (auto simp: files_ok_def fun_eq_iff)
  then show "map_of files = fold (layered cs) layers (\<lambda>_. None)" "files_ok cs (ly_digest ` set layers) files"
    "0 \<le> cs_max_entries cs \<Longrightarrow> int (sum_list (map (\<lambda>l. length (entries_of cs l)) layers)) \<le> cs_max_entries cs"
    by blast+
qed

lemma layered_provider:
  "fold (layered cs) ls (\<lambda>_. None) p = Some f \<Longrightarrow>
     \<exists>l \<in> set ls. \<exists>m \<in> set (entries_of cs l). named p m \<and> provided cs (ly_digest l) p m = Some f"
proof (induction ls rule: rev_induct)
  case (snoc l ls)
  show ?case
  proof (cases "find (\<lambda>m. named p m \<and> \<not> is_whiteout p) (rev (entries_of cs l))")
    case None
    with snoc show ?thesis by (auto simp: layered_def split: if_splits)
  next
    case (Some m)
    then have "m \<in> set (entries_of cs l) \<and> named p m" by (auto simp: find_Some_iff) (metis length_rev nth_mem set_rev)
    with Some snoc.prems show ?thesis by (auto simp: layered_def)
  qed
qed simp

section \<open>Unpacking an image\<close>

text \<open>
  The tree that the layers of an image stand for: to every path that is not a directory, the entry
  that is there and the digest of its layer. An entry takes the place of what was at its path; if
  it is not a directory, nothing stays below it; and what was in the place of a directory above it
  makes way.
\<close>

type_synonym image_tree = "string list \<Rightarrow> (string \<times> tar_member) option"

definition unpack_entry :: "string \<Rightarrow> tar_member \<Rightarrow> image_tree \<Rightarrow> image_tree" where
  "unpack_entry digest m tree =
     (case safe_path (tm_name m) of
        Inl _ \<Rightarrow> tree
      | Inr q \<Rightarrow>
          if is_whiteout q then tree
          else (\<lambda>ps.
            if ps = path_parts q then (if tm_type m = DirectoryType then None else Some (digest, m))
            else if strict_prefix (path_parts q) ps \<and> tm_type m \<noteq> DirectoryType then None
            else if strict_prefix ps (path_parts q) then None
            else tree ps))"

text \<open>The whiteouts of a layer act on the layers below only, wherever they stand in the layer.\<close>

definition unpack_layer :: "container_scanner \<Rightarrow> layer \<Rightarrow> image_tree \<Rightarrow> image_tree" where
  "unpack_layer cs l tree =
     fold (unpack_entry (ly_digest l)) (entries_of cs l)
       (\<lambda>ps. if list_ex (hidden_by ps) (entries_of cs l) then None else tree ps)"

definition unpack :: "container_scanner \<Rightarrow> layer list \<Rightarrow> image_tree" where
  "unpack cs layers = fold (unpack_layer cs) layers (\<lambda>_. None)"

text \<open>An entry that is in the way of a path: above it and not a directory, or below it.\<close>

definition collides :: "string list \<Rightarrow> tar_member \<Rightarrow> bool" where
  "collides ps m =
     (case safe_path (tm_name m) of
        Inl _ \<Rightarrow> False
      | Inr q \<Rightarrow> \<not> is_whiteout q \<and>
          (strict_prefix (path_parts q) ps \<and> tm_type m \<noteq> DirectoryType \<or> strict_prefix ps (path_parts q)))"

lemma safe_file_parts: "safe_file p \<Longrightarrow> safe_file q \<Longrightarrow> path_parts p = path_parts q \<longleftrightarrow> p = q"
  by (metis safe_file_def)

lemma unpack_entry_at:
  assumes "safe_file p"
  shows "unpack_entry digest m tree (path_parts p) =
    (if named p m \<and> \<not> is_whiteout p then (if tm_type m = DirectoryType then None else Some (digest, m))
     else if collides (path_parts p) m then None else tree (path_parts p))"
proof (cases "safe_path (tm_name m)")
  case (Inr q)
  then show ?thesis using safe_file_parts [OF assms safe_path_safe [OF Inr]]
    by (auto simp: unpack_entry_def named_def collides_def)
qed (simp add: unpack_entry_def named_def collides_def)

lemma unpack_entries_at:
  assumes "safe_file p"
  shows "fold (unpack_entry digest) ms tree (path_parts p) \<in>
    {case find (\<lambda>m. named p m \<and> \<not> is_whiteout p) (rev ms) of
       Some m \<Rightarrow> if tm_type m = DirectoryType then None else Some (digest, m)
     | None \<Rightarrow> tree (path_parts p)} \<union> (if list_ex (collides (path_parts p)) ms then {None} else {})"
  by (induction ms rule: rev_induct) (auto simp: unpack_entry_at [OF assms] split: if_splits option.splits)

text \<open>What is scanned of an entry of the tree.\<close>

definition scanned_entry :: "container_scanner \<Rightarrow> string \<Rightarrow> (string \<times> tar_member) option \<Rightarrow> image_file option" where
  "scanned_entry cs p e = (case e of None \<Rightarrow> None | Some (digest, m) \<Rightarrow> provided cs digest p m)"

definition tree_seen :: "container_scanner \<Rightarrow> bool \<Rightarrow> string \<Rightarrow> (string \<times> tar_member) option \<Rightarrow> image_file option \<Rightarrow> bool" where
  "tree_seen cs collided p e kept \<longleftrightarrow> kept = scanned_entry cs p e \<or> e = None \<and> collided"

lemma provided_directory: "tm_type m = DirectoryType \<Longrightarrow> provided cs digest p m = None"
  by (simp add: provided_def split: member_data.split)

lemma unpack_layer_seen:
  assumes "safe_file p" "tree_seen cs c p (tree (path_parts p)) (below p)"
  shows "tree_seen cs (c \<or> list_ex (collides (path_parts p)) (entries_of cs l)) p
    (unpack_layer cs l tree (path_parts p)) (layered cs l below p)"
  using unpack_entries_at [OF assms(1), of "ly_digest l" "entries_of cs l"
      "\<lambda>ps. if list_ex (hidden_by ps) (entries_of cs l) then None else tree ps"] assms(2)
  unfolding unpack_layer_def
  by (auto simp: tree_seen_def layered_def scanned_entry_def provided_directory split: option.splits if_splits)

lemma unpack_layers_seen:
  assumes "safe_file p" "tree_seen cs c p (tree (path_parts p)) (below p)"
  shows "tree_seen cs (c \<or> list_ex (\<lambda>l. list_ex (collides (path_parts p)) (entries_of cs l)) ls) p
    (fold (unpack_layer cs) ls tree (path_parts p)) (fold (layered cs) ls below p)"
  using assms(2)
proof (induction ls arbitrary: c tree below)
  case (Cons l ls)
  have "tree_seen cs (c \<or> list_ex (collides (path_parts p)) (entries_of cs l)) p
    (unpack_layer cs l tree (path_parts p)) (layered cs l below p)"
    by (rule unpack_layer_seen) (rule assms(1), rule Cons.prems)
  from Cons.IH [where c = "c \<or> list_ex (collides (path_parts p)) (entries_of cs l)" and tree = "unpack_layer cs l tree"
    and below = "layered cs l below", OF this] show ?case by (simp add: disj_ac)
qed simp

lemma unsafe_not_layered: "\<not> safe_file p \<Longrightarrow> fold (layered cs) ls (\<lambda>_. None) p = None"
proof (induction ls rule: rev_induct)
  case (snoc l ls)
  then have "\<not> named p m" for m using safe_path_safe by (auto simp: named_def)
  then have "find (\<lambda>m. named p m \<and> \<not> is_whiteout p) (rev (entries_of cs l)) = None" by (auto simp: find_None_iff)
  with snoc show ?case by (simp add: layered_def)
qed simp

text \<open>
  C37. The scanner sees the file system of the image. Every file of the tree into which the layers are
  unpacked, with their whiteouts and with the entries of each layer in order, is scanned with the
  content and under the layer it has there, if its entry is a regular file (links are not followed) of a
  supported name and size, and is not scanned otherwise. What is scanned beyond that tree are only paths with which an entry of some
  layer collides: one above them that is not a directory, or one below them. No scanned path is
  absolute or climbs with \<open>..\<close>, none is kept twice, no file is larger than the limit, and all layers
  together have no more entries than allowed.
\<close>

theorem image_overlay_follows_whiteouts:
  assumes "validate_container_limits cs = Inr ()" "image_overlay cs layers = Inr files"
  shows "(\<forall>p digest m. safe_file p \<and> unpack cs layers (path_parts p) = Some (digest, m) \<longrightarrow> map_of files p = provided cs digest p m) \<and>
    (\<forall>p. unpack cs layers (path_parts p) = None \<and> map_of files p \<noteq> None \<longrightarrow>
       list_ex (\<lambda>l. list_ex (collides (path_parts p)) (entries_of cs l)) layers) \<and>
    files_ok cs (ly_digest ` set layers) files \<and>
    int (sum_list (map (\<lambda>l. length (entries_of cs l)) layers)) \<le> cs_max_entries cs"
proof -
  note kept = image_overlay_Inr [OF assms(2)]
  have seen: "tree_seen cs (list_ex (\<lambda>l. list_ex (collides (path_parts p)) (entries_of cs l)) layers) p
      (unpack cs layers (path_parts p)) (map_of files p)" if "safe_file p" for p
  proof -
    have "tree_seen cs False p None None" by (simp add: tree_seen_def scanned_entry_def)
    from unpack_layers_seen [OF that, of cs False "\<lambda>_. None" "\<lambda>_. None" layers, OF this]
    show ?thesis by (simp add: kept(1) unpack_def)
  qed
  have sees: "map_of files p = provided cs digest p m" if "safe_file p" "unpack cs layers (path_parts p) = Some (digest, m)" for p digest m
    using seen [OF that(1)] that(2) by (simp add: tree_seen_def scanned_entry_def)
  have beyond: "list_ex (\<lambda>l. list_ex (collides (path_parts p)) (entries_of cs l)) layers"
    if "unpack cs layers (path_parts p) = None" "map_of files p \<noteq> None" for p
  proof -
    have "safe_file p" using that(2) files_ok_lookup [OF kept(2), of p] by (cases "safe_file p") simp_all
    from seen [OF this] that show ?thesis by (simp add: tree_seen_def scanned_entry_def)
  qed
  have limit: "0 \<le> cs_max_entries cs" using assms(1) by (simp add: validate_container_limits_def split: if_splits)
  show ?thesis
  proof (intro conjI)
    show "\<forall>p digest m. safe_file p \<and> unpack cs layers (path_parts p) = Some (digest, m) \<longrightarrow> map_of files p = provided cs digest p m"
      using sees by blast
    show "\<forall>p. unpack cs layers (path_parts p) = None \<and> map_of files p \<noteq> None \<longrightarrow>
        list_ex (\<lambda>l. list_ex (collides (path_parts p)) (entries_of cs l)) layers"
      using beyond by blast
  qed (rule kept(2), rule kept(3) [OF limit])
qed

section \<open>Digests\<close>

lemma sha256_digits_Some: "sha256_digits d = Some x \<Longrightarrow> d = ''sha256:'' @ x"
  by (auto simp: sha256_digits_def startswith_prefix prefix_def split: if_splits)

lemma descriptor_digest_Inr: "descriptor_digest j = Inr d \<Longrightarrow> \<exists>x. sha256_digits d = Some x"
  by (auto simp: descriptor_digest_def split: option.splits json.splits if_splits)

lemma read_oci_blob_Inr:
  "read_oci_blob lib members d limit = Inr payload \<Longrightarrow>
     d = ''sha256:'' @ cl_sha256 lib payload \<and> (\<exists>name. read_member members name limit = Inr payload)"
  by (auto simp: read_oci_blob_def bindE_Inr split: option.splits if_splits dest!: sha256_digits_Some)

text \<open>A content that is the whole payload of a regular member of the archive.\<close>

definition archived :: "(string \<times> tar_member) list \<Rightarrow> string \<Rightarrow> bool" where
  "archived members content \<longleftrightarrow> (\<exists>(name, m) \<in> set members. tm_regular m \<and> tm_data m = Payload content)"

lemma read_member_Inr: "read_member members name limit = Inr payload \<Longrightarrow> archived members payload"
proof -
  assume a: "read_member members name limit = Inr payload"
  then obtain m d where m: "map_of members name = Some m" "tm_regular m" "tm_data m = Payload d" "0 \<le> tm_size m" "tm_size m \<le> limit"
    and p: "payload = take (nat (limit + 1)) d" "int (length payload) \<le> limit"
    by (auto simp: read_member_def Let_def unreadable_def split: option.splits if_splits member_data.splits)
  then have "payload = d" by (cases "length d \<le> nat (limit + 1)") auto
  with m show ?thesis by (auto simp: archived_def dest: map_of_SomeD)
qed

definition verified_layer :: "container_scanner \<Rightarrow> (string \<times> tar_member) list \<Rightarrow> layer \<Rightarrow> bool" where
  "verified_layer cs members l \<longleftrightarrow>
     ly_digest l = ''sha256:'' @ cl_sha256 (cs_library cs) (ly_content l) \<and> archived members (ly_content l)"

lemma oci_layers_verified: "load_oci_layers cs members ds = Inr ls \<Longrightarrow> list_all (verified_layer cs members) ls"
  by (induction ds arbitrary: ls)
    (auto simp: bindE_Inr verified_layer_def split: if_splits dest!: read_oci_blob_Inr intro: read_member_Inr)

lemma docker_layers_verified: "load_docker_layers cs members ds = Inr ls \<Longrightarrow> list_all (verified_layer cs members) ls"
  by (induction ds arbitrary: ls) (auto simp: bindE_Inr verified_layer_def intro: read_member_Inr)

text \<open>The ways in which the code asks for a list in a document.\<close>

lemma entries_Inr:
  "(case ds of [] \<Rightarrow> Inl e | j # js \<Rightarrow> f j js) = Inr r \<longleftrightarrow> (\<exists>j js. ds = j # js \<and> f j js = Inr r)"
  "(case x of Some (JList ds) \<Rightarrow> g ds | _ \<Rightarrow> Inl e) = Inr r \<longleftrightarrow> (\<exists>ds. x = Some (JList ds) \<and> g ds = Inr r)"
  "(case y of JList ds \<Rightarrow> g ds | _ \<Rightarrow> Inl e) = Inr r \<longleftrightarrow> (\<exists>ds. y = JList ds \<and> g ds = Inr r)"
  by (auto split: option.splits json.splits list.splits)

lemma find_manifest_digest:
  "find_manifest cs members ref n d = Inr (doc, digest) \<Longrightarrow>
     \<exists>content. digest = ''sha256:'' @ cl_sha256 (cs_library cs) content \<and> archived members content"
proof (induction n arbitrary: d)
  case (Suc n)
  from Suc.prems obtain g p j b where "read_oci_blob (cs_library cs) members g 8000000 = Inr p"
    and rest: "(if b then bindE (json_get j ''manifests'') (\<lambda>entries.
                case entries of
                  Some (JList (j # js)) \<Rightarrow>
                    bindE (select_oci_descriptor cs (j # js) ref) (\<lambda>d. find_manifest cs members ref n d)
                | _ \<Rightarrow> scan_error ''OCI nested image index is empty'')
            else if json_true j then Inr (j, g)
            else scan_error ''OCI image index nesting exceeds supported depth'') = Inr (doc, digest)"
    unfolding find_manifest.simps bindE_Inr Let_def by blast
  show ?case
  proof (cases b)
    case True
    then obtain d' where "find_manifest cs members ref n d' = Inr (doc, digest)"
      using rest unfolding if_P [OF True] bindE_Inr entries_Inr by blast
    then show ?thesis by (rule Suc.IH)
  next
    case False
    then have "digest = g" using rest by (simp split: if_splits)
    with \<open>read_oci_blob (cs_library cs) members g 8000000 = Inr p\<close> show ?thesis
      using read_oci_blob_Inr read_member_Inr by blast
  qed
qed simp

text \<open>
  C38. What is scanned is what the image says it is. Whenever an archive loads, in either format, every
  layer is the content of a member of the archive and its recorded digest is the SHA-256 of that
  content, and the image digest is the SHA-256 of the manifest or configuration found in the archive.
\<close>

theorem loaded_layers_match_their_digests:
  assumes "load_image cs archive image_ref oci_ref = Inr (digest, fmt, layers)"
  shows "\<exists>members. outer_members (cs_max_entries cs) 1 (the (all_members (cl_open (cs_library cs) archive))) [] = Inr members \<and>
    list_all (verified_layer cs members) layers \<and>
    (\<exists>content. digest = ''sha256:'' @ cl_sha256 (cs_library cs) content \<and> archived members content)"
proof -
  from assms obtain ms members where ms: "all_members (cl_open (cs_library cs) archive) = Some ms"
    and members: "outer_members (cs_max_entries cs) 1 ms [] = Inr members"
    and load: "load_oci_image cs members oci_ref = Inr (digest, layers) \<or> load_docker_image cs members image_ref = Inr (digest, layers)"
    by (auto simp: load_image_def unreadable_def bindE_Inr split: option.splits if_splits)
  from load have "list_all (verified_layer cs members) layers \<and>
      (\<exists>content. digest = ''sha256:'' @ cl_sha256 (cs_library cs) content \<and> archived members content)"
  proof
    assume "load_oci_image cs members oci_ref = Inr (digest, layers)"
    then obtain d doc ds where "find_manifest cs members oci_ref 5 d = Inr (doc, digest)" "load_oci_layers cs members ds = Inr layers"
      unfolding load_oci_image_def bindE_Inr entries_Inr by (auto simp: bindE_Inr entries_Inr)
    then show ?thesis using oci_layers_verified find_manifest_digest by blast
  next
    assume "load_docker_image cs members image_ref = Inr (digest, layers)"
    then obtain name content ds where "read_member members name 8000000 = Inr content"
        "digest = ''sha256:'' @ cl_sha256 (cs_library cs) content" "load_docker_layers cs members ds = Inr layers"
      unfolding load_docker_image_def bindE_Inr entries_Inr Let_def by (auto simp: entries_Inr bindE_Inr split: if_splits)
    then show ?thesis using docker_layers_verified read_member_Inr by blast
  qed
  with ms members show ?thesis by auto
qed

section \<open>What a scan reports\<close>

lemma put_meta_set: "(k, v) \<in> set (put_meta k v m)"
  by (auto simp: put_meta_def dest!: map_of_SomeD simp: image_iff) force

lemma put_meta_keep: "k \<noteq> k' \<Longrightarrow> (k, v) \<in> set m \<Longrightarrow> (k, v) \<in> set (put_meta k' v' m)"
  by (force simp: put_meta_def image_iff)

text \<open>An observation says which image, file and layer it is from, and keeps nothing of the file's text.\<close>

definition traced_to :: "string \<Rightarrow> string \<Rightarrow> string \<Rightarrow> image_file \<Rightarrow> crypto_observation \<Rightarrow> bool" where
  "traced_to digest fmt p f x \<longleftrightarrow> ev_snippet (ob_evidence x) = None \<and>
     {(''container_image_digest'', MetaText digest), (''container_image_format'', MetaText fmt), (''container_path'', MetaText p),
      (''container_layer_digest'', MetaText (if_layer_digest f))} \<subseteq> set (ev_metadata (ob_evidence x))"

lemma annotate_traced: "traced_to digest fmt p f (annotate digest fmt p (if_layer_digest f) x)"
proof -
  have "ev_snippet (ob_evidence (annotate digest fmt p (if_layer_digest f) x)) = None" by (simp add: annotate_def)
  then show ?thesis unfolding traced_to_def annotate_def by (auto intro!: put_meta_set put_meta_keep)
qed

lemma scan_image_file_traced:
  "scan_image_file cs n name digest fmt p f = Inr obs \<Longrightarrow> x \<in> set obs \<Longrightarrow> traced_to digest fmt p f x"
  by (auto simp: scan_image_file_def Let_def bindE_Inr annotate_traced split: if_splits)

lemma scan_image_files_traced:
  "scan_image_files cs n name digest fmt files = Inr obs \<Longrightarrow> x \<in> set obs \<Longrightarrow> \<exists>(p, f) \<in> set files. traced_to digest fmt p f x"
  by (induction cs n name digest fmt files arbitrary: obs rule: scan_image_files.induct)
    (auto simp: bindE_Inr dest: scan_image_file_traced)

lemma scan_container_path_Inr:
  "scan_container_path cs archive name image_ref oci_ref = Inr ic \<Longrightarrow>
     \<exists>layers files. load_image cs archive image_ref oci_ref = Inr (ic_image_digest ic, ic_image_format ic, layers) \<and>
       image_overlay cs layers = Inr files \<and>
       scan_image_files cs 0 (case some_text name of Some n \<Rightarrow> n | None \<Rightarrow> path_name archive) (ic_image_digest ic) (ic_image_format ic)
         (sort_key fst files) = Inr (ic_observations ic)"
  by (auto simp: scan_container_path_def bindE_Inr Let_def)

text \<open>
  C39. Every observation of a container scan is traceable and free of file contents: it names the
  digest of the image, and the path of a file that the scanner kept of the image, together with the
  digest of a layer that has an entry of that path with the content of the file; the text of the file
  is never copied into the evidence.
\<close>

theorem image_observations_are_traceable:
  assumes "scan_container_path cs archive name image_ref oci_ref = Inr ic"
  shows "\<exists>layers files. load_image cs archive image_ref oci_ref = Inr (ic_image_digest ic, ic_image_format ic, layers) \<and>
    image_overlay cs layers = Inr files \<and>
    list_all (\<lambda>x. \<exists>p f l m. map_of files p = Some f \<and> l \<in> set layers \<and> m \<in> set (entries_of cs l) \<and>
      safe_path (tm_name m) = Inr p \<and> tm_data m = Payload (if_content f) \<and> if_layer_digest f = ly_digest l \<and>
      traced_to (ic_image_digest ic) (ic_image_format ic) p f x) (ic_observations ic)"
proof -
  from scan_container_path_Inr [OF assms(1)] obtain layers files where
    load: "load_image cs archive image_ref oci_ref = Inr (ic_image_digest ic, ic_image_format ic, layers)"
    and files: "image_overlay cs layers = Inr files"
    and scan: "scan_image_files cs 0 (case some_text name of Some n \<Rightarrow> n | None \<Rightarrow> path_name archive) (ic_image_digest ic)
      (ic_image_format ic) (sort_key fst files) = Inr (ic_observations ic)" by blast
  note kept = image_overlay_Inr [OF files]
  have "\<exists>p f l m. map_of files p = Some f \<and> l \<in> set layers \<and> m \<in> set (entries_of cs l) \<and>
      safe_path (tm_name m) = Inr p \<and> tm_data m = Payload (if_content f) \<and> if_layer_digest f = ly_digest l \<and>
      traced_to (ic_image_digest ic) (ic_image_format ic) p f x" if x: "x \<in> set (ic_observations ic)" for x
  proof -
    from scan_image_files_traced [OF scan x] obtain p f where pf: "(p, f) \<in> set files"
      "traced_to (ic_image_digest ic) (ic_image_format ic) p f x" by auto
    then have at_p: "map_of files p = Some f" using kept(2) by (simp add: files_ok_def)
    with kept(1) obtain l m where "l \<in> set layers" "m \<in> set (entries_of cs l)" "named p m" "provided cs (ly_digest l) p m = Some f"
      using layered_provider by metis
    then show ?thesis using at_p pf(2)
      by (intro exI [of _ p] exI [of _ f] exI [of _ l] exI [of _ m]) (auto simp: named_def provided_def split: member_data.splits if_splits)
  qed
  with load files show ?thesis by (auto simp: list_all_iff)
qed

section \<open>Where the scanner departs from how images are unpacked\<close>

fun stream_members :: "tar_stream \<Rightarrow> tar_member list" where
  "stream_members (Member m rest) = m # stream_members rest"
| "stream_members _ = []"

lemma collected_names_are_safe:
  "collect_whiteouts cs st e u ws = Inr r \<Longrightarrow> m \<in> set (stream_members st) \<Longrightarrow> is_ok (safe_path (tm_name m))"
  by (induction cs st e u ws rule: collect_whiteouts.induct) (auto simp: bindE_Inr split: if_splits)

lemma applied_names_are_safe:
  "apply_layers cs ls files e b = Inr r \<Longrightarrow> l \<in> set ls \<Longrightarrow> m \<in> set (stream_members (layer_stream (cs_library cs) l)) \<Longrightarrow>
     is_ok (safe_path (tm_name m))"
  by (induction ls arbitrary: files e b)
    (auto simp: bindE_Inr apply_layer_def dest: collected_names_are_safe)

lemma root_entry_unsafe: "\<not> is_ok (safe_path ''.'')" "\<not> is_ok (safe_path ''./'')"
  by code_simp+

text \<open>
  C40. An image with a layer that has an entry for its root directory, as \<open>tar -C rootfs .\<close> writes
  it, cannot be scanned: the entry is harmless, but the whole scan fails, whatever else the image
  contains.
\<close>

theorem root_entry_rejects_image:
  assumes "load_image cs archive image_ref oci_ref = Inr (digest, fmt, layers)" "l \<in> set layers"
    and "m \<in> set (stream_members (layer_stream (cs_library cs) l))" "tm_name m = ''.'' \<or> tm_name m = ''./''"
  shows "\<not> is_ok (scan_container_path cs archive name image_ref oci_ref)"
proof
  assume "is_ok (scan_container_path cs archive name image_ref oci_ref)"
  then obtain ic where "scan_container_path cs archive name image_ref oci_ref = Inr ic"
    by (cases "scan_container_path cs archive name image_ref oci_ref") auto
  from scan_container_path_Inr [OF this] assms(1) obtain files e b where "apply_layers cs layers [] 0 0 = Inr (e, b, files)"
    by (auto simp: image_overlay_def bindE_Inr split: if_splits)
  from applied_names_are_safe [OF this assms(2,3)] assms(4) root_entry_unsafe show False by auto
qed

text \<open>
  A file or link that replaces a directory of a lower layer does not take away what the lower layer
  had in that directory: the scanner still reports it, although it is no longer part of the image.
\<close>

theorem replaced_directory_keeps_its_files:
  assumes "image_overlay cs layers = Inr files" "image_overlay cs (layers @ [l]) = Inr files'" "map_of files p = Some f"
    and "m \<in> set (entries_of cs l)" "named d m" "\<not> is_whiteout d" "tm_type m \<noteq> DirectoryType"
    and "strict_prefix (path_parts d) (path_parts p)"
    and "list_all (\<lambda>m. \<not> named p m \<and> \<not> hidden_by (path_parts p) m) (entries_of cs l)"
  shows "map_of files' p = Some f \<and> unpack cs (layers @ [l]) (path_parts p) = None"
proof
  have last: "map_of files' p = layered cs l (map_of files) p"
    using image_overlay_Inr(1) [OF assms(1)] image_overlay_Inr(1) [OF assms(2)] by simp
  have "find (\<lambda>m. named p m \<and> \<not> is_whiteout p) (rev (entries_of cs l)) = None"
    using assms(9) by (auto simp: find_None_iff list_all_iff)
  moreover have "\<not> list_ex (hidden_by (path_parts p)) (entries_of cs l)" using assms(9) by (auto simp: list_all_iff list_ex_iff)
  ultimately show "map_of files' p = Some f" using assms(3) last by (simp add: layered_def)
  have safe: "safe_file p" using files_ok_lookup [OF image_overlay_Inr(2) [OF assms(1)]] assms(3) by force
  have gone: "fold (unpack_entry g) ms tree (path_parts p) = None"
    if "\<forall>m \<in> set ms. \<not> named p m" "tree (path_parts p) = None \<or> m \<in> set ms" for ms g tree
    using that
  proof (induction ms arbitrary: tree)
    case (Cons x xs)
    have "unpack_entry g x tree (path_parts p) = None" if "tree (path_parts p) = None \<or> x = m"
      using that Cons.prems(1) assms(5-8) unpack_entry_at [OF safe, of g x tree] by (auto simp: collides_def named_def)
    with Cons show ?case by (auto simp: unpack_entry_at [OF safe])
  qed auto
  show "unpack cs (layers @ [l]) (path_parts p) = None"
    using gone [of "entries_of cs l"] assms(4,9) by (auto simp: unpack_def unpack_layer_def list_all_iff)
qed

text \<open>
  One certificate that the library cannot interpret, for example one with an unknown signature
  algorithm, makes the scan of the whole image fail: only the errors of loading it are caught.
\<close>

lemma odd_certificate_fails:
  assumes "parsed (cl_load_pem lib) (pem_blocks content) = [c]" "cl_load_der lib (ct_der c) = Some c" "ct_signature_hash c = Inl e"
  shows "\<not> is_ok (scan_certificates lib fresh content locator)"
proof -
  have "\<exists>e. scan_der (cl_load_der lib) fv (ct_der c) loc ip tls = Inl e" for fv loc ip tls
    using assms(2,3) by (cases "public_key_profile c"; cases "subject_alt_names c") (auto simp: scan_der_def)
  then have "\<exists>e. scan_ders lib fresh locator 0 [ct_der c] = Inl e" by (metis scan_ders.simps(2) bindE_simps(1))
  then show ?thesis unfolding scan_certificates_def Let_def assms(1) by auto
qed

lemma unsupported_certificate_fails_image:
  assumes "load_image cs archive image_ref oci_ref = Inr (digest, fmt, layers)" "image_overlay cs layers = Inr files" "(p, f) \<in> set files"
    and "parsed (cl_load_pem (cs_library cs)) (pem_blocks (if_content f)) = [c]"
    and "cl_load_der (cs_library cs) (ct_der c) = Some c" "ct_signature_hash c = Inl e"
  shows "\<not> is_ok (scan_container_path cs archive name image_ref oci_ref)"
proof -
  have one: "\<not> is_ok (scan_image_file cs n nm digest fmt p f)" for n nm
  proof -
    obtain e' where "scan_certificates (cs_library cs) (cs_fresh cs n) (if_content f) (''container://'' @ digest @ ''/'' @ p) = Inl e'"
      using odd_certificate_fails [OF assms(4-6)] by (metis is_ok_simps(2) sum.exhaust)
    then show ?thesis by (simp add: scan_image_file_def Let_def)
  qed
  have "(p, f) \<in> set fs \<Longrightarrow> \<not> is_ok (scan_image_files cs n nm digest fmt fs)" for n nm fs
  proof (induction fs arbitrary: n)
    case (Cons pf fs)
    obtain q g where pf: "pf = (q, g)" by (cases pf)
    show ?case
    proof (cases "scan_image_file cs n nm digest fmt q g")
      case (Inr obs)
      then have "(p, f) \<in> set fs" using Cons.prems one [of n nm] by (auto simp: pf)
      from Cons.IH [OF this, of "Suc n"] Inr show ?thesis by (cases "scan_image_files cs (Suc n) nm digest fmt fs") (auto simp: pf)
    qed (simp add: pf)
  qed simp
  then show ?thesis using assms(1-3) scan_container_path_Inr by (fastforce simp: is_ok_def split: sum.splits)
qed

section \<open>Instances\<close>

definition demo_certificate :: certificate where
  "demo_certificate = \<lparr>ct_der = ''0'', ct_public_key = Inr (RsaKey 1024), ct_key_usage = Inr None, ct_names = Inr None,
     ct_signature_hash = Inr (Some ''sha1''), ct_subject = ''CN=a'', ct_issuer = ''CN=a'', ct_self_issued = True, ct_serial_number = 7,
     ct_not_before = [], ct_not_after = [], ct_signature_oid = ''1.2'', ct_fingerprint = ''f0''\<rparr>"

definition plain_file :: "string \<Rightarrow> string \<Rightarrow> tar_member" where
  "plain_file name d = \<lparr>tm_name = name, tm_size = int (length d), tm_type = RegularType, tm_data = Payload d\<rparr>"

definition plain_directory :: "string \<Rightarrow> tar_member" where
  "plain_directory name = \<lparr>tm_name = name, tm_size = 0, tm_type = DirectoryType, tm_data = NoData\<rparr>"

fun stream_of :: "tar_member list \<Rightarrow> tar_stream" where
  "stream_of [] = EndOfTar"
| "stream_of (m # ms) = Member m (stream_of ms)"

text \<open>
  A Docker archive with two layers. The second hides \<open>b.py\<close> and everything below \<open>d\<close>, adds a new
  \<open>d/n.py\<close>, and replaces the directory \<open>a\<close> by a file.
\<close>

definition demo_library :: container_library where
  "demo_library =
     \<lparr>cl_tar = (\<lambda>zstd content.
        if content = ''one'' then stream_of [plain_directory ''a'', plain_file ''./a/x.py'' ''0'', plain_file ''b.py'' ''DES'', plain_file ''d/e.py'' ''RC4'']
        else if content = ''two'' then stream_of [plain_file ''d/n.py'' ''0'', plain_file ''d/.wh..wh..opq'' [], plain_file ''.wh.b.py'' [], plain_file ''a'' ''0'']
        else if content = ''root'' then stream_of [plain_directory ''./'', plain_file ''a.py'' ''0'']
        else BadTar),
      cl_loads = (\<lambda>s.
        if s = ''J'' then Some (JList [JObj [(''Config'', JText ''c.json''), (''Layers'', JList [JText ''1.tar'', JText ''2.tar''])]])
        else if s = ''R'' then Some (JList [JObj [(''Config'', JText ''c.json''), (''Layers'', JList [JText ''3.tar''])]]) else None),
      cl_str = (\<lambda>_. []), cl_sha256 = (\<lambda>s. s @ replicate (64 - length s) CHR ''0''), cl_decode = (\<lambda>s. s),
      cl_load_pem = (\<lambda>_. None), cl_load_der = (\<lambda>s. if s = ''0'' then Some demo_certificate else None),
      cl_resolve = (\<lambda>s. [''images'', s]), cl_stat = (\<lambda>_. FileOfSize 100),
      cl_open = (\<lambda>path. stream_of [plain_file ''manifest.json'' (if path = [''images'', ''root.tar''] then ''R'' else ''J''), plain_file ''c.json'' ''C'',
        plain_file ''1.tar'' ''one'', plain_file ''2.tar'' ''two'', plain_file ''3.tar'' ''root''])\<rparr>"

definition demo_container :: container_scanner where
  "demo_container = \<lparr>cs_library = demo_library, cs_archive_root = Some [''images''], cs_platform_os = ''linux'', cs_platform_arch = ''amd64'',
     cs_max_archive_bytes = 1000, cs_max_layers = 10, cs_max_layer_compressed_bytes = 1000, cs_max_layer_uncompressed_bytes = 1000,
     cs_max_entries = 10, cs_max_file_bytes = 100, cs_max_scan_bytes = 1000,
     cs_inputs = (\<lambda>_. \<lparr>si_asset_id = [], si_ids = (\<lambda>_. []), si_clock = (\<lambda>_. 0), si_asset_name = [], si_locator = []\<rparr>),
     cs_fresh = (\<lambda>_ _. \<lparr>fv_ids = (\<lambda>_. ''o''), fv_clock = (\<lambda>_. 0)\<rparr>)\<rparr>"

definition docker_layer :: "string \<Rightarrow> layer" where
  "docker_layer content = \<lparr>ly_digest = ''sha256:'' @ cl_sha256 demo_library content,
     ly_media_type = ''application/vnd.docker.image.rootfs.diff.tar'', ly_content = content\<rparr>"

definition demo_layers :: "layer list" where
  "demo_layers = [docker_layer ''one'', docker_layer ''two'']"

lemma demo_fields:
  "cs_library demo_container = demo_library" "cs_max_entries demo_container = 10" "cs_max_layers demo_container = 10"
  "cs_max_file_bytes demo_container = 100" "cs_max_scan_bytes demo_container = 1000" "cs_max_archive_bytes demo_container = 1000"
  "cs_max_layer_compressed_bytes demo_container = 1000" "cs_max_layer_uncompressed_bytes demo_container = 1000"
  "cs_platform_os demo_container = ''linux''" "cs_platform_arch demo_container = ''amd64''"
  "cs_fresh demo_container n = (\<lambda>_. \<lparr>fv_ids = (\<lambda>_. ''o''), fv_clock = (\<lambda>_. 0)\<rparr>)"
  "cl_load_der demo_library ''0'' = Some demo_certificate" "cl_load_pem demo_library b = None" "cl_stat demo_library path = FileOfSize 100"
  "ly_digest (docker_layer content) = ''sha256:'' @ cl_sha256 demo_library content"
  by (simp_all add: demo_container_def demo_library_def docker_layer_def)

lemma demo_safe_paths:
  "safe_path ''manifest.json'' = Inr ''manifest.json''" "safe_path ''c.json'' = Inr ''c.json''" "safe_path ''1.tar'' = Inr ''1.tar''"
  "safe_path ''2.tar'' = Inr ''2.tar''" "safe_path ''3.tar'' = Inr ''3.tar''" "safe_path ''a'' = Inr ''a''" "safe_path ''./a/x.py'' = Inr ''a/x.py''"
  "safe_path ''b.py'' = Inr ''b.py''" "safe_path ''d/e.py'' = Inr ''d/e.py''" "safe_path ''d/n.py'' = Inr ''d/n.py''"
  "safe_path ''d/.wh..wh..opq'' = Inr ''d/.wh..wh..opq''" "safe_path ''.wh.b.py'' = Inr ''.wh.b.py''"
  "config_digits ''c.json'' = None"
  "whiteout_of ''a'' = Inr None" "whiteout_of ''a/x.py'' = Inr None" "whiteout_of ''b.py'' = Inr None" "whiteout_of ''d/e.py'' = Inr None"
  "whiteout_of ''d/n.py'' = Inr None" "whiteout_of ''d/.wh..wh..opq'' = Inr (Some (Opaque ''d''))" "whiteout_of ''.wh.b.py'' = Inr (Some (Remove ''b.py''))"
  "supported_path ''a/x.py''" "supported_path ''b.py''" "supported_path ''d/e.py''" "supported_path ''d/n.py''" "\<not> supported_path ''a''"
  "path_name (path_parts ''a'') = ''a''" "path_name (path_parts ''a/x.py'') = ''x.py''" "path_name (path_parts ''b.py'') = ''b.py''"
  "path_name (path_parts ''d/e.py'') = ''e.py''" "path_name (path_parts ''d/n.py'') = ''n.py''"
  "path_name (path_parts ''d/.wh..wh..opq'') = ''.wh..wh..opq''" "path_name (path_parts ''.wh.b.py'') = ''.wh.b.py''"
  by code_simp+

lemma demo_images:
  "load_image demo_container [''images'', ''x.tar''] None None =
     Inr (''sha256:'' @ cl_sha256 demo_library ''C'', ''docker-archive'', demo_layers)"
  "load_image demo_container [''images'', ''root.tar''] None None =
     Inr (''sha256:'' @ cl_sha256 demo_library ''C'', ''docker-archive'', [docker_layer ''root''])"
  by (simp_all add: load_image_def load_docker_image_def demo_container_def demo_library_def plain_file_def demo_safe_paths
      read_json_member_def read_member_def load_json_def select_docker_manifest_def some_text_def object_field_def json_str_def
      Let_def demo_layers_def docker_layer_def)

lemma demo_streams:
  "layer_stream demo_library (docker_layer ''one'') =
     stream_of [plain_directory ''a'', plain_file ''./a/x.py'' ''0'', plain_file ''b.py'' ''DES'', plain_file ''d/e.py'' ''RC4'']"
  "layer_stream demo_library (docker_layer ''two'') =
     stream_of [plain_file ''d/n.py'' ''0'', plain_file ''d/.wh..wh..opq'' [], plain_file ''.wh.b.py'' [], plain_file ''a'' ''0'']"
  "layer_stream demo_library (docker_layer ''root'') = stream_of [plain_directory ''./'', plain_file ''a.py'' ''0'']"
  by (simp_all add: layer_stream_def demo_library_def docker_layer_def)

definition demo_files :: image_files where
  "demo_files = [(''a/x.py'', \<lparr>if_content = ''0'', if_layer_digest = ''sha256:'' @ cl_sha256 demo_library ''one''\<rparr>),
     (''d/n.py'', \<lparr>if_content = ''0'', if_layer_digest = ''sha256:'' @ cl_sha256 demo_library ''two''\<rparr>)]"

lemma demo_overlay: "image_overlay demo_container demo_layers = Inr demo_files"
  by (simp add: demo_layers_def image_overlay_def apply_layer_def demo_fields demo_streams plain_file_def plain_directory_def
      demo_safe_paths pop_file_def rstrip_slash_def remove_path_def startswith_def demo_files_def)

lemma demo_single: "image_overlay demo_container [docker_layer ''one''] = Inr
    [(''a/x.py'', \<lparr>if_content = ''0'', if_layer_digest = ''sha256:'' @ cl_sha256 demo_library ''one''\<rparr>),
     (''b.py'', \<lparr>if_content = ''DES'', if_layer_digest = ''sha256:'' @ cl_sha256 demo_library ''one''\<rparr>),
     (''d/e.py'', \<lparr>if_content = ''RC4'', if_layer_digest = ''sha256:'' @ cl_sha256 demo_library ''one''\<rparr>)]"
  by (simp add: image_overlay_def apply_layer_def demo_fields demo_streams plain_file_def plain_directory_def demo_safe_paths
      pop_file_def startswith_def)

lemma demo_limits: "validate_container_limits demo_container = Inr ()"
  by (simp add: validate_container_limits_def demo_fields)

lemma demo_blocks: "pem_blocks ''0'' = []"
  by code_simp

lemma demo_scan:
  "\<exists>ic. scan_container_path demo_container [''images'', ''x.tar''] None None None = Inr ic \<and> length (ic_observations ic) = 4 \<and>
     ic_image_digest ic = ''sha256:'' @ cl_sha256 demo_library ''C''"
proof -
  have one: "\<exists>obs. scan_image_file demo_container n name g fmt p \<lparr>if_content = ''0'', if_layer_digest = l\<rparr> = Inr obs \<and> length obs = 2"
    for n name g fmt p l
    by (simp add: scan_image_file_def scan_certificates_def demo_fields demo_blocks parsed_def demo_certificate_def scan_der_def
        public_key_profile_def rsa_certificate_primitive_def subject_alt_names_def Let_def)
  have sorted: "sort_key fst demo_files = demo_files" by (simp add: demo_files_def)
  have "\<exists>obs. scan_image_files demo_container 0 name g fmt (sort_key fst demo_files) = Inr obs \<and> length obs = 4" for name g fmt
  proof -
    obtain x where "scan_image_file demo_container 0 name g fmt ''a/x.py'' (snd (demo_files ! 0)) = Inr x" "length x = 2"
      using one [of 0 name g fmt "''a/x.py''" "''sha256:'' @ cl_sha256 demo_library ''one''"] by (auto simp: demo_files_def)
    moreover obtain y where "scan_image_file demo_container 1 name g fmt ''d/n.py'' (snd (demo_files ! 1)) = Inr y" "length y = 2"
      using one [of 1 name g fmt "''d/n.py''" "''sha256:'' @ cl_sha256 demo_library ''two''"] by (auto simp: demo_files_def)
    ultimately show ?thesis unfolding sorted by (simp add: demo_files_def)
  qed
  then show ?thesis
    by (fastforce simp: scan_container_path_def validate_archive_path_def demo_fields demo_images demo_overlay Let_def bindE_Inr)
qed

lemma demo_entries:
  "entries_of demo_container (docker_layer ''one'') =
     [plain_directory ''a'', plain_file ''./a/x.py'' ''0'', plain_file ''b.py'' ''DES'', plain_file ''d/e.py'' ''RC4'']"
  "entries_of demo_container (docker_layer ''two'') =
     [plain_file ''d/n.py'' ''0'', plain_file ''d/.wh..wh..opq'' [], plain_file ''.wh.b.py'' [], plain_file ''a'' ''0'']"
  by (simp_all add: entries_of_def demo_fields demo_streams)

text \<open>The tree of the two layers has \<open>d/n.py\<close>, but nothing below \<open>a\<close> any more, where the scanner keeps
  a file of the first layer.\<close>

lemma demo_parts:
  "path_parts ''d/n.py'' = [''d'', ''n.py'']" "path_parts ''a/x.py'' = [''a'', ''x.py'']" "path_parts ''a'' = [''a'']"
  "path_parts ''b.py'' = [''b.py'']" "path_parts ''d/e.py'' = [''d'', ''e.py'']"
  "path_parts ''d/.wh..wh..opq'' = [''d'', ''.wh..wh..opq'']" "path_parts ''.wh.b.py'' = [''.wh.b.py'']"
  by code_simp+

lemma demo_tree:
  "unpack demo_container demo_layers [''d'', ''n.py''] = Some (ly_digest (docker_layer ''two''), plain_file ''d/n.py'' ''0'')"
  "unpack demo_container demo_layers [''a'', ''x.py''] = None" "unpack demo_container demo_layers [''b.py''] = None"
  by (simp_all add: unpack_def unpack_layer_def demo_layers_def demo_entries unpack_entry_def hidden_by_def plain_file_def
      plain_directory_def demo_safe_paths demo_parts is_whiteout_def path_name_def startswith_def Let_def strict_prefix_def)

theorem image_overlay_follows_whiteouts_witness:
  "map_of demo_files ''d/n.py'' = provided demo_container (ly_digest (docker_layer ''two'')) ''d/n.py'' (plain_file ''d/n.py'' ''0'') \<and>
   map_of demo_files ''d/n.py'' \<noteq> None \<and> map_of demo_files ''a/x.py'' \<noteq> None \<and>
   list_ex (\<lambda>l. list_ex (collides [''a'', ''x.py'']) (entries_of demo_container l)) demo_layers"
proof -
  note seen = image_overlay_follows_whiteouts [OF demo_limits demo_overlay]
  have safe: "safe_file ''d/n.py''" by code_simp
  have kept: "map_of demo_files ''d/n.py'' \<noteq> None" "map_of demo_files ''a/x.py'' \<noteq> None" by (simp_all add: demo_files_def)
  have "map_of demo_files ''d/n.py'' = provided demo_container (ly_digest (docker_layer ''two'')) ''d/n.py'' (plain_file ''d/n.py'' ''0'')"
    by (rule conjunct1 [OF seen, rule_format]) (simp only: safe demo_parts demo_tree simp_thms)
  moreover have "list_ex (\<lambda>l. list_ex (collides (path_parts ''a/x.py'')) (entries_of demo_container l)) demo_layers"
    by (rule conjunct1 [OF conjunct2 [OF seen], rule_format]) (simp only: kept demo_parts demo_tree simp_thms not_False_eq_True)
  ultimately show ?thesis using kept by (simp only: demo_parts simp_thms)
qed

theorem loaded_layers_match_their_digests_witness:
  "\<exists>members. list_all (verified_layer demo_container members) demo_layers \<and> map ly_content demo_layers = [''one'', ''two'']"
  using loaded_layers_match_their_digests [OF demo_images(1)] by (auto simp: demo_layers_def docker_layer_def)

theorem image_observations_are_traceable_witness:
  "\<exists>ic. scan_container_path demo_container [''images'', ''x.tar''] None None None = Inr ic \<and> length (ic_observations ic) = 4 \<and>
     list_all (\<lambda>x. \<exists>p f. map_of demo_files p = Some f \<and> if_layer_digest f \<in> ly_digest ` set demo_layers \<and>
       traced_to (ic_image_digest ic) (ic_image_format ic) p f x) (ic_observations ic)"
proof -
  obtain ic where ic: "scan_container_path demo_container [''images'', ''x.tar''] None None None = Inr ic" "length (ic_observations ic) = 4"
    using demo_scan by blast
  from image_observations_are_traceable [OF ic(1)] have "list_all (\<lambda>x. \<exists>p f. map_of demo_files p = Some f \<and>
       if_layer_digest f \<in> ly_digest ` set demo_layers \<and> traced_to (ic_image_digest ic) (ic_image_format ic) p f x) (ic_observations ic)"
    unfolding demo_images(1) by (fastforce simp: list_all_iff demo_overlay)
  with ic show ?thesis by blast
qed

theorem root_entry_rejects_image_witness:
  "\<not> is_ok (scan_container_path demo_container [''images'', ''root.tar''] None None None)"
  by (rule root_entry_rejects_image [OF demo_images(2), of "docker_layer ''root''" "plain_directory ''./''"])
    (simp_all add: demo_fields demo_streams plain_directory_def)

text \<open>In the demonstration, the file \<open>a\<close> of the second layer replaces the directory \<open>a\<close> of the first.\<close>

lemma replaced_directory_keeps_its_files_witness:
  "map_of demo_files ''a/x.py'' \<noteq> None \<and> unpack demo_container demo_layers [''a'', ''x.py''] = None"
proof -
  let ?f = "\<lparr>if_content = ''0'', if_layer_digest = ''sha256:'' @ cl_sha256 demo_library ''one''\<rparr>"
  have "map_of demo_files ''a/x.py'' = Some ?f \<and> unpack demo_container ([docker_layer ''one''] @ [docker_layer ''two'']) (path_parts ''a/x.py'') = None"
    by (rule replaced_directory_keeps_its_files [OF demo_single, where l = "docker_layer ''two''" and m = "plain_file ''a'' ''0''" and d = "''a''"])
      (use demo_overlay in \<open>simp_all add: demo_layers_def demo_entries named_def hidden_by_def plain_file_def demo_safe_paths demo_parts
        is_whiteout_def path_name_def startswith_def Let_def strict_prefix_def\<close>)
  then show ?thesis by (simp add: demo_parts demo_layers_def)
qed

end
