(* ===== verification/WorkerLeases.thy ===== *)
theory WorkerLeases
  imports WorkerRuns EndpointScans ImageOverlay
begin

text \<open>
  What becomes of the scan a worker claims. \<open>ends\<close> is a Hoare triple for operations that return or
  raise, with a rule for each way the worker composes its calls. From a state in which the worker holds
  the lease of one job (\<open>holding\<close>), the scan either gives it back (\<open>idle\<close>), or raises with the lease
  still held, and then the report of the failure gives it back; or the database fails after the
  job was left, and the report raises (\<open>adrift\<close>). A lease lost to another process ends the worker with an
  exception, too.
\<close>

section \<open>Outcomes\<close>















section \<open>Holding one lease\<close>

definition holds_lease :: "string \<Rightarrow> string \<Rightarrow> 'x queue_db_scheme \<Rightarrow> bool" where
  "holds_lease worker j d \<longleftrightarrow> (\<exists>q. row_of q_job_id (scan_queue d) j = Some q \<and> q_lease_owner q = Some worker)"

definition holding :: "int \<Rightarrow> string \<Rightarrow> string \<Rightarrow> 'x queue_db_scheme \<Rightarrow> bool" where
  "holding limit worker j d \<longleftrightarrow> queue_inv limit (d, \<lambda>_. 0) \<and> (\<forall>k. holds_lease worker k d \<longleftrightarrow> k = j)"







lemma holding_rows:
  assumes "holding limit worker j d"
  obtains q r where "row_of q_job_id (scan_queue d) j = Some q" "q_lease_owner q = Some worker" "row_of sj_id (scan_jobs d) j = Some r"
    "sj_status r = Running" "row_ok q r" "queue_inv limit (d, \<lambda>_. 0)"
proof -
  have inv: "queue_inv limit (d, \<lambda>_. 0)" and "holds_lease worker j d" using assms by (auto simp: holding_def)
  then obtain q where q: "row_of q_job_id (scan_queue d) j = Some q" "q_lease_owner q = Some worker" by (auto simp: holds_lease_def)
  obtain r where r: "row_of sj_id (scan_jobs d) j = Some r" "row_ok q r" by (rule queue_ok_row [OF queue_invD(1) [OF inv] q(1)])
  then have "sj_status r = Running" using q(2) by (simp add: row_ok_def)
  then show ?thesis using that q r inv by blast
qed

text \<open>Leaving the job: the transaction, the release of the slot and the reload succeed, the lease is msg.\<close>

lemma leave_tx_applies:
  assumes ok: "queue_ok db" and q: "row_of q_job_id (scan_queue db) j = Some q" "q_lease_owner q = Some worker"
    and job: "row_of sj_id (scan_jobs db) j = Some job" "sj_status job = Running"
  shows "leave_tx move release j worker db = (True, pair_update j move release db)"
  using count_where_one [OF queue_ok_keyed(1) [OF ok], of j "\<lambda>r. sj_status r = Running"]
    count_where_one [OF queue_ok_keyed(2) [OF ok], of j "\<lambda>r. q_lease_owner r = Some worker"]
    update_where_matches [OF queue_ok_keyed(1) [OF ok] job(1), of "\<lambda>r. sj_status r = Running"]
    update_where_matches [OF queue_ok_keyed(2) [OF ok] q(1), of "\<lambda>r. q_lease_owner r = Some worker"] q job
  by (simp add: leave_tx_def pair_update_def Let_def)







section \<open>The scan of a claimed job\<close>








section \<open>A run nobody interferes with\<close>








section \<open>A lost lease\<close>

text \<open>When the scan failed and the lease is gone, because it expired and another process recovered it,
  the report of the failure raises inside the handler of the exception, and the run with it: the
  loop around \<open>run_once\<close> has no handler, so the worker's process ends.\<close>

lemma lost_lease_ends_the_worker:
  assumes "call wd 0 (\<lambda>n e. recover_stopped n (wk_quota wk) (e [0]) (\<lambda>i n. e [1, i, n]) (wd_clock wd 0))
      (\<lambda>e. recover_expired_leases (wk_quota wk) (e [0]) (\<lambda>i n. e [1, i, n]) (wd_clock wd 0)) db = (Inr x, db1)"
    and "call wd 1
      (\<lambda>n e. claim_next_stopped n (wk_quota wk) (\<lambda>i n. e [i, n]) (worker_of wk) (wc_lease_seconds (wk_config wk)) (wk_concurrency wk) (wd_clock wd 1))
      (\<lambda>e. claim_next (\<lambda>i n. e [i, n]) (wd_claim_fault wd) (wk_quota wk) (worker_of wk)
      (wc_lease_seconds (wk_config wk)) (Some (wk_concurrency wk)) (wd_clock wd 1)) db1 = (Inr (Some l), db2)"
    and "scan_body wk wd (sl_job l) db2 = (Inl e, db3)" "wd_fault wd 14 = None" "0 \<le> wc_retry_backoff_seconds (wk_config wk)"
    and "get_state (sj_id (sl_job l)) (wd_env wd [14] db3) = Inr (Some q)" "q_lease_owner q \<noteq> Some (worker_of wk)"
  shows "run_worker_once wk wd db = (Inl (RuntimeError ''scan lease is not owned by worker''), wd_env wd [14] db3)"
  using assms by (simp add: run_worker_once_def call_def [of wd 14] fail_scan_def Let_def)

section \<open>Instances\<close>

definition worker_db :: repository_db where
  "worker_db =
     \<lparr>workspaces = workspaces sample_inventory, managed_assets = managed_assets sample_inventory,
      scan_jobs = [new_job ''j'' 5 ''w'' ''a'' ScTls], rate_buckets = [], runtimes = [],
      scan_queue = [new_queue_row ''j'' 3 5], findings = [], finding_scopes = [], scan_schedules = [],
      scheduled_executions = [], scan_snapshots = [], observation_states = [], occurrences = [], drift_events = [],
      migration_items = [], users = [], memberships = [], sessions = [], api_keys = [], policy_packs = [],
      policy_versions = [], policy_assignments = [], connector_credentials = [], repository_configurations = [],
      repository_scan_runs = [], audit_events = []\<rparr>"

lemma worker_db_inv: "queue_inv 1 (worker_db, \<lambda>_. 0)"
  by (simp add: queue_inv_def queue_ok_def slots_ok_def worker_db_def runtimes_ok_def keyed_def
      known_workspace_def active_scans_def running_jobs_def count_where_def sample_inventory_def
      row_of_Cons row_ok_def new_queue_row_def new_job_def)

definition demo_worker :: scan_worker where
  "demo_worker =
     \<lparr>wk_config = \<lparr>wc_worker_id = ''worker'', wc_lease_seconds = 60, wc_poll_interval = 1, wc_retry_backoff_seconds = 5, wc_scan_timeout = 5\<rparr>,
      wk_executor = \<lparr>ex_source = cs_inputs demo_container 0, ex_repository = None, ex_container = demo_container,
        ex_tls = quiet_world, ex_certificate = quiet_world, ex_ssh = quiet_world, ex_fresh = demo_values, ex_policies = None\<rparr>,
      wk_history = None, wk_quota = True, wk_concurrency = 1, wk_scanner_version = ''1'', wk_error_text = (\<lambda>_. ''error'')\<rparr>"

text \<open>Nobody interferes, but storing the findings fails before its commit.\<close>

definition demo_world :: "repository_db world" where
  "demo_world = \<lparr>wd_env = undisturbed, wd_fault = (\<lambda>k. if k = 11 then Some (0, OperationalError) else None),
     wd_claim_fault = (\<lambda>_. None), wd_clock = (\<lambda>_. 10), wd_scan_clock = (\<lambda>_. 10), wd_uuid = (\<lambda>_. ''id'')\<rparr>"

lemma demo_worker_fields:
  "wk_quota demo_worker" "wk_concurrency demo_worker = 1" "worker_of demo_worker = ''worker''"
  by (simp_all add: demo_worker_def)

lemma demo_tame: "tame 1 demo_world"
  by (simp add: tame_def demo_world_def steady_def in_status_def)

lemma demo_not_cut: "\<not> cut_short demo_world"
  by (auto simp: cut_short_def demo_world_def split: if_splits)

theorem worker_runs_keep_the_queue_consistent_witness:
  "queue_inv 1 (snd (run_worker_once demo_worker demo_world worker_db), \<lambda>_. 0) \<and>
   running_jobs (snd (run_worker_once demo_worker demo_world worker_db)) ''w'' \<le> 1"
proof -
  obtain r db' where run: "run_worker_once demo_worker demo_world worker_db = (r, db')"
    by (cases "run_worker_once demo_worker demo_world worker_db")
  from worker_runs_keep_the_queue_consistent [OF worker_db_inv demo_tame demo_worker_fields(1,2) run] demo_not_cut show ?thesis
    by (auto simp: run)
qed


section \<open>A slot that is never given back\<close>

text \<open>When the database fails between finishing a scan and giving back its slot, no lease and no running
  job are left that a later sweep could find, so the slot is lost: nothing in the queue decreases the counter
  again.\<close>

lemma stopped_finish_leaks_a_slot:
  assumes "holding limit worker j d" "status \<in> set [Succeeded, Failed, Canceled]" "0 \<le> n"
    and "row_of sj_id (scan_jobs d) j = Some r"
  shows "active_scans (finish_stopped 1 True alone j worker status n m now d) (sj_workspace_id r) =
    running_jobs (finish_stopped 1 True alone j worker status n m now d) (sj_workspace_id r) + 1"
proof -
  obtain q r' where rows: "row_of q_job_id (scan_queue d) j = Some q" "q_lease_owner q = Some worker" "row_of sj_id (scan_jobs d) j = Some r'"
    "sj_status r' = Running" "row_ok q r'" "queue_inv limit (d, \<lambda>_. 0)" by (rule holding_rows [OF assms(1)])
  have same: "r' = r" using rows(3) assms(4) by simp
  have tx: "finish_tx status now n m j worker d = (True, pair_update j (finish_job status now n m) clear_lease d)"
    unfolding finish_tx_def by (rule leave_tx_applies [OF queue_invD(1) [OF rows(6)] rows(1-4)])
  have "finish_stopped 1 True alone j worker status n m now d = pair_update j (finish_job status now n m) clear_lease d"
    using assms(2) by (simp add: finish_stopped_def release_stopped_def assms(4) tx)
  then show ?thesis
    using queue_invD(4) [OF rows(6), of "sj_workspace_id r"] assms(2) rows(4)
    by (auto simp: pair_update_rows pair_update_running [OF queue_invD(1) [OF rows(6)] _ assms(4)] same)
qed

end
