(* ===== verification/Oidc.thy ===== *)
theory Oidc
  imports Retention ContainerImage RepositoryScanner
begin

text \<open>
  Single sign-on with OpenID Connect: \<^verbatim>\<open>storage/oidc.py\<close>, \<^verbatim>\<open>security/oidc.py\<close> and
  \<^verbatim>\<open>services/oidc.py\<close>. The provider's documents, the token exchange and the validation of ID tokens
  (httpx, authlib, joserfc) are parameters in an \<open>oidc_provider\<close>; \<open>None\<close> is any exception of the
  library. Random values, the clock and SHA-256 are arguments. The transactions that read a row under
  a lock and delete it are atomic; where the code reads and writes later, \<open>env\<close> is what others commit
  in between. The proofs are in \<open>SingleSignOn\<close>.
\<close>

section \<open>State\<close>

record oidc_identity =
  oi_id :: string
  oi_issuer_hash :: string
  oi_issuer :: string
  oi_subject :: string
  oi_user_id :: string
  oi_email_at_link :: string
  oi_created_at :: time
  oi_last_login_at :: time

record login_transaction =
  lt_id :: string
  lt_state_hash :: string
  lt_browser_binding_hash :: string
  lt_payload :: encrypted_secret
  lt_created_at :: time
  lt_expires_at :: time

record login_completion =
  lc_code_hash :: string
  lc_browser_binding_hash :: string
  lc_user_id :: string
  lc_created_at :: time
  lc_expires_at :: time

record oidc_db = retention_db +
  oidc_identities :: "oidc_identity tbl"
  login_transactions :: "login_transaction tbl"
  login_completions :: "login_completion tbl"

definition identity_conflict :: "oidc_identity \<Rightarrow> oidc_identity \<Rightarrow> bool" where
  "identity_conflict x y =
     (oi_id x = oi_id y \<or>
      oi_issuer_hash x = oi_issuer_hash y \<and> oi_subject x = oi_subject y \<or>
      oi_issuer_hash x = oi_issuer_hash y \<and> oi_user_id x = oi_user_id y)"

definition transaction_conflict :: "login_transaction \<Rightarrow> login_transaction \<Rightarrow> bool" where
  "transaction_conflict x y = (lt_id x = lt_id y \<or> lt_state_hash x = lt_state_hash y)"

definition completion_conflict :: "login_completion \<Rightarrow> login_completion \<Rightarrow> bool" where
  "completion_conflict x y = (lc_code_hash x = lc_code_hash y)"

section \<open>Secrets of a login\<close>

record oidc_secret =
  os_code_verifier :: string
  os_nonce :: string

definition encrypt_transaction ::
  "secret_library \<Rightarrow> cipher \<Rightarrow> bytes \<Rightarrow> oidc_secret \<Rightarrow> string \<Rightarrow> encrypted_secret result" where
  "encrypt_transaction lib ci rand secret ident =
     encrypt lib ci rand [(''code_verifier'', os_code_verifier secret), (''nonce'', os_nonce secret)]
       ''__oidc__'' ident ''oidc-transaction''"

definition decrypt_transaction ::
  "secret_library \<Rightarrow> cipher \<Rightarrow> encrypted_secret \<Rightarrow> string \<Rightarrow> oidc_secret result" where
  "decrypt_transaction lib ci payload ident =
     bindE (decrypt lib ci payload ''__oidc__'' ident ''oidc-transaction'') (\<lambda>values.
       case (some_text (map_of values ''code_verifier''), some_text (map_of values ''nonce'')) of
         (Some verifier, Some nonce) \<Rightarrow> Inr \<lparr>os_code_verifier = verifier, os_nonce = nonce\<rparr>
       | _ \<Rightarrow> Inl (ValueError ''OIDC transaction secret is incomplete''))"

section \<open>Login transactions\<close>

definition begin_login ::
  "secret_library \<Rightarrow> cipher \<Rightarrow> (string \<Rightarrow> string) \<Rightarrow> bytes \<Rightarrow> string \<Rightarrow> string \<Rightarrow> string \<Rightarrow> oidc_secret \<Rightarrow> int \<Rightarrow> time \<Rightarrow>
   'x oidc_db_scheme \<Rightarrow> (unit, 'x oidc_db_scheme) outcome" where
  "begin_login lib ci sha rand ident state binding secret ttl now db =
     (case encrypt_transaction lib ci rand secret ident of
        Inl e \<Rightarrow> (Inl e, db)
      | Inr payload \<Rightarrow>
          (case insert_row transaction_conflict
              \<lparr>lt_id = ident, lt_state_hash = sha state, lt_browser_binding_hash = sha binding, lt_payload = payload,
               lt_created_at = now, lt_expires_at = now + seconds ttl\<rparr>
              (filter (\<lambda>r. \<not> lt_expires_at r \<le> now) (login_transactions db)) of
             None \<Rightarrow> (Inl IntegrityError, db)
           | Some t \<Rightarrow> (Inr (), db\<lparr>login_transactions := t\<rparr>)))"

definition drop_transaction :: "login_transaction \<Rightarrow> 'x oidc_db_scheme \<Rightarrow> 'x oidc_db_scheme" where
  "drop_transaction r db = db\<lparr>login_transactions := filter (\<lambda>x. lt_id x \<noteq> lt_id r) (login_transactions db)\<rparr>"

definition consume_login ::
  "secret_library \<Rightarrow> cipher \<Rightarrow> (string \<Rightarrow> string) \<Rightarrow> string \<Rightarrow> string \<Rightarrow> time \<Rightarrow> 'x oidc_db_scheme \<Rightarrow>
   (oidc_secret, 'x oidc_db_scheme) outcome" where
  "consume_login lib ci sha state binding now db =
     (case row_of lt_state_hash (login_transactions db) (sha state) of
        None \<Rightarrow> (Inl (PermissionError ''invalid or already used OIDC state''), db)
      | Some r \<Rightarrow>
          if lt_expires_at r \<le> now then (Inl (PermissionError ''OIDC login transaction expired''), drop_transaction r db)
          else if lt_browser_binding_hash r \<noteq> sha binding then (Inl (PermissionError ''OIDC browser binding mismatch''), db)
          else (case decrypt_transaction lib ci (lt_payload r) (lt_id r) of
                  Inl e \<Rightarrow> (Inl e, db)
                | Inr secret \<Rightarrow> (Inr secret, drop_transaction r db)))"

section \<open>Identities\<close>

definition find_identity :: "string \<Rightarrow> string \<Rightarrow> 'x oidc_db_scheme \<Rightarrow> oidc_identity option" where
  "find_identity issuer_hash subject db =
     first_where (\<lambda>r. oi_issuer_hash r = issuer_hash \<and> oi_subject r = subject) (oidc_identities db)"

text \<open>The flush of \<open>last_login_at\<close>: nothing when it did not change.\<close>

definition note_login :: "oidc_identity \<Rightarrow> time \<Rightarrow> 'x oidc_db_scheme \<Rightarrow> (unit, 'x oidc_db_scheme) outcome" where
  "note_login r now db =
     (if oi_last_login_at r = now then (Inr (), db)
      else if row_of oi_id (oidc_identities db) (oi_id r) = None then (Inl StaleDataError, db)
      else (Inr (), db\<lparr>oidc_identities := update_where (\<lambda>x. oi_id x = oi_id r) (\<lambda>x. x\<lparr>oi_last_login_at := now\<rparr>) (oidc_identities db)\<rparr>))"

definition link_identity ::
  "(nat \<Rightarrow> 'x oidc_db_scheme \<Rightarrow> 'x oidc_db_scheme) \<Rightarrow> oidc_identity \<Rightarrow> 'x oidc_db_scheme \<Rightarrow> (string, 'x oidc_db_scheme) outcome" where
  "link_identity env new db =
     (let db1 = env 0 db
      in case insert_row identity_conflict new (oidc_identities db1) of
           Some t \<Rightarrow> (Inr (oi_user_id new), db1\<lparr>oidc_identities := t\<rparr>)
         | None \<Rightarrow>
             let db2 = env 1 db1
             in (case find_identity (oi_issuer_hash new) (oi_subject new) db2 of
                   Some r \<Rightarrow>
                     if oi_issuer r = oi_issuer new \<and> oi_user_id r = oi_user_id new then Inr (oi_user_id new)
                     else Inl (PermissionError ''OIDC identity link conflict'')
                 | None \<Rightarrow> Inl (PermissionError ''OIDC identity link conflict''), db2))"

definition resolve_identity ::
  "(string \<Rightarrow> string) \<Rightarrow> (nat \<Rightarrow> 'x oidc_db_scheme \<Rightarrow> 'x oidc_db_scheme) \<Rightarrow> string \<Rightarrow> string \<Rightarrow> string \<Rightarrow> string \<Rightarrow> time \<Rightarrow>
   'x oidc_db_scheme \<Rightarrow> (string, 'x oidc_db_scheme) outcome" where
  "resolve_identity sha env ident issuer subject email now db =
     (let normalized = lower (strip email); issuer_hash = sha issuer
      in case find_identity issuer_hash subject db of
           Some r \<Rightarrow>
             if oi_issuer r \<noteq> issuer then (Inl (PermissionError ''OIDC issuer identity collision''), db)
             else (case row_of us_id (users db) (oi_user_id r) of
                     None \<Rightarrow> (Inl (PermissionError ''linked CryptoHawk user is inactive''), db)
                   | Some u \<Rightarrow>
                       if \<not> us_active u then (Inl (PermissionError ''linked CryptoHawk user is inactive''), db)
                       else (case note_login r now (env 0 db) of
                               (Inl e, db') \<Rightarrow> (Inl e, db')
                             | (Inr _, db') \<Rightarrow> (Inr (us_id u), db')))
         | None \<Rightarrow>
             (case first_where (\<lambda>u. us_email u = normalized) (users db) of
                None \<Rightarrow> (Inl (PermissionError ''SSO identity is not provisioned in CryptoHawk''), db)
              | Some u \<Rightarrow>
                  if \<not> us_active u then (Inl (PermissionError ''SSO identity is not provisioned in CryptoHawk''), db)
                  else if first_where (\<lambda>r. oi_issuer_hash r = issuer_hash \<and> oi_user_id r = us_id u) (oidc_identities db) \<noteq> None
                  then (Inl (PermissionError ''CryptoHawk user is already linked to another SSO subject''), db)
                  else link_identity env
                    \<lparr>oi_id = ident, oi_issuer_hash = issuer_hash, oi_issuer = issuer, oi_subject = subject, oi_user_id = us_id u,
                     oi_email_at_link = normalized, oi_created_at = now, oi_last_login_at = now\<rparr> db))"

section \<open>Completions\<close>

definition create_completion ::
  "(string \<Rightarrow> string) \<Rightarrow> string \<Rightarrow> string \<Rightarrow> string \<Rightarrow> int \<Rightarrow> time \<Rightarrow> 'x oidc_db_scheme \<Rightarrow> (string, 'x oidc_db_scheme) outcome" where
  "create_completion sha token user binding ttl now db =
     (let raw_code = ''choc_'' @ token
      in case insert_row completion_conflict
           \<lparr>lc_code_hash = sha raw_code, lc_browser_binding_hash = sha binding, lc_user_id = user,
            lc_created_at = now, lc_expires_at = now + seconds ttl\<rparr>
           (filter (\<lambda>r. \<not> lc_expires_at r \<le> now) (login_completions db)) of
           None \<Rightarrow> (Inl IntegrityError, db)
         | Some t \<Rightarrow> (Inr raw_code, db\<lparr>login_completions := t\<rparr>))"

definition drop_completion :: "login_completion \<Rightarrow> 'x oidc_db_scheme \<Rightarrow> 'x oidc_db_scheme" where
  "drop_completion r db = db\<lparr>login_completions := filter (\<lambda>x. lc_code_hash x \<noteq> lc_code_hash r) (login_completions db)\<rparr>"

definition consume_completion ::
  "(string \<Rightarrow> string) \<Rightarrow> string \<Rightarrow> string \<Rightarrow> time \<Rightarrow> 'x oidc_db_scheme \<Rightarrow> (string, 'x oidc_db_scheme) outcome" where
  "consume_completion sha code binding now db =
     (case row_of lc_code_hash (login_completions db) (sha code) of
        None \<Rightarrow> (Inl (PermissionError ''invalid or already used OIDC completion''), db)
      | Some r \<Rightarrow>
          if lc_expires_at r \<le> now then (Inl (PermissionError ''OIDC completion expired''), drop_completion r db)
          else if lc_browser_binding_hash r \<noteq> sha binding
          then (Inl (PermissionError ''OIDC completion browser binding mismatch''), db)
          else (case row_of us_id (users db) (lc_user_id r) of
                  None \<Rightarrow> (Inl (PermissionError ''SSO user is inactive''), drop_completion r db)
                | Some u \<Rightarrow>
                    if \<not> us_active u then (Inl (PermissionError ''SSO user is inactive''), drop_completion r db)
                    else (Inr (lc_user_id r), drop_completion r db)))"

section \<open>The service\<close>

record oidc_settings =
  oc_enabled :: bool
  oc_production :: bool
  oc_issuer :: string
  oc_client_id :: string
  oc_token_auth_method :: string
  oc_require_verified_email :: bool
  oc_allow_private_provider :: bool
  oc_transaction_ttl :: int
  oc_completion_ttl :: int

record provider_metadata =
  pm_issuer :: string
  pm_authorization_endpoint :: string
  pm_token_endpoint :: string
  pm_jwks_uri :: string
  pm_signing_algorithms :: "string list"

text \<open>
  \<open>op_get\<close>: the JSON body of a successful response; \<open>op_exchange\<close>: the token response for a code and a
  verifier; \<open>op_claims\<close>: \<open>jwt.decode\<close> and \<open>CodeIDToken.validate\<close> with the keys, the algorithms, the
  issuer, the client, the nonce and the access token.
\<close>

record 'k oidc_provider =
  op_urlsplit :: "string \<Rightarrow> split_url option"
  op_network :: network
  op_get :: "string \<Rightarrow> json option"
  op_exchange :: "string \<Rightarrow> string \<Rightarrow> string \<Rightarrow> (string \<times> json) list option"
  op_import_keys :: "json \<Rightarrow> 'k option"
  op_claims :: "'k \<Rightarrow> string list \<Rightarrow> string \<Rightarrow> string \<Rightarrow> string \<Rightarrow> json option \<Rightarrow> string \<Rightarrow> (string \<times> json) list option"
  op_authorization_url :: "string \<Rightarrow> string \<Rightarrow> string \<Rightarrow> string \<Rightarrow> string"

definition safe_algorithms :: "string list" where
  "safe_algorithms =
     [''RS256'', ''RS384'', ''RS512'', ''PS256'', ''PS384'', ''PS512'', ''ES256'', ''ES384'', ''ES512'', ''EdDSA'']"

definition provider_error :: "string \<Rightarrow> 'a result" where
  "provider_error m = Inl (RuntimeError m)"

definition validate_remote_url :: "oidc_settings \<Rightarrow> 'k oidc_provider \<Rightarrow> string \<Rightarrow> string \<Rightarrow> unit result" where
  "validate_remote_url oc op value label =
     (case op_urlsplit op value of
        None \<Rightarrow> Inl (ValueError ''Invalid IPv6 URL'')
      | Some url \<Rightarrow>
          let scheme = lower (su_scheme url)
          in case some_text (su_hostname url) of
               None \<Rightarrow> provider_error (label @ '' is invalid'')
             | Some host \<Rightarrow>
                 if some_text (su_username url) \<noteq> None \<or> some_text (su_password url) \<noteq> None \<or> su_fragment url \<noteq> []
                 then provider_error (label @ '' is invalid'')
                 else if oc_production oc \<and> scheme \<noteq> ''https'' then provider_error (label @ '' must use HTTPS'')
                 else if scheme \<notin> set [''http'', ''https''] then provider_error (label @ '' must use HTTP or HTTPS'')
                 else bindE (su_port url) (\<lambda>port.
                   let p = (case port of Some n \<Rightarrow> if n = 0 then (if scheme = ''https'' then 443 else 80) else n
                            | None \<Rightarrow> if scheme = ''https'' then 443 else 80)
                   in case resolve_target (op_network op) host p (oc_allow_private_provider oc) of
                        Inl _ \<Rightarrow> provider_error (label @ '' failed outbound-target validation'')
                      | Inr _ \<Rightarrow> Inr ()))"

text \<open>A non-empty text under a key.\<close>

definition text_field :: "(string \<times> json) list \<Rightarrow> string \<Rightarrow> string option" where
  "text_field kvs key = (case map_of kvs key of Some (JText s) \<Rightarrow> if s = [] then None else Some s | _ \<Rightarrow> None)"

text \<open>A list that is present must contain the value.\<close>

definition advertises :: "(string \<times> json) list \<Rightarrow> string \<Rightarrow> string \<Rightarrow> bool" where
  "advertises kvs key value = (case map_of kvs key of Some (JList xs) \<Rightarrow> JText value \<in> set xs | _ \<Rightarrow> True)"

fun safe_text :: "json \<Rightarrow> string list" where
  "safe_text (JText a) = (if a \<in> set safe_algorithms then [a] else [])"
| "safe_text _ = []"

definition discovery :: "oidc_settings \<Rightarrow> 'k oidc_provider \<Rightarrow> provider_metadata result" where
  "discovery oc op =
     (let url = oc_issuer oc @ ''/.well-known/openid-configuration''
      in bindE (validate_remote_url oc op url ''OIDC discovery endpoint'') (\<lambda>_.
         case op_get op url of
           None \<Rightarrow> provider_error ''OIDC discovery failed''
         | Some (JObj kvs) \<Rightarrow>
             if map_of kvs ''issuer'' \<noteq> Some (JText (oc_issuer oc)) then provider_error ''OIDC discovery issuer mismatch''
             else (case (text_field kvs ''authorization_endpoint'', text_field kvs ''token_endpoint'', text_field kvs ''jwks_uri'') of
                (Some authorization, Some token, Some jwks) \<Rightarrow>
                  bindE (validate_remote_url oc op authorization ''OIDC authorization endpoint'') (\<lambda>_.
                  bindE (validate_remote_url oc op token ''OIDC token endpoint'') (\<lambda>_.
                  bindE (validate_remote_url oc op jwks ''OIDC JWKS endpoint'') (\<lambda>_.
                    if \<not> advertises kvs ''token_endpoint_auth_methods_supported'' (oc_token_auth_method oc)
                    then provider_error ''configured OIDC token authentication method is unsupported''
                    else if \<not> advertises kvs ''response_types_supported'' ''code''
                    then provider_error ''OIDC provider does not support Authorization Code flow''
                    else if \<not> advertises kvs ''code_challenge_methods_supported'' ''S256''
                    then provider_error ''OIDC provider does not advertise PKCE S256''
                    else case map_of kvs ''id_token_signing_alg_values_supported'' of
                      Some (JList algorithms) \<Rightarrow>
                        let signing = concat (map safe_text algorithms)
                        in if signing = [] then provider_error ''OIDC provider has no permitted ID-token signing algorithm''
                           else Inr \<lparr>pm_issuer = oc_issuer oc, pm_authorization_endpoint = authorization,
                             pm_token_endpoint = token, pm_jwks_uri = jwks, pm_signing_algorithms = signing\<rparr>
                    | _ \<Rightarrow> provider_error ''OIDC provider did not advertise ID-token algorithms'')))
              | _ \<Rightarrow> provider_error ''OIDC discovery metadata is incomplete'')
         | Some _ \<Rightarrow> provider_error ''OIDC discovery issuer mismatch''))"

definition jwks :: "'k oidc_provider \<Rightarrow> provider_metadata \<Rightarrow> 'k result" where
  "jwks op metadata =
     (case op_get op (pm_jwks_uri metadata) of
        Some (JObj kvs) \<Rightarrow>
          (case op_import_keys op (JObj kvs) of
             None \<Rightarrow> provider_error ''OIDC JWKS retrieval failed''
           | Some keys \<Rightarrow> Inr keys)
      | _ \<Rightarrow> provider_error ''OIDC JWKS retrieval failed'')"

definition validate_id_token ::
  "oidc_settings \<Rightarrow> 'k oidc_provider \<Rightarrow> provider_metadata \<Rightarrow> string \<Rightarrow> json option \<Rightarrow> string \<Rightarrow> (string \<times> json) list result" where
  "validate_id_token oc op metadata nonce access_token id_token =
     bindE (jwks op metadata) (\<lambda>keys.
       case op_claims op keys (pm_signing_algorithms metadata) (pm_issuer metadata) (oc_client_id oc) nonce access_token id_token of
         None \<Rightarrow> Inl (PermissionError ''OIDC ID token validation failed'')
       | Some claims \<Rightarrow>
           if map_of claims ''azp'' \<notin> set [None, Some JNull, Some (JText (oc_client_id oc))]
           then Inl (PermissionError ''OIDC authorized party mismatch'')
           else Inr claims)"

definition require_enabled :: "oidc_settings \<Rightarrow> unit result" where
  "require_enabled oc = (if oc_enabled oc then Inr () else Inl (RuntimeError ''OIDC is disabled''))"

text \<open>The random values of a login.\<close>

record login_randoms =
  lr_state :: string
  lr_nonce :: string
  lr_code_verifier :: string
  lr_ident :: string
  lr_bytes :: bytes

definition begin_authorization ::
  "oidc_settings \<Rightarrow> 'k oidc_provider \<Rightarrow> secret_library \<Rightarrow> cipher \<Rightarrow> (string \<Rightarrow> string) \<Rightarrow> login_randoms \<Rightarrow> string \<Rightarrow> time \<Rightarrow>
   'x oidc_db_scheme \<Rightarrow> (string, 'x oidc_db_scheme) outcome" where
  "begin_authorization oc op lib ci sha lr binding now db =
     (case bindE (require_enabled oc) (\<lambda>_.
             if binding = [] then Inl (ValueError ''OIDC browser binding is required'') else discovery oc op) of
        Inl e \<Rightarrow> (Inl e, db)
      | Inr metadata \<Rightarrow>
          (case begin_login lib ci sha (lr_bytes lr) (lr_ident lr) (lr_state lr) binding
               \<lparr>os_code_verifier = lr_code_verifier lr, os_nonce = lr_nonce lr\<rparr> (oc_transaction_ttl oc) now db of
             (Inl e, db') \<Rightarrow> (Inl e, db')
           | (Inr _, db') \<Rightarrow>
               (Inr (op_authorization_url op (pm_authorization_endpoint metadata) (lr_state lr) (lr_nonce lr) (lr_code_verifier lr)), db')))"

text \<open>The subject and the address that a validated token vouches for.\<close>

definition claimed_identity :: "oidc_settings \<Rightarrow> (string \<times> json) list \<Rightarrow> (string \<times> string) result" where
  "claimed_identity oc claims =
     (case text_field claims ''sub'' of
        None \<Rightarrow> Inl (PermissionError ''OIDC subject is invalid'')
      | Some subject \<Rightarrow>
          if length subject > 255 then Inl (PermissionError ''OIDC subject is invalid'')
          else case map_of claims ''email'' of
            Some (JText email) \<Rightarrow>
              if \<not> email_pattern (lower (strip email)) then Inl (PermissionError ''OIDC email claim is missing or invalid'')
              else if oc_require_verified_email oc \<and> map_of claims ''email_verified'' \<noteq> Some (JBool True)
              then Inl (PermissionError ''OIDC email is not verified'')
              else Inr (subject, email)
          | _ \<Rightarrow> Inl (PermissionError ''OIDC email claim is missing or invalid''))"

text \<open>What the provider says about a code: the identity, after the token was exchanged and validated.\<close>

definition vouched_identity ::
  "oidc_settings \<Rightarrow> 'k oidc_provider \<Rightarrow> string \<Rightarrow> oidc_secret \<Rightarrow> (provider_metadata \<times> string \<times> string) result" where
  "vouched_identity oc op code secret =
     bindE (discovery oc op) (\<lambda>metadata.
       case op_exchange op (pm_token_endpoint metadata) code (os_code_verifier secret) of
         None \<Rightarrow> provider_error ''OIDC token exchange failed''
       | Some token \<Rightarrow>
           (case text_field token ''id_token'' of
              None \<Rightarrow> Inl (PermissionError ''OIDC provider did not return an ID token'')
            | Some id_token \<Rightarrow>
                bindE (validate_id_token oc op metadata (os_nonce secret) (map_of token ''access_token'') id_token) (\<lambda>claims.
                bindE (claimed_identity oc claims) (\<lambda>(subject, email). Inr (metadata, subject, email)))))"

definition complete_authorization ::
  "oidc_settings \<Rightarrow> 'k oidc_provider \<Rightarrow> secret_library \<Rightarrow> cipher \<Rightarrow> (string \<Rightarrow> string) \<Rightarrow>
   (nat \<Rightarrow> 'x oidc_db_scheme \<Rightarrow> 'x oidc_db_scheme) \<Rightarrow> string \<Rightarrow> string \<Rightarrow> string \<Rightarrow> string \<Rightarrow> string \<Rightarrow> (nat \<Rightarrow> time) \<Rightarrow>
   'x oidc_db_scheme \<Rightarrow> (string, 'x oidc_db_scheme) outcome" where
  "complete_authorization oc op lib ci sha env ident token code state binding clock db =
     (case bindE (require_enabled oc) (\<lambda>_.
             if code = [] \<or> state = [] \<or> binding = [] then Inl (PermissionError ''OIDC callback is incomplete'') else Inr ()) of
        Inl e \<Rightarrow> (Inl e, db)
      | Inr _ \<Rightarrow>
          (case consume_login lib ci sha state binding (clock 0) db of
             (Inl e, db1) \<Rightarrow> (Inl e, db1)
           | (Inr secret, db1) \<Rightarrow>
               (case vouched_identity oc op code secret of
                  Inl e \<Rightarrow> (Inl e, db1)
                | Inr (metadata, subject, email) \<Rightarrow>
                    (case resolve_identity sha (\<lambda>n. env (n + 1)) ident (pm_issuer metadata) subject email (clock 1) (env 0 db1) of
                       (Inl e, db2) \<Rightarrow> (Inl e, db2)
                     | (Inr user, db2) \<Rightarrow>
                         create_completion sha token user binding (oc_completion_ttl oc) (clock 2) (env 3 db2)))))"

definition finish_authorization ::
  "oidc_settings \<Rightarrow> (string \<Rightarrow> string) \<Rightarrow> string \<Rightarrow> string \<Rightarrow> time \<Rightarrow> 'x oidc_db_scheme \<Rightarrow> (string, 'x oidc_db_scheme) outcome" where
  "finish_authorization oc sha code binding now db =
     (case bindE (require_enabled oc) (\<lambda>_.
             if code = [] \<or> binding = [] then Inl (PermissionError ''OIDC completion is incomplete'') else Inr ()) of
        Inl e \<Rightarrow> (Inl e, db)
      | Inr _ \<Rightarrow> consume_completion sha code binding now db)"

end
