(* ===== verification/SingleSignOn.thy ===== *)
theory SingleSignOn
  imports Oidc RetentionSafety "HOL-Library.Multiset"
begin

text \<open>
  Properties of single sign-on. Links between an identity of the provider and a user never move and
  are never shared; each login state and each completion code is honoured at most once, in the browser
  it was issued to and before it expires (\<open>ticket_store\<close>, interpreted on both tables); and a login
  succeeds only for an identity that the configured provider vouches for.
\<close>

section \<open>Links\<close>

definition links :: "'x oidc_db_scheme \<Rightarrow> string \<times> string \<Rightarrow> string option" where
  "links db = (\<lambda>(h, s). map_option oi_user_id (find_identity h s db))"

definition apart :: "('r \<Rightarrow> 'r \<Rightarrow> bool) \<Rightarrow> 'r tbl \<Rightarrow> bool" where
  "apart conflict t \<longleftrightarrow> sorted_wrt (\<lambda>x y. \<not> conflict x y) t"

definition links_ok :: "'x oidc_db_scheme \<Rightarrow> bool" where
  "links_ok db \<longleftrightarrow> apart identity_conflict (oidc_identities db)"

text \<open>What other processes may do to the links: add some, never move or remove one.\<close>

definition links_grow :: "'x oidc_db_scheme \<Rightarrow> 'x oidc_db_scheme \<Rightarrow> bool" where
  "links_grow db db' \<longleftrightarrow> (links_ok db \<longrightarrow> links_ok db') \<and> links db \<subseteq>\<^sub>m links db'"

lemma links_grow_refl [simp, intro]: "links_grow db db"
  by (simp add: links_grow_def)

lemma links_grow_trans [trans]: "links_grow a b \<Longrightarrow> links_grow b c \<Longrightarrow> links_grow a c"
  by (auto simp: links_grow_def intro: map_le_trans)

lemma links_Some: "links db (h, s) = Some u \<longleftrightarrow> (\<exists>r. find_identity h s db = Some r \<and> oi_user_id r = u)"
  by (auto simp: links_def)

lemma find_identity_member:
  "find_identity h s db = Some r \<Longrightarrow> r \<in> set (oidc_identities db) \<and> oi_issuer_hash r = h \<and> oi_subject r = s"
  by (auto simp: find_identity_def first_where_def dest: find_SomeD)

lemma identity_conflict_sym: "identity_conflict x y = identity_conflict y x"
  by (auto simp: identity_conflict_def)

lemma apart_member:
  assumes "apart conflict t" "x \<in> set t" "y \<in> set t" "conflict x y" "\<And>x y. conflict x y = conflict y x"
  shows "x = y"
  using assms by (induction t) (auto simp: apart_def)

text \<open>A user is linked to one subject of an issuer.\<close>

lemma links_exclusive:
  assumes "links_ok db" "links db (h, s) = Some u" "links db (h, s') = Some u"
  shows "s = s'"
proof -
  obtain r r' where r: "find_identity h s db = Some r" "oi_user_id r = u"
    and r': "find_identity h s' db = Some r'" "oi_user_id r' = u"
    using assms(2,3) by (auto simp: links_Some)
  note m = find_identity_member [OF r(1)] find_identity_member [OF r'(1)]
  have "identity_conflict r r'" using m r(2) r'(2) by (simp add: identity_conflict_def)
  then have "r = r'"
    using apart_member [of identity_conflict] assms(1) m identity_conflict_sym by (auto simp: links_ok_def)
  then show ?thesis using m by simp
qed

lemma apart_update_where:
  "(\<And>x y. conflict (g x) (g y) = conflict x y) \<Longrightarrow> apart conflict (map g t) = apart conflict t"
  by (simp add: apart_def sorted_wrt_map)

lemma find_touched:
  "map_option oi_user_id (find (\<lambda>x. oi_issuer_hash x = h \<and> oi_subject x = s) (map (\<lambda>x. if P x then x\<lparr>oi_last_login_at := now\<rparr> else x) t)) =
   map_option oi_user_id (find (\<lambda>x. oi_issuer_hash x = h \<and> oi_subject x = s) t)"
  by (induction t) (simp_all, auto)

lemma touched_links:
  fixes now :: time
  defines "g \<equiv> \<lambda>P x. if P x then x\<lparr>oi_last_login_at := now\<rparr> else x"
  shows "links (db\<lparr>oidc_identities := map (g P) (oidc_identities db)\<rparr>) = links db"
    and "links_ok (db\<lparr>oidc_identities := map (g P) (oidc_identities db)\<rparr>) = links_ok db"
proof -
  show "links (db\<lparr>oidc_identities := map (g P) (oidc_identities db)\<rparr>) = links db"
    by (rule ext) (simp add: links_def find_identity_def first_where_def g_def find_touched split: prod.split)
  have "identity_conflict (g P x) (g P y) = identity_conflict x y" for x y by (simp add: identity_conflict_def g_def)
  then show "links_ok (db\<lparr>oidc_identities := map (g P) (oidc_identities db)\<rparr>) = links_ok db"
    by (simp add: links_ok_def apart_update_where)
qed

lemma note_login_links:
  assumes "note_login r now db = (res, db')"
  shows "links_grow db db'" "links db' = links db"
proof -
  consider "db' = db" | "db' = db\<lparr>oidc_identities :=
      map (\<lambda>x. if (\<lambda>x. oi_id x = oi_id r) x then x\<lparr>oi_last_login_at := now\<rparr> else x) (oidc_identities db)\<rparr>"
    using assms by (auto simp: note_login_def update_where_def split: if_splits)
  then have "links db' = links db \<and> links_ok db' = links_ok db"
  proof cases
    case 2
    show ?thesis unfolding 2 by (intro conjI touched_links)
  qed simp
  then show "links_grow db db'" "links db' = links db" by (simp_all add: links_grow_def)
qed

lemma insert_identity_links:
  assumes "insert_row identity_conflict new (oidc_identities db) = Some t"
  shows "links_grow db (db\<lparr>oidc_identities := t\<rparr>)"
    and "links (db\<lparr>oidc_identities := t\<rparr>) (oi_issuer_hash new, oi_subject new) = Some (oi_user_id new)"
proof -
  have t: "t = oidc_identities db @ [new]" and free: "\<And>x. x \<in> set (oidc_identities db) \<Longrightarrow> \<not> identity_conflict x new"
    using assms by (auto simp: insert_row_Some)
  have app: "find P (xs @ ys) = (case find P xs of None \<Rightarrow> find P ys | Some r \<Rightarrow> Some r)" for P :: "oidc_identity \<Rightarrow> bool" and xs ys
    by (induction xs) auto
  have "find (\<lambda>r. oi_issuer_hash r = oi_issuer_hash new \<and> oi_subject r = oi_subject new) (oidc_identities db) = None"
    using free by (auto simp: find_NoneD identity_conflict_def)
  then show "links (db\<lparr>oidc_identities := t\<rparr>) (oi_issuer_hash new, oi_subject new) = Some (oi_user_id new)"
    by (simp add: links_def find_identity_def first_where_def t app)
  have "links db \<subseteq>\<^sub>m links (db\<lparr>oidc_identities := t\<rparr>)"
    by (auto simp: map_le_def links_def find_identity_def first_where_def t app split: option.splits)
  moreover have "links_ok db \<longrightarrow> links_ok (db\<lparr>oidc_identities := t\<rparr>)"
    using free by (auto simp: links_ok_def apart_def t sorted_wrt_append)
  ultimately show "links_grow db (db\<lparr>oidc_identities := t\<rparr>)" by (simp add: links_grow_def)
qed

lemma link_identity_links:
  assumes "link_identity env new db = (res, db')" and env: "\<And>n d. links_grow d (env n d)"
  shows "links_grow db db'"
    and "res = Inr u \<Longrightarrow> u = oi_user_id new \<and> links db' (oi_issuer_hash new, oi_subject new) = Some u"
proof -
  show "links_grow db db'"
  proof (cases "insert_row identity_conflict new (oidc_identities (env 0 db))")
    case None
    then have "db' = env 1 (env 0 db)" using assms(1) by (simp add: link_identity_def Let_def)
    then show ?thesis using links_grow_trans [OF env [of db 0] env [of "env 0 db" 1]] by simp
  next
    case (Some t)
    then have "db' = (env 0 db)\<lparr>oidc_identities := t\<rparr>" using assms(1) by (simp add: link_identity_def Let_def)
    then show ?thesis using links_grow_trans [OF env [of db 0] insert_identity_links(1) [OF Some]] by simp
  qed
  show "u = oi_user_id new \<and> links db' (oi_issuer_hash new, oi_subject new) = Some u" if "res = Inr u"
  proof (cases "insert_row identity_conflict new (oidc_identities (env 0 db))")
    case None
    then show ?thesis using assms(1) that by (auto simp: link_identity_def Let_def links_Some split: option.splits if_splits)
  next
    case (Some t)
    then show ?thesis using assms(1) that insert_identity_links(2) [OF Some] by (auto simp: link_identity_def Let_def)
  qed
qed

lemma resolve_identity_links:
  assumes "resolve_identity sha env ident issuer subject email now db = (res, db')" and env: "\<And>n d. links_grow d (env n d)"
  shows "links_grow db db'"
    and "res = Inr u \<Longrightarrow> links db' (sha issuer, subject) = Some u"
proof -
  note defs = resolve_identity_def Let_def
  consider (err) e where "res = Inl e" "db' = db"
    | (known) r v w where "find_identity (sha issuer) subject db = Some r" "row_of us_id (users db) (oi_user_id r) = Some v"
        "note_login r now (env 0 db) = (w, db')" "\<And>x. res = Inr x \<Longrightarrow> x = us_id v"
    | (fresh) new where "link_identity env new db = (res, db')" "oi_issuer_hash new = sha issuer" "oi_subject new = subject"
  proof -
    show thesis
    proof (cases "find_identity (sha issuer) subject db")
      case None
      then show thesis using assms(1) that(1,3) by (auto simp: defs split: option.splits if_splits)
    next
      case (Some r)
      show thesis
        using assms(1) Some that(1) that(2) [OF Some]
        by (auto simp: defs split: option.splits if_splits prod.splits sum.splits)
    qed
  qed
  note cases = this
  from cases show "links_grow db db'"
  proof cases
    case known
    show ?thesis using links_grow_trans [OF env [of db 0] note_login_links(1) [OF known(3)]] .
  qed (use link_identity_links(1) [OF _ env] in auto)
  assume res: "res = Inr u"
  from cases show "links db' (sha issuer, subject) = Some u"
  proof cases
    case known
    have "us_id v = oi_user_id r" using row_of_SomeD [OF known(2)] by simp
    then have "links db (sha issuer, subject) = Some u" using known(1) known(4) [OF res] by (simp add: links_Some)
    then have "links (env 0 db) (sha issuer, subject) = Some u"
      using env [of db 0] by (auto simp: links_grow_def map_le_def dom_def)
    then show ?thesis by (simp add: note_login_links(2) [OF known(3)])
  next
    case fresh
    then show ?thesis using link_identity_links(2) [OF fresh(1) env res] by simp
  qed (use res in simp)
qed

text \<open>
  A provider identity resolves to one user for good. Once \<open>resolve_identity\<close> answered a user for an issuer and a subject, whatever others commit
  during the call and later (links may be added, none is moved): the call kept every existing link, every
  later call for this identity answers the same user or an error, whatever email address the provider now
  reports, and no other subject of the issuer is ever resolved to that user.
\<close>

theorem sso_links_are_permanent_and_exclusive:
  assumes "links_ok db" "\<And>n d. links_grow d (env n d)"
    and "resolve_identity sha env ident issuer subject email now db = (Inr user, db')"
    and "links_grow db' later" "\<And>n d. links_grow d (env' n d)"
    and "resolve_identity sha env' ident' issuer subject' email' now' later = (Inr user', db'')"
  shows "links_grow db db'' \<and> links_ok db'' \<and> (user' = user \<longleftrightarrow> subject' = subject)"
proof (intro conjI)
  note here = resolve_identity_links [OF assms(3,2)] and there = resolve_identity_links [OF assms(6,5)]
  show grow: "links_grow db db''" using links_grow_trans [OF links_grow_trans [OF here(1) assms(4)] there(1)] .
  then show ok: "links_ok db''" using assms(1) by (simp add: links_grow_def)
  have "links_grow db' db''" using links_grow_trans [OF assms(4) there(1)] .
  then have "links db'' (sha issuer, subject) = Some user"
    using here(2) [OF refl] by (auto simp: links_grow_def map_le_def dom_def)
  moreover have "links db'' (sha issuer, subject') = Some user'" using there(2) [OF refl] .
  ultimately show "user' = user \<longleftrightarrow> subject' = subject" using links_exclusive [OF ok] by auto
qed

section \<open>Tickets\<close>

text \<open>Runs of a labelled step relation, the last event first.\<close>

inductive traces :: "('s \<Rightarrow> 'e \<Rightarrow> 's \<Rightarrow> bool) \<Rightarrow> 's \<Rightarrow> 'e list \<Rightarrow> 's \<Rightarrow> bool" for step s where
  traces_refl: "traces step s [] s"
| traces_step: "traces step s tr t \<Longrightarrow> step t e u \<Longrightarrow> traces step s (e # tr) u"

lemma rel_mset_union: "rel_mset R M N \<Longrightarrow> rel_mset R M' N' \<Longrightarrow> rel_mset R (M + M') (N + N')"
  by (induction rule: rel_mset_induct) (auto intro: rel_mset_Plus)

text \<open>
  A store of tickets: a step adds at most the tickets its event issues, and takes out one ticket that
  meets each use of the event.
\<close>

locale ticket_store =
  fixes step :: "'s \<Rightarrow> 'e \<Rightarrow> 's \<Rightarrow> bool"
    and pending :: "'s \<Rightarrow> 't multiset"
    and issues :: "'e \<Rightarrow> 't multiset"
    and redeems :: "'e \<Rightarrow> 'u multiset"
    and meets :: "'t \<Rightarrow> 'u \<Rightarrow> bool"
  assumes ticket_law: "step s e t \<Longrightarrow> \<exists>M. rel_mset meets M (redeems e) \<and> pending t + M \<subseteq># pending s + issues e"
begin

lemma accounted:
  "traces step s tr t \<Longrightarrow>
   \<exists>M. rel_mset meets M (\<Sum>e\<leftarrow>tr. redeems e) \<and> pending t + M \<subseteq># pending s + (\<Sum>e\<leftarrow>tr. issues e)"
proof (induction rule: traces.induct)
  case traces_refl
  show ?case by (rule exI [of _ "{#}"]) (simp add: rel_mset_Zero)
next
  case (traces_step tr t e u)
  then obtain M where M: "rel_mset meets M (\<Sum>e\<leftarrow>tr. redeems e)" "pending t + M \<subseteq># pending s + (\<Sum>e\<leftarrow>tr. issues e)" by blast
  obtain N where N: "rel_mset meets N (redeems e)" "pending u + N \<subseteq># pending t + issues e"
    using ticket_law [OF traces_step(2)] by blast
  have "pending u + (N + M) \<subseteq># pending t + issues e + M"
    using N(2) by (simp add: subset_mset.add_right_mono flip: add.assoc)
  also have "\<dots> \<subseteq># pending s + (issues e + (\<Sum>e\<leftarrow>tr. issues e))"
    using subset_mset.add_right_mono [OF M(2), of "issues e"] by (simp add: ac_simps)
  finally show ?case using rel_mset_union [OF N(1) M(1)] by auto
qed

text \<open>From an empty store, the uses of a run match distinct tickets issued in it.\<close>

lemma matched:
  assumes "traces step s tr t" "pending s = {#}"
  shows "\<exists>M. M \<subseteq># (\<Sum>e\<leftarrow>tr. issues e) \<and> rel_mset meets M (\<Sum>e\<leftarrow>tr. redeems e)"
  using accounted [OF assms(1)] assms(2) by (auto dest: subset_mset.order_trans [OF mset_subset_eq_add_right])

end

datatype login_event =
  LoginBegun string string oidc_secret time
| LoginConsumed string string oidc_secret time
| CompletionCreated string string string time
| CompletionConsumed string string string time
| Otherwise

text \<open>
  The transactions on the two tables, successful ones with what they answered. \<open>Otherwise\<close> is a failed
  one, or anything that touches other tables or deletes rows (a deleted user takes the completions along).
\<close>

inductive sso_step ::
  "secret_library \<Rightarrow> cipher \<Rightarrow> (string \<Rightarrow> string) \<Rightarrow> 'x oidc_db_scheme \<Rightarrow> login_event \<Rightarrow> 'x oidc_db_scheme \<Rightarrow> bool"
  for lib ci sha where
  sso_begin: "begin_login lib ci sha rand ident state binding secret ttl now db = (Inr (), db') \<Longrightarrow>
    sso_step lib ci sha db (LoginBegun state binding secret (now + seconds ttl)) db'"
| sso_begin_fails: "begin_login lib ci sha rand ident state binding secret ttl now db = (Inl e, db') \<Longrightarrow>
    sso_step lib ci sha db Otherwise db'"
| sso_consume: "consume_login lib ci sha state binding now db = (Inr secret, db') \<Longrightarrow>
    sso_step lib ci sha db (LoginConsumed state binding secret now) db'"
| sso_consume_fails: "consume_login lib ci sha state binding now db = (Inl e, db') \<Longrightarrow>
    sso_step lib ci sha db Otherwise db'"
| sso_create: "create_completion sha token user binding ttl now db = (Inr code, db') \<Longrightarrow>
    sso_step lib ci sha db (CompletionCreated code binding user (now + seconds ttl)) db'"
| sso_create_fails: "create_completion sha token user binding ttl now db = (Inl e, db') \<Longrightarrow>
    sso_step lib ci sha db Otherwise db'"
| sso_redeem: "consume_completion sha code binding now db = (Inr user, db') \<Longrightarrow>
    sso_step lib ci sha db (CompletionConsumed code binding user now) db'"
| sso_redeem_fails: "consume_completion sha code binding now db = (Inl e, db') \<Longrightarrow>
    sso_step lib ci sha db Otherwise db'"
| sso_elsewhere: "mset (login_transactions db') \<subseteq># mset (login_transactions db) \<Longrightarrow>
    mset (login_completions db') \<subseteq># mset (login_completions db) \<Longrightarrow> sso_step lib ci sha db Otherwise db'"

text \<open>Tickets and uses carry the digests of the code and the browser, the answer and a time.\<close>

definition in_time :: "string \<times> string \<times> 'a \<times> time \<Rightarrow> string \<times> string \<times> 'a \<times> time \<Rightarrow> bool" where
  "in_time = (\<lambda>(h, b, a, expires) (h', b', a', now). h' = h \<and> b' = b \<and> a' = a \<and> now < expires)"

lemma in_time_iff [simp]: "in_time (h, b, a, expires) (h', b', a', now) \<longleftrightarrow> h' = h \<and> b' = b \<and> a' = a \<and> now < expires"
  by (simp add: in_time_def)

fun logins_begun :: "(string \<Rightarrow> string) \<Rightarrow> login_event \<Rightarrow> (string \<times> string \<times> oidc_secret result \<times> time) multiset" where
  "logins_begun sha (LoginBegun state binding secret expires) = {#(sha state, sha binding, Inr secret, expires)#}"
| "logins_begun sha _ = {#}"

fun logins_consumed :: "(string \<Rightarrow> string) \<Rightarrow> login_event \<Rightarrow> (string \<times> string \<times> oidc_secret result \<times> time) multiset" where
  "logins_consumed sha (LoginConsumed state binding secret now) = {#(sha state, sha binding, Inr secret, now)#}"
| "logins_consumed sha _ = {#}"

fun completions_created :: "(string \<Rightarrow> string) \<Rightarrow> login_event \<Rightarrow> (string \<times> string \<times> string \<times> time) multiset" where
  "completions_created sha (CompletionCreated code binding user expires) = {#(sha code, sha binding, user, expires)#}"
| "completions_created sha _ = {#}"

fun completions_consumed :: "(string \<Rightarrow> string) \<Rightarrow> login_event \<Rightarrow> (string \<times> string \<times> string \<times> time) multiset" where
  "completions_consumed sha (CompletionConsumed code binding user now) = {#(sha code, sha binding, user, now)#}"
| "completions_consumed sha _ = {#}"

definition pending_logins ::
  "secret_library \<Rightarrow> cipher \<Rightarrow> 'x oidc_db_scheme \<Rightarrow> (string \<times> string \<times> oidc_secret result \<times> time) multiset" where
  "pending_logins lib ci db = filter_mset (\<lambda>(_, _, secret, _). is_ok secret)
     (image_mset (\<lambda>r. (lt_state_hash r, lt_browser_binding_hash r, decrypt_transaction lib ci (lt_payload r) (lt_id r), lt_expires_at r))
        (mset (login_transactions db)))"

definition pending_completions :: "'x oidc_db_scheme \<Rightarrow> (string \<times> string \<times> string \<times> time) multiset" where
  "pending_completions db =
     image_mset (\<lambda>r. (lc_code_hash r, lc_browser_binding_hash r, lc_user_id r, lc_expires_at r)) (mset (login_completions db))"

lemma transaction_round_trip:
  assumes "crypto_ok lib ci" "encrypt_transaction lib ci rand secret ident = Inr payload"
  shows "decrypt_transaction lib ci payload ident =
    (if os_code_verifier secret \<noteq> [] \<and> os_nonce secret \<noteq> [] then Inr secret
     else Inl (ValueError ''OIDC transaction secret is incomplete''))"
proof -
  let ?m = "[(''code_verifier'', os_code_verifier secret), (''nonce'', os_nonce secret)]"
  have "decrypt lib ci payload ''__oidc__'' ident ''oidc-transaction'' = Inr (sort_key fst ?m)"
    using assms by (intro decrypt_encrypt) (auto simp: crypto_ok_def encrypt_transaction_def)
  moreover have "''code_verifier'' \<le> ''nonce''" by code_simp
  then have "sort_key fst ?m = ?m" by simp
  ultimately show ?thesis by (simp add: decrypt_transaction_def some_text_def)
qed

text \<open>The first row under a digest is one of the table, and dropping it leaves at most the others.\<close>

lemma mset_filter_drop: "r \<in> set t \<Longrightarrow> \<not> P r \<Longrightarrow> add_mset r (mset (filter P t)) \<subseteq># mset t"
  by (induction t) (auto simp: subset_mset.add_mono add_mset_commute intro: subset_mset.order_trans)

lemma pending_logins_mono:
  "mset (login_transactions db') \<subseteq># mset (login_transactions db) \<Longrightarrow> pending_logins lib ci db' \<subseteq># pending_logins lib ci db"
  unfolding pending_logins_def by (intro multiset_filter_mono image_mset_subseteq_mono)

lemma pending_completions_mono:
  "mset (login_completions db') \<subseteq># mset (login_completions db) \<Longrightarrow> pending_completions db' \<subseteq># pending_completions db"
  unfolding pending_completions_def by (intro image_mset_subseteq_mono)

lemma mset_filter_le: "mset (filter P t) \<subseteq># mset t"
  by (simp add: mset_filter multiset_filter_subset)

lemma consume_login_Inr:
  assumes "consume_login lib ci sha state binding now db = (Inr secret, db')"
  obtains r where "r \<in> set (login_transactions db)" "lt_state_hash r = sha state" "lt_browser_binding_hash r = sha binding"
    "now < lt_expires_at r" "decrypt_transaction lib ci (lt_payload r) (lt_id r) = Inr secret" "db' = drop_transaction r db"
  using assms by (auto simp: consume_login_def dest!: row_of_SomeD split: option.splits if_splits sum.splits)

lemma consume_login_tables:
  assumes "consume_login lib ci sha state binding now db = (res, db')"
  shows "mset (login_transactions db') \<subseteq># mset (login_transactions db)" "login_completions db' = login_completions db"
  using assms by (auto simp: consume_login_def drop_transaction_def mset_filter_le split: option.splits if_splits sum.splits)

lemma begin_login_tables:
  assumes "begin_login lib ci sha rand ident state binding secret ttl now db = (res, db')"
  shows "login_completions db' = login_completions db"
    and "res = Inl e \<Longrightarrow> db' = db"
    and "res = Inr () \<Longrightarrow> \<exists>payload. encrypt_transaction lib ci rand secret ident = Inr payload \<and>
      login_transactions db' = filter (\<lambda>r. \<not> lt_expires_at r \<le> now) (login_transactions db) @
        [\<lparr>lt_id = ident, lt_state_hash = sha state, lt_browser_binding_hash = sha binding, lt_payload = payload,
          lt_created_at = now, lt_expires_at = now + seconds ttl\<rparr>]"
  using assms by (auto simp: begin_login_def insert_row_Some split: option.splits sum.splits)

lemma consume_completion_Inr:
  assumes "consume_completion sha code binding now db = (Inr user, db')"
  obtains r u where "r \<in> set (login_completions db)" "lc_code_hash r = sha code" "lc_browser_binding_hash r = sha binding"
    "now < lc_expires_at r" "lc_user_id r = user" "db' = drop_completion r db"
    "row_of us_id (users db) user = Some u" "us_active u"
  using assms by (auto simp: consume_completion_def dest!: row_of_SomeD [where key = lc_code_hash] split: option.splits if_splits)

lemma consume_completion_tables:
  assumes "consume_completion sha code binding now db = (res, db')"
  shows "mset (login_completions db') \<subseteq># mset (login_completions db)" "login_transactions db' = login_transactions db"
  using assms by (auto simp: consume_completion_def drop_completion_def mset_filter_le split: option.splits if_splits)

lemma create_completion_tables:
  assumes "create_completion sha token user binding ttl now db = (res, db')"
  shows "login_transactions db' = login_transactions db"
    and "res = Inl e \<Longrightarrow> db' = db"
    and "res = Inr code \<Longrightarrow> login_completions db' = filter (\<lambda>r. \<not> lc_expires_at r \<le> now) (login_completions db) @
        [\<lparr>lc_code_hash = sha code, lc_browser_binding_hash = sha binding, lc_user_id = user,
          lc_created_at = now, lc_expires_at = now + seconds ttl\<rparr>]"
  using assms by (auto simp: create_completion_def Let_def insert_row_Some split: option.splits)

section \<open>Each ticket is honoured once\<close>

lemma no_use: "\<exists>M. rel_mset R M {#} \<and> P + M \<subseteq># Q" if "P \<subseteq># Q"
  using that by (intro exI [of _ "{#}"]) (simp add: rel_mset_Zero)

lemma one_use: "\<exists>M. rel_mset R M {#u#} \<and> P + M \<subseteq># Q" if "R t u" "add_mset t P \<subseteq># Q"
  using that by (intro exI [of _ "{#t#}"]) (auto intro: rel_mset_Plus simp: rel_mset_Zero)

lemma login_ticket_law:
  assumes ok: "crypto_ok lib ci" and step: "sso_step lib ci sha db e db'"
  shows "\<exists>M. rel_mset in_time M (logins_consumed sha e) \<and> pending_logins lib ci db' + M \<subseteq># pending_logins lib ci db + logins_begun sha e"
  using step
proof cases
  case (sso_begin rand ident state binding secret ttl now)
  obtain payload where p: "encrypt_transaction lib ci rand secret ident = Inr payload"
    and t: "login_transactions db' = filter (\<lambda>r. \<not> lt_expires_at r \<le> now) (login_transactions db) @
        [\<lparr>lt_id = ident, lt_state_hash = sha state, lt_browser_binding_hash = sha binding, lt_payload = payload,
          lt_created_at = now, lt_expires_at = now + seconds ttl\<rparr>]"
    using begin_login_tables(3) [OF sso_begin(2) refl] by blast
  let ?kept = "filter (\<lambda>r. \<not> lt_expires_at r \<le> now) (login_transactions db)"
  have "pending_logins lib ci db' \<subseteq># pending_logins lib ci (db\<lparr>login_transactions := ?kept\<rparr>) + logins_begun sha e"
    using transaction_round_trip [OF ok p] by (simp add: pending_logins_def t sso_begin(1))
  also have "\<dots> \<subseteq># pending_logins lib ci db + logins_begun sha e"
    by (intro subset_mset.add_right_mono pending_logins_mono) (simp add: mset_filter_le)
  finally show ?thesis using no_use by (simp add: sso_begin(1))
next
  case (sso_consume state binding now secret)
  obtain r where r: "r \<in> set (login_transactions db)" "lt_state_hash r = sha state" "lt_browser_binding_hash r = sha binding"
    "now < lt_expires_at r" "decrypt_transaction lib ci (lt_payload r) (lt_id r) = Inr secret" "db' = drop_transaction r db"
    using consume_login_Inr [OF sso_consume(2)] .
  have "add_mset r (mset (login_transactions db')) \<subseteq># mset (login_transactions db)"
    using mset_filter_drop [OF r(1)] by (simp add: r(6) drop_transaction_def)
  then have "pending_logins lib ci (db'\<lparr>login_transactions := r # login_transactions db'\<rparr>) \<subseteq># pending_logins lib ci db"
    by (intro pending_logins_mono) simp
  then have "add_mset (sha state, sha binding, Inr secret, lt_expires_at r) (pending_logins lib ci db') \<subseteq># pending_logins lib ci db"
    using r(2,3,5) by (simp add: pending_logins_def)
  from one_use [of in_time, OF _ this, of "(sha state, sha binding, Inr secret, now)"] show ?thesis
    using r(4) by (simp add: sso_consume(1))
qed (auto intro!: no_use pending_logins_mono dest: begin_login_tables(2) [OF _ refl]
    simp: consume_login_tables create_completion_tables(1) consume_completion_tables)

lemma completion_ticket_law:
  assumes step: "sso_step lib ci sha db e db'"
  shows "\<exists>M. rel_mset in_time M (completions_consumed sha e) \<and>
    pending_completions db' + M \<subseteq># pending_completions db + completions_created sha e"
  using step
proof cases
  case (sso_create token user binding ttl now code)
  let ?kept = "filter (\<lambda>r. \<not> lc_expires_at r \<le> now) (login_completions db)"
  have "pending_completions db' \<subseteq># pending_completions (db\<lparr>login_completions := ?kept\<rparr>) + completions_created sha e"
    using create_completion_tables(3) [OF sso_create(2) refl] by (simp add: pending_completions_def sso_create(1))
  also have "\<dots> \<subseteq># pending_completions db + completions_created sha e"
    by (intro subset_mset.add_right_mono pending_completions_mono) (simp add: mset_filter_le)
  finally show ?thesis using no_use by (simp add: sso_create(1))
next
  case (sso_redeem code binding now user)
  obtain r u where r: "r \<in> set (login_completions db)" "lc_code_hash r = sha code" "lc_browser_binding_hash r = sha binding"
    "now < lc_expires_at r" "lc_user_id r = user" "db' = drop_completion r db"
    using consume_completion_Inr [OF sso_redeem(2)] by blast
  have "add_mset r (mset (login_completions db')) \<subseteq># mset (login_completions db)"
    using mset_filter_drop [OF r(1)] by (simp add: r(6) drop_completion_def)
  then have "pending_completions (db'\<lparr>login_completions := r # login_completions db'\<rparr>) \<subseteq># pending_completions db"
    by (intro pending_completions_mono) simp
  then have "add_mset (sha code, sha binding, user, lc_expires_at r) (pending_completions db') \<subseteq># pending_completions db"
    using r(2,3,5) by (simp add: pending_completions_def)
  from one_use [of in_time, OF _ this, of "(sha code, sha binding, user, now)"] show ?thesis
    using r(4) by (simp add: sso_redeem(1))
qed (auto intro!: no_use pending_completions_mono dest: create_completion_tables(2) [OF _ refl]
    simp: begin_login_tables(1) consume_login_tables consume_completion_tables)

text \<open>Both tables are ticket stores; the logins need the laws of the cipher to read a payload back.\<close>

definition sound_step ::
  "secret_library \<Rightarrow> cipher \<Rightarrow> (string \<Rightarrow> string) \<Rightarrow> 'x oidc_db_scheme \<Rightarrow> login_event \<Rightarrow> 'x oidc_db_scheme \<Rightarrow> bool" where
  "sound_step lib ci sha db e db' \<longleftrightarrow> crypto_ok lib ci \<and> sso_step lib ci sha db e db'"

lemma sound_traces: "traces (sso_step lib ci sha) db tr db' \<Longrightarrow> crypto_ok lib ci \<Longrightarrow> traces (sound_step lib ci sha) db tr db'"
  by (induction rule: traces.induct) (auto intro: traces.intros simp: sound_step_def)

interpretation login_tickets:
  ticket_store "sound_step lib ci sha" "pending_logins lib ci" "logins_begun sha" "logins_consumed sha" in_time
  for lib ci sha
  by unfold_locales (use login_ticket_law in \<open>auto simp: sound_step_def\<close>)

interpretation completion_tickets:
  ticket_store "sso_step lib ci sha" pending_completions "completions_created sha" "completions_consumed sha" in_time
  for lib ci sha
  by unfold_locales (rule completion_ticket_law)

text \<open>
  C34. A login happens once, in the browser that started it, and in time. In any interleaving of login
  transactions from empty tables, given the row locks that the code takes (\<open>SELECT ... FOR UPDATE\<close>, which
  SQLite ignores), the consumed login states match distinct begun logins (\<open>rel_mset\<close>) of the same state and
  the same browser binding, up to their digests, whose verifier and nonce are the ones handed out and which
  have not expired; and the redeemed completion codes match distinct created completions for the same code,
  browser and user, not expired. A replayed state or code, one from another browser or a late one is
  therefore never honoured.
\<close>

theorem login_tickets_are_honoured_once:
  assumes "crypto_ok lib ci" "traces (sso_step lib ci sha) db tr db'"
    and "login_transactions db = []" "login_completions db = []"
  shows "(\<exists>M. M \<subseteq># (\<Sum>e\<leftarrow>tr. logins_begun sha e) \<and> rel_mset in_time M (\<Sum>e\<leftarrow>tr. logins_consumed sha e)) \<and>
    (\<exists>M. M \<subseteq># (\<Sum>e\<leftarrow>tr. completions_created sha e) \<and> rel_mset in_time M (\<Sum>e\<leftarrow>tr. completions_consumed sha e))"
  by (intro conjI login_tickets.matched [OF sound_traces [OF assms(2,1)]] completion_tickets.matched [OF assms(2)])
     (simp_all add: pending_logins_def pending_completions_def assms(3,4))

section \<open>What a login proves\<close>

text \<open>An endpoint the service may use: no credentials or fragment, HTTPS in production, an allowed target.\<close>

definition endpoint_allowed :: "oidc_settings \<Rightarrow> 'k oidc_provider \<Rightarrow> string \<Rightarrow> bool" where
  "endpoint_allowed oc op value \<longleftrightarrow> (\<exists>url host port target. op_urlsplit op value = Some url \<and> some_text (su_hostname url) = Some host \<and>
     some_text (su_username url) = None \<and> some_text (su_password url) = None \<and> su_fragment url = [] \<and>
     lower (su_scheme url) \<in> {''http'', ''https''} \<and> (oc_production oc \<longrightarrow> lower (su_scheme url) = ''https'') \<and>
     resolve_target (op_network op) host port (oc_allow_private_provider oc) = Inr target)"

lemma case_option_Inr:
  "(case x of None \<Rightarrow> Inl e | Some y \<Rightarrow> f y) = Inr r \<longleftrightarrow> (\<exists>y. x = Some y \<and> f y = Inr r)"
  by (cases x) auto

lemma guard_Inr: "(if c then Inl e else x) = Inr r \<longleftrightarrow> \<not> c \<and> x = Inr r"
  by simp

lemma case_sum_Inr: "(case x of Inl _ \<Rightarrow> Inl e | Inr _ \<Rightarrow> y) = Inr r \<longleftrightarrow> (\<exists>a. x = Inr a \<and> y = Inr r)"
  by (cases x) auto

lemma endpoint_allowed: "validate_remote_url oc op value label = Inr () \<Longrightarrow> endpoint_allowed oc op value"
  unfolding endpoint_allowed_def validate_remote_url_def provider_error_def Let_def case_option_Inr guard_Inr case_sum_Inr bindE_Inr
  by auto

definition metadata_ok :: "oidc_settings \<Rightarrow> 'k oidc_provider \<Rightarrow> provider_metadata \<Rightarrow> bool" where
  "metadata_ok oc op md \<longleftrightarrow> pm_issuer md = oc_issuer oc \<and> pm_signing_algorithms md \<noteq> [] \<and>
     set (pm_signing_algorithms md) \<subseteq> set safe_algorithms \<and>
     list_all (endpoint_allowed oc op) [pm_authorization_endpoint md, pm_token_endpoint md, pm_jwks_uri md]"

lemma safe_text: "set (safe_text v) \<subseteq> set safe_algorithms"
  by (cases v) auto

lemma discovery_ok:
  assumes "discovery oc op = Inr md"
  shows "metadata_ok oc op md"
proof -
  let ?check = "validate_remote_url oc op"
  obtain a t k signing where "?check a ''OIDC authorization endpoint'' = Inr ()" "?check t ''OIDC token endpoint'' = Inr ()"
    "?check k ''OIDC JWKS endpoint'' = Inr ()" "signing \<noteq> []" "set signing \<subseteq> set safe_algorithms"
    "md = \<lparr>pm_issuer = oc_issuer oc, pm_authorization_endpoint = a, pm_token_endpoint = t, pm_jwks_uri = k, pm_signing_algorithms = signing\<rparr>"
    using assms safe_text unfolding discovery_def provider_error_def
    by (fastforce simp: Let_def bindE_Inr split: option.splits if_splits json.splits)
  then show ?thesis using endpoint_allowed by (auto simp: metadata_ok_def)
qed

text \<open>
  What it means that the provider vouches for a subject and an address: a token obtained for the code with
  the verifier, its claims accepted by the library under the provider's keys for this issuer, client and
  nonce with permitted algorithms, and meant for this client.
\<close>

definition vouched :: "oidc_settings \<Rightarrow> 'k oidc_provider \<Rightarrow> string \<Rightarrow> oidc_secret \<Rightarrow> string \<Rightarrow> string \<Rightarrow> bool" where
  "vouched oc op code secret subject email \<longleftrightarrow> (\<exists>md token id_token keys claims.
     metadata_ok oc op md \<and> op_exchange op (pm_token_endpoint md) code (os_code_verifier secret) = Some token \<and>
     map_of token ''id_token'' = Some (JText id_token) \<and>
     jwks op md = Inr keys \<and>
     op_claims op keys (pm_signing_algorithms md) (oc_issuer oc) (oc_client_id oc) (os_nonce secret) (map_of token ''access_token'') id_token =
       Some claims \<and>
     map_of claims ''azp'' \<in> {None, Some JNull, Some (JText (oc_client_id oc))} \<and>
     map_of claims ''sub'' = Some (JText subject) \<and> subject \<noteq> [] \<and> length subject \<le> 255 \<and>
     map_of claims ''email'' = Some (JText email) \<and> email_pattern (lower (strip email)) \<and>
     (oc_require_verified_email oc \<longrightarrow> map_of claims ''email_verified'' = Some (JBool True)))"

lemma text_field_Some: "text_field kvs key = Some s \<longleftrightarrow> map_of kvs key = Some (JText s) \<and> s \<noteq> []"
  by (auto simp: text_field_def split: option.splits json.splits)

lemma claimed_identity_Inr:
  "claimed_identity oc claims = Inr (subject, email) \<Longrightarrow>
   map_of claims ''sub'' = Some (JText subject) \<and> subject \<noteq> [] \<and> length subject \<le> 255 \<and>
   map_of claims ''email'' = Some (JText email) \<and> email_pattern (lower (strip email)) \<and>
   (oc_require_verified_email oc \<longrightarrow> map_of claims ''email_verified'' = Some (JBool True))"
  by (auto simp: claimed_identity_def text_field_Some split: option.splits json.splits if_splits)

lemma validate_id_token_Inr:
  "validate_id_token oc op md nonce access_token id_token = Inr claims \<Longrightarrow>
   \<exists>keys. jwks op md = Inr keys \<and> op_claims op keys (pm_signing_algorithms md) (pm_issuer md) (oc_client_id oc) nonce access_token id_token = Some claims \<and>
     map_of claims ''azp'' \<in> {None, Some JNull, Some (JText (oc_client_id oc))}"
  by (auto simp: validate_id_token_def bindE_Inr split: option.splits if_splits)

lemma vouched_identity_Inr:
  assumes "vouched_identity oc op code secret = Inr (md, subject, email)"
  shows "vouched oc op code secret subject email" "pm_issuer md = oc_issuer oc"
proof -
  obtain token id_token claims where d: "discovery oc op = Inr md"
    and t: "op_exchange op (pm_token_endpoint md) code (os_code_verifier secret) = Some token" "text_field token ''id_token'' = Some id_token"
    and c: "validate_id_token oc op md (os_nonce secret) (map_of token ''access_token'') id_token = Inr claims"
      "claimed_identity oc claims = Inr (subject, email)"
    using assms unfolding vouched_identity_def provider_error_def bindE_Inr case_option_Inr by auto
  have md: "metadata_ok oc op md" using discovery_ok [OF d] .
  then show "pm_issuer md = oc_issuer oc" by (simp add: metadata_ok_def)
  then show "vouched oc op code secret subject email"
    using md t validate_id_token_Inr [OF c(1)] claimed_identity_Inr [OF c(2)] unfolding vouched_def text_field_Some by metis
qed

lemma resolve_identity_user:
  assumes "resolve_identity sha env ident issuer subject email now db = (Inr user, db')"
  shows "\<exists>u \<in> set (users db). us_id u = user \<and> us_active u \<and>
    (links db (sha issuer, subject) = Some user \<or> links db (sha issuer, subject) = None \<and> us_email u = lower (strip email))"
proof (cases "find_identity (sha issuer) subject db")
  case None
  have link: "x = oi_user_id new" if "link_identity env new db = (Inr x, db')" for new x
    using that by (auto simp: link_identity_def Let_def split: option.splits if_splits)
  obtain u where u: "first_where (\<lambda>u. us_email u = lower (strip email)) (users db) = Some u" "us_active u"
    using assms None by (auto simp: resolve_identity_def Let_def split: option.splits if_splits)
  then have "user = us_id u"
    using assms None by (auto simp: resolve_identity_def Let_def dest: link split: option.splits if_splits)
  then show ?thesis using u None by (auto simp: first_where_def links_def dest: find_SomeD)
next
  case (Some r)
  then obtain u where u: "row_of us_id (users db) (oi_user_id r) = Some u" "us_active u" "user = us_id u"
    using assms by (auto simp: resolve_identity_def Let_def split: option.splits if_splits prod.splits sum.splits)
  then show ?thesis using row_of_SomeD [OF u(1)] Some by (auto simp: links_def)
qed

lemma create_completion_row:
  "create_completion sha token user binding ttl now db = (Inr code, db') \<Longrightarrow>
   \<exists>c \<in> set (login_completions db'). lc_code_hash c = sha code \<and> lc_browser_binding_hash c = sha binding \<and>
     lc_user_id c = user \<and> lc_expires_at c = now + seconds ttl"
  using create_completion_tables(3) [OF _ refl] by fastforce

text \<open>
  C19. A login needs the provider's word for an active user, given to the browser that started it. When \<open>complete_authorization\<close> answers a completion code, whatever others commit meanwhile: single
  sign-on is enabled; a login was begun with this state in this browser and has not expired; with the verifier
  and the nonce kept for it the configured provider vouches for a subject and an address (\<open>vouched\<close>: endpoints
  that are allowed targets, a permitted algorithm, this client, a verified address where required); the user
  is active and either linked to that subject or, for an unlinked subject, the owner of that address; and
  the code stands for that user and this browser until its time is over.
\<close>

theorem login_needs_the_provider:
  assumes "complete_authorization oc op lib ci sha env ident token code state binding clock db = (Inr raw, db')"
  shows "oc_enabled oc \<and> (\<exists>r secret subject email u c.
    r \<in> set (login_transactions db) \<and> lt_state_hash r = sha state \<and> lt_browser_binding_hash r = sha binding \<and> clock 0 < lt_expires_at r \<and>
    decrypt_transaction lib ci (lt_payload r) (lt_id r) = Inr secret \<and> vouched oc op code secret subject email \<and>
    u \<in> set (users (env 0 (drop_transaction r db))) \<and> us_active u \<and>
    (links (env 0 (drop_transaction r db)) (sha (oc_issuer oc), subject) = Some (us_id u) \<or>
     links (env 0 (drop_transaction r db)) (sha (oc_issuer oc), subject) = None \<and> us_email u = lower (strip email)) \<and>
    c \<in> set (login_completions db') \<and> lc_code_hash c = sha raw \<and> lc_browser_binding_hash c = sha binding \<and>
    lc_user_id c = us_id u \<and> lc_expires_at c = clock 2 + seconds (oc_completion_ttl oc))"
proof -
  obtain secret db1 md subject email user db2 where "oc_enabled oc"
    and consumed: "consume_login lib ci sha state binding (clock 0) db = (Inr secret, db1)"
    and vouch: "vouched_identity oc op code secret = Inr (md, subject, email)"
    and user: "resolve_identity sha (\<lambda>n. env (n + 1)) ident (pm_issuer md) subject email (clock 1) (env 0 db1) = (Inr user, db2)"
    and code: "create_completion sha token user binding (oc_completion_ttl oc) (clock 2) (env 3 db2) = (Inr raw, db')"
    using assms by (auto simp: complete_authorization_def require_enabled_def bindE_Inr split: prod.splits sum.splits if_splits)
  obtain r where r: "r \<in> set (login_transactions db)" "lt_state_hash r = sha state" "lt_browser_binding_hash r = sha binding"
    "clock 0 < lt_expires_at r" "decrypt_transaction lib ci (lt_payload r) (lt_id r) = Inr secret" and db1: "db1 = drop_transaction r db"
    using consume_login_Inr [OF consumed] .
  have md: "pm_issuer md = oc_issuer oc" using vouched_identity_Inr [OF vouch] by simp
  obtain u where u: "u \<in> set (users (env 0 db1))" "us_id u = user" "us_active u"
    "links (env 0 db1) (sha (oc_issuer oc), subject) = Some user \<or>
     links (env 0 db1) (sha (oc_issuer oc), subject) = None \<and> us_email u = lower (strip email)"
    using resolve_identity_user [OF user] unfolding md by blast
  obtain c where c: "c \<in> set (login_completions db')" "lc_code_hash c = sha raw" "lc_browser_binding_hash c = sha binding"
    "lc_user_id c = user" "lc_expires_at c = clock 2 + seconds (oc_completion_ttl oc)"
    using create_completion_row [OF code] by blast
  show ?thesis
    using \<open>oc_enabled oc\<close> r u [folded u(2), unfolded db1] c [folded u(2)] vouched_identity_Inr(1) [OF vouch]
    by (intro conjI exI [of _ r] exI [of _ secret] exI [of _ subject] exI [of _ email] exI [of _ u] exI [of _ c]) simp_all
qed

section \<open>Instances\<close>

definition sso_user :: "string \<Rightarrow> user_row" where
  "sso_user u = \<lparr>us_id = u, us_email = u @ ''@acme.io'', us_display_name = u, us_password_hash = [], us_active = True, us_created_at = 0\<rparr>"

definition sso_base :: oidc_db where
  "sso_base = (retention_db.extend history_base (oidc_db.fields [] [] []))\<lparr>users := [sso_user ''ann'', sso_user ''bob'']\<rparr>"

definition sso_settings :: oidc_settings where
  "sso_settings = \<lparr>oc_enabled = True, oc_production = True, oc_issuer = ''https://idp'', oc_client_id = ''hawk'',
     oc_token_auth_method = ''client_secret_basic'', oc_require_verified_email = True, oc_allow_private_provider = False,
     oc_transaction_ttl = 600, oc_completion_ttl = 60\<rparr>"

definition sso_provider :: "unit oidc_provider" where
  "sso_provider = \<lparr>
     op_urlsplit = (\<lambda>_. Some \<lparr>su_scheme = ''https'', su_username = None, su_password = None, su_hostname = Some ''93.184.216.34'',
       su_port = Inr None, su_path = [], su_query = [], su_fragment = []\<rparr>),
     op_network = demo_network,
     op_get = (\<lambda>_. Some (JObj [(''issuer'', JText ''https://idp''), (''authorization_endpoint'', JText ''a''), (''token_endpoint'', JText ''t''),
       (''jwks_uri'', JText ''k''), (''id_token_signing_alg_values_supported'', JList [JText ''HS256'', JText ''RS256''])])),
     op_exchange = (\<lambda>endpoint code verifier. if code = ''code'' \<and> verifier = ''v'' then Some [(''id_token'', JText ''jwt'')] else None),
     op_import_keys = (\<lambda>_. Some ()),
     op_claims = (\<lambda>keys algorithms issuer client nonce access_token id_token.
       if nonce = ''n'' \<and> algorithms = [''RS256'']
       then Some [(''sub'', JText ''s''), (''email'', JText ''ANN@acme.io''), (''email_verified'', JBool True)] else None),
     op_authorization_url = (\<lambda>endpoint state nonce verifier. endpoint @ state)\<rparr>"

definition sso_begun :: oidc_db where
  "sso_begun = snd (begin_authorization sso_settings sso_provider toy_library old_cipher id
     \<lparr>lr_state = ''st'', lr_nonce = ''n'', lr_code_verifier = ''v'', lr_ident = ''l'', lr_bytes = [1]\<rparr> ''b'' 5 sso_base)"

lemma sso_completes:
  "is_ok (fst (complete_authorization sso_settings sso_provider toy_library old_cipher id (\<lambda>_. id) ''i'' ''c'' ''code'' ''st'' ''b'' (\<lambda>_. 6) sso_begun))"
  by code_simp

theorem login_needs_the_provider_witness:
  "\<exists>secret subject email (u :: user_row). vouched sso_settings sso_provider ''code'' secret subject email \<and> us_active u \<and> us_email u = lower (strip email)"
proof -
  obtain raw db' where run: "complete_authorization sso_settings sso_provider toy_library old_cipher id (\<lambda>_. id) ''i'' ''c'' ''code'' ''st'' ''b''
      (\<lambda>_. 6) sso_begun = (Inr raw, db')"
    using sso_completes by (cases "complete_authorization sso_settings sso_provider toy_library old_cipher id (\<lambda>_. id) ''i'' ''c'' ''code'' ''st'' ''b''
      (\<lambda>_. 6) sso_begun") (auto simp: is_ok_def split: sum.splits)
  have empty: "oidc_identities sso_begun = []" by code_simp
  have none: "links (id (drop_transaction r sso_begun)) x \<noteq> Some v" for r x v
    by (cases x) (simp add: links_def find_identity_def first_where_def drop_transaction_def empty)
  from conjunct2 [OF login_needs_the_provider [OF run]] show ?thesis
  proof (elim exE conjE)
    fix r secret subject email and u :: user_row
    assume vouch: "vouched sso_settings sso_provider ''code'' secret subject email" and active: "us_active u"
      and "links (id (drop_transaction r sso_begun)) (id (oc_issuer sso_settings), subject) = Some (us_id u) \<or>
        links (id (drop_transaction r sso_begun)) (id (oc_issuer sso_settings), subject) = None \<and> us_email u = lower (strip email)"
    then have "us_email u = lower (strip email)" using none by metis
    with vouch active show ?thesis by blast
  qed
qed

definition sso_db1 :: oidc_db where
  "sso_db1 = snd (begin_login toy_library old_cipher id [1] ''l'' ''st'' ''b'' \<lparr>os_code_verifier = ''v'', os_nonce = ''n''\<rparr> 600 5 sso_base)"

definition sso_db2 :: oidc_db where
  "sso_db2 = snd (consume_login toy_library old_cipher id ''st'' ''b'' 6 sso_db1)"

definition sso_db3 :: oidc_db where
  "sso_db3 = snd (create_completion id ''c'' ''ann'' ''b'' 60 7 sso_db2)"

definition sso_db4 :: oidc_db where
  "sso_db4 = snd (consume_completion id ''choc_c'' ''b'' 8 sso_db3)"

definition sso_trace :: "login_event list" where
  "sso_trace = [CompletionConsumed ''choc_c'' ''b'' ''ann'' 8, CompletionCreated ''choc_c'' ''b'' ''ann'' (7 + seconds 60),
     LoginConsumed ''st'' ''b'' \<lparr>os_code_verifier = ''v'', os_nonce = ''n''\<rparr> 6,
     LoginBegun ''st'' ''b'' \<lparr>os_code_verifier = ''v'', os_nonce = ''n''\<rparr> (5 + seconds 600)]"

lemma sso_answers:
  "fst (begin_login toy_library old_cipher id [1] ''l'' ''st'' ''b'' \<lparr>os_code_verifier = ''v'', os_nonce = ''n''\<rparr> 600 5 sso_base) = Inr ()"
  "fst (consume_login toy_library old_cipher id ''st'' ''b'' 6 sso_db1) = Inr \<lparr>os_code_verifier = ''v'', os_nonce = ''n''\<rparr>"
  "fst (create_completion id ''c'' ''ann'' ''b'' 60 7 sso_db2) = Inr ''choc_c''"
  "fst (consume_completion id ''choc_c'' ''b'' 8 sso_db3) = Inr ''ann''"
  by code_simp+

lemma call_eqI: "fst p = a \<Longrightarrow> snd p = b \<Longrightarrow> p = (a, b)"
  by (simp add: prod_eq_iff)

lemma sso_trace: "traces (sso_step toy_library old_cipher id) sso_base sso_trace sso_db4"
proof -
  note steps = sso_begin [OF call_eqI, OF sso_answers(1) sso_db1_def [symmetric]] sso_consume [OF call_eqI, OF sso_answers(2) sso_db2_def [symmetric]]
    sso_create [OF call_eqI, OF sso_answers(3) sso_db3_def [symmetric]] sso_redeem [OF call_eqI, OF sso_answers(4) sso_db4_def [symmetric]]
  show ?thesis
    unfolding sso_trace_def
    by (rule traces_step [OF traces_step [OF traces_step [OF traces_step [OF traces_refl]]]]) (fact steps)+
qed

theorem login_tickets_are_honoured_once_witness:
  "(\<exists>M. M \<subseteq># (\<Sum>e\<leftarrow>sso_trace. logins_begun id e) \<and> rel_mset in_time M (\<Sum>e\<leftarrow>sso_trace. logins_consumed id e)) \<and>
   (\<Sum>e\<leftarrow>sso_trace. logins_consumed id e) \<noteq> {#} \<and> (\<Sum>e\<leftarrow>sso_trace. completions_consumed id e) \<noteq> {#}"
proof -
  have "login_transactions sso_base = []" "login_completions sso_base = []" by (simp_all add: sso_base_def retention_db.defs oidc_db.defs)
  from login_tickets_are_honoured_once [OF sample_crypto(1) sso_trace this]
  show ?thesis by (simp add: sso_trace_def)
qed

theorem sso_links_are_permanent_and_exclusive_witness:
  "\<exists>db'. resolve_identity id (\<lambda>_. id) ''j'' ''https://idp'' ''t'' ''bob@acme.io'' 9
      (snd (resolve_identity id (\<lambda>_. id) ''i'' ''https://idp'' ''s'' ''ann@acme.io'' 8 sso_base)) = (Inr ''bob'', db') \<and>
    links_grow sso_base db' \<and> links_ok db' \<and> (''bob'' = ''ann'' \<longleftrightarrow> ''t'' = ''s'')"
proof -
  let ?one = "resolve_identity id (\<lambda>_. id) ''i'' ''https://idp'' ''s'' ''ann@acme.io'' 8 sso_base"
  let ?two = "resolve_identity id (\<lambda>_. id) ''j'' ''https://idp'' ''t'' ''bob@acme.io'' 9 (snd ?one)"
  have "fst ?one = Inr ''ann''" "fst ?two = Inr ''bob''" by code_simp+
  then have one: "?one = (Inr ''ann'', snd ?one)" and two: "?two = (Inr ''bob'', snd ?two)" by (simp_all add: prod_eq_iff)
  have ok: "links_ok sso_base" by code_simp
  have stays: "links_grow d (id d)" for d :: oidc_db by simp
  from sso_links_are_permanent_and_exclusive [where env = "\<lambda>_. id" and env' = "\<lambda>_. id", OF ok stays one links_grow_refl stays two]
  show ?thesis using two by blast
qed

end
