(* ===== verification/Spec2Isabelle.thy ===== *)
theory Spec2Isabelle
  imports PolicyEvaluator QueueProperties Drift Remediation PolicyActivation CredentialVault RetentionSafety RepositoryDelta WorkerLeases
    SingleSignOn
begin

text \<open>
  A verification library for the services of CryptoHawk, a multi-tenant scanner of cryptography in
  use (\<^verbatim>\<open>src/src/cryptohawk\<close>). Scans of managed assets yield findings; a risk engine scores them,
  an organization's policy judges them, a durable queue runs the scans under tenant quotas,
  recurring scans report drift, and migration work is tracked until a rescan verifies it.

  \<^bold>\<open>Theories.\<close>
  \<^item> \<open>Prelude\<close>: exceptions as \<open>py_error\<close>, outcomes of operations, strings, tables as lists of
    rows with their lookup, update and count lemmas. \<open>Lifecycle\<close>: the locales \<open>lifecycle\<close>,
    \<open>ranked_lifecycle\<close> and \<open>step_system\<close>, interpreted where a component provides a status
    table or an invariant.
  \<^item> \<open>Algorithms\<close> (\<^verbatim>\<open>knowledge/algorithms.py\<close>), \<open>RiskEngine\<close> (\<^verbatim>\<open>risk/engine.py\<close>,
    \<^verbatim>\<open>domain/models.py\<close>), \<open>PolicyEvaluator\<close> (\<^verbatim>\<open>risk/policy.py\<close>, \<^verbatim>\<open>domain/policy.py\<close>): the pure core.
  \<^item> \<open>Inventory\<close> (\<^verbatim>\<open>storage/inventory.py\<close>), \<open>Quotas\<close> (\<^verbatim>\<open>storage/quotas.py\<close>), \<open>ScanQueue\<close>
    (\<^verbatim>\<open>storage/queue.py\<close>) with \<open>QueueInvariant\<close>, \<open>QueueRefinement\<close> and \<open>QueueProperties\<close>: scan jobs,
    rate limits, scan slots and the leased queue.
  \<^item> \<open>Findings\<close> (\<^verbatim>\<open>storage/database.py\<close>), \<open>Continuous\<close> (\<^verbatim>\<open>storage/continuous.py\<close>) with \<open>Drift\<close>,
    \<open>Remediation\<close> (\<^verbatim>\<open>storage/remediation.py\<close>): what a scan leaves behind.
  \<^item> \<open>Passwords\<close> (\<^verbatim>\<open>security/passwords.py\<close>), \<open>Auth\<close> (\<^verbatim>\<open>storage/auth.py\<close>, \<^verbatim>\<open>domain/auth.py\<close>) with
    \<open>AccessControl\<close>: users, sessions, memberships, API keys and what they allow. \<open>Oidc\<close>
    (\<^verbatim>\<open>storage/oidc.py\<close>, \<^verbatim>\<open>security/oidc.py\<close>, \<^verbatim>\<open>services/oidc.py\<close>) with \<open>SingleSignOn\<close>: logins
    through a provider; the locale \<open>ticket_store\<close> is interpreted on login states and completion codes.
  \<^item> \<open>PolicyStore\<close> (\<^verbatim>\<open>storage/policy.py\<close>) with \<open>PolicyHistory\<close> and \<open>PolicyActivation\<close>: policy packs,
    their numbered versions and the version each workspace has activated.
  \<^item> \<open>Secrets\<close> (\<^verbatim>\<open>security/secrets.py\<close>), \<open>Credentials\<close> (\<^verbatim>\<open>storage/credentials.py\<close>,
    \<^verbatim>\<open>domain/credentials.py\<close>) with \<open>CredentialVault\<close>: encrypted connector credentials, and the vault
    they implement.
  \<^item> \<open>Repositories\<close> (\<^verbatim>\<open>storage/repositories.py\<close>, \<^verbatim>\<open>storage/audit.py\<close>), \<open>Retention\<close>
    (\<^verbatim>\<open>storage/retention.py\<close>) with \<open>RetentionSafety\<close>: repository assets with the provenance of their
    scans, the audit log, the deletion of old history and of whole workspaces.
  \<^item> \<open>Paths\<close> (pathlib's names), \<open>SourceScanner\<close> (\<^verbatim>\<open>scanners/source.py\<close>) with \<open>SourceDetection\<close>: the
    detectors, the regular expressions they use, and the scan of a text.
  \<^item> \<open>Network\<close> (\<^verbatim>\<open>security/network.py\<close>): which addresses a scanner may contact.
    \<open>RepositoryScanner\<close> (\<^verbatim>\<open>scanners/repository.py\<close>) with \<open>RepositoryDelta\<close>: full and incremental scans.
    \<open>Endpoints\<close> (\<^verbatim>\<open>scanners/tls.py\<close>, \<^verbatim>\<open>certificates.py\<close>, \<^verbatim>\<open>ssh.py\<close>) with \<open>EndpointScans\<close>.
    \<open>ContainerImage\<close> (\<^verbatim>\<open>scanners/container_image.py\<close>) with \<open>ImageOverlay\<close>: image archives, their
    manifests and layers, and the files they hold together.
  \<^item> \<open>Executor\<close> (\<^verbatim>\<open>services/executor.py\<close>), \<open>Worker\<close> (\<^verbatim>\<open>services/worker.py\<close>) with \<open>WorkerRuns\<close>
    and \<open>WorkerLeases\<close>: the choice of the scanner, assessment, policy, and one run of a worker over all
    of the above; the locale \<open>queue_frame\<close> states what a scan needs to leave the queue alone.

  \<^bold>\<open>State.\<close> The database is one record per layer, each extending the one below (\<open>inv_db\<close>, \<open>quota_db\<close>,
  \<open>queue_db\<close>, \<open>findings_db\<close>, \<open>continuous_db\<close>, \<open>migration_db\<close>, \<open>auth_db\<close>, \<open>policy_db\<close>,
  \<open>credential_db\<close>, \<open>repository_db\<close>, \<open>retention_db\<close>, \<open>oidc_db\<close>), so an operation of a lower layer runs unchanged
  on the whole database. An operation returns its result or exception and the database as committed.
  Where an operation spans several transactions, the parameter \<open>env\<close> (\<open>mid\<close> inside one) is what other
  processes commit in between; \<open>alone\<close> is the absence of interference.

  \<^bold>\<open>Interleavings and failures.\<close> What others commit between the transactions of an operation is
  arbitrary within the rely of each theorem. The cancellation of a scan and the recovery of expired leases
  (\<^verbatim>\<open>storage/queue.py\<close>) write rows that they read earlier, without a guard: the positive theorems on the queue
  suppose that the jobs they read do not change their status in between (\<open>in_status\<close>, \<open>steady\<close>), and the
  theorems on the two races show what happens otherwise. Single updates with a condition, and rows read with
  \<open>FOR UPDATE\<close>, are atomic, as in PostgreSQL. A database call of the worker may raise before, between and after
  its commits (\<open>wd_fault\<close>, with the state it leaves given by the \<open>_stopped\<close> functions of \<open>Worker\<close>): what survives
  is the consistency of the queue, at the price of slots that stay taken.

  \<^bold>\<open>Parameters.\<close> SHA-256, scrypt, AES-GCM, the JSON texts that are hashed, fresh
  identifiers, tokens and the clock; Git, the work tree and the file system; the resolver, address
  parsing and URL splitting; the handshakes of TLS and SSH, the documents and tokens of an identity
  provider, the parsers of X.509, tar, zstd and JSON. They are arguments of the definitions that use
  them; what is assumed of them is a named hypothesis.

  \<^bold>\<open>Bounds.\<close> Loops of the code are structural recursions, or recursions with a termination proof;
  the only fuel is the code's own: five rounds over nested image indexes (\<open>find_manifest\<close>).

  \<^bold>\<open>Not modelled\<close>: the HTTP layer (\<^verbatim>\<open>api\<close>, routing over
  the modelled stores), the command line, configuration and observability, the reports and the CBOM
  export (documents assembled from the modelled data), the loops of the scheduler and of
  \<^verbatim>\<open>run_forever\<close>, the synchronous scan service, migrations, operational
  scripts and the frontend. Foreign keys and cascades of the database are not modelled.
\<close>

end
